(* ===== verification/Prelude.thy ===== *)
theory Prelude
  imports Complex_Main "HOL-Library.AList"
begin

text \<open>
  Shared vocabulary of the development: Python's exceptions as values, the sequencing of
  operations that may raise, \<open>for\<close> loops that may raise, insertion-ordered dictionaries as
  association lists, \<open>range\<close>, and list access that raises out of range.
\<close>

section \<open>Exceptions and results\<close>

text \<open>
  Every exception class the modelled sources raise, let escape or catch.  A computation
  that may raise returns \<open>Inl\<close> the exception or \<open>Inr\<close> its value.
\<close>

datatype py_error =
    AssertionError
  | AttributeError
  | IndexError
  | KeyError
  | NameError
  | NotImplementedError
  | RuntimeError
  | StopIteration
  | TimeoutError
  | TypeError
  | UnboundLocalError
  | ValueError
  | ZeroDivisionError
  | AllocError
  | NotADirectoryError
  | NotAllocatedError
  | QueueEmpty

type_synonym 'a result = "py_error + 'a"

text \<open>Facts that unfold or invert sequenced computations.\<close>

named_theorems result_simps

definition bindE :: "'e + 'x \<Rightarrow> ('x \<Rightarrow> 'e + 'y) \<Rightarrow> 'e + 'y" where
  "bindE r f = (case r of Inl e \<Rightarrow> Inl e | Inr x \<Rightarrow> f x)"

definition assertE :: "bool \<Rightarrow> 'e \<Rightarrow> 'e + unit" where
  "assertE b e = (if b then Inr () else Inl e)"

lemma bindE_Inl [simp]: "bindE (Inl e) k = Inl e"
  and bindE_Inr [simp]: "bindE (Inr a) k = k a"
  by (simp_all add: bindE_def)

lemma bindE_cong [fundef_cong]:
  "m = m' \<Longrightarrow> (\<And>a. m' = Inr a \<Longrightarrow> k a = k' a) \<Longrightarrow> bindE m k = bindE m' k'"
  by (cases m') simp_all

lemma bindE_eq_Inr [result_simps]:
  "bindE m k = Inr b \<longleftrightarrow> (\<exists>a. m = Inr a \<and> k a = Inr b)"
  by (cases m) simp_all

lemma bindE_eq_Inl [result_simps]:
  "bindE m k = Inl e \<longleftrightarrow> m = Inl e \<or> (\<exists>a. m = Inr a \<and> k a = Inl e)"
  by (cases m) simp_all

lemma bindE_assoc: "bindE (bindE m k) l = bindE m (\<lambda>a. bindE (k a) l)"
  by (cases m) simp_all

lemma assertE_simps [simp]: "assertE True e = Inr ()" "assertE False e = Inl e"
  by (simp_all add: assertE_def)

lemma assertE_eq_Inr [result_simps]: "assertE b e = Inr u \<longleftrightarrow> b"
  by (simp add: assertE_def)

lemma assertE_eq_Inl [result_simps]: "assertE b e = Inl e' \<longleftrightarrow> \<not> b \<and> e' = e"
  by (auto simp: assertE_def)

lemma case_None_raise [result_simps]:
  "(case x of None \<Rightarrow> Inl e | Some y \<Rightarrow> f y) = Inr r \<longleftrightarrow> (\<exists>y. x = Some y \<and> f y = Inr r)"
  by (cases x) simp_all

lemma bindE_InrE:
  assumes "bindE m k = Inr b"
  obtains a where "m = Inr a" and "k a = Inr b"
  using assms by (auto simp: result_simps)

section \<open>Loops over a sequence\<close>

text \<open>\<open>for x in xs: body\<close>, left at the first exception.\<close>

fun forE :: "('x \<Rightarrow> 's \<Rightarrow> 'e + 's) \<Rightarrow> 'x list \<Rightarrow> 's \<Rightarrow> 'e + 's" where
  "forE body [] s = Inr s"
| "forE body (x # xs) s = bindE (body x s) (forE body xs)"

lemma forE_append: "forE body (xs @ ys) s = bindE (forE body xs s) (forE body ys)"
proof (induction xs arbitrary: s)
  case Nil
  show ?case by simp
next
  case (Cons x xs)
  then show ?case by (cases "body x s") simp_all
qed

text \<open>A loop invariant that every iteration keeps holds at the end.\<close>

lemma forE_invariant:
  assumes "forE body xs s = Inr t" and "P s"
    and "\<And>x u v. x \<in> set xs \<Longrightarrow> P u \<Longrightarrow> body x u = Inr v \<Longrightarrow> P v"
  shows "P t"
  using assms
proof (induction xs arbitrary: s)
  case Nil
  then show ?case by simp
next
  case (Cons x xs)
  from Cons.prems(1) obtain u where u: "body x s = Inr u" "forE body xs u = Inr t"
    by (auto simp: result_simps)
  then have "P u" using Cons.prems(2,3) by auto
  with u(2) show ?case using Cons.IH Cons.prems(3) by (meson list.set_intros(2))
qed

text \<open>A loop whose body never raises under the invariant returns.\<close>

lemma forE_returns:
  assumes "P s"
    and "\<And>x u. x \<in> set xs \<Longrightarrow> P u \<Longrightarrow> \<exists>v. body x u = Inr v \<and> P v"
  shows "\<exists>t. forE body xs s = Inr t \<and> P t"
  using assms
proof (induction xs arbitrary: s)
  case Nil
  then show ?case by simp
next
  case (Cons x xs)
  obtain v where "body x s = Inr v" "P v" using Cons.prems by auto
  then show ?case using Cons.IH [of v] Cons.prems(2) by auto
qed

text \<open>\<open>range(n)\<close>: empty for \<open>n \<le> 0\<close>.\<close>

definition py_range :: "int \<Rightarrow> int list" where
  "py_range n = map int [0..<nat n]"

lemma set_py_range [simp]: "set (py_range n) = {0..<n}"
proof -
  have "i \<in> int ` {0..<nat n}" if "0 \<le> i" "i < n" for i
    using that by (intro image_eqI [of _ _ "nat i"]) auto
  then show ?thesis by (auto simp: py_range_def)
qed

lemma length_py_range [simp]: "length (py_range n) = nat n"
  by (simp add: py_range_def)

lemma distinct_py_range [simp]: "distinct (py_range n)"
  by (simp add: py_range_def distinct_map)

lemma nth_py_range: "k < nat n \<Longrightarrow> py_range n ! k = int k"
  by (simp add: py_range_def)

lemma py_range_nonpos [simp]: "n \<le> 0 \<Longrightarrow> py_range n = []"
  by (simp add: py_range_def)

lemma py_range_Suc: "0 \<le> n \<Longrightarrow> py_range (n + 1) = py_range n @ [n]"
  by (simp add: py_range_def nat_add_distrib)

section \<open>Dictionaries\<close>

text \<open>
  A Python dictionary keeps its keys in insertion order, and some of the sources iterate
  over one and take the first match.  It is an association list with distinct keys:
  \<open>AList.update\<close> overwrites in place or appends, as item assignment does, and \<open>map_of\<close>
  looks up.
\<close>

type_synonym ('k, 'v) dict = "('k \<times> 'v) list"

definition dict_get :: "('k, 'v) dict \<Rightarrow> 'k \<Rightarrow> 'v result" where
  "dict_get d k = (case map_of d k of None \<Rightarrow> Inl KeyError | Some v \<Rightarrow> Inr v)"

definition dict_pop :: "('k, 'v) dict \<Rightarrow> 'k \<Rightarrow> ('k, 'v) dict result" where
  "dict_pop d k = (case map_of d k of None \<Rightarrow> Inl KeyError | Some v \<Rightarrow> Inr (AList.delete k d))"

abbreviation dict_keys :: "('k, 'v) dict \<Rightarrow> 'k list" where
  "dict_keys d \<equiv> map fst d"

abbreviation dict_ok :: "('k, 'v) dict \<Rightarrow> bool" where
  "dict_ok d \<equiv> distinct (map fst d)"

lemma dict_get_eq_Inr [result_simps]: "dict_get d k = Inr v \<longleftrightarrow> map_of d k = Some v"
  by (auto simp: dict_get_def split: option.splits)

lemma dict_get_eq_Inl [result_simps]: "dict_get d k = Inl e \<longleftrightarrow> map_of d k = None \<and> e = KeyError"
  by (auto simp: dict_get_def split: option.splits)

lemma dict_pop_eq_Inr [result_simps]:
  "dict_pop d k = Inr d' \<longleftrightarrow> k \<in> set (dict_keys d) \<and> d' = AList.delete k d"
proof (cases "map_of d k")
  case None
  then have "k \<notin> set (dict_keys d)" by (simp add: map_of_eq_None_iff)
  with None show ?thesis by (simp add: dict_pop_def)
next
  case (Some v)
  then have "k \<in> set (dict_keys d)" by (metis domI dom_map_of_conv_image_fst set_map)
  with Some show ?thesis by (auto simp: dict_pop_def)
qed

lemma map_of_update [simp]: "map_of (AList.update k v d) = (map_of d)(k \<mapsto> v)"
  by (rule update_conv')

lemma map_of_delete [simp]: "map_of (AList.delete k d) = (map_of d)(k := None)"
  by (rule delete_conv')

lemma dict_ok_update [simp]: "dict_ok d \<Longrightarrow> dict_ok (AList.update k v d)"
  by (rule distinct_update)

lemma dict_ok_delete [simp]: "dict_ok d \<Longrightarrow> dict_ok (AList.delete k d)"
  by (rule distinct_delete)

lemma dict_in_iff: "dict_ok d \<Longrightarrow> (k, v) \<in> set d \<longleftrightarrow> map_of d k = Some v"
  by simp

lemma dict_keys_update_in: "k \<in> set (dict_keys d) \<Longrightarrow> dict_keys (AList.update k v d) = dict_keys d"
  by (simp add: update_keys)

lemma dict_keys_update_new:
  "k \<notin> set (dict_keys d) \<Longrightarrow> AList.update k v d = d @ [(k, v)]"
  by (induction d) auto

section \<open>Lists that are read or popped\<close>

text \<open>\<open>xs[i]\<close>: a negative index counts from the end; out of range raises.\<close>

definition py_index :: "'a list \<Rightarrow> int \<Rightarrow> 'a result" where
  "py_index xs i =
     (let k = (if i < 0 then i + int (length xs) else i)
      in if k < 0 \<or> int (length xs) \<le> k then Inl IndexError else Inr (xs ! nat k))"

text \<open>\<open>xs.pop(0)\<close>.\<close>

fun py_pop_front :: "'a list \<Rightarrow> ('a \<times> 'a list) result" where
  "py_pop_front [] = Inl IndexError"
| "py_pop_front (x # xs) = Inr (x, xs)"

text \<open>\<open>xs.pop(i)\<close>.\<close>

definition py_pop_at :: "'a list \<Rightarrow> nat \<Rightarrow> ('a \<times> 'a list) result" where
  "py_pop_at xs i = (if i < length xs then Inr (xs ! i, take i xs @ drop (Suc i) xs)
                     else Inl IndexError)"

lemma py_index_nonneg:
  "0 \<le> i \<Longrightarrow> py_index xs i = (if i < int (length xs) then Inr (xs ! nat i) else Inl IndexError)"
  by (simp add: py_index_def Let_def)

lemma py_pop_front_eq_Inr [result_simps]: "py_pop_front xs = Inr (x, ys) \<longleftrightarrow> xs = x # ys"
  by (cases xs) auto

lemma length_py_pop_at: "py_pop_at xs i = Inr (x, ys) \<Longrightarrow> length xs = Suc (length ys)"
  by (auto simp: py_pop_at_def split: if_splits)

section \<open>Searching\<close>

text \<open>The first element of a list that passes a test, as a loop with an early return.\<close>

lemma find_Some_iff_first:
  "List.find P xs = Some x \<longleftrightarrow> (\<exists>i < length xs. xs ! i = x \<and> P x \<and> (\<forall>j < i. \<not> P (xs ! j)))"
  by (auto simp: find_Some_iff)

lemma find_SomeD: "List.find P xs = Some x \<Longrightarrow> x \<in> set xs \<and> P x"
  by (auto simp: find_Some_iff)

lemma find_append:
  "List.find P (xs @ ys) = (case List.find P xs of None \<Rightarrow> List.find P ys | Some y \<Rightarrow> Some y)"
  by (induction xs) auto

lemma find_py_range_Some:
  assumes "List.find P (py_range n) = Some i"
  shows "0 \<le> i \<and> i < n \<and> P i \<and> (\<forall>j. 0 \<le> j \<and> j < i \<longrightarrow> \<not> P j)"
proof -
  from assms obtain k where k: "k < nat n" "py_range n ! k = i" "P i"
      "\<forall>j < k. \<not> P (py_range n ! j)"
    by (auto simp: find_Some_iff)
  from k(1,2) have i: "i = int k" by (simp add: nth_py_range)
  have "\<not> P j" if "0 \<le> j" "j < i" for j
  proof -
    from that i k(1) have "nat j < k" by auto
    moreover from this k(1) have "nat j < nat n" by linarith
    then have "py_range n ! nat j = j" using that(1) by (simp add: nth_py_range)
    ultimately show ?thesis using k(4) by auto
  qed
  with i k(1,3) show ?thesis by auto
qed

lemma find_py_range_None:
  "List.find P (py_range n) = None \<longleftrightarrow> (\<forall>i. 0 \<le> i \<and> i < n \<longrightarrow> \<not> P i)"
  by (auto simp: find_None_iff)

end
