(* ===== verification/Operands.thy ===== *)
theory Operands
  imports Prelude
begin

text \<open>
  The data of the NetQASM package that the stack simulator inspects: registers, array
  entries and slices, and one constructor per instruction class the processor dispatches on
  (\<open>isinstance\<close> tests of \<open>squidasm/sim/stack/processor.py\<close>), with the operands it reads.
  The package's own behaviour is not under \<open>src/\<close>; what the simulator calls of it is a
  parameter of the definitions: the shared memory of an application (record
  \<open>shmem\<close>) and the branch conditions (record \<open>branch_cond\<close>).
\<close>

section \<open>Operands\<close>

text \<open>\<open>RegisterName\<close>; the four prefixes are those of \<open>RegisterMeta.prefixes\<close>.\<close>

datatype reg_name = RegR | RegC | RegQ | RegM

datatype reg = Register (name_of: reg_name) (index_of: int)

text \<open>An index of an array entry or a bound of a slice: an integer, a register or neither.\<close>

datatype operand_index = IntIndex int | RegIndex reg | OtherIndex

datatype array_entry = ArrayEntry int operand_index

datatype array_slice = ArraySlice int operand_index operand_index

datatype array_part = EntryPart array_entry | SlicePart array_slice | OtherPart

section \<open>Instructions\<close>

datatype axis = AxisX | AxisY | AxisZ

text \<open>The single-qubit gate classes of the vanilla flavour that have a case of their own.\<close>

datatype single_gate = GateX | GateY | GateZ | GateH | GateK | OtherSingleGate

datatype two_gate = Cnot | Cphase | OtherTwoGate

datatype rotation = VanillaRot axis | NVRot axis

datatype controlled_rotation = NVCRot axis | OtherCRot

datatype classical_op = AddOp | SubOp | OtherOp

datatype classical_op_mod = AddmOp | SubmOp | OtherOpMod

datatype instr =
    SetI reg int
  | QAlloc reg
  | QFree reg
  | Store reg array_entry
  | Load reg array_entry
  | Lea reg int
  | Undef array_entry
  | Array reg int
  | Init reg
  | Meas reg reg
  | CreateEPR (ce_remote: reg) (ce_socket: reg) (ce_qubits: reg) (ce_args: reg) (ce_results: reg)
  | RecvEPR (re_remote: reg) (re_socket: reg) (re_qubits: reg) (re_results: reg)
  | WaitAll array_slice
  | RetReg reg
  | RetArr int
  | SingleQubit single_gate reg
  | TwoQubit two_gate reg reg
  | Rotation rotation reg int int
  | ControlledRotation controlled_rotation reg reg int int
  | ClassicalOp classical_op reg reg reg
  | ClassicalOpMod classical_op_mod reg reg reg reg
  | Breakpoint int int
  | Jmp int
  | BranchUnary string reg int
  | BranchBinary string reg reg int
  | OtherInstr

record subroutine =
  sub_app_id :: int
  sub_instrs :: "instr list"

section \<open>Parameters: the shared memory and the branch conditions\<close>

text \<open>
  \<open>'rg\<close> is the type of the register groups, \<open>'ar\<close> of the arrays.  The fields are the
  calls the simulator makes: \<open>setup_registers()\<close>, reading and writing a register of a
  group, \<open>Arrays()\<close>, \<open>init_new_array\<close>, \<open>_get_array\<close>, \<open>arrays[a, i]\<close> for an
  integer and for a slice, and the assignment \<open>arrays[a, i] = v\<close>.
\<close>

record ('rg, 'ar) shmem =
  setup_registers :: "'rg"
  reg_read :: "'rg \<Rightarrow> reg_name \<Rightarrow> int \<Rightarrow> int option result"
  reg_write :: "'rg \<Rightarrow> reg_name \<Rightarrow> int \<Rightarrow> int \<Rightarrow> 'rg result"
  new_arrays :: "'ar"
  arr_init :: "'ar \<Rightarrow> int \<Rightarrow> int \<Rightarrow> 'ar result"
  arr_whole :: "'ar \<Rightarrow> int \<Rightarrow> int option list result"
  arr_read :: "'ar \<Rightarrow> int \<Rightarrow> int \<Rightarrow> int option result"
  arr_slice :: "'ar \<Rightarrow> int \<Rightarrow> int \<Rightarrow> int \<Rightarrow> int option list result"
  arr_write :: "'ar \<Rightarrow> int \<Rightarrow> int \<Rightarrow> int option \<Rightarrow> 'ar result"

text \<open>\<open>check_condition\<close> of the branch instruction classes, by mnemonic.\<close>

record branch_cond =
  check_unary :: "string \<Rightarrow> int option \<Rightarrow> bool result"
  check_binary :: "string \<Rightarrow> int option \<Rightarrow> int option \<Rightarrow> bool result"

text \<open>
  The documented behaviour of the shared memory that properties rest on: a register or an
  array entry that was written reads back, other registers and entries are unchanged, a
  fresh array has the given length and no defined entry, and a slice or the whole array
  lists its entries.  Registers have sixteen indices per group and hold 32-bit values.
\<close>

definition reg_write_law :: "('rg, 'ar) shmem \<Rightarrow> bool" where
  "reg_write_law L \<longleftrightarrow> (\<forall>g n i v g'. reg_write L g n i v = Inr g' \<longrightarrow>
     reg_read L g' n i = Inr (Some v) \<and>
     (\<forall>n' i'. (n', i') \<noteq> (n, i) \<longrightarrow> reg_read L g' n' i' = reg_read L g n' i'))"

definition reg_total_law :: "('rg, 'ar) shmem \<Rightarrow> bool" where
  "reg_total_law L \<longleftrightarrow> (\<forall>g n i v. 0 \<le> i \<and> i < 16 \<longrightarrow>
     (\<exists>w. reg_read L g n i = Inr w) \<and>
     (- (2 ^ 31) \<le> v \<and> v < 2 ^ 31 \<longrightarrow> (\<exists>g'. reg_write L g n i v = Inr g')))"

definition arr_init_law :: "('rg, 'ar) shmem \<Rightarrow> bool" where
  "arr_init_law L \<longleftrightarrow> (\<forall>a x l a'. arr_init L a x l = Inr a' \<longrightarrow>
     arr_whole L a' x = Inr (replicate (nat l) None) \<and>
     (\<forall>y. y \<noteq> x \<longrightarrow> arr_whole L a' y = arr_whole L a y))"

definition arr_read_law :: "('rg, 'ar) shmem \<Rightarrow> bool" where
  "arr_read_law L \<longleftrightarrow> (\<forall>a x xs i. arr_whole L a x = Inr xs \<and> 0 \<le> i \<and> i < int (length xs) \<longrightarrow>
     arr_read L a x i = Inr (xs ! nat i))"

definition arr_write_law :: "('rg, 'ar) shmem \<Rightarrow> bool" where
  "arr_write_law L \<longleftrightarrow> (\<forall>a x xs i v. arr_whole L a x = Inr xs \<and> 0 \<le> i \<and> i < int (length xs) \<longrightarrow>
     (\<exists>a'. arr_write L a x i v = Inr a' \<and> arr_whole L a' x = Inr (xs[nat i := v]) \<and>
        (\<forall>y. y \<noteq> x \<longrightarrow> arr_whole L a' y = arr_whole L a y)))"

definition arr_slice_law :: "('rg, 'ar) shmem \<Rightarrow> bool" where
  "arr_slice_law L \<longleftrightarrow> (\<forall>a x xs i j.
     arr_whole L a x = Inr xs \<and> 0 \<le> i \<and> i \<le> j \<and> j \<le> int (length xs) \<longrightarrow>
     arr_slice L a x i j = Inr (take (nat j - nat i) (drop (nat i) xs)))"

definition shmem_laws :: "('rg, 'ar) shmem \<Rightarrow> bool" where
  "shmem_laws L \<longleftrightarrow> reg_write_law L \<and> reg_total_law L \<and> arr_init_law L \<and> arr_read_law L
     \<and> arr_write_law L \<and> arr_slice_law L"

lemma shmem_regD:
  assumes "shmem_laws L" and "reg_write L g n i v = Inr g'"
  shows "reg_read L g' n i = Inr (Some v)"
  using assms by (auto simp: shmem_laws_def reg_write_law_def)

lemma shmem_reg_frameD:
  assumes "shmem_laws L" and "reg_write L g n i v = Inr g'" and "(n', i') \<noteq> (n, i)"
  shows "reg_read L g' n' i' = reg_read L g n' i'"
  using assms by (auto simp: shmem_laws_def reg_write_law_def)

lemma shmem_reg_writeE:
  assumes "shmem_laws L" and "0 \<le> i" "i < 16" "- (2 ^ 31) \<le> v" "v < 2 ^ 31"
  obtains g' where "reg_write L g n i v = Inr g'"
proof -
  from assms have "\<exists>g'. reg_write L g n i v = Inr g'"
    by (simp add: shmem_laws_def reg_total_law_def)
  with that show ?thesis by blast
qed

lemma shmem_initD:
  assumes "shmem_laws L" and "arr_init L a x l = Inr a'"
  shows "arr_whole L a' x = Inr (replicate (nat l) None)"
  using assms by (auto simp: shmem_laws_def arr_init_law_def)

lemma shmem_init_frameD:
  assumes "shmem_laws L" and "arr_init L a x l = Inr a'" and "y \<noteq> x"
  shows "arr_whole L a' y = arr_whole L a y"
  using assms by (auto simp: shmem_laws_def arr_init_law_def)

lemma shmem_readD:
  assumes "shmem_laws L" and "arr_whole L a x = Inr xs" "0 \<le> i" "i < int (length xs)"
  shows "arr_read L a x i = Inr (xs ! nat i)"
  using assms by (auto simp: shmem_laws_def arr_read_law_def)

lemma shmem_writeE:
  assumes "shmem_laws L" and "arr_whole L a x = Inr xs" "0 \<le> i" "i < int (length xs)"
  obtains a' where "arr_write L a x i v = Inr a'" "arr_whole L a' x = Inr (xs[nat i := v])"
    "\<And>y. y \<noteq> x \<Longrightarrow> arr_whole L a' y = arr_whole L a y"
proof -
  from assms have "\<exists>a'. arr_write L a x i v = Inr a' \<and> arr_whole L a' x = Inr (xs[nat i := v]) \<and>
      (\<forall>y. y \<noteq> x \<longrightarrow> arr_whole L a' y = arr_whole L a y)"
    by (simp add: shmem_laws_def arr_write_law_def)
  with that show ?thesis by blast
qed

lemma shmem_sliceD:
  assumes "shmem_laws L" and "arr_whole L a x = Inr xs" "0 \<le> i" "i \<le> j" "j \<le> int (length xs)"
  shows "arr_slice L a x i j = Inr (take (nat j - nat i) (drop (nat i) xs))"
  using assms by (simp add: shmem_laws_def arr_slice_law_def)

section \<open>A concrete shared memory and conditions\<close>

text \<open>
  An instance on which witnesses run: registers and arrays as association lists.  It shows
  the laws hold together; nothing in the model depends on it.
\<close>

type_synonym ex_regs = "((reg_name \<times> int) \<times> int) list"
type_synonym ex_arrays = "(int \<times> int option list) list"

definition ex_shmem :: "(ex_regs, ex_arrays) shmem" where
  "ex_shmem = \<lparr>
     setup_registers = [],
     reg_read = (\<lambda>g n i. Inr (map_of g (n, i))),
     reg_write = (\<lambda>g n i v. Inr (AList.update (n, i) v g)),
     new_arrays = [],
     arr_init = (\<lambda>a x l. Inr (AList.update x (replicate (nat l) None) a)),
     arr_whole = (\<lambda>a x. case map_of a x of None \<Rightarrow> Inl IndexError | Some xs \<Rightarrow> Inr xs),
     arr_read = (\<lambda>a x i. case map_of a x of None \<Rightarrow> Inl IndexError | Some xs \<Rightarrow> py_index xs i),
     arr_slice = (\<lambda>a x i j. case map_of a x of None \<Rightarrow> Inl IndexError
        | Some xs \<Rightarrow> Inr (take (nat j - nat i) (drop (nat i) xs))),
     arr_write = (\<lambda>a x i v. case map_of a x of None \<Rightarrow> Inl IndexError
        | Some xs \<Rightarrow> if 0 \<le> i \<and> i < int (length xs)
                     then Inr (AList.update x (xs[nat i := v]) a) else Inl IndexError)\<rparr>"

lemma ex_shmem_laws: "shmem_laws ex_shmem"
  by (auto simp: shmem_laws_def reg_write_law_def reg_total_law_def arr_init_law_def
      arr_read_law_def arr_write_law_def arr_slice_law_def ex_shmem_def py_index_nonneg
      split: option.splits)

text \<open>
  The conditions of NetQASM's branch instructions, for the mnemonics witnesses use.
\<close>

definition ex_cond :: branch_cond where
  "ex_cond = \<lparr>
     check_unary = (\<lambda>m a. if m = ''bez'' then Inr (a = Some 0)
                          else if m = ''bnz'' then Inr (a \<noteq> Some 0) else Inl RuntimeError),
     check_binary = (\<lambda>m a b. case (a, b) of (Some x, Some y) \<Rightarrow>
          (if m = ''beq'' then Inr (x = y) else if m = ''bne'' then Inr (x \<noteq> y)
           else if m = ''blt'' then Inr (x < y) else if m = ''bge'' then Inr (x \<ge> y)
           else Inl RuntimeError)
        | _ \<Rightarrow> Inl TypeError)\<rparr>"

end
