(* ===== verification/PyStr.thy ===== *)
theory PyStr
  imports Prelude
begin

text \<open>
  The string operations of Python's standard library that the sources use on ASCII text:
  \<open>str\<close> of an integer, \<open>int\<close> of a string (with surrounding white space, a sign and
  single underscores between digits, as the language defines it), and \<open>split\<close>.
  Messages between programs are strings, so their round trips rest on these.
\<close>

section \<open>Integers as text\<close>

definition is_digit :: "char \<Rightarrow> bool" where
  "is_digit c \<longleftrightarrow> 48 \<le> (of_char c :: nat) \<and> (of_char c :: nat) \<le> 57"

definition digit_val :: "char \<Rightarrow> nat" where
  "digit_val c = of_char c - 48"

definition digit_char :: "nat \<Rightarrow> char" where
  "digit_char d = char_of (48 + d)"

fun digits_of :: "nat \<Rightarrow> string" where
  "digits_of n = (if n < 10 then [digit_char n]
                  else digits_of (n div 10) @ [digit_char (n mod 10)])"

declare digits_of.simps [simp del]

definition py_str :: "int \<Rightarrow> string" where
  "py_str i = (if i < 0 then CHR ''-'' # digits_of (nat (- i)) else digits_of (nat i))"

definition is_space :: "char \<Rightarrow> bool" where
  "is_space c \<longleftrightarrow> of_char c \<in> {9, 10, 11, 12, 13, 28, 29, 30, 31, 32 :: nat}"

definition py_strip :: "string \<Rightarrow> string" where
  "py_strip s = rev (dropWhile is_space (rev (dropWhile is_space s)))"

text \<open>The digits after the first: a digit, or one underscore followed by a digit.\<close>

fun more_digits :: "nat \<Rightarrow> string \<Rightarrow> nat result" where
  "more_digits acc [] = Inr acc"
| "more_digits acc (c # cs) =
     (if is_digit c then more_digits (10 * acc + digit_val c) cs
      else if c = CHR ''_'' then
        (case cs of [] \<Rightarrow> Inl ValueError
         | d # ds \<Rightarrow> if is_digit d then more_digits (10 * acc + digit_val d) ds
                     else Inl ValueError)
      else Inl ValueError)"

definition parse_nat :: "string \<Rightarrow> nat result" where
  "parse_nat s = (case s of [] \<Rightarrow> Inl ValueError
     | c # cs \<Rightarrow> if is_digit c then more_digits (digit_val c) cs else Inl ValueError)"

definition py_int :: "string \<Rightarrow> int result" where
  "py_int s = (let t = py_strip s in
     if t \<noteq> [] \<and> hd t = CHR ''-'' then bindE (parse_nat (tl t)) (\<lambda>n. Inr (- int n))
     else if t \<noteq> [] \<and> hd t = CHR ''+'' then bindE (parse_nat (tl t)) (\<lambda>n. Inr (int n))
     else bindE (parse_nat t) (\<lambda>n. Inr (int n)))"

subsection \<open>Round trip\<close>

lemma of_digit_char: "d < 10 \<Longrightarrow> (of_char (digit_char d) :: nat) = 48 + d"
  by (simp add: digit_char_def of_char_of)

lemma is_digit_digit_char [simp]: "d < 10 \<Longrightarrow> is_digit (digit_char d)"
  by (simp add: is_digit_def of_digit_char)

lemma digit_val_digit_char [simp]: "d < 10 \<Longrightarrow> digit_val (digit_char d) = d"
  by (simp add: digit_val_def of_digit_char)

lemma digits_of_nonempty [simp]: "digits_of n \<noteq> []"
  by (subst digits_of.simps) simp

lemma digits_of_digits: "\<forall>c \<in> set (digits_of n). is_digit c"
proof (induction n rule: digits_of.induct)
  case (1 n)
  then show ?case by (cases "n < 10") (auto simp: digits_of.simps [of n])
qed

lemma more_digits_append:
  assumes "\<forall>c \<in> set s. is_digit c"
  shows "more_digits acc (s @ t) = more_digits (foldl (\<lambda>a c. 10 * a + digit_val c) acc s) t"
  using assms by (induction s arbitrary: acc) auto

lemma foldl_digits_of: "foldl (\<lambda>a c. 10 * a + digit_val c) 0 (digits_of n) = n"
proof (induction n rule: digits_of.induct)
  case (1 n)
  then show ?case by (cases "n < 10") (simp_all add: digits_of.simps [of n])
qed

lemma parse_nat_digits:
  assumes "s \<noteq> []" and "\<forall>c \<in> set s. is_digit c"
  shows "parse_nat s = Inr (foldl (\<lambda>a c. 10 * a + digit_val c) 0 s)"
proof -
  from assms(1) obtain c cs where s: "s = c # cs" by (cases s) auto
  with assms(2) have "parse_nat s = more_digits (digit_val c) (cs @ [])"
    by (simp add: parse_nat_def)
  also have "\<dots> = Inr (foldl (\<lambda>a c. 10 * a + digit_val c) (digit_val c) cs)"
    using assms(2) s by (subst more_digits_append) auto
  finally show ?thesis by (simp add: s)
qed

lemma parse_nat_digits_of [simp]: "parse_nat (digits_of n) = Inr n"
  by (simp add: parse_nat_digits digits_of_digits foldl_digits_of)

lemma digit_not_space: "is_digit c \<Longrightarrow> \<not> is_space c"
  by (auto simp: is_digit_def is_space_def)

lemma py_strip_id: "\<forall>c \<in> set s. \<not> is_space c \<Longrightarrow> py_strip s = s"
proof -
  assume a: "\<forall>c \<in> set s. \<not> is_space c"
  then have d: "dropWhile is_space s = s" by (cases s) simp_all
  from a have "dropWhile is_space (rev s) = rev s"
    by (metis dropWhile_eq_self_iff hd_in_set set_rev)
  with d show ?thesis by (simp add: py_strip_def)
qed

lemma is_digit_not_sign: "is_digit c \<Longrightarrow> c \<noteq> CHR ''-'' \<and> c \<noteq> CHR ''+''"
  by (auto simp: is_digit_def)

text \<open>What is sent as \<open>str(n)\<close> is read back by \<open>int\<close>.\<close>

lemma py_int_py_str [simp]: "py_int (py_str n) = Inr n"
proof (cases "n < 0")
  case True
  have "\<not> is_space (CHR ''-'')" by (simp add: is_space_def)
  then have "py_strip (CHR ''-'' # digits_of (nat (- n))) = CHR ''-'' # digits_of (nat (- n))"
    using digits_of_digits digit_not_space by (intro py_strip_id) auto
  with True show ?thesis by (simp add: py_int_def py_str_def Let_def)
next
  case False
  let ?s = "digits_of (nat n)"
  have "py_strip ?s = ?s" using digits_of_digits digit_not_space by (intro py_strip_id) auto
  moreover have "hd ?s \<noteq> CHR ''-'' \<and> hd ?s \<noteq> CHR ''+''"
    using digits_of_digits [of "nat n"] is_digit_not_sign hd_in_set [OF digits_of_nonempty] by blast
  ultimately show ?thesis using False by (simp add: py_int_def py_str_def Let_def)
qed

lemma py_str_inject [simp]: "py_str m = py_str n \<longleftrightarrow> m = n"
  by (metis py_int_py_str sum.inject(2))

section \<open>Splitting at a separator\<close>

text \<open>\<open>s.split(c)\<close> for a one-character separator.\<close>

fun py_split :: "char \<Rightarrow> string \<Rightarrow> string list" where
  "py_split c [] = [[]]"
| "py_split c (x # xs) =
     (if x = c then [] # py_split c xs
      else (case py_split c xs of [] \<Rightarrow> [[x]] | w # ws \<Rightarrow> (x # w) # ws))"

lemma py_split_no_sep: "c \<notin> set s \<Longrightarrow> py_split c s = [s]"
  by (induction s) auto

lemma py_split_append: "c \<notin> set s \<Longrightarrow> py_split c (s @ c # t) = s # py_split c t"
  by (induction s) auto

lemma comma_not_in_py_str: "CHR '','' \<notin> set (py_str n)"
proof -
  have "\<not> is_digit (CHR '','')" by (simp add: is_digit_def)
  then show ?thesis using digits_of_digits by (auto simp: py_str_def)
qed

lemma digits_of_lt10: "d < 10 \<Longrightarrow> digits_of d = [digit_char d]"
  by (subst digits_of.simps) simp

lemma py_str_01 [simp]: "py_str 0 = ''0''" "py_str 1 = ''1''"
  by (simp_all add: py_str_def digits_of_lt10 digit_char_def char_of_def bit_0)

end
