(* ===== verification/AppMem.thy ===== *)
theory AppMem
  imports Operands PyStr
begin

text \<open>
  The memory of one application (classes \<open>RegisterMeta\<close> and \<open>AppMemory\<close> of
  \<open>squidasm/sim/stack/common.py\<close>): its registers and arrays, which live in the NetQASM
  package's shared memory (the parameter \<open>L\<close>), the mapping of virtual to physical
  qubits, and the program counter of the subroutine it runs.
\<close>

section \<open>Register names\<close>

definition register_prefixes :: "char list" where
  "register_prefixes = [CHR ''R'', CHR ''C'', CHR ''Q'', CHR ''M'']"

definition RegisterName :: "char \<Rightarrow> reg_name result" where
  "RegisterName c = (case map_of (zip register_prefixes [RegR, RegC, RegQ, RegM]) c of
     None \<Rightarrow> Inl KeyError | Some n \<Rightarrow> Inr n)"

definition RegisterMeta_parse :: "string \<Rightarrow> (reg_name \<times> int) result" where
  "RegisterMeta_parse name =
     bindE (assertE (length name \<ge> 2) AssertionError) (\<lambda>_.
     bindE (assertE (name ! 0 \<in> set register_prefixes) AssertionError) (\<lambda>_.
     bindE (RegisterName (name ! 0)) (\<lambda>grp.
     bindE (py_int (tl name)) (\<lambda>idx.
     bindE (assertE (idx < 16) AssertionError) (\<lambda>_. Inr (grp, idx))))))"

section \<open>State\<close>

record ('rg, 'ar) app_memory =
  am_app_id :: int
  am_registers :: "'rg"
  am_arrays :: "'ar"
  am_virt_qubits :: "(int option, int option) dict"
  am_prog_counter :: int

text \<open>
  The keys of \<open>_virt_qubits\<close> are register or array values and so may be \<open>None\<close>; the
  constructor fills in the keys \<open>0\<close> up to \<open>max_qubits - 1\<close>.
\<close>

definition AppMemory :: "('rg, 'ar) shmem \<Rightarrow> int \<Rightarrow> int \<Rightarrow> ('rg, 'ar) app_memory" where
  "AppMemory L app_id max_qubits =
     \<lparr>am_app_id = app_id, am_registers = setup_registers L, am_arrays = new_arrays L,
      am_virt_qubits = map (\<lambda>i. (Some i, None)) (py_range max_qubits), am_prog_counter = 0\<rparr>"

section \<open>Program counter\<close>

definition increment_prog_counter :: "('rg, 'ar) app_memory \<Rightarrow> ('rg, 'ar) app_memory" where
  "increment_prog_counter m = m\<lparr>am_prog_counter := am_prog_counter m + 1\<rparr>"

definition set_prog_counter :: "int \<Rightarrow> ('rg, 'ar) app_memory \<Rightarrow> ('rg, 'ar) app_memory" where
  "set_prog_counter v m = m\<lparr>am_prog_counter := v\<rparr>"

section \<open>The mapping of virtual qubits\<close>

definition map_virt_id :: "int option \<Rightarrow> int \<Rightarrow> ('rg, 'ar) app_memory \<Rightarrow> ('rg, 'ar) app_memory" where
  "map_virt_id v p m = m\<lparr>am_virt_qubits := AList.update v (Some p) (am_virt_qubits m)\<rparr>"

definition unmap_virt_id :: "int option \<Rightarrow> ('rg, 'ar) app_memory \<Rightarrow> ('rg, 'ar) app_memory" where
  "unmap_virt_id v m = m\<lparr>am_virt_qubits := AList.update v None (am_virt_qubits m)\<rparr>"

definition unmap_all :: "('rg, 'ar) app_memory \<Rightarrow> ('rg, 'ar) app_memory" where
  "unmap_all m = m\<lparr>am_virt_qubits := map (\<lambda>(v, _). (v, None)) (am_virt_qubits m)\<rparr>"

definition phys_id_for :: "int option \<Rightarrow> ('rg, 'ar) app_memory \<Rightarrow> int option result" where
  "phys_id_for v m = dict_get (am_virt_qubits m) v"

text \<open>The key found first may be \<open>None\<close>, which the caller cannot tell from no match.\<close>

definition virt_id_for :: "int \<Rightarrow> ('rg, 'ar) app_memory \<Rightarrow> int option" where
  "virt_id_for p m = (case List.find (\<lambda>(v, q). q = Some p) (am_virt_qubits m) of
     None \<Rightarrow> None | Some (v, q) \<Rightarrow> v)"

section \<open>Registers\<close>

text \<open>Registers are given by name, as a string, or as an operand.\<close>

datatype reg_arg = ByName string | ByReg reg

fun resolve_reg :: "reg_arg \<Rightarrow> (reg_name \<times> int) result" where
  "resolve_reg (ByName s) = RegisterMeta_parse s"
| "resolve_reg (ByReg r) = Inr (name_of r, index_of r)"

definition set_reg_value ::
    "('rg, 'ar) shmem \<Rightarrow> reg_arg \<Rightarrow> int \<Rightarrow> ('rg, 'ar) app_memory \<Rightarrow> ('rg, 'ar) app_memory result" where
  "set_reg_value L r v m =
     bindE (resolve_reg r) (\<lambda>(n, i).
     bindE (reg_write L (am_registers m) n i v) (\<lambda>g. Inr (m\<lparr>am_registers := g\<rparr>)))"

definition get_reg_value ::
    "('rg, 'ar) shmem \<Rightarrow> reg_arg \<Rightarrow> ('rg, 'ar) app_memory \<Rightarrow> int option result" where
  "get_reg_value L r m = bindE (resolve_reg r) (\<lambda>(n, i). reg_read L (am_registers m) n i)"

section \<open>Arrays\<close>

datatype part_index = PosIndex int | SliceIndex int int

datatype arr_value = OneValue "int option" | ManyValues "int option list"

definition init_new_array ::
    "('rg, 'ar) shmem \<Rightarrow> int \<Rightarrow> int \<Rightarrow> ('rg, 'ar) app_memory \<Rightarrow> ('rg, 'ar) app_memory result" where
  "init_new_array L addr len m =
     bindE (arr_init L (am_arrays m) addr len) (\<lambda>a. Inr (m\<lparr>am_arrays := a\<rparr>))"

definition get_array ::
    "('rg, 'ar) shmem \<Rightarrow> int \<Rightarrow> ('rg, 'ar) app_memory \<Rightarrow> int option list result" where
  "get_array L addr m = arr_whole L (am_arrays m) addr"

text \<open>The value of an index operand that names a register, which must be defined.\<close>

definition index_from_reg ::
    "('rg, 'ar) shmem \<Rightarrow> reg \<Rightarrow> ('rg, 'ar) app_memory \<Rightarrow> int result" where
  "index_from_reg L r m = bindE (get_reg_value L (ByReg r) m)
     (\<lambda>v. case v of None \<Rightarrow> Inl RuntimeError | Some i \<Rightarrow> Inr i)"

fun slice_bound :: "('rg, 'ar) shmem \<Rightarrow> operand_index \<Rightarrow> ('rg, 'ar) app_memory \<Rightarrow> int result" where
  "slice_bound L (IntIndex i) m = Inr i"
| "slice_bound L (RegIndex r) m = index_from_reg L r m"
| "slice_bound L OtherIndex m = Inl RuntimeError"

fun expand_array_part ::
    "('rg, 'ar) shmem \<Rightarrow> array_part \<Rightarrow> ('rg, 'ar) app_memory \<Rightarrow> (int \<times> part_index) result" where
  "expand_array_part L (EntryPart (ArrayEntry addr idx)) m =
     (case idx of
        IntIndex i \<Rightarrow> Inr (addr, PosIndex i)
      | RegIndex r \<Rightarrow> bindE (index_from_reg L r m) (\<lambda>i. Inr (addr, PosIndex i))
      | OtherIndex \<Rightarrow> Inl AttributeError)"
| "expand_array_part L (SlicePart (ArraySlice addr start stop)) m =
     bindE (slice_bound L start m) (\<lambda>i.
     bindE (slice_bound L stop m) (\<lambda>j. Inr (addr, SliceIndex i j)))"
| "expand_array_part L OtherPart m = Inl RuntimeError"

text \<open>\<open>self._arrays[address, index]\<close>, and the assignment to an entry.\<close>

fun arrays_getitem :: "('rg, 'ar) shmem \<Rightarrow> 'ar \<Rightarrow> int \<times> part_index \<Rightarrow> arr_value result" where
  "arrays_getitem L a (x, PosIndex i) = bindE (arr_read L a x i) (\<lambda>v. Inr (OneValue v))"
| "arrays_getitem L a (x, SliceIndex i j) = bindE (arr_slice L a x i j) (\<lambda>v. Inr (ManyValues v))"

fun arrays_setitem :: "('rg, 'ar) shmem \<Rightarrow> 'ar \<Rightarrow> int \<times> part_index \<Rightarrow> int option \<Rightarrow> 'ar result" where
  "arrays_setitem L a (x, PosIndex i) v = arr_write L a x i v"
| "arrays_setitem L a (x, SliceIndex i j) v = Inl TypeError"

definition get_array_entry ::
    "('rg, 'ar) shmem \<Rightarrow> array_entry \<Rightarrow> ('rg, 'ar) app_memory \<Rightarrow> int option result" where
  "get_array_entry L e m =
     bindE (expand_array_part L (EntryPart e) m) (\<lambda>ai.
     bindE (arrays_getitem L (am_arrays m) ai) (\<lambda>r.
       case r of OneValue v \<Rightarrow> Inr v | ManyValues _ \<Rightarrow> Inl AssertionError))"

definition get_array_value ::
    "('rg, 'ar) shmem \<Rightarrow> int \<Rightarrow> int \<Rightarrow> ('rg, 'ar) app_memory \<Rightarrow> int option result" where
  "get_array_value L addr off m =
     bindE (expand_array_part L (EntryPart (ArrayEntry addr (IntIndex off))) m) (\<lambda>ai.
     bindE (arrays_getitem L (am_arrays m) ai) (\<lambda>r.
       case r of OneValue v \<Rightarrow> Inr v | ManyValues _ \<Rightarrow> Inl AssertionError))"

definition get_array_slice ::
    "('rg, 'ar) shmem \<Rightarrow> array_slice \<Rightarrow> ('rg, 'ar) app_memory \<Rightarrow> int option list result" where
  "get_array_slice L s m =
     bindE (expand_array_part L (SlicePart s) m) (\<lambda>ai.
     bindE (arrays_getitem L (am_arrays m) ai) (\<lambda>r.
       case r of ManyValues vs \<Rightarrow> Inr vs | OneValue v \<Rightarrow> Inl AssertionError))"

text \<open>The offsets come from registers and may be \<open>None\<close>.\<close>

definition index_operand :: "int option \<Rightarrow> operand_index" where
  "index_operand i = (case i of None \<Rightarrow> OtherIndex | Some k \<Rightarrow> IntIndex k)"

definition get_array_values ::
    "('rg, 'ar) shmem \<Rightarrow> int \<Rightarrow> int option \<Rightarrow> int option \<Rightarrow> ('rg, 'ar) app_memory
       \<Rightarrow> int option list result" where
  "get_array_values L addr start stop m =
     get_array_slice L (ArraySlice addr (index_operand start) (index_operand stop)) m"

definition set_array_entry ::
    "('rg, 'ar) shmem \<Rightarrow> array_entry \<Rightarrow> int option \<Rightarrow> ('rg, 'ar) app_memory
       \<Rightarrow> ('rg, 'ar) app_memory result" where
  "set_array_entry L e v m =
     bindE (expand_array_part L (EntryPart e) m) (\<lambda>ai.
     bindE (arrays_setitem L (am_arrays m) ai v) (\<lambda>a. Inr (m\<lparr>am_arrays := a\<rparr>)))"

definition set_array_value ::
    "('rg, 'ar) shmem \<Rightarrow> int \<Rightarrow> int \<Rightarrow> int option \<Rightarrow> ('rg, 'ar) app_memory
       \<Rightarrow> ('rg, 'ar) app_memory result" where
  "set_array_value L addr off v m =
     bindE (expand_array_part L (EntryPart (ArrayEntry addr (IntIndex off))) m) (\<lambda>ai.
     bindE (arrays_setitem L (am_arrays m) ai v) (\<lambda>a. Inr (m\<lparr>am_arrays := a\<rparr>)))"

text \<open>The reading interface NetQASM futures use.\<close>

definition get_register ::
    "('rg, 'ar) shmem \<Rightarrow> reg_arg \<Rightarrow> ('rg, 'ar) app_memory \<Rightarrow> int option result" where
  "get_register L r m = get_reg_value L r m"

fun get_array_part ::
    "('rg, 'ar) shmem \<Rightarrow> int \<Rightarrow> part_index \<Rightarrow> ('rg, 'ar) app_memory \<Rightarrow> arr_value result" where
  "get_array_part L addr (PosIndex i) m =
     bindE (get_array_value L addr i m) (\<lambda>v. Inr (OneValue v))"
| "get_array_part L addr (SliceIndex i j) m =
     bindE (get_array_values L addr (Some i) (Some j) m) (\<lambda>v. Inr (ManyValues v))"

section \<open>Facts about the mapping\<close>

definition mapping :: "('rg, 'ar) app_memory \<Rightarrow> int option \<Rightarrow> int option" where
  "mapping m v = (case map_of (am_virt_qubits m) v of Some (Some p) \<Rightarrow> Some p | _ \<Rightarrow> None)"

definition mapped :: "('rg, 'ar) app_memory \<Rightarrow> int set" where
  "mapped m = ran (mapping m)"

text \<open>Distinct keys, and no physical position mapped twice.\<close>

definition mapping_ok :: "('rg, 'ar) app_memory \<Rightarrow> bool" where
  "mapping_ok m \<longleftrightarrow> dict_ok (am_virt_qubits m) \<and> inj_on (mapping m) (dom (mapping m))"

lemma mapping_simps [simp]:
  "mapping (map_virt_id v p m) = (mapping m)(v \<mapsto> p)"
  "mapping (unmap_virt_id v m) = (mapping m)(v := None)"
  "mapping (increment_prog_counter m) = mapping m"
  "mapping (set_prog_counter k m) = mapping m"
  "mapping (m\<lparr>am_registers := g\<rparr>) = mapping m"
  "mapping (m\<lparr>am_arrays := a\<rparr>) = mapping m"
  by (auto simp: mapping_def map_virt_id_def unmap_virt_id_def increment_prog_counter_def
      set_prog_counter_def fun_eq_iff split: option.splits)

lemma keys_ok_simps [simp]:
  "dict_ok (am_virt_qubits m) \<Longrightarrow> dict_ok (am_virt_qubits (map_virt_id v p m))"
  "dict_ok (am_virt_qubits m) \<Longrightarrow> dict_ok (am_virt_qubits (unmap_virt_id v m))"
  "am_virt_qubits (increment_prog_counter m) = am_virt_qubits m"
  "am_virt_qubits (set_prog_counter k m) = am_virt_qubits m"
  by (simp_all add: map_virt_id_def unmap_virt_id_def increment_prog_counter_def set_prog_counter_def)

lemma mapping_unmap_all [simp]: "mapping (unmap_all m) = Map.empty"
proof -
  have "map_of (map (\<lambda>(v, _). (v, None)) d) v \<noteq> Some (Some p)" for d :: "(int option, int option) dict" and v and p :: int
    by (induction d) auto
  then show ?thesis by (auto simp: mapping_def unmap_all_def fun_eq_iff split: option.splits)
qed

lemma mapping_AppMemory [simp]: "mapping (AppMemory L a n) = Map.empty"
proof -
  have "map_of (map (\<lambda>i. (Some i, None)) xs) v \<noteq> Some (Some p)" for xs :: "int list" and v and p :: int
    by (induction xs) auto
  then show ?thesis by (auto simp: mapping_def AppMemory_def fun_eq_iff split: option.splits)
qed

lemma mapping_ok_AppMemory [simp]: "mapping_ok (AppMemory L a n)"
proof -
  have "dict_ok (map (\<lambda>i. (Some i, None)) (py_range n))"
    by (simp add: distinct_map comp_def inj_on_def)
  then show ?thesis by (simp add: mapping_ok_def) (simp add: AppMemory_def comp_def)
qed

lemma mapped_AppMemory [simp]: "mapped (AppMemory L a n) = {}"
  by (simp add: mapped_def)

lemma in_mapped_iff: "p \<in> mapped m \<longleftrightarrow> (\<exists>v. mapping m v = Some p)"
  by (auto simp: mapped_def ran_def)

lemma phys_id_for_mapping: "phys_id_for v m = Inr (Some p) \<longleftrightarrow> mapping m v = Some p"
  by (auto simp: phys_id_for_def mapping_def result_simps split: option.splits)

lemma mapping_ok_map:
  assumes "mapping_ok m" and "p \<notin> mapped m"
  shows "mapping_ok (map_virt_id v p m)" and "mapped (map_virt_id v p m) \<subseteq> insert p (mapped m)"
proof -
  from assms have "inj_on ((mapping m)(v \<mapsto> p)) (dom ((mapping m)(v \<mapsto> p)))"
    by (auto simp: mapping_ok_def inj_on_def in_mapped_iff dom_def split: if_splits)
  with assms(1) show "mapping_ok (map_virt_id v p m)" by (simp add: mapping_ok_def)
  show "mapped (map_virt_id v p m) \<subseteq> insert p (mapped m)"
    by (auto simp: in_mapped_iff split: if_splits)
qed

lemma mapping_ok_unmap:
  assumes "mapping_ok m"
  shows "mapping_ok (unmap_virt_id v m)"
  using assms by (auto simp: mapping_ok_def inj_on_def dom_def split: if_splits)

lemma mapped_unmap:
  assumes "mapping_ok m"
  shows "mapped (unmap_virt_id v m) = mapped m - set_option (mapping m v)"
proof -
  have u: "w = v" if "mapping m v = Some p" "mapping m w = Some p" for w p
    using assms that by (auto simp: mapping_ok_def inj_on_def dom_def)
  show ?thesis
  proof (rule set_eqI)
    fix p
    have "p \<in> mapped (unmap_virt_id v m) \<longleftrightarrow> (\<exists>w. w \<noteq> v \<and> mapping m w = Some p)"
      by (auto simp: in_mapped_iff)
    also have "\<dots> \<longleftrightarrow> p \<in> mapped m - set_option (mapping m v)"
      using u [of p] by (auto simp: in_mapped_iff)
    finally show "p \<in> mapped (unmap_virt_id v m) \<longleftrightarrow> p \<in> mapped m - set_option (mapping m v)" .
  qed
qed

text \<open>
  \<open>virt_id_for\<close> inverts \<open>phys_id_for\<close>: what it finds maps to the position, and under a
  well-formed mapping it finds the virtual qubit that maps there.
\<close>

lemma mapping_in_iff:
  assumes "dict_ok (am_virt_qubits m)"
  shows "(v, Some p) \<in> set (am_virt_qubits m) \<longleftrightarrow> mapping m v = Some p"
proof -
  have "mapping m v = Some p \<longleftrightarrow> map_of (am_virt_qubits m) v = Some (Some p)"
    by (simp add: mapping_def split: option.split)
  then show ?thesis using assms by simp
qed

lemma virt_id_for_sound:
  assumes "dict_ok (am_virt_qubits m)" and "virt_id_for p m = Some v"
  shows "mapping m (Some v) = Some p"
proof -
  from assms(2) obtain q where "List.find (\<lambda>(v, q). q = Some p) (am_virt_qubits m) = Some (Some v, q)"
    by (auto simp: virt_id_for_def split: option.splits)
  then have "(Some v, Some p) \<in> set (am_virt_qubits m)" by (auto dest: find_SomeD)
  then show ?thesis by (simp only: mapping_in_iff [OF assms(1)])
qed

lemma virt_id_for_complete:
  assumes "mapping_ok m" and "mapping m (Some v) = Some p"
  shows "virt_id_for p m = Some v"
proof -
  have d: "dict_ok (am_virt_qubits m)" using assms(1) by (simp add: mapping_ok_def)
  have mem: "(Some v, Some p) \<in> set (am_virt_qubits m)" using assms(2) by (simp only: mapping_in_iff [OF d])
  let ?f = "List.find (\<lambda>(v, q). q = Some p) (am_virt_qubits m)"
  have "?f \<noteq> None" using mem by (auto simp: find_None_iff)
  then obtain w q where f: "?f = Some (w, q)" by (metis not_None_eq prod.exhaust)
  then have "(w, q) \<in> set (am_virt_qubits m)" "q = Some p" by (auto dest: find_SomeD)
  then have "mapping m w = Some p" using mapping_in_iff [OF d] by simp
  with assms have "w = Some v" by (auto simp: mapping_ok_def inj_on_def dom_def)
  with f show ?thesis by (simp add: virt_id_for_def)
qed

section \<open>Facts about registers and arrays\<close>

lemma get_after_set_reg:
  assumes "shmem_laws L" and "set_reg_value L (ByReg r) v m = Inr m'"
  shows "get_reg_value L (ByReg r) m' = Inr (Some v)"
  using assms by (auto simp: set_reg_value_def get_reg_value_def result_simps shmem_regD)

lemma get_other_after_set_reg:
  assumes "shmem_laws L" and "set_reg_value L (ByReg r) v m = Inr m'" and "r' \<noteq> r"
  shows "get_reg_value L (ByReg r') m' = get_reg_value L (ByReg r') m"
proof -
  have "(name_of r', index_of r') \<noteq> (name_of r, index_of r)" using assms(3) by (metis prod.inject reg.expand)
  then show ?thesis using assms
    by (auto simp: set_reg_value_def get_reg_value_def result_simps shmem_reg_frameD)
qed

text \<open>What a write to a register leaves alone.\<close>

lemma set_reg_frame:
  assumes "set_reg_value L r v m = Inr m'"
  shows "am_virt_qubits m' = am_virt_qubits m \<and> am_arrays m' = am_arrays m
     \<and> am_prog_counter m' = am_prog_counter m \<and> am_app_id m' = am_app_id m"
  using assms by (auto simp: set_reg_value_def result_simps)

lemma set_array_frame:
  assumes "set_array_value L addr off v m = Inr m'"
  shows "am_virt_qubits m' = am_virt_qubits m \<and> am_registers m' = am_registers m
     \<and> am_prog_counter m' = am_prog_counter m \<and> am_app_id m' = am_app_id m"
  using assms by (auto simp: set_array_value_def result_simps)

lemma set_array_entry_frame:
  assumes "set_array_entry L e v m = Inr m'"
  shows "am_virt_qubits m' = am_virt_qubits m \<and> am_registers m' = am_registers m
     \<and> am_prog_counter m' = am_prog_counter m \<and> am_app_id m' = am_app_id m"
  using assms by (auto simp: set_array_entry_def result_simps)

lemma init_new_array_frame:
  assumes "init_new_array L addr n m = Inr m'"
  shows "am_virt_qubits m' = am_virt_qubits m \<and> am_registers m' = am_registers m
     \<and> am_prog_counter m' = am_prog_counter m \<and> am_app_id m' = am_app_id m"
  using assms by (auto simp: init_new_array_def result_simps)

lemma get_array_value_whole:
  assumes "shmem_laws L" and "get_array L addr m = Inr xs" and "0 \<le> i" "i < int (length xs)"
  shows "get_array_value L addr i m = Inr (xs ! nat i)"
  using assms by (simp add: get_array_value_def get_array_def shmem_readD)

lemma set_array_value_whole:
  assumes "shmem_laws L" and "get_array L addr m = Inr xs" and "0 \<le> i" "i < int (length xs)"
  obtains m' where "set_array_value L addr i v m = Inr m'"
    and "get_array L addr m' = Inr (xs[nat i := v])"
    and "\<And>y. y \<noteq> addr \<Longrightarrow> get_array L y m' = get_array L y m"
proof -
  obtain a' where "arr_write L (am_arrays m) addr i v = Inr a'"
    "arr_whole L a' addr = Inr (xs[nat i := v])"
    "\<And>y. y \<noteq> addr \<Longrightarrow> arr_whole L a' y = arr_whole L (am_arrays m) y"
    using shmem_writeE [OF assms(1) _ assms(3,4)] assms(2) unfolding get_array_def by metis
  then show ?thesis using that [of "m\<lparr>am_arrays := a'\<rparr>"]
    by (simp add: set_array_value_def get_array_def)
qed

lemma get_array_values_whole:
  assumes "shmem_laws L" and "get_array L addr m = Inr xs" and "0 \<le> i" "i \<le> j" "j \<le> int (length xs)"
  shows "get_array_values L addr (Some i) (Some j) m = Inr (take (nat j - nat i) (drop (nat i) xs))"
  using assms
  by (simp add: get_array_values_def get_array_slice_def get_array_def index_operand_def shmem_sliceD)

text \<open>A register written as \<open>prefix ++ str(i)\<close> is parsed back.\<close>

fun reg_prefix :: "reg_name \<Rightarrow> char" where
  "reg_prefix RegR = CHR ''R''"
| "reg_prefix RegC = CHR ''C''"
| "reg_prefix RegQ = CHR ''Q''"
| "reg_prefix RegM = CHR ''M''"

lemma py_str_nonempty [simp]: "py_str i \<noteq> []"
  by (simp add: py_str_def)

lemma RegisterMeta_parse_str:
  "RegisterMeta_parse (reg_prefix n # py_str i) = (if i < 16 then Inr (n, i) else Inl AssertionError)"
proof -
  have "Suc 0 \<le> length (py_str i)" by (cases "py_str i") simp_all
  moreover have "reg_prefix n \<in> set register_prefixes" by (cases n) (simp_all add: register_prefixes_def)
  moreover have "RegisterName (reg_prefix n) = Inr n"
    by (cases n) (simp_all add: RegisterName_def register_prefixes_def)
  ultimately show ?thesis by (simp add: RegisterMeta_parse_def)
qed

end
