(* ===== verification/PhysMem.thy ===== *)
theory PhysMem
  imports Prelude
begin

text \<open>
  The bookkeeping of physical qubits (class \<open>PhysicalQuantumMemory\<close> and its subclass
  \<open>NVPhysicalQuantumMemory\<close> of \<open>squidasm/sim/stack/common.py\<close>): which positions of the
  quantum device are handed out.  The class is used by the processor (\<open>allocate\<close>,
  \<open>allocate_comm\<close>, \<open>allocate_mem\<close>, \<open>free\<close>), the network stack
  (\<open>allocate_comm\<close>, \<open>free\<close>) and the handler (\<open>free\<close>).  The contract these clients use
  is the locale \<open>qubit_pool\<close>; each of the three allocation methods is an instance.
\<close>

section \<open>State\<close>

text \<open>
  \<open>_allocated_ids\<close> is a set until \<open>clear\<close> assigns \<open>{}\<close> to it, which is an empty
  dictionary in Python and has neither \<open>add\<close> nor \<open>remove\<close>.
\<close>

datatype id_store = IdSet "int set" | EmptyDict

record phys_mem =
  qubit_count :: int
  allocated_ids :: id_store
  comm_qubit_ids :: "int set"

definition PhysicalQuantumMemory :: "int \<Rightarrow> phys_mem" where
  "PhysicalQuantumMemory n =
     \<lparr>qubit_count = n, allocated_ids = IdSet {}, comm_qubit_ids = set (py_range n)\<rparr>"

definition NVPhysicalQuantumMemory :: "int \<Rightarrow> phys_mem" where
  "NVPhysicalQuantumMemory n = (PhysicalQuantumMemory n)\<lparr>comm_qubit_ids := {0}\<rparr>"

definition comm_qubit_count :: "phys_mem \<Rightarrow> nat" where
  "comm_qubit_count m = card (comm_qubit_ids m)"

section \<open>Operations\<close>

fun store_mem :: "int \<Rightarrow> id_store \<Rightarrow> bool" where
  "store_mem i (IdSet A) = (i \<in> A)"
| "store_mem i EmptyDict = False"

fun store_add :: "int \<Rightarrow> id_store \<Rightarrow> id_store result" where
  "store_add i (IdSet A) = Inr (IdSet (insert i A))"
| "store_add i EmptyDict = Inl AttributeError"

fun store_remove :: "int \<Rightarrow> id_store \<Rightarrow> id_store result" where
  "store_remove i (IdSet A) = (if i \<in> A then Inr (IdSet (A - {i})) else Inl KeyError)"
| "store_remove i EmptyDict = Inl AttributeError"

text \<open>
  The loop the three allocation methods share: the first position in range order that is
  free and passes the method's own test is marked and returned.
\<close>

definition allocate_where :: "(int \<Rightarrow> bool) \<Rightarrow> phys_mem \<Rightarrow> (int \<times> phys_mem) result" where
  "allocate_where ok m =
     (case List.find (\<lambda>i. \<not> store_mem i (allocated_ids m) \<and> ok i) (py_range (qubit_count m)) of
        None \<Rightarrow> Inl AllocError
      | Some i \<Rightarrow> bindE (store_add i (allocated_ids m))
                   (\<lambda>s. Inr (i, m\<lparr>allocated_ids := s\<rparr>)))"

definition allocate :: "phys_mem \<Rightarrow> (int \<times> phys_mem) result" where
  "allocate m = allocate_where (\<lambda>i. True) m"

definition allocate_comm :: "phys_mem \<Rightarrow> (int \<times> phys_mem) result" where
  "allocate_comm m = allocate_where (\<lambda>i. i \<in> comm_qubit_ids m) m"

definition allocate_mem :: "phys_mem \<Rightarrow> (int \<times> phys_mem) result" where
  "allocate_mem m = allocate_where (\<lambda>i. i \<notin> comm_qubit_ids m) m"

definition free :: "int \<Rightarrow> phys_mem \<Rightarrow> phys_mem result" where
  "free i m = bindE (store_remove i (allocated_ids m)) (\<lambda>s. Inr (m\<lparr>allocated_ids := s\<rparr>))"

definition is_allocated :: "int \<Rightarrow> phys_mem \<Rightarrow> bool" where
  "is_allocated i m = store_mem i (allocated_ids m)"

definition clear :: "phys_mem \<Rightarrow> phys_mem" where
  "clear m = m\<lparr>allocated_ids := EmptyDict\<rparr>"

section \<open>Views and well-formedness\<close>

fun store_set :: "id_store \<Rightarrow> int set" where
  "store_set (IdSet A) = A"
| "store_set EmptyDict = {}"

definition used :: "phys_mem \<Rightarrow> int set" where
  "used m = store_set (allocated_ids m)"

definition positions :: "phys_mem \<Rightarrow> int set" where
  "positions m = {0..<qubit_count m}"

definition comm_positions :: "phys_mem \<Rightarrow> int set" where
  "comm_positions m = {i \<in> positions m. i \<in> comm_qubit_ids m}"

definition mem_positions :: "phys_mem \<Rightarrow> int set" where
  "mem_positions m = {i \<in> positions m. i \<notin> comm_qubit_ids m}"

text \<open>
  Every allocated position is one of the device, and the memory has not been through
  \<open>clear\<close>.
\<close>

definition phys_ok :: "phys_mem \<Rightarrow> bool" where
  "phys_ok m \<longleftrightarrow> allocated_ids m \<noteq> EmptyDict \<and> used m \<subseteq> positions m"

lemma phys_okE:
  assumes "phys_ok m"
  obtains A where "allocated_ids m = IdSet A" and "A \<subseteq> positions m"
  using assms by (cases "allocated_ids m") (auto simp: phys_ok_def used_def)

lemma is_allocated_used: "is_allocated i m \<longleftrightarrow> i \<in> used m"
  by (cases "allocated_ids m") (simp_all add: is_allocated_def used_def)

lemma finite_used [simp]: "phys_ok m \<Longrightarrow> finite (used m)"
  by (auto simp: phys_ok_def positions_def intro: finite_subset)

lemma phys_ok_init [simp]:
  "phys_ok (PhysicalQuantumMemory n)" "phys_ok (NVPhysicalQuantumMemory n)"
  "used (PhysicalQuantumMemory n) = {}" "used (NVPhysicalQuantumMemory n) = {}"
  by (simp_all add: phys_ok_def used_def PhysicalQuantumMemory_def NVPhysicalQuantumMemory_def)

lemma positions_init [simp]:
  "positions (PhysicalQuantumMemory n) = {0..<n}"
  "positions (NVPhysicalQuantumMemory n) = {0..<n}"
  by (simp_all add: positions_def PhysicalQuantumMemory_def NVPhysicalQuantumMemory_def)

section \<open>The shared loop\<close>

lemma allocate_where_Inr:
  assumes ok: "phys_ok m" and res: "allocate_where P m = Inr (i, m')"
  shows "i \<in> positions m \<and> P i \<and> i \<notin> used m \<and> used m' = insert i (used m) \<and> phys_ok m'
     \<and> positions m' = positions m \<and> comm_qubit_ids m' = comm_qubit_ids m
     \<and> qubit_count m' = qubit_count m
     \<and> (\<forall>j. j \<in> positions m \<and> P j \<and> j \<notin> used m \<longrightarrow> i \<le> j)"
proof -
  obtain A where A: "allocated_ids m = IdSet A" "A \<subseteq> positions m" using ok by (rule phys_okE)
  from res A(1) have f: "List.find (\<lambda>i. i \<notin> A \<and> P i) (py_range (qubit_count m)) = Some i"
    and m': "m' = m\<lparr>allocated_ids := IdSet (insert i A)\<rparr>"
    by (auto simp: allocate_where_def result_simps split: option.splits)
  from find_py_range_Some [OF f] show ?thesis
    using A by (auto simp: m' used_def phys_ok_def positions_def)
qed

lemma allocate_where_Inl:
  assumes "phys_ok m"
  shows "allocate_where P m = Inl e \<longleftrightarrow> e = AllocError \<and> (\<forall>i \<in> positions m. P i \<longrightarrow> i \<in> used m)"
proof -
  obtain A where A: "allocated_ids m = IdSet A" using assms by (rule phys_okE)
  have "(\<forall>i. 0 \<le> i \<and> i < qubit_count m \<longrightarrow> \<not> (i \<notin> A \<and> P i)) \<longleftrightarrow>
    (\<forall>i \<in> positions m. P i \<longrightarrow> i \<in> used m)"
    by (auto simp: positions_def used_def A)
  then show ?thesis
    using find_py_range_None [of "\<lambda>i. i \<notin> A \<and> P i" "qubit_count m"]
    by (auto simp: allocate_where_def A split: option.splits)
qed

lemma free_used:
  assumes "phys_ok m"
  shows "free i m = (if i \<in> used m then Inr (m\<lparr>allocated_ids := IdSet (used m - {i})\<rparr>) else Inl KeyError)"
proof -
  obtain A where "allocated_ids m = IdSet A" using assms by (rule phys_okE)
  then show ?thesis by (simp add: free_def used_def)
qed

lemma free_Inr:
  assumes "phys_ok m" and "free i m = Inr m'"
  shows "i \<in> used m \<and> used m' = used m - {i} \<and> phys_ok m' \<and> positions m' = positions m
     \<and> comm_qubit_ids m' = comm_qubit_ids m \<and> qubit_count m' = qubit_count m"
  using assms
  by (auto simp: free_used used_def phys_ok_def positions_def split: if_splits)

section \<open>The contract of an allocation method\<close>

text \<open>
  \<open>alloc\<close> is one of the allocation methods, \<open>avail m\<close> the positions it may hand out.
\<close>

locale qubit_pool =
  fixes alloc :: "phys_mem \<Rightarrow> (int \<times> phys_mem) result"
    and avail :: "phys_mem \<Rightarrow> int set"
  assumes alloc_ok: "phys_ok m \<Longrightarrow> alloc m = Inr (i, m') \<Longrightarrow>
      i \<in> avail m \<and> i \<notin> used m \<and> used m' = insert i (used m) \<and> phys_ok m'
      \<and> avail m' = avail m \<and> positions m' = positions m \<and> comm_qubit_ids m' = comm_qubit_ids m
      \<and> qubit_count m' = qubit_count m
      \<and> (\<forall>j. j \<in> avail m \<and> j \<notin> used m \<longrightarrow> i \<le> j)"
    and alloc_err: "phys_ok m \<Longrightarrow> alloc m = Inl e \<longleftrightarrow> e = AllocError \<and> avail m \<subseteq> used m"
    and avail_positions: "avail m \<subseteq> positions m"
    and avail_free: "free i m = Inr m' \<Longrightarrow> avail m' = avail m"
begin

text \<open>An allocation succeeds exactly when a position it may hand out is free.\<close>

lemma alloc_succeeds_iff:
  assumes "phys_ok m"
  shows "(\<exists>i m'. alloc m = Inr (i, m')) \<longleftrightarrow> \<not> avail m \<subseteq> used m"
proof (cases "alloc m")
  case (Inl e)
  with alloc_err [OF assms, of e] show ?thesis by simp
next
  case (Inr p)
  with alloc_err [OF assms] have "\<not> avail m \<subseteq> used m" by (metis sum.distinct(1))
  moreover obtain i m' where "p = (i, m')" by (cases p)
  ultimately show ?thesis using Inr by blast
qed

text \<open>Allocating and freeing the position again restores the set of allocated positions.\<close>

lemma alloc_then_free:
  assumes "phys_ok m" and "alloc m = Inr (i, m')"
  shows "\<exists>m''. free i m' = Inr m'' \<and> used m'' = used m \<and> phys_ok m''"
proof -
  have f: "i \<notin> used m" "used m' = insert i (used m)" "phys_ok m'" using alloc_ok [OF assms] by auto
  from f(2,3) have "free i m' = Inr (m'\<lparr>allocated_ids := IdSet (used m' - {i})\<rparr>)"
    by (simp add: free_used)
  then show ?thesis using free_Inr [OF f(3)] f(1,2) by auto
qed

text \<open>
  A freed position that the method may hand out makes the next allocation succeed: what a
  client that waits for \<open>SIGNAL_MEMORY_FREED\<close> relies on.
\<close>

lemma free_then_alloc:
  assumes "phys_ok m" and "free i m = Inr m'" and "i \<in> avail m"
  shows "\<exists>j m''. alloc m' = Inr (j, m'')"
proof -
  have "i \<notin> used m'" "phys_ok m'" using free_Inr [OF assms(1,2)] by auto
  moreover have "i \<in> avail m'" using avail_free [OF assms(2)] assms(3) by simp
  ultimately show ?thesis using alloc_succeeds_iff by blast
qed

text \<open>A run of successful allocations hands out distinct positions, never one in use.\<close>

inductive alloc_run :: "phys_mem \<Rightarrow> int list \<Rightarrow> phys_mem \<Rightarrow> bool" where
  run_nil: "alloc_run m [] m"
| run_cons: "alloc m = Inr (i, m') \<Longrightarrow> alloc_run m' is m'' \<Longrightarrow> alloc_run m (i # is) m''"

lemma alloc_run_distinct:
  assumes "alloc_run m is m'" and "phys_ok m"
  shows "distinct is \<and> set is \<inter> used m = {} \<and> set is \<subseteq> avail m
     \<and> used m' = used m \<union> set is \<and> phys_ok m'"
  using assms
proof (induction rule: alloc_run.induct)
  case (run_nil m)
  then show ?case by simp
next
  case (run_cons m i m' "is" m'')
  have a: "i \<in> avail m" "i \<notin> used m" "used m' = insert i (used m)" "phys_ok m'" "avail m' = avail m"
    using alloc_ok [OF run_cons.prems run_cons.hyps(1)] by auto
  with run_cons.IH show ?case by auto
qed

lemma alloc_run_bound:
  assumes "alloc_run m is m'" and "phys_ok m"
  shows "length is \<le> card (avail m)"
proof -
  have d: "distinct is" "set is \<subseteq> avail m" using alloc_run_distinct [OF assms] by auto
  have "finite (avail m)"
    using avail_positions by (rule finite_subset) (simp add: positions_def)
  then have "card (set is) \<le> card (avail m)" using d(2) by (rule card_mono)
  then show ?thesis using distinct_card [OF d(1)] by simp
qed

end

text \<open>The three methods satisfy the contract on the positions their loops range over.\<close>

interpretation any_pool: qubit_pool allocate positions
proof
  fix m m' i e
  show "phys_ok m \<Longrightarrow> allocate m = Inr (i, m') \<Longrightarrow>
      i \<in> positions m \<and> i \<notin> used m \<and> used m' = insert i (used m) \<and> phys_ok m'
      \<and> positions m' = positions m \<and> positions m' = positions m
      \<and> comm_qubit_ids m' = comm_qubit_ids m \<and> qubit_count m' = qubit_count m
      \<and> (\<forall>j. j \<in> positions m \<and> j \<notin> used m \<longrightarrow> i \<le> j)"
    using allocate_where_Inr [of m "\<lambda>i. True" i m'] by (auto simp: allocate_def)
  show "phys_ok m \<Longrightarrow> allocate m = Inl e \<longleftrightarrow> e = AllocError \<and> positions m \<subseteq> used m"
    by (auto simp: allocate_def allocate_where_Inl)
  show "free i m = Inr m' \<Longrightarrow> positions m' = positions m"
    by (auto simp: free_def positions_def result_simps)
qed auto

interpretation comm_pool: qubit_pool allocate_comm comm_positions
proof
  fix m m' i e
  show "phys_ok m \<Longrightarrow> allocate_comm m = Inr (i, m') \<Longrightarrow>
      i \<in> comm_positions m \<and> i \<notin> used m \<and> used m' = insert i (used m) \<and> phys_ok m'
      \<and> comm_positions m' = comm_positions m \<and> positions m' = positions m
      \<and> comm_qubit_ids m' = comm_qubit_ids m \<and> qubit_count m' = qubit_count m
      \<and> (\<forall>j. j \<in> comm_positions m \<and> j \<notin> used m \<longrightarrow> i \<le> j)"
    using allocate_where_Inr [of m "\<lambda>i. i \<in> comm_qubit_ids m" i m']
    by (auto simp: allocate_comm_def comm_positions_def)
  show "phys_ok m \<Longrightarrow> allocate_comm m = Inl e \<longleftrightarrow> e = AllocError \<and> comm_positions m \<subseteq> used m"
    by (auto simp: allocate_comm_def allocate_where_Inl comm_positions_def)
  show "comm_positions m \<subseteq> positions m" by (auto simp: comm_positions_def)
  show "free i m = Inr m' \<Longrightarrow> comm_positions m' = comm_positions m"
    by (auto simp: free_def comm_positions_def positions_def result_simps)
qed

interpretation mem_pool: qubit_pool allocate_mem mem_positions
proof
  fix m m' i e
  show "phys_ok m \<Longrightarrow> allocate_mem m = Inr (i, m') \<Longrightarrow>
      i \<in> mem_positions m \<and> i \<notin> used m \<and> used m' = insert i (used m) \<and> phys_ok m'
      \<and> mem_positions m' = mem_positions m \<and> positions m' = positions m
      \<and> comm_qubit_ids m' = comm_qubit_ids m \<and> qubit_count m' = qubit_count m
      \<and> (\<forall>j. j \<in> mem_positions m \<and> j \<notin> used m \<longrightarrow> i \<le> j)"
    using allocate_where_Inr [of m "\<lambda>i. i \<notin> comm_qubit_ids m" i m']
    by (auto simp: allocate_mem_def mem_positions_def)
  show "phys_ok m \<Longrightarrow> allocate_mem m = Inl e \<longleftrightarrow> e = AllocError \<and> mem_positions m \<subseteq> used m"
    by (auto simp: allocate_mem_def allocate_where_Inl mem_positions_def)
  show "mem_positions m \<subseteq> positions m" by (auto simp: mem_positions_def)
  show "free i m = Inr m' \<Longrightarrow> mem_positions m' = mem_positions m"
    by (auto simp: free_def mem_positions_def positions_def result_simps)
qed

end
