(* ===== verification/NodeState.thy ===== *)
theory NodeState
  imports AppMem PhysMem
begin

text \<open>
  The state of one node of the stack simulator: what the QNodeOS protocols (\<open>Handler\<close>,
  \<open>Processor\<close>, \<open>Netstack\<close>, owned by \<open>Qnos\<close>) share and keep, the messages under way
  between them, and where each of the three generators is suspended.  A generator body
  between two \<open>yield\<close>s is one atomic step; the program points are the \<open>yield\<close>s.
\<close>

section \<open>Messages\<close>

text \<open>The request classes sent from the processor to the network stack.\<close>

record create_request =
  cr_app_id :: int
  cr_remote_node_id :: int
  cr_epr_socket_id :: int
  cr_qubit_array_addr :: "int option"
  cr_arg_array_addr :: int
  cr_result_array_addr :: int

record receive_request =
  rr_app_id :: int
  rr_remote_node_id :: int
  rr_epr_socket_id :: int
  rr_qubit_array_addr :: "int option"
  rr_result_array_addr :: int

datatype nstk_msg =
    NetstackCreateRequest create_request
  | NetstackReceiveRequest receive_request
  | NetstackBreakpointCreateRequest int
  | NetstackBreakpointReceiveRequest int
  | NstkText string

text \<open>Link-layer requests: the three \<open>ReqCreateBase\<close> classes and \<open>ReqReceive\<close>.\<close>

datatype ll_kind = CreateAndKeep | MeasureDirectly | RemoteStatePrep

record ll_request =
  ll_kind :: ll_kind
  ll_remote_node_id :: int
  ll_number :: int
  ll_minimum_fidelity :: rat

datatype egp_put = PutRequest ll_request | PutReceive int

datatype peer_msg = PeerRequest ll_request | PeerText string

text \<open>
  What an EGP signals: \<open>ResCreateAndKeep\<close> with its Bell state, or \<open>ResMeasureDirectly\<close>
  with outcome, basis and Bell state, as the integers the network stack stores.
\<close>

record md_result =
  md_outcome :: int
  md_basis :: int
  md_bell_state :: int

datatype egp_result = ResCreateAndKeep int | ResMeasureDirectly md_result

text \<open>Messages between host and handler.\<close>

datatype host_msg =
    InitNewAppMessage int
  | OpenEPRSocketMessage int int int
  | SubroutineMessage string
  | StopAppMessage int
  | OtherHostMessage

datatype hand_reply = AppIdReply int | AppMemReply int

section \<open>The quantum device\<close>

text \<open>
  The NetSquid instructions the processors issue, with the physical qubits (\<open>None\<close> when
  the virtual qubit is not mapped) and the angle as a multiple of \<open>pi\<close>.  A program is
  the list of operations of one \<open>QuantumProgram\<close>.
\<close>

datatype ns_instr =
    INSTR_INIT | INSTR_MEASURE | INSTR_X | INSTR_Y | INSTR_Z | INSTR_H | INSTR_K
  | INSTR_ROT_X | INSTR_ROT_Y | INSTR_ROT_Z | INSTR_CNOT | INSTR_CZ | INSTR_CXDIR | INSTR_CYDIR
  | INSTR_S | INSTR_T | INSTR_SWAP

datatype ns_op = NsOp ns_instr "int option list" "rat option"

datatype dev_event = ExecProgram "ns_op list" | SetInUse int bool | SaveQuantumState

section \<open>Program points\<close>

text \<open>What the processor does when the device has run its program.\<close>

datatype dev_kont =
    KNext
  | KMeas reg
  | KMoveElectron "int option" "int option" int reg
  | KMoveCarbon "int option" "int option" reg

datatype break_stage = AwaitReady | AwaitFinished

datatype proc_pc =
    ProcIdle
  | ProcExec subroutine
  | ProcDevice subroutine dev_kont
  | ProcWaitAll subroutine int "int option" "int option"
  | ProcBreak subroutine int break_stage

text \<open>
  The network stack's loops over pairs: the request, the number of pairs, the index of the
  pair under way and the time the handler started.
\<close>

record create_ctx =
  cc_req :: create_request
  cc_request :: ll_request
  cc_num_pairs :: int
  cc_pair_index :: int
  cc_start_time :: rat

record receive_ctx =
  rc_req :: receive_request
  rc_num_pairs :: int
  rc_pair_index :: int
  rc_start_time :: rat

datatype nstk_pc =
    NstkIdle
  | CreateAwaitPeer create_request ll_request
  | CreateCkAwaitMemory create_ctx
  | CreateCkAwaitEgp create_ctx int
  | CreateMdAwaitEgp create_request ll_request "md_result list" int
  | ReceiveAwaitPeer receive_request
  | ReceiveCkAwaitMemory receive_ctx
  | ReceiveCkAwaitEgp receive_ctx int
  | ReceiveMdAwaitEgp receive_request int "md_result list" int

datatype hand_pc = HandIdle | HandAwaitProc int

section \<open>The node\<close>

text \<open>An EPR socket of an application (dataclass \<open>EprSocket\<close>).\<close>

record epr_socket =
  socket_id :: int
  remote_id :: int

datatype hardware = GenericHardware | NVHardware

text \<open>
  \<open>app_memories\<close> is the dictionary shared by the three protocols; an \<open>AppMemory\<close> object
  that was popped from it but that a suspended generator still refers to is in
  \<open>dropped_memories\<close> (an application id is never given out twice, so the id names the
  object).  \<open>egps\<close> maps a remote node to the EGP protocol object assigned to it;
  \<open>egp_log\<close> and \<open>device_log\<close> list what was put to the EGPs and given to the device, and
  \<open>peer_out\<close> what was sent to other nodes, oldest first.
\<close>

record ('rg, 'ar) node =
  hardware_of :: hardware
  physical_memory :: phys_mem
  app_memories :: "(int, ('rg, 'ar) app_memory) dict"
  dropped_memories :: "(int, ('rg, 'ar) app_memory) dict"
  app_counter :: int
  applications :: "(int, subroutine list) dict"
  should_clear_memory :: bool
  egps :: "(int, int) dict"
  epr_sockets :: "(int, epr_socket list) dict"
  peer_ports :: "int list"
  peer_listeners :: "(int, peer_msg list) dict"
  host_to_hand :: "string list"
  hand_to_host :: "hand_reply list"
  hand_to_proc :: "subroutine list"
  proc_to_hand :: "string list"
  proc_to_nstk :: "nstk_msg list"
  nstk_to_proc :: "string list"
  peer_out :: "(int \<times> peer_msg) list"
  egp_log :: "(int \<times> egp_put) list"
  device_log :: "dev_event list"
  memory_freed :: bool
  hand_pc_of :: hand_pc
  proc_pc_of :: proc_pc
  nstk_pc_of :: nstk_pc

section \<open>Parameters of the node's code\<close>

text \<open>
  The indices and lengths of NetQASM's serialised EPR requests and responses
  (\<open>netqasm.sdk.build_epr\<close>), and its message codec.
\<close>

record ser_indices =
  ser_create_type :: int
  ser_create_number :: int
  ser_keep_goodness :: int
  ser_keep_bell_state :: int
  ser_keep_len :: int
  ser_measure_outcome :: int
  ser_measure_basis :: int
  ser_measure_len :: int

datatype flavour = NVFlavour | VanillaFlavour

record codec =
  deserialize_host_msg :: "string \<Rightarrow> host_msg result"
  deser_subroutine :: "flavour \<Rightarrow> string \<Rightarrow> subroutine result"

text \<open>\<open>none_address\<close> is what the shared memory raises for the array address \<open>None\<close>.\<close>

record ('rg, 'ar) netqasm =
  shm :: "('rg, 'ar) shmem"
  conds :: branch_cond
  ser :: ser_indices
  codecs :: codec
  none_address :: py_error

section \<open>Access to the application memories\<close>

text \<open>\<open>self.app_memories[app_id]\<close>.\<close>

definition get_mem :: "int \<Rightarrow> ('rg, 'ar) node \<Rightarrow> ('rg, 'ar) app_memory result" where
  "get_mem a n = dict_get (app_memories n) a"

text \<open>A mutation of the object with this id that is in the dictionary.\<close>

definition put_mem :: "int \<Rightarrow> ('rg, 'ar) app_memory \<Rightarrow> ('rg, 'ar) node \<Rightarrow> ('rg, 'ar) node" where
  "put_mem a m n = n\<lparr>app_memories := AList.update a m (app_memories n)\<rparr>"

text \<open>The object behind a reference taken earlier, wherever it is now, and its mutation.\<close>

definition get_obj :: "int \<Rightarrow> ('rg, 'ar) node \<Rightarrow> ('rg, 'ar) app_memory result" where
  "get_obj a n = (case map_of (app_memories n) a of Some m \<Rightarrow> Inr m
     | None \<Rightarrow> dict_get (dropped_memories n) a)"

definition put_obj :: "int \<Rightarrow> ('rg, 'ar) app_memory \<Rightarrow> ('rg, 'ar) node \<Rightarrow> ('rg, 'ar) node" where
  "put_obj a m n = (case map_of (app_memories n) a of Some _ \<Rightarrow> put_mem a m n
     | None \<Rightarrow> n\<lparr>dropped_memories := AList.update a m (dropped_memories n)\<rparr>)"

text \<open>Running an operation of \<open>AppMemory\<close> on the memory of an application.\<close>

definition on_mem ::
    "int \<Rightarrow> (('rg, 'ar) app_memory \<Rightarrow> ('rg, 'ar) app_memory result) \<Rightarrow> ('rg, 'ar) node
       \<Rightarrow> ('rg, 'ar) node result" where
  "on_mem a f n = bindE (get_mem a n) (\<lambda>m. bindE (f m) (\<lambda>m'. Inr (put_mem a m' n)))"

definition on_obj ::
    "int \<Rightarrow> (('rg, 'ar) app_memory \<Rightarrow> ('rg, 'ar) app_memory result) \<Rightarrow> ('rg, 'ar) node
       \<Rightarrow> ('rg, 'ar) node result" where
  "on_obj a f n = bindE (get_obj a n) (\<lambda>m. bindE (f m) (\<lambda>m'. Inr (put_obj a m' n)))"

text \<open>Running an operation of the physical memory.\<close>

definition on_phys ::
    "(phys_mem \<Rightarrow> ('a \<times> phys_mem) result) \<Rightarrow> ('rg, 'ar) node \<Rightarrow> ('a \<times> ('rg, 'ar) node) result" where
  "on_phys f n = bindE (f (physical_memory n)) (\<lambda>(x, m). Inr (x, n\<lparr>physical_memory := m\<rparr>))"

definition free_phys :: "int \<Rightarrow> ('rg, 'ar) node \<Rightarrow> ('rg, 'ar) node result" where
  "free_phys i n = bindE (free i (physical_memory n)) (\<lambda>m. Inr (n\<lparr>physical_memory := m\<rparr>))"

section \<open>Signals and the device\<close>

text \<open>
  \<open>send_signal(SIGNAL_MEMORY_FREED)\<close> wakes the network stack when it waits for the signal,
  and is lost otherwise.
\<close>

fun awaits_memory :: "nstk_pc \<Rightarrow> bool" where
  "awaits_memory (CreateCkAwaitMemory c) = True"
| "awaits_memory (ReceiveCkAwaitMemory c) = True"
| "awaits_memory _ = False"

definition signal_memory_freed :: "('rg, 'ar) node \<Rightarrow> ('rg, 'ar) node" where
  "signal_memory_freed n = n\<lparr>memory_freed := memory_freed n \<or> awaits_memory (nstk_pc_of n)\<rparr>"

definition log_device :: "dev_event \<Rightarrow> ('rg, 'ar) node \<Rightarrow> ('rg, 'ar) node" where
  "log_device e n = n\<lparr>device_log := device_log n @ [e]\<rparr>"

section \<open>The owner of a physical qubit\<close>

text \<open>
  \<open>Qnos.get_virt_qubit_for_phys_id\<close>: the first application memory, in dictionary order,
  that maps a virtual qubit to the position.
\<close>

fun search_virt_qubit ::
    "int \<Rightarrow> (int \<times> ('rg, 'ar) app_memory) list \<Rightarrow> (int \<times> int) result" where
  "search_virt_qubit p [] = Inl RuntimeError"
| "search_virt_qubit p ((a, m) # d) =
     (case virt_id_for p m of Some v \<Rightarrow> Inr (a, v) | None \<Rightarrow> search_virt_qubit p d)"

definition get_virt_qubit_for_phys_id :: "int \<Rightarrow> ('rg, 'ar) node \<Rightarrow> (int \<times> int) result" where
  "get_virt_qubit_for_phys_id p n = search_virt_qubit p (app_memories n)"

section \<open>Facts about the accessors\<close>

lemma get_mem_put_mem [simp]: "get_mem a (put_mem b m n) = (if a = b then Inr m else get_mem a n)"
  by (simp add: get_mem_def put_mem_def dict_get_def)

lemma node_frame_put_mem [simp]:
  "physical_memory (put_mem a m n) = physical_memory n"
  "dropped_memories (put_mem a m n) = dropped_memories n"
  "nstk_pc_of (put_mem a m n) = nstk_pc_of n"
  "proc_pc_of (put_mem a m n) = proc_pc_of n"
  "hand_pc_of (put_mem a m n) = hand_pc_of n"
  "app_counter (put_mem a m n) = app_counter n"
  "applications (put_mem a m n) = applications n"
  "device_log (put_mem a m n) = device_log n"
  "hardware_of (put_mem a m n) = hardware_of n"
  by (simp_all add: put_mem_def)

lemma node_frame_put_obj [simp]:
  "physical_memory (put_obj a m n) = physical_memory n"
  "nstk_pc_of (put_obj a m n) = nstk_pc_of n"
  "proc_pc_of (put_obj a m n) = proc_pc_of n"
  "hand_pc_of (put_obj a m n) = hand_pc_of n"
  "app_counter (put_obj a m n) = app_counter n"
  "applications (put_obj a m n) = applications n"
  "device_log (put_obj a m n) = device_log n"
  "hardware_of (put_obj a m n) = hardware_of n"
  by (simp_all add: put_obj_def split: option.splits)

lemma node_frame_signal [simp]:
  "physical_memory (signal_memory_freed n) = physical_memory n"
  "app_memories (signal_memory_freed n) = app_memories n"
  "dropped_memories (signal_memory_freed n) = dropped_memories n"
  "nstk_pc_of (signal_memory_freed n) = nstk_pc_of n"
  "proc_pc_of (signal_memory_freed n) = proc_pc_of n"
  "hand_pc_of (signal_memory_freed n) = hand_pc_of n"
  "app_counter (signal_memory_freed n) = app_counter n"
  "applications (signal_memory_freed n) = applications n"
  "device_log (signal_memory_freed n) = device_log n"
  "hardware_of (signal_memory_freed n) = hardware_of n"
  by (simp_all add: signal_memory_freed_def)

lemma node_frame_log [simp]:
  "physical_memory (log_device e n) = physical_memory n"
  "app_memories (log_device e n) = app_memories n"
  "dropped_memories (log_device e n) = dropped_memories n"
  "nstk_pc_of (log_device e n) = nstk_pc_of n"
  "proc_pc_of (log_device e n) = proc_pc_of n"
  "hand_pc_of (log_device e n) = hand_pc_of n"
  "app_counter (log_device e n) = app_counter n"
  "applications (log_device e n) = applications n"
  "device_log (log_device e n) = device_log n @ [e]"
  "hardware_of (log_device e n) = hardware_of n"
  by (simp_all add: log_device_def)

lemma get_mem_frame [simp]:
  "get_mem a (signal_memory_freed n) = get_mem a n"
  "get_mem a (log_device e n) = get_mem a n"
  "get_mem a (n\<lparr>physical_memory := p\<rparr>) = get_mem a n"
  "get_mem a (n\<lparr>proc_pc_of := q\<rparr>) = get_mem a n"
  by (simp_all add: get_mem_def)

end
