(* ===== verification/Netstack.thy ===== *)
theory Netstack
  imports NodeState
begin

text \<open>
  The network stack of a node (class \<open>Netstack\<close> of \<open>squidasm/sim/stack/netstack.py\<close>): it
  turns the processor's entanglement requests into link-layer requests for the EGP of the
  remote node, agrees on the request with the network stack there, allocates communication
  qubits, and writes the results into the application's memory.  The EGP is not under
  \<open>src/\<close>: what is put to it is logged in \<open>egp_log\<close>, and the results it signals are events.
\<close>

section \<open>Set-up\<close>

definition register_peer_port :: "int \<Rightarrow> ('rg, 'ar) node \<Rightarrow> ('rg, 'ar) node" where
  "register_peer_port peer_id n = n\<lparr>peer_ports := peer_ports n @ [peer_id]\<rparr>"

text \<open>The listener needs the port to be there.\<close>

definition register_peer_listener :: "int \<Rightarrow> ('rg, 'ar) node \<Rightarrow> ('rg, 'ar) node result" where
  "register_peer_listener peer_id n =
     bindE (assertE (peer_id \<in> set (peer_ports n)) KeyError) (\<lambda>_.
       Inr (n\<lparr>peer_listeners := AList.update peer_id [] (peer_listeners n)\<rparr>))"

definition assign_egp :: "int \<Rightarrow> int \<Rightarrow> ('rg, 'ar) node \<Rightarrow> ('rg, 'ar) node" where
  "assign_egp remote_node_id egp n = n\<lparr>egps := AList.update remote_node_id egp (egps n)\<rparr>"

definition open_epr_socket :: "int \<Rightarrow> int \<Rightarrow> int \<Rightarrow> ('rg, 'ar) node \<Rightarrow> ('rg, 'ar) node" where
  "open_epr_socket app_id sck_id remote_node_id n =
     (let sockets = (case map_of (epr_sockets n) app_id of None \<Rightarrow> [] | Some l \<Rightarrow> l) in
      n\<lparr>epr_sockets := AList.update app_id
          (sockets @ [\<lparr>socket_id = sck_id, remote_id = remote_node_id\<rparr>]) (epr_sockets n)\<rparr>)"

definition find_epr_socket :: "int \<Rightarrow> int \<Rightarrow> int \<Rightarrow> ('rg, 'ar) node \<Rightarrow> epr_socket option" where
  "find_epr_socket app_id sck_id rem_id n =
     (case map_of (epr_sockets n) app_id of None \<Rightarrow> None
      | Some l \<Rightarrow> List.find (\<lambda>s. socket_id s = sck_id \<and> remote_id s = rem_id) l)"

section \<open>Messages\<close>

definition send_processor_msg :: "string \<Rightarrow> ('rg, 'ar) node \<Rightarrow> ('rg, 'ar) node" where
  "send_processor_msg msg n = n\<lparr>nstk_to_proc := nstk_to_proc n @ [msg]\<rparr>"

definition send_peer_msg :: "int \<Rightarrow> peer_msg \<Rightarrow> ('rg, 'ar) node \<Rightarrow> ('rg, 'ar) node result" where
  "send_peer_msg peer_id msg n =
     bindE (assertE (peer_id \<in> set (peer_ports n)) KeyError) (\<lambda>_.
       Inr (n\<lparr>peer_out := peer_out n @ [(peer_id, msg)]\<rparr>))"

text \<open>\<open>current_egp.put(...)\<close>, with \<open>current_egp\<close> looked up.\<close>

definition put_egp :: "int \<Rightarrow> egp_put \<Rightarrow> ('rg, 'ar) node \<Rightarrow> ('rg, 'ar) node result" where
  "put_egp remote_node_id req n =
     bindE (dict_get (egps n) remote_node_id) (\<lambda>egp.
       Inr (n\<lparr>egp_log := egp_log n @ [(egp, req)]\<rparr>))"

section \<open>Requests\<close>

definition MINIMUM_FIDELITY :: rat where
  "MINIMUM_FIDELITY = 99 / 100"

definition construct_request :: "ser_indices \<Rightarrow> int \<Rightarrow> int option list \<Rightarrow> ll_request result" where
  "construct_request S remote args =
     bindE (py_index args (ser_create_type S)) (\<lambda>typ.
     bindE (assertE (typ \<noteq> None) AssertionError) (\<lambda>_.
     bindE (py_index args (ser_create_number S)) (\<lambda>num_pairs.
       case num_pairs of None \<Rightarrow> Inl AssertionError
       | Some k \<Rightarrow>
           (let req = (\<lambda>kind. \<lparr>ll_kind = kind, ll_remote_node_id = remote, ll_number = k,
                               ll_minimum_fidelity = MINIMUM_FIDELITY\<rparr>) in
            if typ = Some 0 then Inr (req CreateAndKeep)
            else if typ = Some 1 then Inr (req MeasureDirectly)
            else if typ = Some 2 then Inr (req RemoteStatePrep)
            else Inl ValueError))))"

text \<open>Array accesses whose address may be \<open>None\<close>.\<close>

definition at_address :: "('rg, 'ar) netqasm \<Rightarrow> int option \<Rightarrow> (int \<Rightarrow> 'a result) \<Rightarrow> 'a result" where
  "at_address P addr f = (case addr of None \<Rightarrow> Inl (none_address P) | Some x \<Rightarrow> f x)"

section \<open>Results\<close>

text \<open>\<open>int(ns / 1000)\<close>: towards zero.\<close>

definition duration_us :: "rat \<Rightarrow> int" where
  "duration_us t = (if 0 \<le> t then \<lfloor>t / 1000\<rfloor> else \<lceil>t / 1000\<rceil>)"

text \<open>The response to one pair: unused elements are \<open>-1\<close>.\<close>

definition ck_value :: "ser_indices \<Rightarrow> int \<Rightarrow> int \<Rightarrow> int \<Rightarrow> int" where
  "ck_value S dur bell i =
     (let v = (if i = ser_keep_goodness S then dur else - 1) in
      if i = ser_keep_bell_state S then bell else v)"

definition md_value :: "ser_indices \<Rightarrow> md_result \<Rightarrow> int \<Rightarrow> int" where
  "md_value S r i =
     (if i = ser_measure_outcome S then md_outcome r
      else if i = ser_measure_basis S then md_basis r
      else if i = ser_keep_bell_state S then md_bell_state r
      else - 1)"

text \<open>\<open>for i in range(slice_len): app_mem.set_array_value(addr, slice_len * pair + i, ...)\<close>.\<close>

definition write_response ::
    "('rg, 'ar) shmem \<Rightarrow> int \<Rightarrow> int \<Rightarrow> int \<Rightarrow> (int \<Rightarrow> int) \<Rightarrow> ('rg, 'ar) app_memory
       \<Rightarrow> ('rg, 'ar) app_memory result" where
  "write_response L addr slice_len pair val m =
     forE (\<lambda>i. set_array_value L addr (slice_len * pair + i) (Some (val i))) (py_range slice_len) m"

text \<open>The end of one create-and-keep pair: map the qubit, write the response.\<close>

definition ck_deliver ::
    "('rg, 'ar) netqasm \<Rightarrow> int option \<Rightarrow> int \<Rightarrow> int \<Rightarrow> int \<Rightarrow> int \<Rightarrow> int
       \<Rightarrow> ('rg, 'ar) app_memory \<Rightarrow> ('rg, 'ar) app_memory result" where
  "ck_deliver P qubit_addr result_addr pair phys dur bell m =
     bindE (at_address P qubit_addr (\<lambda>q. get_array_value (shm P) q pair m)) (\<lambda>virt_id.
       write_response (shm P) result_addr (ser_keep_len (ser P)) pair (ck_value (ser P) dur bell)
         (map_virt_id virt_id phys m))"

text \<open>
  The end of a measure-directly request: every pair's response in turn.  The index error is
  that of \<open>results[pair_index]\<close>.
\<close>

definition md_deliver ::
    "('rg, 'ar) netqasm \<Rightarrow> int \<Rightarrow> int \<Rightarrow> md_result list \<Rightarrow> ('rg, 'ar) app_memory
       \<Rightarrow> ('rg, 'ar) app_memory result" where
  "md_deliver P result_addr number results m =
     forE (\<lambda>pair m. bindE (py_index results pair) (\<lambda>r.
        write_response (shm P) result_addr (ser_measure_len (ser P)) pair (md_value (ser P) r) m))
       (py_range number) m"

section \<open>Create and keep, as the creator\<close>

text \<open>
  The head of the loop over pairs: no pair left, or allocate and put the request, or wait
  for memory.
\<close>

definition create_ck_next ::
    "create_ctx \<Rightarrow> ('rg, 'ar) node \<Rightarrow> ('rg, 'ar) node result" where
  "create_ck_next c n =
     (if cc_pair_index c < cc_num_pairs c then
        (case on_phys allocate_comm n of
           Inl AllocError \<Rightarrow> Inr (n\<lparr>nstk_pc_of := CreateCkAwaitMemory c\<rparr>)
         | Inl e \<Rightarrow> Inl e
         | Inr (phys_id, n1) \<Rightarrow>
             bindE (put_egp (cr_remote_node_id (cc_req c)) (PutRequest (cc_request c)) n1) (\<lambda>n2.
               Inr (n2\<lparr>nstk_pc_of := CreateCkAwaitEgp c phys_id\<rparr>)))
      else Inr (n\<lparr>nstk_pc_of := NstkIdle\<rparr>))"

definition handle_create_ck_request ::
    "('rg, 'ar) netqasm \<Rightarrow> create_request \<Rightarrow> ll_request \<Rightarrow> rat \<Rightarrow> ('rg, 'ar) node
       \<Rightarrow> ('rg, 'ar) node result" where
  "handle_create_ck_request P req request now n =
     bindE (get_mem (cr_app_id req) n) (\<lambda>m.
     bindE (at_address P (cr_qubit_array_addr req) (\<lambda>q. get_array (shm P) q m)) (\<lambda>qubit_ids.
       create_ck_next
         \<lparr>cc_req = req, cc_request = request\<lparr>ll_number := 1\<rparr>, cc_num_pairs = ll_number request,
          cc_pair_index = 0, cc_start_time = now\<rparr> n))"

definition create_ck_result ::
    "('rg, 'ar) netqasm \<Rightarrow> create_ctx \<Rightarrow> int \<Rightarrow> int \<Rightarrow> rat \<Rightarrow> ('rg, 'ar) node
       \<Rightarrow> ('rg, 'ar) node result" where
  "create_ck_result P c phys_id bell now n =
     bindE (on_obj (cr_app_id (cc_req c))
         (ck_deliver P (cr_qubit_array_addr (cc_req c)) (cr_result_array_addr (cc_req c))
            (cc_pair_index c) phys_id (duration_us (now - cc_start_time c)) bell) n) (\<lambda>n1.
       create_ck_next (c\<lparr>cc_pair_index := cc_pair_index c + 1\<rparr>)
         (send_processor_msg ''wrote to array'' n1))"

section \<open>Create and keep, as the receiver\<close>

definition receive_ck_next ::
    "receive_ctx \<Rightarrow> ('rg, 'ar) node \<Rightarrow> ('rg, 'ar) node result" where
  "receive_ck_next c n =
     (if rc_pair_index c < rc_num_pairs c then
        (case on_phys allocate_comm n of
           Inl AllocError \<Rightarrow> Inr (n\<lparr>nstk_pc_of := ReceiveCkAwaitMemory c\<rparr>)
         | Inl e \<Rightarrow> Inl e
         | Inr (phys_id, n1) \<Rightarrow>
             bindE (put_egp (rr_remote_node_id (rc_req c))
                      (PutReceive (rr_remote_node_id (rc_req c))) n1) (\<lambda>n2.
               Inr (n2\<lparr>nstk_pc_of := ReceiveCkAwaitEgp c phys_id\<rparr>)))
      else Inr (n\<lparr>nstk_pc_of := NstkIdle\<rparr>))"

definition handle_receive_ck_request ::
    "receive_request \<Rightarrow> ll_request \<Rightarrow> rat \<Rightarrow> ('rg, 'ar) node \<Rightarrow> ('rg, 'ar) node result" where
  "handle_receive_ck_request req request now n =
     receive_ck_next
       \<lparr>rc_req = req, rc_num_pairs = ll_number request, rc_pair_index = 0, rc_start_time = now\<rparr> n"

text \<open>Unlike the creator, the receiver looks the memory up for every pair.\<close>

definition receive_ck_result ::
    "('rg, 'ar) netqasm \<Rightarrow> receive_ctx \<Rightarrow> int \<Rightarrow> int \<Rightarrow> rat \<Rightarrow> ('rg, 'ar) node
       \<Rightarrow> ('rg, 'ar) node result" where
  "receive_ck_result P c phys_id bell now n =
     bindE (on_mem (rr_app_id (rc_req c))
         (ck_deliver P (rr_qubit_array_addr (rc_req c)) (rr_result_array_addr (rc_req c))
            (rc_pair_index c) phys_id (duration_us (now - rc_start_time c)) bell) n) (\<lambda>n1.
       receive_ck_next (c\<lparr>rc_pair_index := rc_pair_index c + 1\<rparr>)
         (send_processor_msg ''wrote to array'' n1))"

section \<open>Measure directly\<close>

text \<open>
  The loop that collects the results: the next iteration allocates a communication qubit
  (an \<open>AllocError\<close> is not caught here); after the last one the responses are written.
\<close>

definition create_md_next ::
    "('rg, 'ar) netqasm \<Rightarrow> create_request \<Rightarrow> ll_request \<Rightarrow> md_result list \<Rightarrow> ('rg, 'ar) node
       \<Rightarrow> ('rg, 'ar) node result" where
  "create_md_next P req request results n =
     (if int (length results) < ll_number request then
        bindE (on_phys allocate_comm n) (\<lambda>(phys_id, n1).
          Inr (n1\<lparr>nstk_pc_of := CreateMdAwaitEgp req request results phys_id\<rparr>))
      else
        bindE (on_mem (cr_app_id req)
            (md_deliver P (cr_result_array_addr req) (ll_number request) results) n) (\<lambda>n1.
          Inr ((send_processor_msg ''wrote to array'' n1)\<lparr>nstk_pc_of := NstkIdle\<rparr>)))"

definition handle_create_md_request ::
    "('rg, 'ar) netqasm \<Rightarrow> create_request \<Rightarrow> ll_request \<Rightarrow> ('rg, 'ar) node
       \<Rightarrow> ('rg, 'ar) node result" where
  "handle_create_md_request P req request n =
     bindE (put_egp (cr_remote_node_id req) (PutRequest request) n) (\<lambda>n1.
       create_md_next P req request [] n1)"

definition create_md_result ::
    "('rg, 'ar) netqasm \<Rightarrow> create_request \<Rightarrow> ll_request \<Rightarrow> md_result list \<Rightarrow> int \<Rightarrow> md_result
       \<Rightarrow> ('rg, 'ar) node \<Rightarrow> ('rg, 'ar) node result" where
  "create_md_result P req request results phys_id r n =
     bindE (free_phys phys_id n) (\<lambda>n1. create_md_next P req request (results @ [r]) n1)"

text \<open>The receiver notifies the processor once per pair.\<close>

definition receive_md_next ::
    "('rg, 'ar) netqasm \<Rightarrow> receive_request \<Rightarrow> int \<Rightarrow> md_result list \<Rightarrow> ('rg, 'ar) node
       \<Rightarrow> ('rg, 'ar) node result" where
  "receive_md_next P req number results n =
     (if int (length results) < number then
        bindE (on_phys allocate_comm n) (\<lambda>(phys_id, n1).
          Inr (n1\<lparr>nstk_pc_of := ReceiveMdAwaitEgp req number results phys_id\<rparr>))
      else
        bindE (on_mem (rr_app_id req) (md_deliver P (rr_result_array_addr req) number results) n)
          (\<lambda>n1. Inr (n1\<lparr>nstk_to_proc := nstk_to_proc n1 @ map (\<lambda>_. ''wrote to array'') (py_range number),
                     nstk_pc_of := NstkIdle\<rparr>)))"

definition handle_receive_md_request ::
    "('rg, 'ar) netqasm \<Rightarrow> receive_request \<Rightarrow> ll_request \<Rightarrow> ('rg, 'ar) node
       \<Rightarrow> ('rg, 'ar) node result" where
  "handle_receive_md_request P req request n =
     bindE (put_egp (rr_remote_node_id req) (PutReceive (rr_remote_node_id req)) n) (\<lambda>n1.
       receive_md_next P req (ll_number request) [] n1)"

definition receive_md_result ::
    "('rg, 'ar) netqasm \<Rightarrow> receive_request \<Rightarrow> int \<Rightarrow> md_result list \<Rightarrow> int \<Rightarrow> md_result
       \<Rightarrow> ('rg, 'ar) node \<Rightarrow> ('rg, 'ar) node result" where
  "receive_md_result P req number results phys_id r n =
     bindE (free_phys phys_id n) (\<lambda>n1. receive_md_next P req number (results @ [r]) n1)"

section \<open>Requests from the processor\<close>

definition handle_create_request ::
    "('rg, 'ar) netqasm \<Rightarrow> create_request \<Rightarrow> ('rg, 'ar) node \<Rightarrow> ('rg, 'ar) node result" where
  "handle_create_request P req n =
     bindE (assertE (find_epr_socket (cr_app_id req) (cr_epr_socket_id req) (cr_remote_node_id req) n
                       \<noteq> None) AssertionError) (\<lambda>_.
     bindE (get_mem (cr_app_id req) n) (\<lambda>m.
     bindE (get_array (shm P) (cr_arg_array_addr req) m) (\<lambda>args.
     bindE (construct_request (ser P) (cr_remote_node_id req) args) (\<lambda>request.
     bindE (send_peer_msg (cr_remote_node_id req) (PeerRequest request) n) (\<lambda>n1.
     bindE (dict_get (peer_listeners n1) (cr_remote_node_id req)) (\<lambda>_.
       Inr (n1\<lparr>nstk_pc_of := CreateAwaitPeer req request\<rparr>)))))))"

text \<open>The peer's answer is not looked at; a remote-state-preparation request ends here.\<close>

definition create_request_acked ::
    "('rg, 'ar) netqasm \<Rightarrow> create_request \<Rightarrow> ll_request \<Rightarrow> rat \<Rightarrow> ('rg, 'ar) node
       \<Rightarrow> ('rg, 'ar) node result" where
  "create_request_acked P req request now n =
     (case ll_kind request of
        CreateAndKeep \<Rightarrow> handle_create_ck_request P req request now n
      | MeasureDirectly \<Rightarrow> handle_create_md_request P req request n
      | RemoteStatePrep \<Rightarrow> Inr (n\<lparr>nstk_pc_of := NstkIdle\<rparr>))"

definition handle_receive_request ::
    "receive_request \<Rightarrow> ('rg, 'ar) node \<Rightarrow> ('rg, 'ar) node result" where
  "handle_receive_request req n =
     bindE (assertE (find_epr_socket (rr_app_id req) (rr_epr_socket_id req) (rr_remote_node_id req) n
                       \<noteq> None) AssertionError) (\<lambda>_.
     bindE (dict_get (peer_listeners n) (rr_remote_node_id req)) (\<lambda>_.
       Inr (n\<lparr>nstk_pc_of := ReceiveAwaitPeer req\<rparr>)))"

definition receive_request_matched ::
    "('rg, 'ar) netqasm \<Rightarrow> receive_request \<Rightarrow> peer_msg \<Rightarrow> rat \<Rightarrow> ('rg, 'ar) node
       \<Rightarrow> ('rg, 'ar) node result" where
  "receive_request_matched P req msg now n =
     bindE (send_peer_msg (rr_remote_node_id req) (PeerText ''ready'') n) (\<lambda>n1.
       case msg of
         PeerRequest request \<Rightarrow>
           (case ll_kind request of
              CreateAndKeep \<Rightarrow> handle_receive_ck_request req request now n1
            | MeasureDirectly \<Rightarrow> handle_receive_md_request P req request n1
            | RemoteStatePrep \<Rightarrow> Inr (n1\<lparr>nstk_pc_of := NstkIdle\<rparr>))
       | PeerText t \<Rightarrow> Inr (n1\<lparr>nstk_pc_of := NstkIdle\<rparr>))"

text \<open>Both breakpoint handlers raise before doing anything.\<close>

definition handle_breakpoint_create_request :: "('rg, 'ar) node \<Rightarrow> ('rg, 'ar) node result" where
  "handle_breakpoint_create_request n = Inl NotImplementedError"

definition handle_breakpoint_receive_request :: "('rg, 'ar) node \<Rightarrow> ('rg, 'ar) node result" where
  "handle_breakpoint_receive_request n = Inl NotImplementedError"

section \<open>The network stack's steps\<close>

fun handle_processor_msg ::
    "('rg, 'ar) netqasm \<Rightarrow> nstk_msg \<Rightarrow> ('rg, 'ar) node \<Rightarrow> ('rg, 'ar) node result" where
  "handle_processor_msg P (NetstackCreateRequest req) n = handle_create_request P req n"
| "handle_processor_msg P (NetstackReceiveRequest req) n = handle_receive_request req n"
| "handle_processor_msg P (NetstackBreakpointCreateRequest a) n = handle_breakpoint_create_request n"
| "handle_processor_msg P (NetstackBreakpointReceiveRequest a) n = handle_breakpoint_receive_request n"
| "handle_processor_msg P (NstkText t) n = Inr n"

text \<open>\<open>self._receive_msg(f"peer_{peer_id}", ...)\<close> once the buffer is not empty.\<close>

definition pop_peer_msg ::
    "int \<Rightarrow> ('rg, 'ar) node \<Rightarrow> (peer_msg \<times> ('rg, 'ar) node) option" where
  "pop_peer_msg peer_id n =
     (case map_of (peer_listeners n) peer_id of
        Some (msg # rest) \<Rightarrow> Some (msg, n\<lparr>peer_listeners := AList.update peer_id rest (peer_listeners n)\<rparr>)
      | _ \<Rightarrow> None)"

text \<open>
  \<open>NstkGo\<close>: a message or the signal it waits for is there; \<open>NstkEgp\<close>: its EGP signals a
  result.  An EGP result of another kind than awaited does not wake it.
\<close>

datatype nstk_event = NstkGo rat | NstkEgp egp_result rat

fun netstack_step ::
    "('rg, 'ar) netqasm \<Rightarrow> nstk_event \<Rightarrow> ('rg, 'ar) node \<Rightarrow> ('rg, 'ar) node result option" where
  "netstack_step P (NstkGo now) n =
     (case nstk_pc_of n of
        NstkIdle \<Rightarrow> (case proc_to_nstk n of [] \<Rightarrow> None
          | msg # rest \<Rightarrow> Some (handle_processor_msg P msg (n\<lparr>proc_to_nstk := rest\<rparr>)))
      | CreateAwaitPeer req request \<Rightarrow> (case pop_peer_msg (cr_remote_node_id req) n of None \<Rightarrow> None
          | Some (msg, n1) \<Rightarrow> Some (create_request_acked P req request now n1))
      | CreateCkAwaitMemory c \<Rightarrow>
          (if memory_freed n then Some (create_ck_next c (n\<lparr>memory_freed := False\<rparr>)) else None)
      | ReceiveAwaitPeer req \<Rightarrow> (case pop_peer_msg (rr_remote_node_id req) n of None \<Rightarrow> None
          | Some (msg, n1) \<Rightarrow> Some (receive_request_matched P req msg now n1))
      | ReceiveCkAwaitMemory c \<Rightarrow>
          (if memory_freed n then Some (receive_ck_next c (n\<lparr>memory_freed := False\<rparr>)) else None)
      | _ \<Rightarrow> None)"
| "netstack_step P (NstkEgp (ResCreateAndKeep bell) now) n =
     (case nstk_pc_of n of
        CreateCkAwaitEgp c phys_id \<Rightarrow> Some (create_ck_result P c phys_id bell now n)
      | ReceiveCkAwaitEgp c phys_id \<Rightarrow> Some (receive_ck_result P c phys_id bell now n)
      | _ \<Rightarrow> None)"
| "netstack_step P (NstkEgp (ResMeasureDirectly r) now) n =
     (case nstk_pc_of n of
        CreateMdAwaitEgp req request results phys_id \<Rightarrow>
          Some (create_md_result P req request results phys_id r n)
      | ReceiveMdAwaitEgp req number results phys_id \<Rightarrow>
          Some (receive_md_result P req number results phys_id r n)
      | _ \<Rightarrow> None)"

end
