(* ===== verification/Handler.thy ===== *)
theory Handler
  imports Netstack
begin

text \<open>
  The handler of a node (classes \<open>RunningApp\<close> and \<open>Handler\<close> of
  \<open>squidasm/sim/stack/handler.py\<close>): it registers and stops applications, queues the
  subroutines the host sends, and gives them to the processor one at a time.
\<close>

section \<open>\<open>RunningApp\<close>\<close>

text \<open>The pending subroutines; \<open>pop()\<close> takes the last one.\<close>

definition app_add_subroutine :: "subroutine \<Rightarrow> subroutine list \<Rightarrow> subroutine list" where
  "app_add_subroutine s app = app @ [s]"

definition app_next_subroutine :: "subroutine list \<Rightarrow> (subroutine \<times> subroutine list) option" where
  "app_next_subroutine app = (if length app > 0 then Some (last app, butlast app) else None)"

section \<open>Operations\<close>

text \<open>The first application in dictionary order, which is the oldest.\<close>

definition next_app :: "('rg, 'ar) node \<Rightarrow> int option" where
  "next_app n = (case applications n of [] \<Rightarrow> None | (a, app) # d \<Rightarrow> Some a)"

text \<open>The number of qubits asked for is not used.\<close>

definition init_new_app ::
    "('rg, 'ar) netqasm \<Rightarrow> int \<Rightarrow> ('rg, 'ar) node \<Rightarrow> int \<times> ('rg, 'ar) node" where
  "init_new_app P max_qubits n =
     (let app_id = app_counter n in
      (app_id, n\<lparr>app_counter := app_counter n + 1,
                 app_memories := AList.update app_id
                   (AppMemory (shm P) app_id (qubit_count (physical_memory n))) (app_memories n),
                 applications := AList.update app_id [] (applications n)\<rparr>))"

definition add_subroutine :: "int \<Rightarrow> subroutine \<Rightarrow> ('rg, 'ar) node \<Rightarrow> ('rg, 'ar) node result" where
  "add_subroutine app_id s n =
     bindE (dict_get (applications n) app_id) (\<lambda>app.
       Inr (n\<lparr>applications := AList.update app_id (app_add_subroutine s app) (applications n)\<rparr>))"

text \<open>
  One iteration of \<open>clear_application\<close>'s loop over \<open>qubit_mapping.items()\<close>; every key is
  visited once, so the value seen is the one before the loop.
\<close>

definition clear_qubit ::
    "int \<Rightarrow> int option \<times> int option \<Rightarrow> ('rg, 'ar) node \<Rightarrow> ('rg, 'ar) node result" where
  "clear_qubit app_id vp n =
     bindE (on_mem app_id (\<lambda>m. Inr (unmap_virt_id (fst vp) m)) n) (\<lambda>n1.
       case snd vp of None \<Rightarrow> Inr n1 | Some p \<Rightarrow> free_phys p n1)"

definition clear_application :: "int \<Rightarrow> ('rg, 'ar) node \<Rightarrow> ('rg, 'ar) node result" where
  "clear_application app_id n =
     bindE (get_mem app_id n) (\<lambda>m.
     bindE (forE (clear_qubit app_id) (am_virt_qubits m) n) (\<lambda>n1.
     bindE (get_mem app_id n1) (\<lambda>m1.
       Inr (n1\<lparr>app_memories := AList.delete app_id (app_memories n1),
               dropped_memories := AList.update app_id m1 (dropped_memories n1)\<rparr>))))"

definition stop_application :: "int \<Rightarrow> ('rg, 'ar) node \<Rightarrow> ('rg, 'ar) node result" where
  "stop_application app_id n =
     (if should_clear_memory n then
        bindE (clear_application app_id n) (\<lambda>n1.
        bindE (dict_pop (applications n1) app_id) (\<lambda>apps. Inr (n1\<lparr>applications := apps\<rparr>)))
      else Inr n)"

definition send_host_msg :: "hand_reply \<Rightarrow> ('rg, 'ar) node \<Rightarrow> ('rg, 'ar) node" where
  "send_host_msg msg n = n\<lparr>hand_to_host := hand_to_host n @ [msg]\<rparr>"

text \<open>The flavour follows the hardware type, as the constructor sets it.\<close>

definition flavour_of :: "('rg, 'ar) node \<Rightarrow> flavour" where
  "flavour_of n = (case hardware_of n of NVHardware \<Rightarrow> NVFlavour | GenericHardware \<Rightarrow> VanillaFlavour)"

fun msg_from_host ::
    "('rg, 'ar) netqasm \<Rightarrow> host_msg \<Rightarrow> ('rg, 'ar) node \<Rightarrow> ('rg, 'ar) node result" where
  "msg_from_host P (InitNewAppMessage max_qubits) n =
     (let (app_id, n1) = init_new_app P max_qubits n in Inr (send_host_msg (AppIdReply app_id) n1))"
| "msg_from_host P (OpenEPRSocketMessage app_id sck rem) n = Inr (open_epr_socket app_id sck rem n)"
| "msg_from_host P (SubroutineMessage raw) n =
     bindE (deser_subroutine (codecs P) (flavour_of n) raw) (\<lambda>s. add_subroutine (sub_app_id s) s n)"
| "msg_from_host P (StopAppMessage app_id) n = stop_application app_id n"
| "msg_from_host P OtherHostMessage n = Inr n"

section \<open>The handler's steps\<close>

text \<open>
  The inner loop of \<open>run\<close>: the next pending subroutine of the application is popped and
  sent to the processor, or the loop ends.  The \<open>RunningApp\<close> object is looked up by its
  id; while the loop runs no message of the host is handled, so it stays in the dictionary.
\<close>

definition flush_next :: "int \<Rightarrow> ('rg, 'ar) node \<Rightarrow> ('rg, 'ar) node result" where
  "flush_next app_id n =
     bindE (dict_get (applications n) app_id) (\<lambda>app.
       case app_next_subroutine app of
         None \<Rightarrow> Inr (n\<lparr>hand_pc_of := HandIdle\<rparr>)
       | Some (s, rest) \<Rightarrow>
           Inr (n\<lparr>applications := AList.update app_id rest (applications n),
                  hand_to_proc := hand_to_proc n @ [s],
                  hand_pc_of := HandAwaitProc app_id\<rparr>))"

definition handle_host_msg ::
    "('rg, 'ar) netqasm \<Rightarrow> string \<Rightarrow> ('rg, 'ar) node \<Rightarrow> ('rg, 'ar) node result" where
  "handle_host_msg P raw n =
     bindE (deserialize_host_msg (codecs P) raw) (\<lambda>msg.
     bindE (msg_from_host P msg n) (\<lambda>n1.
       case next_app n1 of None \<Rightarrow> Inr (n1\<lparr>hand_pc_of := HandIdle\<rparr>)
       | Some app_id \<Rightarrow> flush_next app_id n1))"

text \<open>The rest of \<open>assign_processor\<close> once the processor has answered, and the loop again.\<close>

definition processor_done :: "int \<Rightarrow> string \<Rightarrow> ('rg, 'ar) node \<Rightarrow> ('rg, 'ar) node result" where
  "processor_done app_id msg n =
     bindE (assertE (msg = ''subroutine done'') AssertionError) (\<lambda>_.
     bindE (get_mem app_id n) (\<lambda>m.
       flush_next app_id (send_host_msg (AppMemReply app_id) n)))"

definition handler_step ::
    "('rg, 'ar) netqasm \<Rightarrow> ('rg, 'ar) node \<Rightarrow> ('rg, 'ar) node result option" where
  "handler_step P n =
     (case hand_pc_of n of
        HandAwaitProc app_id \<Rightarrow> (case proc_to_hand n of [] \<Rightarrow> None
          | msg # rest \<Rightarrow> Some (processor_done app_id msg (n\<lparr>proc_to_hand := rest\<rparr>)))
      | HandIdle \<Rightarrow> (case host_to_hand n of [] \<Rightarrow> None
          | raw # rest \<Rightarrow> Some (handle_host_msg P raw (n\<lparr>host_to_hand := rest\<rparr>))))"

end
