(* ===== verification/Processor.thy ===== *)
theory Processor
  imports NodeState
begin

text \<open>
  The base class \<open>Processor\<close> of \<open>squidasm/sim/stack/processor.py\<close>: the instructions that
  do not depend on the hardware.  Each \<open>_interpret_*\<close> method is a function on the node; the
  ones that are generators return a \<open>proc_outcome\<close>: they finished, or they are suspended at
  a program point.  \<open>P\<close> carries the NetQASM parameters, \<open>a\<close> is the application id.
\<close>

datatype proc_outcome = Finished | Suspended proc_pc

section \<open>Classical instructions\<close>

definition interpret_set ::
    "('rg, 'ar) netqasm \<Rightarrow> int \<Rightarrow> reg \<Rightarrow> int \<Rightarrow> ('rg, 'ar) node \<Rightarrow> ('rg, 'ar) node result" where
  "interpret_set P a r imm n = on_mem a (set_reg_value (shm P) (ByReg r) imm) n"

definition interpret_store ::
    "('rg, 'ar) netqasm \<Rightarrow> int \<Rightarrow> reg \<Rightarrow> array_entry \<Rightarrow> ('rg, 'ar) node \<Rightarrow> ('rg, 'ar) node result" where
  "interpret_store P a r e n = on_mem a (\<lambda>m.
     bindE (get_reg_value (shm P) (ByReg r) m) (\<lambda>v.
       case v of None \<Rightarrow> Inl RuntimeError
       | Some x \<Rightarrow> set_array_entry (shm P) e (Some x) m)) n"

definition interpret_load ::
    "('rg, 'ar) netqasm \<Rightarrow> int \<Rightarrow> reg \<Rightarrow> array_entry \<Rightarrow> ('rg, 'ar) node \<Rightarrow> ('rg, 'ar) node result" where
  "interpret_load P a r e n = on_mem a (\<lambda>m.
     bindE (get_array_entry (shm P) e m) (\<lambda>v.
       case v of None \<Rightarrow> Inl RuntimeError
       | Some x \<Rightarrow> set_reg_value (shm P) (ByReg r) x m)) n"

definition interpret_lea ::
    "('rg, 'ar) netqasm \<Rightarrow> int \<Rightarrow> reg \<Rightarrow> int \<Rightarrow> ('rg, 'ar) node \<Rightarrow> ('rg, 'ar) node result" where
  "interpret_lea P a r addr n = on_mem a (set_reg_value (shm P) (ByReg r) addr) n"

definition interpret_undef ::
    "('rg, 'ar) netqasm \<Rightarrow> int \<Rightarrow> array_entry \<Rightarrow> ('rg, 'ar) node \<Rightarrow> ('rg, 'ar) node result" where
  "interpret_undef P a e n = on_mem a (set_array_entry (shm P) e None) n"

definition interpret_array ::
    "('rg, 'ar) netqasm \<Rightarrow> int \<Rightarrow> reg \<Rightarrow> int \<Rightarrow> ('rg, 'ar) node \<Rightarrow> ('rg, 'ar) node result" where
  "interpret_array P a len_reg addr n = on_mem a (\<lambda>m.
     bindE (get_reg_value (shm P) (ByReg len_reg) m) (\<lambda>len.
       case len of None \<Rightarrow> Inl AssertionError
       | Some l \<Rightarrow> init_new_array (shm P) addr l m)) n"

text \<open>A branch sets the program counter itself; the caller does not increment it.\<close>

definition take_branch :: "bool \<Rightarrow> int \<Rightarrow> ('rg, 'ar) app_memory \<Rightarrow> ('rg, 'ar) app_memory" where
  "take_branch condition line m =
     (if condition then set_prog_counter line m else increment_prog_counter m)"

fun interpret_branch_instr ::
    "('rg, 'ar) netqasm \<Rightarrow> int \<Rightarrow> instr \<Rightarrow> ('rg, 'ar) node \<Rightarrow> ('rg, 'ar) node result" where
  "interpret_branch_instr P a (Jmp line) n =
     on_mem a (\<lambda>m. Inr (take_branch True line m)) n"
| "interpret_branch_instr P a (BranchUnary mn r line) n = on_mem a (\<lambda>m.
     bindE (get_reg_value (shm P) (ByReg r) m) (\<lambda>x.
     bindE (check_unary (conds P) mn x) (\<lambda>c. Inr (take_branch c line m)))) n"
| "interpret_branch_instr P a (BranchBinary mn r0 r1 line) n = on_mem a (\<lambda>m.
     bindE (get_reg_value (shm P) (ByReg r0) m) (\<lambda>x.
     bindE (get_reg_value (shm P) (ByReg r1) m) (\<lambda>y.
     bindE (check_binary (conds P) mn x y) (\<lambda>c. Inr (take_branch c line m))))) n"
| "interpret_branch_instr P a _ n = Inl TypeError"

datatype binary_op = PlainOp classical_op | ModOp classical_op_mod

text \<open>Python's \<open>%\<close>, which takes the sign of the divisor as \<open>mod\<close> on \<open>int\<close> does.\<close>

definition py_mod :: "int \<Rightarrow> int \<Rightarrow> int result" where
  "py_mod a b = (if b = 0 then Inl ZeroDivisionError else Inr (a mod b))"

fun compute_binary_classical_instr :: "binary_op \<Rightarrow> int \<Rightarrow> int \<Rightarrow> int option \<Rightarrow> int result" where
  "compute_binary_classical_instr (PlainOp AddOp) a b md = Inr (a + b)"
| "compute_binary_classical_instr (ModOp AddmOp) a b md =
     (case md of None \<Rightarrow> Inl AssertionError | Some k \<Rightarrow> py_mod (a + b) k)"
| "compute_binary_classical_instr (PlainOp SubOp) a b md = Inr (a - b)"
| "compute_binary_classical_instr (ModOp SubmOp) a b md =
     (case md of None \<Rightarrow> Inl AssertionError | Some k \<Rightarrow> py_mod (a - b) k)"
| "compute_binary_classical_instr _ a b md = Inl ValueError"

text \<open>\<open>regmod\<close> is given for the classes with a modulus only.\<close>

definition interpret_binary_classical_instr ::
    "('rg, 'ar) netqasm \<Rightarrow> int \<Rightarrow> binary_op \<Rightarrow> reg \<Rightarrow> reg \<Rightarrow> reg \<Rightarrow> reg option
       \<Rightarrow> ('rg, 'ar) node \<Rightarrow> ('rg, 'ar) node result" where
  "interpret_binary_classical_instr P a oper regout regin0 regin1 regmod n = on_mem a (\<lambda>m.
     bindE (case regmod of None \<Rightarrow> Inr None | Some r \<Rightarrow> get_reg_value (shm P) (ByReg r) m) (\<lambda>md.
     bindE (assertE (case md of None \<Rightarrow> True | Some k \<Rightarrow> \<not> k < 1) RuntimeError) (\<lambda>_.
     bindE (get_reg_value (shm P) (ByReg regin0) m) (\<lambda>x.
     bindE (get_reg_value (shm P) (ByReg regin1) m) (\<lambda>y.
       case (x, y) of (Some x', Some y') \<Rightarrow>
         bindE (compute_binary_classical_instr oper x' y' md) (\<lambda>v.
           set_reg_value (shm P) (ByReg regout) v m)
       | _ \<Rightarrow> Inl AssertionError))))) n"

section \<open>Qubit allocation\<close>

definition interpret_qalloc ::
    "('rg, 'ar) netqasm \<Rightarrow> int \<Rightarrow> reg \<Rightarrow> ('rg, 'ar) node \<Rightarrow> ('rg, 'ar) node result" where
  "interpret_qalloc P a r n =
     bindE (get_mem a n) (\<lambda>m.
     bindE (get_reg_value (shm P) (ByReg r) m) (\<lambda>v.
       case v of None \<Rightarrow> Inl RuntimeError
       | Some virt_id \<Rightarrow>
           bindE (on_phys allocate n) (\<lambda>(p, n'). Inr (put_mem a (map_virt_id (Some virt_id) p m) n'))))"

definition interpret_qfree ::
    "('rg, 'ar) netqasm \<Rightarrow> int \<Rightarrow> reg \<Rightarrow> ('rg, 'ar) node \<Rightarrow> ('rg, 'ar) node result" where
  "interpret_qfree P a r n =
     bindE (get_mem a n) (\<lambda>m.
     bindE (get_reg_value (shm P) (ByReg r) m) (\<lambda>v.
       case v of None \<Rightarrow> Inl AssertionError
       | Some virt_id \<Rightarrow>
           bindE (phys_id_for (Some virt_id) m) (\<lambda>q.
             case q of None \<Rightarrow> Inl AssertionError
             | Some p \<Rightarrow>
                 bindE (free_phys p (put_mem a (unmap_virt_id (Some virt_id) m) n)) (\<lambda>n'.
                   Inr (log_device (SetInUse p False) (signal_memory_freed n'))))))"

section \<open>Entanglement requests\<close>

definition send_netstack_msg :: "nstk_msg \<Rightarrow> ('rg, 'ar) node \<Rightarrow> ('rg, 'ar) node" where
  "send_netstack_msg msg n = n\<lparr>proc_to_nstk := proc_to_nstk n @ [msg]\<rparr>"

definition interpret_create_epr ::
    "('rg, 'ar) netqasm \<Rightarrow> int \<Rightarrow> reg \<Rightarrow> reg \<Rightarrow> reg \<Rightarrow> reg \<Rightarrow> reg
       \<Rightarrow> ('rg, 'ar) node \<Rightarrow> ('rg, 'ar) node result" where
  "interpret_create_epr P a rem sck qarr args res n =
     bindE (get_mem a n) (\<lambda>m.
     bindE (get_reg_value (shm P) (ByReg rem) m) (\<lambda>remote.
     bindE (get_reg_value (shm P) (ByReg sck) m) (\<lambda>socket.
     bindE (get_reg_value (shm P) (ByReg qarr) m) (\<lambda>qubits.
     bindE (get_reg_value (shm P) (ByReg args) m) (\<lambda>arg_addr.
     bindE (get_reg_value (shm P) (ByReg res) m) (\<lambda>res_addr.
       case (remote, socket, arg_addr, res_addr) of
         (Some rn, Some sk, Some aa, Some ra) \<Rightarrow>
           Inr (send_netstack_msg (NetstackCreateRequest
             \<lparr>cr_app_id = a, cr_remote_node_id = rn, cr_epr_socket_id = sk,
              cr_qubit_array_addr = qubits, cr_arg_array_addr = aa, cr_result_array_addr = ra\<rparr>) n)
       | _ \<Rightarrow> Inl AssertionError))))))"

definition interpret_recv_epr ::
    "('rg, 'ar) netqasm \<Rightarrow> int \<Rightarrow> reg \<Rightarrow> reg \<Rightarrow> reg \<Rightarrow> reg
       \<Rightarrow> ('rg, 'ar) node \<Rightarrow> ('rg, 'ar) node result" where
  "interpret_recv_epr P a rem sck qarr res n =
     bindE (get_mem a n) (\<lambda>m.
     bindE (get_reg_value (shm P) (ByReg rem) m) (\<lambda>remote.
     bindE (get_reg_value (shm P) (ByReg sck) m) (\<lambda>socket.
     bindE (get_reg_value (shm P) (ByReg qarr) m) (\<lambda>qubits.
     bindE (get_reg_value (shm P) (ByReg res) m) (\<lambda>res_addr.
       case (remote, socket, res_addr) of
         (Some rn, Some sk, Some ra) \<Rightarrow>
           Inr (send_netstack_msg (NetstackReceiveRequest
             \<lparr>rr_app_id = a, rr_remote_node_id = rn, rr_epr_socket_id = sk,
              rr_qubit_array_addr = qubits, rr_result_array_addr = ra\<rparr>) n)
       | _ \<Rightarrow> Inl AssertionError)))))"

section \<open>Waiting for array entries\<close>

text \<open>
  One pass of the loop of \<open>_interpret_wait_all\<close>: with an undefined entry in the slice the
  processor waits for a message of the network stack; else it empties that buffer and goes
  on.
\<close>

definition wait_all_check ::
    "('rg, 'ar) netqasm \<Rightarrow> subroutine \<Rightarrow> int \<Rightarrow> int option \<Rightarrow> int option \<Rightarrow> ('rg, 'ar) node
       \<Rightarrow> (proc_outcome \<times> ('rg, 'ar) node) result" where
  "wait_all_check P s addr start stop n =
     bindE (get_mem (sub_app_id s) n) (\<lambda>m.
     bindE (get_array_values (shm P) addr start stop m) (\<lambda>vs.
       if None \<in> set vs then Inr (Suspended (ProcWaitAll s addr start stop), n)
       else Inr (Finished, n\<lparr>nstk_to_proc := []\<rparr>)))"

fun interpret_wait_all ::
    "('rg, 'ar) netqasm \<Rightarrow> subroutine \<Rightarrow> array_slice \<Rightarrow> ('rg, 'ar) node
       \<Rightarrow> (proc_outcome \<times> ('rg, 'ar) node) result" where
  "interpret_wait_all P s (ArraySlice addr (RegIndex r0) (RegIndex r1)) n =
     bindE (get_mem (sub_app_id s) n) (\<lambda>m.
     bindE (get_reg_value (shm P) (ByReg r0) m) (\<lambda>start.
     bindE (get_reg_value (shm P) (ByReg r1) m) (\<lambda>stop.
       wait_all_check P s addr start stop n)))"
| "interpret_wait_all P s (ArraySlice addr i j) n =
     bindE (get_mem (sub_app_id s) n) (\<lambda>m. Inl AssertionError)"

section \<open>Breakpoints\<close>

definition interpret_breakpoint ::
    "subroutine \<Rightarrow> int \<Rightarrow> int \<Rightarrow> ('rg, 'ar) node \<Rightarrow> (proc_outcome \<times> ('rg, 'ar) node) result" where
  "interpret_breakpoint s action role n =
     (if action = 0 then Inr (Finished, n)
      else if action = 1 then Inr (Finished, log_device SaveQuantumState n)
      else if action = 2 then
        (if role = 0 then
           Inr (Suspended (ProcBreak s role AwaitReady),
                send_netstack_msg (NetstackBreakpointCreateRequest (sub_app_id s)) n)
         else if role = 1 then
           Inr (Suspended (ProcBreak s role AwaitReady),
                send_netstack_msg (NetstackBreakpointReceiveRequest (sub_app_id s)) n)
         else Inl ValueError)
      else Inl ValueError)"

definition resume_breakpoint ::
    "subroutine \<Rightarrow> int \<Rightarrow> break_stage \<Rightarrow> string \<Rightarrow> ('rg, 'ar) node
       \<Rightarrow> (proc_outcome \<times> ('rg, 'ar) node) result" where
  "resume_breakpoint s role stage msg n =
     (case stage of
        AwaitReady \<Rightarrow> bindE (assertE (msg = ''breakpoint ready'') AssertionError) (\<lambda>_.
          let n1 = (if role = 0 then log_device SaveQuantumState n else n) in
          Inr (Suspended (ProcBreak s role AwaitFinished), send_netstack_msg (NstkText ''breakpoint end'') n1))
      | AwaitFinished \<Rightarrow> bindE (assertE (msg = ''breakpoint finished'') AssertionError) (\<lambda>_.
          Inr (Finished, n)))"

section \<open>Device programs\<close>

text \<open>\<open>yield self.qdevice.execute_program(prog)\<close>, to be continued by \<open>k\<close>.\<close>

definition run_program ::
    "subroutine \<Rightarrow> ns_op list \<Rightarrow> dev_kont \<Rightarrow> ('rg, 'ar) node
       \<Rightarrow> (proc_outcome \<times> ('rg, 'ar) node) result" where
  "run_program s prog k n = Inr (Suspended (ProcDevice s k), log_device (ExecProgram prog) n)"

text \<open>The virtual id in a register and the physical id it maps to.\<close>

definition qubit_of_reg ::
    "('rg, 'ar) netqasm \<Rightarrow> int \<Rightarrow> reg \<Rightarrow> ('rg, 'ar) node \<Rightarrow> (int option \<times> int option) result" where
  "qubit_of_reg P a r n =
     bindE (get_mem a n) (\<lambda>m.
     bindE (get_reg_value (shm P) (ByReg r) m) (\<lambda>v.
     bindE (phys_id_for v m) (\<lambda>p. Inr (v, p))))"

text \<open>The angle \<open>n * pi / 2 ** d\<close>, as a multiple of \<open>pi\<close>.\<close>

definition get_rotation_angle_from_operands :: "int \<Rightarrow> int \<Rightarrow> rat" where
  "get_rotation_angle_from_operands n d =
     (if 0 \<le> d then of_int n / 2 ^ nat d else of_int n * 2 ^ nat (- d))"

definition do_single_rotation ::
    "('rg, 'ar) netqasm \<Rightarrow> subroutine \<Rightarrow> reg \<Rightarrow> int \<Rightarrow> int \<Rightarrow> ns_instr \<Rightarrow> ('rg, 'ar) node
       \<Rightarrow> (proc_outcome \<times> ('rg, 'ar) node) result" where
  "do_single_rotation P s r num denom ns n =
     bindE (qubit_of_reg P (sub_app_id s) r n) (\<lambda>(v, p).
       run_program s [NsOp ns [p] (Some (get_rotation_angle_from_operands num denom))] KNext n)"

definition do_controlled_rotation ::
    "('rg, 'ar) netqasm \<Rightarrow> subroutine \<Rightarrow> reg \<Rightarrow> reg \<Rightarrow> int \<Rightarrow> int \<Rightarrow> ns_instr \<Rightarrow> ('rg, 'ar) node
       \<Rightarrow> (proc_outcome \<times> ('rg, 'ar) node) result" where
  "do_controlled_rotation P s r0 r1 num denom ns n =
     bindE (qubit_of_reg P (sub_app_id s) r0 n) (\<lambda>(v0, p0).
     bindE (qubit_of_reg P (sub_app_id s) r1 n) (\<lambda>(v1, p1).
       run_program s [NsOp ns [p0, p1] (Some (get_rotation_angle_from_operands num denom))] KNext n))"

end
