(* ===== verification/ProcGeneric.thy ===== *)
theory ProcGeneric
  imports Processor
begin

text \<open>
  The class \<open>GenericProcessor\<close> of \<open>squidasm/sim/stack/processor.py\<close>: initialisation,
  measurement and gates on hardware where every qubit can do everything.  The measurement
  outcome is stored when the device has run the program (\<open>KMeas\<close>, see \<open>ProcLoop\<close>).
\<close>

definition generic_interpret_init ::
    "('rg, 'ar) netqasm \<Rightarrow> subroutine \<Rightarrow> reg \<Rightarrow> ('rg, 'ar) node
       \<Rightarrow> (proc_outcome \<times> ('rg, 'ar) node) result" where
  "generic_interpret_init P s r n =
     bindE (qubit_of_reg P (sub_app_id s) r n) (\<lambda>(v, p).
       run_program s [NsOp INSTR_INIT [p] None] KNext n)"

definition generic_interpret_meas ::
    "('rg, 'ar) netqasm \<Rightarrow> subroutine \<Rightarrow> reg \<Rightarrow> reg \<Rightarrow> ('rg, 'ar) node
       \<Rightarrow> (proc_outcome \<times> ('rg, 'ar) node) result" where
  "generic_interpret_meas P s qreg creg n =
     bindE (qubit_of_reg P (sub_app_id s) qreg n) (\<lambda>(v, p).
       run_program s [NsOp INSTR_MEASURE [p] None] (KMeas creg) n)"

fun single_gate_instr :: "single_gate \<Rightarrow> ns_instr result" where
  "single_gate_instr GateX = Inr INSTR_X"
| "single_gate_instr GateY = Inr INSTR_Y"
| "single_gate_instr GateZ = Inr INSTR_Z"
| "single_gate_instr GateH = Inr INSTR_H"
| "single_gate_instr GateK = Inr INSTR_K"
| "single_gate_instr OtherSingleGate = Inl RuntimeError"

text \<open>The qubit is looked up before the gate is dispatched on.\<close>

definition generic_interpret_single_qubit_instr ::
    "('rg, 'ar) netqasm \<Rightarrow> subroutine \<Rightarrow> single_gate \<Rightarrow> reg \<Rightarrow> ('rg, 'ar) node
       \<Rightarrow> (proc_outcome \<times> ('rg, 'ar) node) result" where
  "generic_interpret_single_qubit_instr P s g r n =
     bindE (qubit_of_reg P (sub_app_id s) r n) (\<lambda>(v, p).
     bindE (single_gate_instr g) (\<lambda>ns. run_program s [NsOp ns [p] None] KNext n))"

fun axis_rotation :: "axis \<Rightarrow> ns_instr" where
  "axis_rotation AxisX = INSTR_ROT_X"
| "axis_rotation AxisY = INSTR_ROT_Y"
| "axis_rotation AxisZ = INSTR_ROT_Z"

fun generic_interpret_single_rotation_instr ::
    "('rg, 'ar) netqasm \<Rightarrow> subroutine \<Rightarrow> rotation \<Rightarrow> reg \<Rightarrow> int \<Rightarrow> int \<Rightarrow> ('rg, 'ar) node
       \<Rightarrow> (proc_outcome \<times> ('rg, 'ar) node) result" where
  "generic_interpret_single_rotation_instr P s (VanillaRot ax) r num denom n =
     do_single_rotation P s r num denom (axis_rotation ax) n"
| "generic_interpret_single_rotation_instr P s (NVRot ax) r num denom n = Inl RuntimeError"

definition generic_interpret_controlled_rotation_instr ::
    "('rg, 'ar) node \<Rightarrow> (proc_outcome \<times> ('rg, 'ar) node) result" where
  "generic_interpret_controlled_rotation_instr n = Inl RuntimeError"

fun two_gate_instr :: "two_gate \<Rightarrow> ns_instr result" where
  "two_gate_instr Cnot = Inr INSTR_CNOT"
| "two_gate_instr Cphase = Inr INSTR_CZ"
| "two_gate_instr OtherTwoGate = Inl RuntimeError"

definition generic_interpret_two_qubit_instr ::
    "('rg, 'ar) netqasm \<Rightarrow> subroutine \<Rightarrow> two_gate \<Rightarrow> reg \<Rightarrow> reg \<Rightarrow> ('rg, 'ar) node
       \<Rightarrow> (proc_outcome \<times> ('rg, 'ar) node) result" where
  "generic_interpret_two_qubit_instr P s g r0 r1 n =
     bindE (qubit_of_reg P (sub_app_id s) r0 n) (\<lambda>(v0, p0).
     bindE (qubit_of_reg P (sub_app_id s) r1 n) (\<lambda>(v1, p1).
     bindE (two_gate_instr g) (\<lambda>ns. run_program s [NsOp ns [p0, p1] None] KNext n)))"

end
