(* ===== verification/ProcNV.thy ===== *)
theory ProcNV
  imports ProcGeneric
begin

text \<open>
  The class \<open>NVProcessor\<close> of \<open>squidasm/sim/stack/processor.py\<close>: hardware with one
  communication qubit (the electron, physical position \<open>0\<close>), the only one that can be
  measured.  Measuring any other qubit moves it to the electron first, and what the
  electron holds to a free position.
\<close>

definition nv_interpret_qalloc ::
    "('rg, 'ar) netqasm \<Rightarrow> int \<Rightarrow> reg \<Rightarrow> ('rg, 'ar) node \<Rightarrow> ('rg, 'ar) node result" where
  "nv_interpret_qalloc P a r n =
     bindE (get_mem a n) (\<lambda>m.
     bindE (get_reg_value (shm P) (ByReg r) m) (\<lambda>v.
       case v of None \<Rightarrow> Inl RuntimeError
       | Some virt_id \<Rightarrow>
           bindE (on_phys (if virt_id > 0 then allocate_mem else allocate_comm) n) (\<lambda>(p, n').
             Inr (put_mem a (map_virt_id (Some virt_id) p m) n'))))"

definition nv_interpret_init ::
    "('rg, 'ar) netqasm \<Rightarrow> subroutine \<Rightarrow> reg \<Rightarrow> ('rg, 'ar) node
       \<Rightarrow> (proc_outcome \<times> ('rg, 'ar) node) result" where
  "nv_interpret_init P s r n =
     bindE (qubit_of_reg P (sub_app_id s) r n) (\<lambda>(v, p).
       run_program s [NsOp INSTR_INIT [p] None] KNext n)"

section \<open>Measurement\<close>

definition measure_electron ::
    "subroutine \<Rightarrow> reg \<Rightarrow> ('rg, 'ar) node \<Rightarrow> (proc_outcome \<times> ('rg, 'ar) node) result" where
  "measure_electron s creg n = run_program s [NsOp INSTR_MEASURE [Some 0] None] (KMeas creg) n"

text \<open>\<open>PI_OVER_2\<close>, as a multiple of \<open>pi\<close>.\<close>

definition PI_OVER_2 :: rat where
  "PI_OVER_2 = 1 / 2"

definition carbon_to_electron_prog :: "int option \<Rightarrow> ns_op list" where
  "carbon_to_electron_prog carbon_id =
     [NsOp INSTR_INIT [Some 0] None,
      NsOp INSTR_ROT_Y [Some 0] (Some PI_OVER_2),
      NsOp INSTR_CYDIR [Some 0, carbon_id] (Some (- PI_OVER_2)),
      NsOp INSTR_ROT_X [Some 0] (Some (- PI_OVER_2)),
      NsOp INSTR_CXDIR [Some 0, carbon_id] (Some PI_OVER_2),
      NsOp INSTR_ROT_Y [Some 0] (Some (- PI_OVER_2))]"

definition electron_to_carbon_prog :: "int \<Rightarrow> ns_op list" where
  "electron_to_carbon_prog carbon_id =
     [NsOp INSTR_INIT [Some carbon_id] None,
      NsOp INSTR_ROT_Y [Some 0] (Some PI_OVER_2),
      NsOp INSTR_CYDIR [Some 0, Some carbon_id] (Some (- PI_OVER_2)),
      NsOp INSTR_ROT_X [Some 0] (Some (- PI_OVER_2)),
      NsOp INSTR_CXDIR [Some 0, Some carbon_id] (Some PI_OVER_2)]"

text \<open>\<open>app_mem.unmap_virt_id(virt_id); app_mem.map_virt_id(virt_id, 0)\<close>.\<close>

definition remap :: "int option \<Rightarrow> int \<Rightarrow> ('rg, 'ar) app_memory \<Rightarrow> ('rg, 'ar) app_memory" where
  "remap v p m = map_virt_id v p (unmap_virt_id v m)"

text \<open>
  \<open>_interpret_meas\<close> up to its first \<open>yield\<close>.  When the electron and every other position
  is taken, the caught \<open>AllocError\<close> is logged and the next statement reads the variable
  the failed assignment never set.
\<close>

definition nv_interpret_meas ::
    "('rg, 'ar) netqasm \<Rightarrow> subroutine \<Rightarrow> reg \<Rightarrow> reg \<Rightarrow> ('rg, 'ar) node
       \<Rightarrow> (proc_outcome \<times> ('rg, 'ar) node) result" where
  "nv_interpret_meas P s qreg creg n =
     bindE (qubit_of_reg P (sub_app_id s) qreg n) (\<lambda>(virt_id, phys_id).
       if phys_id = Some 0 then measure_electron s creg n
       else if is_allocated 0 (physical_memory n) then
         (case on_phys allocate n of
            Inl AllocError \<Rightarrow> Inl UnboundLocalError
          | Inl e \<Rightarrow> Inl e
          | Inr (new_qubit, n1) \<Rightarrow>
              run_program s (electron_to_carbon_prog new_qubit)
                (KMoveElectron virt_id phys_id new_qubit creg) n1)
       else
         bindE (on_phys allocate_comm n) (\<lambda>(_, n1).
         bindE (on_mem (sub_app_id s) (\<lambda>m. Inr (remap virt_id 0 m)) n1) (\<lambda>n2.
           run_program s (carbon_to_electron_prog phys_id) (KMoveCarbon virt_id phys_id creg) n2)))"

text \<open>\<open>_interpret_meas\<close> after the electron's state has been moved to \<open>new_qubit\<close>.\<close>

definition nv_meas_electron_moved ::
    "subroutine \<Rightarrow> int option \<Rightarrow> int option \<Rightarrow> int \<Rightarrow> reg \<Rightarrow> ('rg, 'ar) node
       \<Rightarrow> (proc_outcome \<times> ('rg, 'ar) node) result" where
  "nv_meas_electron_moved s virt_id phys_id new_qubit creg n =
     bindE (get_virt_qubit_for_phys_id 0 n) (\<lambda>(elec_app_id, elec_virt_id).
     bindE (on_mem elec_app_id (\<lambda>m. Inr (remap (Some elec_virt_id) new_qubit m)) n) (\<lambda>n1.
     bindE (on_obj (sub_app_id s) (\<lambda>m. Inr (remap virt_id 0 m)) n1) (\<lambda>n2.
       run_program s (carbon_to_electron_prog phys_id) (KMoveCarbon virt_id phys_id creg) n2)))"

text \<open>\<open>_interpret_meas\<close> after the measured qubit has been moved to the electron.\<close>

definition nv_meas_carbon_moved ::
    "subroutine \<Rightarrow> int option \<Rightarrow> reg \<Rightarrow> ('rg, 'ar) node
       \<Rightarrow> (proc_outcome \<times> ('rg, 'ar) node) result" where
  "nv_meas_carbon_moved s phys_id creg n =
     (case phys_id of None \<Rightarrow> Inl KeyError
      | Some p \<Rightarrow> bindE (free_phys p n) (\<lambda>n1.
          measure_electron s creg (log_device (SetInUse p False) (signal_memory_freed n1))))"

section \<open>Gates\<close>

text \<open>\<open>NVProcessor\<close> does not override the single- and two-qubit gate methods.\<close>

definition nv_interpret_gate ::
    "('rg, 'ar) node \<Rightarrow> (proc_outcome \<times> ('rg, 'ar) node) result" where
  "nv_interpret_gate n = Inl NotImplementedError"

fun nv_interpret_single_rotation_instr ::
    "('rg, 'ar) netqasm \<Rightarrow> subroutine \<Rightarrow> rotation \<Rightarrow> reg \<Rightarrow> int \<Rightarrow> int \<Rightarrow> ('rg, 'ar) node
       \<Rightarrow> (proc_outcome \<times> ('rg, 'ar) node) result" where
  "nv_interpret_single_rotation_instr P s (NVRot ax) r num denom n =
     do_single_rotation P s r num denom (axis_rotation ax) n"
| "nv_interpret_single_rotation_instr P s (VanillaRot ax) r num denom n = Inl RuntimeError"

fun nv_interpret_controlled_rotation_instr ::
    "('rg, 'ar) netqasm \<Rightarrow> subroutine \<Rightarrow> controlled_rotation \<Rightarrow> reg \<Rightarrow> reg \<Rightarrow> int \<Rightarrow> int
       \<Rightarrow> ('rg, 'ar) node \<Rightarrow> (proc_outcome \<times> ('rg, 'ar) node) result" where
  "nv_interpret_controlled_rotation_instr P s (NVCRot AxisX) r0 r1 num denom n =
     do_controlled_rotation P s r0 r1 num denom INSTR_CXDIR n"
| "nv_interpret_controlled_rotation_instr P s (NVCRot AxisY) r0 r1 num denom n =
     do_controlled_rotation P s r0 r1 num denom INSTR_CYDIR n"
| "nv_interpret_controlled_rotation_instr P s _ r0 r1 num denom n = Inl RuntimeError"

end
