(* ===== verification/ProcLoop.thy ===== *)
theory ProcLoop
  imports ProcNV
begin

text \<open>
  The processor's main loop (\<open>run\<close>, \<open>execute_subroutine\<close> and \<open>_interpret_instruction\<close> of
  \<open>squidasm/sim/stack/processor.py\<close>): dispatch on the instruction class, one iteration of
  the \<open>while\<close> loop, and what happens at each \<open>yield\<close>.
\<close>

section \<open>Dispatch\<close>

definition no_yield ::
    "('rg, 'ar) node result \<Rightarrow> (proc_outcome \<times> ('rg, 'ar) node) result" where
  "no_yield r = bindE r (\<lambda>n. Inr (Finished, n))"

fun interpret_instruction ::
    "('rg, 'ar) netqasm \<Rightarrow> subroutine \<Rightarrow> instr \<Rightarrow> ('rg, 'ar) node
       \<Rightarrow> (proc_outcome \<times> ('rg, 'ar) node) result" where
  "interpret_instruction P s (SetI r imm) n = no_yield (interpret_set P (sub_app_id s) r imm n)"
| "interpret_instruction P s (QAlloc r) n =
     no_yield (case hardware_of n of
       GenericHardware \<Rightarrow> interpret_qalloc P (sub_app_id s) r n
     | NVHardware \<Rightarrow> nv_interpret_qalloc P (sub_app_id s) r n)"
| "interpret_instruction P s (QFree r) n = no_yield (interpret_qfree P (sub_app_id s) r n)"
| "interpret_instruction P s (Store r e) n = no_yield (interpret_store P (sub_app_id s) r e n)"
| "interpret_instruction P s (Load r e) n = no_yield (interpret_load P (sub_app_id s) r e n)"
| "interpret_instruction P s (Lea r addr) n = no_yield (interpret_lea P (sub_app_id s) r addr n)"
| "interpret_instruction P s (Undef e) n = no_yield (interpret_undef P (sub_app_id s) e n)"
| "interpret_instruction P s (Array r addr) n = no_yield (interpret_array P (sub_app_id s) r addr n)"
| "interpret_instruction P s (Init r) n =
     (case hardware_of n of
        GenericHardware \<Rightarrow> generic_interpret_init P s r n
      | NVHardware \<Rightarrow> nv_interpret_init P s r n)"
| "interpret_instruction P s (Meas q c) n =
     (case hardware_of n of
        GenericHardware \<Rightarrow> generic_interpret_meas P s q c n
      | NVHardware \<Rightarrow> nv_interpret_meas P s q c n)"
| "interpret_instruction P s (CreateEPR rem sck q args res) n =
     no_yield (interpret_create_epr P (sub_app_id s) rem sck q args res n)"
| "interpret_instruction P s (RecvEPR rem sck q res) n =
     no_yield (interpret_recv_epr P (sub_app_id s) rem sck q res n)"
| "interpret_instruction P s (WaitAll sl) n = interpret_wait_all P s sl n"
| "interpret_instruction P s (RetReg r) n = Inr (Finished, n)"
| "interpret_instruction P s (RetArr addr) n = Inr (Finished, n)"
| "interpret_instruction P s (SingleQubit g r) n =
     (case hardware_of n of
        GenericHardware \<Rightarrow> generic_interpret_single_qubit_instr P s g r n
      | NVHardware \<Rightarrow> nv_interpret_gate n)"
| "interpret_instruction P s (TwoQubit g r0 r1) n =
     (case hardware_of n of
        GenericHardware \<Rightarrow> generic_interpret_two_qubit_instr P s g r0 r1 n
      | NVHardware \<Rightarrow> nv_interpret_gate n)"
| "interpret_instruction P s (Rotation g r num denom) n =
     (case hardware_of n of
        GenericHardware \<Rightarrow> generic_interpret_single_rotation_instr P s g r num denom n
      | NVHardware \<Rightarrow> nv_interpret_single_rotation_instr P s g r num denom n)"
| "interpret_instruction P s (ControlledRotation g r0 r1 num denom) n =
     (case hardware_of n of
        GenericHardware \<Rightarrow> generic_interpret_controlled_rotation_instr n
      | NVHardware \<Rightarrow> nv_interpret_controlled_rotation_instr P s g r0 r1 num denom n)"
| "interpret_instruction P s (ClassicalOp oper ro r0 r1) n =
     no_yield (interpret_binary_classical_instr P (sub_app_id s) (PlainOp oper) ro r0 r1 None n)"
| "interpret_instruction P s (ClassicalOpMod oper ro r0 r1 rm) n =
     no_yield (interpret_binary_classical_instr P (sub_app_id s) (ModOp oper) ro r0 r1 (Some rm) n)"
| "interpret_instruction P s (Breakpoint action role) n = interpret_breakpoint s action role n"
| "interpret_instruction P s _ n = Inl RuntimeError"

section \<open>One iteration\<close>

fun is_branch :: "instr \<Rightarrow> bool" where
  "is_branch (Jmp line) = True"
| "is_branch (BranchUnary mn r line) = True"
| "is_branch (BranchBinary mn r0 r1 line) = True"
| "is_branch _ = False"

text \<open>The end of an instruction that is not a branch, or a suspension inside it.\<close>

fun after_instr ::
    "subroutine \<Rightarrow> proc_outcome \<times> ('rg, 'ar) node \<Rightarrow> ('rg, 'ar) node result" where
  "after_instr s (Finished, n) =
     bindE (on_obj (sub_app_id s) (\<lambda>m. Inr (increment_prog_counter m)) n) (\<lambda>n'.
       Inr (n'\<lparr>proc_pc_of := ProcExec s\<rparr>))"
| "after_instr s (Suspended pc, n) = Inr (n\<lparr>proc_pc_of := pc\<rparr>)"

definition execute_subroutine_start ::
    "subroutine \<Rightarrow> ('rg, 'ar) node \<Rightarrow> ('rg, 'ar) node result" where
  "execute_subroutine_start s n =
     bindE (assertE (sub_app_id s \<in> set (dict_keys (app_memories n))) AssertionError) (\<lambda>_.
     bindE (on_mem (sub_app_id s) (\<lambda>m. Inr (set_prog_counter 0 m)) n) (\<lambda>n'.
       Inr (n'\<lparr>proc_pc_of := ProcExec s\<rparr>)))"

definition execute_subroutine_step ::
    "('rg, 'ar) netqasm \<Rightarrow> subroutine \<Rightarrow> ('rg, 'ar) node \<Rightarrow> ('rg, 'ar) node result" where
  "execute_subroutine_step P s n =
     bindE (get_obj (sub_app_id s) n) (\<lambda>m.
       if am_prog_counter m < int (length (sub_instrs s)) then
         bindE (py_index (sub_instrs s) (am_prog_counter m)) (\<lambda>i.
           if is_branch i then
             bindE (interpret_branch_instr P (sub_app_id s) i n) (\<lambda>n'.
               Inr (n'\<lparr>proc_pc_of := ProcExec s\<rparr>))
           else bindE (interpret_instruction P s i n) (after_instr s))
       else Inr (n\<lparr>proc_to_hand := proc_to_hand n @ [''subroutine done''], proc_pc_of := ProcIdle\<rparr>))"

text \<open>The device has run its program; \<open>out\<close> is \<open>prog.output["last"][0]\<close>.\<close>

fun resume_device ::
    "('rg, 'ar) netqasm \<Rightarrow> subroutine \<Rightarrow> dev_kont \<Rightarrow> int \<Rightarrow> ('rg, 'ar) node
       \<Rightarrow> (proc_outcome \<times> ('rg, 'ar) node) result" where
  "resume_device P s KNext out n = Inr (Finished, n)"
| "resume_device P s (KMeas creg) out n =
     no_yield (on_obj (sub_app_id s) (set_reg_value (shm P) (ByReg creg) out) n)"
| "resume_device P s (KMoveElectron v p new_qubit creg) out n =
     nv_meas_electron_moved s v p new_qubit creg n"
| "resume_device P s (KMoveCarbon v p creg) out n = nv_meas_carbon_moved s p creg n"

section \<open>The processor's steps\<close>

text \<open>
  What can wake the processor: nothing is needed while it executes (\<open>ProcGo\<close>), the device
  finishes with an outcome, or a message is at the head of a buffer.  A step that is not
  enabled at the program point is \<open>None\<close>.
\<close>

datatype proc_event = ProcGo | ProcDeviceDone int

fun processor_step ::
    "('rg, 'ar) netqasm \<Rightarrow> proc_event \<Rightarrow> ('rg, 'ar) node \<Rightarrow> ('rg, 'ar) node result option" where
  "processor_step P ProcGo n =
     (case proc_pc_of n of
        ProcIdle \<Rightarrow> (case hand_to_proc n of [] \<Rightarrow> None
          | s # rest \<Rightarrow> Some (execute_subroutine_start s (n\<lparr>hand_to_proc := rest\<rparr>)))
      | ProcExec s \<Rightarrow> Some (execute_subroutine_step P s n)
      | ProcDevice s k \<Rightarrow> None
      | ProcWaitAll s addr start stop \<Rightarrow> (case nstk_to_proc n of [] \<Rightarrow> None
          | msg # rest \<Rightarrow> Some (bindE (wait_all_check P s addr start stop (n\<lparr>nstk_to_proc := rest\<rparr>))
              (after_instr s)))
      | ProcBreak s role stage \<Rightarrow> (case nstk_to_proc n of [] \<Rightarrow> None
          | msg # rest \<Rightarrow> Some (bindE (resume_breakpoint s role stage msg (n\<lparr>nstk_to_proc := rest\<rparr>))
              (after_instr s))))"
| "processor_step P (ProcDeviceDone out) n =
     (case proc_pc_of n of
        ProcDevice s k \<Rightarrow> Some (bindE (resume_device P s k out n) (after_instr s))
      | _ \<Rightarrow> None)"

end
