(* ===== verification/QnosNode.thy ===== *)
theory QnosNode
  imports Handler ProcLoop
begin

text \<open>
  One QNodeOS instance (class \<open>Qnos\<close> of \<open>squidasm/sim/stack/qnos.py\<close>): the handler, the
  processor and the network stack of a node over their shared memories.  A node makes one
  step of one of its three generators at a time, or takes input from outside; any order is
  possible.  NetSquid runs the instructions of a subroutine between two \<open>yield\<close>s without
  interruption, so its runs are among the runs of this relation.
\<close>

section \<open>Construction\<close>

definition new_node :: "hardware \<Rightarrow> phys_mem \<Rightarrow> ('rg, 'ar) node" where
  "new_node hw pm =
     \<lparr>hardware_of = hw, physical_memory = pm, app_memories = [], dropped_memories = [],
      app_counter = 0, applications = [], should_clear_memory = True, egps = [],
      epr_sockets = [], peer_ports = [], peer_listeners = [], host_to_hand = [],
      hand_to_host = [], hand_to_proc = [], proc_to_hand = [], proc_to_nstk = [],
      nstk_to_proc = [], peer_out = [], egp_log = [], device_log = [], memory_freed = False,
      hand_pc_of = HandIdle, proc_pc_of = ProcIdle, nstk_pc_of = NstkIdle\<rparr>"

definition Qnos :: "string \<Rightarrow> int \<Rightarrow> ('rg, 'ar) node result" where
  "Qnos qdevice_type num_positions =
     (if qdevice_type = ''generic'' then
        Inr (new_node GenericHardware (PhysicalQuantumMemory num_positions))
      else if qdevice_type = ''nv'' then
        Inr (new_node NVHardware (NVPhysicalQuantumMemory num_positions))
      else Inl ValueError)"

section \<open>Steps\<close>

datatype node_event =
    HandlerEvent
  | ProcessorEvent proc_event
  | NetstackEvent nstk_event
  | FromHost string
  | FromPeer int peer_msg
  | RegisterPeer int
  | AssignEgp int int
  | SetShouldClear bool

text \<open>\<open>QnosComponent.register_peer\<close>, then \<open>Netstack.register_peer\<close>.\<close>

definition register_peer :: "int \<Rightarrow> ('rg, 'ar) node \<Rightarrow> ('rg, 'ar) node result" where
  "register_peer peer_id n = register_peer_listener peer_id (register_peer_port peer_id n)"

definition deliver_peer_msg :: "int \<Rightarrow> peer_msg \<Rightarrow> ('rg, 'ar) node \<Rightarrow> ('rg, 'ar) node option" where
  "deliver_peer_msg peer_id msg n =
     (case map_of (peer_listeners n) peer_id of None \<Rightarrow> None
      | Some buf \<Rightarrow> Some (n\<lparr>peer_listeners := AList.update peer_id (buf @ [msg]) (peer_listeners n)\<rparr>))"

fun node_step ::
    "('rg, 'ar) netqasm \<Rightarrow> node_event \<Rightarrow> ('rg, 'ar) node \<Rightarrow> ('rg, 'ar) node result option" where
  "node_step P HandlerEvent n = handler_step P n"
| "node_step P (ProcessorEvent e) n = processor_step P e n"
| "node_step P (NetstackEvent e) n = netstack_step P e n"
| "node_step P (FromHost raw) n = Some (Inr (n\<lparr>host_to_hand := host_to_hand n @ [raw]\<rparr>))"
| "node_step P (FromPeer peer_id msg) n = map_option Inr (deliver_peer_msg peer_id msg n)"
| "node_step P (RegisterPeer peer_id) n = Some (register_peer peer_id n)"
| "node_step P (AssignEgp remote egp) n = Some (Inr (assign_egp remote egp n))"
| "node_step P (SetShouldClear b) n = Some (Inr (n\<lparr>should_clear_memory := b\<rparr>))"

text \<open>A run of a node from its construction.\<close>

inductive reachable :: "('rg, 'ar) netqasm \<Rightarrow> ('rg, 'ar) node \<Rightarrow> bool" for P where
  start: "Qnos ty k = Inr n \<Longrightarrow> reachable P n"
| step: "reachable P n \<Longrightarrow> node_step P e n = Some (Inr n') \<Longrightarrow> reachable P n'"

text \<open>Running a list of events, for concrete runs.\<close>

fun run_events ::
    "('rg, 'ar) netqasm \<Rightarrow> node_event list \<Rightarrow> ('rg, 'ar) node \<Rightarrow> ('rg, 'ar) node result" where
  "run_events P [] n = Inr n"
| "run_events P (e # es) n = (case node_step P e n of None \<Rightarrow> Inl StopIteration
     | Some r \<Rightarrow> bindE r (run_events P es))"

lemma run_events_reachable:
  assumes "reachable P n" and "run_events P es n = Inr n'"
  shows "reachable P n'"
  using assms
proof (induction es arbitrary: n)
  case Nil
  then show ?case by simp
next
  case (Cons e es)
  from Cons.prems(2) obtain n1 where "node_step P e n = Some (Inr n1)" "run_events P es n1 = Inr n'"
    by (auto simp: result_simps split: option.splits)
  then show ?case using Cons.IH Cons.prems(1) by (blast intro: reachable.step)
qed

lemma reachable_induct_step [consumes 1, case_names init step]:
  assumes "reachable P n"
    and "\<And>hw pm. hw = GenericHardware \<and> (\<exists>k. pm = PhysicalQuantumMemory k)
            \<or> hw = NVHardware \<and> (\<exists>k. pm = NVPhysicalQuantumMemory k) \<Longrightarrow> Q (new_node hw pm)"
    and "\<And>n e n'. reachable P n \<Longrightarrow> Q n \<Longrightarrow> node_step P e n = Some (Inr n') \<Longrightarrow> Q n'"
  shows "Q n"
  using assms(1)
proof (induction rule: reachable.induct)
  case (start ty k n)
  then show ?case using assms(2) by (auto simp: Qnos_def split: if_splits)
next
  case (step n e n')
  then show ?case using assms(3) by blast
qed

end
