(* ===== verification/Ownership.thy ===== *)
theory Ownership
  imports QnosNode
begin

text \<open>
  Who holds which physical qubit.  The specification is a small machine on claims: a holder
  may take a free position, release the position it holds, hand it to another holder, or
  forget it.  The node's holders are the virtual qubits of the applications, the network
  stack while it waits for an EGP, and the processor while it moves qubits on NV hardware.
  \<open>NodeInv\<close> shows that every step of the node is a sequence of these moves.
\<close>

section \<open>The ownership machine\<close>

datatype holder = HMapped int "int option" | HNetstack | HNew | HCarbon

type_synonym claims = "holder \<Rightarrow> int option"

inductive owner_step :: "claims \<times> int set \<Rightarrow> claims \<times> int set \<Rightarrow> bool" where
  take: "p \<notin> U \<Longrightarrow> owner_step (c, U) (c(h \<mapsto> p), insert p U)"
| release: "c h = Some p \<Longrightarrow> owner_step (c, U) (c(h := None), U - {p})"
| move: "c h = Some p \<Longrightarrow> owner_step (c, U) (c(h := None, h' \<mapsto> p), U)"
| forget: "c' \<subseteq>\<^sub>m c \<Longrightarrow> owner_step (c, U) (c', U)"

abbreviation owner_steps :: "claims \<times> int set \<Rightarrow> claims \<times> int set \<Rightarrow> bool" where
  "owner_steps \<equiv> owner_step\<^sup>*\<^sup>*"

text \<open>No position has two holders, and every held position is allocated.\<close>

definition owners_ok :: "claims \<times> int set \<Rightarrow> bool" where
  "owners_ok s \<longleftrightarrow> inj_on (fst s) (dom (fst s)) \<and> ran (fst s) \<subseteq> snd s"

lemma owners_okD:
  assumes "owners_ok (c, U)"
  shows "c h = Some p \<Longrightarrow> c h' = Some p \<Longrightarrow> h = h'" and "c h = Some p \<Longrightarrow> p \<in> U"
  using assms by (auto simp: owners_ok_def inj_on_def dom_def ran_def)

lemma owners_okI:
  assumes "\<And>h h' p. c h = Some p \<Longrightarrow> c h' = Some p \<Longrightarrow> h = h'" and "\<And>h p. c h = Some p \<Longrightarrow> p \<in> U"
  shows "owners_ok (c, U)"
  using assms by (auto simp: owners_ok_def inj_on_def dom_def ran_def)

lemma owner_step_ok:
  assumes "owner_step s s'" and "owners_ok s"
  shows "owners_ok s'"
  using assms
proof (cases rule: owner_step.cases)
  case (take p U c h)
  have c: "owners_ok (c, U)" using assms(2) take(1) by simp
  show ?thesis unfolding take(2)
    by (rule owners_okI) (auto dest: owners_okD [OF c] simp: take(3) split: if_splits)
next
  case (release c h p U)
  have c: "owners_ok (c, U)" using assms(2) release(1) by simp
  show ?thesis unfolding release(2)
    by (rule owners_okI) (auto dest: owners_okD [OF c] owners_okD(1) [OF c release(3)] split: if_splits)
next
  case (move c h p U h')
  have c: "owners_ok (c, U)" using assms(2) move(1) by simp
  show ?thesis unfolding move(2)
    by (rule owners_okI)
      (auto dest: owners_okD [OF c] owners_okD(1) [OF c move(3)] intro: owners_okD(2) [OF c move(3)]
        split: if_splits)
next
  case (forget c' c U)
  have c: "owners_ok (c, U)" using assms(2) forget(1) by simp
  have sub: "c h = Some p" if "c' h = Some p" for h p
    using forget(3) that by (metis domI map_le_def)
  show ?thesis unfolding forget(2)
    by (rule owners_okI) (auto dest!: sub dest: owners_okD [OF c])
qed

lemma owner_steps_ok:
  assumes "owner_steps s s'" and "owners_ok s"
  shows "owners_ok s'"
  using assms by (induction rule: rtranclp_induct) (auto intro: owner_step_ok)

lemma owner_steps_eq: "s = s' \<Longrightarrow> owner_steps s s'"
  by simp

lemma owner_steps_take: "p \<notin> U \<Longrightarrow> owner_steps (c, U) (c(h \<mapsto> p), insert p U)"
  and owner_steps_release: "c h = Some p \<Longrightarrow> owner_steps (c, U) (c(h := None), U - {p})"
  and owner_steps_move: "c h = Some p \<Longrightarrow> owner_steps (c, U) (c(h := None, h' \<mapsto> p), U)"
  and owner_steps_forget: "c' \<subseteq>\<^sub>m c \<Longrightarrow> owner_steps (c, U) (c', U)"
  by (auto intro: owner_step.intros)

section \<open>The claims of a node\<close>

text \<open>The application memory objects by id, in the dictionary or popped from it.\<close>

definition mem_at :: "('rg, 'ar) node \<Rightarrow> int \<Rightarrow> ('rg, 'ar) app_memory option" where
  "mem_at n a = (map_of (dropped_memories n) ++ map_of (app_memories n)) a"

definition vdict :: "('rg, 'ar) node \<Rightarrow> int \<Rightarrow> (int option, int option) dict option" where
  "vdict n a = map_option am_virt_qubits (mem_at n a)"

definition vmap :: "('rg, 'ar) node \<Rightarrow> int \<Rightarrow> int option \<Rightarrow> int option" where
  "vmap n a v = (case mem_at n a of None \<Rightarrow> None | Some m \<Rightarrow> mapping m v)"

fun reserved :: "nstk_pc \<Rightarrow> int option" where
  "reserved (CreateCkAwaitEgp c p) = Some p"
| "reserved (CreateMdAwaitEgp req request results p) = Some p"
| "reserved (ReceiveCkAwaitEgp c p) = Some p"
| "reserved (ReceiveMdAwaitEgp req number results p) = Some p"
| "reserved _ = None"

fun moving :: "proc_pc \<Rightarrow> int option" where
  "moving (ProcDevice s (KMoveElectron v q new c)) = Some new"
| "moving _ = None"

text \<open>
  The measured carbon is the processor's own once its virtual qubit is mapped elsewhere.
\<close>

fun carbon :: "proc_pc \<Rightarrow> (int \<Rightarrow> int option \<Rightarrow> int option) \<Rightarrow> int option" where
  "carbon (ProcDevice s (KMoveElectron v q new c)) V = (if V (sub_app_id s) v = q then None else q)"
| "carbon (ProcDevice s (KMoveCarbon v q c)) V = q"
| "carbon _ V = None"

fun claims_of ::
    "(int \<Rightarrow> int option \<Rightarrow> int option) \<Rightarrow> int option \<Rightarrow> proc_pc \<Rightarrow> holder \<Rightarrow> int option" where
  "claims_of V r pc (HMapped a v) = V a v"
| "claims_of V r pc HNetstack = r"
| "claims_of V r pc HNew = moving pc"
| "claims_of V r pc HCarbon = carbon pc V"

definition own :: "('rg, 'ar) node \<Rightarrow> claims \<times> int set" where
  "own n = (claims_of (vmap n) (reserved (nstk_pc_of n)) (proc_pc_of n), used (physical_memory n))"

fun quiet_pc :: "proc_pc \<Rightarrow> bool" where
  "quiet_pc (ProcDevice s (KMoveElectron v q new c)) = False"
| "quiet_pc (ProcDevice s (KMoveCarbon v q c)) = False"
| "quiet_pc _ = True"

lemma quiet_pc_claims [simp]:
  assumes "quiet_pc pc"
  shows "moving pc = None" and "carbon pc V = None"
  using assms by (cases pc rule: quiet_pc.cases; simp)+

lemma claims_of_quiet:
  assumes "quiet_pc pc" and "quiet_pc pc'"
  shows "claims_of V r pc = claims_of V r pc'"
proof
  fix h show "claims_of V r pc h = claims_of V r pc' h" using assms by (cases h) simp_all
qed

lemma claims_of_map:
  assumes "quiet_pc pc"
  shows "claims_of (V(a := (V a)(v := x))) r pc = (claims_of V r pc)(HMapped a v := x)"
proof
  fix h show "claims_of (V(a := (V a)(v := x))) r pc h = ((claims_of V r pc)(HMapped a v := x)) h"
    using assms by (cases h) auto
qed

lemma claims_of_reserved: "claims_of V r pc = (claims_of V r' pc)(HNetstack := r)"
proof
  fix h show "claims_of V r pc h = ((claims_of V r' pc)(HNetstack := r)) h" by (cases h) auto
qed

section \<open>Views and frames\<close>

text \<open>Everything of a node the claims depend on, the processor's program point apart.\<close>

definition qv :: "('rg, 'ar) node \<Rightarrow> _" where
  "qv n = (vdict n, dict_keys (app_memories n), physical_memory n, reserved (nstk_pc_of n), hardware_of n)"

lemma vmap_vdict:
  "vmap n a v = (case vdict n a of None \<Rightarrow> None
     | Some d \<Rightarrow> (case map_of d v of Some (Some p) \<Rightarrow> Some p | _ \<Rightarrow> None))"
  by (simp add: vmap_def vdict_def mapping_def split: option.split)

lemma qv_eqD:
  assumes "qv n' = qv n"
  shows "vdict n' = vdict n" "vmap n' = vmap n" "physical_memory n' = physical_memory n"
    "reserved (nstk_pc_of n') = reserved (nstk_pc_of n)" "hardware_of n' = hardware_of n"
    "dict_keys (app_memories n') = dict_keys (app_memories n)"
  using assms by (simp_all add: qv_def vmap_vdict fun_eq_iff)

lemma mem_at_put_mem [simp]: "mem_at (put_mem a m n) = (mem_at n)(a \<mapsto> m)"
  by (rule ext) (simp add: mem_at_def put_mem_def map_add_def)

lemma mem_at_put_obj [simp]: "mem_at (put_obj a m n) = (mem_at n)(a \<mapsto> m)"
  by (rule ext) (auto simp: mem_at_def put_obj_def put_mem_def map_add_def split: option.splits)

lemma vdict_put [simp]:
  "vdict (put_mem a m n) = (vdict n)(a \<mapsto> am_virt_qubits m)"
  "vdict (put_obj a m n) = (vdict n)(a \<mapsto> am_virt_qubits m)"
  by (auto simp: vdict_def fun_eq_iff)

lemma vmap_put [simp]:
  "vmap (put_mem a m n) = (vmap n)(a := mapping m)"
  "vmap (put_obj a m n) = (vmap n)(a := mapping m)"
  by (auto simp: vmap_def fun_eq_iff)

lemma get_mem_mem_at: "get_mem a n = Inr m \<Longrightarrow> mem_at n a = Some m"
  by (simp add: get_mem_def mem_at_def result_simps map_add_def)

lemma get_obj_mem_at: "get_obj a n = Inr m \<longleftrightarrow> mem_at n a = Some m"
  by (simp add: get_obj_def mem_at_def result_simps map_add_def split: option.splits)

lemma mem_at_vmap: "mem_at n a = Some m \<Longrightarrow> vmap n a = mapping m"
  by (simp add: vmap_def fun_eq_iff)

lemma mem_at_vdict: "mem_at n a = Some m \<Longrightarrow> vdict n a = Some (am_virt_qubits m)"
  by (simp add: vdict_def)

lemma live_keys_put_mem [simp]:
  "get_mem a n = Inr m \<Longrightarrow> dict_keys (app_memories (put_mem a m' n)) = dict_keys (app_memories n)"
  unfolding put_mem_def get_mem_def
  by (simp add: result_simps) (metis dict_keys_update_in domI dom_map_of_conv_image_fst set_map)

lemma live_keys_put_obj [simp]:
  "dict_keys (app_memories (put_obj a m' n)) = dict_keys (app_memories n)"
proof (cases "map_of (app_memories n) a")
  case None
  then show ?thesis by (simp add: put_obj_def)
next
  case (Some m)
  then have "get_mem a n = Inr m" by (simp add: get_mem_def dict_get_def)
  with Some show ?thesis by (simp add: put_obj_def)
qed

lemma on_mem_qv:
  assumes "on_mem a f n = Inr n'" and "\<And>m m'. f m = Inr m' \<Longrightarrow> am_virt_qubits m' = am_virt_qubits m"
  shows "qv n' = qv n"
proof -
  from assms(1) obtain m m' where m: "get_mem a n = Inr m" "f m = Inr m'" "n' = put_mem a m' n"
    by (auto simp: on_mem_def result_simps)
  have "vdict n a = Some (am_virt_qubits m')"
    using mem_at_vdict [OF get_mem_mem_at [OF m(1)]] assms(2) [OF m(2)] by simp
  then show ?thesis using m(1) by (simp add: qv_def m(3) fun_upd_idem)
qed

lemma on_obj_qv:
  assumes "on_obj a f n = Inr n'" and "\<And>m m'. f m = Inr m' \<Longrightarrow> am_virt_qubits m' = am_virt_qubits m"
  shows "qv n' = qv n"
proof -
  from assms(1) obtain m m' where m: "get_obj a n = Inr m" "f m = Inr m'" "n' = put_obj a m' n"
    by (auto simp: on_obj_def result_simps)
  have "vdict n a = Some (am_virt_qubits m')"
    using mem_at_vdict assms(2) [OF m(2)] m(1) by (simp add: get_obj_mem_at)
  then show ?thesis by (simp add: qv_def m(3) fun_upd_idem)
qed

lemma mem_at_frame [simp]:
  "mem_at (signal_memory_freed n) = mem_at n"
  "mem_at (log_device e n) = mem_at n"
  "mem_at (send_netstack_msg msg n) = mem_at n"
  "mem_at (send_processor_msg t n) = mem_at n"
  "mem_at (n\<lparr>physical_memory := pm\<rparr>) = mem_at n"
  "mem_at (n\<lparr>proc_pc_of := pp\<rparr>) = mem_at n"
  "mem_at (n\<lparr>nstk_pc_of := np\<rparr>) = mem_at n"
  "mem_at (n\<lparr>nstk_to_proc := ms\<rparr>) = mem_at n"
  "mem_at (n\<lparr>proc_to_nstk := ns\<rparr>) = mem_at n"
  "mem_at (n\<lparr>hand_to_proc := ss\<rparr>) = mem_at n"
  "mem_at (n\<lparr>proc_to_hand := ms\<rparr>) = mem_at n"
  "mem_at (n\<lparr>peer_out := po\<rparr>) = mem_at n"
  "mem_at (n\<lparr>peer_listeners := pl\<rparr>) = mem_at n"
  "mem_at (n\<lparr>peer_ports := ps\<rparr>) = mem_at n"
  "mem_at (n\<lparr>egp_log := el\<rparr>) = mem_at n"
  "mem_at (n\<lparr>egps := eg\<rparr>) = mem_at n"
  "mem_at (n\<lparr>epr_sockets := es\<rparr>) = mem_at n"
  "mem_at (n\<lparr>memory_freed := b\<rparr>) = mem_at n"
  "mem_at (n\<lparr>host_to_hand := ms\<rparr>) = mem_at n"
  "mem_at (n\<lparr>hand_to_host := hs\<rparr>) = mem_at n"
  "mem_at (n\<lparr>hand_pc_of := hp\<rparr>) = mem_at n"
  "mem_at (n\<lparr>applications := ap\<rparr>) = mem_at n"
  "mem_at (n\<lparr>should_clear_memory := b\<rparr>) = mem_at n"
  by (simp_all add: mem_at_def fun_eq_iff signal_memory_freed_def log_device_def
      send_netstack_msg_def send_processor_msg_def)

lemma vmap_cong: "mem_at n' = mem_at n \<Longrightarrow> vmap n' = vmap n"
  and vdict_cong: "mem_at n' = mem_at n \<Longrightarrow> vdict n' = vdict n"
  by (rule ext, rule ext, simp only: vmap_def) (rule ext, simp only: vdict_def)

lemma qv_cong:
  assumes "mem_at n' = mem_at n" "dict_keys (app_memories n') = dict_keys (app_memories n)"
    "physical_memory n' = physical_memory n"
    "reserved (nstk_pc_of n') = reserved (nstk_pc_of n)" "hardware_of n' = hardware_of n"
  shows "qv n' = qv n"
  using assms vdict_cong [OF assms(1)] by (simp add: qv_def)

lemma own_qv:
  assumes "qv n' = qv n" and "quiet_pc (proc_pc_of n')" and "quiet_pc (proc_pc_of n)"
  shows "own n' = own n"
  using qv_eqD [OF assms(1)] claims_of_quiet [OF assms(2,3)] by (simp add: own_def)

end
