(* ===== verification/ProcInv.thy ===== *)
theory ProcInv
  imports Ownership
begin

text \<open>
  The processor keeps the ownership discipline: what each instruction, each resumption after
  a device program and each iteration of the main loop does to the claims on physical
  qubits (\<open>Ownership\<close>).
\<close>

section \<open>Structural invariants\<close>

definition mem_struct :: "('rg, 'ar) node \<Rightarrow> bool" where
  "mem_struct n \<longleftrightarrow> phys_ok (physical_memory n)
     \<and> (hardware_of n = NVHardware \<longrightarrow> comm_qubit_ids (physical_memory n) = {0})
     \<and> dict_ok (app_memories n) \<and> (\<forall>a d. vdict n a = Some d \<longrightarrow> dict_ok d)"

fun pc_ok :: "proc_pc \<Rightarrow> bool" where
  "pc_ok (ProcDevice s (KMoveElectron v q new c)) = (q \<noteq> Some 0)"
| "pc_ok _ = True"

lemma quiet_pc_ok [simp]: "quiet_pc pc \<Longrightarrow> pc_ok pc"
  by (cases pc rule: quiet_pc.cases) simp_all

lemma mem_struct_qv: "qv n' = qv n \<Longrightarrow> mem_struct n \<Longrightarrow> mem_struct n'"
  by (simp add: mem_struct_def qv_eqD [of n' n])

lemma mem_structD:
  assumes "mem_struct n"
  shows "phys_ok (physical_memory n)"
    and "hardware_of n = NVHardware \<Longrightarrow> comm_qubit_ids (physical_memory n) = {0}"
    and "mem_at n a = Some m \<Longrightarrow> dict_ok (am_virt_qubits m)"
    and "dict_ok (app_memories n)"
  using assms by (auto simp: mem_struct_def vdict_def)

section \<open>What an instruction leaves\<close>

fun outcome_pc :: "subroutine \<Rightarrow> proc_outcome \<Rightarrow> proc_pc" where
  "outcome_pc s Finished = ProcExec s"
| "outcome_pc s (Suspended pc) = pc"

definition own_at :: "('rg, 'ar) node \<Rightarrow> proc_pc \<Rightarrow> claims \<times> int set" where
  "own_at n pc = (claims_of (vmap n) (reserved (nstk_pc_of n)) pc, used (physical_memory n))"

lemma own_own_at: "own n = own_at n (proc_pc_of n)"
  by (simp add: own_def own_at_def)

lemma own_at_qv: "qv n' = qv n \<Longrightarrow> own_at n' pc = own_at n pc"
  by (simp add: own_at_def qv_eqD [of n' n])

lemma own_at_quiet: "quiet_pc pc \<Longrightarrow> quiet_pc pc' \<Longrightarrow> own_at n pc = own_at n pc'"
  by (simp add: own_at_def claims_of_quiet [of pc pc'])

definition proc_post :: "subroutine \<Rightarrow> ('rg, 'ar) node \<Rightarrow> proc_outcome \<Rightarrow> ('rg, 'ar) node \<Rightarrow> bool" where
  "proc_post s n out n' \<longleftrightarrow> mem_struct n' \<and> pc_ok (outcome_pc s out)
     \<and> owner_steps (own n) (own_at n' (outcome_pc s out))"

lemma proc_post_quiet:
  assumes "qv n' = qv n" and "quiet_pc (proc_pc_of n)" and "quiet_pc (outcome_pc s out)"
    and "mem_struct n"
  shows "proc_post s n out n'"
proof -
  have "own_at n' (outcome_pc s out) = own n"
    by (metis own_own_at own_at_qv own_at_quiet assms(1-3))
  then show ?thesis using assms by (simp add: proc_post_def mem_struct_qv)
qed

section \<open>Instructions that leave the qubits alone\<close>

named_theorems qv_keeps

lemma qv_frame [simp]:
  "qv (log_device e n) = qv n"
  "qv (signal_memory_freed n) = qv n"
  "qv (send_netstack_msg msg n) = qv n"
  "qv (n\<lparr>nstk_to_proc := ms\<rparr>) = qv n"
  "qv (n\<lparr>hand_to_proc := ss\<rparr>) = qv n"
  "qv (n\<lparr>proc_to_hand := ms\<rparr>) = qv n"
  "qv (n\<lparr>proc_pc_of := pc\<rparr>) = qv n"
  "qv (n\<lparr>hand_pc_of := hp\<rparr>) = qv n"
  "qv (n\<lparr>applications := ap\<rparr>) = qv n"
  "qv (n\<lparr>hand_to_host := hs\<rparr>) = qv n"
  "qv (n\<lparr>host_to_hand := ms\<rparr>) = qv n"
  "qv (n\<lparr>epr_sockets := es\<rparr>) = qv n"
  "qv (n\<lparr>should_clear_memory := b\<rparr>) = qv n"
  "qv (n\<lparr>egps := eg\<rparr>) = qv n"
  "qv (n\<lparr>peer_ports := ps\<rparr>) = qv n"
  "qv (n\<lparr>peer_listeners := pl\<rparr>) = qv n"
  by (rule qv_cong; simp add: send_netstack_msg_def)+

lemma classical_instr_qv [qv_keeps]:
  "interpret_set P a r imm n = Inr n' \<Longrightarrow> qv n' = qv n"
  "interpret_store P a r e n = Inr n' \<Longrightarrow> qv n' = qv n"
  "interpret_load P a r e n = Inr n' \<Longrightarrow> qv n' = qv n"
  "interpret_lea P a r addr n = Inr n' \<Longrightarrow> qv n' = qv n"
  "interpret_undef P a e n = Inr n' \<Longrightarrow> qv n' = qv n"
  "interpret_array P a r addr n = Inr n' \<Longrightarrow> qv n' = qv n"
  "interpret_binary_classical_instr P a oper ro r0 r1 rm n = Inr n' \<Longrightarrow> qv n' = qv n"
  unfolding interpret_set_def interpret_store_def interpret_load_def interpret_lea_def
    interpret_undef_def interpret_array_def interpret_binary_classical_instr_def
  by (erule on_mem_qv; auto simp: result_simps dest: set_reg_frame set_array_entry_frame
      init_new_array_frame split: option.splits)+

lemma take_branch_virt [simp]: "am_virt_qubits (take_branch c line m) = am_virt_qubits m"
  by (simp add: take_branch_def)

lemma branch_instr_qv [qv_keeps]:
  "interpret_branch_instr P a i n = Inr n' \<Longrightarrow> qv n' = qv n"
  by (cases "(P, a, i, n)" rule: interpret_branch_instr.cases)
    (auto elim!: on_mem_qv simp: result_simps)

lemma epr_instr_qv [qv_keeps]:
  "interpret_create_epr P a rem sck q args res n = Inr n' \<Longrightarrow> qv n' = qv n"
  "interpret_recv_epr P a rem sck q res n = Inr n' \<Longrightarrow> qv n' = qv n"
  by (auto simp: interpret_create_epr_def interpret_recv_epr_def result_simps)

text \<open>The instructions that suspend only with a quiet program point.\<close>

definition quiet_result :: "subroutine \<Rightarrow> ('rg, 'ar) node \<Rightarrow> proc_outcome \<times> ('rg, 'ar) node \<Rightarrow> bool" where
  "quiet_result s n r \<longleftrightarrow> qv (snd r) = qv n \<and> quiet_pc (outcome_pc s (fst r))"

lemma wait_all_quiet [qv_keeps]:
  "wait_all_check P s addr i j n = Inr r \<Longrightarrow> quiet_result s n r"
  by (auto simp: wait_all_check_def quiet_result_def result_simps split: if_splits)

lemma interpret_wait_all_quiet [qv_keeps]:
  "interpret_wait_all P s sl n = Inr r \<Longrightarrow> quiet_result s n r"
  by (cases "(P, s, sl, n)" rule: interpret_wait_all.cases)
    (auto simp: result_simps dest: wait_all_quiet)

lemma breakpoint_quiet [qv_keeps]:
  "interpret_breakpoint s action role n = Inr r \<Longrightarrow> quiet_result s n r"
  "resume_breakpoint s role stage msg n = Inr r \<Longrightarrow> quiet_result s n r"
  by (auto simp: interpret_breakpoint_def resume_breakpoint_def quiet_result_def result_simps Let_def
      split: if_splits break_stage.splits)

lemma run_program_quiet:
  "run_program s prog KNext n = Inr r \<Longrightarrow> quiet_result s n r"
  "run_program s prog (KMeas creg) n = Inr r \<Longrightarrow> quiet_result s n r"
  by (auto simp: run_program_def quiet_result_def)

lemma rotation_quiet [qv_keeps]:
  "do_single_rotation P s r num denom ns n = Inr x \<Longrightarrow> quiet_result s n x"
  "do_controlled_rotation P s r0 r1 num denom ns n = Inr x \<Longrightarrow> quiet_result s n x"
  by (auto simp: do_single_rotation_def do_controlled_rotation_def result_simps dest: run_program_quiet)

lemma generic_quiet [qv_keeps]:
  "generic_interpret_init P s r n = Inr x \<Longrightarrow> quiet_result s n x"
  "generic_interpret_meas P s r c n = Inr x \<Longrightarrow> quiet_result s n x"
  "generic_interpret_single_qubit_instr P s g r n = Inr x \<Longrightarrow> quiet_result s n x"
  "generic_interpret_two_qubit_instr P s tg r0 r1 n = Inr x \<Longrightarrow> quiet_result s n x"
  "generic_interpret_single_rotation_instr P s gr r num denom n = Inr x \<Longrightarrow> quiet_result s n x"
  "nv_interpret_init P s r n = Inr x \<Longrightarrow> quiet_result s n x"
  by (auto simp: generic_interpret_init_def generic_interpret_meas_def nv_interpret_init_def
      generic_interpret_single_qubit_instr_def generic_interpret_two_qubit_instr_def result_simps
      dest: run_program_quiet) (cases gr; auto dest: rotation_quiet)

lemma nv_rotation_quiet [qv_keeps]:
  "nv_interpret_single_rotation_instr P s gr r num denom n = Inr x \<Longrightarrow> quiet_result s n x"
  "nv_interpret_controlled_rotation_instr P s cg r0 r1 num denom n = Inr x \<Longrightarrow> quiet_result s n x"
  by (cases gr; auto dest: rotation_quiet)
    (cases "(P, s, cg, r0, r1, num, denom, n)" rule: nv_interpret_controlled_rotation_instr.cases;
      auto dest: rotation_quiet)

lemma no_yield_quiet:
  assumes "no_yield r = Inr x" and "\<And>n'. r = Inr n' \<Longrightarrow> qv n' = qv n"
  shows "quiet_result s n x"
  using assms by (auto simp: no_yield_def quiet_result_def result_simps)

text \<open>The instructions that touch the ownership of qubits.\<close>

fun owns_instr :: "hardware \<Rightarrow> instr \<Rightarrow> bool" where
  "owns_instr hw (QAlloc r) = True"
| "owns_instr hw (QFree r) = True"
| "owns_instr hw (Meas q c) = (hw = NVHardware)"
| "owns_instr hw _ = False"

lemma quiet_instruction:
  assumes "interpret_instruction P s i n = Inr r" and "\<not> owns_instr (hardware_of n) i"
  shows "quiet_result s n r"
  using assms
  by (cases i)
    (auto split: hardware.splits elim!: no_yield_quiet dest: qv_keeps
      simp: quiet_result_def [of s n "(Finished, n)"] nv_interpret_gate_def
        generic_interpret_controlled_rotation_instr_def)

section \<open>Allocation and release on a node\<close>

context qubit_pool
begin

lemma on_phys_alloc:
  assumes "mem_struct n" and "on_phys alloc n = Inr (p, n')"
  shows "p \<in> avail (physical_memory n) \<and> p \<notin> used (physical_memory n)
     \<and> used (physical_memory n') = insert p (used (physical_memory n))
     \<and> n' = n\<lparr>physical_memory := physical_memory n'\<rparr> \<and> mem_struct n'"
proof -
  from assms(2) obtain pm where pm: "alloc (physical_memory n) = Inr (p, pm)"
      "n' = n\<lparr>physical_memory := pm\<rparr>"
    by (auto simp: on_phys_def result_simps)
  from alloc_ok [OF mem_structD(1) [OF assms(1)] pm(1)] assms(1) show ?thesis
    by (auto simp: pm(2) mem_struct_def vdict_def)
qed

lemma on_phys_alloc_err:
  assumes "mem_struct n"
  shows "on_phys alloc n = Inl e \<longleftrightarrow> e = AllocError \<and> avail (physical_memory n) \<subseteq> used (physical_memory n)"
  using alloc_err [OF mem_structD(1) [OF assms]] by (auto simp: on_phys_def result_simps)

end

lemma free_phys_Inr:
  assumes "mem_struct n" and "free_phys p n = Inr n'"
  shows "p \<in> used (physical_memory n) \<and> used (physical_memory n') = used (physical_memory n) - {p}
     \<and> n' = n\<lparr>physical_memory := physical_memory n'\<rparr> \<and> mem_struct n'"
proof -
  from assms(2) obtain pm where pm: "free p (physical_memory n) = Inr pm" "n' = n\<lparr>physical_memory := pm\<rparr>"
    by (auto simp: free_phys_def result_simps)
  from free_Inr [OF mem_structD(1) [OF assms(1)] pm(1)] assms(1) show ?thesis
    by (auto simp: pm(2) mem_struct_def vdict_def)
qed

lemma free_phys_returns:
  assumes "mem_struct n" and "p \<in> used (physical_memory n)"
  shows "\<exists>n'. free_phys p n = Inr n'"
  using assms free_used [OF mem_structD(1) [OF assms(1)], of p] by (simp add: free_phys_def)

text \<open>A change of one application memory that keeps its keys distinct.\<close>

lemma mem_struct_put:
  assumes "mem_struct n" and "dict_ok (am_virt_qubits m)"
  shows "mem_struct (put_mem a m n)" and "mem_struct (put_obj a m n)"
proof -
  have "dict_ok (app_memories (put_mem a m n))"
    using mem_structD(4) [OF assms(1)] by (simp add: put_mem_def)
  then show "mem_struct (put_mem a m n)" using assms by (auto simp: mem_struct_def)
  have "dict_ok (app_memories (put_obj a m n))"
    using mem_structD(4) [OF assms(1)] by simp
  then show "mem_struct (put_obj a m n)" using assms by (auto simp: mem_struct_def)
qed

lemma phys_update_views:
  assumes "n' = n\<lparr>physical_memory := physical_memory n'\<rparr>"
  shows "mem_at n' = mem_at n" "vmap n' = vmap n" "nstk_pc_of n' = nstk_pc_of n"
    "proc_pc_of n' = proc_pc_of n" "hand_pc_of n' = hand_pc_of n" "hardware_of n' = hardware_of n"
    "app_memories n' = app_memories n" "dropped_memories n' = dropped_memories n"
    "get_mem a n' = get_mem a n"
proof -
  show "mem_at n' = mem_at n" by (subst assms) simp
  then show "vmap n' = vmap n" by (rule vmap_cong)
qed (subst assms, simp)+

lemma own_at_map:
  assumes "quiet_pc pc" and "mem_at n a = Some m" and "mapping m' = (mapping m)(v := x)"
    and "mem_at n' = (mem_at n)(a \<mapsto> m')" and "reserved (nstk_pc_of n') = reserved (nstk_pc_of n)"
  shows "own_at n' pc = ((fst (own_at n pc))(HMapped a v := x), used (physical_memory n'))"
proof -
  have "vmap n' = (vmap n)(a := (vmap n a)(v := x))"
    using assms(2,3) by (auto simp: vmap_def assms(4) fun_eq_iff)
  then show ?thesis by (simp add: own_at_def assms(1,5) claims_of_map)
qed

section \<open>\<open>qalloc\<close> and \<open>qfree\<close>\<close>

lemma alloc_map_post:
  assumes "mem_struct n" and "quiet_pc (proc_pc_of n)" and "get_mem a n = Inr m"
    and "p \<notin> used (physical_memory n)"
    and n1: "used (physical_memory n1) = insert p (used (physical_memory n))"
      "n1 = n\<lparr>physical_memory := physical_memory n1\<rparr>" "mem_struct n1"
  shows "proc_post s n Finished (put_mem a (map_virt_id v p m) n1)"
proof -
  note m = get_mem_mem_at [OF assms(3)]
  have "own_at (put_mem a (map_virt_id v p m) n1) (ProcExec s)
      = ((fst (own n))(HMapped a v \<mapsto> p), insert p (snd (own n)))"
  proof -
    have "own_at (put_mem a (map_virt_id v p m) n1) (ProcExec s)
        = ((fst (own_at n (ProcExec s)))(HMapped a v \<mapsto> p), used (physical_memory n1))"
      using own_at_map [of "ProcExec s" n a m "map_virt_id v p m" v "Some p"] m
        phys_update_views [OF n1(2)] by simp
    moreover have "own_at n (ProcExec s) = own n"
      by (simp add: own_own_at own_at_quiet [OF _ assms(2)])
    ultimately show ?thesis by (simp add: n1(1)) (simp add: own_def)
  qed
  moreover have "dict_ok (am_virt_qubits (map_virt_id v p m))"
    using mem_structD(3) [OF assms(1) m] by simp
  ultimately show ?thesis
    using mem_struct_put(1) [OF n1(3)] assms(4) owner_steps_take [of p "snd (own n)" "fst (own n)" "HMapped a v"]
    by (simp add: proc_post_def) (simp add: own_def)
qed

lemma interpret_qalloc_post:
  assumes "mem_struct n" and "quiet_pc (proc_pc_of n)" and "interpret_qalloc P (sub_app_id s) r n = Inr n'"
  shows "proc_post s n Finished n'"
proof -
  from assms(3) obtain m v p n1 where x: "get_mem (sub_app_id s) n = Inr m"
      "on_phys allocate n = Inr (p, n1)"
      "n' = put_mem (sub_app_id s) (map_virt_id (Some v) p m) n1"
    by (auto simp: interpret_qalloc_def result_simps)
  from any_pool.on_phys_alloc [OF assms(1) x(2)] show ?thesis
    unfolding x(3) by (intro alloc_map_post [OF assms(1,2) x(1)]) auto
qed

lemma nv_interpret_qalloc_post:
  assumes "mem_struct n" and "quiet_pc (proc_pc_of n)" and "nv_interpret_qalloc P (sub_app_id s) r n = Inr n'"
  shows "proc_post s n Finished n'"
proof -
  from assms(3) obtain m v p n1 where x: "get_mem (sub_app_id s) n = Inr m"
      "on_phys (if v > 0 then allocate_mem else allocate_comm) n = Inr (p, n1)"
      "n' = put_mem (sub_app_id s) (map_virt_id (Some v) p m) n1"
    by (auto simp: nv_interpret_qalloc_def result_simps)
  have "p \<notin> used (physical_memory n) \<and> used (physical_memory n1) = insert p (used (physical_memory n))
     \<and> n1 = n\<lparr>physical_memory := physical_memory n1\<rparr> \<and> mem_struct n1"
    using x(2) mem_pool.on_phys_alloc [OF assms(1)] comm_pool.on_phys_alloc [OF assms(1)]
    by (simp split: if_splits)
  then show ?thesis unfolding x(3) by (intro alloc_map_post [OF assms(1,2) x(1)]) auto
qed

lemma interpret_qfree_post:
  assumes "mem_struct n" and "quiet_pc (proc_pc_of n)" and "interpret_qfree P (sub_app_id s) r n = Inr n'"
  shows "proc_post s n Finished n'"
proof -
  let ?a = "sub_app_id s"
  from assms(3) obtain m v p n1 where x: "get_mem ?a n = Inr m" "phys_id_for (Some v) m = Inr (Some p)"
      "free_phys p (put_mem ?a (unmap_virt_id (Some v) m) n) = Inr n1"
      "n' = log_device (SetInUse p False) (signal_memory_freed n1)"
    by (auto simp: interpret_qfree_def result_simps)
  note m = get_mem_mem_at [OF x(1)]
  let ?n0 = "put_mem ?a (unmap_virt_id (Some v) m) n"
  have s0: "mem_struct ?n0" using mem_structD(3) [OF assms(1) m] by (intro mem_struct_put(1) [OF assms(1)]) simp
  note f = free_phys_Inr [OF s0 x(3)]
  have q: "qv n' = qv n1" by (simp add: x(4))
  have "own_at n1 (ProcExec s) = ((fst (own_at n (ProcExec s)))(HMapped ?a (Some v) := None), used (physical_memory n1))"
    using phys_update_views [of n1 ?n0] f
    by (intro own_at_map [OF _ m, where m' = "unmap_virt_id (Some v) m"]) simp_all
  moreover have "own_at n (ProcExec s) = own n" by (simp add: own_own_at own_at_quiet [OF _ assms(2)])
  moreover have "fst (own n) (HMapped ?a (Some v)) = Some p"
    using x(2) mem_at_vmap [OF m] by (simp add: own_def phys_id_for_mapping)
  moreover have "used (physical_memory n1) = snd (own n) - {p}" using f by (simp add: own_def)
  ultimately have "owner_steps (own n) (own_at n1 (ProcExec s))"
    using owner_steps_release [of "fst (own n)" "HMapped ?a (Some v)" p "snd (own n)"] by simp
  then show ?thesis using f mem_struct_qv [OF q] by (simp add: proc_post_def own_at_qv [OF q])
qed

end
