(* ===== verification/NVInv.thy ===== *)
theory NVInv
  imports ProcInv
begin

text \<open>
  The NV measurement keeps the ownership discipline: each of its three parts is a sequence
  of ownership moves.
\<close>

section \<open>Finding who holds a position\<close>

lemma search_virt_qubit_sound:
  assumes "search_virt_qubit p d = Inr (a, v)" and "\<And>b m. (b, m) \<in> set d \<Longrightarrow> dict_ok (am_virt_qubits m)"
  shows "\<exists>m. (a, m) \<in> set d \<and> mapping m (Some v) = Some p"
  using assms
proof (induction d)
  case Nil
  then show ?case by simp
next
  case (Cons x d)
  obtain b m where x: "x = (b, m)" by (cases x)
  show ?case
  proof (cases "virt_id_for p m")
    case None
    then show ?thesis using Cons x by auto
  next
    case (Some w)
    then have "a = b" "v = w" using Cons.prems(1) x by auto
    moreover have "mapping m (Some w) = Some p"
      using Cons.prems(2) [of b m] x by (intro virt_id_for_sound [OF _ Some]) simp
    ultimately show ?thesis using x by auto
  qed
qed

lemma get_virt_qubit_sound:
  assumes "mem_struct n" and "get_virt_qubit_for_phys_id p n = Inr (a, v)"
  shows "\<exists>m. get_mem a n = Inr m \<and> mapping m (Some v) = Some p"
proof -
  have in_live: "map_of (app_memories n) b = Some m" if "(b, m) \<in> set (app_memories n)" for b m
    using that mem_structD(4) [OF assms(1)] by simp
  have "\<exists>m. (a, m) \<in> set (app_memories n) \<and> mapping m (Some v) = Some p"
  proof (rule search_virt_qubit_sound)
    show "search_virt_qubit p (app_memories n) = Inr (a, v)"
      using assms(2) by (simp add: get_virt_qubit_for_phys_id_def)
    fix b m assume "(b, m) \<in> set (app_memories n)"
    then have "mem_at n b = Some m" by (simp add: mem_at_def map_add_def in_live)
    then show "dict_ok (am_virt_qubits m)" by (rule mem_structD(3) [OF assms(1)])
  qed
  then show ?thesis using in_live by (auto simp: get_mem_def dict_get_def)
qed

text \<open>A position that a live application maps has an owner that is found.\<close>

lemma search_virt_qubit_complete:
  assumes "(b, m) \<in> set d" and "\<And>b m. (b, m) \<in> set d \<Longrightarrow> mapping_ok m" and "mapping m (Some v) = Some p"
  shows "\<exists>r. search_virt_qubit p d = Inr r"
  using assms
proof (induction d)
  case Nil
  then show ?case by simp
next
  case (Cons x d)
  obtain b' m' where x: "x = (b', m')" by (cases x)
  show ?case
  proof (cases "virt_id_for p m'")
    case None
    then have "(b, m) \<noteq> x"
      using Cons.prems(2) [of b m] Cons.prems(1,3) x virt_id_for_complete [of m v p] by auto
    then have "(b, m) \<in> set d" using Cons.prems(1) by simp
    then have "\<exists>r. search_virt_qubit p d = Inr r"
      by (rule Cons.IH) (use Cons.prems(2,3) in \<open>auto intro: Cons.prems(2)\<close>)
    with None show ?thesis by (simp add: x)
  qed (simp add: x)
qed

section \<open>The parts of the measurement\<close>

lemma mapping_remap [simp]: "mapping (remap v p m) = (mapping m)(v \<mapsto> p)"
  by (simp add: remap_def)

lemma remap_keys_ok [simp]: "dict_ok (am_virt_qubits m) \<Longrightarrow> dict_ok (am_virt_qubits (remap v p m))"
  by (simp add: remap_def)

lemma measure_electron_post:
  assumes "measure_electron s c n = Inr (out, n')"
  shows "qv n' = qv n \<and> quiet_pc (outcome_pc s out)"
  using assms by (auto simp: measure_electron_def run_program_def)

lemma nv_meas_electron_part:
  assumes "mem_struct n" and "quiet_pc (proc_pc_of n)" and q: "q \<noteq> Some 0" and "vmap n (sub_app_id s) v = q"
    and "on_phys allocate n = Inr (new, n1)"
    and "run_program s prog (KMoveElectron v q new c) n1 = Inr (out, n')"
  shows "proc_post s n out n'"
proof -
  note al = any_pool.on_phys_alloc [OF assms(1,5)]
  have out: "out = Suspended (ProcDevice s (KMoveElectron v q new c))" and n': "qv n' = qv n1"
    using assms(6) by (auto simp: run_program_def)
  have vm: "vmap n1 = vmap n" "nstk_pc_of n1 = nstk_pc_of n" using phys_update_views al by blast+
  have "own_at n1 (outcome_pc s out) = ((fst (own n))(HNew \<mapsto> new), insert new (snd (own n)))"
  proof -
    have "claims_of (vmap n) r (outcome_pc s out) h
        = ((claims_of (vmap n) r (proc_pc_of n))(HNew \<mapsto> new)) h" for r h
      using assms(2,4) by (cases h) (simp_all add: out)
    then show ?thesis using al by (simp add: own_at_def own_def vm fun_eq_iff)
  qed
  moreover have "new \<notin> snd (own n)" using al by (simp add: own_def)
  ultimately have "owner_steps (own n) (own_at n1 (outcome_pc s out))"
    using owner_steps_take [of new "snd (own n)" "fst (own n)" HNew] by simp
  then show ?thesis using al q mem_struct_qv [OF n'] by (simp add: proc_post_def own_at_qv [OF n'] out)
qed

text \<open>
  The claims while the measured carbon is moved: the virtual qubit holds the electron, the
  processor holds the carbon, if the virtual qubit was mapped at all.
\<close>

lemma carbon_claims:
  assumes "quiet_pc pc" and "V a v = q" and "a = sub_app_id s"
  shows "owner_steps (claims_of V r pc, U)
     (claims_of (V(a := (V a)(v := None))) r (ProcDevice s (KMoveCarbon v q c)), U)"
proof (cases q)
  case None
  have "claims_of (V(a := (V a)(v := None))) r (ProcDevice s (KMoveCarbon v q c)) = claims_of V r pc"
    (is "?l = ?r")
  proof
    fix h show "?l h = ?r h" using assms None by (cases h) auto
  qed
  then show ?thesis by simp
next
  case (Some p)
  have "claims_of (V(a := (V a)(v := None))) r (ProcDevice s (KMoveCarbon v q c))
      = (claims_of V r pc)(HMapped a v := None, HCarbon \<mapsto> p)" (is "?l = ?r")
  proof
    fix h show "?l h = ?r h" using assms Some by (cases h) auto
  qed
  moreover have "claims_of V r pc (HMapped a v) = Some p" using assms Some by simp
  ultimately show ?thesis using owner_steps_move by metis
qed

lemma nv_meas_free_electron_part:
  assumes "mem_struct n" and "hardware_of n = NVHardware" and "quiet_pc (proc_pc_of n)"
    and "vmap n (sub_app_id s) v = q" and "on_phys allocate_comm n = Inr (x, n1)"
    and "on_mem (sub_app_id s) (\<lambda>m. Inr (remap v 0 m)) n1 = Inr n2"
    and "run_program s prog (KMoveCarbon v q c) n2 = Inr (out, n')"
  shows "proc_post s n out n'"
proof -
  let ?a = "sub_app_id s"
  note al = comm_pool.on_phys_alloc [OF assms(1,5)]
  have x: "x = 0" using al mem_structD(2) [OF assms(1,2)] by (auto simp: comm_positions_def)
  have n1: "mem_at n1 = mem_at n" "vmap n1 = vmap n" "nstk_pc_of n1 = nstk_pc_of n"
    using phys_update_views al by blast+
  obtain m where m: "get_mem ?a n1 = Inr m" "n2 = put_mem ?a (remap v 0 m) n1"
    using assms(6) by (auto simp: on_mem_def result_simps)
  note ma = get_mem_mem_at [OF m(1)]
  have out: "out = Suspended (ProcDevice s (KMoveCarbon v q c))" and n': "qv n' = qv n2"
    using assms(7) by (auto simp: run_program_def)
  let ?pc = "ProcDevice s (KMoveCarbon v q c)" and ?V = "(vmap n)(?a := (vmap n ?a)(v := None))"
  let ?r = "reserved (nstk_pc_of n)" and ?U = "used (physical_memory n)"
  have "mapping m = vmap n ?a" using mem_at_vmap [OF ma] by (simp add: n1)
  then have "vmap n2 = (vmap n)(?a := (vmap n ?a)(v \<mapsto> 0))" by (simp add: m(2) n1)
  moreover have "claims_of ((vmap n)(?a := (vmap n ?a)(v \<mapsto> 0))) ?r ?pc
      = (claims_of ?V ?r ?pc)(HMapped ?a v \<mapsto> 0)" (is "?l = ?rr")
  proof
    fix h show "?l h = ?rr h" by (cases h) auto
  qed
  moreover have "used (physical_memory n2) = insert 0 ?U" using al by (simp add: m(2) x)
  moreover have "nstk_pc_of n2 = nstk_pc_of n" by (simp add: m(2) n1)
  ultimately have "own_at n2 ?pc = ((claims_of ?V ?r ?pc)(HMapped ?a v \<mapsto> 0), insert 0 ?U)"
    by (simp add: own_at_def)
  moreover have "owner_steps (claims_of ?V ?r ?pc, ?U) \<dots>"
    using al x by (intro owner_steps_take) simp
  ultimately have "owner_steps (own n) (own_at n2 ?pc)"
    using carbon_claims [OF assms(3), of "vmap n" ?a v q s ?r ?U c] assms(4)
    by (simp add: own_def)
  moreover have "mem_struct n2"
    using al mem_structD(3) [of n1 ?a m] ma unfolding m(2) by (intro mem_struct_put(1)) simp_all
  ultimately show ?thesis using mem_struct_qv [OF n'] by (simp add: proc_post_def own_at_qv [OF n'] out)
qed

lemma nv_interpret_meas_post:
  assumes "mem_struct n" and "hardware_of n = NVHardware" and "quiet_pc (proc_pc_of n)"
    and "nv_interpret_meas P s qreg creg n = Inr (out, n')"
  shows "proc_post s n out n'"
proof -
  let ?a = "sub_app_id s"
  obtain v q where vq: "qubit_of_reg P ?a qreg n = Inr (v, q)"
    using assms(4) by (auto simp: nv_interpret_meas_def result_simps)
  then obtain m where "get_mem ?a n = Inr m" "phys_id_for v m = Inr q"
    by (auto simp: qubit_of_reg_def result_simps)
  then have q: "vmap n ?a v = q"
    using mem_at_vmap [OF get_mem_mem_at [of ?a n m]]
    by (auto simp: phys_id_for_def mapping_def result_simps split: option.split)
  consider (electron) "q = Some 0" | (move) "q \<noteq> Some 0" "is_allocated 0 (physical_memory n)"
    | (free) "q \<noteq> Some 0" "\<not> is_allocated 0 (physical_memory n)" by blast
  then show ?thesis
  proof cases
    case electron
    then have "measure_electron s creg n = Inr (out, n')"
      using assms(4) vq by (simp add: nv_interpret_meas_def)
    from measure_electron_post [OF this] show ?thesis by (intro proc_post_quiet) (use assms in auto)
  next
    case move
    then obtain new n1 where "on_phys allocate n = Inr (new, n1)"
      "run_program s (electron_to_carbon_prog new) (KMoveElectron v q new creg) n1 = Inr (out, n')"
      using assms(4) vq by (auto simp: nv_interpret_meas_def split: sum.splits py_error.splits)
    then show ?thesis using nv_meas_electron_part [OF assms(1,3) move(1) q] by blast
  next
    case free
    then obtain x n1 n2 where "on_phys allocate_comm n = Inr (x, n1)"
      "on_mem ?a (\<lambda>m. Inr (remap v 0 m)) n1 = Inr n2"
      "run_program s (carbon_to_electron_prog q) (KMoveCarbon v q creg) n2 = Inr (out, n')"
      using assms(4) vq by (auto simp: nv_interpret_meas_def result_simps)
    then show ?thesis using nv_meas_free_electron_part [OF assms(1-3) q] by blast
  qed
qed

section \<open>After the device programs\<close>

lemma electron_moved_claims:
  assumes e: "V ea (Some ev) = Some 0" and q: "q \<noteq> Some 0"
    and V1: "V1 = V(ea := (V ea)(Some ev \<mapsto> new))" and V2: "V2 = V1(sub_app_id s := (V1 (sub_app_id s))(v \<mapsto> 0))"
  shows "owner_steps (claims_of V r (ProcDevice s (KMoveElectron v q new c)), U)
     (claims_of V2 r (ProcDevice s (KMoveCarbon v q c)), U)"
proof -
  let ?a = "sub_app_id s"
  let ?c = "claims_of V r (ProcDevice s (KMoveElectron v q new c))"
  let ?c' = "claims_of V2 r (ProcDevice s (KMoveCarbon v q c))"
  let ?e = "HMapped ea (Some ev)" and ?t = "HMapped ?a v"
  show ?thesis
  proof (cases "?e = ?t")
    case True
    have "?c' h = (?c(HNew := None)) h" for h
      using True e q by (cases h) (auto simp: V1 V2)
    then have "?c' \<subseteq>\<^sub>m ?c" by (auto simp: map_le_def)
    then show ?thesis by (rule owner_steps_forget)
  next
    case False
    let ?c1 = "?c(?t := None, HCarbon := q)"
    have 1: "owner_steps (?c, U) (?c1, U)"
    proof (cases "V ?a v = q")
      case True
      show ?thesis
      proof (cases q)
        case None
        then have "?c1 = ?c" using True by (auto simp: fun_eq_iff)
        then show ?thesis by simp
      next
        case (Some p)
        then have "?c ?t = Some p" using True by simp
        then show ?thesis using owner_steps_move [of ?c ?t p U HCarbon] Some by simp
      qed
    next
      case False
      then have "?c1 \<subseteq>\<^sub>m ?c" by (auto simp: map_le_def)
      then show ?thesis by (rule owner_steps_forget)
    qed
    let ?c2 = "?c1(?e := None, ?t \<mapsto> 0)"
    have "?c1 ?e = Some 0" using False e by auto
    then have 2: "owner_steps (?c1, U) (?c2, U)" by (rule owner_steps_move)
    have "?c2 HNew = Some new" by simp
    then have 3: "owner_steps (?c2, U) (?c2(HNew := None, ?e \<mapsto> new), U)" by (rule owner_steps_move)
    have "(?c2(HNew := None, ?e \<mapsto> new)) h = ?c' h" for h
      using False by (cases h) (auto simp: V1 V2)
    then have "?c2(HNew := None, ?e \<mapsto> new) = ?c'" by (rule ext)
    with 1 2 3 show ?thesis by simp
  qed
qed

lemma nv_meas_electron_moved_post:
  assumes "mem_struct n" and "pc_ok (proc_pc_of n)"
    and pc: "proc_pc_of n = ProcDevice s (KMoveElectron v q new c)"
    and "nv_meas_electron_moved s v q new c n = Inr (out, n')"
  shows "proc_post s n out n'"
proof -
  let ?a = "sub_app_id s"
  obtain ea ev n1 n2 where x: "get_virt_qubit_for_phys_id 0 n = Inr (ea, ev)"
    "on_mem ea (\<lambda>m. Inr (remap (Some ev) new m)) n = Inr n1"
    "on_obj ?a (\<lambda>m. Inr (remap v 0 m)) n1 = Inr n2"
    "out = Suspended (ProcDevice s (KMoveCarbon v q c))" "qv n' = qv n2"
    using assms(4) by (auto simp: nv_meas_electron_moved_def run_program_def result_simps)
  obtain m where m: "get_mem ea n = Inr m" "n1 = put_mem ea (remap (Some ev) new m) n"
    using x(2) by (auto simp: on_mem_def result_simps)
  obtain m' where m': "get_obj ?a n1 = Inr m'" "n2 = put_obj ?a (remap v 0 m') n1"
    using x(3) by (auto simp: on_obj_def result_simps)
  have ma: "mem_at n ea = Some m" "mem_at n1 ?a = Some m'"
    using m(1) m'(1) by (simp_all add: get_mem_mem_at get_obj_mem_at)
  have e: "vmap n ea (Some ev) = Some 0"
    using get_virt_qubit_sound [OF assms(1) x(1)] m(1) ma(1) by (simp add: vmap_def)
  have v1: "vmap n1 = (vmap n)(ea := (vmap n ea)(Some ev \<mapsto> new))"
    by (simp add: m(2) mem_at_vmap [OF ma(1)])
  have v2: "vmap n2 = (vmap n1)(?a := (vmap n1 ?a)(v \<mapsto> 0))"
    by (simp add: m'(2) mem_at_vmap [OF ma(2)])
  have "owner_steps (own n) (own_at n2 (outcome_pc s out))"
    using electron_moved_claims [OF e _ v1 v2, of q "reserved (nstk_pc_of n)" c "used (physical_memory n)"] assms(2)
    by (simp add: own_own_at own_at_def pc x(4)) (simp add: m(2) m'(2))
  moreover have "mem_struct n2"
  proof -
    have "mem_struct n1"
      unfolding m(2) using mem_structD(3) [OF assms(1) ma(1)] by (intro mem_struct_put(1) assms(1)) simp
    then show ?thesis
      unfolding m'(2) using mem_structD(3) [OF _ ma(2)] by (intro mem_struct_put(2)) simp_all
  qed
  ultimately show ?thesis
    using mem_struct_qv [OF x(5)] by (simp add: proc_post_def own_at_qv [OF x(5)] x(4))
qed

lemma nv_meas_carbon_moved_post:
  assumes "mem_struct n" and pc: "proc_pc_of n = ProcDevice s (KMoveCarbon v q c)"
    and "nv_meas_carbon_moved s q c n = Inr (out, n')"
  shows "proc_post s n out n'"
proof -
  obtain p n1 where x: "q = Some p" "free_phys p n = Inr n1"
    "measure_electron s c (log_device (SetInUse p False) (signal_memory_freed n1)) = Inr (out, n')"
    using assms(3) by (auto simp: nv_meas_carbon_moved_def result_simps)
  note f = free_phys_Inr [OF assms(1) x(2)]
  have n': "qv n' = qv n1" "quiet_pc (outcome_pc s out)" using measure_electron_post [OF x(3)] by simp_all
  have e: "n1 = n\<lparr>physical_memory := physical_memory n1\<rparr>" using f by (elim conjE)
  note v = phys_update_views(2,3) [OF e]
  have "claims_of (vmap n) r (outcome_pc s out) h
      = ((claims_of (vmap n) r (proc_pc_of n))(HCarbon := None)) h" for r h
    using n'(2) by (cases h) (simp_all add: pc)
  then have "own_at n1 (outcome_pc s out) = ((fst (own n))(HCarbon := None), snd (own n) - {p})"
    using f by (simp add: own_at_def own_def v fun_eq_iff)
  moreover have "fst (own n) HCarbon = Some p" by (simp add: own_def pc x(1))
  ultimately have "owner_steps (own n) (own_at n1 (outcome_pc s out))"
    using owner_steps_release [of "fst (own n)" HCarbon p "snd (own n)"] by simp
  then show ?thesis using f mem_struct_qv [OF n'(1)] n'(2) by (simp add: proc_post_def own_at_qv [OF n'(1)])
qed

section \<open>The processor's steps\<close>

lemma interpret_instruction_post:
  assumes "mem_struct n" and "quiet_pc (proc_pc_of n)" and "interpret_instruction P s i n = Inr (out, n')"
  shows "proc_post s n out n'"
proof (cases "owns_instr (hardware_of n) i")
  case False
  from quiet_instruction [OF assms(3) this] show ?thesis
    by (intro proc_post_quiet) (auto simp: quiet_result_def assms)
next
  case True
  have nv: "hardware_of n \<noteq> GenericHardware \<Longrightarrow> hardware_of n = NVHardware" by (cases "hardware_of n") simp_all
  from True assms(3) show ?thesis
    by (cases "(hardware_of n, i)" rule: owns_instr.cases)
      (auto simp: no_yield_def result_simps split: hardware.splits
        intro: interpret_qalloc_post nv_interpret_qalloc_post interpret_qfree_post nv_interpret_meas_post assms(1,2))
qed

lemma resume_device_post:
  assumes "mem_struct n" and "pc_ok (proc_pc_of n)" and pc: "proc_pc_of n = ProcDevice s k"
    and "resume_device P s k x n = Inr (out, n')"
  shows "proc_post s n out n'"
proof (cases k)
  case KNext
  then show ?thesis using assms by (intro proc_post_quiet) auto
next
  case (KMeas creg)
  then have "out = Finished" "on_obj (sub_app_id s) (set_reg_value (shm P) (ByReg creg) x) n = Inr n'"
    using assms(4) by (auto simp: no_yield_def result_simps)
  then show ?thesis using assms(1) pc KMeas
    by (intro proc_post_quiet) (auto elim!: on_obj_qv dest: set_reg_frame)
next
  case (KMoveElectron v q new c)
  then show ?thesis using assms by (intro nv_meas_electron_moved_post) auto
next
  case (KMoveCarbon v q c)
  then show ?thesis using assms by (intro nv_meas_carbon_moved_post) auto
qed

lemma after_instr_view:
  assumes "after_instr s (out, n) = Inr n'"
  shows "qv n' = qv n \<and> proc_pc_of n' = outcome_pc s out"
proof (cases out)
  case Finished
  then obtain n1 where n1: "on_obj (sub_app_id s) (\<lambda>m. Inr (increment_prog_counter m)) n = Inr n1"
      "n' = n1\<lparr>proc_pc_of := ProcExec s\<rparr>"
    using assms by (auto simp: result_simps)
  then have "qv n1 = qv n" by (elim on_obj_qv) auto
  then show ?thesis by (simp add: n1(2) Finished)
next
  case (Suspended pc)
  then show ?thesis using assms by auto
qed

text \<open>What a step of any protocol does: the discipline and the structural invariants.\<close>

definition keeps_owners :: "('rg, 'ar) node \<Rightarrow> ('rg, 'ar) node \<Rightarrow> bool" where
  "keeps_owners n n' \<longleftrightarrow> mem_struct n' \<and> pc_ok (proc_pc_of n') \<and> owner_steps (own n) (own n')"

lemma keeps_owners_quiet:
  assumes "qv n' = qv n" and "quiet_pc (proc_pc_of n)" and "quiet_pc (proc_pc_of n')" and "mem_struct n"
  shows "keeps_owners n n'"
  using assms own_qv [of n' n] mem_struct_qv [of n' n] by (simp add: keeps_owners_def)

lemma keeps_owners_same_pc:
  assumes "qv n' = qv n" and "proc_pc_of n' = proc_pc_of n" and "mem_struct n" and "pc_ok (proc_pc_of n)"
  shows "keeps_owners n n'"
  using assms own_at_qv [of n' n "proc_pc_of n"] mem_struct_qv [of n' n]
  by (simp add: keeps_owners_def own_own_at)

lemma proc_post_after:
  assumes "proc_post s n out n1" and "after_instr s (out, n1) = Inr n'"
  shows "keeps_owners n n'"
proof -
  have v: "qv n' = qv n1" "proc_pc_of n' = outcome_pc s out" using after_instr_view [OF assms(2)] by auto
  then show ?thesis using assms(1) mem_struct_qv [OF v(1)]
    by (simp add: proc_post_def keeps_owners_def own_own_at own_at_qv [OF v(1)])
qed

lemma execute_step_keeps:
  assumes "mem_struct n" and "proc_pc_of n = ProcExec s" and "execute_subroutine_step P s n = Inr n'"
  shows "keeps_owners n n'"
proof -
  have q: "quiet_pc (proc_pc_of n)" by (simp add: assms(2))
  from assms(3) consider
      (fin) "n' = n\<lparr>proc_to_hand := proc_to_hand n @ [''subroutine done''], proc_pc_of := ProcIdle\<rparr>"
    | (branch) i n1 where "interpret_branch_instr P (sub_app_id s) i n = Inr n1" "n' = n1\<lparr>proc_pc_of := ProcExec s\<rparr>"
    | (instr) i out n1 where "interpret_instruction P s i n = Inr (out, n1)" "after_instr s (out, n1) = Inr n'"
    by (fastforce simp: execute_subroutine_step_def result_simps split: if_splits)
  then show ?thesis
  proof cases
    case fin
    then show ?thesis using q assms(1) by (intro keeps_owners_quiet) simp_all
  next
    case branch
    then show ?thesis using q assms(1) branch_instr_qv [OF branch(1)] by (intro keeps_owners_quiet) simp_all
  next
    case instr
    then show ?thesis using interpret_instruction_post [OF assms(1) q] proc_post_after by blast
  qed
qed

lemma execute_start_keeps:
  assumes "mem_struct n" and "proc_pc_of n = ProcIdle" and "execute_subroutine_start s n = Inr n'"
  shows "keeps_owners n n'"
proof -
  obtain n1 where n1: "on_mem (sub_app_id s) (\<lambda>m. Inr (set_prog_counter 0 m)) n = Inr n1"
      "n' = n1\<lparr>proc_pc_of := ProcExec s\<rparr>"
    using assms(3) by (auto simp: execute_subroutine_start_def result_simps)
  have "qv n1 = qv n" using n1(1) by (elim on_mem_qv) auto
  then show ?thesis using assms n1(2) by (intro keeps_owners_quiet) simp_all
qed

lemma quiet_result_keeps:
  assumes "mem_struct n" and "quiet_pc (proc_pc_of n)" and "quiet_result s n1 r" and "qv n1 = qv n"
    and "after_instr s r = Inr n'"
  shows "keeps_owners n n'"
proof -
  obtain out n2 where r: "r = (out, n2)" by (cases r)
  have "qv n' = qv n" "quiet_pc (proc_pc_of n')"
    using after_instr_view [of s out n2 n'] assms(3-5) by (simp_all add: r quiet_result_def)
  then show ?thesis using assms(1,2) by (intro keeps_owners_quiet)
qed

lemma processor_step_keeps:
  assumes "mem_struct n" and "pc_ok (proc_pc_of n)" and "processor_step P e n = Some (Inr n')"
  shows "keeps_owners n n'"
proof (cases e)
  case [simp]: ProcGo
  show ?thesis
  proof (cases "proc_pc_of n")
    case [simp]: ProcIdle
    obtain s rest where h: "hand_to_proc n = s # rest"
        "execute_subroutine_start s (n\<lparr>hand_to_proc := rest\<rparr>) = Inr n'"
      using assms(3) by (auto split: list.splits)
    have "keeps_owners (n\<lparr>hand_to_proc := rest\<rparr>) n'"
      using mem_struct_qv [of "n\<lparr>hand_to_proc := rest\<rparr>" n] assms(1)
      by (intro execute_start_keeps [OF _ _ h(2)]) simp_all
    then show ?thesis by (simp add: keeps_owners_def own_qv [of "n\<lparr>hand_to_proc := rest\<rparr>" n])
  next
    case (ProcExec s)
    then show ?thesis using assms execute_step_keeps by simp
  next
    case (ProcDevice s k)
    then show ?thesis using assms(3) by simp
  next
    case (ProcWaitAll s addr i j)
    then show ?thesis using assms
      by (auto simp: result_simps split: list.splits
          dest!: wait_all_quiet intro: quiet_result_keeps)
  next
    case (ProcBreak s role stage)
    then show ?thesis using assms
      by (auto simp: result_simps split: list.splits
          dest!: breakpoint_quiet(2) intro: quiet_result_keeps)
  qed
next
  case [simp]: (ProcDeviceDone x)
  obtain s k r where "proc_pc_of n = ProcDevice s k" "resume_device P s k x n = Inr r" "after_instr s r = Inr n'"
    using assms(3) by (auto simp: result_simps split: proc_pc.splits)
  then show ?thesis
    using resume_device_post [OF assms(1,2)] proc_post_after by (cases r) blast
qed

end
