(* ===== verification/NetInv.thy ===== *)
theory NetInv
  imports NVInv
begin

text \<open>
  The network stack keeps the ownership discipline: it takes a communication qubit for each
  pair, hands it to the application's virtual qubit when the pair is delivered, and releases
  it after a measure-directly result.
\<close>

section \<open>Writing responses leaves the mapping alone\<close>

lemma write_response_virt:
  assumes "write_response L addr len pair val m = Inr m'"
  shows "am_virt_qubits m' = am_virt_qubits m"
  using assms unfolding write_response_def
  by (rule forE_invariant) (auto dest: set_array_frame)

lemma md_deliver_virt:
  assumes "md_deliver P addr number results m = Inr m'"
  shows "am_virt_qubits m' = am_virt_qubits m"
  using assms unfolding md_deliver_def
  by (rule forE_invariant) (auto simp: result_simps dest: write_response_virt)

lemma ck_deliver_virt:
  assumes "ck_deliver P q addr pair p dur bell m = Inr m'"
  shows "\<exists>v. am_virt_qubits m' = am_virt_qubits (map_virt_id v p m)"
  using assms by (auto simp: ck_deliver_def result_simps dest: write_response_virt)

lemma mapping_cong: "am_virt_qubits m' = am_virt_qubits m \<Longrightarrow> mapping m' = mapping m"
  by (simp add: mapping_def fun_eq_iff)

section \<open>The claims, with another reservation than the program point's\<close>

definition own_net :: "('rg, 'ar) node \<Rightarrow> int option \<Rightarrow> claims \<times> int set" where
  "own_net n r = (claims_of (vmap n) r (proc_pc_of n), used (physical_memory n))"

lemma own_own_net: "own n = own_net n (reserved (nstk_pc_of n))"
  by (simp add: own_def own_net_def)

lemma own_net_cong:
  assumes "mem_at n' = mem_at n" "physical_memory n' = physical_memory n" "proc_pc_of n' = proc_pc_of n"
  shows "own_net n' r = own_net n r"
  using assms vmap_cong [OF assms(1)] by (simp add: own_net_def)

text \<open>From here on the network stack goes on with nothing reserved.\<close>

definition net_post :: "('rg, 'ar) node \<Rightarrow> ('rg, 'ar) node \<Rightarrow> bool" where
  "net_post n n' \<longleftrightarrow> mem_struct n' \<and> proc_pc_of n' = proc_pc_of n
     \<and> owner_steps (own_net n None) (own n')"

lemma net_post_keeps:
  assumes "net_post n n'" and "reserved (nstk_pc_of n) = None" and "pc_ok (proc_pc_of n)"
  shows "keeps_owners n n'"
  using assms by (simp add: net_post_def keeps_owners_def own_own_net [of n])

lemma mem_struct_cong:
  assumes "mem_at n' = mem_at n" "app_memories n' = app_memories n" "physical_memory n' = physical_memory n"
    "hardware_of n' = hardware_of n"
  shows "mem_struct n' = mem_struct n"
  using assms vdict_cong [OF assms(1)] by (simp add: mem_struct_def)

lemma net_post_same:
  assumes "mem_struct n" and "mem_at n' = mem_at n" "app_memories n' = app_memories n"
    "physical_memory n' = physical_memory n" "hardware_of n' = hardware_of n"
    "proc_pc_of n' = proc_pc_of n" "reserved (nstk_pc_of n') = None"
  shows "net_post n n'"
  using assms own_net_cong [OF assms(2,4,6), of None] mem_struct_cong [OF assms(2-5)]
  by (simp add: net_post_def own_own_net)

lemma net_post_before:
  assumes "net_post n1 n'" and "mem_at n1 = mem_at n" "physical_memory n1 = physical_memory n"
    "proc_pc_of n1 = proc_pc_of n"
  shows "net_post n n'"
  using assms own_net_cong [OF assms(2-4), of None] by (simp add: net_post_def)

text \<open>Reserving a communication qubit.\<close>

lemma net_post_reserve:
  assumes "mem_struct n" and "on_phys allocate_comm n = Inr (p, n1)"
    and "mem_at n' = mem_at n1" "app_memories n' = app_memories n1"
      "physical_memory n' = physical_memory n1" "hardware_of n' = hardware_of n1"
      "proc_pc_of n' = proc_pc_of n1" "reserved (nstk_pc_of n') = Some p"
  shows "net_post n n'"
proof -
  note al = comm_pool.on_phys_alloc [OF assms(1,2)]
  have e: "n1 = n\<lparr>physical_memory := physical_memory n1\<rparr>" using al by (elim conjE)
  note v = phys_update_views [OF e]
  have "vmap n' = vmap n" using vmap_cong [OF assms(3)] v(2) by simp
  then have "own n' = ((fst (own_net n None))(HNetstack \<mapsto> p), insert p (snd (own_net n None)))"
    using al assms(3-8) v claims_of_reserved [of "vmap n" "Some p" "proc_pc_of n" None]
    by (simp add: own_own_net own_net_def)
  moreover have "p \<notin> snd (own_net n None)" using al by (simp add: own_net_def)
  ultimately have "owner_steps (own_net n None) (own n')"
    using owner_steps_take [of p "snd (own_net n None)" "fst (own_net n None)" HNetstack] by simp
  moreover have "mem_struct n'" using al mem_struct_cong [OF assms(3-6)] by simp
  ultimately show ?thesis using assms(7) v(4) by (simp add: net_post_def)
qed

lemma put_egp_view:
  assumes "put_egp r x n = Inr n'"
  shows "mem_at n' = mem_at n \<and> app_memories n' = app_memories n \<and> physical_memory n' = physical_memory n
     \<and> hardware_of n' = hardware_of n \<and> proc_pc_of n' = proc_pc_of n \<and> nstk_pc_of n' = nstk_pc_of n"
  using assms by (auto simp: put_egp_def result_simps)

lemma send_peer_view:
  assumes "send_peer_msg r x n = Inr n'"
  shows "mem_at n' = mem_at n \<and> app_memories n' = app_memories n \<and> physical_memory n' = physical_memory n
     \<and> hardware_of n' = hardware_of n \<and> proc_pc_of n' = proc_pc_of n \<and> nstk_pc_of n' = nstk_pc_of n"
  using assms by (auto simp: send_peer_msg_def result_simps)

lemma ck_next_post:
  assumes "mem_struct n"
  shows "create_ck_next c n = Inr n' \<Longrightarrow> net_post n n'"
    and "receive_ck_next d n = Inr n' \<Longrightarrow> net_post n n'"
proof -
  assume a: "create_ck_next c n = Inr n'"
  show "net_post n n'"
  proof (cases "cc_pair_index c < cc_num_pairs c")
    case False
    then show ?thesis using a assms by (intro net_post_same) (auto simp: create_ck_next_def)
  next
    case True
    show ?thesis
    proof (cases "on_phys allocate_comm n")
      case (Inl e)
      then have "n' = n\<lparr>nstk_pc_of := CreateCkAwaitMemory c\<rparr>"
        using a True by (cases e) (simp_all add: create_ck_next_def)
      then show ?thesis using assms by (intro net_post_same) simp_all
    next
      case (Inr r)
      obtain p n1 where r: "r = (p, n1)" by (cases r)
      obtain n2 where "put_egp (cr_remote_node_id (cc_req c)) (PutRequest (cc_request c)) n1 = Inr n2"
          "n' = n2\<lparr>nstk_pc_of := CreateCkAwaitEgp c p\<rparr>"
        using a True Inr r by (auto simp: create_ck_next_def result_simps)
      then show ?thesis using put_egp_view Inr r assms
        by (intro net_post_reserve [OF assms, of p n1]) auto
    qed
  qed
next
  assume a: "receive_ck_next d n = Inr n'"
  show "net_post n n'"
  proof (cases "rc_pair_index d < rc_num_pairs d")
    case False
    then show ?thesis using a assms by (intro net_post_same) (auto simp: receive_ck_next_def)
  next
    case True
    show ?thesis
    proof (cases "on_phys allocate_comm n")
      case (Inl e)
      then have "n' = n\<lparr>nstk_pc_of := ReceiveCkAwaitMemory d\<rparr>"
        using a True by (cases e) (simp_all add: receive_ck_next_def)
      then show ?thesis using assms by (intro net_post_same) simp_all
    next
      case (Inr r)
      obtain p n1 where r: "r = (p, n1)" by (cases r)
      obtain n2 where "put_egp (rr_remote_node_id (rc_req d)) (PutReceive (rr_remote_node_id (rc_req d))) n1 = Inr n2"
          "n' = n2\<lparr>nstk_pc_of := ReceiveCkAwaitEgp d p\<rparr>"
        using a True Inr r by (auto simp: receive_ck_next_def result_simps)
      then show ?thesis using put_egp_view Inr r assms
        by (intro net_post_reserve [OF assms, of p n1]) auto
    qed
  qed
qed

lemma on_mem_md_deliver:
  assumes "mem_struct n" and "on_mem a (md_deliver P addr number results) n = Inr n1"
  shows "mem_struct n1 \<and> vmap n1 = vmap n \<and> physical_memory n1 = physical_memory n
     \<and> proc_pc_of n1 = proc_pc_of n"
proof -
  have "qv n1 = qv n" using assms(2) by (rule on_mem_qv) (rule md_deliver_virt)
  then show ?thesis using assms mem_struct_qv qv_eqD [of n1 n]
    by (auto simp: on_mem_def result_simps)
qed

lemma net_post_done:
  assumes "mem_struct n1" "vmap n1 = vmap n" "physical_memory n1 = physical_memory n" "proc_pc_of n1 = proc_pc_of n"
    and "mem_at n' = mem_at n1" "app_memories n' = app_memories n1" "physical_memory n' = physical_memory n1"
      "hardware_of n' = hardware_of n1" "proc_pc_of n' = proc_pc_of n1" "reserved (nstk_pc_of n') = None"
  shows "net_post n n'"
  using assms(1-4,7,9,10) mem_struct_cong [OF assms(5-8)] vmap_cong [OF assms(5)]
  by (simp add: net_post_def own_def own_net_def)

lemma md_next_post:
  assumes "mem_struct n"
  shows "create_md_next P req request results n = Inr n' \<Longrightarrow> net_post n n'"
    and "receive_md_next P rreq number results n = Inr n' \<Longrightarrow> net_post n n'"
proof -
  assume a: "create_md_next P req request results n = Inr n'"
  show "net_post n n'"
  proof (cases "int (length results) < ll_number request")
    case True
    then obtain p n1 where "on_phys allocate_comm n = Inr (p, n1)"
        "n' = n1\<lparr>nstk_pc_of := CreateMdAwaitEgp req request results p\<rparr>"
      using a by (auto simp: create_md_next_def result_simps)
    then show ?thesis by (intro net_post_reserve [OF assms, of p n1]) simp_all
  next
    case False
    then obtain n1 where "on_mem (cr_app_id req) (md_deliver P (cr_result_array_addr req) (ll_number request) results) n = Inr n1"
        "n' = (send_processor_msg ''wrote to array'' n1)\<lparr>nstk_pc_of := NstkIdle\<rparr>"
      using a by (auto simp: create_md_next_def result_simps)
    then show ?thesis using on_mem_md_deliver [OF assms]
      by (intro net_post_done [of n1]) (auto simp: send_processor_msg_def)
  qed
next
  assume a: "receive_md_next P rreq number results n = Inr n'"
  show "net_post n n'"
  proof (cases "int (length results) < number")
    case True
    then obtain p n1 where "on_phys allocate_comm n = Inr (p, n1)"
        "n' = n1\<lparr>nstk_pc_of := ReceiveMdAwaitEgp rreq number results p\<rparr>"
      using a by (auto simp: receive_md_next_def result_simps)
    then show ?thesis by (intro net_post_reserve [OF assms, of p n1]) simp_all
  next
    case False
    then obtain n1 where n1: "on_mem (rr_app_id rreq) (md_deliver P (rr_result_array_addr rreq) number results) n = Inr n1"
        "n' = n1\<lparr>nstk_to_proc := nstk_to_proc n1 @ map (\<lambda>_. ''wrote to array'') (py_range number),
               nstk_pc_of := NstkIdle\<rparr>"
      using a by (auto simp: receive_md_next_def result_simps)
    then show ?thesis using on_mem_md_deliver [OF assms n1(1)]
      by (intro net_post_done [of n1]) auto
  qed
qed

section \<open>Delivering a pair\<close>

lemma deliver_claims:
  "owner_steps (claims_of V (Some p) pc, U) (claims_of (V(a := (V a)(v \<mapsto> p))) None pc, U)"
proof -
  let ?c = "claims_of V (Some p) pc" and ?c' = "claims_of (V(a := (V a)(v \<mapsto> p))) None pc"
  let ?t = "HMapped a v"
  have n: "?c HNetstack = Some p" by simp
  have mv: "owner_steps (c, U) (c(HNetstack := None, ?t \<mapsto> p), U)" if "c HNetstack = Some p" for c
    using that by (rule owner_steps_move)
  show ?thesis
  proof (cases "?c' HCarbon = ?c HCarbon")
    case True
    have "?c' h = (?c(HNetstack := None, ?t \<mapsto> p)) h" for h using True by (cases h) auto
    then have "?c' = ?c(HNetstack := None, ?t \<mapsto> p)" by (rule ext)
    then show ?thesis using mv [of ?c, OF n] by simp
  next
    case False
    then obtain s q new c where pc: "pc = ProcDevice s (KMoveElectron v q new c)" "a = sub_app_id s"
      by (cases pc rule: quiet_pc.cases) (auto split: if_splits)
    show ?thesis
    proof (cases "q = Some p")
      case True
      have "?c' h = (?c(HNetstack := None, ?t \<mapsto> p, HCarbon := None)) h" for h
        using True pc by (cases h) auto
      then have "?c' = ?c(HNetstack := None, ?t \<mapsto> p, HCarbon := None)" by (rule ext)
      then have "?c' \<subseteq>\<^sub>m ?c(HNetstack := None, ?t \<mapsto> p)" by (simp only: upd_None_map_le)
      then show ?thesis using mv [of ?c, OF n] owner_steps_forget by (meson rtranclp_trans)
    next
      case q: False
      then obtain p0 where p0: "V a v = Some p0" "q = Some p0"
        using False pc by (cases q) (auto split: if_splits)
      let ?c1 = "?c(?t := None, HCarbon \<mapsto> p0)"
      have 1: "owner_steps (?c, U) (?c1, U)" using p0 by (intro owner_steps_move) simp
      have 2: "owner_steps (?c1, U) (?c1(HNetstack := None, ?t \<mapsto> p), U)" by (intro mv) simp
      have "(?c1(HNetstack := None, ?t \<mapsto> p)) h = ?c' h" for h
        using pc p0 q by (cases h) auto
      then have "?c1(HNetstack := None, ?t \<mapsto> p) = ?c'" by (rule ext)
      with 1 2 show ?thesis by simp
    qed
  qed
qed

lemma deliver_then_next:
  assumes "mem_struct n" and "pc_ok (proc_pc_of n)" and r: "reserved (nstk_pc_of n) = Some p"
    and "mem_at n a = Some m" and "ck_deliver P q addr pair p dur bell m = Inr m'"
    and n1: "mem_at n1 = (mem_at n)(a \<mapsto> m')" "mem_struct n1" "physical_memory n1 = physical_memory n"
      "proc_pc_of n1 = proc_pc_of n"
    and "net_post (send_processor_msg t n1) n'"
  shows "keeps_owners n n'"
proof -
  obtain v where "am_virt_qubits m' = am_virt_qubits (map_virt_id v p m)"
    using ck_deliver_virt [OF assms(5)] by blast
  then have "mapping m' = (mapping m)(v \<mapsto> p)" using mapping_cong [of m' "map_virt_id v p m"] by simp
  then have "vmap n1 = (vmap n)(a := (vmap n a)(v \<mapsto> p))"
    using assms(4) by (auto simp: vmap_def n1(1) fun_eq_iff)
  then have "owner_steps (own n) (own_net n1 None)"
    using deliver_claims by (simp add: own_own_net own_net_def r n1(3,4))
  moreover have "own_net (send_processor_msg t n1) None = own_net n1 None"
    by (rule own_net_cong) (simp_all add: send_processor_msg_def)
  ultimately show ?thesis using assms(2,10) n1(4)
    by (auto simp: net_post_def keeps_owners_def send_processor_msg_def)
qed

lemma ck_result_keeps:
  assumes "mem_struct n" and "pc_ok (proc_pc_of n)" and r: "reserved (nstk_pc_of n) = Some p"
  shows "create_ck_result P c p bell now n = Inr n' \<Longrightarrow> keeps_owners n n'"
    and "receive_ck_result P d p bell now n = Inr n' \<Longrightarrow> keeps_owners n n'"
proof -
  have ms: "mem_struct (send_processor_msg t k)" if "mem_struct k" for t and k :: "('a, 'b) node"
    using that mem_struct_cong [of "send_processor_msg t k" k] by (simp add: send_processor_msg_def)
  have ok: "dict_ok (am_virt_qubits m')"
    if "mem_at n a = Some m" "ck_deliver P q addr pair p dur bell m = Inr m'" for a m q addr pair dur m'
    using ck_deliver_virt [OF that(2)] mem_structD(3) [OF assms(1) that(1)] by auto
  {
    assume "create_ck_result P c p bell now n = Inr n'"
    then obtain m m' dur where x: "get_obj (cr_app_id (cc_req c)) n = Inr m"
      "ck_deliver P (cr_qubit_array_addr (cc_req c)) (cr_result_array_addr (cc_req c)) (cc_pair_index c) p dur bell m = Inr m'"
      "create_ck_next (c\<lparr>cc_pair_index := cc_pair_index c + 1\<rparr>)
         (send_processor_msg ''wrote to array'' (put_obj (cr_app_id (cc_req c)) m' n)) = Inr n'"
      by (auto simp: create_ck_result_def on_obj_def result_simps)
    have m: "mem_at n (cr_app_id (cc_req c)) = Some m" using x(1) by (simp add: get_obj_mem_at)
    have s: "mem_struct (put_obj (cr_app_id (cc_req c)) m' n)"
      using ok [OF m x(2)] by (rule mem_struct_put(2) [OF assms(1)])
    show "keeps_owners n n'"
      by (rule deliver_then_next [OF assms(1,2) r m x(2) _ s _ _ ck_next_post(1) [OF ms [OF s] x(3)]]) simp_all
  next
    assume "receive_ck_result P d p bell now n = Inr n'"
    then obtain m m' dur where x: "get_mem (rr_app_id (rc_req d)) n = Inr m"
      "ck_deliver P (rr_qubit_array_addr (rc_req d)) (rr_result_array_addr (rc_req d)) (rc_pair_index d) p dur bell m = Inr m'"
      "receive_ck_next (d\<lparr>rc_pair_index := rc_pair_index d + 1\<rparr>)
         (send_processor_msg ''wrote to array'' (put_mem (rr_app_id (rc_req d)) m' n)) = Inr n'"
      by (auto simp: receive_ck_result_def on_mem_def result_simps)
    have m: "mem_at n (rr_app_id (rc_req d)) = Some m" using x(1) by (simp add: get_mem_mem_at)
    have s: "mem_struct (put_mem (rr_app_id (rc_req d)) m' n)"
      using ok [OF m x(2)] by (rule mem_struct_put(1) [OF assms(1)])
    show "keeps_owners n n'"
      by (rule deliver_then_next [OF assms(1,2) r m x(2) _ s _ _ ck_next_post(2) [OF ms [OF s] x(3)]]) simp_all
  }
qed

lemma release_then_next:
  assumes "mem_struct n" and "pc_ok (proc_pc_of n)" and r: "reserved (nstk_pc_of n) = Some p"
    and "free_phys p n = Inr n1" and "mem_struct n1 \<Longrightarrow> net_post n1 n'"
  shows "keeps_owners n n'"
proof -
  note f = free_phys_Inr [OF assms(1,4)]
  have e: "n1 = n\<lparr>physical_memory := physical_memory n1\<rparr>" using f by (elim conjE)
  note v = phys_update_views [OF e]
  have "own_net n1 None = ((fst (own n))(HNetstack := None), snd (own n) - {p})"
    using f v claims_of_reserved [of "vmap n" None "proc_pc_of n" "Some p"]
    by (simp add: own_net_def own_own_net [of n] r)
  moreover have "fst (own n) HNetstack = Some p" by (simp add: own_def r)
  ultimately have "owner_steps (own n) (own_net n1 None)"
    using owner_steps_release [of "fst (own n)" HNetstack p "snd (own n)"] by simp
  moreover have "net_post n1 n'" using f assms(5) by simp
  ultimately show ?thesis using assms(2) v(4) by (auto simp: net_post_def keeps_owners_def)
qed

section \<open>Handling requests\<close>

lemma create_acked_post:
  assumes "mem_struct n" and "create_request_acked P req request now n = Inr n'"
  shows "net_post n n'"
proof (cases "ll_kind request")
  case CreateAndKeep
  then show ?thesis using assms ck_next_post(1)
    by (auto simp: create_request_acked_def handle_create_ck_request_def result_simps)
next
  case MeasureDirectly
  then obtain n1 where n1: "put_egp (cr_remote_node_id req) (PutRequest request) n = Inr n1"
      "create_md_next P req request [] n1 = Inr n'"
    using assms(2) by (auto simp: create_request_acked_def handle_create_md_request_def result_simps)
  note v = put_egp_view [OF n1(1)]
  then have "mem_struct n1" using assms(1) mem_struct_cong [of n1 n] by simp
  from md_next_post(1) [OF this n1(2)] v show ?thesis by (rule_tac net_post_before [of n1]) simp_all
next
  case RemoteStatePrep
  then show ?thesis using assms by (intro net_post_same) (auto simp: create_request_acked_def)
qed

lemma receive_matched_post:
  assumes "mem_struct n" and "receive_request_matched P req msg now n = Inr n'"
  shows "net_post n n'"
proof -
  obtain n1 where n1: "send_peer_msg (rr_remote_node_id req) (PeerText ''ready'') n = Inr n1"
    and cont: "(case msg of PeerRequest request \<Rightarrow>
           (case ll_kind request of
              CreateAndKeep \<Rightarrow> handle_receive_ck_request req request now n1
            | MeasureDirectly \<Rightarrow> handle_receive_md_request P req request n1
            | RemoteStatePrep \<Rightarrow> Inr (n1\<lparr>nstk_pc_of := NstkIdle\<rparr>))
       | PeerText t \<Rightarrow> Inr (n1\<lparr>nstk_pc_of := NstkIdle\<rparr>)) = Inr n'"
    using assms(2) by (auto simp: receive_request_matched_def result_simps)
  note v = send_peer_view [OF n1]
  then have s1: "mem_struct n1" using assms(1) mem_struct_cong [of n1 n] by simp
  have stop: "net_post n1 (n1\<lparr>nstk_pc_of := NstkIdle\<rparr>)" using s1 by (intro net_post_same) simp_all
  have "net_post n1 n'"
  proof (cases msg)
    case (PeerText t)
    then show ?thesis using cont stop by simp
  next
    case (PeerRequest request)
    show ?thesis
    proof (cases "ll_kind request")
      case CreateAndKeep
      then show ?thesis using cont PeerRequest ck_next_post(2) [OF s1]
        by (simp add: handle_receive_ck_request_def)
    next
      case MeasureDirectly
      then obtain n2 where n2: "put_egp (rr_remote_node_id req) (PutReceive (rr_remote_node_id req)) n1 = Inr n2"
          "receive_md_next P req (ll_number request) [] n2 = Inr n'"
        using cont PeerRequest by (auto simp: handle_receive_md_request_def result_simps)
      note w = put_egp_view [OF n2(1)]
      then have "mem_struct n2" using s1 mem_struct_cong [of n2 n1] by simp
      from md_next_post(2) [OF this n2(2)] w show ?thesis by (rule_tac net_post_before [of n2]) simp_all
    next
      case RemoteStatePrep
      then show ?thesis using cont PeerRequest stop by simp
    qed
  qed
  then show ?thesis using v by (rule_tac net_post_before [of n1]) simp_all
qed

lemma handle_processor_msg_post:
  assumes "mem_struct n" and "reserved (nstk_pc_of n) = None" and "handle_processor_msg P msg n = Inr n'"
  shows "net_post n n'"
proof (cases msg)
  case (NetstackCreateRequest req)
  then obtain request n1 where
      "send_peer_msg (cr_remote_node_id req) (PeerRequest request) n = Inr n1"
      "n' = n1\<lparr>nstk_pc_of := CreateAwaitPeer req request\<rparr>"
    using assms(3) by (auto simp: handle_create_request_def result_simps)
  then show ?thesis using send_peer_view assms(1) by (intro net_post_same) auto
next
  case (NetstackReceiveRequest req)
  then have "n' = n\<lparr>nstk_pc_of := ReceiveAwaitPeer req\<rparr>"
    using assms(3) by (auto simp: handle_receive_request_def result_simps)
  then show ?thesis using assms(1) by (intro net_post_same) auto
next
  case (NstkText t)
  then show ?thesis using assms by (intro net_post_same) auto
qed (use assms(3) in \<open>simp_all add: handle_breakpoint_create_request_def handle_breakpoint_receive_request_def\<close>)

lemma pop_peer_view:
  assumes "pop_peer_msg i n = Some (msg, n1)"
  shows "mem_at n1 = mem_at n \<and> app_memories n1 = app_memories n \<and> physical_memory n1 = physical_memory n
     \<and> hardware_of n1 = hardware_of n \<and> proc_pc_of n1 = proc_pc_of n \<and> nstk_pc_of n1 = nstk_pc_of n"
  using assms by (auto simp: pop_peer_msg_def split: option.splits list.splits)

text \<open>Preparing a step by popping a message or clearing the signal.\<close>

lemma net_post_keeps_before:
  assumes "mem_struct n" and "pc_ok (proc_pc_of n)" and "reserved (nstk_pc_of n) = None"
    and v: "mem_at n1 = mem_at n" "app_memories n1 = app_memories n" "physical_memory n1 = physical_memory n"
      "hardware_of n1 = hardware_of n" "proc_pc_of n1 = proc_pc_of n"
    and "mem_struct n1 \<Longrightarrow> net_post n1 n'"
  shows "keeps_owners n n'"
proof -
  have "mem_struct n1" using assms(1) mem_struct_cong [OF v(1-4)] by simp
  then have "net_post n n'" using assms(9) v by (rule_tac net_post_before [of n1]) simp_all
  then show ?thesis using assms(2,3) by (rule_tac net_post_keeps)
qed

lemma netstack_step_keeps:
  assumes "mem_struct n" and "pc_ok (proc_pc_of n)" and "netstack_step P e n = Some (Inr n')"
  shows "keeps_owners n n'"
proof (cases "(P, e, n)" rule: netstack_step.cases)
  case (1 P' now n0)
  then have st: "netstack_step P (NstkGo now) n = Some (Inr n')" using assms(3) by simp
  consider
      (msg) msg rest where "nstk_pc_of n = NstkIdle" "handle_processor_msg P msg (n\<lparr>proc_to_nstk := rest\<rparr>) = Inr n'"
    | (acked) req request msg n1 where "nstk_pc_of n = CreateAwaitPeer req request"
        "pop_peer_msg (cr_remote_node_id req) n = Some (msg, n1)" "create_request_acked P req request now n1 = Inr n'"
    | (mem) c where "nstk_pc_of n = CreateCkAwaitMemory c" "create_ck_next c (n\<lparr>memory_freed := False\<rparr>) = Inr n'"
    | (matched) req msg n1 where "nstk_pc_of n = ReceiveAwaitPeer req"
        "pop_peer_msg (rr_remote_node_id req) n = Some (msg, n1)" "receive_request_matched P req msg now n1 = Inr n'"
    | (rmem) c where "nstk_pc_of n = ReceiveCkAwaitMemory c" "receive_ck_next c (n\<lparr>memory_freed := False\<rparr>) = Inr n'"
    using st by (auto split: nstk_pc.splits list.splits option.splits if_splits)
  then show ?thesis
  proof cases
    case msg
    then show ?thesis using handle_processor_msg_post [of "n\<lparr>proc_to_nstk := rest\<rparr>" P msg n']
      by (intro net_post_keeps_before [OF assms(1,2), of "n\<lparr>proc_to_nstk := rest\<rparr>"]) auto
  next
    case acked
    then show ?thesis using pop_peer_view [OF acked(2)] create_acked_post
      by (intro net_post_keeps_before [OF assms(1,2), of n1]) auto
  next
    case mem
    then show ?thesis using ck_next_post(1)
      by (intro net_post_keeps_before [OF assms(1,2), of "n\<lparr>memory_freed := False\<rparr>"]) auto
  next
    case matched
    then show ?thesis using pop_peer_view [OF matched(2)] receive_matched_post
      by (intro net_post_keeps_before [OF assms(1,2), of n1]) auto
  next
    case rmem
    then show ?thesis using ck_next_post(2)
      by (intro net_post_keeps_before [OF assms(1,2), of "n\<lparr>memory_freed := False\<rparr>"]) auto
  qed
next
  case (2 P' bell now n0)
  then show ?thesis using assms ck_result_keeps [OF assms(1,2)] by (auto split: nstk_pc.splits)
next
  case (3 P' r now n0)
  then have "netstack_step P (NstkEgp (ResMeasureDirectly r) now) n = Some (Inr n')" using assms(3) by simp
  then consider
      (create) req request results p where "nstk_pc_of n = CreateMdAwaitEgp req request results p"
        "create_md_result P req request results p r n = Inr n'"
    | (receive) req number results p where "nstk_pc_of n = ReceiveMdAwaitEgp req number results p"
        "receive_md_result P req number results p r n = Inr n'"
    by (auto split: nstk_pc.splits)
  then show ?thesis
  proof cases
    case create
    then obtain n1 where n1: "free_phys p n = Inr n1" "create_md_next P req request (results @ [r]) n1 = Inr n'"
      by (auto simp: create_md_result_def result_simps)
    show ?thesis
      by (rule release_then_next [OF assms(1,2) _ n1(1) md_next_post(1) [OF _ n1(2)]]) (simp add: create)
  next
    case receive
    then obtain n1 where n1: "free_phys p n = Inr n1" "receive_md_next P req number (results @ [r]) n1 = Inr n'"
      by (auto simp: receive_md_result_def result_simps)
    show ?thesis
      by (rule release_then_next [OF assms(1,2) _ n1(1) md_next_post(2) [OF _ n1(2)]]) (simp add: receive)
  qed
qed

end
