(* ===== verification/HandInv.thy ===== *)
theory HandInv
  imports NetInv
begin

text \<open>
  The handler keeps the ownership discipline: registering an application adds no claim, and
  stopping one releases exactly the positions its virtual qubits hold.
\<close>

section \<open>Unmapping one virtual qubit\<close>

lemma own_quiet_at: "quiet_pc (proc_pc_of n) \<Longrightarrow> own n = own_at n ProcIdle"
  using own_at_quiet [of "proc_pc_of n" ProcIdle n] by (simp add: own_own_at)

lemma clear_qubit_step:
  assumes "mem_struct n" and "quiet_pc (proc_pc_of n)" and "vmap n a v = x"
    and "clear_qubit a (v, x) n = Inr n'"
  shows "mem_struct n' \<and> vmap n' = (vmap n)(a := (vmap n a)(v := None)) \<and> proc_pc_of n' = proc_pc_of n
     \<and> owner_steps (own n) (own n') \<and> applications n' = applications n \<and> hand_pc_of n' = hand_pc_of n
     \<and> app_counter n' = app_counter n \<and> dropped_memories n' = dropped_memories n
     \<and> dict_keys (app_memories n') = dict_keys (app_memories n)
     \<and> used (physical_memory n') = used (physical_memory n) - set_option x"
proof -
  obtain m where m: "get_mem a n = Inr m"
    and cont: "(case x of None \<Rightarrow> Inr (put_mem a (unmap_virt_id v m) n)
       | Some p \<Rightarrow> free_phys p (put_mem a (unmap_virt_id v m) n)) = Inr n'"
    using assms(4) by (auto simp: clear_qubit_def on_mem_def result_simps)
  note ma = get_mem_mem_at [OF m]
  let ?n0 = "put_mem a (unmap_virt_id v m) n"
  have s0: "mem_struct ?n0" using mem_structD(3) [OF assms(1) ma] by (intro mem_struct_put(1) [OF assms(1)]) simp
  have v0: "vmap ?n0 = (vmap n)(a := (vmap n a)(v := None))" by (simp add: mem_at_vmap [OF ma])
  have o0: "own_at k ProcIdle = ((fst (own n))(HMapped a v := None), used (physical_memory k))"
    if "mem_at k = mem_at ?n0" "nstk_pc_of k = nstk_pc_of n" for k
    using own_at_map [of ProcIdle n a m "unmap_virt_id v m" v None k] ma that own_quiet_at [OF assms(2)] by simp
  show ?thesis
  proof (cases x)
    case None
    then have n': "n' = ?n0" using cont by simp
    have "vmap ?n0 = vmap n" using v0 assms(3) None by (auto simp: fun_eq_iff)
    then have "own n' = own n" by (simp add: own_def n')
    then show ?thesis using s0 v0 m None by (simp add: n')
  next
    case (Some p)
    then have "free_phys p ?n0 = Inr n'" using cont by simp
    note f = free_phys_Inr [OF s0 this]
    have e: "n' = ?n0\<lparr>physical_memory := physical_memory n'\<rparr>" using f by (elim conjE)
    note w = phys_update_views [OF e]
    have "own n' = ((fst (own n))(HMapped a v := None), snd (own n) - {p})"
    proof -
      have "own n' = own_at n' ProcIdle" using own_quiet_at [of n'] w(4) assms(2) by simp
      then show ?thesis using o0 [of n'] w(1,3) f by (simp add: own_def)
    qed
    moreover have "fst (own n) (HMapped a v) = Some p" using assms(3) Some by (simp add: own_def)
    ultimately have "owner_steps (own n) (own n')"
      using owner_steps_release [of "fst (own n)" "HMapped a v" p "snd (own n)"] by simp
    moreover have "applications n' = applications n" "app_counter n' = app_counter n"
      by (subst e, simp add: put_mem_def)+
    ultimately show ?thesis using f w v0 m Some by simp
  qed
qed

lemma clear_loop:
  assumes "forE (clear_qubit a) xs n = Inr n'" and "mem_struct n" and "quiet_pc (proc_pc_of n)"
    and "distinct (map fst xs)" and "\<And>v x. (v, x) \<in> set xs \<Longrightarrow> vmap n a v = x"
  shows "mem_struct n' \<and> vmap n' = (vmap n)(a := (\<lambda>v. if v \<in> set (map fst xs) then None else vmap n a v))
     \<and> proc_pc_of n' = proc_pc_of n
     \<and> owner_steps (own n) (own n') \<and> applications n' = applications n \<and> hand_pc_of n' = hand_pc_of n
     \<and> app_counter n' = app_counter n \<and> dropped_memories n' = dropped_memories n
     \<and> dict_keys (app_memories n') = dict_keys (app_memories n)
     \<and> used (physical_memory n') = used (physical_memory n) - (\<Union>x \<in> set (map snd xs). set_option x)"
  using assms
proof (induction xs arbitrary: n)
  case Nil
  then show ?case by simp
next
  case (Cons vx xs)
  obtain v x where vx: "vx = (v, x)" by (cases vx)
  obtain n1 where n1: "clear_qubit a (v, x) n = Inr n1" "forE (clear_qubit a) xs n1 = Inr n'"
    using Cons.prems(1) vx by (auto simp: result_simps)
  have "vmap n a v = x" using Cons.prems(5) vx by simp
  note s = clear_qubit_step [OF Cons.prems(2,3) this n1(1)]
  have ih: "mem_struct n' \<and> vmap n' = (vmap n1)(a := (\<lambda>v. if v \<in> set (map fst xs) then None else vmap n1 a v))
     \<and> proc_pc_of n' = proc_pc_of n1
     \<and> owner_steps (own n1) (own n') \<and> applications n' = applications n1 \<and> hand_pc_of n' = hand_pc_of n1
     \<and> app_counter n' = app_counter n1 \<and> dropped_memories n' = dropped_memories n1
     \<and> dict_keys (app_memories n') = dict_keys (app_memories n1)
     \<and> used (physical_memory n') = used (physical_memory n1) - (\<Union>x \<in> set (map snd xs). set_option x)"
  proof (rule Cons.IH [OF n1(2)])
    fix w y assume w: "(w, y) \<in> set xs"
    then have "w \<noteq> v" using Cons.prems(4) vx by force
    then show "vmap n1 a w = y" using s Cons.prems(5) [of w y] w by simp
  qed (use s Cons.prems in \<open>simp_all\<close>)
  have "vmap n' = (vmap n)(a := (\<lambda>w. if w \<in> set (map fst (vx # xs)) then None else vmap n a w))"
    using ih s vx by (auto simp: fun_eq_iff)
  moreover have "owner_steps (own n) (own n')" using ih s by (meson rtranclp_trans)
  moreover have "used (physical_memory n')
      = used (physical_memory n) - (\<Union>x \<in> set (map snd (vx # xs)). set_option x)"
    using ih s vx by auto
  ultimately show ?case using ih s by simp
qed

section \<open>Stopping an application\<close>

lemma mapping_entry:
  assumes "dict_ok (am_virt_qubits m)" and "(v, x) \<in> set (am_virt_qubits m)"
  shows "mapping m v = x"
  using assms by (cases x) (auto simp: mapping_def)

lemma clear_application_step:
  assumes "mem_struct n" and "quiet_pc (proc_pc_of n)" and "clear_application a n = Inr n'"
  shows "mem_struct n' \<and> proc_pc_of n' = proc_pc_of n \<and> owner_steps (own n) (own n')
     \<and> used (physical_memory n') = used (physical_memory n) - ran (vmap n a)
     \<and> applications n' = applications n \<and> hand_pc_of n' = hand_pc_of n \<and> app_counter n' = app_counter n
     \<and> dict_keys (app_memories n') = removeAll a (dict_keys (app_memories n))
     \<and> set (dict_keys (dropped_memories n')) = insert a (set (dict_keys (dropped_memories n)))"
proof -
  obtain m n1 m1 where x: "get_mem a n = Inr m" "forE (clear_qubit a) (am_virt_qubits m) n = Inr n1"
    "get_mem a n1 = Inr m1"
    "n' = n1\<lparr>app_memories := AList.delete a (app_memories n1),
             dropped_memories := AList.update a m1 (dropped_memories n1)\<rparr>"
    using assms(3) by (auto simp: clear_application_def result_simps)
  note ma = get_mem_mem_at [OF x(1)]
  have d: "dict_ok (am_virt_qubits m)" by (rule mem_structD(3) [OF assms(1) ma])
  have vm: "vmap n a v = y" if "(v, y) \<in> set (am_virt_qubits m)" for v y
    using mapping_entry [OF d that] mem_at_vmap [OF ma] by simp
  note c = clear_loop [OF x(2) assms(1,2) d vm]
  have "mem_at n' = mem_at n1"
  proof
    fix b show "mem_at n' b = mem_at n1 b"
      using x(3) by (auto simp: x(4) mem_at_def map_add_def get_mem_def result_simps split: option.split)
  qed
  then have v: "vmap n' = vmap n1" "vdict n' = vdict n1" using vmap_cong vdict_cong by blast+
  have "own n' = own n1" using v by (simp add: own_def) (simp add: x(4))
  moreover have "mem_struct n'"
  proof -
    have "dict_ok (AList.delete a (app_memories n1))" using c mem_structD(4) by (intro dict_ok_delete) blast
    then show ?thesis using c v(2) by (simp add: mem_struct_def x(4))
  qed
  moreover have "(\<Union>y \<in> set (map snd (am_virt_qubits m)). set_option y) = ran (vmap n a)" (is "?l = ?r")
  proof -
    have "p \<in> ?l \<longleftrightarrow> (\<exists>v. (v, Some p) \<in> set (am_virt_qubits m))" for p by force
    also have "\<dots> p \<longleftrightarrow> p \<in> ?r" for p
      using mapping_in_iff [OF d] by (simp add: mem_at_vmap [OF ma] ran_def del: map_of_eq_Some_iff)
    finally show ?thesis by blast
  qed
  moreover have "dict_keys (app_memories n') = removeAll a (dict_keys (app_memories n))"
    using c by (simp add: x(4) delete_keys)
  moreover have "set (dict_keys (dropped_memories n')) = insert a (set (dict_keys (dropped_memories n)))"
    using c by (simp add: x(4) dom_update)
  ultimately show ?thesis using c by (simp add: x(4))
qed

section \<open>The handler's steps\<close>

lemma flush_next_view:
  assumes "flush_next a n = Inr n'"
  shows "qv n' = qv n \<and> proc_pc_of n' = proc_pc_of n"
proof -
  from assms consider "n' = n\<lparr>hand_pc_of := HandIdle\<rparr>"
    | s rest where "n' = n\<lparr>applications := AList.update a rest (applications n),
                  hand_to_proc := hand_to_proc n @ [s], hand_pc_of := HandAwaitProc a\<rparr>"
    by (auto simp: flush_next_def result_simps split: option.splits)
  then show ?thesis by cases simp_all
qed

lemma init_new_app_step:
  assumes "mem_struct n" and "quiet_pc (proc_pc_of n)" and "init_new_app P k n = (a, n')"
  shows "keeps_owners n n' \<and> quiet_pc (proc_pc_of n')"
proof -
  let ?m = "AppMemory (shm P) (app_counter n) (qubit_count (physical_memory n))"
  have n': "n' = n\<lparr>app_counter := app_counter n + 1,
      app_memories := AList.update (app_counter n) ?m (app_memories n),
      applications := AList.update (app_counter n) [] (applications n)\<rparr>"
    using assms(3) by (auto simp: init_new_app_def Let_def)
  have at: "mem_at n' = mem_at (put_mem (app_counter n) ?m n)"
    by (simp add: n' mem_at_def put_mem_def fun_eq_iff)
  have v: "vmap n' = (vmap n)(app_counter n := Map.empty)"
    using vmap_cong [OF at] by simp
  have pc: "proc_pc_of n' = proc_pc_of n" "nstk_pc_of n' = nstk_pc_of n" "physical_memory n' = physical_memory n"
    by (simp_all add: n')
  have "mem_struct n'"
  proof -
    have "dict_ok (am_virt_qubits ?m)" using mapping_ok_AppMemory unfolding mapping_ok_def by blast
    then have "mem_struct (put_mem (app_counter n) ?m n)" by (rule mem_struct_put(1) [OF assms(1)])
    moreover have "vdict n' = vdict (put_mem (app_counter n) ?m n)"
      by (rule vdict_cong) (simp add: n' mem_at_def fun_eq_iff)
    ultimately show ?thesis by (simp add: mem_struct_def n' put_mem_def)
  qed
  moreover have "owner_steps (own n) (own n')"
  proof -
    have "fst (own n') \<subseteq>\<^sub>m fst (own n)"
      unfolding map_le_def
    proof
      fix h assume "h \<in> dom (fst (own n'))"
      then show "fst (own n') h = fst (own n) h"
        using assms(2) by (cases h) (auto simp: own_def v pc split: if_splits)
    qed
    moreover have "snd (own n') = snd (own n)" by (simp add: own_def n')
    ultimately show ?thesis using owner_steps_forget [of "fst (own n')" "fst (own n)" "snd (own n)"] by (metis prod.collapse)
  qed
  ultimately show ?thesis using assms(2) by (simp add: keeps_owners_def n')
qed

lemma keeps_owners_trans:
  assumes "keeps_owners n n1" and "keeps_owners n1 n2"
  shows "keeps_owners n n2"
  using assms by (auto simp: keeps_owners_def intro: rtranclp_trans)

lemma stop_application_step:
  assumes "mem_struct n" and "quiet_pc (proc_pc_of n)" and "stop_application a n = Inr n'"
  shows "keeps_owners n n' \<and> quiet_pc (proc_pc_of n')"
proof (cases "should_clear_memory n")
  case False
  then show ?thesis using assms by (simp add: stop_application_def keeps_owners_def)
next
  case True
  then obtain n1 apps where x: "clear_application a n = Inr n1" "n' = n1\<lparr>applications := apps\<rparr>"
    using assms(3) by (auto simp: stop_application_def result_simps)
  note c = clear_application_step [OF assms(1,2) x(1)]
  have "qv n' = qv n1" by (simp add: x(2))
  then have "keeps_owners n1 n'" using c assms(2) by (intro keeps_owners_quiet) (simp_all add: x(2))
  moreover have "keeps_owners n n1" using c assms(2) by (simp add: keeps_owners_def)
  ultimately have "keeps_owners n n'" using keeps_owners_trans by blast
  then show ?thesis using c assms(2) by (simp add: x(2))
qed

lemma msg_from_host_step:
  assumes "mem_struct n" and "quiet_pc (proc_pc_of n)" and "msg_from_host P msg n = Inr n'"
  shows "keeps_owners n n' \<and> quiet_pc (proc_pc_of n')"
proof (cases msg)
  case (InitNewAppMessage k)
  obtain a n1 where n1: "init_new_app P k n = (a, n1)" by (cases "init_new_app P k n")
  then have n': "n' = send_host_msg (AppIdReply a) n1" using assms(3) InitNewAppMessage by simp
  note s = init_new_app_step [OF assms(1,2) n1]
  have "qv n' = qv n1" by (simp add: n' send_host_msg_def)
  then have "keeps_owners n1 n'" using s
    by (intro keeps_owners_quiet) (auto simp: n' send_host_msg_def keeps_owners_def)
  then show ?thesis using s keeps_owners_trans by (auto simp: n' send_host_msg_def)
next
  case (OpenEPRSocketMessage a sck rem)
  then have n': "n' = open_epr_socket a sck rem n" using assms(3) by simp
  have "qv n' = qv n" by (simp add: n' open_epr_socket_def Let_def)
  then show ?thesis using assms(1,2)
    by (auto simp: n' open_epr_socket_def Let_def intro!: keeps_owners_quiet)
next
  case (SubroutineMessage raw)
  then obtain apps where n': "n' = n\<lparr>applications := apps\<rparr>"
    using assms(3) by (auto simp: add_subroutine_def result_simps)
  have "qv n' = qv n" by (simp add: n')
  then show ?thesis using assms(1,2) by (auto simp: n' intro!: keeps_owners_quiet)
next
  case (StopAppMessage a)
  then show ?thesis using assms stop_application_step by simp
next
  case OtherHostMessage
  then show ?thesis using assms by (simp add: keeps_owners_def)
qed

lemma handler_step_keeps:
  assumes "mem_struct n" and "pc_ok (proc_pc_of n)" and "hand_pc_of n = HandIdle \<Longrightarrow> quiet_pc (proc_pc_of n)"
    and "handler_step P n = Some (Inr n')"
  shows "keeps_owners n n'"
proof (cases "hand_pc_of n")
  case (HandAwaitProc a)
  then obtain msg rest where x: "proc_to_hand n = msg # rest"
      "flush_next a (send_host_msg (AppMemReply a) (n\<lparr>proc_to_hand := rest\<rparr>)) = Inr n'"
    using assms(4) by (auto simp: handler_step_def processor_done_def result_simps split: list.splits)
  note v = flush_next_view [OF x(2)]
  have "qv (send_host_msg (AppMemReply a) (n\<lparr>proc_to_hand := rest\<rparr>)) = qv n"
    by (simp add: send_host_msg_def)
  then show ?thesis using v assms(1,2) by (intro keeps_owners_same_pc) (simp_all add: send_host_msg_def)
next
  case HandIdle
  then obtain raw rest where "host_to_hand n = raw # rest" "handle_host_msg P raw (n\<lparr>host_to_hand := rest\<rparr>) = Inr n'"
    using assms(4) by (auto simp: handler_step_def split: list.splits)
  then obtain msg n1 where x: "msg_from_host P msg (n\<lparr>host_to_hand := rest\<rparr>) = Inr n1"
      "(case next_app n1 of None \<Rightarrow> Inr (n1\<lparr>hand_pc_of := HandIdle\<rparr>) | Some a \<Rightarrow> flush_next a n1) = Inr n'"
    by (auto simp: handle_host_msg_def result_simps)
  have q: "quiet_pc (proc_pc_of n)" using assms(3) HandIdle .
  let ?n = "n\<lparr>host_to_hand := rest\<rparr>"
  have v0: "qv ?n = qv n" by simp
  have k0: "keeps_owners n ?n" using assms(1) q v0 by (intro keeps_owners_quiet) simp_all
  have k1: "keeps_owners ?n n1 \<and> quiet_pc (proc_pc_of n1)"
    using q k0 by (intro msg_from_host_step [OF _ _ x(1)]) (simp_all add: keeps_owners_def)
  have "qv n' = qv n1 \<and> proc_pc_of n' = proc_pc_of n1"
    using x(2) flush_next_view [of _ n1 n'] by (auto split: option.splits)
  then have "keeps_owners n1 n'"
    using k1 by (intro keeps_owners_quiet) (simp_all add: keeps_owners_def)
  then show ?thesis using k0 k1 keeps_owners_trans by blast
qed

end
