(* ===== verification/Control.thy ===== *)
theory Control
  imports HandInv
begin

text \<open>
  The control state of a node: which applications exist, which subroutine is where.  The
  processor's instructions and the network stack leave it alone; the handler and the
  processor pass one subroutine at a time between them.
\<close>

section \<open>The control view\<close>

definition ctl :: "('rg, 'ar) node \<Rightarrow> _" where
  "ctl n = (hand_pc_of n, hand_to_proc n, proc_to_hand n, applications n, app_counter n,
            dict_keys (app_memories n), dict_keys (dropped_memories n))"

lemma ctl_eqD:
  assumes "ctl n' = ctl n"
  shows "hand_pc_of n' = hand_pc_of n" "hand_to_proc n' = hand_to_proc n" "proc_to_hand n' = proc_to_hand n"
    "applications n' = applications n" "app_counter n' = app_counter n"
    "dict_keys (app_memories n') = dict_keys (app_memories n)"
    "dict_keys (dropped_memories n') = dict_keys (dropped_memories n)"
  using assms by (simp_all add: ctl_def)

named_theorems ctl_keeps

lemma ctl_frame [simp]:
  "ctl (log_device e n) = ctl n"
  "ctl (signal_memory_freed n) = ctl n"
  "ctl (send_netstack_msg msg n) = ctl n"
  "ctl (send_processor_msg t n) = ctl n"
  "ctl (n\<lparr>physical_memory := pm\<rparr>) = ctl n"
  "ctl (n\<lparr>nstk_to_proc := ms\<rparr>) = ctl n"
  "ctl (n\<lparr>proc_to_nstk := ns\<rparr>) = ctl n"
  "ctl (n\<lparr>proc_pc_of := pc\<rparr>) = ctl n"
  "ctl (n\<lparr>nstk_pc_of := np\<rparr>) = ctl n"
  "ctl (n\<lparr>memory_freed := b\<rparr>) = ctl n"
  "ctl (n\<lparr>peer_listeners := pl\<rparr>) = ctl n"
  "ctl (n\<lparr>peer_out := po\<rparr>) = ctl n"
  "ctl (n\<lparr>egp_log := el\<rparr>) = ctl n"
  "ctl (n\<lparr>host_to_hand := hs\<rparr>) = ctl n"
  by (simp_all add: ctl_def log_device_def signal_memory_freed_def send_netstack_msg_def
      send_processor_msg_def)

lemma get_mem_live: "get_mem a n = Inr m \<Longrightarrow> a \<in> set (dict_keys (app_memories n))"
  by (simp add: get_mem_def result_simps) (metis domI dom_map_of_conv_image_fst)

lemma live_get_mem: "a \<in> set (dict_keys (app_memories n)) \<Longrightarrow> \<exists>m. get_mem a n = Inr m"
  by (simp add: get_mem_def result_simps) (metis domD dom_map_of_conv_image_fst)

lemma put_mem_ctl: "a \<in> set (dict_keys (app_memories n)) \<Longrightarrow> ctl (put_mem a m n) = ctl n"
  using dict_keys_update_in [of a "app_memories n" m] by (simp add: ctl_def put_mem_def)

lemma put_mem_get_ctl [simp]: "get_mem a n = Inr m \<Longrightarrow> ctl (put_mem a m' n) = ctl n"
  by (rule put_mem_ctl [OF get_mem_live])

lemma put_obj_ctl: "get_obj a n = Inr m \<Longrightarrow> ctl (put_obj a m' n) = ctl n"
proof (cases "map_of (app_memories n) a")
  case None
  assume "get_obj a n = Inr m"
  with None have "map_of (dropped_memories n) a = Some m" by (simp add: get_obj_def result_simps)
  then have "a \<in> set (dict_keys (dropped_memories n))"
    by (metis domI dom_map_of_conv_image_fst list.set_map)
  then show ?thesis using None dict_keys_update_in [of a "dropped_memories n" m']
    by (simp add: ctl_def put_obj_def)
next
  case (Some m0)
  then have "a \<in> set (dict_keys (app_memories n))"
    by (metis domI dom_map_of_conv_image_fst list.set_map)
  then show ?thesis using Some put_mem_ctl by (simp add: put_obj_def)
qed

lemma on_mem_ctl [ctl_keeps]: "on_mem a f n = Inr n' \<Longrightarrow> ctl n' = ctl n"
  by (auto simp: on_mem_def result_simps dest: get_mem_live intro: put_mem_ctl)

lemma on_obj_ctl [ctl_keeps]: "on_obj a f n = Inr n' \<Longrightarrow> ctl n' = ctl n"
  by (auto simp: on_obj_def result_simps intro: put_obj_ctl)

lemma on_phys_ctl [ctl_keeps]: "on_phys f n = Inr (x, n') \<Longrightarrow> ctl n' = ctl n"
  by (auto simp: on_phys_def result_simps)

lemma free_phys_ctl [ctl_keeps]: "free_phys p n = Inr n' \<Longrightarrow> ctl n' = ctl n"
  by (auto simp: free_phys_def result_simps)

section \<open>The processor\<close>

lemma classical_ctl [ctl_keeps]:
  "interpret_set P a r imm n = Inr n' \<Longrightarrow> ctl n' = ctl n"
  "interpret_store P a r e n = Inr n' \<Longrightarrow> ctl n' = ctl n"
  "interpret_load P a r e n = Inr n' \<Longrightarrow> ctl n' = ctl n"
  "interpret_lea P a r addr n = Inr n' \<Longrightarrow> ctl n' = ctl n"
  "interpret_undef P a e n = Inr n' \<Longrightarrow> ctl n' = ctl n"
  "interpret_array P a r addr n = Inr n' \<Longrightarrow> ctl n' = ctl n"
  "interpret_binary_classical_instr P a oper ro r0 r1 rm n = Inr n' \<Longrightarrow> ctl n' = ctl n"
  unfolding interpret_set_def interpret_store_def interpret_load_def interpret_lea_def
    interpret_undef_def interpret_array_def interpret_binary_classical_instr_def
  by (erule on_mem_ctl)+

lemma branch_ctl [ctl_keeps]: "interpret_branch_instr P a i n = Inr n' \<Longrightarrow> ctl n' = ctl n"
  by (cases "(P, a, i, n)" rule: interpret_branch_instr.cases) (auto dest: on_mem_ctl)

lemma epr_ctl [ctl_keeps]:
  "interpret_create_epr P a rem sck q args res n = Inr n' \<Longrightarrow> ctl n' = ctl n"
  "interpret_recv_epr P a rem sck q res n = Inr n' \<Longrightarrow> ctl n' = ctl n"
  by (auto simp: interpret_create_epr_def interpret_recv_epr_def result_simps)

lemma alloc_put_ctl:
  assumes "get_mem a n = Inr m" and "on_phys f n = Inr (p, n1)"
  shows "ctl (put_mem a m' n1) = ctl n"
proof -
  have c: "ctl n1 = ctl n" using assms(2) by (rule on_phys_ctl)
  have "a \<in> set (dict_keys (app_memories n1))"
    unfolding ctl_eqD(6) [OF c] using get_mem_live [OF assms(1)] .
  then show ?thesis by (simp only: put_mem_ctl c)
qed

lemma qubit_ctl [ctl_keeps]:
  "interpret_qalloc P a r n = Inr n' \<Longrightarrow> ctl n' = ctl n"
  "nv_interpret_qalloc P a r n = Inr n' \<Longrightarrow> ctl n' = ctl n"
  "interpret_qfree P a r n = Inr n' \<Longrightarrow> ctl n' = ctl n"
  by (auto simp: interpret_qalloc_def nv_interpret_qalloc_def interpret_qfree_def result_simps
      dest!: free_phys_ctl intro: alloc_put_ctl put_mem_ctl dest: get_mem_live)

text \<open>Results with an outcome: the control view and the running subroutine stay.\<close>

fun running :: "proc_pc \<Rightarrow> subroutine option" where
  "running ProcIdle = None"
| "running (ProcExec s) = Some s"
| "running (ProcDevice s k) = Some s"
| "running (ProcWaitAll s addr i j) = Some s"
| "running (ProcBreak s role stage) = Some s"

definition ctl_result :: "subroutine \<Rightarrow> ('rg, 'ar) node \<Rightarrow> proc_outcome \<times> ('rg, 'ar) node \<Rightarrow> bool" where
  "ctl_result s n r \<longleftrightarrow> ctl (snd r) = ctl n \<and> running (outcome_pc s (fst r)) = Some s"

lemma no_yield_ctl:
  assumes "no_yield r = Inr x" and "\<And>n'. r = Inr n' \<Longrightarrow> ctl n' = ctl n"
  shows "ctl_result s n x"
  using assms by (auto simp: no_yield_def ctl_result_def result_simps)

lemma run_program_ctl [ctl_keeps]:
  "run_program s prog k n = Inr r \<Longrightarrow> ctl_result s n r"
  by (auto simp: run_program_def ctl_result_def)

lemma run_program_from_ctl: "run_program s prog k n1 = Inr r \<Longrightarrow> ctl n1 = ctl n \<Longrightarrow> ctl_result s n r"
  by (auto simp: run_program_def ctl_result_def)

lemma wait_all_ctl [ctl_keeps]: "wait_all_check P s addr i j n = Inr r \<Longrightarrow> ctl_result s n r"
  by (auto simp: wait_all_check_def ctl_result_def result_simps split: if_splits)

lemma interpret_wait_all_ctl [ctl_keeps]: "interpret_wait_all P s sl n = Inr r \<Longrightarrow> ctl_result s n r"
  by (cases "(P, s, sl, n)" rule: interpret_wait_all.cases) (auto simp: result_simps dest: wait_all_ctl)

lemma breakpoint_ctl [ctl_keeps]:
  "interpret_breakpoint s action role n = Inr r \<Longrightarrow> ctl_result s n r"
  "resume_breakpoint s role stage msg n = Inr r \<Longrightarrow> ctl_result s n r"
  by (auto simp: interpret_breakpoint_def resume_breakpoint_def ctl_result_def result_simps Let_def
      split: if_splits break_stage.splits)

lemma gate_ctl [ctl_keeps]:
  "do_single_rotation P s r num denom ns n = Inr x \<Longrightarrow> ctl_result s n x"
  "do_controlled_rotation P s r0 r1 num denom ns n = Inr x \<Longrightarrow> ctl_result s n x"
  "generic_interpret_init P s r n = Inr x \<Longrightarrow> ctl_result s n x"
  "generic_interpret_meas P s r c n = Inr x \<Longrightarrow> ctl_result s n x"
  "generic_interpret_single_qubit_instr P s g r n = Inr x \<Longrightarrow> ctl_result s n x"
  "generic_interpret_two_qubit_instr P s tg r0 r1 n = Inr x \<Longrightarrow> ctl_result s n x"
  "nv_interpret_init P s r n = Inr x \<Longrightarrow> ctl_result s n x"
  "measure_electron s c n = Inr x \<Longrightarrow> ctl_result s n x"
  by (auto simp: do_single_rotation_def do_controlled_rotation_def generic_interpret_init_def
      generic_interpret_meas_def generic_interpret_single_qubit_instr_def measure_electron_def
      generic_interpret_two_qubit_instr_def nv_interpret_init_def result_simps dest: run_program_ctl)

lemma rotation_ctl [ctl_keeps]:
  "generic_interpret_single_rotation_instr P s gr r num denom n = Inr x \<Longrightarrow> ctl_result s n x"
  "nv_interpret_single_rotation_instr P s gr r num denom n = Inr x \<Longrightarrow> ctl_result s n x"
  by (cases gr; auto dest: gate_ctl)+

lemma controlled_rotation_ctl [ctl_keeps]:
  "nv_interpret_controlled_rotation_instr P s cg r0 r1 num denom n = Inr x \<Longrightarrow> ctl_result s n x"
  by (cases "(P, s, cg, r0, r1, num, denom, n)" rule: nv_interpret_controlled_rotation_instr.cases)
    (auto dest: gate_ctl)

lemma ctl_result_trans: "ctl_result s n1 r \<Longrightarrow> ctl n1 = ctl n \<Longrightarrow> ctl_result s n r"
  by (simp add: ctl_result_def)

lemma nv_meas_ctl [ctl_keeps]:
  assumes "nv_interpret_meas P s q c n = Inr r"
  shows "ctl_result s n r"
proof -
  from assms consider "measure_electron s c n = Inr r"
    | new n1 prog k where "on_phys allocate n = Inr (new, n1)" "run_program s prog k n1 = Inr r"
    | x n1 f n2 prog k where "on_phys allocate_comm n = Inr (x, n1)" "on_mem (sub_app_id s) f n1 = Inr n2"
        "run_program s prog k n2 = Inr r"
    by (auto simp: nv_interpret_meas_def result_simps split: if_splits sum.splits py_error.splits)
  then show ?thesis
    by cases (auto dest!: on_phys_ctl on_mem_ctl intro: run_program_from_ctl gate_ctl)
qed

lemma interpret_instruction_ctl:
  assumes "interpret_instruction P s i n = Inr r"
  shows "ctl_result s n r"
  using assms
  by (cases i)
    (auto split: hardware.splits elim!: no_yield_ctl dest: ctl_keeps
      simp: ctl_result_def [of s n "(Finished, n)"] nv_interpret_gate_def
        generic_interpret_controlled_rotation_instr_def)

lemma resume_device_ctl:
  assumes "resume_device P s k x n = Inr r"
  shows "ctl_result s n r"
proof (cases k)
  case KNext
  then show ?thesis using assms by (auto simp: ctl_result_def)
next
  case (KMeas c)
  then show ?thesis using assms by (auto elim!: no_yield_ctl dest: on_obj_ctl)
next
  case (KMoveElectron v q new c)
  then show ?thesis using assms
    by (auto simp: nv_meas_electron_moved_def result_simps dest!: on_mem_ctl on_obj_ctl intro: run_program_from_ctl)
next
  case (KMoveCarbon v q c)
  then show ?thesis using assms
    by (auto simp: nv_meas_carbon_moved_def result_simps dest!: free_phys_ctl gate_ctl
        intro: ctl_result_trans)
qed

lemma after_instr_ctl:
  assumes "after_instr s r = Inr n'" and "ctl_result s n r"
  shows "ctl n' = ctl n \<and> running (proc_pc_of n') = Some s"
proof -
  obtain out n1 where r: "r = (out, n1)" by (cases r)
  show ?thesis using assms unfolding r ctl_result_def
    by (cases out) (auto simp: result_simps dest!: on_obj_ctl)
qed

section \<open>The network stack\<close>

lemma put_send_ctl [ctl_keeps]:
  "put_egp r x n = Inr n' \<Longrightarrow> ctl n' = ctl n \<and> proc_pc_of n' = proc_pc_of n"
  "send_peer_msg r y n = Inr n' \<Longrightarrow> ctl n' = ctl n \<and> proc_pc_of n' = proc_pc_of n"
  by (auto simp: put_egp_def send_peer_msg_def result_simps)

lemma node_op_frames:
  "on_mem a f n = Inr n' \<Longrightarrow> ctl n' = ctl n \<and> proc_pc_of n' = proc_pc_of n"
  "on_obj a f n = Inr n' \<Longrightarrow> ctl n' = ctl n \<and> proc_pc_of n' = proc_pc_of n"
  "on_phys g n = Inr (x, n') \<Longrightarrow> ctl n' = ctl n \<and> proc_pc_of n' = proc_pc_of n"
  "free_phys p n = Inr n' \<Longrightarrow> ctl n' = ctl n \<and> proc_pc_of n' = proc_pc_of n"
  using on_mem_ctl on_obj_ctl on_phys_ctl free_phys_ctl
  by (auto simp: on_mem_def on_obj_def on_phys_def free_phys_def result_simps intro: put_obj_ctl)

lemmas net_frames = put_send_ctl node_op_frames

lemma send_processor_pc [simp]: "proc_pc_of (send_processor_msg t n) = proc_pc_of n"
  by (simp add: send_processor_msg_def)

lemma ck_next_ctl:
  "create_ck_next c n = Inr n' \<Longrightarrow> ctl n' = ctl n \<and> proc_pc_of n' = proc_pc_of n"
  "receive_ck_next d n = Inr n' \<Longrightarrow> ctl n' = ctl n \<and> proc_pc_of n' = proc_pc_of n"
  by (auto simp: create_ck_next_def receive_ck_next_def result_simps
      split: if_splits sum.splits py_error.splits dest!: net_frames)

lemma md_next_ctl:
  "create_md_next P req request results n = Inr n' \<Longrightarrow> ctl n' = ctl n \<and> proc_pc_of n' = proc_pc_of n"
  "receive_md_next P rreq number results n = Inr n' \<Longrightarrow> ctl n' = ctl n \<and> proc_pc_of n' = proc_pc_of n"
  by (auto simp: create_md_next_def receive_md_next_def result_simps split: if_splits dest!: net_frames)

lemma nstk_result_ctl:
  "create_ck_result P c p bell now n = Inr n' \<Longrightarrow> ctl n' = ctl n \<and> proc_pc_of n' = proc_pc_of n"
  "receive_ck_result P d p bell now n = Inr n' \<Longrightarrow> ctl n' = ctl n \<and> proc_pc_of n' = proc_pc_of n"
  "create_md_result P req request results p r n = Inr n' \<Longrightarrow> ctl n' = ctl n \<and> proc_pc_of n' = proc_pc_of n"
  "receive_md_result P rreq number results p r n = Inr n' \<Longrightarrow> ctl n' = ctl n \<and> proc_pc_of n' = proc_pc_of n"
  by (auto simp: create_ck_result_def receive_ck_result_def create_md_result_def receive_md_result_def
      result_simps dest!: net_frames ck_next_ctl md_next_ctl)

lemma pop_peer_ctl:
  "pop_peer_msg i n = Some (msg, n1) \<Longrightarrow> ctl n1 = ctl n \<and> proc_pc_of n1 = proc_pc_of n"
  by (auto simp: pop_peer_msg_def split: option.splits list.splits)

lemma acked_ctl:
  "create_request_acked P req request now n = Inr n' \<Longrightarrow> ctl n' = ctl n \<and> proc_pc_of n' = proc_pc_of n"
  by (auto simp: create_request_acked_def handle_create_ck_request_def handle_create_md_request_def
      result_simps split: ll_kind.splits dest!: net_frames ck_next_ctl md_next_ctl)

lemma matched_ctl:
  "receive_request_matched P req msg now n = Inr n' \<Longrightarrow> ctl n' = ctl n \<and> proc_pc_of n' = proc_pc_of n"
  by (cases "case msg of PeerRequest request \<Rightarrow> ll_kind request | PeerText t \<Rightarrow> RemoteStatePrep"; cases msg)
    (auto simp: receive_request_matched_def handle_receive_ck_request_def handle_receive_md_request_def
      result_simps dest!: net_frames ck_next_ctl md_next_ctl)

lemma handle_processor_msg_ctl:
  "handle_processor_msg P msg n = Inr n' \<Longrightarrow> ctl n' = ctl n \<and> proc_pc_of n' = proc_pc_of n"
  by (cases msg) (auto simp: handle_create_request_def handle_receive_request_def result_simps
      handle_breakpoint_create_request_def handle_breakpoint_receive_request_def dest!: net_frames)

lemma netstack_step_ctl:
  assumes "netstack_step P e n = Some (Inr n')"
  shows "ctl n' = ctl n \<and> proc_pc_of n' = proc_pc_of n"
  using assms
  by (cases "(P, e, n)" rule: netstack_step.cases)
    (auto split: nstk_pc.splits list.splits option.splits if_splits
      dest!: nstk_result_ctl pop_peer_ctl acked_ctl matched_ctl handle_processor_msg_ctl ck_next_ctl)

end
