(* ===== verification/NodeInv.thy ===== *)
theory NodeInv
  imports Control
begin

text \<open>
  The invariants of every reachable state of a node: one subroutine at a time goes from the
  handler to the processor and back, the applications known to the handler are the ones that
  have a memory, application ids are fresh, and physical qubits obey the ownership
  discipline.
\<close>

section \<open>The control invariant\<close>

text \<open>Where the subroutine is that the handler waits for.\<close>

definition handshake_ok :: "hand_pc \<Rightarrow> subroutine list \<Rightarrow> string list \<Rightarrow> subroutine option \<Rightarrow> bool" where
  "handshake_ok hp h2p p2h run \<longleftrightarrow>
     (case hp of
        HandIdle \<Rightarrow> h2p = [] \<and> p2h = [] \<and> run = None
      | HandAwaitProc a \<Rightarrow>
          (\<exists>s. sub_app_id s = a \<and> h2p = [s] \<and> p2h = [] \<and> run = None)
        \<or> (\<exists>s. sub_app_id s = a \<and> h2p = [] \<and> p2h = [] \<and> run = Some s)
        \<or> (h2p = [] \<and> p2h = [''subroutine done''] \<and> run = None))"

definition apps_ok :: "('rg, 'ar) node \<Rightarrow> bool" where
  "apps_ok n \<longleftrightarrow>
     dict_keys (applications n) = dict_keys (app_memories n) \<and> distinct (dict_keys (app_memories n))
     \<and> (\<forall>a \<in> set (dict_keys (app_memories n)) \<union> set (dict_keys (dropped_memories n)). a < app_counter n)
     \<and> set (dict_keys (app_memories n)) \<inter> set (dict_keys (dropped_memories n)) = {}
     \<and> (\<forall>(a, subs) \<in> set (applications n). \<forall>s \<in> set subs. sub_app_id s = a)
     \<and> (\<forall>a. hand_pc_of n = HandAwaitProc a \<longrightarrow> a \<in> set (dict_keys (app_memories n)))"

lemma apps_okI:
  assumes "dict_keys (applications n) = dict_keys (app_memories n)" and "distinct (dict_keys (app_memories n))"
    and "\<And>a. a \<in> set (dict_keys (app_memories n)) \<Longrightarrow> a < app_counter n \<and> a \<notin> set (dict_keys (dropped_memories n))"
    and "\<And>a. a \<in> set (dict_keys (dropped_memories n)) \<Longrightarrow> a < app_counter n"
    and "\<forall>(a, subs) \<in> set (applications n). \<forall>s \<in> set subs. sub_app_id s = a"
    and "\<And>a. hand_pc_of n = HandAwaitProc a \<Longrightarrow> a \<in> set (dict_keys (app_memories n))"
  shows "apps_ok n"
  using assms unfolding apps_ok_def by blast

lemma apps_okD:
  assumes "apps_ok n"
  shows "dict_keys (applications n) = dict_keys (app_memories n)" and "distinct (dict_keys (app_memories n))"
    and "a \<in> set (dict_keys (app_memories n)) \<Longrightarrow> a < app_counter n \<and> a \<notin> set (dict_keys (dropped_memories n))"
    and "a \<in> set (dict_keys (dropped_memories n)) \<Longrightarrow> a < app_counter n"
    and "\<forall>(a, subs) \<in> set (applications n). \<forall>s \<in> set subs. sub_app_id s = a"
    and "hand_pc_of n = HandAwaitProc a \<Longrightarrow> a \<in> set (dict_keys (app_memories n))"
  using assms unfolding apps_ok_def by blast+

definition control_ok :: "('rg, 'ar) node \<Rightarrow> bool" where
  "control_ok n \<longleftrightarrow> apps_ok n
     \<and> handshake_ok (hand_pc_of n) (hand_to_proc n) (proc_to_hand n) (running (proc_pc_of n))"

lemma control_ok_cong:
  assumes "ctl n' = ctl n" and "running (proc_pc_of n') = running (proc_pc_of n)"
  shows "control_ok n' = control_ok n"
  using ctl_eqD [OF assms(1)] assms(2) by (simp add: control_ok_def apps_ok_def)

lemma running_quiet: "running pc = None \<Longrightarrow> quiet_pc pc"
  by (cases pc) simp_all

lemma idle_quiet: "control_ok n \<Longrightarrow> hand_pc_of n = HandIdle \<Longrightarrow> quiet_pc (proc_pc_of n)"
  by (auto simp: control_ok_def handshake_ok_def intro: running_quiet)

section \<open>The processor\<close>

lemma execute_step_control:
  assumes "control_ok n" and "proc_pc_of n = ProcExec s" and "execute_subroutine_step P s n = Inr n'"
  shows "control_ok n'"
proof -
  from assms(3) consider
      (fin) "n' = n\<lparr>proc_to_hand := proc_to_hand n @ [''subroutine done''], proc_pc_of := ProcIdle\<rparr>"
    | (branch) i n1 where "interpret_branch_instr P (sub_app_id s) i n = Inr n1" "n' = n1\<lparr>proc_pc_of := ProcExec s\<rparr>"
    | (instr) i r where "interpret_instruction P s i n = Inr r" "after_instr s r = Inr n'"
    by (fastforce simp: execute_subroutine_step_def result_simps split: if_splits)
  then show ?thesis
  proof cases
    case fin
    have "handshake_ok (hand_pc_of n) [] [''subroutine done''] None \<and> hand_to_proc n = [] \<and> proc_to_hand n = []"
      using assms(1,2) by (auto simp: control_ok_def handshake_ok_def split: hand_pc.splits)
    moreover have "apps_ok n'" using assms(1) by (simp add: control_ok_def apps_ok_def fin)
    ultimately show ?thesis by (simp add: control_ok_def fin)
  next
    case branch
    then have "ctl n' = ctl n" using branch_ctl by fastforce
    then show ?thesis using control_ok_cong [of n' n] assms(1,2) by (simp add: branch(2))
  next
    case instr
    then show ?thesis
      using after_instr_ctl [OF instr(2) interpret_instruction_ctl [OF instr(1)]] control_ok_cong [of n' n] assms(1,2)
      by simp
  qed
qed

lemma processor_step_control:
  assumes "control_ok n" and "processor_step P e n = Some (Inr n')"
  shows "control_ok n'"
proof (cases "proc_pc_of n")
  case ProcIdle
  then obtain s rest n1 where h: "hand_to_proc n = s # rest"
      and n1: "on_mem (sub_app_id s) (\<lambda>m. Inr (set_prog_counter 0 m)) (n\<lparr>hand_to_proc := rest\<rparr>) = Inr n1"
      and n': "n' = n1\<lparr>proc_pc_of := ProcExec s\<rparr>"
    using assms(2) by (cases e) (auto simp: execute_subroutine_start_def result_simps split: list.splits)
  have c: "ctl n' = ctl (n\<lparr>hand_to_proc := rest\<rparr>)" using on_mem_ctl [OF n1] by (simp add: n')
  have "rest = []" "proc_to_hand n = []" "\<exists>a. hand_pc_of n = HandAwaitProc a \<and> sub_app_id s = a"
    using assms(1) ProcIdle h by (auto simp: control_ok_def handshake_ok_def split: hand_pc.splits)
  then show ?thesis using assms(1) ctl_eqD [OF c]
    by (auto simp: control_ok_def handshake_ok_def apps_ok_def n' split: hand_pc.splits)
next
  case (ProcExec s)
  then show ?thesis using assms execute_step_control by (cases e) auto
next
  case (ProcDevice s k)
  then obtain x r where "resume_device P s k x n = Inr r" "after_instr s r = Inr n'"
    using assms(2) by (cases e) (auto simp: result_simps)
  from after_instr_ctl [OF this(2) resume_device_ctl [OF this(1)]] show ?thesis
    using control_ok_cong [of n' n] assms(1) ProcDevice by simp
next
  case (ProcWaitAll s addr i j)
  then obtain rest r where "wait_all_check P s addr i j (n\<lparr>nstk_to_proc := rest\<rparr>) = Inr r" "after_instr s r = Inr n'"
    using assms(2) by (cases e) (auto simp: result_simps split: list.splits)
  from after_instr_ctl [OF this(2) wait_all_ctl [OF this(1)]] show ?thesis
    using control_ok_cong [of n' n] assms(1) ProcWaitAll by simp
next
  case (ProcBreak s role stage)
  then obtain msg rest r where "resume_breakpoint s role stage msg (n\<lparr>nstk_to_proc := rest\<rparr>) = Inr r"
      "after_instr s r = Inr n'"
    using assms(2) by (cases e) (auto simp: result_simps split: list.splits)
  from after_instr_ctl [OF this(2) breakpoint_ctl(2) [OF this(1)]] show ?thesis
    using control_ok_cong [of n' n] assms(1) ProcBreak by simp
qed

section \<open>The handler\<close>

text \<open>Between messages: nothing is on its way and the processor is idle.\<close>

definition settled :: "('rg, 'ar) node \<Rightarrow> bool" where
  "settled n \<longleftrightarrow> hand_to_proc n = [] \<and> proc_to_hand n = [] \<and> running (proc_pc_of n) = None"

lemma idle_settled: "control_ok n \<Longrightarrow> hand_pc_of n = HandIdle \<Longrightarrow> settled n"
  by (simp add: control_ok_def handshake_ok_def settled_def)

lemma apps_mem_iff: "apps_ok n \<Longrightarrow> a \<in> set (dict_keys (app_memories n)) \<longleftrightarrow> (\<exists>l. map_of (applications n) a = Some l)"
  unfolding apps_ok_def by (metis domIff dom_map_of_conv_image_fst list.set_map not_Some_eq)

lemma apps_subs:
  assumes "apps_ok n" and "map_of (applications n) a = Some l" and "s \<in> set l"
  shows "sub_app_id s = a"
  using assms map_of_SomeD [OF assms(2)] by (auto simp: apps_ok_def)

lemma update_subs:
  assumes "\<forall>(a, subs) \<in> set d. \<forall>s \<in> set subs. sub_app_id s = a" and "\<forall>s \<in> set l. sub_app_id s = b" and "dict_ok d"
  shows "\<forall>(a, subs) \<in> set (AList.update b l d). \<forall>s \<in> set subs. sub_app_id s = a"
proof safe
  fix a subs s assume x: "(a, subs) \<in> set (AList.update b l d)" "s \<in> set subs"
  have "dict_ok (AList.update b l d)" using assms(3) by simp
  from map_of_is_SomeI [OF this x(1)] have "(if a = b then subs = l else map_of d a = Some subs)"
    by (auto simp del: map_of_eq_Some_iff split: if_splits)
  then show "sub_app_id s = a" using assms(1,2) x(2) by (auto dest!: map_of_SomeD split: if_splits)
qed

lemma delete_subs:
  assumes "\<forall>(a, subs) \<in> set d. \<forall>s \<in> set subs. sub_app_id s = a"
  shows "\<forall>(a, subs) \<in> set (AList.delete b d). \<forall>s \<in> set subs. sub_app_id s = a"
  using assms by (auto simp: AList.delete_eq)

lemma apps_ok_cong:
  assumes "ctl n' = ctl n"
  shows "apps_ok n' = apps_ok n"
  using ctl_eqD [OF assms] by (simp add: apps_ok_def)

lemma flush_next_control:
  assumes "apps_ok n" and "settled n" and "a \<in> set (dict_keys (app_memories n))" and "flush_next a n = Inr n'"
  shows "control_ok n'"
proof -
  obtain l where l: "map_of (applications n) a = Some l" using apps_mem_iff [OF assms(1)] assms(3) by blast
  have keys: "a \<in> set (dict_keys (applications n))" using assms(1,3) by (simp add: apps_ok_def)
  show ?thesis
  proof (cases "app_next_subroutine l")
    case None
    then have "n' = n\<lparr>hand_pc_of := HandIdle\<rparr>" using assms(4) l by (simp add: flush_next_def dict_get_def)
    then show ?thesis using assms(1,2) by (simp add: control_ok_def apps_ok_def settled_def handshake_ok_def)
  next
    case (Some sr)
    obtain s rest where sr: "sr = (s, rest)" by (cases sr)
    have sub: "sub_app_id s = a" "\<forall>t \<in> set rest. sub_app_id t = a"
      using Some sr apps_subs [OF assms(1) l] by (auto simp: app_next_subroutine_def dest: in_set_butlastD split: if_splits)
    have n': "n' = n\<lparr>applications := AList.update a rest (applications n),
                  hand_to_proc := hand_to_proc n @ [s], hand_pc_of := HandAwaitProc a\<rparr>"
      using assms(4) l Some sr by (simp add: flush_next_def dict_get_def)
    have "\<forall>(b, subs) \<in> set (AList.update a rest (applications n)). \<forall>s \<in> set subs. sub_app_id s = b"
      using assms(1) sub(2) by (intro update_subs) (simp_all add: apps_ok_def)
    then have "apps_ok n'"
      using assms(1,3) dict_keys_update_in [OF keys] by (simp add: apps_ok_def n')
    then show ?thesis using assms(2) sub(1) by (simp add: control_ok_def settled_def handshake_ok_def n')
  qed
qed

lemma init_new_app_control:
  assumes "apps_ok n" and "init_new_app P k n = (a, n')" and "hand_pc_of n = HandIdle"
  shows "apps_ok n' \<and> a = app_counter n \<and> a \<notin> set (dict_keys (app_memories n)) \<union> set (dict_keys (dropped_memories n))"
proof -
  have fresh: "app_counter n \<notin> set (dict_keys (app_memories n)) \<union> set (dict_keys (dropped_memories n))"
    using assms(1) by (auto simp: apps_ok_def)
  have f2: "app_counter n \<notin> set (dict_keys (applications n))" using fresh assms(1) by (simp add: apps_ok_def)
  have n': "n' = n\<lparr>app_counter := app_counter n + 1,
      app_memories := app_memories n @ [(app_counter n, AppMemory (shm P) (app_counter n) (qubit_count (physical_memory n)))],
      applications := applications n @ [(app_counter n, [])]\<rparr>"
    using assms(2) fresh f2 by (auto simp: init_new_app_def Let_def dict_keys_update_new)
  have "apps_ok n'"
  proof (rule apps_okI)
    show "b < app_counter n' \<and> b \<notin> set (dict_keys (dropped_memories n'))"
      if "b \<in> set (dict_keys (app_memories n'))" for b
    proof -
      have "b \<in> insert (app_counter n) (set (dict_keys (app_memories n)))" using that by (simp add: n')
      then show ?thesis using apps_okD(3) [OF assms(1), of b] fresh by (auto simp: n' simp del: set_map)
    qed
    show "b < app_counter n'" if "b \<in> set (dict_keys (dropped_memories n'))" for b
      using apps_okD(4) [OF assms(1), of b] that by (simp add: n')
  qed (use apps_okD(1,2,5) [OF assms(1)] fresh assms(3) in \<open>simp_all add: n'\<close>)
  then show ?thesis using fresh assms(2) by (auto simp: init_new_app_def Let_def)
qed

lemma clear_application_frames:
  assumes "clear_application a n = Inr n'"
  shows "hand_to_proc n' = hand_to_proc n \<and> proc_to_hand n' = proc_to_hand n"
proof -
  obtain m n1 m1 where "get_mem a n = Inr m" and x: "forE (clear_qubit a) (am_virt_qubits m) n = Inr n1"
    and n': "n' = n1\<lparr>app_memories := AList.delete a (app_memories n1),
             dropped_memories := AList.update a m1 (dropped_memories n1)\<rparr>"
    using assms by (auto simp: clear_application_def result_simps)
  have "hand_to_proc n1 = hand_to_proc n \<and> proc_to_hand n1 = proc_to_hand n"
  proof (rule forE_invariant [OF x])
    fix vp u v
    assume p: "hand_to_proc u = hand_to_proc n \<and> proc_to_hand u = proc_to_hand n"
      and c: "clear_qubit a vp u = Inr v"
    have "ctl v = ctl u"
      using c by (auto simp: clear_qubit_def result_simps split: option.splits dest!: node_op_frames)
    then show "hand_to_proc v = hand_to_proc n \<and> proc_to_hand v = proc_to_hand n" using p ctl_eqD by metis
  qed simp
  then show ?thesis by (simp add: n')
qed

lemma stop_application_control:
  assumes "control_ok n" and "mem_struct n" and "hand_pc_of n = HandIdle" and "stop_application a n = Inr n'"
  shows "apps_ok n' \<and> settled n'"
proof (cases "should_clear_memory n")
  case False
  then have "n' = n" using assms(4) by (simp add: stop_application_def)
  then show ?thesis using assms(1) idle_settled [OF assms(1,3)] by (simp add: control_ok_def)
next
  case True
  then obtain n1 where x: "clear_application a n = Inr n1"
      "n' = n1\<lparr>applications := AList.delete a (applications n1)\<rparr>"
    using assms(4) by (auto simp: stop_application_def result_simps)
  have q: "quiet_pc (proc_pc_of n)" using assms(1,3) by (rule idle_quiet)
  note c = clear_application_step [OF assms(2) q x(1)]
  have ap: "apps_ok n" using assms(1) by (simp add: control_ok_def)
  have "a \<in> set (dict_keys (app_memories n))"
    using x(1) get_mem_live by (auto simp: clear_application_def result_simps)
  note live = this
  have n': "dict_keys (app_memories n') = removeAll a (dict_keys (app_memories n))"
    "set (dict_keys (dropped_memories n')) = insert a (set (dict_keys (dropped_memories n)))"
    "app_counter n' = app_counter n" "hand_pc_of n' = hand_pc_of n"
    "applications n' = AList.delete a (applications n)"
    using c by (simp_all add: x(2))
  have "apps_ok n'"
  proof (rule apps_okI)
    show "dict_keys (applications n') = dict_keys (app_memories n')"
      using apps_okD(1) [OF ap] by (simp add: n' delete_keys)
    show "distinct (dict_keys (app_memories n'))"
      using apps_okD(2) [OF ap] by (simp only: n' distinct_removeAll)
    show "b < app_counter n' \<and> b \<notin> set (dict_keys (dropped_memories n'))"
      if "b \<in> set (dict_keys (app_memories n'))" for b
      using apps_okD(3) [OF ap, of b] that unfolding n' by simp
    show "b < app_counter n'" if "b \<in> set (dict_keys (dropped_memories n'))" for b
      using apps_okD(3,4) [OF ap] live that unfolding n' by blast
    show "\<forall>(a, subs) \<in> set (applications n'). \<forall>s \<in> set subs. sub_app_id s = a"
      unfolding n' by (rule delete_subs [OF apps_okD(5) [OF ap]])
  qed (use assms(3) n'(4) in simp)
  moreover have "settled n'"
    using idle_settled [OF assms(1,3)] c clear_application_frames [OF x(1)] by (simp add: settled_def x(2))
  ultimately show ?thesis by simp
qed

lemma msg_from_host_control:
  assumes "control_ok n" and "mem_struct n" and "hand_pc_of n = HandIdle" and "msg_from_host P msg n = Inr n'"
  shows "apps_ok n' \<and> settled n'"
proof -
  have ap: "apps_ok n" using assms(1) by (simp add: control_ok_def)
  have st: "settled n" using assms(1,3) by (rule idle_settled)
  show ?thesis
  proof (cases msg)
    case (InitNewAppMessage k)
    obtain a n1 where n1: "init_new_app P k n = (a, n1)" by (cases "init_new_app P k n")
    then have "n' = send_host_msg (AppIdReply a) n1" using assms(4) InitNewAppMessage by simp
    moreover have "settled n1" using st n1 by (auto simp: settled_def init_new_app_def Let_def)
    ultimately show ?thesis using init_new_app_control [OF ap n1 assms(3)]
      by (simp add: apps_ok_def settled_def send_host_msg_def)
  next
    case (OpenEPRSocketMessage a sck rem)
    then have n': "n' = open_epr_socket a sck rem n" using assms(4) by simp
    then have "ctl n' = ctl n" by (simp add: open_epr_socket_def Let_def ctl_def)
    then show ?thesis using apps_ok_cong ap st
      by (auto simp: n' open_epr_socket_def Let_def settled_def)
  next
    case (SubroutineMessage raw)
    then obtain s l where s: "map_of (applications n) (sub_app_id s) = Some l"
        "n' = n\<lparr>applications := AList.update (sub_app_id s) (app_add_subroutine s l) (applications n)\<rparr>"
      using assms(4) by (auto simp: add_subroutine_def result_simps)
    have k: "sub_app_id s \<in> set (dict_keys (applications n))"
      using s(1) by (metis domI dom_map_of_conv_image_fst list.set_map)
    have "\<forall>(b, subs) \<in> set (AList.update (sub_app_id s) (app_add_subroutine s l) (applications n)).
        \<forall>t \<in> set subs. sub_app_id t = b"
      using ap apps_subs [OF ap s(1)] by (intro update_subs) (auto simp: apps_ok_def app_add_subroutine_def)
    then have "apps_ok n'" using ap dict_keys_update_in [OF k] by (simp add: apps_ok_def s(2))
    then show ?thesis using st by (simp add: settled_def s(2))
  next
    case (StopAppMessage a)
    then show ?thesis using stop_application_control [OF assms(1-3)] assms(4) by simp
  next
    case OtherHostMessage
    then show ?thesis using assms(4) ap st by simp
  qed
qed

lemma handler_step_control:
  assumes "control_ok n" and "mem_struct n" and "handler_step P n = Some (Inr n')"
  shows "control_ok n'"
proof (cases "hand_pc_of n")
  case (HandAwaitProc a)
  then obtain msg rest where x: "proc_to_hand n = msg # rest"
      "flush_next a (send_host_msg (AppMemReply a) (n\<lparr>proc_to_hand := rest\<rparr>)) = Inr n'"
    using assms(3) by (auto simp: handler_step_def processor_done_def result_simps split: list.splits)
  have "rest = []" "hand_to_proc n = []" "running (proc_pc_of n) = None"
    using assms(1) HandAwaitProc x(1) by (auto simp: control_ok_def handshake_ok_def)
  moreover have "a \<in> set (dict_keys (app_memories n))"
    using assms(1) HandAwaitProc by (simp add: control_ok_def apps_ok_def)
  ultimately show ?thesis using assms(1)
    by (intro flush_next_control [OF _ _ _ x(2)])
      (simp_all add: control_ok_def apps_ok_def settled_def send_host_msg_def)
next
  case HandIdle
  then obtain raw rest where "host_to_hand n = raw # rest" "handle_host_msg P raw (n\<lparr>host_to_hand := rest\<rparr>) = Inr n'"
    using assms(3) by (auto simp: handler_step_def split: list.splits)
  then obtain msg n1 where x: "msg_from_host P msg (n\<lparr>host_to_hand := rest\<rparr>) = Inr n1"
      "(case next_app n1 of None \<Rightarrow> Inr (n1\<lparr>hand_pc_of := HandIdle\<rparr>) | Some a \<Rightarrow> flush_next a n1) = Inr n'"
    by (auto simp: handle_host_msg_def result_simps)
  let ?n = "n\<lparr>host_to_hand := rest\<rparr>"
  have "control_ok ?n" using assms(1) by (simp add: control_ok_def apps_ok_def)
  moreover have "mem_struct ?n" using assms(2) mem_struct_qv [of ?n n] by simp
  ultimately have s: "apps_ok n1 \<and> settled n1" using HandIdle by (intro msg_from_host_control [OF _ _ _ x(1)]) simp_all
  show ?thesis
  proof (cases "next_app n1")
    case None
    then have n': "n' = n1\<lparr>hand_pc_of := HandIdle\<rparr>" using x(2) by simp
    then have "apps_ok n'" using s by (simp add: apps_ok_def)
    then show ?thesis using s by (simp add: n' control_ok_def settled_def handshake_ok_def)
  next
    case (Some a)
    then have "a \<in> set (dict_keys (applications n1))"
      by (cases "applications n1") (auto simp: next_app_def)
    moreover have "dict_keys (applications n1) = dict_keys (app_memories n1)"
      using s by (simp add: apps_ok_def)
    ultimately have "a \<in> set (dict_keys (app_memories n1))" by (simp only:)
    then show ?thesis using x(2) s Some by (intro flush_next_control) simp_all
  qed
qed

section \<open>Every reachable state\<close>

definition node_inv :: "('rg, 'ar) node \<Rightarrow> bool" where
  "node_inv n \<longleftrightarrow> mem_struct n \<and> pc_ok (proc_pc_of n) \<and> owners_ok (own n) \<and> control_ok n"

lemma register_peer_view:
  assumes "register_peer i n = Inr n'"
  shows "qv n' = qv n \<and> ctl n' = ctl n \<and> proc_pc_of n' = proc_pc_of n"
  using assms
  by (auto simp: register_peer_def register_peer_listener_def register_peer_port_def result_simps ctl_def)

lemma deliver_peer_view:
  assumes "deliver_peer_msg i msg n = Some n'"
  shows "qv n' = qv n \<and> ctl n' = ctl n \<and> proc_pc_of n' = proc_pc_of n"
  using assms by (auto simp: deliver_peer_msg_def ctl_def split: option.splits)

lemma env_step_view:
  assumes "node_step P e n = Some (Inr n')" and "e \<noteq> HandlerEvent" "\<forall>x. e \<noteq> ProcessorEvent x"
    "\<forall>y. e \<noteq> NetstackEvent y"
  shows "qv n' = qv n \<and> ctl n' = ctl n \<and> proc_pc_of n' = proc_pc_of n"
proof (cases e)
  case (FromHost raw)
  then have "n' = n\<lparr>host_to_hand := host_to_hand n @ [raw]\<rparr>" using assms(1) by simp
  then show ?thesis by simp
next
  case (FromPeer i msg)
  then have "deliver_peer_msg i msg n = Some n'" using assms(1) by auto
  then show ?thesis by (rule deliver_peer_view)
next
  case (RegisterPeer i)
  then have "register_peer i n = Inr n'" using assms(1) by simp
  then show ?thesis by (rule register_peer_view)
next
  case (AssignEgp r x)
  then have "n' = n\<lparr>egps := AList.update r x (egps n)\<rparr>" using assms(1) by (simp add: assign_egp_def)
  then show ?thesis by (simp add: ctl_def)
next
  case (SetShouldClear b)
  then have "n' = n\<lparr>should_clear_memory := b\<rparr>" using assms(1) by simp
  then show ?thesis by (simp add: ctl_def)
qed (use assms in auto)

lemma node_step_keeps:
  assumes "node_inv n" and "node_step P e n = Some (Inr n')"
  shows "keeps_owners n n' \<and> control_ok n'"
proof -
  have i: "mem_struct n" "pc_ok (proc_pc_of n)" "control_ok n" using assms(1) by (simp_all add: node_inv_def)
  consider (h) "e = HandlerEvent" | (p) x where "e = ProcessorEvent x" | (s) y where "e = NetstackEvent y"
    | (env) "e \<noteq> HandlerEvent" "\<forall>x. e \<noteq> ProcessorEvent x" "\<forall>y. e \<noteq> NetstackEvent y" by blast
  then show ?thesis
  proof cases
    case h
    then have "handler_step P n = Some (Inr n')" using assms(2) by simp
    then show ?thesis using handler_step_keeps [OF i(1,2) idle_quiet [OF i(3)]] handler_step_control [OF i(3,1)]
      by simp
  next
    case p
    then have "processor_step P x n = Some (Inr n')" using assms(2) by simp
    then show ?thesis using processor_step_keeps [OF i(1,2)] processor_step_control [OF i(3)] by simp
  next
    case s
    then have st: "netstack_step P y n = Some (Inr n')" using assms(2) by simp
    have "control_ok n'" using netstack_step_ctl [OF st] control_ok_cong [of n' n] i(3) by simp
    then show ?thesis using netstack_step_keeps [OF i(1,2) st] by simp
  next
    case env
    then have "qv n' = qv n \<and> ctl n' = ctl n \<and> proc_pc_of n' = proc_pc_of n"
      by (intro env_step_view [OF assms(2)])
    then show ?thesis using keeps_owners_same_pc [of n' n] i control_ok_cong [of n' n] by simp
  qed
qed

lemma node_inv_step:
  assumes "node_inv n" and "node_step P e n = Some (Inr n')"
  shows "node_inv n'"
proof -
  note k = node_step_keeps [OF assms]
  have "owners_ok (own n')"
    using k assms(1) by (auto simp: keeps_owners_def node_inv_def intro: owner_steps_ok)
  then show ?thesis using k by (simp add: node_inv_def keeps_owners_def)
qed

lemma new_node_simps:
  "physical_memory (new_node hw pm) = pm" "nstk_pc_of (new_node hw pm) = NstkIdle"
  "proc_pc_of (new_node hw pm) = ProcIdle"
  by (simp_all add: new_node_def)

lemma node_inv_init:
  assumes "hw = GenericHardware \<and> (\<exists>k. pm = PhysicalQuantumMemory k)
            \<or> hw = NVHardware \<and> (\<exists>k. pm = NVPhysicalQuantumMemory k)"
  shows "node_inv (new_node hw pm :: ('rg, 'ar) node)"
proof -
  let ?n = "new_node hw pm :: ('rg, 'ar) node"
  have "vmap ?n = (\<lambda>a. Map.empty)"
    by (simp add: vmap_def [abs_def] mem_at_def new_node_def)
  moreover have "claims_of (\<lambda>a. Map.empty) None ProcIdle = Map.empty"
  proof
    fix h show "claims_of (\<lambda>a. Map.empty) None ProcIdle h = Map.empty h" by (cases h) simp_all
  qed
  ultimately have "own ?n = (Map.empty, used pm)"
    by (simp only: own_def new_node_simps reserved.simps)
  then have "owners_ok (own ?n)" by (simp add: owners_ok_def)
  moreover have "mem_struct ?n"
  proof -
    have "phys_ok pm" using assms by auto
    moreover have "hw = NVHardware \<longrightarrow> comm_qubit_ids pm = {0}"
      using assms by (auto simp: NVPhysicalQuantumMemory_def)
    ultimately show ?thesis by (simp add: mem_struct_def new_node_def vdict_def mem_at_def)
  qed
  moreover have "control_ok ?n"
    by (simp add: control_ok_def apps_ok_def handshake_ok_def new_node_def)
  ultimately show ?thesis by (simp add: node_inv_def) (simp add: new_node_def)
qed

lemma reachable_inv:
  assumes "reachable P n"
  shows "node_inv n"
  using assms
proof (induction rule: reachable_induct_step)
  case (init hw pm)
  then show ?case by (rule node_inv_init)
next
  case (step n e n')
  then show ?case using node_inv_step by blast
qed

text \<open>What the invariant says of one mapped virtual qubit.\<close>

lemma node_inv_mapped:
  assumes "node_inv n" and "vmap n a v = Some p"
  shows "p \<in> used (physical_memory n)" and "p \<in> positions (physical_memory n)"
    and "vmap n b w = Some p \<Longrightarrow> b = a \<and> w = v" and "reserved (nstk_pc_of n) \<noteq> Some p"
proof -
  have i: "owners_ok (own n)" "mem_struct n" using assms(1) by (simp_all add: node_inv_def)
  note ok = i(1) [unfolded own_def]
  have c: "claims_of (vmap n) r pc (HMapped a v) = Some p" for r pc using assms(2) by simp
  show u: "p \<in> used (physical_memory n)" by (rule owners_okD(2) [OF ok c])
  show "p \<in> positions (physical_memory n)"
    using i(2) u by (auto simp: mem_struct_def phys_ok_def)
  show "vmap n b w = Some p \<Longrightarrow> b = a \<and> w = v"
    using owners_okD(1) [OF ok c, of "HMapped b w"] by simp
  show "reserved (nstk_pc_of n) \<noteq> Some p"
    using owners_okD(1) [OF ok c, of HNetstack] by auto
qed

end
