(* ===== verification/Example.thy ===== *)
theory Example
  imports NodeInv
begin

text \<open>
  Concrete parameters and runs on which the properties of a node are witnessed: a codec that
  names a few messages, the indices of NetQASM's serialised requests, and the shared memory
  of \<open>Operands\<close>.  Nothing in the model depends on this theory.
\<close>

definition reg_R :: "int \<Rightarrow> reg" where
  "reg_R i = Register RegR i"

definition reg_Q :: "int \<Rightarrow> reg" where
  "reg_Q i = Register RegQ i"

definition reg_M :: "int \<Rightarrow> reg" where
  "reg_M i = Register RegM i"

text \<open>
  A request to create and keep one pair with node \<open>1\<close>: arguments in array \<open>1\<close>, virtual qubits in
  \<open>2\<close>, results in \<open>3\<close>.
\<close>

definition ex_create_epr :: "instr list" where
  "ex_create_epr =
     [SetI (reg_R 5) 2, Array (reg_R 5) 1, SetI (reg_R 6) 0, Store (reg_R 6) (ArrayEntry 1 (IntIndex 0)),
      SetI (reg_R 7) 1, Store (reg_R 7) (ArrayEntry 1 (IntIndex 1)),
      Array (reg_R 7) 2, Store (reg_R 6) (ArrayEntry 2 (IntIndex 0)),
      SetI (reg_R 9) 10, Array (reg_R 9) 3,
      SetI (reg_R 0) 1, SetI (reg_R 1) 0, SetI (reg_R 2) 2, SetI (reg_R 3) 1, SetI (reg_R 4) 3,
      CreateEPR (reg_R 0) (reg_R 1) (reg_R 2) (reg_R 3) (reg_R 4)]"

text \<open>Subroutines of application \<open>0\<close>, by name.\<close>

definition ex_subroutine :: "string \<Rightarrow> instr list" where
  "ex_subroutine raw =
     (if raw = ''alloc'' then [SetI (reg_Q 0) 0, QAlloc (reg_Q 0), Init (reg_Q 0)]
      else if raw = ''two'' then [SetI (reg_Q 0) 0, QAlloc (reg_Q 0), SetI (reg_Q 1) 1, QAlloc (reg_Q 1)]
      else if raw = ''meas'' then [Meas (reg_Q 1) (reg_M 0)]
      else if raw = ''create'' then [SetI (reg_Q 1) 1, QAlloc (reg_Q 1)] @ ex_create_epr @ [Meas (reg_Q 1) (reg_M 0)]
      else if raw = ''block'' then [SetI (reg_Q 0) 0, QAlloc (reg_Q 0)] @ ex_create_epr @ [QFree (reg_Q 0)]
      else if raw = ''keep'' then ex_create_epr @ [SetI (reg_R 10) 0, SetI (reg_R 11) 10,
         WaitAll (ArraySlice 3 (RegIndex (reg_R 10)) (RegIndex (reg_R 11)))]
      else if raw = ''free'' then [QFree (reg_Q 0)]
      else [])"

definition ex_codec :: codec where
  "ex_codec = \<lparr>
     deserialize_host_msg = (\<lambda>raw. Inr (if raw = ''init'' then InitNewAppMessage 2
        else if raw = ''stop'' then StopAppMessage 0
        else if raw = ''socket'' then OpenEPRSocketMessage 0 0 1
        else SubroutineMessage raw)),
     deser_subroutine = (\<lambda>fl raw. Inr \<lparr>sub_app_id = 0, sub_instrs = ex_subroutine raw\<rparr>)\<rparr>"

definition ex_ser :: ser_indices where
  "ex_ser = \<lparr>ser_create_type = 0, ser_create_number = 1, ser_keep_goodness = 7, ser_keep_bell_state = 9,
     ser_keep_len = 10, ser_measure_outcome = 2, ser_measure_basis = 3, ser_measure_len = 10\<rparr>"

definition ex_P :: "(ex_regs, ex_arrays) netqasm" where
  "ex_P = \<lparr>shm = ex_shmem, conds = ex_cond, ser = ex_ser, codecs = ex_codec, none_address = TypeError\<rparr>"

definition generic_device :: "(ex_regs, ex_arrays) node" where
  "generic_device = new_node GenericHardware (PhysicalQuantumMemory 2)"

definition nv_device :: "(ex_regs, ex_arrays) node" where
  "nv_device = new_node NVHardware (NVPhysicalQuantumMemory 3)"

definition after_events :: "node_event list \<Rightarrow> (ex_regs, ex_arrays) node \<Rightarrow> (ex_regs, ex_arrays) node" where
  "after_events es n = (case run_events ex_P es n of Inl e \<Rightarrow> n | Inr n' \<Rightarrow> n')"

text \<open>A host message and the handler's step, and \<open>k\<close> steps of the processor.\<close>

definition host_says :: "string \<Rightarrow> node_event list" where
  "host_says raw = [FromHost raw, HandlerEvent]"

definition proc_runs :: "nat \<Rightarrow> node_event list" where
  "proc_runs k = replicate k (ProcessorEvent ProcGo)"

lemma devices_reachable: "reachable ex_P generic_device" "reachable ex_P nv_device"
proof -
  have "Qnos ''generic'' 2 = Inr generic_device" "Qnos ''nv'' 3 = Inr nv_device"
    by (simp_all add: Qnos_def generic_device_def nv_device_def)
  then show "reachable ex_P generic_device" "reachable ex_P nv_device" by (blast intro: reachable.start)+
qed

lemma after_events_reachable:
  assumes "reachable ex_P n"
  shows "reachable ex_P (after_events es n)"
proof (cases "run_events ex_P es n")
  case (Inl e)
  then show ?thesis using assms by (simp add: after_events_def)
next
  case (Inr n')
  then show ?thesis using run_events_reachable [OF assms] by (simp add: after_events_def)
qed

text \<open>A generic device where application \<open>0\<close> has allocated and initialises a qubit.\<close>

definition ex_running :: "(ex_regs, ex_arrays) node" where
  "ex_running = after_events (host_says ''init'' @ host_says ''alloc'' @ proc_runs 4) generic_device"

text \<open>An NV device where it has two qubits, and then starts to measure the second.\<close>

definition ex_two :: "(ex_regs, ex_arrays) node" where
  "ex_two = after_events (host_says ''init'' @ host_says ''two'' @ proc_runs 6 @ [HandlerEvent]) nv_device"

definition ex_meas :: "(ex_regs, ex_arrays) node" where
  "ex_meas = after_events (host_says ''meas'' @ proc_runs 2) ex_two"

lemma ex_reachable: "reachable ex_P ex_running" "reachable ex_P ex_two" "reachable ex_P ex_meas"
  by (simp_all add: ex_running_def ex_two_def ex_meas_def after_events_reachable devices_reachable)

text \<open>
  An NV device that has asked node \<open>1\<close> for a pair: its network stack holds the electron while
  it waits for the EGP, and the processor is about to measure a carbon.
\<close>

definition ex_request :: "string \<Rightarrow> nat \<Rightarrow> node_event list" where
  "ex_request raw k = [RegisterPeer 1, AssignEgp 1 0] @ host_says ''init'' @ host_says ''socket''
      @ host_says raw @ proc_runs k
      @ [NetstackEvent (NstkGo 0), FromPeer 1 (PeerText ''ready''), NetstackEvent (NstkGo 1000)]"

definition ex_waiting :: "(ex_regs, ex_arrays) node" where
  "ex_waiting = after_events (ex_request ''create'' 19) nv_device"

text \<open>The same request while the electron is taken, which the processor is about to free.\<close>

definition ex_blocked :: "(ex_regs, ex_arrays) node" where
  "ex_blocked = after_events (ex_request ''block'' 19) nv_device"

text \<open>And on a generic device, where the processor waits for the results.\<close>

definition ex_keeping :: "(ex_regs, ex_arrays) node" where
  "ex_keeping = after_events (ex_request ''keep'' 20) generic_device"

lemma ex_request_reachable: "reachable ex_P ex_waiting" "reachable ex_P ex_blocked" "reachable ex_P ex_keeping"
  by (simp_all add: ex_waiting_def ex_blocked_def ex_keeping_def after_events_reachable devices_reachable)

end
