(* ===== verification/NodeProps.thy ===== *)
theory NodeProps
  imports Example
begin

text \<open>
  Properties of a node in every state it can reach, whatever the hosts, the other nodes and
  the device do and however its protocols interleave.
\<close>

text \<open>
  C1: in every reachable state a held physical qubit has one holder.  Holders are the virtual
  qubits of the applications, the network stack for a pair it waits for, and the processor
  while it moves a qubit.  A position some holder has is allocated, is on the device, and no
  other holder has it: at most one virtual qubit of all applications maps to it, and none does
  if the network stack reserves it or the processor is about to move a qubit there.
\<close>

theorem qubits_exclusive:
  assumes "reachable P n" and "fst (own n) h = Some p"
  shows "p \<in> used (physical_memory n) \<and> p \<in> positions (physical_memory n)
     \<and> (\<forall>h'. fst (own n) h' = Some p \<longrightarrow> h' = h)
     \<and> (\<forall>a v. vmap n a v = Some p \<longrightarrow> h = HMapped a v)
     \<and> (reserved (nstk_pc_of n) = Some p \<longrightarrow> h = HNetstack)
     \<and> (moving (proc_pc_of n) = Some p \<longrightarrow> h = HNew)"
proof -
  have i: "owners_ok (own n)" "mem_struct n"
    using reachable_inv [OF assms(1)] by (simp_all add: node_inv_def)
  obtain c where o: "own n = (c, used (physical_memory n))" by (simp add: own_def)
  have c: "c = claims_of (vmap n) (reserved (nstk_pc_of n)) (proc_pc_of n)" using o by (simp add: own_def)
  note ok = i(1) [unfolded o]
  have h: "c h = Some p" using assms(2) o by simp
  have one: "h' = h" if "c h' = Some p" for h' using owners_okD(1) [OF ok that h] .
  have u: "p \<in> used (physical_memory n)" by (rule owners_okD(2) [OF ok h])
  moreover have "p \<in> positions (physical_memory n)" using i(2) u by (auto simp: mem_struct_def phys_ok_def)
  moreover have "h = HMapped a v" if "vmap n a v = Some p" for a v using one [of "HMapped a v"] that c by simp
  moreover have "h = HNetstack" if "reserved (nstk_pc_of n) = Some p" using one [of HNetstack] that c by simp
  moreover have "h = HNew" if "moving (proc_pc_of n) = Some p" using one [of HNew] that c by simp
  ultimately show ?thesis using one o by simp
qed

theorem qubits_exclusive_witness:
  "fst (own ex_two) (HMapped 0 (Some 1)) = Some 1 \<and> 1 \<in> used (physical_memory ex_two)
   \<and> vmap ex_two 0 (Some 0) \<noteq> Some 1 \<and> reserved (nstk_pc_of ex_two) \<noteq> Some 1"
proof -
  have m: "vmap ex_two 0 (Some 1) = Some 1" by code_simp
  have h: "fst (own ex_two) (HMapped 0 (Some 1)) = Some 1" unfolding own_def using m by (simp only: fst_conv claims_of.simps)
  note q = qubits_exclusive [OF ex_reachable(2) h]
  have "vmap ex_two 0 (Some 0) \<noteq> Some 1"
  proof
    assume "vmap ex_two 0 (Some 0) = Some 1"
    with q have "HMapped 0 (Some 1) = HMapped 0 (Some 0)" by blast
    then show False by simp
  qed
  moreover have "reserved (nstk_pc_of ex_two) \<noteq> Some 1" using q by blast
  ultimately show ?thesis using h q by blast
qed

text \<open>
  An allocated position may have no holder.  \<open>qalloc\<close> does not look whether its virtual qubit is
  mapped already; the second \<open>qalloc\<close> of virtual qubit \<open>0\<close> takes another position, and the
  first one stays allocated although no virtual qubit maps to it any more.
\<close>

lemma realloc_leaks:
  "let n = after_events ([ProcessorEvent (ProcDeviceDone 0), ProcessorEvent ProcGo, HandlerEvent]
       @ host_says ''alloc'' @ proc_runs 4) ex_running in
     vmap ex_running 0 (Some 0) = Some 0 \<and> vmap n 0 (Some 0) = Some 1
     \<and> vmap n 0 (Some 1) = None \<and> used (physical_memory n) = {0, 1}"
  by code_simp

text \<open>
  C2: the node refines the ownership machine.  Whatever event occurs in a reachable state,
  the step it causes is, seen through \<open>own\<close>, a sequence of taking a free position, releasing
  one that is held, handing one over, or forgetting a claim.
\<close>

theorem node_refines_ownership:
  assumes "reachable P n" and "node_step P e n = Some (Inr n')"
  shows "owner_steps (own n) (own n')"
  using node_step_keeps [OF reachable_inv [OF assms(1)] assms(2)] by (simp add: keeps_owners_def)

theorem node_refines_ownership_witness:
  "\<exists>n'. node_step ex_P (ProcessorEvent ProcGo) ex_meas = None
     \<and> node_step ex_P (ProcessorEvent (ProcDeviceDone 0)) ex_meas = Some (Inr n')
     \<and> owner_steps (own ex_meas) (own n')"
proof -
  have "case node_step ex_P (ProcessorEvent (ProcDeviceDone 0)) ex_meas of Some (Inr n') \<Rightarrow> True | _ \<Rightarrow> False"
    by code_simp
  then obtain n' where n': "node_step ex_P (ProcessorEvent (ProcDeviceDone 0)) ex_meas = Some (Inr n')"
    by (auto split: option.splits sum.splits)
  moreover have "case node_step ex_P (ProcessorEvent ProcGo) ex_meas of None \<Rightarrow> True | _ \<Rightarrow> False" by code_simp
  then have "node_step ex_P (ProcessorEvent ProcGo) ex_meas = None" by (auto split: option.splits)
  ultimately show ?thesis using node_refines_ownership [OF ex_reachable(3) n'] by blast
qed

text \<open>
  Stopping an application: the loop of \<open>clear_application\<close> frees a position per mapped
  virtual qubit, and in a reachable state none of these frees can fail.
\<close>

lemma clear_loop_returns:
  assumes "mem_struct n" and "quiet_pc (proc_pc_of n)" and "owners_ok (own n)"
    and "distinct (map fst xs)" and "\<And>v x. (v, x) \<in> set xs \<Longrightarrow> vmap n a v = x"
    and "a \<in> set (dict_keys (app_memories n))"
  shows "\<exists>n'. forE (clear_qubit a) xs n = Inr n'"
  using assms
proof (induction xs arbitrary: n)
  case Nil
  then show ?case by simp
next
  case (Cons vx xs)
  obtain v x where vx: "vx = (v, x)" by (cases vx)
  have vm: "vmap n a v = x" using Cons.prems(5) vx by auto
  obtain m where m: "get_mem a n = Inr m"
    using Cons.prems(6) by (metis get_mem_def dict_get_eq_Inr domD dom_map_of_conv_image_fst list.set_map)
  have "mem_struct (put_mem a (unmap_virt_id v m) n)"
    using mem_structD(3) [OF Cons.prems(1) get_mem_mem_at [OF m]] by (intro mem_struct_put(1) [OF Cons.prems(1)]) simp
  moreover have "p \<in> used (physical_memory n)" if "x = Some p" for p
    using owners_okD(2) [of _ _ "HMapped a v" p] Cons.prems(3) vm that unfolding own_def by simp
  ultimately have "\<exists>n1. clear_qubit a (v, x) n = Inr n1"
    using m free_phys_returns [of "put_mem a (unmap_virt_id v m) n"]
    by (cases x) (auto simp: clear_qubit_def on_mem_def)
  then obtain n1 where n1: "clear_qubit a (v, x) n = Inr n1" ..
  note st = clear_qubit_step [OF Cons.prems(1,2) vm n1]
  have "\<exists>n'. forE (clear_qubit a) xs n1 = Inr n'"
  proof (rule Cons.IH)
    show "mem_struct n1" "quiet_pc (proc_pc_of n1)" using st Cons.prems(2) by simp_all
    show "owners_ok (own n1)" using st Cons.prems(3) by (blast intro: owner_steps_ok)
    show "distinct (map fst xs)" using Cons.prems(4) by simp
    have "vmap n1 = (vmap n)(a := (vmap n a)(v := None))" using st by simp
    moreover have "w \<noteq> v" if "(w, y) \<in> set xs" for w y using Cons.prems(4) vx that by (auto simp: image_iff)
    ultimately show "vmap n1 a w = y" if "(w, y) \<in> set xs" for w y using Cons.prems(5) that by auto
    show "a \<in> set (dict_keys (app_memories n1))" using st Cons.prems(6) by (simp only:)
  qed
  then show ?case using n1 by (simp add: vx)
qed

lemma clear_application_returns:
  assumes "mem_struct n" and "quiet_pc (proc_pc_of n)" and "owners_ok (own n)"
    and "a \<in> set (dict_keys (app_memories n))"
  shows "\<exists>n'. clear_application a n = Inr n'"
proof -
  obtain m where m: "get_mem a n = Inr m"
    using assms(4) by (metis get_mem_def dict_get_eq_Inr domD dom_map_of_conv_image_fst list.set_map)
  have d: "dict_ok (am_virt_qubits m)" by (rule mem_structD(3) [OF assms(1) get_mem_mem_at [OF m]])
  have vx: "vmap n a v = x" if "(v, x) \<in> set (am_virt_qubits m)" for v x
    using mapping_entry [OF d that] mem_at_vmap [OF get_mem_mem_at [OF m]] by simp
  from clear_loop_returns [OF assms(1-3) d vx assms(4)] obtain n1
    where n1: "forE (clear_qubit a) (am_virt_qubits m) n = Inr n1" by blast
  have "a \<in> set (dict_keys (app_memories n1))"
    using clear_loop [OF n1 assms(1,2) d vx] assms(4) by simp
  then obtain m1 where "get_mem a n1 = Inr m1"
    by (metis get_mem_def dict_get_eq_Inr domD dom_map_of_conv_image_fst list.set_map)
  then show ?thesis using m n1 by (simp add: clear_application_def)
qed

text \<open>
  C8: stopping a live application in a reachable state, when the handler is between two
  messages, succeeds.  If the handler is to clear memory (\<open>should_clear_memory\<close>, the default),
  it frees exactly the positions the application maps, and takes the application out of both
  dictionaries; if the flag is off, nothing is freed and the application stays.
\<close>

theorem stop_application_frees:
  assumes "reachable P n" and "hand_pc_of n = HandIdle"
    and "a \<in> set (dict_keys (app_memories n))"
  shows "\<exists>n'. stop_application a n = Inr n' \<and>
     (if should_clear_memory n
      then used (physical_memory n') = used (physical_memory n) - ran (vmap n a)
         \<and> dict_keys (app_memories n') = removeAll a (dict_keys (app_memories n))
         \<and> dict_keys (applications n') = removeAll a (dict_keys (applications n))
         \<and> app_counter n' = app_counter n
      else n' = n)"
proof (cases "should_clear_memory n")
  case False
  then show ?thesis by (simp add: stop_application_def)
next
  case True
  have i: "mem_struct n" "owners_ok (own n)" "control_ok n"
    using reachable_inv [OF assms(1)] by (simp_all add: node_inv_def)
  have q: "quiet_pc (proc_pc_of n)" using i(3) assms(2) by (rule idle_quiet)
  obtain n1 where n1: "clear_application a n = Inr n1"
    using clear_application_returns [OF i(1) q i(2) assms(3)] by blast
  note st = clear_application_step [OF i(1) q n1]
  have "dict_keys (applications n) = dict_keys (app_memories n)"
    using i(3) by (simp add: control_ok_def apps_ok_def)
  then have "a \<in> set (dict_keys (applications n1))" using st assms(3) by (simp only:)
  then have "dict_pop (applications n1) a = Inr (AList.delete a (applications n1))"
    unfolding dict_pop_eq_Inr by simp
  then have "stop_application a n = Inr (n1\<lparr>applications := AList.delete a (applications n1)\<rparr>)"
    using True n1 by (simp add: stop_application_def)
  then show ?thesis using st True by (simp add: delete_keys)
qed

theorem stop_application_frees_witness:
  "\<exists>n'. stop_application 0 ex_two = Inr n' \<and> used (physical_memory ex_two) \<noteq> {}
     \<and> used (physical_memory n') = used (physical_memory ex_two) - ran (vmap ex_two 0)"
proof -
  have s: "hand_pc_of ex_two = HandIdle" "0 \<in> set (dict_keys (app_memories ex_two))" by code_simp+
  have c: "should_clear_memory ex_two" by code_simp
  have "used (physical_memory ex_two) \<noteq> {}" by code_simp
  then show ?thesis using stop_application_frees [OF ex_reachable(2) s] c by auto
qed

text \<open>
  C5: the handshake of handler and processor.  In every reachable state at most one
  subroutine is in flight: waiting for the processor, run by it, or reported as done; it
  belongs to the application the handler waits for.  With no subroutine in flight the
  handler does not wait, so the assertion on the processor's answer cannot fail.
\<close>

theorem one_subroutine_in_flight:
  assumes "reachable P n"
  shows "case hand_pc_of n of
      HandIdle \<Rightarrow> hand_to_proc n = [] \<and> proc_to_hand n = [] \<and> running (proc_pc_of n) = None
    | HandAwaitProc a \<Rightarrow> length (hand_to_proc n) + length (proc_to_hand n)
          + (if running (proc_pc_of n) = None then 0 else 1) = 1
        \<and> (\<forall>s \<in> set (hand_to_proc n). sub_app_id s = a)
        \<and> (\<forall>s. running (proc_pc_of n) = Some s \<longrightarrow> sub_app_id s = a)
        \<and> (\<forall>msg \<in> set (proc_to_hand n). msg = ''subroutine done'')
        \<and> a \<in> set (dict_keys (app_memories n))"
proof -
  have c: "control_ok n" using reachable_inv [OF assms] by (simp add: node_inv_def)
  show ?thesis
  proof (cases "hand_pc_of n")
    case HandIdle
    then show ?thesis using c by (simp add: control_ok_def handshake_ok_def)
  next
    case (HandAwaitProc a)
    then have "a \<in> set (dict_keys (app_memories n))" using c by (simp add: control_ok_def apps_ok_def)
    then show ?thesis using c HandAwaitProc by (auto simp: control_ok_def handshake_ok_def)
  qed
qed

theorem one_subroutine_in_flight_witness:
  "hand_pc_of ex_meas = HandAwaitProc 0 \<and> running (proc_pc_of ex_meas) \<noteq> None
   \<and> hand_to_proc ex_meas = [] \<and> proc_to_hand ex_meas = []"
proof -
  have h: "hand_pc_of ex_meas = HandAwaitProc 0" by code_simp
  have r: "running (proc_pc_of ex_meas) \<noteq> None" by code_simp
  show ?thesis using one_subroutine_in_flight [OF ex_reachable(3)] h r by simp
qed

text \<open>
  The id a new application gets in a reachable state is one no application has or had,
  live or stopped, and no queued subroutine carries it.
\<close>

theorem new_app_id_fresh:
  assumes "reachable P n" and "hand_pc_of n = HandIdle" and "init_new_app P k n = (a, n')"
  shows "a \<notin> set (dict_keys (app_memories n)) \<and> a \<notin> set (dict_keys (dropped_memories n))
     \<and> (\<forall>(b, subs) \<in> set (applications n). \<forall>s \<in> set subs. sub_app_id s \<noteq> a)
     \<and> vmap n' a = Map.empty \<and> (\<forall>b. b \<noteq> a \<longrightarrow> vmap n' b = vmap n b)"
proof -
  have c: "apps_ok n" using reachable_inv [OF assms(1)] by (simp add: node_inv_def control_ok_def)
  note f = init_new_app_control [OF c assms(3,2)]
  have keys: "b \<in> set (dict_keys (app_memories n))" if "(b, subs) \<in> set (applications n)" for b subs
    using apps_okD(1) [OF c] that by (metis fst_conv image_eqI list.set_map)
  have "sub_app_id s \<noteq> a" if "(b, subs) \<in> set (applications n)" "s \<in> set subs" for b subs s
    using apps_okD(5) [OF c] keys [OF that(1)] that f by fastforce
  moreover have "vmap n' = (vmap n)(a := Map.empty)"
  proof
    fix b show "vmap n' b = ((vmap n)(a := Map.empty)) b"
      using assms(3) by (cases "b = a")
        (auto simp: init_new_app_def Let_def vmap_def mem_at_def map_add_def fun_eq_iff split: option.splits)
  qed
  ultimately show ?thesis using f by fastforce
qed

theorem new_app_id_fresh_witness:
  "0 \<in> set (dict_keys (app_memories ex_two)) \<and> fst (init_new_app ex_P 1 ex_two) \<notin> set (dict_keys (app_memories ex_two))"
proof -
  have h: "hand_pc_of ex_two = HandIdle" "0 \<in> set (dict_keys (app_memories ex_two))" by code_simp+
  obtain a n' where i: "init_new_app ex_P 1 ex_two = (a, n')" by (cases "init_new_app ex_P 1 ex_two")
  show ?thesis using new_app_id_fresh [OF ex_reachable(2) h(1) i] h(2) i by simp
qed

end
