(* ===== verification/NVProps.thy ===== *)
theory NVProps
  imports Example
begin

text \<open>
  Measurements on NV hardware, followed from the instruction to the outcome.
\<close>

lemma get_obj_live: "get_mem a n = Inr m \<Longrightarrow> get_obj a n = Inr m"
  by (simp add: get_mem_def get_obj_def result_simps)

lemma put_obj_live: "get_mem a n = Inr m \<Longrightarrow> put_obj a m' n = put_mem a m' n"
  by (simp add: get_mem_def put_obj_def result_simps)

lemma on_obj_live:
  assumes "get_mem a n = Inr m"
  shows "on_obj a f n = bindE (f m) (\<lambda>m'. Inr (put_mem a m' n))"
  by (simp add: on_obj_def get_obj_live [OF assms] put_obj_live [OF assms])

lemma on_mem_live:
  assumes "get_mem a n = Inr m"
  shows "on_mem a f n = bindE (f m) (\<lambda>m'. Inr (put_mem a m' n))"
  by (simp add: on_mem_def assms)

lemma get_mem_views [simp]:
  "get_mem a (n\<lparr>device_log := l\<rparr>) = get_mem a n"
  "get_mem a (n\<lparr>memory_freed := b\<rparr>) = get_mem a n"
  by (simp_all add: get_mem_def)

text \<open>The application whose subroutine runs is live.\<close>

lemma running_live:
  assumes "reachable P n" and "running (proc_pc_of n) = Some s"
  shows "\<exists>m. get_mem (sub_app_id s) n = Inr m"
proof -
  have c: "control_ok n" using reachable_inv [OF assms(1)] by (simp add: node_inv_def)
  then have "hand_pc_of n = HandAwaitProc (sub_app_id s)"
    using assms(2) by (cases "hand_pc_of n") (auto simp: control_ok_def handshake_ok_def)
  then have "sub_app_id s \<in> set (dict_keys (app_memories n))"
    using c by (simp add: control_ok_def apps_ok_def)
  then show ?thesis by (metis get_mem_def dict_get_eq_Inr domD dom_map_of_conv_image_fst list.set_map)
qed

text \<open>In a reachable state the owner of a mapped position is found, and is the one there is.\<close>

lemma owner_found:
  assumes inv: "node_inv n" and b: "get_mem b n = Inr m" "mapping m (Some w) = Some p"
  shows "get_virt_qubit_for_phys_id p n = Inr (b, w)"
proof -
  have uniq: "c = d \<and> x = y" if "vmap n c x = Some q" "vmap n d y = Some q" for c d x y q
    using node_inv_mapped(3) [OF inv that(2,1)] by simp
  have i: "owners_ok (own n)" "mem_struct n" using inv by (simp_all add: node_inv_def)
  have vm: "vmap n c = mapping m'" if "(c, m') \<in> set (app_memories n)" for c m'
  proof -
    have "get_mem c n = Inr m'" using that mem_structD(4) [OF i(2)] by (simp add: get_mem_def result_simps)
    then show ?thesis by (rule mem_at_vmap [OF get_mem_mem_at])
  qed
  have ex: "\<exists>r. search_virt_qubit p (app_memories n) = Inr r"
  proof (rule search_virt_qubit_complete [OF _ _ b(2)])
    show mem: "(b, m) \<in> set (app_memories n)" using b(1) by (simp add: get_mem_def result_simps map_of_SomeD)
    fix c m' assume c: "(c, m') \<in> set (app_memories n)"
    have "dict_ok (am_virt_qubits m')"
      using mem_structD(3) [OF i(2) get_mem_mem_at, of c m'] c mem_structD(4) [OF i(2)]
      by (simp add: get_mem_def result_simps)
    moreover have "inj_on (mapping m') (dom (mapping m'))"
      using uniq [of c _ _ c] vm [OF c] by (auto simp: inj_on_def)
    ultimately show "mapping_ok m'" by (simp add: mapping_ok_def)
  qed
  then obtain c x where f: "get_virt_qubit_for_phys_id p n = Inr (c, x)"
    by (auto simp: get_virt_qubit_for_phys_id_def)
  from get_virt_qubit_sound [OF i(2) f] obtain m' where "get_mem c n = Inr m'" "mapping m' (Some x) = Some p" by blast
  then have "vmap n c (Some x) = Some p" using mem_at_vmap [OF get_mem_mem_at, of c n m'] by simp
  moreover have "vmap n b (Some w) = Some p" using mem_at_vmap [OF get_mem_mem_at [OF b(1)]] b(2) by simp
  ultimately show ?thesis using uniq f by blast
qed

text \<open>The three suspensions of the measurement of a carbon while the electron is in use.\<close>

lemma meas_carbon_start:
  assumes hw: "hardware_of n = NVHardware" and pc: "proc_pc_of n = ProcExec s"
    and m: "get_mem (sub_app_id s) n = Inr m"
    and k: "am_prog_counter m = int k" "k < length (sub_instrs s)" "sub_instrs s ! k = Meas qr cr"
    and v: "get_reg_value (shm P) (ByReg qr) m = Inr (Some v)" and p: "mapping m (Some v) = Some p" "p \<noteq> 0"
    and el: "is_allocated 0 (physical_memory n)" and al: "allocate (physical_memory n) = Inr (new, pm)"
  shows "processor_step P ProcGo n = Some (Inr (n\<lparr>physical_memory := pm,
      device_log := device_log n @ [ExecProgram (electron_to_carbon_prog new)],
      proc_pc_of := ProcDevice s (KMoveElectron (Some v) (Some p) new cr)\<rparr>))"
proof -
  have "qubit_of_reg P (sub_app_id s) qr n = Inr (Some v, Some p)"
    using m v p by (simp add: qubit_of_reg_def phys_id_for_mapping [symmetric])
  moreover have "on_phys allocate n = Inr (new, n\<lparr>physical_memory := pm\<rparr>)" using al by (simp add: on_phys_def)
  ultimately have "interpret_instruction P s (Meas qr cr) n = Inr (Suspended (ProcDevice s (KMoveElectron (Some v) (Some p) new cr)),
      n\<lparr>physical_memory := pm, device_log := device_log n @ [ExecProgram (electron_to_carbon_prog new)]\<rparr>)"
    using hw p(2) el by (simp add: nv_interpret_meas_def run_program_def log_device_def)
  moreover have "py_index (sub_instrs s) (int k) = Inr (Meas qr cr)" using k(2,3) by (simp add: py_index_nonneg)
  ultimately show ?thesis
    using pc k by (simp add: execute_subroutine_step_def get_obj_live [OF m])
qed

lemma get_obj_views [simp]:
  "get_obj a (n\<lparr>physical_memory := p\<rparr>) = get_obj a n"
  "get_obj a (n\<lparr>device_log := l\<rparr>) = get_obj a n"
  "get_obj a (n\<lparr>proc_pc_of := q\<rparr>) = get_obj a n"
  by (simp_all add: get_obj_def split: option.split)

lemma vmap_views [simp]:
  "vmap (log_device e n) = vmap n"
  "vmap (n\<lparr>proc_pc_of := q\<rparr>) = vmap n"
  by (rule qv_eqD(2); simp)+

lemma meas_electron_moved:
  assumes pc: "proc_pc_of n = ProcDevice s (KMoveElectron v p new cr)"
    and found: "get_virt_qubit_for_phys_id 0 n = Inr (b, w)"
    and mb: "get_mem b n = Inr mb" and ma: "get_mem (sub_app_id s) n = Inr ma"
  shows "\<exists>n'. processor_step P (ProcDeviceDone x) n = Some (Inr n')
     \<and> vmap n' = (let V = (vmap n)(b := (vmap n b)(Some w \<mapsto> new))
                  in V(sub_app_id s := (V (sub_app_id s))(v \<mapsto> 0)))
     \<and> (\<exists>ma'. get_mem (sub_app_id s) n' = Inr ma' \<and> am_registers ma' = am_registers ma
            \<and> am_prog_counter ma' = am_prog_counter ma)
     \<and> physical_memory n' = physical_memory n \<and> hardware_of n' = hardware_of n
     \<and> nstk_pc_of n' = nstk_pc_of n
     \<and> device_log n' = device_log n @ [ExecProgram (carbon_to_electron_prog p)]
     \<and> proc_pc_of n' = ProcDevice s (KMoveCarbon v p cr)"
proof -
  let ?a = "sub_app_id s"
  let ?n1 = "put_mem b (remap (Some w) new mb) n"
  let ?m1 = "if b = ?a then remap (Some w) new mb else ma"
  have m1: "get_mem ?a ?n1 = Inr ?m1" using mb ma by simp
  let ?n2 = "put_mem ?a (remap v 0 ?m1) ?n1"
  let ?n3 = "(log_device (ExecProgram (carbon_to_electron_prog p)) ?n2)\<lparr>proc_pc_of := ProcDevice s (KMoveCarbon v p cr)\<rparr>"
  have "processor_step P (ProcDeviceDone x) n = Some (Inr ?n3)"
    using pc found by (simp add: nv_meas_electron_moved_def on_mem_live [OF mb] on_obj_live [OF m1] run_program_def)
  moreover have "vmap n b = mapping mb" "vmap n ?a = mapping ma"
    using mem_at_vmap [OF get_mem_mem_at [OF mb]] mem_at_vmap [OF get_mem_mem_at [OF ma]] by simp_all
  then have "vmap ?n3 = (let V = (vmap n)(b := (vmap n b)(Some w \<mapsto> new)) in V(?a := (V ?a)(v \<mapsto> 0)))"
    by (auto simp: Let_def fun_eq_iff)
  moreover have "get_mem ?a ?n3 = Inr (remap v 0 ?m1)" by simp
  moreover have "am_registers (remap v 0 ?m1) = am_registers ma" "am_prog_counter (remap v 0 ?m1) = am_prog_counter ma"
    using mb ma by (auto simp: remap_def map_virt_id_def unmap_virt_id_def)
  ultimately show ?thesis by simp
qed

lemma meas_carbon_moved:
  assumes pc: "proc_pc_of n = ProcDevice s (KMoveCarbon v (Some p) cr)" and ok: "mem_struct n"
    and used: "p \<in> used (physical_memory n)"
  shows "\<exists>pm b. processor_step P (ProcDeviceDone x) n = Some (Inr (n\<lparr>physical_memory := pm, memory_freed := b,
       device_log := device_log n @ [SetInUse p False, ExecProgram [NsOp INSTR_MEASURE [Some 0] None]],
       proc_pc_of := ProcDevice s (KMeas cr)\<rparr>))
     \<and> used pm = used (physical_memory n) - {p} \<and> b = (memory_freed n \<or> awaits_memory (nstk_pc_of n))"
proof -
  obtain n1 where n1: "free_phys p n = Inr n1" using free_phys_returns [OF ok used] by blast
  then obtain pm where pm: "free p (physical_memory n) = Inr pm" "n1 = n\<lparr>physical_memory := pm\<rparr>"
    by (auto simp: free_phys_def result_simps)
  have "used pm = used (physical_memory n) - {p}" using free_Inr [OF mem_structD(1) [OF ok] pm(1)] by simp
  moreover have "processor_step P (ProcDeviceDone x) n = Some (Inr (n\<lparr>physical_memory := pm,
       memory_freed := memory_freed n \<or> awaits_memory (nstk_pc_of n),
       device_log := device_log n @ [SetInUse p False, ExecProgram [NsOp INSTR_MEASURE [Some 0] None]],
       proc_pc_of := ProcDevice s (KMeas cr)\<rparr>))"
    using pc n1 pm(2)
    by (simp add: nv_meas_carbon_moved_def measure_electron_def run_program_def log_device_def signal_memory_freed_def)
  ultimately show ?thesis by blast
qed

lemma meas_outcome:
  assumes pc: "proc_pc_of n = ProcDevice s (KMeas (Register g i))" and m: "get_mem (sub_app_id s) n = Inr m"
    and laws: "shmem_laws (shm P)" and i: "0 \<le> i" "i < 16" and out: "out \<in> {0, 1}"
  shows "\<exists>m' m''. set_reg_value (shm P) (ByReg (Register g i)) out m = Inr m' \<and> m'' = increment_prog_counter m'
     \<and> processor_step P (ProcDeviceDone out) n
         = Some (Inr (put_mem (sub_app_id s) m'' (n\<lparr>proc_pc_of := ProcExec s\<rparr>)))"
proof -
  let ?a = "sub_app_id s"
  obtain gr where "reg_write (shm P) (am_registers m) g i out = Inr gr"
  proof (rule shmem_reg_writeE [OF laws i])
    show "- (2 ^ 31) \<le> out" "out < 2 ^ 31" using out by auto
  qed
  then obtain m' where m': "set_reg_value (shm P) (ByReg (Register g i)) out m = Inr m'" by (simp add: set_reg_value_def)
  have l: "get_mem ?a (put_mem ?a m' n) = Inr m'" by simp
  have "put_mem ?a x (put_mem ?a m' n) = put_mem ?a x n" for x
    by (simp add: put_mem_def)
  then show ?thesis using pc m'
    by (simp add: on_obj_live [OF m] on_obj_live [OF l] no_yield_def) (simp add: put_mem_def)
qed

lemma run_events_append: "run_events P (es @ fs) n = bindE (run_events P es n) (run_events P fs)"
  by (induction es arbitrary: n) (auto simp: bindE_assoc [symmetric] bindE_def split: option.splits sum.splits)

text \<open>The first two steps: the electron's state is moved away, then the carbon's state in.\<close>

lemma meas_carbon_moves:
  assumes n: "reachable P n" and hw: "hardware_of n = NVHardware"
    and pc: "proc_pc_of n = ProcExec s" and m: "get_mem (sub_app_id s) n = Inr m"
    and k: "am_prog_counter m = int k" "k < length (sub_instrs s)" "sub_instrs s ! k = Meas qr (Register g i)"
    and v: "get_reg_value (shm P) (ByReg qr) m = Inr (Some v)" and p: "mapping m (Some v) = Some p" "p \<noteq> 0"
    and b: "get_mem b n = Inr mb" "mapping mb (Some w) = Some 0"
    and room: "\<not> positions (physical_memory n) \<subseteq> used (physical_memory n)"
  obtains new n2 m2 where "new \<in> positions (physical_memory n) - used (physical_memory n)"
    "\<forall>j \<in> positions (physical_memory n) - used (physical_memory n). new \<le> j"
    "run_events P (map ProcessorEvent [ProcGo, ProcDeviceDone x]) n = Inr n2"
    "vmap n2 = (let V = (vmap n)(b := (vmap n b)(Some w \<mapsto> new)) in V(sub_app_id s := (V (sub_app_id s))(Some v \<mapsto> 0)))"
    "used (physical_memory n2) = insert new (used (physical_memory n))" "p \<in> used (physical_memory n)"
    "get_mem (sub_app_id s) n2 = Inr m2" "am_prog_counter m2 = int k"
    "device_log n2 = device_log n @ [ExecProgram (electron_to_carbon_prog new), ExecProgram (carbon_to_electron_prog (Some p))]"
    "proc_pc_of n2 = ProcDevice s (KMoveCarbon (Some v) (Some p) (Register g i))"
proof -
  let ?a = "sub_app_id s"
  have inv: "node_inv n" using n by (rule reachable_inv)
  have ms: "mem_struct n" using inv by (simp add: node_inv_def)
  have el: "vmap n b (Some w) = Some 0" "vmap n ?a (Some v) = Some p"
    using mem_at_vmap [OF get_mem_mem_at [OF b(1)]] mem_at_vmap [OF get_mem_mem_at [OF m]] b(2) p(1) by simp_all
  have u: "0 \<in> used (physical_memory n)" "p \<in> used (physical_memory n)"
    by (rule node_inv_mapped(1) [OF inv el(1)], rule node_inv_mapped(1) [OF inv el(2)])
  obtain new pm where al: "allocate (physical_memory n) = Inr (new, pm)"
    using any_pool.alloc_succeeds_iff [OF mem_structD(1) [OF ms]] room by blast
  note new = any_pool.alloc_ok [OF mem_structD(1) [OF ms] al]
  have el0: "is_allocated 0 (physical_memory n)" using u(1) by (simp add: is_allocated_used)
  note s1 = meas_carbon_start [OF hw pc m k v p el0 al]
  let ?n1 = "n\<lparr>physical_memory := pm, device_log := device_log n @ [ExecProgram (electron_to_carbon_prog new)],
      proc_pc_of := ProcDevice s (KMoveElectron (Some v) (Some p) new (Register g i))\<rparr>"
  have "reachable P ?n1" using n s1 by (auto intro: reachable.step [where e = "ProcessorEvent ProcGo"])
  then have inv1: "node_inv ?n1" by (rule reachable_inv)
  have m1: "get_mem b ?n1 = Inr mb" "get_mem ?a ?n1 = Inr m" using b(1) m by simp_all
  note f = owner_found [OF inv1 m1(1) b(2)]
  have pc1: "proc_pc_of ?n1 = ProcDevice s (KMoveElectron (Some v) (Some p) new (Register g i))" by simp
  have v1: "vmap ?n1 = vmap n" by (rule vmap_cong) (simp add: mem_at_def fun_eq_iff)
  from meas_electron_moved [OF pc1 f m1, of P x] obtain n2 m2 where s2:
      "processor_step P (ProcDeviceDone x) ?n1 = Some (Inr n2)"
      "vmap n2 = (let V = (vmap ?n1)(b := (vmap ?n1 b)(Some w \<mapsto> new)) in V(?a := (V ?a)(Some v \<mapsto> 0)))"
      "get_mem ?a n2 = Inr m2" "am_prog_counter m2 = am_prog_counter m"
      "physical_memory n2 = pm"
      "device_log n2 = device_log ?n1 @ [ExecProgram (carbon_to_electron_prog (Some p))]"
      "proc_pc_of n2 = ProcDevice s (KMoveCarbon (Some v) (Some p) (Register g i))"
    by auto
  have run: "run_events P (map ProcessorEvent [ProcGo, ProcDeviceDone x]) n = Inr n2"
    using s1 s2(1) by simp
  show thesis
    by (rule that [OF _ _ run s2(2) [unfolded v1] _ u(2) s2(3)]) (use new s2(4-7) k(1) in auto)
qed

text \<open>The last two: the carbon is freed and the outcome stored.\<close>

lemma meas_carbon_ends:
  assumes n: "reachable P n" and laws: "shmem_laws (shm P)"
    and pc: "proc_pc_of n = ProcDevice s (KMoveCarbon v (Some p) (Register g i))" and m: "get_mem (sub_app_id s) n = Inr m"
    and used: "p \<in> used (physical_memory n)" and i: "0 \<le> i" "i < 16" and out: "out \<in> {0, 1}"
  obtains n' m' where "run_events P (map ProcessorEvent [ProcDeviceDone y, ProcDeviceDone out]) n = Inr n'"
    "vmap n' = vmap n" "used (physical_memory n') = used (physical_memory n) - {p}"
    "get_mem (sub_app_id s) n' = Inr m'" "get_reg_value (shm P) (ByReg (Register g i)) m' = Inr (Some out)"
    "am_prog_counter m' = am_prog_counter m + 1" "proc_pc_of n' = ProcExec s"
    "device_log n' = device_log n @ [SetInUse p False, ExecProgram [NsOp INSTR_MEASURE [Some 0] None]]"
proof -
  let ?a = "sub_app_id s"
  have ms: "mem_struct n" using reachable_inv [OF n] by (simp add: node_inv_def)
  from meas_carbon_moved [OF pc ms used, of P y] obtain pm fr where s1:
      "processor_step P (ProcDeviceDone y) n = Some (Inr (n\<lparr>physical_memory := pm, memory_freed := fr,
       device_log := device_log n @ [SetInUse p False, ExecProgram [NsOp INSTR_MEASURE [Some 0] None]],
       proc_pc_of := ProcDevice s (KMeas (Register g i))\<rparr>))"
      "used pm = used (physical_memory n) - {p}" by blast
  let ?n1 = "n\<lparr>physical_memory := pm, memory_freed := fr,
       device_log := device_log n @ [SetInUse p False, ExecProgram [NsOp INSTR_MEASURE [Some 0] None]],
       proc_pc_of := ProcDevice s (KMeas (Register g i))\<rparr>"
  have pc1: "proc_pc_of ?n1 = ProcDevice s (KMeas (Register g i))" and m1: "get_mem ?a ?n1 = Inr m"
    using m by simp_all
  from meas_outcome [OF pc1 m1 laws i out] obtain m2 where s2:
      "set_reg_value (shm P) (ByReg (Register g i)) out m = Inr m2"
      "processor_step P (ProcDeviceDone out) ?n1
         = Some (Inr (put_mem ?a (increment_prog_counter m2) (?n1\<lparr>proc_pc_of := ProcExec s\<rparr>)))" by blast
  let ?m' = "increment_prog_counter m2" let ?n' = "put_mem ?a ?m' (?n1\<lparr>proc_pc_of := ProcExec s\<rparr>)"
  have fr: "am_prog_counter m2 = am_prog_counter m" "am_virt_qubits m2 = am_virt_qubits m"
    using set_reg_frame [OF s2(1)] by simp_all
  have "mapping ?m' = mapping m" using fr(2) by (simp add: mapping_def fun_eq_iff)
  moreover have "vmap n ?a = mapping m" by (rule mem_at_vmap [OF get_mem_mem_at [OF m]])
  moreover have "vmap (?n1\<lparr>proc_pc_of := ProcExec s\<rparr>) = vmap n" by (rule vmap_cong) (simp add: mem_at_def fun_eq_iff)
  ultimately have "vmap ?n' = vmap n" by (simp add: fun_eq_iff)
  then show thesis
    using s1 s2(2) fr(1) get_after_set_reg [OF laws s2(1)]
    by (intro that [of ?n' ?m']) (simp_all add: get_reg_value_def increment_prog_counter_def)
qed

text \<open>
  C4: measuring a carbon while the electron is in use, on NV hardware, from a reachable state.
  Virtual qubit \<open>v\<close> of the running application is at position \<open>p\<close>, which is not the electron;
  virtual qubit \<open>w\<close> of application \<open>b\<close> holds the electron; some position is free.  Then the
  instruction takes four steps, one per device program.  The electron's state moves to the
  smallest free position and its owner's mapping follows; \<open>v\<close> is mapped to the electron;
  \<open>p\<close> is freed; the outcome of the device is in the register, the program counter has
  advanced by one, and the device has run exactly the three programs, in this order.
\<close>

theorem nv_measure_carbon:
  assumes n: "reachable P n" and hw: "hardware_of n = NVHardware" and laws: "shmem_laws (shm P)"
    and pc: "proc_pc_of n = ProcExec s" and m: "get_mem (sub_app_id s) n = Inr m"
    and k: "am_prog_counter m = int k" "k < length (sub_instrs s)" "sub_instrs s ! k = Meas qr (Register g i)"
    and v: "get_reg_value (shm P) (ByReg qr) m = Inr (Some v)" and p: "mapping m (Some v) = Some p" "p \<noteq> 0"
    and b: "get_mem b n = Inr mb" "mapping mb (Some w) = Some 0"
    and room: "\<not> positions (physical_memory n) \<subseteq> used (physical_memory n)"
    and i: "0 \<le> i" "i < 16" and out: "out \<in> {0, 1}"
  shows "\<exists>new n' m'. new \<in> positions (physical_memory n) - used (physical_memory n)
     \<and> (\<forall>j \<in> positions (physical_memory n) - used (physical_memory n). new \<le> j)
     \<and> run_events P (map ProcessorEvent [ProcGo, ProcDeviceDone x, ProcDeviceDone y, ProcDeviceDone out]) n = Inr n'
     \<and> vmap n' = (let V = (vmap n)(b := (vmap n b)(Some w \<mapsto> new))
                  in V(sub_app_id s := (V (sub_app_id s))(Some v \<mapsto> 0)))
     \<and> used (physical_memory n') = insert new (used (physical_memory n)) - {p}
     \<and> get_mem (sub_app_id s) n' = Inr m' \<and> get_reg_value (shm P) (ByReg (Register g i)) m' = Inr (Some out)
     \<and> am_prog_counter m' = int k + 1 \<and> proc_pc_of n' = ProcExec s
     \<and> device_log n' = device_log n @ [ExecProgram (electron_to_carbon_prog new),
          ExecProgram (carbon_to_electron_prog (Some p)), SetInUse p False,
          ExecProgram [NsOp INSTR_MEASURE [Some 0] None]]"
proof -
  obtain new n2 m2 where s1: "new \<in> positions (physical_memory n) - used (physical_memory n)"
    "\<forall>j \<in> positions (physical_memory n) - used (physical_memory n). new \<le> j"
    "run_events P (map ProcessorEvent [ProcGo, ProcDeviceDone x]) n = Inr n2"
    "vmap n2 = (let V = (vmap n)(b := (vmap n b)(Some w \<mapsto> new)) in V(sub_app_id s := (V (sub_app_id s))(Some v \<mapsto> 0)))"
    "used (physical_memory n2) = insert new (used (physical_memory n))" "p \<in> used (physical_memory n)"
    "get_mem (sub_app_id s) n2 = Inr m2" "am_prog_counter m2 = int k"
    "device_log n2 = device_log n @ [ExecProgram (electron_to_carbon_prog new), ExecProgram (carbon_to_electron_prog (Some p))]"
    "proc_pc_of n2 = ProcDevice s (KMoveCarbon (Some v) (Some p) (Register g i))"
    by (rule meas_carbon_moves [OF n hw pc m k v p b room])
  have r2: "reachable P n2" by (rule run_events_reachable [OF n s1(3)])
  have "p \<in> used (physical_memory n2)" using s1(5,6) by simp
  from meas_carbon_ends [OF r2 laws s1(10,7) this i out, of y] obtain n' m' where s2:
    "run_events P (map ProcessorEvent [ProcDeviceDone y, ProcDeviceDone out]) n2 = Inr n'"
    "vmap n' = vmap n2" "used (physical_memory n') = used (physical_memory n2) - {p}"
    "get_mem (sub_app_id s) n' = Inr m'" "get_reg_value (shm P) (ByReg (Register g i)) m' = Inr (Some out)"
    "am_prog_counter m' = am_prog_counter m2 + 1" "proc_pc_of n' = ProcExec s"
    "device_log n' = device_log n2 @ [SetInUse p False, ExecProgram [NsOp INSTR_MEASURE [Some 0] None]]" .
  have "run_events P (map ProcessorEvent [ProcGo, ProcDeviceDone x, ProcDeviceDone y, ProcDeviceDone out]) n = Inr n'"
    using run_events_append [of P "map ProcessorEvent [ProcGo, ProcDeviceDone x]"
        "map ProcessorEvent [ProcDeviceDone y, ProcDeviceDone out]" n] s1(3) s2(1) by (simp del: run_events.simps)
  then show ?thesis
    using s1 s2 by (intro exI [of _ new] exI [of _ n'] exI [of _ m']) (simp del: run_events.simps)
qed

text \<open>On the example device: qubits \<open>0\<close> and \<open>1\<close> are allocated, position \<open>2\<close> is free, \<open>1\<close> is measured.\<close>

definition ex_meas_ready :: "(ex_regs, ex_arrays) node" where
  "ex_meas_ready = after_events (host_says ''meas'' @ proc_runs 1) ex_two"

definition ex_meas_sub :: subroutine where
  "ex_meas_sub = \<lparr>sub_app_id = 0, sub_instrs = [Meas (reg_Q 1) (reg_M 0)]\<rparr>"

theorem nv_measure_carbon_witness:
  "\<exists>n'. run_events ex_P (map ProcessorEvent [ProcGo, ProcDeviceDone 0, ProcDeviceDone 0, ProcDeviceDone 1]) ex_meas_ready = Inr n'
     \<and> used (physical_memory n') = insert 2 (used (physical_memory ex_meas_ready)) - {1}
     \<and> vmap n' 0 (Some 1) = Some 0 \<and> vmap n' 0 (Some 0) = Some 2"
proof -
  let ?n = ex_meas_ready
  have r: "reachable ex_P ?n" by (simp add: ex_meas_ready_def after_events_reachable ex_reachable)
  have hw: "hardware_of ?n = NVHardware" "proc_pc_of ?n = ProcExec ex_meas_sub" by code_simp+
  have "case get_mem 0 ?n of Inl e \<Rightarrow> False | Inr m \<Rightarrow> am_prog_counter m = 0
     \<and> get_reg_value (shm ex_P) (ByReg (reg_Q 1)) m = Inr (Some 1) \<and> mapping m (Some 1) = Some 1
     \<and> mapping m (Some 0) = Some 0" by code_simp
  then obtain m where m: "get_mem 0 ?n = Inr m" "am_prog_counter m = int 0"
     "get_reg_value (shm ex_P) (ByReg (reg_Q 1)) m = Inr (Some 1)" "mapping m (Some 1) = Some 1"
     "mapping m (Some 0) = Some 0" by (auto split: sum.splits)
  have sub: "sub_app_id ex_meas_sub = 0" "0 < length (sub_instrs ex_meas_sub)"
      "sub_instrs ex_meas_sub ! 0 = Meas (reg_Q 1) (Register RegM 0)"
    by (simp_all add: ex_meas_sub_def reg_M_def)
  have pos: "positions (physical_memory ?n) - used (physical_memory ?n) = {2}" by code_simp
  then have room: "\<not> positions (physical_memory ?n) \<subseteq> used (physical_memory ?n)" by blast
  have laws: "shmem_laws (shm ex_P)" by (simp add: ex_P_def ex_shmem_laws)
  have m0: "get_mem (sub_app_id ex_meas_sub) ?n = Inr m" using m(1) sub(1) by simp
  from nv_measure_carbon [OF r hw(1) laws hw(2) m0 m(2) sub(2,3) m(3,4) _ m(1,5) room, of 1 0 0]
  show ?thesis unfolding pos sub(1) by (auto simp: Let_def)
qed

text \<open>
  C37: on NV hardware an allocation for virtual qubit \<open>0\<close> (or below) gives the electron and
  any other gives a carbon, a free position of the device that is mapped to the virtual qubit and
  is the only one newly allocated; no other virtual qubit is remapped.  It fails, with
  \<open>AllocError\<close>, exactly when the electron is in use (or the device has no positions) or all
  carbons of the device are.
\<close>

theorem nv_qalloc_placement:
  assumes "reachable P n" and "hardware_of n = NVHardware" and "get_mem a n = Inr m"
    and "get_reg_value (shm P) (ByReg r) m = Inr (Some v)"
  shows "case nv_interpret_qalloc P a r n of
      Inl e \<Rightarrow> e = AllocError \<and> (if v > 0 then {1..<qubit_count (physical_memory n)} \<subseteq> used (physical_memory n)
          else qubit_count (physical_memory n) \<le> 0 \<or> 0 \<in> used (physical_memory n))
    | Inr n' \<Rightarrow> \<exists>p. vmap n' = (vmap n)(a := (vmap n a)(Some v \<mapsto> p)) \<and> p \<notin> used (physical_memory n)
          \<and> p < qubit_count (physical_memory n)
          \<and> used (physical_memory n') = insert p (used (physical_memory n)) \<and> (v > 0 \<longrightarrow> p > 0) \<and> (v \<le> 0 \<longrightarrow> p = 0)"
proof -
  have ms: "mem_struct n" using reachable_inv [OF assms(1)] by (simp add: node_inv_def)
  have cq: "comm_qubit_ids (physical_memory n) = {0}" using mem_structD(2) [OF ms assms(2)] .
  have comm: "comm_positions (physical_memory n) = (if qubit_count (physical_memory n) > 0 then {0} else {})"
    and mem: "mem_positions (physical_memory n) = {1..<qubit_count (physical_memory n)}"
    by (auto simp: comm_positions_def mem_positions_def positions_def cq)
  let ?alloc = "if v > 0 then allocate_mem else allocate_comm"
  have x: "nv_interpret_qalloc P a r n = bindE (on_phys ?alloc n)
      (\<lambda>(p, n'). Inr (put_mem a (map_virt_id (Some v) p m) n'))"
    using assms(3,4) by (simp add: nv_interpret_qalloc_def)
  show ?thesis
  proof (cases "on_phys ?alloc n")
    case (Inl e)
    then show ?thesis unfolding x
      using mem_pool.on_phys_alloc_err [OF ms, of e] comm_pool.on_phys_alloc_err [OF ms, of e]
      by (auto simp: comm mem split: if_splits)
  next
    case (Inr r)
    obtain p n1 where r: "r = (p, n1)" by (cases r)
    have p: "p \<notin> used (physical_memory n) \<and> used (physical_memory n1) = insert p (used (physical_memory n))
        \<and> p < qubit_count (physical_memory n) \<and> (v > 0 \<longrightarrow> p > 0) \<and> (v \<le> 0 \<longrightarrow> p = 0)"
      and n1: "n1 = n\<lparr>physical_memory := physical_memory n1\<rparr>"
      using mem_pool.on_phys_alloc [OF ms, of p n1] comm_pool.on_phys_alloc [OF ms, of p n1] Inr
      by (auto simp: r comm mem split: if_splits)
    have "vmap (n\<lparr>physical_memory := physical_memory n1\<rparr>) = vmap n" by (simp add: vmap_def mem_at_def fun_eq_iff)
    then have v: "vmap n1 = vmap n" using n1 by simp
    have "vmap (put_mem a (map_virt_id (Some v) p m) n1) = (vmap n)(a := (vmap n a)(Some v \<mapsto> p))"
      using mem_at_vmap [OF get_mem_mem_at [OF assms(3)]] by (simp add: v)
    then show ?thesis unfolding x Inr r using p by (intro exI [of _ p] | simp)+
  qed
qed

theorem nv_qalloc_placement_witness:
  "\<exists>n' p. nv_interpret_qalloc ex_P 0 (reg_Q 1) ex_two = Inr n' \<and> vmap n' 0 (Some 1) = Some p
     \<and> p \<notin> used (physical_memory ex_two) \<and> p > 0"
proof -
  have "case get_mem 0 ex_two of Inl e \<Rightarrow> False | Inr m \<Rightarrow> get_reg_value (shm ex_P) (ByReg (reg_Q 1)) m = Inr (Some 1)"
    by code_simp
  then obtain m where m: "get_mem 0 ex_two = Inr m" "get_reg_value (shm ex_P) (ByReg (reg_Q 1)) m = Inr (Some 1)"
    by (auto split: sum.splits)
  have hw: "hardware_of ex_two = NVHardware" by code_simp
  have "case nv_interpret_qalloc ex_P 0 (reg_Q 1) ex_two of Inl e \<Rightarrow> False | Inr n' \<Rightarrow> True" by code_simp
  then obtain n' where n': "nv_interpret_qalloc ex_P 0 (reg_Q 1) ex_two = Inr n'" by (auto split: sum.splits)
  from nv_qalloc_placement [OF ex_reachable(2) hw m] show ?thesis by (auto simp: n')
qed

text \<open>
  C40: measuring a carbon while the electron and every other position are taken does not end in
  the reported allocation error: the code logs it and reads a variable that was never set.
\<close>

theorem nv_measure_no_room:
  assumes n: "reachable P n" and hw: "hardware_of n = NVHardware"
    and pc: "proc_pc_of n = ProcExec s" and m: "get_mem (sub_app_id s) n = Inr m"
    and k: "am_prog_counter m = int k" "k < length (sub_instrs s)" "sub_instrs s ! k = Meas qr cr"
    and v: "get_reg_value (shm P) (ByReg qr) m = Inr (Some v)" and p: "mapping m (Some v) = Some p" "p \<noteq> 0"
    and full: "positions (physical_memory n) \<subseteq> used (physical_memory n)"
  shows "processor_step P ProcGo n = Some (Inl UnboundLocalError)"
proof -
  have inv: "node_inv n" using n by (rule reachable_inv)
  have ms: "mem_struct n" using inv by (simp add: node_inv_def)
  have "vmap n (sub_app_id s) (Some v) = Some p"
    using mem_at_vmap [OF get_mem_mem_at [OF m]] p(1) by simp
  then have "p \<in> positions (physical_memory n)" by (rule node_inv_mapped(2) [OF inv])
  then have "0 \<in> used (physical_memory n)" using full by (auto simp: positions_def)
  moreover have "on_phys allocate n = Inl AllocError"
    using any_pool.on_phys_alloc_err [OF ms, of AllocError] full by simp
  moreover have "qubit_of_reg P (sub_app_id s) qr n = Inr (Some v, Some p)"
    using m v p by (simp add: qubit_of_reg_def phys_id_for_mapping [symmetric])
  ultimately have "interpret_instruction P s (Meas qr cr) n = Inl UnboundLocalError"
    using hw p(2) by (simp add: nv_interpret_meas_def is_allocated_used)
  then show ?thesis
    using pc k by (simp add: execute_subroutine_step_def get_obj_live [OF m] py_index_nonneg)
qed

text \<open>A device with two positions, both allocated.\<close>

definition ex_full :: "(ex_regs, ex_arrays) node" where
  "ex_full = after_events (host_says ''init'' @ host_says ''two'' @ proc_runs 6 @ [HandlerEvent]
     @ host_says ''meas'' @ proc_runs 1) (new_node NVHardware (NVPhysicalQuantumMemory 2))"

theorem nv_measure_no_room_witness:
  "processor_step ex_P ProcGo ex_full = Some (Inl UnboundLocalError)"
proof -
  let ?n = ex_full
  have "Qnos ''nv'' 2 = Inr (new_node NVHardware (NVPhysicalQuantumMemory 2) :: (ex_regs, ex_arrays) node)"
    by (simp add: Qnos_def)
  then have r: "reachable ex_P ?n"
    unfolding ex_full_def by (intro after_events_reachable reachable.start)
  have hw: "hardware_of ?n = NVHardware" "proc_pc_of ?n = ProcExec ex_meas_sub" by code_simp+
  have "case get_mem 0 ?n of Inl e \<Rightarrow> False | Inr m \<Rightarrow> am_prog_counter m = 0
     \<and> get_reg_value (shm ex_P) (ByReg (reg_Q 1)) m = Inr (Some 1) \<and> mapping m (Some 1) = Some 1" by code_simp
  then obtain m where m: "get_mem 0 ?n = Inr m" "am_prog_counter m = int 0"
     "get_reg_value (shm ex_P) (ByReg (reg_Q 1)) m = Inr (Some 1)" "mapping m (Some 1) = Some 1"
    by (auto split: sum.splits)
  have sub: "sub_app_id ex_meas_sub = 0" "0 < length (sub_instrs ex_meas_sub)"
      "sub_instrs ex_meas_sub ! 0 = Meas (reg_Q 1) (reg_M 0)"
    by (simp_all add: ex_meas_sub_def)
  have full: "positions (physical_memory ?n) \<subseteq> used (physical_memory ?n)" by code_simp
  have m0: "get_mem (sub_app_id ex_meas_sub) ?n = Inr m" using m(1) sub(1) by simp
  from nv_measure_no_room [OF r hw m0 m(2) sub(2,3) m(3,4) _ full] show ?thesis by simp
qed

text \<open>
  When the network stack reserves the electron, moving the electron for a measurement has no
  virtual qubit to follow: the measurement fails with \<open>RuntimeError\<close> after the device program.
\<close>

theorem nv_measure_reserved_electron:
  assumes "reachable P n" and "reserved (nstk_pc_of n) = Some 0"
    and "proc_pc_of n = ProcDevice s (KMoveElectron v p new cr)"
  shows "processor_step P (ProcDeviceDone x) n = Some (Inl RuntimeError)"
proof -
  have inv: "node_inv n" using assms(1) by (rule reachable_inv)
  then have ms: "mem_struct n" by (simp add: node_inv_def)
  have err: "search_virt_qubit q d = Inl e \<Longrightarrow> e = RuntimeError" for q d e
    by (induction d) (auto split: option.splits)
  have "get_virt_qubit_for_phys_id 0 n = Inl RuntimeError"
  proof (cases "get_virt_qubit_for_phys_id 0 n")
    case (Inl e)
    then show ?thesis using err by (simp add: get_virt_qubit_for_phys_id_def)
  next
    case (Inr r)
    obtain a w where r: "r = (a, w)" by (cases r)
    from get_virt_qubit_sound [OF ms Inr [unfolded r]] obtain m
      where m: "get_mem a n = Inr m" "mapping m (Some w) = Some 0" by blast
    then have "vmap n a (Some w) = Some 0" using mem_at_vmap [OF get_mem_mem_at [OF m(1)]] by simp
    then show ?thesis using node_inv_mapped(4) [OF inv] assms(2) by blast
  qed
  then show ?thesis using assms(3) by (simp add: nv_meas_electron_moved_def)
qed

theorem nv_measure_reserved_electron_witness:
  "\<exists>n. node_step ex_P (ProcessorEvent ProcGo) ex_waiting = Some (Inr n)
     \<and> reserved (nstk_pc_of n) = Some 0 \<and> processor_step ex_P (ProcDeviceDone 0) n = Some (Inl RuntimeError)"
proof -
  have "case node_step ex_P (ProcessorEvent ProcGo) ex_waiting of Some (Inr n) \<Rightarrow> reserved (nstk_pc_of n) = Some 0
      \<and> (case proc_pc_of n of ProcDevice s (KMoveElectron v p new cr) \<Rightarrow> True | _ \<Rightarrow> False) | _ \<Rightarrow> False"
    by code_simp
  then obtain n s v p new cr where n: "node_step ex_P (ProcessorEvent ProcGo) ex_waiting = Some (Inr n)"
      "reserved (nstk_pc_of n) = Some 0" "proc_pc_of n = ProcDevice s (KMoveElectron v p new cr)"
    by (auto split: option.splits sum.splits proc_pc.splits dev_kont.splits)
  have "reachable ex_P n" using ex_request_reachable(1) n(1) by (rule reachable.step)
  from nv_measure_reserved_electron [OF this n(2,3), of 0] n show ?thesis by blast
qed

end
