(* ===== verification/MemProps.thy ===== *)
theory MemProps
  imports PhysMem AppMem
begin

text \<open>
  Properties of the physical memory and of an application's memory, taken alone.
\<close>

text \<open>
  Each allocation method hands out the smallest free position it may use, and marks it;
  it raises, with \<open>AllocError\<close> and nothing else, exactly when no such position is left.
\<close>

theorem allocation_methods:
  assumes "phys_ok m"
    and "(alloc, avail) \<in> {(allocate, positions), (allocate_comm, comm_positions), (allocate_mem, mem_positions)}"
  shows "case alloc m of
      Inl e \<Rightarrow> e = AllocError \<and> avail m \<subseteq> used m
    | Inr (i, m') \<Rightarrow> i \<in> avail m - used m \<and> (\<forall>j \<in> avail m - used m. i \<le> j)
        \<and> used m' = insert i (used m) \<and> phys_ok m'"
proof -
  have pool: "qubit_pool alloc avail"
    using assms(2) any_pool.qubit_pool_axioms comm_pool.qubit_pool_axioms mem_pool.qubit_pool_axioms by auto
  show ?thesis
  proof (cases "alloc m")
    case (Inl e)
    then show ?thesis using qubit_pool.alloc_err [OF pool assms(1), of e] by simp
  next
    case (Inr r)
    obtain i m' where "r = (i, m')" by (cases r)
    then show ?thesis using qubit_pool.alloc_ok [OF pool assms(1), of i m'] Inr by simp
  qed
qed

theorem allocation_methods_witness:
  "allocate_mem (NVPhysicalQuantumMemory 2) = Inr (1, (NVPhysicalQuantumMemory 2)\<lparr>allocated_ids := IdSet {1}\<rparr>)
   \<and> 1 \<in> mem_positions (NVPhysicalQuantumMemory 2) - used (NVPhysicalQuantumMemory 2)"
proof -
  have e: "allocate_mem (NVPhysicalQuantumMemory 2) = Inr (1, (NVPhysicalQuantumMemory 2)\<lparr>allocated_ids := IdSet {1}\<rparr>)"
    by code_simp
  show ?thesis
    using allocation_methods [of "NVPhysicalQuantumMemory 2" allocate_mem mem_positions] e by simp
qed

text \<open>
  Freeing what was just allocated succeeds and restores the set of allocated positions;
  freeing a position that is not allocated is a \<open>KeyError\<close>; and after any position is freed
  the general allocation succeeds.
\<close>

theorem allocate_free_roundtrip:
  assumes "phys_ok m"
  shows "(\<forall>i m'. allocate m = Inr (i, m') \<longrightarrow> (\<exists>m''. free i m' = Inr m'' \<and> used m'' = used m))
     \<and> (\<forall>i. i \<notin> used m \<longrightarrow> free i m = Inl KeyError)
     \<and> (\<forall>i \<in> used m. \<exists>m'. free i m = Inr m' \<and> used m' = used m - {i} \<and> (\<exists>j m''. allocate m' = Inr (j, m'')))"
proof (intro conjI allI ballI impI)
  fix i m' assume "allocate m = Inr (i, m')"
  then show "\<exists>m''. free i m' = Inr m'' \<and> used m'' = used m"
    using any_pool.alloc_then_free [OF assms] by blast
next
  fix i assume "i \<notin> used m"
  then show "free i m = Inl KeyError" using free_used [OF assms] by simp
next
  fix i assume i: "i \<in> used m"
  then obtain m' where m': "free i m = Inr m'" using free_used [OF assms, of i] by auto
  moreover have "i \<in> positions m" using assms i by (auto simp: phys_ok_def)
  ultimately show "\<exists>m'. free i m = Inr m' \<and> used m' = used m - {i} \<and> (\<exists>j m''. allocate m' = Inr (j, m''))"
    using any_pool.free_then_alloc [OF assms m'] free_Inr [OF assms m'] by blast
qed

theorem allocate_free_roundtrip_witness:
  "free 3 (PhysicalQuantumMemory 2) = Inl KeyError \<and> phys_ok (PhysicalQuantumMemory 2)"
  using allocate_free_roundtrip [of "PhysicalQuantumMemory 2"] by simp

text \<open>
  \<open>clear\<close> leaves a memory that can no longer be used.  Nothing counts as allocated, but
  freeing any position raises \<open>AttributeError\<close>, and so does allocating one on a device that
  has positions.
\<close>

theorem clear_breaks_memory:
  "\<not> is_allocated i (clear m) \<and> free i (clear m) = Inl AttributeError
     \<and> (qubit_count m > 0 \<longrightarrow> allocate (clear m) = Inl AttributeError)"
proof -
  have "List.find (\<lambda>i. True) (py_range k) = Some 0" if "k > 0" for k
  proof -
    have "py_range k = 0 # map int [1..<nat k]" using that by (simp add: py_range_def upt_rec)
    then show ?thesis by simp
  qed
  then show ?thesis
    by (simp add: allocate_def allocate_where_def clear_def is_allocated_def free_def)
qed

theorem clear_breaks_memory_witness:
  "allocate (clear (PhysicalQuantumMemory 2)) = Inl AttributeError"
  using clear_breaks_memory [of 0 "PhysicalQuantumMemory 2"] by (simp add: PhysicalQuantumMemory_def)

text \<open>
  \<open>virt_id_for\<close> and \<open>phys_id_for\<close> are inverse on a mapping in which no position is
  mapped twice: the search finds the virtual qubit of a position exactly when that virtual
  qubit maps to the position.
\<close>

theorem virt_id_for_inverse:
  assumes "mapping_ok m"
  shows "virt_id_for p m = Some v \<longleftrightarrow> phys_id_for (Some v) m = Inr (Some p)"
  using virt_id_for_sound [of m p v] virt_id_for_complete [OF assms, of v p] assms
  by (auto simp: phys_id_for_mapping mapping_ok_def)

theorem virt_id_for_inverse_witness:
  "virt_id_for 7 (map_virt_id (Some 1) 7 (AppMemory ex_shmem 0 2)) = Some 1"
proof -
  have "mapping_ok (map_virt_id (Some 1) 7 (AppMemory ex_shmem 0 2))"
    by (rule mapping_ok_map) simp_all
  from virt_id_for_inverse [OF this, of 7 1] show ?thesis by (simp add: phys_id_for_mapping)
qed

text \<open>
  A register written with a 32-bit value reads back, whether it is named by an operand or
  by the string the code parses; every other register, the arrays, the qubit mapping and
  the program counter stay as they were.
\<close>

theorem register_roundtrip:
  assumes "shmem_laws L" and "0 \<le> i" and "i < 16" and "- (2 ^ 31) \<le> v" and "v < 2 ^ 31"
  shows "\<exists>m'. set_reg_value L (ByName (reg_prefix g # py_str i)) v m = Inr m'
     \<and> get_reg_value L (ByReg (Register g i)) m' = Inr (Some v)
     \<and> get_register L (ByName (reg_prefix g # py_str i)) m' = Inr (Some v)
     \<and> (\<forall>r. r \<noteq> Register g i \<longrightarrow> get_reg_value L (ByReg r) m' = get_reg_value L (ByReg r) m)
     \<and> am_arrays m' = am_arrays m \<and> am_virt_qubits m' = am_virt_qubits m
     \<and> am_prog_counter m' = am_prog_counter m"
proof -
  have same: "set_reg_value L (ByName (reg_prefix g # py_str i)) v m = set_reg_value L (ByReg (Register g i)) v m"
    "get_register L (ByName (reg_prefix g # py_str i)) m' = get_reg_value L (ByReg (Register g i)) m'" for m'
    using assms(3) by (simp_all add: set_reg_value_def get_register_def get_reg_value_def RegisterMeta_parse_str)
  obtain gr where "reg_write L (am_registers m) g i v = Inr gr" using shmem_reg_writeE [OF assms] .
  then obtain m' where m': "set_reg_value L (ByReg (Register g i)) v m = Inr m'" by (simp add: set_reg_value_def)
  then show ?thesis unfolding same
    using get_after_set_reg [OF assms(1) m'] get_other_after_set_reg [OF assms(1) m'] set_reg_frame [OF m'] by blast
qed

theorem register_roundtrip_witness:
  "\<exists>m'. set_reg_value ex_shmem (ByName ''M15'') 1 (AppMemory ex_shmem 0 2) = Inr m'
     \<and> get_reg_value ex_shmem (ByReg (Register RegM 15)) m' = Inr (Some 1)"
proof -
  have s: "py_str 15 = ''15''" by code_simp
  show ?thesis
    using register_roundtrip [OF ex_shmem_laws, of 15 1 RegM "AppMemory ex_shmem 0 2"] by (auto simp: s)
qed

text \<open>
  \<open>RegisterMeta.parse\<close> accepts a register name written as prefix and number exactly
  when the number is below 16, which includes the negative ones.
\<close>

theorem RegisterMeta_parse_roundtrip:
  "RegisterMeta_parse (reg_prefix g # py_str i) = (if i < 16 then Inr (g, i) else Inl AssertionError)"
  by (rule RegisterMeta_parse_str)

text \<open>
  An array entry written through \<open>set_array_value\<close> reads back through every reading
  interface: the entry, the slice around it and the whole array, whose other entries are
  those of before.
\<close>

theorem array_roundtrip:
  assumes "shmem_laws L" and "get_array L addr m = Inr xs" and "0 \<le> i" and "i < int (length xs)"
  shows "\<exists>m'. set_array_value L addr i v m = Inr m'
     \<and> get_array_value L addr i m' = Inr v
     \<and> get_array_entry L (ArrayEntry addr (IntIndex i)) m' = Inr v
     \<and> get_array_values L addr (Some i) (Some (i + 1)) m' = Inr [v]
     \<and> get_array L addr m' = Inr (xs[nat i := v])
     \<and> (\<forall>y. y \<noteq> addr \<longrightarrow> get_array L y m' = get_array L y m)"
proof -
  obtain m' where m': "set_array_value L addr i v m = Inr m'" "get_array L addr m' = Inr (xs[nat i := v])"
     "\<And>y. y \<noteq> addr \<Longrightarrow> get_array L y m' = get_array L y m"
    using set_array_value_whole [OF assms, where v = v] by blast
  have r: "get_array_value L addr i m' = Inr v"
    using get_array_value_whole [OF assms(1) m'(2) assms(3)] assms(3,4) by simp
  have "nat (i + 1) - nat i = 1" using assms(3) by simp
  then have "get_array_values L addr (Some i) (Some (i + 1)) m' = Inr (take 1 (drop (nat i) (xs[nat i := v])))"
    using get_array_values_whole [OF assms(1) m'(2) assms(3), of "i + 1"] assms(4) by simp
  moreover have "nat i < length (xs[nat i := v])" using assms(3,4) by simp
  then have "take 1 (drop (nat i) (xs[nat i := v])) = [v]"
    using Cons_nth_drop_Suc [of "nat i" "xs[nat i := v]"] by (metis One_nat_def length_list_update nth_list_update_eq take0 take_Suc_Cons)
  moreover have "get_array_entry L (ArrayEntry addr (IntIndex i)) m' = Inr v"
    using r by (simp add: get_array_entry_def get_array_value_def)
  ultimately show ?thesis using m' r by auto
qed

theorem array_roundtrip_witness:
  "\<exists>m'. set_array_value ex_shmem 4 1 (Some 9) (AppMemory ex_shmem 0 2\<lparr>am_arrays := [(4, [None, None])]\<rparr>) = Inr m'
     \<and> get_array_values ex_shmem 4 (Some 1) (Some 2) m' = Inr [Some 9]"
proof -
  have "get_array ex_shmem 4 (AppMemory ex_shmem 0 2\<lparr>am_arrays := [(4, [None, None])]\<rparr>) = Inr [None, None]"
    by (simp add: get_array_def ex_shmem_def)
  from array_roundtrip [OF ex_shmem_laws this, of 1 "Some 9"] show ?thesis by auto
qed

end
