(* ===== verification/ProcTime.thy ===== *)
theory ProcTime
  imports NodeInv
begin

text \<open>
  How far the processor is in a subroutine: a measure that every step of a subroutine without
  branches decreases, whatever the device returns and whenever the network stack answers.
\<close>

section \<open>The view\<close>

definition pcs :: "('rg, 'ar) node \<Rightarrow> int \<Rightarrow> int option" where
  "pcs n a = map_option am_prog_counter (mem_at n a)"

definition pv :: "('rg, 'ar) node \<Rightarrow> (int \<Rightarrow> int option) \<times> string list" where
  "pv n = (pcs n, nstk_to_proc n)"

named_theorems pv_keeps

lemma pcs_put [simp]:
  "pcs (put_mem a m n) = (pcs n)(a \<mapsto> am_prog_counter m)"
  "pcs (put_obj a m n) = (pcs n)(a \<mapsto> am_prog_counter m)"
  by (auto simp: pcs_def fun_eq_iff)

lemma pcs_get: "get_mem a n = Inr m \<Longrightarrow> pcs n a = Some (am_prog_counter m)"
  using get_mem_mem_at [of a n m] by (simp add: pcs_def)

lemma pcs_get_obj: "get_obj a n = Inr m \<Longrightarrow> pcs n a = Some (am_prog_counter m)"
  using get_obj_mem_at [of a n m] by (simp add: pcs_def)

lemma nstk_put [simp]:
  "nstk_to_proc (put_mem a m n) = nstk_to_proc n"
  "nstk_to_proc (put_obj a m n) = nstk_to_proc n"
  by (simp_all add: put_mem_def put_obj_def split: option.split)

lemma pv_put_same:
  "get_mem a n = Inr m \<Longrightarrow> am_prog_counter m' = am_prog_counter m \<Longrightarrow> pv (put_mem a m' n) = pv n"
  "get_obj a n = Inr m \<Longrightarrow> am_prog_counter m' = am_prog_counter m \<Longrightarrow> pv (put_obj a m' n) = pv n"
  using pcs_get [of a n m] pcs_get_obj [of a n m] by (auto simp: pv_def fun_eq_iff)

lemma mem_at_congI:
  assumes "app_memories n' = app_memories n" and "dropped_memories n' = dropped_memories n"
    and "nstk_to_proc n' = nstk_to_proc n"
  shows "pv n' = pv n"
  using assms by (simp add: pv_def pcs_def mem_at_def fun_eq_iff)

lemma pv_frame [simp]:
  "pv (log_device e n) = pv n"
  "pv (signal_memory_freed n) = pv n"
  "pv (send_netstack_msg msg n) = pv n"
  "pv (n\<lparr>physical_memory := pm\<rparr>) = pv n"
  "pv (n\<lparr>hand_to_proc := ss\<rparr>) = pv n"
  "pv (n\<lparr>proc_to_hand := ms\<rparr>) = pv n"
  "pv (n\<lparr>proc_pc_of := pc\<rparr>) = pv n"
  by (rule mem_at_congI; simp add: log_device_def signal_memory_freed_def send_netstack_msg_def)+

lemma on_mem_pv [pv_keeps]:
  assumes "on_mem a f n = Inr n'" and "\<And>m m'. f m = Inr m' \<Longrightarrow> am_prog_counter m' = am_prog_counter m"
  shows "pv n' = pv n"
  using assms by (auto simp: on_mem_def result_simps intro!: pv_put_same)

lemma on_obj_pv [pv_keeps]:
  assumes "on_obj a f n = Inr n'" and "\<And>m m'. f m = Inr m' \<Longrightarrow> am_prog_counter m' = am_prog_counter m"
  shows "pv n' = pv n"
  using assms by (auto simp: on_obj_def result_simps intro!: pv_put_same)

lemma phys_pv [pv_keeps]:
  "on_phys g n = Inr (x, n') \<Longrightarrow> pv n' = pv n"
  "free_phys p n = Inr n' \<Longrightarrow> pv n' = pv n"
  by (auto simp: on_phys_def free_phys_def result_simps)

lemma classical_pv [pv_keeps]:
  "interpret_set P a r imm n = Inr n' \<Longrightarrow> pv n' = pv n"
  "interpret_store P a r e n = Inr n' \<Longrightarrow> pv n' = pv n"
  "interpret_load P a r e n = Inr n' \<Longrightarrow> pv n' = pv n"
  "interpret_lea P a r addr n = Inr n' \<Longrightarrow> pv n' = pv n"
  "interpret_undef P a e n = Inr n' \<Longrightarrow> pv n' = pv n"
  "interpret_array P a r addr n = Inr n' \<Longrightarrow> pv n' = pv n"
  "interpret_binary_classical_instr P a oper ro r0 r1 rm n = Inr n' \<Longrightarrow> pv n' = pv n"
  unfolding interpret_set_def interpret_store_def interpret_load_def interpret_lea_def
    interpret_undef_def interpret_array_def interpret_binary_classical_instr_def
  by (erule on_mem_pv; auto simp: result_simps dest: set_reg_frame set_array_entry_frame
      init_new_array_frame split: option.splits)+

lemma map_virt_pc [simp]:
  "am_prog_counter (map_virt_id v p m) = am_prog_counter m"
  "am_prog_counter (unmap_virt_id v m) = am_prog_counter m"
  "am_prog_counter (remap v p m) = am_prog_counter m"
  by (simp_all add: map_virt_id_def unmap_virt_id_def remap_def)

lemma epr_pv [pv_keeps]:
  "interpret_create_epr P a rem sck q args res n = Inr n' \<Longrightarrow> pv n' = pv n"
  "interpret_recv_epr P a rem sck q res n = Inr n' \<Longrightarrow> pv n' = pv n"
  by (auto simp: interpret_create_epr_def interpret_recv_epr_def result_simps)

lemma alloc_put_pv:
  assumes "get_mem a n = Inr m" and "on_phys g n = Inr (p, n1)" and "am_prog_counter m' = am_prog_counter m"
  shows "pv (put_mem a m' n1) = pv n"
  using pcs_get [OF assms(1)] phys_pv(1) [OF assms(2)] assms(3) by (auto simp: pv_def fun_eq_iff)

lemma qubit_pv [pv_keeps]:
  "interpret_qalloc P a r n = Inr n' \<Longrightarrow> pv n' = pv n"
  "nv_interpret_qalloc P a r n = Inr n' \<Longrightarrow> pv n' = pv n"
  "interpret_qfree P a r n = Inr n' \<Longrightarrow> pv n' = pv n"
  by (auto simp: interpret_qalloc_def nv_interpret_qalloc_def interpret_qfree_def result_simps
      dest!: phys_pv(2) intro!: alloc_put_pv pv_put_same)

section \<open>Stages of an instruction\<close>

text \<open>How many steps an instruction may still take at a program point, at most.\<close>

fun stage :: "proc_pc \<Rightarrow> nat" where
  "stage ProcIdle = 0"
| "stage (ProcExec s) = 4"
| "stage (ProcDevice s KNext) = 1"
| "stage (ProcDevice s (KMeas c)) = 1"
| "stage (ProcDevice s (KMoveElectron v q new c)) = 3"
| "stage (ProcDevice s (KMoveCarbon v q c)) = 2"
| "stage (ProcWaitAll s addr i j) = 3"
| "stage (ProcBreak s role AwaitReady) = 2"
| "stage (ProcBreak s role AwaitFinished) = 1"

definition pv_result :: "nat \<Rightarrow> ('rg, 'ar) node \<Rightarrow> proc_outcome \<times> ('rg, 'ar) node \<Rightarrow> bool" where
  "pv_result k n r \<longleftrightarrow> pcs (snd r) = pcs n \<and> length (nstk_to_proc (snd r)) \<le> length (nstk_to_proc n)
     \<and> (case fst r of Finished \<Rightarrow> True | Suspended pc \<Rightarrow> stage pc \<le> k)"

lemma pv_resultI: "pv (snd r) = pv n \<Longrightarrow> (\<And>pc. fst r = Suspended pc \<Longrightarrow> stage pc \<le> k) \<Longrightarrow> pv_result k n r"
  by (simp add: pv_result_def pv_def split: proc_outcome.split)

lemma no_yield_pv:
  assumes "no_yield r = Inr x" and "\<And>n'. r = Inr n' \<Longrightarrow> pv n' = pv n"
  shows "pv_result k n x"
  using assms by (auto simp: no_yield_def result_simps intro: pv_resultI)

lemma run_program_pv:
  "run_program s prog c n1 = Inr r \<Longrightarrow> pv n1 = pv n \<Longrightarrow> stage (ProcDevice s c) \<le> k \<Longrightarrow> pv_result k n r"
  by (auto simp: run_program_def intro!: pv_resultI)

lemma wait_all_pv [pv_keeps]: "wait_all_check P s addr i j n = Inr r \<Longrightarrow> pv_result 3 n r"
  by (auto simp: wait_all_check_def pv_result_def pcs_def mem_at_def result_simps fun_eq_iff split: if_splits)

lemma interpret_wait_all_pv [pv_keeps]: "interpret_wait_all P s sl n = Inr r \<Longrightarrow> pv_result 3 n r"
  by (cases "(P, s, sl, n)" rule: interpret_wait_all.cases) (auto simp: result_simps dest: wait_all_pv)

lemma breakpoint_pv [pv_keeps]:
  "interpret_breakpoint s action role n = Inr r \<Longrightarrow> pv_result 3 n r"
  by (auto simp: interpret_breakpoint_def result_simps intro!: pv_resultI split: if_splits)

lemma resume_breakpoint_pv:
  "resume_breakpoint s role stg msg n = Inr r \<Longrightarrow> pv_result (stage (ProcBreak s role stg) - 1) n r"
  by (auto simp: resume_breakpoint_def result_simps Let_def intro!: pv_resultI split: if_splits break_stage.splits)

lemma gate_pv [pv_keeps]:
  "do_single_rotation P s r num denom ns n = Inr x \<Longrightarrow> pv_result 3 n x"
  "do_controlled_rotation P s r0 r1 num denom ns n = Inr x \<Longrightarrow> pv_result 3 n x"
  "generic_interpret_init P s r n = Inr x \<Longrightarrow> pv_result 3 n x"
  "generic_interpret_meas P s r c n = Inr x \<Longrightarrow> pv_result 3 n x"
  "generic_interpret_single_qubit_instr P s g r n = Inr x \<Longrightarrow> pv_result 3 n x"
  "generic_interpret_two_qubit_instr P s tg r0 r1 n = Inr x \<Longrightarrow> pv_result 3 n x"
  "nv_interpret_init P s r n = Inr x \<Longrightarrow> pv_result 3 n x"
  by (auto simp: do_single_rotation_def do_controlled_rotation_def generic_interpret_init_def
      generic_interpret_meas_def generic_interpret_single_qubit_instr_def
      generic_interpret_two_qubit_instr_def nv_interpret_init_def result_simps elim!: run_program_pv)

lemma rotation_pv [pv_keeps]:
  "generic_interpret_single_rotation_instr P s gr r num denom n = Inr x \<Longrightarrow> pv_result 3 n x"
  "nv_interpret_single_rotation_instr P s gr r num denom n = Inr x \<Longrightarrow> pv_result 3 n x"
  by (cases gr; auto dest: gate_pv)+

lemma controlled_rotation_pv [pv_keeps]:
  "nv_interpret_controlled_rotation_instr P s cg r0 r1 num denom n = Inr x \<Longrightarrow> pv_result 3 n x"
  by (cases "(P, s, cg, r0, r1, num, denom, n)" rule: nv_interpret_controlled_rotation_instr.cases)
    (auto dest: gate_pv)

lemma measure_electron_pv: "measure_electron s c n1 = Inr r \<Longrightarrow> pv n1 = pv n \<Longrightarrow> pv_result 1 n r"
  by (auto simp: measure_electron_def elim!: run_program_pv)

lemma remap_pv:
  "on_mem a (\<lambda>m. Inr (remap v p m)) n = Inr n' \<Longrightarrow> pv n' = pv n"
  "on_obj a (\<lambda>m. Inr (remap v p m)) n = Inr n' \<Longrightarrow> pv n' = pv n"
  by (erule on_mem_pv on_obj_pv; auto)+

lemma nv_meas_pv [pv_keeps]:
  assumes "nv_interpret_meas P s q c n = Inr r"
  shows "pv_result 3 n r"
proof -
  from assms consider (e) "measure_electron s c n = Inr r"
    | (m) new n1 prog v p where "on_phys allocate n = Inr (new, n1)"
        "run_program s prog (KMoveElectron v p new c) n1 = Inr r"
    | (f) x n1 v n2 prog p where "on_phys allocate_comm n = Inr (x, n1)"
        "on_mem (sub_app_id s) (\<lambda>m. Inr (remap v 0 m)) n1 = Inr n2"
        "run_program s prog (KMoveCarbon v p c) n2 = Inr r"
    by (auto simp: nv_interpret_meas_def result_simps split: if_splits sum.splits py_error.splits)
  then show ?thesis
  proof cases
    case e
    then show ?thesis using measure_electron_pv [of s c n r n] by (auto simp: pv_result_def split: proc_outcome.splits)
  next
    case m
    show ?thesis by (rule run_program_pv [OF m(2) phys_pv(1) [OF m(1)]]) simp
  next
    case f
    show ?thesis
      by (rule run_program_pv [OF f(3)]) (simp_all add: remap_pv(1) [OF f(2)] phys_pv(1) [OF f(1)])
  qed
qed

lemma interpret_instruction_pv:
  assumes "interpret_instruction P s i n = Inr r"
  shows "pv_result 3 n r"
  using assms
  by (cases i)
    (auto split: hardware.splits elim!: no_yield_pv dest: pv_keeps intro: pv_resultI
      simp: nv_interpret_gate_def generic_interpret_controlled_rotation_instr_def)

lemma resume_device_pv:
  assumes "resume_device P s k out n = Inr r"
  shows "pv_result (stage (ProcDevice s k) - 1) n r"
proof (cases k)
  case KNext
  then show ?thesis using assms by (auto intro: pv_resultI)
next
  case (KMeas creg)
  have "pv n' = pv n" if "on_obj (sub_app_id s) (set_reg_value (shm P) (ByReg creg) out) n = Inr n'" for n'
    using that by (rule on_obj_pv) (auto dest: set_reg_frame)
  then show ?thesis using assms KMeas by (auto elim: no_yield_pv)
next
  case (KMoveElectron v p new c)
  then obtain b w n1 n2 where x: "on_mem b (\<lambda>m. Inr (remap (Some w) new m)) n = Inr n1"
      "on_obj (sub_app_id s) (\<lambda>m. Inr (remap v 0 m)) n1 = Inr n2"
      "run_program s (carbon_to_electron_prog p) (KMoveCarbon v p c) n2 = Inr r"
    using assms by (auto simp: nv_meas_electron_moved_def result_simps)
  show ?thesis
    by (rule run_program_pv [OF x(3)]) (simp_all add: remap_pv(1) [OF x(1)] remap_pv(2) [OF x(2)] KMoveElectron)
next
  case (KMoveCarbon v p c)
  then obtain q n1 where x: "free_phys q n = Inr n1"
      "measure_electron s c (log_device (SetInUse q False) (signal_memory_freed n1)) = Inr r"
    using assms by (auto simp: nv_meas_carbon_moved_def result_simps split: option.splits)
  show ?thesis using measure_electron_pv [OF x(2), of n] phys_pv(2) [OF x(1)] by (simp add: KMoveCarbon)
qed

section \<open>The measure\<close>

definition left :: "subroutine \<Rightarrow> ('rg, 'ar) node \<Rightarrow> nat" where
  "left s n = (case pcs n (sub_app_id s) of None \<Rightarrow> 0 | Some k \<Rightarrow> nat (int (length (sub_instrs s)) - k))"

definition work :: "subroutine \<Rightarrow> ('rg, 'ar) node \<Rightarrow> nat" where
  "work s n = 5 * left s n + stage (proc_pc_of n) + length (nstk_to_proc n)"

text \<open>The processor runs \<open>s\<close>, and inside an instruction the counter is that of one.\<close>

definition executing :: "subroutine \<Rightarrow> ('rg, 'ar) node \<Rightarrow> bool" where
  "executing s n \<longleftrightarrow> running (proc_pc_of n) = Some s \<and> (proc_pc_of n \<noteq> ProcExec s \<longrightarrow> left s n > 0)"

definition branch_free :: "subroutine \<Rightarrow> bool" where
  "branch_free s \<longleftrightarrow> (\<forall>i \<in> set (sub_instrs s). \<not> is_branch i)"

lemma py_index_mem: "py_index xs i = Inr x \<Longrightarrow> x \<in> set xs"
  by (auto simp: py_index_def Let_def split: if_splits)

lemma after_instr_work:
  assumes "pv_result k n (out, n1)" and "after_instr s (out, n1) = Inr n'"
    and "left s n > 0" and "running (outcome_pc s out) = Some s"
  shows "executing s n' \<and> 5 * left s n' + stage (proc_pc_of n') \<le> 5 * left s n + max k (stage ProcIdle)
     \<and> length (nstk_to_proc n') \<le> length (nstk_to_proc n) \<and> (out = Finished \<longrightarrow> 5 * left s n' + stage (proc_pc_of n') < 5 * left s n)"
proof (cases out)
  case Finished
  then obtain n2 where n2: "on_obj (sub_app_id s) (\<lambda>m. Inr (increment_prog_counter m)) n1 = Inr n2"
      "n' = n2\<lparr>proc_pc_of := ProcExec s\<rparr>" using assms(2) by (auto simp: result_simps)
  then obtain m where m: "get_obj (sub_app_id s) n1 = Inr m"
      "n2 = put_obj (sub_app_id s) (increment_prog_counter m) n1" by (auto simp: on_obj_def result_simps)
  have pv: "pv n' = pv n2" using n2(2) by simp
  have "pcs n' (sub_app_id s) = Some (am_prog_counter m + 1)"
    using pv m by (simp add: pv_def increment_prog_counter_def)
  moreover have "pcs n (sub_app_id s) = Some (am_prog_counter m)"
    using assms(1) pcs_get_obj [OF m(1)] by (simp add: pv_result_def)
  ultimately have "left s n = Suc (left s n')" using assms(3) by (simp add: left_def)
  moreover have "length (nstk_to_proc n') \<le> length (nstk_to_proc n)"
    using pv m(2) assms(1) by (simp add: pv_def pv_result_def)
  ultimately show ?thesis using n2(2) Finished by (simp add: executing_def)
next
  case (Suspended pc)
  then have n': "n' = n1\<lparr>proc_pc_of := pc\<rparr>" using assms(2) by simp
  have "pv n' = pv n1" by (simp add: n')
  then have "pcs n' = pcs n" "length (nstk_to_proc n') \<le> length (nstk_to_proc n)"
    using assms(1) by (simp_all add: pv_def pv_result_def)
  then show ?thesis using assms(1,3,4) Suspended n' by (simp add: executing_def left_def pv_result_def)
qed

lemma processor_step_work:
  assumes "executing s n" and "branch_free s" and "processor_step P e n = Some (Inr n')"
  shows "work s n' < work s n \<and> (executing s n' \<or> proc_pc_of n' = ProcIdle)"
proof -
  have fin: ?thesis if "pv_result k n r" "after_instr s r = Inr n'"
      "ctl_result s n1 r" "left s n > 0" "k < stage (proc_pc_of n)" for k r n1
    using after_instr_work [of k n "fst r" "snd r" s n'] that by (cases r) (auto simp: work_def ctl_result_def)
  have run: "running (proc_pc_of n) = Some s" using assms(1) by (simp add: executing_def)
  show ?thesis
  proof (cases "proc_pc_of n")
    case ProcIdle
    then show ?thesis using run by simp
  next
    case [simp]: (ProcExec t)
    then have [simp]: "t = s" using run by simp
    have "e = ProcGo" using assms(3) by (cases e) auto
    then have x: "execute_subroutine_step P s n = Inr n'" using assms(3) by simp
    obtain m where m: "get_obj (sub_app_id s) n = Inr m" using x by (auto simp: execute_subroutine_step_def result_simps)
    have l: "left s n = nat (int (length (sub_instrs s)) - am_prog_counter m)"
      using pcs_get_obj [OF m] by (simp add: left_def)
    show ?thesis
    proof (cases "am_prog_counter m < int (length (sub_instrs s))")
      case True
      then obtain i where i: "py_index (sub_instrs s) (am_prog_counter m) = Inr i"
        using x m by (auto simp: execute_subroutine_step_def result_simps)
      then have "\<not> is_branch i" using assms(2) py_index_mem [OF i] by (simp add: branch_free_def)
      then obtain r where r: "interpret_instruction P s i n = Inr r" "after_instr s r = Inr n'"
        using x m True i by (auto simp: execute_subroutine_step_def result_simps)
      show ?thesis
        by (rule fin [OF interpret_instruction_pv [OF r(1)] r(2) interpret_instruction_ctl [OF r(1)]]) (use True l in auto)
    next
      case False
      then have n': "n' = n\<lparr>proc_to_hand := proc_to_hand n @ [''subroutine done''], proc_pc_of := ProcIdle\<rparr>"
        using x m by (simp add: execute_subroutine_step_def)
      have "pv n' = pv n" by (simp add: n')
      then show ?thesis by (simp add: work_def left_def pv_def) (simp add: n')
    qed
  next
    case [simp]: (ProcDevice t k)
    then have [simp]: "t = s" and l: "left s n > 0" using run assms(1) by (auto simp: executing_def)
    obtain out r where r: "resume_device P s k out n = Inr r" "after_instr s r = Inr n'"
      using assms(3) by (cases e) (auto simp: result_simps)
    have "stage (ProcDevice s k) - 1 < stage (proc_pc_of n)" by (cases k) simp_all
    then show ?thesis
      by (rule fin [OF resume_device_pv [OF r(1)] r(2) resume_device_ctl [OF r(1)] l])
  next
    case [simp]: (ProcWaitAll t addr i j)
    then have [simp]: "t = s" and l: "left s n > 0" using run assms(1) by (auto simp: executing_def)
    obtain msg rest r where r: "nstk_to_proc n = msg # rest"
      "wait_all_check P s addr i j (n\<lparr>nstk_to_proc := rest\<rparr>) = Inr r" "after_instr s r = Inr n'"
      using assms(3) by (cases e) (auto simp: result_simps split: list.splits)
    let ?n = "n\<lparr>nstk_to_proc := rest\<rparr>"
    have pcs: "pcs ?n = pcs n" by (simp add: pcs_def mem_at_def fun_eq_iff)
    have "executing s n' \<and> 5 * left s n' + stage (proc_pc_of n') \<le> 5 * left s ?n + 3
       \<and> length (nstk_to_proc n') \<le> length rest"
      using after_instr_work [of 3 ?n "fst r" "snd r" s n'] wait_all_pv [OF r(2)] wait_all_ctl [OF r(2)] r(3) l pcs
      by (cases r) (auto simp: ctl_result_def left_def)
    then show ?thesis using pcs r(1) by (simp add: work_def left_def)
  next
    case [simp]: (ProcBreak t role stg)
    then have [simp]: "t = s" and l: "left s n > 0" using run assms(1) by (auto simp: executing_def)
    obtain msg rest r where r: "nstk_to_proc n = msg # rest"
      "resume_breakpoint s role stg msg (n\<lparr>nstk_to_proc := rest\<rparr>) = Inr r" "after_instr s r = Inr n'"
      using assms(3) by (cases e) (auto simp: result_simps split: list.splits)
    let ?n = "n\<lparr>nstk_to_proc := rest\<rparr>"
    have pcs: "pcs ?n = pcs n" by (simp add: pcs_def mem_at_def fun_eq_iff)
    have ln: "left s ?n = left s n" using pcs by (simp add: left_def)
    obtain out n1 where rr: "r = (out, n1)" by (cases r)
    have "running (outcome_pc s out) = Some s" using breakpoint_ctl(2) [OF r(2)] by (simp add: rr ctl_result_def)
    from after_instr_work [OF resume_breakpoint_pv [OF r(2), unfolded rr] r(3) [unfolded rr] _ this] l ln
    show ?thesis using r(1) by (cases stg) (simp_all add: work_def)
  qed
qed

text \<open>A run of the processor alone on a subroutine is bounded by the work it starts with.\<close>

lemma idle_run:
  assumes "proc_pc_of n = ProcIdle" and "hand_to_proc n = []"
    and "run_events P (map ProcessorEvent es) n = Inr n'"
  shows "es = [] \<and> n' = n"
proof (cases es)
  case (Cons e es')
  have "processor_step P e n = None" using assms(1,2) by (cases e) simp_all
  then show ?thesis using assms(3) Cons by simp
qed (use assms in simp)

lemma processor_step_hand:
  assumes "running (proc_pc_of n) = Some s" and "processor_step P e n = Some (Inr n')"
  shows "hand_to_proc n' = hand_to_proc n"
proof -
  have h: ?thesis if "after_instr t r = Inr n'" "ctl_result t n1 r" "ctl n1 = ctl n" for t r n1
    using ctl_eqD(2) after_instr_ctl [OF that(1,2)] that(3) by metis
  show ?thesis
  proof (cases "proc_pc_of n")
    case (ProcExec t)
    then have x: "execute_subroutine_step P t n = Inr n'" using assms(2) by (cases e) auto
    then consider
        (fin) "n' = n\<lparr>proc_to_hand := proc_to_hand n @ [''subroutine done''], proc_pc_of := ProcIdle\<rparr>"
      | (branch) i n1 where "interpret_branch_instr P (sub_app_id t) i n = Inr n1" "n' = n1\<lparr>proc_pc_of := ProcExec t\<rparr>"
      | (instr) i r where "interpret_instruction P t i n = Inr r" "after_instr t r = Inr n'"
      by (fastforce simp: execute_subroutine_step_def result_simps split: if_splits)
    then show ?thesis
    proof cases
      case branch
      have "ctl n' = ctl n" using branch_ctl [OF branch(1)] by (simp add: branch(2))
      then show ?thesis by (rule ctl_eqD(2))
    next
      case instr
      then show ?thesis using h interpret_instruction_ctl by blast
    qed simp
  next
    case (ProcDevice t k)
    then obtain out r where "resume_device P t k out n = Inr r" "after_instr t r = Inr n'"
      using assms(2) by (cases e) (auto simp: result_simps)
    then show ?thesis using h resume_device_ctl by blast
  next
    case (ProcWaitAll t addr i j)
    then obtain rest r where "wait_all_check P t addr i j (n\<lparr>nstk_to_proc := rest\<rparr>) = Inr r" "after_instr t r = Inr n'"
      using assms(2) by (cases e) (auto simp: result_simps split: list.splits)
    then show ?thesis using h wait_all_ctl ctl_frame(6) by blast
  next
    case (ProcBreak t role stg)
    then obtain msg rest r where "resume_breakpoint t role stg msg (n\<lparr>nstk_to_proc := rest\<rparr>) = Inr r" "after_instr t r = Inr n'"
      using assms(2) by (cases e) (auto simp: result_simps split: list.splits)
    then show ?thesis using h breakpoint_ctl(2) ctl_frame(6) by blast
  qed (use assms(1) in simp)
qed

lemma bounded_run:
  assumes "executing s n" and "branch_free s" and "hand_to_proc n = []"
    and "run_events P (map ProcessorEvent es) n = Inr n'"
  shows "length es \<le> work s n"
  using assms(1,3,4)
proof (induction es arbitrary: n)
  case Nil
  then show ?case by simp
next
  case (Cons e es)
  obtain n1 where n1: "processor_step P e n = Some (Inr n1)" "run_events P (map ProcessorEvent es) n1 = Inr n'"
    using Cons.prems(3) by (auto simp: result_simps split: option.splits)
  have h: "hand_to_proc n1 = []"
    using processor_step_hand [OF _ n1(1)] Cons.prems(1,2) by (simp add: executing_def)
  note w = processor_step_work [OF Cons.prems(1) assms(2) n1(1)]
  show ?case
  proof (cases "proc_pc_of n1 = ProcIdle")
    case True
    then show ?thesis using idle_run [OF True h n1(2)] w by simp
  next
    case False
    then show ?thesis using Cons.IH [OF _ h n1(2)] w by simp
  qed
qed

end
