(* ===== verification/NstkWait.thy ===== *)
theory NstkWait
  imports ProcTime
begin

text \<open>
  The network stack's wait for memory.  Nobody but the network stack itself ends the wait or
  takes the signal back: the steps of the handler, of the processor and of the environment
  keep its program point, the signal once it is set, and the EGPs it knows.
\<close>

definition keeps_wait :: "('rg, 'ar) node \<Rightarrow> ('rg, 'ar) node \<Rightarrow> bool" where
  "keeps_wait n n' \<longleftrightarrow> nstk_pc_of n' = nstk_pc_of n \<and> (memory_freed n \<longrightarrow> memory_freed n')
     \<and> dom (map_of (egps n)) \<subseteq> dom (map_of (egps n'))"

named_theorems wait_keeps

lemma keeps_wait_refl [simp]: "keeps_wait n n"
  by (simp add: keeps_wait_def)

lemma keeps_wait_trans [trans]: "keeps_wait n n1 \<Longrightarrow> keeps_wait n1 n2 \<Longrightarrow> keeps_wait n n2"
  by (auto simp: keeps_wait_def)

lemma keeps_wait_frame [simp]:
  "keeps_wait n (put_mem a m n') = keeps_wait n n'"
  "keeps_wait n (put_obj a m n') = keeps_wait n n'"
  "keeps_wait n (log_device e n') = keeps_wait n n'"
  "keeps_wait n (send_netstack_msg msg n') = keeps_wait n n'"
  "keeps_wait n (send_host_msg rep n') = keeps_wait n n'"
  "keeps_wait n (n'\<lparr>physical_memory := pm\<rparr>) = keeps_wait n n'"
  "keeps_wait n (n'\<lparr>nstk_to_proc := ms\<rparr>) = keeps_wait n n'"
  "keeps_wait n (n'\<lparr>hand_to_proc := ss\<rparr>) = keeps_wait n n'"
  "keeps_wait n (n'\<lparr>proc_to_hand := ms\<rparr>) = keeps_wait n n'"
  "keeps_wait n (n'\<lparr>host_to_hand := ms\<rparr>) = keeps_wait n n'"
  "keeps_wait n (n'\<lparr>hand_pc_of := hp\<rparr>) = keeps_wait n n'"
  "keeps_wait n (n'\<lparr>proc_pc_of := pc\<rparr>) = keeps_wait n n'"
  "keeps_wait n (n'\<lparr>applications := aps\<rparr>) = keeps_wait n n'"
  "keeps_wait n (n'\<lparr>app_memories := ams\<rparr>) = keeps_wait n n'"
  "keeps_wait n (n'\<lparr>dropped_memories := dms\<rparr>) = keeps_wait n n'"
  "keeps_wait n (n'\<lparr>app_counter := k\<rparr>) = keeps_wait n n'"
  "keeps_wait n (n'\<lparr>epr_sockets := es\<rparr>) = keeps_wait n n'"
  "keeps_wait n (n'\<lparr>should_clear_memory := b\<rparr>) = keeps_wait n n'"
  "keeps_wait n (n'\<lparr>peer_listeners := pl\<rparr>) = keeps_wait n n'"
  "keeps_wait n (n'\<lparr>peer_ports := pp\<rparr>) = keeps_wait n n'"
  by (simp_all add: keeps_wait_def put_mem_def put_obj_def log_device_def send_netstack_msg_def
      send_host_msg_def split: option.split)

lemma keeps_wait_from [simp]:
  "keeps_wait (put_mem a m n) n' = keeps_wait n n'"
  "keeps_wait (n\<lparr>nstk_to_proc := ms\<rparr>) n' = keeps_wait n n'"
  "keeps_wait (n\<lparr>hand_to_proc := ss\<rparr>) n' = keeps_wait n n'"
  "keeps_wait (n\<lparr>host_to_hand := hs\<rparr>) n' = keeps_wait n n'"
  by (simp_all add: keeps_wait_def put_mem_def)

lemma keeps_wait_signal: "keeps_wait n n' \<Longrightarrow> keeps_wait n (signal_memory_freed n')"
  by (simp add: keeps_wait_def signal_memory_freed_def)

lemma keeps_wait_ops [wait_keeps]:
  "on_mem a f n = Inr n' \<Longrightarrow> keeps_wait n n'"
  "on_obj a f n = Inr n' \<Longrightarrow> keeps_wait n n'"
  "on_phys g n = Inr (x, n') \<Longrightarrow> keeps_wait n n'"
  "free_phys p n = Inr n' \<Longrightarrow> keeps_wait n n'"
  by (auto simp: on_mem_def on_obj_def on_phys_def free_phys_def result_simps)

section \<open>The processor\<close>

lemma classical_wait [wait_keeps]:
  "interpret_set P a r imm n = Inr n' \<Longrightarrow> keeps_wait n n'"
  "interpret_store P a r e n = Inr n' \<Longrightarrow> keeps_wait n n'"
  "interpret_load P a r e n = Inr n' \<Longrightarrow> keeps_wait n n'"
  "interpret_lea P a r addr n = Inr n' \<Longrightarrow> keeps_wait n n'"
  "interpret_undef P a e n = Inr n' \<Longrightarrow> keeps_wait n n'"
  "interpret_array P a r addr n = Inr n' \<Longrightarrow> keeps_wait n n'"
  "interpret_binary_classical_instr P a oper ro r0 r1 rm n = Inr n' \<Longrightarrow> keeps_wait n n'"
  unfolding interpret_set_def interpret_store_def interpret_load_def interpret_lea_def
    interpret_undef_def interpret_array_def interpret_binary_classical_instr_def
  by (erule keeps_wait_ops(1))+

lemma branch_wait: "interpret_branch_instr P a i n = Inr n' \<Longrightarrow> keeps_wait n n'"
  by (cases "(P, a, i, n)" rule: interpret_branch_instr.cases)
    (auto dest!: keeps_wait_ops split: if_splits)

lemma qubit_wait [wait_keeps]:
  "interpret_qalloc P a r n = Inr n' \<Longrightarrow> keeps_wait n n'"
  "nv_interpret_qalloc P a r n = Inr n' \<Longrightarrow> keeps_wait n n'"
  "interpret_qfree P a r n = Inr n' \<Longrightarrow> keeps_wait n n'"
  "interpret_create_epr P a rem sck q args res n = Inr n' \<Longrightarrow> keeps_wait n n'"
  "interpret_recv_epr P a rem sck q res n = Inr n' \<Longrightarrow> keeps_wait n n'"
  by (auto simp: interpret_qalloc_def nv_interpret_qalloc_def interpret_qfree_def interpret_create_epr_def
      interpret_recv_epr_def result_simps dest!: keeps_wait_ops intro: keeps_wait_signal)

definition wait_result :: "('rg, 'ar) node \<Rightarrow> proc_outcome \<times> ('rg, 'ar) node \<Rightarrow> bool" where
  "wait_result n r \<longleftrightarrow> keeps_wait n (snd r)"

lemma finished_wait [simp]: "wait_result n (out, n)"
  by (simp add: wait_result_def)

lemma no_yield_wait:
  "no_yield r = Inr x \<Longrightarrow> (\<And>n'. r = Inr n' \<Longrightarrow> keeps_wait n n') \<Longrightarrow> wait_result n x"
  by (auto simp: no_yield_def wait_result_def result_simps)

lemma run_program_wait: "run_program s prog c n1 = Inr r \<Longrightarrow> keeps_wait n n1 \<Longrightarrow> wait_result n r"
  by (auto simp: run_program_def wait_result_def)

lemma control_wait [wait_keeps]:
  "wait_all_check P s addr i j n = Inr r \<Longrightarrow> wait_result n r"
  "interpret_breakpoint s action role n = Inr r \<Longrightarrow> wait_result n r"
  "resume_breakpoint s role stg msg n = Inr r \<Longrightarrow> wait_result n r"
  by (auto simp: wait_all_check_def interpret_breakpoint_def resume_breakpoint_def wait_result_def
      result_simps Let_def split: if_splits break_stage.splits)

lemma interpret_wait_all_wait [wait_keeps]: "interpret_wait_all P s sl n = Inr r \<Longrightarrow> wait_result n r"
  by (cases "(P, s, sl, n)" rule: interpret_wait_all.cases) (auto simp: result_simps dest: control_wait(1))

lemma gate_wait [wait_keeps]:
  "do_single_rotation P s r num denom ns n = Inr x \<Longrightarrow> wait_result n x"
  "do_controlled_rotation P s r0 r1 num denom ns n = Inr x \<Longrightarrow> wait_result n x"
  "generic_interpret_init P s r n = Inr x \<Longrightarrow> wait_result n x"
  "generic_interpret_meas P s r c n = Inr x \<Longrightarrow> wait_result n x"
  "generic_interpret_single_qubit_instr P s g r n = Inr x \<Longrightarrow> wait_result n x"
  "generic_interpret_two_qubit_instr P s tg r0 r1 n = Inr x \<Longrightarrow> wait_result n x"
  "nv_interpret_init P s r n = Inr x \<Longrightarrow> wait_result n x"
  by (auto simp: do_single_rotation_def do_controlled_rotation_def generic_interpret_init_def
      generic_interpret_meas_def generic_interpret_single_qubit_instr_def
      generic_interpret_two_qubit_instr_def nv_interpret_init_def result_simps elim!: run_program_wait)

lemma rotation_wait [wait_keeps]:
  "generic_interpret_single_rotation_instr P s gr r num denom n = Inr x \<Longrightarrow> wait_result n x"
  "nv_interpret_single_rotation_instr P s gr r num denom n = Inr x \<Longrightarrow> wait_result n x"
  by (cases gr; auto dest: gate_wait)+

lemma controlled_rotation_wait [wait_keeps]:
  "nv_interpret_controlled_rotation_instr P s cg r0 r1 num denom n = Inr x \<Longrightarrow> wait_result n x"
  by (cases "(P, s, cg, r0, r1, num, denom, n)" rule: nv_interpret_controlled_rotation_instr.cases)
    (auto dest: gate_wait)

lemma measure_electron_wait: "measure_electron s c n1 = Inr r \<Longrightarrow> keeps_wait n n1 \<Longrightarrow> wait_result n r"
  by (auto simp: measure_electron_def elim!: run_program_wait)

lemma nv_meas_wait [wait_keeps]:
  "nv_interpret_meas P s q c n = Inr r \<Longrightarrow> wait_result n r"
  by (auto simp: nv_interpret_meas_def result_simps split: if_splits sum.splits py_error.splits
      elim!: run_program_wait measure_electron_wait dest!: keeps_wait_ops intro: keeps_wait_trans)

lemma interpret_instruction_wait: "interpret_instruction P s i n = Inr r \<Longrightarrow> wait_result n r"
  by (cases i)
    (auto split: hardware.splits elim!: no_yield_wait dest: wait_keeps
      simp: nv_interpret_gate_def generic_interpret_controlled_rotation_instr_def)

lemma resume_device_wait: "resume_device P s k out n = Inr r \<Longrightarrow> wait_result n r"
  by (cases k)
    (auto simp: nv_meas_electron_moved_def nv_meas_carbon_moved_def result_simps
      split: option.splits elim!: run_program_wait measure_electron_wait no_yield_wait
      dest!: keeps_wait_ops intro: keeps_wait_trans keeps_wait_signal)

lemma after_instr_wait: "after_instr s r = Inr n' \<Longrightarrow> wait_result n r \<Longrightarrow> keeps_wait n n'"
  by (cases "(s, r)" rule: after_instr.cases)
    (auto simp: wait_result_def result_simps dest!: keeps_wait_ops intro: keeps_wait_trans)

lemma processor_step_wait:
  assumes "processor_step P e n = Some (Inr n')"
  shows "keeps_wait n n'"
proof -
  have r: "keeps_wait n n'" if "wait_result n1 r" "after_instr s r = Inr n'" "keeps_wait n n1" for n1 r s
    using after_instr_wait [OF that(2,1)] that(3) by (rule keeps_wait_trans [rotated])
  show ?thesis
  proof (cases "proc_pc_of n")
    case ProcIdle
    then show ?thesis using assms
      by (cases e) (auto simp: execute_subroutine_start_def result_simps split: list.splits
          dest!: keeps_wait_ops intro: keeps_wait_trans)
  next
    case (ProcExec s)
    then have "execute_subroutine_step P s n = Inr n'" using assms by (cases e) auto
    then show ?thesis
      by (auto simp: execute_subroutine_step_def result_simps split: if_splits
          dest!: branch_wait interpret_instruction_wait elim: after_instr_wait)
  next
    case (ProcDevice s k)
    then show ?thesis using assms by (cases e) (auto simp: result_simps dest!: resume_device_wait elim: after_instr_wait)
  next
    case (ProcWaitAll s addr i j)
    then show ?thesis using assms
      by (cases e) (auto simp: result_simps split: list.splits dest!: control_wait(1) elim!: r)
  next
    case (ProcBreak s role stage)
    then show ?thesis using assms
      by (cases e) (auto simp: result_simps split: list.splits dest!: control_wait(3) elim!: r)
  qed
qed

section \<open>The handler\<close>

lemma clear_application_wait: "clear_application a n = Inr n' \<Longrightarrow> keeps_wait n n'"
proof -
  assume "clear_application a n = Inr n'"
  then obtain m n1 m1 where "get_mem a n = Inr m" and x: "forE (clear_qubit a) (am_virt_qubits m) n = Inr n1"
    and n': "n' = n1\<lparr>app_memories := AList.delete a (app_memories n1),
             dropped_memories := AList.update a m1 (dropped_memories n1)\<rparr>"
    by (auto simp: clear_application_def result_simps)
  have "keeps_wait n n1"
  proof (rule forE_invariant [OF x])
    fix vp u v assume p: "keeps_wait n u" and c: "clear_qubit a vp u = Inr v"
    have "keeps_wait u v"
      using c by (auto simp: clear_qubit_def result_simps split: option.splits dest!: keeps_wait_ops intro: keeps_wait_trans)
    with p show "keeps_wait n v" by (rule keeps_wait_trans)
  qed simp
  then show ?thesis by (simp add: n')
qed

lemma flush_next_wait: "flush_next a n1 = Inr n' \<Longrightarrow> keeps_wait n n1 \<Longrightarrow> keeps_wait n n'"
  by (auto simp: flush_next_def result_simps split: option.splits)

lemma msg_from_host_wait: "msg_from_host P msg n = Inr n' \<Longrightarrow> keeps_wait n n'"
  by (cases msg)
    (auto simp: init_new_app_def Let_def open_epr_socket_def add_subroutine_def stop_application_def result_simps
      split: if_splits dest!: clear_application_wait)

lemma handler_step_wait:
  assumes "handler_step P n = Some (Inr n')"
  shows "keeps_wait n n'"
proof (cases "hand_pc_of n")
  case (HandAwaitProc a)
  then show ?thesis using assms
    by (auto simp: handler_step_def processor_done_def result_simps split: list.splits elim!: flush_next_wait)
next
  case HandIdle
  then obtain raw rest msg n1 where x: "msg_from_host P msg (n\<lparr>host_to_hand := rest\<rparr>) = Inr n1"
      "(case next_app n1 of None \<Rightarrow> Inr (n1\<lparr>hand_pc_of := HandIdle\<rparr>) | Some a \<Rightarrow> flush_next a n1) = Inr n'"
    using assms by (auto simp: handler_step_def handle_host_msg_def result_simps split: list.splits)
  have "keeps_wait n n1" using msg_from_host_wait [OF x(1)] by (rule keeps_wait_trans [rotated]) simp
  then show ?thesis using x(2) by (auto split: option.splits elim!: flush_next_wait)
qed

section \<open>The node\<close>

lemma others_keep_wait:
  assumes "node_step P e n = Some (Inr n')" and "\<forall>x. e \<noteq> NetstackEvent x"
  shows "keeps_wait n n'"
proof (cases e)
  case (AssignEgp r x)
  then show ?thesis using assms(1) by (auto simp: assign_egp_def keeps_wait_def update_conv')
qed (use assms in \<open>auto dest: handler_step_wait processor_step_wait simp: deliver_peer_msg_def register_peer_def
      register_peer_listener_def register_peer_port_def result_simps split: option.splits\<close>)

lemma others_keep_waiting:
  assumes "run_events P es n = Inr n'" and "\<forall>e \<in> set es. \<forall>x. e \<noteq> NetstackEvent x"
  shows "keeps_wait n n'"
  using assms
proof (induction es arbitrary: n)
  case Nil
  then show ?case by simp
next
  case (Cons e es)
  then obtain n1 where "node_step P e n = Some (Inr n1)" "run_events P es n1 = Inr n'"
    by (auto simp: result_simps split: option.splits)
  then show ?case using Cons others_keep_wait [of P e n n1] by (auto intro: keeps_wait_trans)
qed

section \<open>Waking up\<close>

text \<open>
  What a network stack that waits for memory does with a communication qubit \<open>q\<close>: the remote
  node, what it puts to the EGP for it, and the point where it then waits for the pair.
\<close>

fun wanted :: "nstk_pc \<Rightarrow> (int \<times> egp_put \<times> (int \<Rightarrow> nstk_pc)) option" where
  "wanted (CreateCkAwaitMemory c) =
     (if cc_pair_index c < cc_num_pairs c
      then Some (cr_remote_node_id (cc_req c), PutRequest (cc_request c), CreateCkAwaitEgp c) else None)"
| "wanted (ReceiveCkAwaitMemory c) =
     (if rc_pair_index c < rc_num_pairs c
      then Some (rr_remote_node_id (rc_req c), PutReceive (rr_remote_node_id (rc_req c)), ReceiveCkAwaitEgp c)
      else None)"
| "wanted _ = None"

lemma wanted_awaits: "wanted pc = Some w \<Longrightarrow> awaits_memory pc"
  by (cases pc) simp_all

text \<open>
  The signalled network stack looks again: with a free communication qubit it takes one and
  goes on, without one it waits for the next signal.
\<close>

definition goes_on :: "('rg, 'ar) node \<Rightarrow> int \<Rightarrow> egp_put \<Rightarrow> (int \<Rightarrow> nstk_pc) \<Rightarrow> ('rg, 'ar) node \<Rightarrow> bool" where
  "goes_on n remote req k n' \<longleftrightarrow> (\<exists>q egp. map_of (egps n) remote = Some egp
     \<and> q \<in> comm_positions (physical_memory n) - used (physical_memory n)
     \<and> used (physical_memory n') = insert q (used (physical_memory n))
     \<and> egp_log n' = egp_log n @ [(egp, req)] \<and> nstk_pc_of n' = k q \<and> \<not> memory_freed n')"

lemma signalled_step:
  assumes "phys_ok (physical_memory n)" and "wanted (nstk_pc_of n) = Some (remote, req, k)"
    and "memory_freed n" and "remote \<in> dom (map_of (egps n))"
  shows "\<exists>n'. netstack_step P (NstkGo t) n = Some (Inr n')
     \<and> (if comm_positions (physical_memory n) \<subseteq> used (physical_memory n)
        then n' = n\<lparr>memory_freed := False\<rparr> else goes_on n remote req k n')"
proof (cases "allocate_comm (physical_memory n)")
  case (Inl e)
  then have e: "e = AllocError" "comm_positions (physical_memory n) \<subseteq> used (physical_memory n)"
    using comm_pool.alloc_err [OF assms(1)] by simp_all
  show ?thesis using assms(2,3) Inl e
    by (cases "nstk_pc_of n")
      (auto simp: create_ck_next_def receive_ck_next_def on_phys_def split: if_splits)
next
  case (Inr r)
  obtain q pm where r: "r = (q, pm)" by (cases r)
  obtain egp where egp: "map_of (egps n) remote = Some egp" using assms(4) by blast
  note ok = comm_pool.alloc_ok [OF assms(1) Inr [unfolded r]]
  have "\<not> comm_positions (physical_memory n) \<subseteq> used (physical_memory n)" using ok by blast
  then show ?thesis using assms(2,3) Inr r egp ok
    by (cases "nstk_pc_of n")
      (auto simp: create_ck_next_def receive_ck_next_def on_phys_def put_egp_def dict_get_def goes_on_def
        split: if_splits)
qed

end
