(* ===== verification/ProcProps.thy ===== *)
theory ProcProps
  imports NstkWait Example
begin

text \<open>
  Properties of the processor's instructions and of its loop.
\<close>

text \<open>
  C6: a subroutine without branches does not run forever.  However the device answers, a run of
  the processor from the subroutine's start that raises nothing has at most five steps per
  instruction, four more, and one for each message the network stack had queued; when it can take
  no further step, the subroutine is done or it waits for a message that is not there.
\<close>

theorem branch_free_terminates:
  assumes "reachable P n" and "proc_pc_of n = ProcExec s" and "branch_free s"
    and "get_mem (sub_app_id s) n = Inr m" and "am_prog_counter m = 0"
    and "run_events P (map ProcessorEvent es) n = Inr n'"
  shows "length es \<le> 5 * length (sub_instrs s) + 4 + length (nstk_to_proc n)
     \<and> ((\<forall>e. processor_step P e n' = None) \<longrightarrow> proc_pc_of n' = ProcIdle
          \<or> nstk_to_proc n' = [] \<and> (case proc_pc_of n' of ProcWaitAll s a i j \<Rightarrow> True
                | ProcBreak s r g \<Rightarrow> True | _ \<Rightarrow> False))"
proof
  have c: "control_ok n" using reachable_inv [OF assms(1)] by (simp add: node_inv_def)
  have h: "hand_to_proc n = []"
    using c assms(2) by (cases "hand_pc_of n") (auto simp: control_ok_def handshake_ok_def)
  have "executing s n" using assms(2) by (simp add: executing_def)
  from bounded_run [OF this assms(3) h assms(6)]
  show "length es \<le> 5 * length (sub_instrs s) + 4 + length (nstk_to_proc n)"
    using pcs_get [OF assms(4)] by (simp add: work_def left_def assms(2,5))
  show "(\<forall>e. processor_step P e n' = None) \<longrightarrow> proc_pc_of n' = ProcIdle
          \<or> nstk_to_proc n' = [] \<and> (case proc_pc_of n' of ProcWaitAll s a i j \<Rightarrow> True
                | ProcBreak s r g \<Rightarrow> True | _ \<Rightarrow> False)"
  proof
    assume a: "\<forall>e. processor_step P e n' = None"
    have g: "processor_step P ProcGo n' = None" "processor_step P (ProcDeviceDone 0) n' = None" using a by blast+
    show "proc_pc_of n' = ProcIdle \<or> nstk_to_proc n' = [] \<and> (case proc_pc_of n' of ProcWaitAll s a i j \<Rightarrow> True
                | ProcBreak s r g \<Rightarrow> True | _ \<Rightarrow> False)"
      using g by (cases "proc_pc_of n'") (auto split: list.splits)
  qed
qed

text \<open>The first subroutine of the example device, before its first instruction.\<close>

definition ex_started :: "(ex_regs, ex_arrays) node" where
  "ex_started = after_events (host_says ''init'' @ host_says ''alloc'' @ proc_runs 1) generic_device"

definition ex_alloc_sub :: subroutine where
  "ex_alloc_sub = \<lparr>sub_app_id = 0, sub_instrs = ex_subroutine ''alloc''\<rparr>"

theorem branch_free_terminates_witness:
  "\<exists>n'. run_events ex_P (map ProcessorEvent [ProcGo, ProcGo, ProcGo, ProcDeviceDone 0, ProcGo]) ex_started = Inr n'
     \<and> length [ProcGo, ProcGo, ProcGo, ProcDeviceDone 0, ProcGo] \<le> 5 * length (sub_instrs ex_alloc_sub) + 4"
proof -
  let ?es = "[ProcGo, ProcGo, ProcGo, ProcDeviceDone 0, ProcGo]"
  have r: "reachable ex_P ex_started" by (simp add: ex_started_def after_events_reachable devices_reachable)
  have s: "proc_pc_of ex_started = ProcExec ex_alloc_sub" "nstk_to_proc ex_started = []" by code_simp+
  have bf: "branch_free ex_alloc_sub" by (simp add: branch_free_def ex_alloc_sub_def ex_subroutine_def)
  have "case get_mem 0 ex_started of Inl e \<Rightarrow> False | Inr m \<Rightarrow> am_prog_counter m = 0" by code_simp
  then obtain m where m: "get_mem (sub_app_id ex_alloc_sub) ex_started = Inr m" "am_prog_counter m = 0"
    by (auto simp: ex_alloc_sub_def split: sum.splits)
  have "case run_events ex_P (map ProcessorEvent ?es) ex_started of Inl e \<Rightarrow> False | Inr n' \<Rightarrow> True" by code_simp
  then obtain n' where n': "run_events ex_P (map ProcessorEvent ?es) ex_started = Inr n'" by (auto split: sum.splits)
  from branch_free_terminates [OF r s(1) bf m n'] s(2) n' show ?thesis by auto
qed

text \<open>
  Freeing a mapped virtual qubit in a reachable state cannot fail.  The position is free
  afterwards, the virtual qubit is unmapped and no other mapping changes, the device is told,
  and a network stack that waits for memory is woken; a network stack that does not wait
  gets no signal.
\<close>

theorem qfree_releases:
  assumes "reachable P n" and "get_mem a n = Inr m"
    and "get_reg_value (shm P) (ByReg r) m = Inr (Some v)" and "mapping m (Some v) = Some p"
  shows "\<exists>n'. interpret_qfree P a r n = Inr n' \<and> vmap n' = (vmap n)(a := (vmap n a)(Some v := None))
     \<and> used (physical_memory n') = used (physical_memory n) - {p}
     \<and> device_log n' = device_log n @ [SetInUse p False]
     \<and> memory_freed n' = (memory_freed n \<or> awaits_memory (nstk_pc_of n)) \<and> nstk_pc_of n' = nstk_pc_of n
     \<and> positions (physical_memory n') = positions (physical_memory n)
     \<and> comm_qubit_ids (physical_memory n') = comm_qubit_ids (physical_memory n)"
proof -
  have inv: "node_inv n" using assms(1) by (rule reachable_inv)
  have ms: "mem_struct n" using inv by (simp add: node_inv_def)
  have vm: "vmap n a = mapping m" by (rule mem_at_vmap [OF get_mem_mem_at [OF assms(2)]])
  then have u: "p \<in> used (physical_memory n)" using node_inv_mapped(1) [OF inv, of a "Some v" p] assms(4) by simp
  let ?n0 = "put_mem a (unmap_virt_id (Some v) m) n"
  have ms0: "mem_struct ?n0"
    using mem_structD(3) [OF ms get_mem_mem_at [OF assms(2)]] by (intro mem_struct_put(1) [OF ms]) simp
  obtain n1 where n1: "free_phys p ?n0 = Inr n1" using free_phys_returns [OF ms0] u by auto
  note f = free_phys_Inr [OF ms0 n1]
  obtain pm where pm: "free p (physical_memory ?n0) = Inr pm" "n1 = ?n0\<lparr>physical_memory := pm\<rparr>"
    using n1 by (auto simp: free_phys_def result_simps)
  have pq: "positions pm = positions (physical_memory n)" "comm_qubit_ids pm = comm_qubit_ids (physical_memory n)"
    using free_Inr [OF mem_structD(1) [OF ms0] pm(1)] by simp_all
  let ?n' = "log_device (SetInUse p False) (signal_memory_freed n1)"
  have "interpret_qfree P a r n = Inr ?n'"
    using assms(2-4) n1 by (simp add: interpret_qfree_def phys_id_for_mapping [symmetric])
  moreover have "vmap ?n' = vmap n1" by (rule qv_eqD(2)) simp
  then have "vmap ?n' = (vmap n)(a := (vmap n a)(Some v := None))"
    using phys_update_views(2) [of n1 ?n0] f vm by simp
  moreover have "device_log ?n' = device_log n @ [SetInUse p False]" "nstk_pc_of ?n' = nstk_pc_of n"
     "memory_freed ?n' = (memory_freed n \<or> awaits_memory (nstk_pc_of n))"
    by (simp_all add: pm(2) log_device_def signal_memory_freed_def put_mem_def)
  ultimately show ?thesis using f pq by (auto simp: pm(2))
qed

theorem qfree_releases_witness:
  "\<exists>n'. interpret_qfree ex_P 0 (reg_Q 0) ex_running = Inr n' \<and> vmap ex_running 0 (Some 0) = Some 0
     \<and> used (physical_memory n') = used (physical_memory ex_running) - {0} \<and> vmap n' 0 (Some 0) = None"
proof -
  have "case get_mem 0 ex_running of Inl e \<Rightarrow> False | Inr m \<Rightarrow>
      get_reg_value (shm ex_P) (ByReg (reg_Q 0)) m = Inr (Some 0) \<and> mapping m (Some 0) = Some 0" by code_simp
  then obtain m where m: "get_mem 0 ex_running = Inr m" "get_reg_value (shm ex_P) (ByReg (reg_Q 0)) m = Inr (Some 0)"
     "mapping m (Some 0) = Some 0" by (auto split: sum.splits)
  have "vmap ex_running 0 (Some 0) = Some 0" by code_simp
  with qfree_releases [OF ex_reachable(1) m] show ?thesis by auto
qed

lemma qfree_step:
  assumes "get_mem (sub_app_id s) n = Inr m" and "am_prog_counter m < int (length (sub_instrs s))"
    and "py_index (sub_instrs s) (am_prog_counter m) = Inr (QFree r)"
    and "interpret_qfree P (sub_app_id s) r n = Inr n0"
  shows "\<exists>n'. execute_subroutine_step P s n = Inr n' \<and> after_instr s (Finished, n0) = Inr n'
     \<and> physical_memory n' = physical_memory n0"
proof -
  obtain m1 where m1: "get_obj (sub_app_id s) n0 = Inr m1"
    using assms(4) by (auto simp: interpret_qfree_def result_simps get_obj_mem_at free_phys_def mem_at_def
        signal_memory_freed_def log_device_def put_mem_def map_add_def)
  have "get_obj (sub_app_id s) n = Inr m" using get_mem_mem_at [OF assms(1)] by (simp add: get_obj_mem_at)
  then show ?thesis using assms(2-4) m1
    by (simp add: execute_subroutine_step_def no_yield_def on_obj_def)
qed

text \<open>
  C9: a network stack that waits for memory, creating or receiving a pair, is woken once the
  processor executes \<open>qfree\<close> on a communication qubit.  The position is free afterwards, and
  whatever the handler, the processor and the environment then do, however long, the network stack
  can take a step: if a communication position is free at that point, it allocates one, puts what it
  wants to the EGP of the remote node and waits for the pair there; if they have all been taken
  again, it waits for the next signal.
\<close>

theorem freed_memory_wakes_netstack:
  assumes "reachable P n" and "wanted (nstk_pc_of n) = Some (remote, req, k)"
    and "remote \<in> dom (map_of (egps n))" and "proc_pc_of n = ProcExec s"
    and "get_mem (sub_app_id s) n = Inr m" and "am_prog_counter m < int (length (sub_instrs s))"
    and "py_index (sub_instrs s) (am_prog_counter m) = Inr (QFree r)"
    and "get_reg_value (shm P) (ByReg r) m = Inr (Some v)" and "mapping m (Some v) = Some p"
    and "p \<in> comm_qubit_ids (physical_memory n)"
  shows "\<exists>n'. processor_step P ProcGo n = Some (Inr n')
     \<and> p \<in> comm_positions (physical_memory n') - used (physical_memory n')
     \<and> (\<forall>es n1 t. (\<forall>e \<in> set es. \<forall>x. e \<noteq> NetstackEvent x) \<and> run_events P es n' = Inr n1 \<longrightarrow>
          (\<exists>n2. netstack_step P (NstkGo t) n1 = Some (Inr n2)
             \<and> (if comm_positions (physical_memory n1) \<subseteq> used (physical_memory n1)
                then n2 = n1\<lparr>memory_freed := False\<rparr> else goes_on n1 remote req k n2)))"
proof -
  have inv: "node_inv n" using assms(1) by (rule reachable_inv)
  have vm: "vmap n (sub_app_id s) (Some v) = Some p"
    using mem_at_vmap [OF get_mem_mem_at [OF assms(5)]] assms(9) by simp
  obtain n0 where n0: "interpret_qfree P (sub_app_id s) r n = Inr n0"
      "used (physical_memory n0) = used (physical_memory n) - {p}" "memory_freed n0" "nstk_pc_of n0 = nstk_pc_of n"
      "positions (physical_memory n0) = positions (physical_memory n)"
      "comm_qubit_ids (physical_memory n0) = comm_qubit_ids (physical_memory n)"
    using qfree_releases [OF assms(1,5,8,9)] wanted_awaits [OF assms(2)] by auto
  have ms: "mem_struct n" "pc_ok (proc_pc_of n)" using inv by (simp_all add: node_inv_def)
  obtain n' where st: "execute_subroutine_step P s n = Inr n'" and af: "after_instr s (Finished, n0) = Inr n'"
    and ph: "physical_memory n' = physical_memory n0"
    using qfree_step [OF assms(5-7) n0(1)] by blast
  have go: "processor_step P ProcGo n = Some (Inr n')" using st assms(4) by simp
  have r': "reachable P n'" by (rule reachable.step [OF assms(1), of "ProcessorEvent ProcGo"]) (simp only: node_step.simps go)
  have w: "keeps_wait n0 n'" by (rule after_instr_wait [OF af]) simp
  have free: "p \<in> comm_positions (physical_memory n') - used (physical_memory n')"
    using node_inv_mapped(2) [OF inv vm] assms(10) n0(2,5,6) by (simp add: ph comm_positions_def)
  have later: "\<exists>n2. netstack_step P (NstkGo t) n1 = Some (Inr n2)
      \<and> (if comm_positions (physical_memory n1) \<subseteq> used (physical_memory n1)
         then n2 = n1\<lparr>memory_freed := False\<rparr> else goes_on n1 remote req k n2)"
    if "\<forall>e \<in> set es. \<forall>x. e \<noteq> NetstackEvent x" "run_events P es n' = Inr n1" for es n1 t
  proof (rule signalled_step)
    have kw: "keeps_wait n0 n1" using w others_keep_waiting [OF that(2,1)] by (rule keeps_wait_trans)
    have "node_inv n1" using run_events_reachable [OF r' that(2)] by (rule reachable_inv)
    then show "phys_ok (physical_memory n1)" by (simp add: node_inv_def mem_struct_def)
    show "wanted (nstk_pc_of n1) = Some (remote, req, k)" "memory_freed n1"
      using kw n0(3,4) assms(2) by (simp_all add: keeps_wait_def)
    have "keeps_wait n n0" by (rule qubit_wait(3) [OF n0(1)])
    then show "remote \<in> dom (map_of (egps n1))" using kw assms(3) by (auto simp: keeps_wait_def)
  qed
  show ?thesis using go free later by blast
qed

theorem freed_memory_wakes_netstack_witness:
  "\<exists>n' n2. netstack_step ex_P (NstkGo 5) ex_blocked = None
     \<and> processor_step ex_P ProcGo ex_blocked = Some (Inr n')
     \<and> netstack_step ex_P (NstkGo 5) n' = Some (Inr n2) \<and> length (egp_log n2) = 1"
proof -
  let ?n = ex_blocked
  have "case (nstk_pc_of ?n, proc_pc_of ?n) of (CreateCkAwaitMemory c, ProcExec s) \<Rightarrow>
      cc_pair_index c < cc_num_pairs c \<and> map_of (egps ?n) (cr_remote_node_id (cc_req c)) = Some 0
      \<and> (case get_mem (sub_app_id s) ?n of Inl e \<Rightarrow> False | Inr m \<Rightarrow>
           am_prog_counter m < int (length (sub_instrs s))
           \<and> py_index (sub_instrs s) (am_prog_counter m) = Inr (QFree (reg_Q 0))
           \<and> get_reg_value (shm ex_P) (ByReg (reg_Q 0)) m = Inr (Some 0) \<and> mapping m (Some 0) = Some 0)
      | _ \<Rightarrow> False" by code_simp
  then obtain c s m where c: "nstk_pc_of ?n = CreateCkAwaitMemory c" "cc_pair_index c < cc_num_pairs c"
     "cr_remote_node_id (cc_req c) \<in> dom (map_of (egps ?n))" and m: "proc_pc_of ?n = ProcExec s"
     "get_mem (sub_app_id s) ?n = Inr m" "am_prog_counter m < int (length (sub_instrs s))"
     "py_index (sub_instrs s) (am_prog_counter m) = Inr (QFree (reg_Q 0))"
     "get_reg_value (shm ex_P) (ByReg (reg_Q 0)) m = Inr (Some 0)" "mapping m (Some 0) = Some 0"
    by (auto split: nstk_pc.splits proc_pc.splits sum.splits)
  have i: "0 \<in> comm_qubit_ids (physical_memory ?n)" "\<not> memory_freed ?n" by code_simp+
  have l: "case processor_step ex_P ProcGo ?n of Some (Inr n') \<Rightarrow> egp_log n' = [] | _ \<Rightarrow> False" by code_simp
  have w: "wanted (nstk_pc_of ?n) = Some (cr_remote_node_id (cc_req c), PutRequest (cc_request c), CreateCkAwaitEgp c)"
    using c by simp
  have "netstack_step ex_P (NstkGo 5) ?n = None" using c(1) i(2) by simp
  moreover obtain n' where n': "processor_step ex_P ProcGo ?n = Some (Inr n')"
      "0 \<in> comm_positions (physical_memory n') - used (physical_memory n')"
    and nx: "\<And>es n1 t. (\<forall>e \<in> set es. \<forall>x. e \<noteq> NetstackEvent x) \<and> run_events ex_P es n' = Inr n1 \<Longrightarrow>
      \<exists>n2. netstack_step ex_P (NstkGo t) n1 = Some (Inr n2)
        \<and> (if comm_positions (physical_memory n1) \<subseteq> used (physical_memory n1) then n2 = n1\<lparr>memory_freed := False\<rparr>
           else goes_on n1 (cr_remote_node_id (cc_req c)) (PutRequest (cc_request c)) (CreateCkAwaitEgp c) n2)"
    using freed_memory_wakes_netstack [OF ex_request_reachable(2) w c(3) m i(1)] by blast
  moreover have "egp_log n' = []" using l n'(1) by simp
  moreover have "\<not> comm_positions (physical_memory n') \<subseteq> used (physical_memory n')" using n'(2) by blast
  ultimately show ?thesis using nx [of "[]" n' 5] by (auto simp: goes_on_def)
qed

text \<open>
  The classical arithmetic instructions.  With both operands defined, \<open>add\<close> and \<open>sub\<close>
  write the sum and the difference; with a modulus of at least one \<open>addm\<close> and \<open>subm\<close> write the
  residue, which is below the modulus and not negative even where the difference is; a
  modulus below one is a \<open>RuntimeError\<close>, and nothing is written.
\<close>

fun arithmetic :: "binary_op \<Rightarrow> int \<Rightarrow> int \<Rightarrow> int \<Rightarrow> int" where
  "arithmetic (PlainOp AddOp) x y k = x + y"
| "arithmetic (PlainOp _) x y k = x - y"
| "arithmetic (ModOp AddmOp) x y k = (x + y) mod k"
| "arithmetic (ModOp _) x y k = (x - y) mod k"

theorem arithmetic_instructions:
  assumes "get_mem a n = Inr m" and "get_reg_value (shm P) (ByReg r0) m = Inr (Some x)"
    and "get_reg_value (shm P) (ByReg r1) m = Inr (Some y)" and "get_reg_value (shm P) (ByReg rm) m = Inr (Some k)"
    and "shmem_laws (shm P)" and "0 \<le> i" and "i < 16" and "- (2 ^ 31) \<le> x - y" "x + y < 2 ^ 31"
    and "- (2 ^ 31) \<le> x + y" "x - y < 2 ^ 31" and "k < 2 ^ 31"
    and "(oper, regmod) \<in> {(PlainOp AddOp, None), (PlainOp SubOp, None), (ModOp AddmOp, Some rm), (ModOp SubmOp, Some rm)}"
  shows "if regmod = Some rm \<and> k < 1
     then interpret_binary_classical_instr P a oper (Register g i) r0 r1 regmod n = Inl RuntimeError
     else \<exists>m'. interpret_binary_classical_instr P a oper (Register g i) r0 r1 regmod n = Inr (put_mem a m' n)
        \<and> get_reg_value (shm P) (ByReg (Register g i)) m' = Inr (Some (arithmetic oper x y k))
        \<and> (regmod = Some rm \<longrightarrow> 0 \<le> arithmetic oper x y k \<and> arithmetic oper x y k < k)"
proof (cases "regmod = Some rm \<and> k < 1")
  case True
  then show ?thesis using assms(1,4) by (auto simp: interpret_binary_classical_instr_def on_mem_def)
next
  case False
  let ?v = "arithmetic oper x y k"
  have b: "regmod = Some rm \<longrightarrow> 0 \<le> ?v \<and> ?v < k" using assms(13) False by auto
  have "- (2 ^ 31) \<le> ?v \<and> ?v < 2 ^ 31"
    using assms(8-13) b by (cases "regmod = Some rm") auto
  then obtain gr where "reg_write (shm P) (am_registers m) g i ?v = Inr gr"
    using shmem_reg_writeE [OF assms(5-7)] by blast
  then obtain m' where m': "set_reg_value (shm P) (ByReg (Register g i)) ?v m = Inr m'" by (simp add: set_reg_value_def)
  have "interpret_binary_classical_instr P a oper (Register g i) r0 r1 regmod n = Inr (put_mem a m' n)"
    using assms(1-4,13) m' False by (auto simp: interpret_binary_classical_instr_def on_mem_def py_mod_def)
  then show ?thesis using False b get_after_set_reg [OF assms(5) m'] by auto
qed

theorem arithmetic_instructions_witness:
  "\<exists>m'. interpret_binary_classical_instr ex_P 0 (ModOp SubmOp) (Register RegR 3) (reg_R 0) (reg_R 1) (Some (reg_R 2))
        (put_mem 0 (AppMemory ex_shmem 0 2\<lparr>am_registers := [((RegR, 0), 1), ((RegR, 1), 3), ((RegR, 2), 5)]\<rparr>) generic_device)
      = Inr (put_mem 0 m' (put_mem 0 (AppMemory ex_shmem 0 2\<lparr>am_registers := [((RegR, 0), 1), ((RegR, 1), 3), ((RegR, 2), 5)]\<rparr>) generic_device))
     \<and> get_reg_value ex_shmem (ByReg (Register RegR 3)) m' = Inr (Some 3)"
proof -
  let ?m = "AppMemory ex_shmem 0 2\<lparr>am_registers := [((RegR, 0), 1), ((RegR, 1), 3), ((RegR, 2), 5)]\<rparr>"
  let ?n = "put_mem 0 ?m generic_device"
  have g: "get_mem 0 ?n = Inr ?m" by simp
  have s: "shm ex_P = ex_shmem" by (simp add: ex_P_def)
  have r: "get_reg_value (shm ex_P) (ByReg (reg_R 0)) ?m = Inr (Some 1)" "get_reg_value (shm ex_P) (ByReg (reg_R 1)) ?m = Inr (Some 3)"
    "get_reg_value (shm ex_P) (ByReg (reg_R 2)) ?m = Inr (Some 5)"
    by (simp_all add: s get_reg_value_def ex_shmem_def reg_R_def)
  have l: "shmem_laws (shm ex_P)" by (simp add: s ex_shmem_laws)
  show ?thesis
    using arithmetic_instructions [OF g r l, of 3 "ModOp SubmOp" "Some (reg_R 2)" RegR] by (simp add: s)
qed

text \<open>
  Waiting for array entries.  With the bounds of a slice in two registers, \<open>wait_all\<close> is over
  exactly when every entry of the slice is defined, and then the pending messages of the
  network stack are discarded; otherwise the processor waits and nothing changes.
\<close>

theorem wait_all_waits:
  assumes "shmem_laws (shm P)" and "get_mem (sub_app_id s) n = Inr m" and "get_array (shm P) addr m = Inr xs"
    and "get_reg_value (shm P) (ByReg r0) m = Inr (Some i)" and "get_reg_value (shm P) (ByReg r1) m = Inr (Some j)"
    and "0 \<le> i" and "i \<le> j" and "j \<le> int (length xs)"
  shows "interpret_wait_all P s (ArraySlice addr (RegIndex r0) (RegIndex r1)) n =
     (if \<forall>k. i \<le> int k \<and> int k < j \<longrightarrow> xs ! k \<noteq> None then Inr (Finished, n\<lparr>nstk_to_proc := []\<rparr>)
      else Inr (Suspended (ProcWaitAll s addr (Some i) (Some j)), n))"
proof -
  have v: "get_array_values (shm P) addr (Some i) (Some j) m = Inr (take (nat j - nat i) (drop (nat i) xs))"
    by (rule get_array_values_whole [OF assms(1,3,6,7,8)])
  have "None \<in> set (take (nat j - nat i) (drop (nat i) xs)) \<longleftrightarrow> \<not> (\<forall>k. i \<le> int k \<and> int k < j \<longrightarrow> xs ! k \<noteq> None)"
  proof
    assume "None \<in> set (take (nat j - nat i) (drop (nat i) xs))"
    then obtain l where l: "l < nat j - nat i" "l < length (drop (nat i) xs)" "drop (nat i) xs ! l = None"
      by (auto simp: in_set_conv_nth)
    then have "xs ! (nat i + l) = None" by simp
    moreover have "i \<le> int (nat i + l)" "int (nat i + l) < j" using l(1) assms(6) by simp_all
    ultimately show "\<not> (\<forall>k. i \<le> int k \<and> int k < j \<longrightarrow> xs ! k \<noteq> None)" by blast
  next
    assume "\<not> (\<forall>k. i \<le> int k \<and> int k < j \<longrightarrow> xs ! k \<noteq> None)"
    then obtain k where k: "i \<le> int k" "int k < j" "xs ! k = None" by auto
    have "take (nat j - nat i) (drop (nat i) xs) ! (k - nat i) = None"
      "k - nat i < length (take (nat j - nat i) (drop (nat i) xs))" using k assms(6,8) by simp_all
    then show "None \<in> set (take (nat j - nat i) (drop (nat i) xs))" by (metis nth_mem)
  qed
  then show ?thesis using assms(2,4,5) by (auto simp: wait_all_check_def v)
qed

theorem wait_all_waits_witness:
  "interpret_wait_all ex_P ex_alloc_sub (ArraySlice 3 (RegIndex (reg_R 0)) (RegIndex (reg_R 1)))
     (put_mem 0 (AppMemory ex_shmem 0 2\<lparr>am_registers := [((RegR, 0), 0), ((RegR, 1), 1)], am_arrays := [(3, [Some 7, None])]\<rparr>) generic_device)
   = Inr (Finished, (put_mem 0 (AppMemory ex_shmem 0 2\<lparr>am_registers := [((RegR, 0), 0), ((RegR, 1), 1)],
       am_arrays := [(3, [Some 7, None])]\<rparr>) generic_device)\<lparr>nstk_to_proc := []\<rparr>)"
proof -
  let ?m = "AppMemory ex_shmem 0 2\<lparr>am_registers := [((RegR, 0), 0), ((RegR, 1), 1)], am_arrays := [(3, [Some 7, None])]\<rparr>"
  let ?n = "put_mem 0 ?m generic_device"
  have s: "shm ex_P = ex_shmem" by (simp add: ex_P_def)
  have l: "shmem_laws (shm ex_P)" by (simp add: s ex_shmem_laws)
  have g: "get_mem (sub_app_id ex_alloc_sub) ?n = Inr ?m" by (simp add: ex_alloc_sub_def)
  have a: "get_array (shm ex_P) 3 ?m = Inr [Some 7, None]" by (simp add: s get_array_def ex_shmem_def)
  have r: "get_reg_value (shm ex_P) (ByReg (reg_R 0)) ?m = Inr (Some 0)" "get_reg_value (shm ex_P) (ByReg (reg_R 1)) ?m = Inr (Some 1)"
    by (simp_all add: s get_reg_value_def ex_shmem_def reg_R_def)
  show ?thesis using wait_all_waits [OF l g a r] by simp
qed

text \<open>
  A global breakpoint stops the simulation.  The processor sends a breakpoint request to the
  network stack, whose handler raises \<open>NotImplementedError\<close>, for the creating and the receiving
  role; a local breakpoint only saves the quantum state, and other actions are \<open>ValueError\<close>.
\<close>

theorem breakpoints:
  assumes "proc_to_nstk n = []" and "nstk_pc_of n = NstkIdle"
  shows "interpret_breakpoint s 0 role n = Inr (Finished, n)
     \<and> interpret_breakpoint s 1 role n = Inr (Finished, log_device SaveQuantumState n)
     \<and> (role \<in> {0, 1} \<longrightarrow> (\<exists>n'. interpret_breakpoint s 2 role n = Inr (Suspended (ProcBreak s role AwaitReady), n')
            \<and> netstack_step P (NstkGo t) n' = Some (Inl NotImplementedError)))
     \<and> (role \<notin> {0, 1} \<longrightarrow> interpret_breakpoint s 2 role n = Inl ValueError)
     \<and> (action \<notin> {0, 1, 2} \<longrightarrow> interpret_breakpoint s action role n = Inl ValueError)"
  using assms
  by (auto simp: interpret_breakpoint_def send_netstack_msg_def handle_breakpoint_create_request_def
      handle_breakpoint_receive_request_def)

theorem breakpoints_witness:
  "interpret_breakpoint ex_alloc_sub 2 7 generic_device = Inl ValueError
   \<and> interpret_breakpoint ex_alloc_sub 1 0 generic_device = Inr (Finished, log_device SaveQuantumState generic_device)"
  using breakpoints [of generic_device ex_alloc_sub 7] breakpoints [of generic_device ex_alloc_sub 0]
  by (simp add: generic_device_def new_node_def)

end
