(* ===== verification/NetProps.thy ===== *)
theory NetProps
  imports Example
begin

text \<open>
  Properties of the network stack: the layout of the results it writes, the requests it
  makes of the link layer, and the steps that deliver a pair.
\<close>

section \<open>Writing a response\<close>

lemma forE_single: "forE f [x] = f x"
proof
  show "forE f [x] s = f x s" for s by (cases "f x s") simp_all
qed

lemma forE_py_range_Suc:
  "forE f (map int [0..<Suc k]) s = bindE (forE f (map int [0..<k]) s) (f (int k))"
  by (simp add: forE_append forE_single)

lemma write_prefix:
  assumes "shmem_laws L" and "get_array L addr m = Inr xs" and "b + k \<le> length xs"
  shows "\<exists>m' ys. forE (\<lambda>i. set_array_value L addr (int b + i) (Some (val i))) (map int [0..<k]) m = Inr m'
     \<and> get_array L addr m' = Inr ys \<and> length ys = length xs
     \<and> (\<forall>j < length xs. ys ! j = (if b \<le> j \<and> j < b + k then Some (val (int j - int b)) else xs ! j))
     \<and> (\<forall>y. y \<noteq> addr \<longrightarrow> get_array L y m' = get_array L y m)
     \<and> am_virt_qubits m' = am_virt_qubits m \<and> am_registers m' = am_registers m
     \<and> am_prog_counter m' = am_prog_counter m"
  using assms(3)
proof (induction k)
  case 0
  then show ?case using assms(2) by auto
next
  case (Suc k)
  then obtain m1 ys where m1: "forE (\<lambda>i. set_array_value L addr (int b + i) (Some (val i))) (map int [0..<k]) m = Inr m1"
      "get_array L addr m1 = Inr ys" "length ys = length xs"
      "\<forall>j < length xs. ys ! j = (if b \<le> j \<and> j < b + k then Some (val (int j - int b)) else xs ! j)"
      "\<forall>y. y \<noteq> addr \<longrightarrow> get_array L y m1 = get_array L y m"
      "am_virt_qubits m1 = am_virt_qubits m" "am_registers m1 = am_registers m"
      "am_prog_counter m1 = am_prog_counter m" by auto
  have r: "0 \<le> int b + int k" "int b + int k < int (length ys)" using Suc.prems m1(3) by simp_all
  from set_array_value_whole [OF assms(1) m1(2) r, where v = "Some (val (int k))"] obtain m2 where m2:
      "set_array_value L addr (int b + int k) (Some (val (int k))) m1 = Inr m2"
      "get_array L addr m2 = Inr (ys[nat (int b + int k) := Some (val (int k))])"
      "\<And>y. y \<noteq> addr \<Longrightarrow> get_array L y m2 = get_array L y m1" by blast
  have i: "nat (int b + int k) = b + k" by simp
  have "forE (\<lambda>i. set_array_value L addr (int b + i) (Some (val i))) (map int [0..<Suc k]) m = Inr m2"
    unfolding forE_py_range_Suc using m1(1) m2(1) by simp
  moreover have "\<forall>j < length xs. ys[b + k := Some (val (int k))] ! j
      = (if b \<le> j \<and> j < b + Suc k then Some (val (int j - int b)) else xs ! j)"
    using m1(3,4) Suc.prems by (auto simp: nth_list_update less_Suc_eq)
  ultimately show ?case using m1 m2 set_array_frame [OF m2(1)] by (auto simp: i)
qed

text \<open>The entries of slice \<open>pair\<close> of an array of responses.\<close>

definition slice_at :: "int \<Rightarrow> int \<Rightarrow> (int \<Rightarrow> int) \<Rightarrow> int option list \<Rightarrow> bool" where
  "slice_at len pair val xs \<longleftrightarrow> (\<forall>i \<in> {0..<len}. len * pair + i < int (length xs) \<and> xs ! nat (len * pair + i) = Some (val i))"

lemma write_response_whole:
  assumes "shmem_laws L" and "get_array L addr m = Inr xs" and "0 \<le> len" and "0 \<le> pair"
    and "len * (pair + 1) \<le> int (length xs)"
  shows "\<exists>m' ys. write_response L addr len pair val m = Inr m' \<and> get_array L addr m' = Inr ys
     \<and> length ys = length xs \<and> slice_at len pair val ys
     \<and> (\<forall>j < length xs. int j < len * pair \<or> len * (pair + 1) \<le> int j \<longrightarrow> ys ! j = xs ! j)
     \<and> (\<forall>y. y \<noteq> addr \<longrightarrow> get_array L y m' = get_array L y m)
     \<and> am_virt_qubits m' = am_virt_qubits m \<and> am_registers m' = am_registers m
     \<and> am_prog_counter m' = am_prog_counter m"
proof -
  define b where "b = nat (len * pair)"
  have b: "int b = len * pair" using assms(3,4) by (simp add: b_def)
  have le: "b + nat len \<le> length xs" using assms(3,5) b by (simp add: algebra_simps)
  from write_prefix [OF assms(1,2) le, of val] obtain m' ys where w:
      "forE (\<lambda>i. set_array_value L addr (int b + i) (Some (val i))) (map int [0..<nat len]) m = Inr m'"
      "get_array L addr m' = Inr ys" "length ys = length xs"
      "\<forall>j < length xs. ys ! j = (if b \<le> j \<and> j < b + nat len then Some (val (int j - int b)) else xs ! j)"
      "\<forall>y. y \<noteq> addr \<longrightarrow> get_array L y m' = get_array L y m"
      "am_virt_qubits m' = am_virt_qubits m" "am_registers m' = am_registers m"
      "am_prog_counter m' = am_prog_counter m" by blast
  have "write_response L addr len pair val m = Inr m'" using w(1) by (simp add: write_response_def py_range_def b)
  moreover have "slice_at len pair val ys" unfolding slice_at_def
  proof
    fix i assume i: "i \<in> {0..<len}"
    have n: "nat (len * pair + i) = b + nat i" using i b by (simp add: b_def nat_add_distrib assms(3,4))
    have lt: "b + nat i < length xs" using i le by auto
    then have "len * pair + i < int (length ys)" using b w(3) i lt by simp
    moreover have "ys ! (b + nat i) = Some (val i)" using w(4) lt i by (simp add: n)
    ultimately show "len * pair + i < int (length ys) \<and> ys ! nat (len * pair + i) = Some (val i)"
      using n by simp
  qed
  moreover have "\<forall>j < length xs. int j < len * pair \<or> len * (pair + 1) \<le> int j \<longrightarrow> ys ! j = xs ! j"
    using w(4) b assms(3) by (auto simp: algebra_simps)
  ultimately show ?thesis using w by blast
qed

section \<open>Create and keep\<close>

text \<open>
  C10: the response to a create-and-keep pair.  When pair \<open>pair\<close> of a request is delivered, the
  virtual qubit the application named for it is mapped to the position of the pair and the
  slice of the result array that belongs to the pair holds the generation time, the Bell state
  and \<open>-1\<close> elsewhere; all other slices, arrays, registers and mappings are as they were.
\<close>

theorem ck_deliver_layout:
  assumes "shmem_laws (shm P)" and "get_array (shm P) q m = Inr ids" and "get_array (shm P) res m = Inr xs"
    and "0 \<le> pair" and "pair < int (length ids)" and "0 \<le> ser_keep_len (ser P)"
    and "ser_keep_len (ser P) * (pair + 1) \<le> int (length xs)"
  shows "\<exists>m' ys. ck_deliver P (Some q) res pair phys dur bell m = Inr m'
     \<and> mapping m' = (mapping m)(ids ! nat pair \<mapsto> phys)
     \<and> get_array (shm P) res m' = Inr ys \<and> length ys = length xs
     \<and> slice_at (ser_keep_len (ser P)) pair
          (\<lambda>i. if i = ser_keep_bell_state (ser P) then bell
               else if i = ser_keep_goodness (ser P) then dur else - 1) ys
     \<and> (\<forall>j < length xs. int j < ser_keep_len (ser P) * pair \<or> ser_keep_len (ser P) * (pair + 1) \<le> int j
          \<longrightarrow> ys ! j = xs ! j)
     \<and> (\<forall>y. y \<noteq> res \<longrightarrow> get_array (shm P) y m' = get_array (shm P) y m)
     \<and> am_registers m' = am_registers m \<and> am_prog_counter m' = am_prog_counter m"
proof -
  let ?m = "map_virt_id (ids ! nat pair) phys m"
  have arr: "get_array (shm P) y ?m = get_array (shm P) y m" for y
    by (simp add: get_array_def map_virt_id_def)
  have v: "get_array_value (shm P) q pair m = Inr (ids ! nat pair)"
    by (rule get_array_value_whole [OF assms(1,2,4,5)])
  have val: "ck_value (ser P) dur bell = (\<lambda>i. if i = ser_keep_bell_state (ser P) then bell
               else if i = ser_keep_goodness (ser P) then dur else - 1)"
    by (simp add: ck_value_def fun_eq_iff Let_def)
  have "get_array (shm P) res ?m = Inr xs" using arr assms(3) by simp
  from write_response_whole [OF assms(1) this assms(6,4,7), of "ck_value (ser P) dur bell"]
  obtain m' ys where w: "write_response (shm P) res (ser_keep_len (ser P)) pair (ck_value (ser P) dur bell) ?m = Inr m'"
     "get_array (shm P) res m' = Inr ys" "length ys = length xs"
     "slice_at (ser_keep_len (ser P)) pair (ck_value (ser P) dur bell) ys"
     "\<forall>j < length xs. int j < ser_keep_len (ser P) * pair \<or> ser_keep_len (ser P) * (pair + 1) \<le> int j \<longrightarrow> ys ! j = xs ! j"
     "\<forall>y. y \<noteq> res \<longrightarrow> get_array (shm P) y m' = get_array (shm P) y ?m"
     "am_virt_qubits m' = am_virt_qubits ?m" "am_registers m' = am_registers ?m"
     "am_prog_counter m' = am_prog_counter ?m" by blast
  have "ck_deliver P (Some q) res pair phys dur bell m = Inr m'"
    using v w(1) by (simp add: ck_deliver_def at_address_def)
  moreover have "mapping m' = mapping ?m" using w(7) by (rule mapping_cong)
  then have "mapping m' = (mapping m)(ids ! nat pair \<mapsto> phys)" by simp
  moreover have "am_registers m' = am_registers m" "am_prog_counter m' = am_prog_counter m"
    using w(8,9) by (simp_all add: map_virt_id_def)
  ultimately show ?thesis using w(2-6) arr unfolding val by auto
qed

theorem ck_deliver_layout_witness:
  "\<exists>m' ys. ck_deliver ex_P (Some 2) 3 0 1 40 2
      (AppMemory ex_shmem 0 2\<lparr>am_arrays := [(2, [Some 0]), (3, replicate 10 None)]\<rparr>) = Inr m'
     \<and> mapping m' (Some 0) = Some 1 \<and> get_array ex_shmem 3 m' = Inr ys \<and> length ys = 10 \<and> ys ! 7 = Some 40 \<and> ys ! 9 = Some 2"
proof -
  let ?m = "AppMemory ex_shmem 0 2\<lparr>am_arrays := [(2, [Some 0]), (3, replicate 10 None)]\<rparr>"
  have s: "shm ex_P = ex_shmem" "ser ex_P = ex_ser" by (simp_all add: ex_P_def)
  have l: "shmem_laws (shm ex_P)" by (simp add: s ex_shmem_laws)
  have a: "get_array (shm ex_P) 2 ?m = Inr [Some 0]" "get_array (shm ex_P) 3 ?m = Inr (replicate 10 None)"
    by (simp_all add: s get_array_def ex_shmem_def)
  have k: "ser_keep_len ex_ser = 10" "ser_keep_bell_state ex_ser = 9" "ser_keep_goodness ex_ser = 7"
    by (simp_all add: ex_ser_def)
  from ck_deliver_layout [OF l a, of 0 1 40 2, unfolded s k] obtain m' ys where d:
      "ck_deliver ex_P (Some 2) 3 0 1 40 2 ?m = Inr m'" "mapping m' (Some 0) = Some 1"
      "get_array ex_shmem 3 m' = Inr ys" "length ys = 10"
      "slice_at 10 0 (\<lambda>i. if i = 9 then 2 else if i = 7 then 40 else - 1) ys"
    by auto
  have "ys ! 7 = Some 40" "ys ! 9 = Some 2"
    using bspec [OF d(5) [unfolded slice_at_def], of 7] bspec [OF d(5) [unfolded slice_at_def], of 9] by simp_all
  with d(1-4) show ?thesis by blast
qed

end
