(* ===== verification/Directory.thy ===== *)
theory Directory
  imports Prelude
begin

text \<open>
  The directory of nodes (classes \<open>NetSquidContext\<close> and \<open>NetSquidNetworkInfo\<close> of
  \<open>squidasm/sim/stack/context.py\<close>): class attributes are the fields of a record.  The
  locale \<open>node_directory\<close> is what its clients rely on: names and ids invert each other.
\<close>

section \<open>The contract\<close>

locale node_directory =
  fixes valid :: "'d \<Rightarrow> bool"
    and id_of :: "'d \<Rightarrow> string \<Rightarrow> int result"
    and name_of_id :: "'d \<Rightarrow> int \<Rightarrow> string result"
  assumes name_id: "valid d \<Longrightarrow> name_of_id d i = Inr s \<Longrightarrow> id_of d s = Inr i"
    and id_name: "valid d \<Longrightarrow> id_of d s = Inr i \<Longrightarrow> name_of_id d i = Inr s"
begin

lemma same_id_same_name:
  assumes "valid d" and "id_of d s = Inr i" and "id_of d t = Inr i"
  shows "s = t"
  using id_name [OF assms(1,2)] id_name [OF assms(1,3)] by simp

lemma id_iff_name:
  assumes "valid d"
  shows "id_of d s = Inr i \<longleftrightarrow> name_of_id d i = Inr s"
  using assms name_id id_name by blast

end

section \<open>The directory\<close>

record context_data =
  ctx_protocols :: "string list"
  ctx_nodes :: "(int, string) dict"

definition get_nodes :: "context_data \<Rightarrow> (int, string) dict" where
  "get_nodes c = ctx_nodes c"

definition set_nodes :: "(int, string) dict \<Rightarrow> context_data \<Rightarrow> context_data" where
  "set_nodes nodes c = c\<lparr>ctx_nodes := nodes\<rparr>"

definition add_node :: "int \<Rightarrow> string \<Rightarrow> context_data \<Rightarrow> context_data" where
  "add_node i name c = c\<lparr>ctx_nodes := AList.update i name (ctx_nodes c)\<rparr>"

definition ctx_reset :: "context_data \<Rightarrow> context_data" where
  "ctx_reset c = c\<lparr>ctx_nodes := [], ctx_protocols := []\<rparr>"

text \<open>\<open>_get_node_id\<close> returns the first match; \<open>_get_node_name\<close> is a dictionary access.\<close>

definition get_node_id :: "context_data \<Rightarrow> string \<Rightarrow> int result" where
  "get_node_id c node_name =
     (case List.find (\<lambda>(i, name). name = node_name) (get_nodes c) of
        None \<Rightarrow> Inl ValueError | Some (i, name) \<Rightarrow> Inr i)"

definition get_node_name :: "context_data \<Rightarrow> int \<Rightarrow> string result" where
  "get_node_name c node_id = dict_get (get_nodes c) node_id"

definition get_node_id_for_app :: "context_data \<Rightarrow> string \<Rightarrow> int result" where
  "get_node_id_for_app c app_name = get_node_id c app_name"

definition get_node_name_for_app :: "context_data \<Rightarrow> string \<Rightarrow> string result" where
  "get_node_name_for_app c app_name = Inl NotImplementedError"

text \<open>
  The search in \<open>Host.run\<close>: it has no \<open>break\<close>, so the last match wins, and no match is an
  assertion error.
\<close>

definition host_find_node :: "context_data \<Rightarrow> string \<Rightarrow> int result" where
  "host_find_node c remote_name =
     (case fold (\<lambda>(i, name) r. if name = remote_name then Some i else r) (get_nodes c) None of
        None \<Rightarrow> Inl AssertionError | Some i \<Rightarrow> Inr i)"

text \<open>Ids are keys; the names are distinct too.\<close>

definition directory_ok :: "context_data \<Rightarrow> bool" where
  "directory_ok c \<longleftrightarrow> dict_ok (ctx_nodes c) \<and> distinct (map snd (ctx_nodes c))"

lemma directory_entry:
  assumes "directory_ok c" and "(i, s) \<in> set (ctx_nodes c)" and "(j, s) \<in> set (ctx_nodes c)"
  shows "i = j"
proof -
  have "inj_on snd (set (ctx_nodes c))" using assms(1) by (simp add: directory_ok_def distinct_map)
  then show ?thesis using assms(2,3) inj_onD by fastforce
qed

lemma get_node_id_iff:
  assumes "directory_ok c"
  shows "get_node_id c s = Inr i \<longleftrightarrow> (i, s) \<in> set (ctx_nodes c)"
proof
  assume "get_node_id c s = Inr i"
  then obtain t where "List.find (\<lambda>(i, name). name = s) (ctx_nodes c) = Some (i, t)"
    by (auto simp: get_node_id_def get_nodes_def split: option.splits)
  then show "(i, s) \<in> set (ctx_nodes c)" by (auto dest: find_SomeD)
next
  assume m: "(i, s) \<in> set (ctx_nodes c)"
  then have "List.find (\<lambda>(i, name). name = s) (ctx_nodes c) \<noteq> None" by (auto simp: find_None_iff)
  then obtain j t where f: "List.find (\<lambda>(i, name). name = s) (ctx_nodes c) = Some (j, t)" by auto
  then have "(j, s) \<in> set (ctx_nodes c)" by (auto dest: find_SomeD)
  with directory_entry [OF assms m] f show "get_node_id c s = Inr i"
    by (simp add: get_node_id_def get_nodes_def)
qed

interpretation stack_directory: node_directory directory_ok get_node_id get_node_name
proof
  fix c i s
  assume ok: "directory_ok c"
  have iff: "get_node_name c i = Inr s \<longleftrightarrow> (i, s) \<in> set (ctx_nodes c)"
    using ok by (simp add: get_node_name_def get_nodes_def result_simps directory_ok_def)
  show "get_node_name c i = Inr s \<Longrightarrow> get_node_id c s = Inr i"
    using iff get_node_id_iff [OF ok] by simp
  show "get_node_id c s = Inr i \<Longrightarrow> get_node_name c i = Inr s"
    using iff get_node_id_iff [OF ok] by simp
qed

text \<open>With distinct names the host's search agrees with the directory's.\<close>

lemma fold_last_match:
  "fold (\<lambda>(i, name) r. if name = s then Some i else r) d r0
     = (case List.find (\<lambda>(i, name). name = s) (rev d) of None \<Rightarrow> r0 | Some (i, name) \<Rightarrow> Some i)"
proof (induction d arbitrary: r0)
  case Nil
  then show ?case by simp
next
  case (Cons x d)
  show ?case using Cons by (cases x) (auto simp: find_append split: option.splits)
qed

lemma host_find_node_eq:
  assumes "directory_ok c"
  shows "host_find_node c s = (case get_node_id c s of Inl e \<Rightarrow> Inl AssertionError | Inr i \<Rightarrow> Inr i)"
proof (cases "List.find (\<lambda>(i, name). name = s) (rev (ctx_nodes c))")
  case None
  then have "\<forall>(i, t) \<in> set (ctx_nodes c). t \<noteq> s" by (auto simp: find_None_iff)
  then have "List.find (\<lambda>(i, name). name = s) (ctx_nodes c) = None" by (auto simp: find_None_iff)
  with None show ?thesis
    by (simp add: host_find_node_def get_nodes_def fold_last_match get_node_id_def)
next
  case (Some p)
  obtain i t where p: "p = (i, t)" by (cases p)
  with Some have "(i, s) \<in> set (ctx_nodes c)" using find_SomeD [OF Some] by auto
  then have "get_node_id c s = Inr i" using get_node_id_iff [OF assms] by simp
  with Some p show ?thesis by (simp add: host_find_node_def get_nodes_def fold_last_match)
qed

end
