(* ===== verification/Host.thy ===== *)
theory Host
  imports Directory PyStr
begin

text \<open>
  The host of a node (class \<open>Host\<close> of \<open>squidasm/sim/stack/host.py\<close>), the connection a
  program gets (\<open>QnosConnection\<close> of \<open>connection.py\<close>) and its context (\<open>ProgramContext\<close> and
  \<open>ProgramMeta\<close> of \<open>program.py\<close>).  A program is user code: what it does at each point, commit a subroutine
  or return a result, is an event of the host's steps.
\<close>

section \<open>State\<close>

record program_meta =
  pm_name :: string
  pm_csockets :: "string list"
  pm_epr_sockets :: "string list"
  pm_max_qubits :: int

text \<open>Messages to QNodeOS; subroutines and the memories sent back are abstract.\<close>

datatype 's qnos_out = HostInitApp int | HostOpenEpr int int int | HostSubroutine 's | HostStopApp int

datatype 'm qnos_in = GotAppId int | GotMemory 'm

record program_context =
  pc_csockets :: "string list"
  pc_epr_sockets :: "(string, int) dict"
  pc_app_id :: int

datatype host_pc = HostLoop | HostAwaitAppId | HostProgram program_context
  | HostAwaitMemory program_context | HostDone

record ('s, 'm, 'r) host =
  program :: "program_meta option"
  num_pending :: int
  program_results :: "'r list"
  netsquid_sockets :: "(string, int) dict"
  host_sent :: "'s qnos_out list"
  host_inbox :: "'m qnos_in list"
  shared_memory :: "'m qnos_in option"
  host_pc_of :: host_pc

datatype compiler = NVSubroutineTranspiler | NoCompiler

text \<open>The constructor; the compiler is chosen by the device type.\<close>

definition Host_compiler :: "string \<Rightarrow> compiler result" where
  "Host_compiler qdevice_type =
     (if qdevice_type = ''nv'' then Inr NVSubroutineTranspiler
      else if qdevice_type = ''generic'' then Inr NoCompiler
      else Inl ValueError)"

definition new_host :: "('s, 'm, 'r) host" where
  "new_host = \<lparr>program = None, num_pending = 0, program_results = [], netsquid_sockets = [],
     host_sent = [], host_inbox = [], shared_memory = None, host_pc_of = HostLoop\<rparr>"

section \<open>Operations\<close>

definition enqueue_program :: "program_meta \<Rightarrow> int \<Rightarrow> ('s, 'm, 'r) host \<Rightarrow> ('s, 'm, 'r) host" where
  "enqueue_program prog num_times h = h\<lparr>program := Some prog, num_pending := num_times\<rparr>"

definition get_results :: "('s, 'm, 'r) host \<Rightarrow> 'r list" where
  "get_results h = program_results h"

definition register_netsquid_socket :: "string \<Rightarrow> int \<Rightarrow> ('s, 'm, 'r) host \<Rightarrow> ('s, 'm, 'r) host" where
  "register_netsquid_socket remote_node socket h =
     h\<lparr>netsquid_sockets := AList.update remote_node socket (netsquid_sockets h)\<rparr>"

definition send_qnos_msg :: "'s qnos_out \<Rightarrow> ('s, 'm, 'r) host \<Rightarrow> ('s, 'm, 'r) host" where
  "send_qnos_msg msg h = h\<lparr>host_sent := host_sent h @ [msg]\<rparr>"

text \<open>
  The head of the \<open>while\<close> loop in \<open>run\<close>, up to the \<open>yield\<close> for the application id.
\<close>

definition host_loop_head :: "('s, 'm, 'r) host \<Rightarrow> ('s, 'm, 'r) host result" where
  "host_loop_head h =
     (if num_pending h > 0 then
        (case program h of None \<Rightarrow> Inl AssertionError
         | Some meta \<Rightarrow>
             Inr (send_qnos_msg (HostInitApp (pm_max_qubits meta))
               (h\<lparr>num_pending := num_pending h - 1, host_pc_of := HostAwaitAppId\<rparr>)))
      else Inr (h\<lparr>host_pc_of := HostDone\<rparr>))"

text \<open>The loop over \<open>enumerate(prog_meta.epr_sockets)\<close>.\<close>

fun open_sockets ::
    "context_data \<Rightarrow> int \<Rightarrow> int \<Rightarrow> string list \<Rightarrow> (string, int) dict \<Rightarrow> ('s, 'm, 'r) host
       \<Rightarrow> ((string, int) dict \<times> ('s, 'm, 'r) host) result" where
  "open_sockets ctx app_id i [] socks h = Inr (socks, h)"
| "open_sockets ctx app_id i (remote_name # rest) socks h =
     bindE (host_find_node ctx remote_name) (\<lambda>remote_id.
       open_sockets ctx app_id (i + 1) rest (AList.update remote_name i socks)
         (send_qnos_msg (HostOpenEpr app_id i remote_id) h))"

definition check_csocket :: "('s, 'm, 'r) host \<Rightarrow> string \<Rightarrow> string list \<Rightarrow> string list result" where
  "check_csocket h remote_name acc =
     bindE (assertE (remote_name \<in> set (dict_keys (netsquid_sockets h))) ValueError) (\<lambda>_.
       Inr (if remote_name \<in> set acc then acc else acc @ [remote_name]))"

definition host_got_app_id ::
    "context_data \<Rightarrow> program_meta \<Rightarrow> int \<Rightarrow> ('s, 'm, 'r) host \<Rightarrow> ('s, 'm, 'r) host result" where
  "host_got_app_id ctx meta app_id h =
     bindE (open_sockets ctx app_id 0 (pm_epr_sockets meta) [] h) (\<lambda>(eprs, h1).
     bindE (forE (check_csocket h1) (pm_csockets meta) []) (\<lambda>cs.
       Inr (h1\<lparr>host_pc_of := HostProgram
         \<lparr>pc_csockets = cs, pc_epr_sockets = eprs, pc_app_id = app_id\<rparr>\<rparr>)))"

text \<open>
  The program commits a subroutine; whatever QNodeOS then answers becomes the connection's
  shared memory.
\<close>

definition commit_subroutine :: "'s \<Rightarrow> ('s, 'm, 'r) host \<Rightarrow> ('s, 'm, 'r) host" where
  "commit_subroutine s h = send_qnos_msg (HostSubroutine s) h"

text \<open>
  \<open>QnosConnection.flush\<close>: nothing pending in the builder means no message; else the pending
  protosubroutine is compiled (\<open>compile\<close>, the SDK's builder) and committed.
\<close>

definition flush_connection ::
    "('p \<Rightarrow> 's result) \<Rightarrow> 'p option \<Rightarrow> ('s, 'm, 'r) host \<Rightarrow> (bool \<times> ('s, 'm, 'r) host) result" where
  "flush_connection compile pending h =
     (case pending of None \<Rightarrow> Inr (False, h)
      | Some proto \<Rightarrow> bindE (compile proto) (\<lambda>s. Inr (True, commit_subroutine s h)))"

text \<open>The program has returned.\<close>

definition host_program_returned :: "int \<Rightarrow> 'r \<Rightarrow> ('s, 'm, 'r) host \<Rightarrow> ('s, 'm, 'r) host" where
  "host_program_returned app_id r h =
     send_qnos_msg (HostStopApp app_id)
       (h\<lparr>program_results := program_results h @ [r], host_pc_of := HostLoop\<rparr>)"

section \<open>Steps\<close>

text \<open>
  \<open>HostGo\<close>: the loop head, or a message of QNodeOS is there; \<open>ProgramCommits\<close> and
  \<open>ProgramReturns\<close>: what the running program does next.
\<close>

datatype ('s, 'm, 'r) host_event = HostGo | ProgramCommits 's | ProgramReturns 'r | FromQnos "'m qnos_in"

fun host_step ::
    "context_data \<Rightarrow> ('s, 'm, 'r) host_event \<Rightarrow> ('s, 'm, 'r) host \<Rightarrow> ('s, 'm, 'r) host result option" where
  "host_step ctx HostGo h =
     (case host_pc_of h of
        HostLoop \<Rightarrow> Some (host_loop_head h)
      | HostAwaitAppId \<Rightarrow> (case host_inbox h of [] \<Rightarrow> None
          | msg # rest \<Rightarrow>
              (case (msg, program h) of
                 (GotAppId app_id, Some meta) \<Rightarrow> Some (host_got_app_id ctx meta app_id (h\<lparr>host_inbox := rest\<rparr>))
               | _ \<Rightarrow> Some (Inl TypeError)))
      | HostAwaitMemory c \<Rightarrow> (case host_inbox h of [] \<Rightarrow> None
          | msg # rest \<Rightarrow>
              Some (Inr (h\<lparr>host_inbox := rest, shared_memory := Some msg, host_pc_of := HostProgram c\<rparr>)))
      | _ \<Rightarrow> None)"
| "host_step ctx (ProgramCommits s) h =
     (case host_pc_of h of
        HostProgram c \<Rightarrow> Some (Inr ((commit_subroutine s h)\<lparr>host_pc_of := HostAwaitMemory c\<rparr>))
      | _ \<Rightarrow> None)"
| "host_step ctx (ProgramReturns r) h =
     (case host_pc_of h of
        HostProgram c \<Rightarrow> Some (Inr (host_program_returned (pc_app_id c) r h))
      | _ \<Rightarrow> None)"
| "host_step ctx (FromQnos msg) h = Some (Inr (h\<lparr>host_inbox := host_inbox h @ [msg]\<rparr>))"

inductive host_run :: "context_data \<Rightarrow> ('s, 'm, 'r) host \<Rightarrow> ('s, 'm, 'r) host \<Rightarrow> bool" for ctx where
  hr_refl: "host_run ctx h h"
| hr_step: "host_run ctx h h' \<Longrightarrow> host_step ctx e h' = Some (Inr h'') \<Longrightarrow> host_run ctx h h''"

section \<open>Counting runs of the program\<close>

text \<open>The programs under way: one between the first message and the result.\<close>

fun in_progress :: "host_pc \<Rightarrow> int" where
  "in_progress HostLoop = 0"
| "in_progress HostDone = 0"
| "in_progress _ = 1"

definition runs_total :: "('s, 'm, 'r) host \<Rightarrow> int" where
  "runs_total h = int (length (program_results h)) + num_pending h + in_progress (host_pc_of h)"

lemma open_sockets_frame:
  assumes "open_sockets ctx a i names socks h = Inr (socks', h')"
  shows "program h' = program h \<and> num_pending h' = num_pending h \<and> program_results h' = program_results h
     \<and> netsquid_sockets h' = netsquid_sockets h \<and> host_inbox h' = host_inbox h
     \<and> host_pc_of h' = host_pc_of h \<and> shared_memory h' = shared_memory h"
  using assms
  by (induction names arbitrary: i socks h) (auto simp: result_simps send_qnos_msg_def)

text \<open>What a step does to the counters.\<close>

lemma host_step_counters:
  assumes "host_step ctx e h = Some (Inr h')"
  obtains
      (start) "host_pc_of h = HostLoop" "num_pending h > 0" "num_pending h' = num_pending h - 1"
        "host_pc_of h' = HostAwaitAppId" "program_results h' = program_results h"
    | (finish) "host_pc_of h = HostLoop" "num_pending h \<le> 0" "num_pending h' = num_pending h"
        "host_pc_of h' = HostDone" "program_results h' = program_results h"
    | (same) "num_pending h' = num_pending h" "program_results h' = program_results h"
        "host_pc_of h' = host_pc_of h \<or> in_progress (host_pc_of h) = 1 \<and> in_progress (host_pc_of h') = 1"
    | (return) r where "in_progress (host_pc_of h) = 1" "host_pc_of h' = HostLoop" "num_pending h' = num_pending h"
        "program_results h' = program_results h @ [r]"
proof (cases e)
  case HostGo
  then consider
      (head) "host_pc_of h = HostLoop" "host_loop_head h = Inr h'"
    | (app) rest meta a where "host_pc_of h = HostAwaitAppId"
        "host_got_app_id ctx meta a (h\<lparr>host_inbox := rest\<rparr>) = Inr h'"
    | (mem) m rest c where "host_pc_of h = HostAwaitMemory c"
        "h' = h\<lparr>host_inbox := rest, shared_memory := Some m, host_pc_of := HostProgram c\<rparr>"
    using assms by (auto split: host_pc.splits list.splits option.splits qnos_in.splits prod.splits)
  then show thesis
  proof cases
    case head
    then show thesis
      by (cases "num_pending h > 0")
        (auto simp: host_loop_head_def send_qnos_msg_def result_simps split: option.splits intro: start finish)
  next
    case app
    then obtain h1 eprs c where "open_sockets ctx a 0 (pm_epr_sockets meta) [] (h\<lparr>host_inbox := rest\<rparr>) = Inr (eprs, h1)"
        "h' = h1\<lparr>host_pc_of := HostProgram c\<rparr>"
      by (auto simp: host_got_app_id_def result_simps)
    then show thesis using open_sockets_frame app(1) by (intro same) fastforce+
  next
    case mem
    then show thesis by (intro same) simp_all
  qed
next
  case (ProgramCommits s)
  then show thesis using assms
    by (intro same) (auto simp: commit_subroutine_def send_qnos_msg_def split: host_pc.splits)
next
  case (ProgramReturns r)
  then show thesis using assms
    by (intro return [of r]) (auto simp: host_program_returned_def send_qnos_msg_def split: host_pc.splits)
next
  case (FromQnos msg)
  then show thesis using assms by (intro same) auto
qed

lemma host_step_runs:
  assumes "host_step ctx e h = Some (Inr h')"
  shows "runs_total h' = runs_total h"
  using assms by (cases rule: host_step_counters) (auto simp: runs_total_def)

lemma host_step_pending:
  assumes "host_step ctx e h = Some (Inr h')" and "num_pending h \<ge> 0"
  shows "num_pending h' \<ge> 0"
  using assms by (cases rule: host_step_counters) auto

lemma host_run_runs: "host_run ctx h h' \<Longrightarrow> runs_total h' = runs_total h"
  by (induction rule: host_run.induct) (simp_all add: host_step_runs)

text \<open>The program and the sockets stay, and results are only added.\<close>

lemma host_step_keeps:
  assumes "host_step ctx e h = Some (Inr h')"
  shows "program h' = program h \<and> netsquid_sockets h' = netsquid_sockets h
     \<and> (\<exists>rs. program_results h' = program_results h @ rs)"
proof -
  have got: "program h1 = program h \<and> netsquid_sockets h1 = netsquid_sockets h \<and> program_results h1 = program_results h"
    if "host_got_app_id ctx meta a (h\<lparr>host_inbox := rest\<rparr>) = Inr h1" for meta a rest h1
    using that by (auto simp: host_got_app_id_def result_simps dest: open_sockets_frame)
  show ?thesis using assms
    by (cases e) (auto simp: host_loop_head_def send_qnos_msg_def commit_subroutine_def host_program_returned_def
        result_simps dest!: got split: host_pc.splits list.splits option.splits qnos_in.splits if_splits)
qed

lemma host_run_keeps:
  "host_run ctx h h' \<Longrightarrow> program h' = program h \<and> netsquid_sockets h' = netsquid_sockets h
     \<and> (\<exists>rs. program_results h' = program_results h @ rs)"
proof (induction rule: host_run.induct)
  case (hr_step h h' e h'')
  then show ?case using host_step_keeps [OF hr_step.hyps(2)] by auto
qed simp

text \<open>With its sockets registered and its nodes known, a program's start cannot raise.\<close>

lemma open_sockets_total:
  "\<forall>name \<in> set names. \<exists>j. host_find_node ctx name = Inr j \<Longrightarrow> \<exists>r. open_sockets ctx a i names socks h = Inr r"
proof (induction names arbitrary: i socks h)
  case (Cons name names)
  then obtain j where "host_find_node ctx name = Inr j" by auto
  then show ?case using Cons by simp
qed simp

lemma check_csockets_total:
  "set names \<subseteq> set (dict_keys (netsquid_sockets h)) \<Longrightarrow> \<exists>cs. forE (check_csocket h) names acc = Inr cs"
  by (induction names arbitrary: acc) (auto simp: check_csocket_def)

lemma host_got_app_id_total:
  assumes "\<forall>name \<in> set (pm_epr_sockets meta). \<exists>j. host_find_node ctx name = Inr j"
    and "set (pm_csockets meta) \<subseteq> set (dict_keys (netsquid_sockets h))"
  shows "\<exists>h'. host_got_app_id ctx meta a h = Inr h'"
proof -
  obtain eprs h1 where o: "open_sockets ctx a 0 (pm_epr_sockets meta) [] h = Inr (eprs, h1)"
    using open_sockets_total [OF assms(1)] by fastforce
  then have "set (pm_csockets meta) \<subseteq> set (dict_keys (netsquid_sockets h1))"
    using open_sockets_frame [OF o] assms(2) by simp
  then obtain cs where "forE (check_csocket h1) (pm_csockets meta) [] = Inr cs"
    using check_csockets_total by blast
  then show ?thesis using o by (simp add: host_got_app_id_def)
qed

text \<open>A host at rest has nothing left to do.\<close>

definition host_wf :: "('s, 'm, 'r) host \<Rightarrow> bool" where
  "host_wf h \<longleftrightarrow> (host_pc_of h = HostDone \<longrightarrow> num_pending h \<le> 0) \<and>
     (host_pc_of h \<noteq> HostDone \<and> host_pc_of h \<noteq> HostLoop \<longrightarrow> num_pending h \<ge> 0)"

lemma in_progress_iff: "in_progress pc = 1 \<longleftrightarrow> pc \<noteq> HostDone \<and> pc \<noteq> HostLoop"
  by (cases pc) simp_all

lemma host_step_wf:
  assumes "host_step ctx e h = Some (Inr h')" and "host_wf h"
  shows "host_wf h'"
  using assms by (cases rule: host_step_counters) (auto simp: host_wf_def in_progress_iff)

lemma host_run_wf: "host_run ctx h h' \<Longrightarrow> host_wf h \<Longrightarrow> host_wf h'"
  by (induction rule: host_run.induct) (blast intro: host_step_wf)+

lemma host_run_pending: "host_run ctx h h' \<Longrightarrow> num_pending h \<ge> 0 \<Longrightarrow> num_pending h' \<ge> 0"
  by (induction rule: host_run.induct) (blast intro: host_step_pending)+

text \<open>The sockets opened: one per remote name, in order, at the index of the name.\<close>

lemma open_sockets_sent:
  assumes "open_sockets ctx a i names socks h = Inr (socks', h')"
  shows "\<exists>ids. list_all2 (\<lambda>name j. host_find_node ctx name = Inr j) names ids
     \<and> host_sent h' = host_sent h @ map (\<lambda>(k, j). HostOpenEpr a (i + int k) j) (List.enumerate 0 ids)"
  using assms
proof (induction names arbitrary: i socks h)
  case Nil
  then show ?case by simp
next
  case (Cons name names)
  from Cons.prems obtain j where j: "host_find_node ctx name = Inr j"
      "open_sockets ctx a (i + 1) names (AList.update name i socks) (send_qnos_msg (HostOpenEpr a i j) h) = Inr (socks', h')"
    by (auto simp: result_simps)
  from Cons.IH [OF j(2)] obtain ids where ids: "list_all2 (\<lambda>name j. host_find_node ctx name = Inr j) names ids"
      "host_sent h' = host_sent h @ HostOpenEpr a i j # map (\<lambda>(k, j). HostOpenEpr a (i + 1 + int k) j) (List.enumerate 0 ids)"
    by (auto simp: send_qnos_msg_def)
  have eq: "map (\<lambda>(k, j). HostOpenEpr a (i + int k) j) (List.enumerate 0 (j # ids))
      = HostOpenEpr a i j # map (\<lambda>(k, j). HostOpenEpr a (i + 1 + int k) j) (List.enumerate 0 ids)"
    by (simp add: enumerate_Suc_eq [of 0] comp_def split_def)
  have "list_all2 (\<lambda>name j. host_find_node ctx name = Inr j) (name # names) (j # ids)
     \<and> host_sent h' = host_sent h @ map (\<lambda>(k, j). HostOpenEpr a (i + int k) j) (List.enumerate 0 (j # ids))"
    unfolding eq using ids j(1) by simp
  then show ?case by blast
qed

end
