(* ===== verification/HostProps.thy ===== *)
theory HostProps
  imports Host
begin

text \<open>Properties of the host: how often the program runs, and the sockets it gets.\<close>

text \<open>
  C15: a host that is given a program to run \<open>k\<close> times, whatever classical sockets are registered
  with it and whatever results it has from earlier programs, has run it exactly \<open>k\<close> times when it is
  done, whatever the program and the node did: \<open>k\<close> results are appended to those it had.  Before
  that, the new results, pending runs and the run under way add up to \<open>k\<close>.  If the classical
  sockets the program asks for are registered and its remote nodes are in the directory, no
  step raises, unless QNodeOS answers the start of an application with something else than an
  application id.
\<close>

theorem host_runs_program:
  assumes "0 \<le> k" and "host_pc_of h0 = HostLoop" and "host_run ctx (enqueue_program prog k h0) h"
  shows "\<exists>rs. get_results h = get_results h0 @ rs
     \<and> int (length rs) + num_pending h + in_progress (host_pc_of h) = k
     \<and> (host_pc_of h = HostDone \<longrightarrow> int (length rs) = k)
     \<and> (set (pm_csockets prog) \<subseteq> set (dict_keys (netsquid_sockets h0))
        \<and> (\<forall>name \<in> set (pm_epr_sockets prog). \<exists>j. host_find_node ctx name = Inr j)
        \<longrightarrow> (\<forall>e err. host_step ctx e h = Some (Inl err)
              \<longrightarrow> host_pc_of h = HostAwaitAppId \<and> (\<exists>m rest. host_inbox h = GotMemory m # rest)))"
proof -
  let ?h = "enqueue_program prog k h0"
  have same: "program_results ?h = program_results h0" "netsquid_sockets ?h = netsquid_sockets h0" "program ?h = Some prog"
    by (simp_all add: enqueue_program_def)
  have "runs_total ?h = int (length (program_results h0)) + k"
    using assms(2) by (simp add: runs_total_def enqueue_program_def)
  then have r: "runs_total h = int (length (program_results h0)) + k" using host_run_runs [OF assms(3)] by simp
  have i: "num_pending h \<ge> 0"
    by (rule host_run_pending [OF assms(3)]) (simp add: enqueue_program_def assms(1))
  have "host_wf ?h" using assms(2) by (simp add: host_wf_def enqueue_program_def)
  then have "host_wf h" by (rule host_run_wf [OF assms(3)])
  then have d: "host_pc_of h = HostDone \<longrightarrow> num_pending h = 0" using i by (auto simp: host_wf_def)
  obtain rs where rs: "program_results h = program_results h0 @ rs" and pr: "program h = Some prog"
    and ns: "netsquid_sockets h = netsquid_sockets h0"
    using host_run_keeps [OF assms(3)] same by auto
  have "host_pc_of h = HostAwaitAppId \<and> (\<exists>m rest. host_inbox h = GotMemory m # rest)"
    if "set (pm_csockets prog) \<subseteq> set (dict_keys (netsquid_sockets h0))"
      "\<forall>name \<in> set (pm_epr_sockets prog). \<exists>j. host_find_node ctx name = Inr j"
      "host_step ctx e h = Some (Inl err)" for e err
  proof -
    have "host_got_app_id ctx prog a (h\<lparr>host_inbox := rest\<rparr>) \<noteq> Inl err" for a rest
      using host_got_app_id_total [OF that(2), of "h\<lparr>host_inbox := rest\<rparr>" a] that(1) ns by auto
    then show ?thesis using that(3) pr
      by (cases e) (auto simp: host_loop_head_def split: host_pc.splits list.splits qnos_in.splits if_splits)
  qed
  with r d rs show ?thesis by (auto simp: runs_total_def get_results_def)
qed

definition ex_meta :: program_meta where
  "ex_meta = \<lparr>pm_name = ''prog'', pm_csockets = [''bob''], pm_epr_sockets = [''carol'', ''bob''], pm_max_qubits = 2\<rparr>"

definition ex_ctx :: context_data where
  "ex_ctx = \<lparr>ctx_protocols = [], ctx_nodes = [(0, ''alice''), (1, ''bob''), (2, ''carol'')]\<rparr>"

definition ex_host :: "(string, int, int) host" where
  "ex_host = enqueue_program ex_meta 1 (register_netsquid_socket ''bob'' 0 new_host)"

fun run_host :: "context_data \<Rightarrow> (string, int, int) host_event list \<Rightarrow> (string, int, int) host \<Rightarrow> (string, int, int) host" where
  "run_host ctx [] h = h"
| "run_host ctx (e # es) h = (case host_step ctx e h of Some (Inr h') \<Rightarrow> run_host ctx es h' | _ \<Rightarrow> h)"

lemma run_host_run: "host_run ctx h0 h \<Longrightarrow> host_run ctx h0 (run_host ctx es h)"
  by (induction es arbitrary: h) (auto split: option.splits sum.splits intro: hr_step)

definition ex_done :: "(string, int, int) host" where
  "ex_done = run_host ex_ctx [HostGo, FromQnos (GotAppId 7), HostGo, ProgramCommits ''s'', FromQnos (GotMemory 0),
     HostGo, ProgramReturns 5, HostGo] ex_host"

theorem host_runs_program_witness:
  "host_run ex_ctx (enqueue_program ex_meta 1 (register_netsquid_socket ''bob'' 0 new_host)) ex_done
     \<and> host_pc_of ex_done = HostDone \<and> int (length (get_results ex_done)) = 1"
proof -
  let ?h0 = "register_netsquid_socket ''bob'' 0 new_host :: (string, int, int) host"
  have r: "host_run ex_ctx (enqueue_program ex_meta 1 ?h0) ex_done"
    unfolding ex_done_def ex_host_def by (rule run_host_run [OF hr_refl])
  have p: "host_pc_of ?h0 = HostLoop" "get_results ?h0 = []" by code_simp+
  have "host_pc_of ex_done = HostDone" by code_simp
  with host_runs_program [OF _ p(1) r] r p(2) show ?thesis by auto
qed

text \<open>
  The sockets of a program.  When the application id arrives, the host has asked QNodeOS to
  open one EPR socket per remote name of the program's list, in that order, numbered by
  position, each with the id the directory gives for the name, and nothing else; the
  program's context has exactly the classical sockets it asked for.
\<close>

theorem host_opens_sockets:
  assumes "host_got_app_id ctx meta a h = Inr h'"
  shows "\<exists>ids c. list_all2 (\<lambda>name j. host_find_node ctx name = Inr j) (pm_epr_sockets meta) ids
     \<and> host_sent h' = host_sent h @ map (\<lambda>(k, j). HostOpenEpr a (int k) j) (List.enumerate 0 ids)
     \<and> host_pc_of h' = HostProgram c \<and> pc_app_id c = a
     \<and> set (pc_csockets c) = set (pm_csockets meta)
     \<and> set (pm_csockets meta) \<subseteq> set (dict_keys (netsquid_sockets h))"
proof -
  from assms obtain eprs h1 cs where h1: "open_sockets ctx a 0 (pm_epr_sockets meta) [] h = Inr (eprs, h1)"
      "forE (check_csocket h1) (pm_csockets meta) [] = Inr cs"
      "h' = h1\<lparr>host_pc_of := HostProgram \<lparr>pc_csockets = cs, pc_epr_sockets = eprs, pc_app_id = a\<rparr>\<rparr>"
    by (auto simp: host_got_app_id_def result_simps)
  have cs: "set cs = set names \<union> set acc \<and> set names \<subseteq> set (dict_keys (netsquid_sockets h1))"
    if "forE (check_csocket h1) names acc = Inr cs" for names acc cs
    using that by (induction names arbitrary: acc) (auto simp: check_csocket_def result_simps split: if_splits)
  have "netsquid_sockets h1 = netsquid_sockets h" using open_sockets_frame [OF h1(1)] by simp
  then show ?thesis using open_sockets_sent [OF h1(1)] cs [OF h1(2)] h1(3) by auto
qed

theorem host_opens_sockets_witness:
  "\<exists>h'. host_got_app_id ex_ctx ex_meta 7 ex_host = Inr h'
     \<and> host_sent h' = [HostOpenEpr 7 0 2, HostOpenEpr 7 1 1]"
proof -
  have "case host_got_app_id ex_ctx ex_meta 7 ex_host of Inl e \<Rightarrow> False | Inr h' \<Rightarrow> True" by code_simp
  then obtain h' where h': "host_got_app_id ex_ctx ex_meta 7 ex_host = Inr h'" by (auto split: sum.splits)
  have "host_find_node ex_ctx ''carol'' = Inr 2" "host_find_node ex_ctx ''bob'' = Inr 1" by code_simp+
  with host_opens_sockets [OF h'] h' show ?thesis
    by (auto simp: ex_meta_def ex_host_def enqueue_program_def register_netsquid_socket_def new_host_def
        list_all2_Cons1 enumerate_Suc_eq [of 0])
qed

end
