(* ===== verification/StackConfig.thy ===== *)
theory StackConfig
  imports Prelude
begin

text \<open>
  Network configurations: the classes of \<open>squidasm/run/stack/config.py\<close>, their conversion to
  the network builder's configuration, and the two generators of \<open>squidasm/util/util.py\<close>.
  The configuration objects of the network builder package are constructors with the
  arguments the sources pass; any other configuration object is \<open>OpaqueCfg\<close>.
\<close>

section \<open>Data\<close>

datatype qdevice_cfg = NoQDevice | PerfectGeneric
  | GenericDepolar (two_qubit_gate_depolar_prob: rat) (single_qubit_gate_depolar_prob: rat)
  | OpaqueQDevice int

datatype link_cfg = NoCfg | PerfectQLinkConfig | InstantCLinkConfig | DefaultCLinkConfig rat
  | DepolariseLinkConfig (fidelity: rat) (t_cycle: rat) (prob_success: rat)
  | OpaqueCfg int

record stack_config =
  sc_name :: string
  sc_qdevice_typ :: string
  sc_qdevice_cfg :: qdevice_cfg

record link_config =
  lc_stack1 :: string
  lc_stack2 :: string
  lc_typ :: string
  lc_cfg :: link_cfg

record stack_network_config =
  snc_stacks :: "stack_config list"
  snc_links :: "link_config list"
  snc_clinks :: "link_config list option"

definition perfect_generic_config :: "string \<Rightarrow> stack_config" where
  "perfect_generic_config name =
     \<lparr>sc_name = name, sc_qdevice_typ = ''generic'', sc_qdevice_cfg = PerfectGeneric\<rparr>"

definition LinkConfig_perfect_config :: "string \<Rightarrow> string \<Rightarrow> link_config" where
  "LinkConfig_perfect_config s1 s2 =
     \<lparr>lc_stack1 = s1, lc_stack2 = s2, lc_typ = ''perfect'', lc_cfg = NoCfg\<rparr>"

definition CLinkConfig_perfect_config :: "string \<Rightarrow> string \<Rightarrow> link_config" where
  "CLinkConfig_perfect_config s1 s2 =
     \<lparr>lc_stack1 = s1, lc_stack2 = s2, lc_typ = ''instant'', lc_cfg = NoCfg\<rparr>"

text \<open>The network builder's side.\<close>

record node_config =
  nc_name :: string
  nc_qdevice_typ :: string
  nc_qdevice_cfg :: qdevice_cfg

record edge_config =
  ec_node1 :: string
  ec_node2 :: string
  ec_typ :: string
  ec_cfg :: link_cfg

record network_config =
  processing_nodes :: "node_config list"
  qlinks :: "edge_config list"
  clinks :: "edge_config list"

section \<open>\<open>itertools.combinations(xs, 2)\<close>\<close>

fun combinations2 :: "'a list \<Rightarrow> ('a \<times> 'a) list" where
  "combinations2 [] = []"
| "combinations2 (x # xs) = map (Pair x) xs @ combinations2 xs"

lemma combinations2_mem: "(x, y) \<in> set (combinations2 xs) \<Longrightarrow> x \<in> set xs \<and> y \<in> set xs"
  by (induction xs) auto

lemma combinations2_neq: "distinct xs \<Longrightarrow> (x, y) \<in> set (combinations2 xs) \<Longrightarrow> x \<noteq> y"
  by (induction xs) (auto dest: combinations2_mem)

lemma combinations2_total:
  "x \<in> set xs \<Longrightarrow> y \<in> set xs \<Longrightarrow> x \<noteq> y \<Longrightarrow> (x, y) \<in> set (combinations2 xs) \<or> (y, x) \<in> set (combinations2 xs)"
  by (induction xs) auto

lemma combinations2_one_way:
  "distinct xs \<Longrightarrow> (x, y) \<in> set (combinations2 xs) \<Longrightarrow> (y, x) \<notin> set (combinations2 xs)"
  by (induction xs) (auto dest: combinations2_mem)

lemma distinct_combinations2: "distinct xs \<Longrightarrow> distinct (combinations2 xs)"
  by (induction xs) (auto simp: distinct_map inj_on_def dest: combinations2_mem)

lemma length_combinations2: "2 * length (combinations2 xs) = length xs * (length xs - 1)"
proof (induction xs)
  case (Cons x xs)
  then show ?case by (cases xs) (simp_all add: algebra_simps)
qed simp

lemma combinations2_map: "combinations2 (map f xs) = map (\<lambda>(x, y). (f x, f y)) (combinations2 xs)"
  by (induction xs) simp_all

section \<open>Conversion\<close>

definition convert_stack :: "stack_config \<Rightarrow> node_config" where
  "convert_stack s = \<lparr>nc_name = sc_name s, nc_qdevice_typ = sc_qdevice_typ s, nc_qdevice_cfg = sc_qdevice_cfg s\<rparr>"

definition convert_link :: "link_config \<Rightarrow> edge_config" where
  "convert_link l =
     (let link_typ = (if lc_typ l = ''heralded'' then ''heralded-double-click'' else lc_typ l);
          link_cfg = (if lc_cfg l = NoCfg \<and> link_typ = ''perfect'' then PerfectQLinkConfig else lc_cfg l)
      in \<lparr>ec_node1 = lc_stack1 l, ec_node2 = lc_stack2 l, ec_typ = link_typ, ec_cfg = link_cfg\<rparr>)"

definition convert_clink :: "link_config \<Rightarrow> edge_config" where
  "convert_clink l = \<lparr>ec_node1 = lc_stack1 l, ec_node2 = lc_stack2 l, ec_typ = lc_typ l, ec_cfg = lc_cfg l\<rparr>"

definition default_clink :: "node_config \<Rightarrow> node_config \<Rightarrow> edge_config" where
  "default_clink n1 n2 =
     \<lparr>ec_node1 = nc_name n1, ec_node2 = nc_name n2, ec_typ = ''instant'', ec_cfg = InstantCLinkConfig\<rparr>"

text \<open>An absent and an empty list of classical links both mean the complete graph.\<close>

definition convert_stack_network_config :: "stack_network_config \<Rightarrow> network_config" where
  "convert_stack_network_config c =
     (let nodes = map convert_stack (snc_stacks c) in
      \<lparr>processing_nodes = nodes,
       qlinks = map convert_link (snc_links c),
       clinks = (case snc_clinks c of
           Some (l # ls) \<Rightarrow> map convert_clink (l # ls)
         | _ \<Rightarrow> map (\<lambda>(n1, n2). default_clink n1 n2) (combinations2 nodes))\<rparr>)"

section \<open>Generators\<close>

definition create_two_node_network ::
    "string list option \<Rightarrow> rat \<Rightarrow> rat \<Rightarrow> rat \<Rightarrow> rat \<Rightarrow> stack_network_config result" where
  "create_two_node_network node_names link_noise qdevice_noise clink_delay link_delay =
     (let names = (case node_names of None \<Rightarrow> [''Alice'', ''Bob''] | Some l \<Rightarrow> l) in
      bindE (assertE (length names = 2) AssertionError) (\<lambda>_.
        Inr \<lparr>snc_stacks = map (\<lambda>name. \<lparr>sc_name = name, sc_qdevice_typ = ''generic'',
                 sc_qdevice_cfg = GenericDepolar qdevice_noise qdevice_noise\<rparr>) names,
             snc_links = [\<lparr>lc_stack1 = names ! 0, lc_stack2 = names ! 1, lc_typ = ''depolarise'',
                 lc_cfg = DepolariseLinkConfig (1 - link_noise * 3 / 4) link_delay 1\<rparr>],
             snc_clinks = Some [\<lparr>lc_stack1 = names ! 0, lc_stack2 = names ! 1, lc_typ = ''default'',
                 lc_cfg = DefaultCLinkConfig clink_delay\<rparr>]\<rparr>))"

text \<open>
  The loops append to lists that start empty; the first node fixes the device configuration
  of all when none is given.
\<close>

definition add_stack :: "string \<Rightarrow> string \<Rightarrow> qdevice_cfg \<times> stack_config list \<Rightarrow> qdevice_cfg \<times> stack_config list" where
  "add_stack typ name acc =
     (let cfg = (if fst acc = NoQDevice then PerfectGeneric else fst acc)
      in (cfg, snd acc @ [\<lparr>sc_name = name, sc_qdevice_typ = typ, sc_qdevice_cfg = cfg\<rparr>]))"

definition create_complete_graph_network ::
    "string list \<Rightarrow> string \<Rightarrow> link_cfg \<Rightarrow> string \<Rightarrow> link_cfg \<Rightarrow> string \<Rightarrow> qdevice_cfg
       \<Rightarrow> stack_network_config result" where
  "create_complete_graph_network node_names link_typ lcfg clink_typ clcfg qdevice_typ qcfg =
     bindE (assertE (length node_names > 0) AssertionError) (\<lambda>_.
       Inr \<lparr>snc_stacks = snd (fold (add_stack qdevice_typ) node_names (qcfg, [])),
            snc_links = map (\<lambda>(s1, s2). \<lparr>lc_stack1 = s1, lc_stack2 = s2, lc_typ = link_typ, lc_cfg = lcfg\<rparr>)
                            (combinations2 node_names),
            snc_clinks = Some (map (\<lambda>(s1, s2). \<lparr>lc_stack1 = s1, lc_stack2 = s2, lc_typ = clink_typ, lc_cfg = clcfg\<rparr>)
                            (combinations2 node_names))\<rparr>)"

lemma fold_add_stack:
  "snd (fold (add_stack typ) names (cfg, acc))
     = acc @ map (\<lambda>name. \<lparr>sc_name = name, sc_qdevice_typ = typ,
                         sc_qdevice_cfg = (if cfg = NoQDevice then PerfectGeneric else cfg)\<rparr>) names"
  by (induction names arbitrary: cfg acc) (simp_all add: add_stack_def Let_def)

text \<open>The edges of a converted network, as ordered pairs of names.\<close>

definition edges :: "edge_config list \<Rightarrow> (string \<times> string) list" where
  "edges es = map (\<lambda>e. (ec_node1 e, ec_node2 e)) es"

definition node_names :: "network_config \<Rightarrow> string list" where
  "node_names c = map nc_name (processing_nodes c)"

lemma node_names_convert: "node_names (convert_stack_network_config c) = map sc_name (snc_stacks c)"
  by (simp add: node_names_def convert_stack_network_config_def convert_stack_def Let_def comp_def)

lemma edges_default:
  assumes "snc_clinks c = None \<or> snc_clinks c = Some []"
  shows "edges (clinks (convert_stack_network_config c)) = combinations2 (map sc_name (snc_stacks c))"
  using assms
  by (auto simp: edges_def convert_stack_network_config_def Let_def combinations2_map default_clink_def
      convert_stack_def comp_def split_def)

lemma edges_qlinks: "edges (qlinks (convert_stack_network_config c)) = map (\<lambda>l. (lc_stack1 l, lc_stack2 l)) (snc_links c)"
  by (simp add: edges_def convert_stack_network_config_def Let_def convert_link_def comp_def)

text \<open>A list of edges connects every pair of distinct names exactly once, in one direction.\<close>

definition complete_graph :: "string list \<Rightarrow> (string \<times> string) list \<Rightarrow> bool" where
  "complete_graph names es \<longleftrightarrow> distinct es
     \<and> (\<forall>x y. (x, y) \<in> set es \<longrightarrow> x \<in> set names \<and> y \<in> set names \<and> x \<noteq> y \<and> (y, x) \<notin> set es)
     \<and> (\<forall>x \<in> set names. \<forall>y \<in> set names. x \<noteq> y \<longrightarrow> (x, y) \<in> set es \<or> (y, x) \<in> set es)"

lemma complete_graph_combinations2:
  assumes "distinct names"
  shows "complete_graph names (combinations2 names)"
  unfolding complete_graph_def
proof (intro conjI allI impI ballI)
  show "distinct (combinations2 names)" using assms by (rule distinct_combinations2)
next
  fix x y assume a: "(x, y) \<in> set (combinations2 names)"
  show "x \<in> set names" "y \<in> set names" using combinations2_mem [OF a] by simp_all
  show "x \<noteq> y" using combinations2_neq [OF assms a] .
  show "(y, x) \<notin> set (combinations2 names)" using combinations2_one_way [OF assms a] .
next
  fix x y assume "x \<in> set names" "y \<in> set names" "x \<noteq> y"
  then show "(x, y) \<in> set (combinations2 names) \<or> (y, x) \<in> set (combinations2 names)"
    by (rule combinations2_total)
qed

end
