(* ===== verification/StackNetwork.thy ===== *)
theory StackNetwork
  imports QnosNode Host StackConfig
begin

text \<open>
  Building and wiring a network (\<open>squidasm/run/stack/build.py\<close>, \<open>_setup_network\<close> and \<open>run\<close>
  of \<open>run.py\<close>, \<open>NodeStack\<close> and \<open>StackNode\<close> of \<open>squidasm/sim/stack/stack.py\<close>) and the
  service that carries messages between the QNodeOS instances
  (\<open>qnos_network_service.py\<close>).  The network builder package is a parameter: the device
  builders, the node ids and the EGPs it creates.
\<close>

section \<open>Nodes\<close>

record stack_node =
  sn_name :: string
  sn_id :: int
  sn_typ :: string
  sn_positions :: int

text \<open>
  \<open>StackNodeBuilder.build\<close>: \<open>builders\<close> maps a device type to its builder, which gives the
  number of positions of the device; \<open>node_id\<close> is the id NetSquid gives the node.
\<close>

definition build_node ::
    "(string, qdevice_cfg \<Rightarrow> int result) dict \<Rightarrow> (string \<Rightarrow> int) \<Rightarrow> node_config
       \<Rightarrow> (string, stack_node) dict \<Rightarrow> (string, stack_node) dict result" where
  "build_node builders node_id cfg nodes =
     (case map_of builders (nc_qdevice_typ cfg) of
        None \<Rightarrow> Inl RuntimeError
      | Some builder \<Rightarrow>
          bindE (builder (nc_qdevice_cfg cfg)) (\<lambda>positions.
            Inr (AList.update (nc_name cfg)
              \<lparr>sn_name = nc_name cfg, sn_id = node_id (nc_name cfg), sn_typ = nc_qdevice_typ cfg,
               sn_positions = positions\<rparr> nodes)))"

definition StackNodeBuilder_build ::
    "(string, qdevice_cfg \<Rightarrow> int result) dict \<Rightarrow> (string \<Rightarrow> int) \<Rightarrow> network_config
       \<Rightarrow> (string, stack_node) dict result" where
  "StackNodeBuilder_build builders node_id config =
     forE (build_node builders node_id) (processing_nodes config) []"

section \<open>Stacks and services\<close>

record ('rg, 'ar, 's, 'm, 'r) stack =
  stk_node :: stack_node
  stk_qnos :: "('rg, 'ar) node"
  stk_host :: "('s, 'm, 'r) host"

text \<open>\<open>node_id_name_mapping\<close>, and \<open>_port_to_name\<close> with a port named by its peer's id.\<close>

record service =
  svc_ids :: "(string, int) dict"
  svc_ports :: "(int, string) dict"

record ('rg, 'ar, 's, 'm, 'r) network =
  nw_stacks :: "(string, ('rg, 'ar, 's, 'm, 'r) stack) dict"
  nw_services :: "(string, service) dict"
  nw_csockets :: "((string \<times> string), int) dict"
  nw_context :: context_data

text \<open>\<open>NodeStack(name, node, qdevice_type)\<close> with default components.\<close>

definition NodeStack :: "stack_node \<Rightarrow> string \<Rightarrow> ('rg, 'ar, 's, 'm, 'r) stack result" where
  "NodeStack node qdevice_type =
     bindE (Host_compiler qdevice_type) (\<lambda>compiler.
     bindE (Qnos qdevice_type (sn_positions node)) (\<lambda>q.
       Inr \<lparr>stk_node = node, stk_qnos = q, stk_host = new_host\<rparr>))"

text \<open>\<open>self.stacks[name]\<close>, changed by \<open>f\<close>.\<close>

definition on_stack ::
    "string \<Rightarrow> (('rg, 'ar, 's, 'm, 'r) stack \<Rightarrow> ('rg, 'ar, 's, 'm, 'r) stack result)
       \<Rightarrow> ('rg, 'ar, 's, 'm, 'r) network \<Rightarrow> ('rg, 'ar, 's, 'm, 'r) network result" where
  "on_stack name f net =
     bindE (dict_get (nw_stacks net) name) (\<lambda>s. bindE (f s) (\<lambda>s'.
       Inr (net\<lparr>nw_stacks := AList.update name s' (nw_stacks net)\<rparr>)))"

definition on_qnos ::
    "(('rg, 'ar) node \<Rightarrow> ('rg, 'ar) node result) \<Rightarrow> ('rg, 'ar, 's, 'm, 'r) stack
       \<Rightarrow> ('rg, 'ar, 's, 'm, 'r) stack result" where
  "on_qnos f s = bindE (f (stk_qnos s)) (\<lambda>q. Inr (s\<lparr>stk_qnos := q\<rparr>))"

definition on_host ::
    "(('s, 'm, 'r) host \<Rightarrow> ('s, 'm, 'r) host) \<Rightarrow> ('rg, 'ar, 's, 'm, 'r) stack
       \<Rightarrow> ('rg, 'ar, 's, 'm, 'r) stack result" where
  "on_host f s = Inr (s\<lparr>stk_host := f (stk_host s)\<rparr>)"

definition id_of_stack :: "('rg, 'ar, 's, 'm, 'r) network \<Rightarrow> string \<Rightarrow> int result" where
  "id_of_stack net name = bindE (dict_get (nw_stacks net) name) (\<lambda>s. Inr (sn_id (stk_node s)))"

section \<open>\<open>_setup_network\<close>, loop by loop\<close>

text \<open>The first loop: a stack per end node, registered with the directory.\<close>

definition create_stack ::
    "string \<times> stack_node \<Rightarrow> ('rg, 'ar, 's, 'm, 'r) network \<Rightarrow> ('rg, 'ar, 's, 'm, 'r) network result" where
  "create_stack nn net =
     bindE (NodeStack (snd nn) (sn_typ (snd nn))) (\<lambda>s.
       Inr (net\<lparr>nw_context := add_node (sn_id (snd nn)) (fst nn) (nw_context net),
                nw_stacks := AList.update (fst nn) s (nw_stacks net)\<rparr>))"

text \<open>The second loop: EGPs, keyed by a pair of names.\<close>

definition assign_network_egp ::
    "(string, int) dict \<Rightarrow> (string \<times> string) \<times> int \<Rightarrow> ('rg, 'ar, 's, 'm, 'r) network
       \<Rightarrow> ('rg, 'ar, 's, 'm, 'r) network result" where
  "assign_network_egp ids e net =
     bindE (dict_get (nw_stacks net) (fst (fst e))) (\<lambda>_.
     bindE (dict_get ids (snd (fst e))) (\<lambda>peer.
       on_stack (fst (fst e)) (on_qnos (\<lambda>q. Inr (assign_egp peer (snd e) q))) net))"

text \<open>The third loop: every pair of stacks registers each other.\<close>

definition register_pair ::
    "string \<times> string \<Rightarrow> ('rg, 'ar, 's, 'm, 'r) network \<Rightarrow> ('rg, 'ar, 's, 'm, 'r) network result" where
  "register_pair xy net =
     bindE (id_of_stack net (fst xy)) (\<lambda>i1.
     bindE (id_of_stack net (snd xy)) (\<lambda>i2.
     bindE (on_stack (fst xy) (on_qnos (register_peer i2)) net) (\<lambda>net1.
       on_stack (snd xy) (on_qnos (register_peer i1)) net1)))"

text \<open>The fourth loop: a service per node, knowing every other node.\<close>

definition register_remote_node ::
    "('rg, 'ar) node \<Rightarrow> string \<Rightarrow> int \<Rightarrow> service \<Rightarrow> service result" where
  "register_remote_node q name i sv =
     bindE (assertE (i \<in> set (peer_ports q)) KeyError) (\<lambda>_.
       Inr (sv\<lparr>svc_ids := AList.update name i (svc_ids sv),
               svc_ports := AList.update i name (svc_ports sv)\<rparr>))"

definition create_service ::
    "(string, stack_node) dict \<Rightarrow> string \<Rightarrow> ('rg, 'ar, 's, 'm, 'r) network
       \<Rightarrow> ('rg, 'ar, 's, 'm, 'r) network result" where
  "create_service end_nodes name net =
     bindE (dict_get (nw_stacks net) name) (\<lambda>s.
     bindE (forE (\<lambda>rn sv. if fst rn \<noteq> name then register_remote_node (stk_qnos s) (fst rn) (sn_id (snd rn)) sv
                         else Inr sv) end_nodes \<lparr>svc_ids = [], svc_ports = []\<rparr>) (\<lambda>sv.
       Inr (net\<lparr>nw_services := AList.update name sv (nw_services net)\<rparr>)))"

text \<open>The classical sockets: one per ordered pair, numbered in the order of creation.\<close>

definition create_sockets :: "string list \<Rightarrow> ((string \<times> string), int) dict" where
  "create_sockets names =
     map (\<lambda>(k, xy). (xy, int k))
       (List.enumerate 0 (concat (map (\<lambda>s1. map (Pair s1) (filter (\<lambda>s2. s2 \<noteq> s1) names)) names)))"

definition give_socket ::
    "(string \<times> string) \<times> int \<Rightarrow> ('rg, 'ar, 's, 'm, 'r) network \<Rightarrow> ('rg, 'ar, 's, 'm, 'r) network result" where
  "give_socket e net =
     on_stack (fst (fst e)) (on_host (register_netsquid_socket (snd (fst e)) (snd e))) net"

definition setup_network ::
    "(string, stack_node) dict \<Rightarrow> ((string \<times> string), int) dict \<Rightarrow> (string, int) dict
       \<Rightarrow> ('rg, 'ar, 's, 'm, 'r) network result" where
  "setup_network end_nodes network_egp name_ids =
     bindE (forE create_stack end_nodes
        \<lparr>nw_stacks = [], nw_services = [], nw_csockets = [],
         nw_context = ctx_reset \<lparr>ctx_protocols = [], ctx_nodes = []\<rparr>\<rparr>) (\<lambda>net1.
     bindE (forE (assign_network_egp name_ids) network_egp net1) (\<lambda>net2.
     bindE (forE register_pair (combinations2 (dict_keys (nw_stacks net2))) net2) (\<lambda>net3.
     bindE (forE (\<lambda>nn. create_service end_nodes (fst nn)) end_nodes net3) (\<lambda>net4.
       let net5 = net4\<lparr>nw_csockets := create_sockets (dict_keys (nw_stacks net4))\<rparr> in
       forE give_socket (nw_csockets net5) net5))))"

section \<open>\<open>run\<close>\<close>

text \<open>Setting the directory again from the stacks, and enqueueing the programs.\<close>

definition enqueue_on ::
    "int \<Rightarrow> string \<times> program_meta \<Rightarrow> ('rg, 'ar, 's, 'm, 'r) network
       \<Rightarrow> ('rg, 'ar, 's, 'm, 'r) network result" where
  "enqueue_on num_times np net = on_stack (fst np) (on_host (enqueue_program (snd np) num_times)) net"

definition prepare_run ::
    "(string, program_meta) dict \<Rightarrow> int \<Rightarrow> ('rg, 'ar, 's, 'm, 'r) network
       \<Rightarrow> ('rg, 'ar, 's, 'm, 'r) network result" where
  "prepare_run programs num_times net =
     forE (enqueue_on num_times) programs
       (net\<lparr>nw_context := fold (\<lambda>(name, s). add_node (sn_id (stk_node s)) name) (nw_stacks net)
              (set_nodes [] (nw_context net))\<rparr>)"

text \<open>The results of all hosts, in the order of the stacks.\<close>

definition network_results :: "('rg, 'ar, 's, 'm, 'r) network \<Rightarrow> 'r list list" where
  "network_results net = map (\<lambda>(name, s). get_results (stk_host s)) (nw_stacks net)"

section \<open>Carrying messages\<close>

text \<open>\<open>receive_qnos_message\<close> at the remote node: the origin must be registered.\<close>

definition receive_qnos_message ::
    "service \<Rightarrow> string \<Rightarrow> peer_msg \<Rightarrow> ('rg, 'ar) node \<Rightarrow> ('rg, 'ar) node result" where
  "receive_qnos_message sv origin msg q =
     bindE (assertE (origin \<in> set (dict_keys (svc_ids sv))) RuntimeError) (\<lambda>_.
     bindE (dict_get (svc_ids sv) origin) (\<lambda>i.
       case deliver_peer_msg i msg q of None \<Rightarrow> Inl KeyError | Some q' \<Rightarrow> Inr q'))"

text \<open>
  The service of \<open>a\<close> takes the oldest message its network stack sent and sends it to the
  node the port belongs to; the routing between nodes delivers it.
\<close>

definition carry_message ::
    "string \<Rightarrow> ('rg, 'ar, 's, 'm, 'r) network \<Rightarrow> ('rg, 'ar, 's, 'm, 'r) network result" where
  "carry_message a net =
     bindE (dict_get (nw_stacks net) a) (\<lambda>s.
       case peer_out (stk_qnos s) of [] \<Rightarrow> Inr net
       | (peer_id, msg) # rest \<Rightarrow>
           bindE (dict_get (nw_services net) a) (\<lambda>sv.
           bindE (dict_get (svc_ports sv) peer_id) (\<lambda>remote.
           bindE (on_stack a (on_qnos (\<lambda>q. Inr (q\<lparr>peer_out := rest\<rparr>))) net) (\<lambda>net1.
           bindE (dict_get (nw_services net1) remote) (\<lambda>rsv.
             on_stack remote (on_qnos (receive_qnos_message rsv a msg)) net1)))))"

end
