(* ===== verification/NetworkWiring.thy ===== *)
theory NetworkWiring
  imports StackNetwork
begin

text \<open>
  What \<open>_setup_network\<close> produces for end nodes with distinct names and ids of known types:
  every pair of nodes is wired in both directions, and the services carry every message to
  the buffer of its sender at its destination.
\<close>

section \<open>Well-formed input\<close>

definition known_typ :: "string \<Rightarrow> bool" where
  "known_typ typ \<longleftrightarrow> typ = ''generic'' \<or> typ = ''nv''"

definition end_nodes_ok :: "(string, stack_node) dict \<Rightarrow> bool" where
  "end_nodes_ok d \<longleftrightarrow> dict_ok d \<and> distinct (map (\<lambda>(name, node). sn_id node) d)
     \<and> (\<forall>(name, node) \<in> set d. known_typ (sn_typ node))"

text \<open>EGPs between end nodes, whose ids the name mapping knows.\<close>

definition egps_ok :: "(string, stack_node) dict \<Rightarrow> (string, int) dict \<Rightarrow> ((string \<times> string), int) dict \<Rightarrow> bool" where
  "egps_ok d ids eg \<longleftrightarrow> (\<forall>((a, b), e) \<in> set eg. a \<in> set (dict_keys d) \<and> b \<in> set (dict_keys ids))"

lemma end_nodes_ids:
  assumes "end_nodes_ok d" and "map_of d a = Some x" and "map_of d b = Some y" and "sn_id x = sn_id y"
  shows "a = b"
proof -
  have "inj_on (\<lambda>(name, node). sn_id node) (set d)" using assms(1) by (simp add: end_nodes_ok_def distinct_map)
  moreover have "(a, x) \<in> set d" "(b, y) \<in> set d" using assms(2,3) by (simp_all add: map_of_SomeD)
  ultimately show ?thesis using assms(4) by (auto simp: inj_on_def)
qed

section \<open>A predicate on every stack\<close>

definition stacks_sat ::
    "(string, stack_node) dict \<Rightarrow> (string \<Rightarrow> ('rg, 'ar, 's, 'm, 'r) stack \<Rightarrow> bool)
       \<Rightarrow> ('rg, 'ar, 's, 'm, 'r) network \<Rightarrow> bool" where
  "stacks_sat d R net \<longleftrightarrow> dict_keys (nw_stacks net) = dict_keys d
     \<and> (\<forall>a node. map_of d a = Some node \<longrightarrow>
          (\<exists>s. map_of (nw_stacks net) a = Some s \<and> stk_node s = node \<and> R a s))"

lemma stacks_satE:
  assumes "stacks_sat d R net" and "map_of d a = Some node"
  obtains s where "map_of (nw_stacks net) a = Some s" "stk_node s = node" "R a s"
  using assms by (auto simp: stacks_sat_def)

lemma key_lookup: "a \<in> set (dict_keys d) \<Longrightarrow> \<exists>x. map_of d a = Some x"
  by (metis domD dom_map_of_conv_image_fst list.set_map)

lemma lookup_key: "map_of d a = Some x \<Longrightarrow> a \<in> set (dict_keys d)"
  by (metis domI dom_map_of_conv_image_fst list.set_map)

lemma stacks_sat_mono:
  assumes "stacks_sat d R net" and "\<And>a s. a \<in> set (dict_keys d) \<Longrightarrow> R a s \<Longrightarrow> R' a s"
  shows "stacks_sat d R' net"
  unfolding stacks_sat_def
proof (intro conjI allI impI)
  show "dict_keys (nw_stacks net) = dict_keys d" using assms(1) by (simp add: stacks_sat_def)
  fix a node assume a: "map_of d a = Some node"
  from stacks_satE [OF assms(1) a] obtain s where "map_of (nw_stacks net) a = Some s" "stk_node s = node" "R a s" .
  with assms(2) [OF lookup_key [OF a]] show "\<exists>s. map_of (nw_stacks net) a = Some s \<and> stk_node s = node \<and> R' a s"
    by blast
qed

text \<open>Changing one stack.\<close>

lemma on_stack_sat:
  assumes "stacks_sat d R net" and "map_of d a = Some node"
    and "\<And>s. R a s \<Longrightarrow> stk_node s = node \<Longrightarrow> \<exists>s'. f s = Inr s' \<and> stk_node s' = node \<and> R' a s'"
    and "\<And>b s. b \<noteq> a \<Longrightarrow> R b s \<Longrightarrow> R' b s"
  shows "\<exists>net'. on_stack a f net = Inr net' \<and> stacks_sat d R' net'
     \<and> nw_services net' = nw_services net \<and> nw_context net' = nw_context net \<and> nw_csockets net' = nw_csockets net"
proof -
  obtain s where s: "map_of (nw_stacks net) a = Some s" "stk_node s = node" "R a s"
    using stacks_satE [OF assms(1,2)] by blast
  obtain s' where s': "f s = Inr s'" "stk_node s' = node" "R' a s'" using assms(3) s by blast
  let ?net = "net\<lparr>nw_stacks := AList.update a s' (nw_stacks net)\<rparr>"
  have "on_stack a f net = Inr ?net" using s s' by (simp add: on_stack_def dict_get_def)
  moreover have "dict_keys (nw_stacks ?net) = dict_keys d"
    using dict_keys_update_in [OF lookup_key [OF s(1)], of s'] assms(1) by (simp add: stacks_sat_def)
  then have "stacks_sat d R' ?net"
    using assms(1,2,4) s' by (fastforce simp: stacks_sat_def)
  ultimately show ?thesis by auto
qed

section \<open>The loops\<close>

definition fresh_stack :: "string \<Rightarrow> ('rg, 'ar, 's, 'm, 'r) stack \<Rightarrow> bool" where
  "fresh_stack a s \<longleftrightarrow> peer_ports (stk_qnos s) = [] \<and> peer_listeners (stk_qnos s) = []
     \<and> peer_out (stk_qnos s) = [] \<and> netsquid_sockets (stk_host s) = []"

lemma NodeStack_known:
  assumes "known_typ (sn_typ node)"
  shows "\<exists>s. NodeStack node (sn_typ node) = Inr s \<and> stk_node s = node \<and> fresh_stack a s"
  using assms
  by (auto simp: known_typ_def NodeStack_def Host_compiler_def Qnos_def fresh_stack_def new_node_def new_host_def)

lemma create_stacks:
  fixes net :: "('rg, 'ar, 's, 'm, 'r) network"
  assumes "dict_ok (seen @ todo)" and "distinct (map (\<lambda>(name, node). sn_id node) (seen @ todo))"
    and "\<forall>(name, node) \<in> set todo. known_typ (sn_typ node)"
    and "stacks_sat seen fresh_stack net"
    and "ctx_nodes (nw_context net) = map (\<lambda>(name, node). (sn_id node, name)) seen" and "nw_services net = []"
  shows "\<exists>net'. forE create_stack todo net = Inr net' \<and> stacks_sat (seen @ todo) fresh_stack net'
     \<and> ctx_nodes (nw_context net') = map (\<lambda>(name, node). (sn_id node, name)) (seen @ todo) \<and> nw_services net' = []"
  using assms
proof (induction todo arbitrary: seen net)
  case Nil
  then show ?case by simp
next
  case (Cons nn todo)
  obtain name node where nn: "nn = (name, node)" by (cases nn)
  obtain s :: "('rg, 'ar, 's, 'm, 'r) stack"
    where s: "NodeStack node (sn_typ node) = Inr s" "stk_node s = node" "fresh_stack name s"
    using NodeStack_known [of node name] Cons.prems(3) nn by auto
  let ?net = "net\<lparr>nw_context := add_node (sn_id node) name (nw_context net),
                nw_stacks := AList.update name s (nw_stacks net)\<rparr>"
  have new: "name \<notin> set (dict_keys (nw_stacks net))" "name \<notin> set (dict_keys seen)"
    using Cons.prems(1,4) nn by (auto simp: stacks_sat_def simp del: set_map)
  have "sn_id node \<notin> set (dict_keys (ctx_nodes (nw_context net)))"
    using Cons.prems(2,5) nn by (auto simp: comp_def split_def)
  then have c: "ctx_nodes (nw_context ?net) = map (\<lambda>(name, node). (sn_id node, name)) (seen @ [nn])"
    using Cons.prems(5) nn by (simp add: add_node_def dict_keys_update_new)
  have m: "map_of (seen @ [nn]) a = (if a = name then Some node else map_of seen a)" for a
    using new(2) nn by (cases "map_of seen a") (auto simp: map_add_def dest: lookup_key simp del: set_map)
  have "stacks_sat (seen @ [nn]) fresh_stack ?net"
  proof -
    have k: "dict_keys (nw_stacks ?net) = dict_keys (seen @ [nn])"
      using Cons.prems(4) dict_keys_update_new [OF new(1)] by (simp add: stacks_sat_def nn)
    have l: "map_of (nw_stacks ?net) a = (if a = name then Some s else map_of (nw_stacks net) a)" for a
      by (simp add: update_conv)
    show ?thesis using Cons.prems(4) s k unfolding stacks_sat_def m l by simp
  qed
  then obtain net' where "forE create_stack todo ?net = Inr net'" "stacks_sat ((seen @ [nn]) @ todo) fresh_stack net'"
     "ctx_nodes (nw_context net') = map (\<lambda>(name, node). (sn_id node, name)) ((seen @ [nn]) @ todo)"
     "nw_services net' = []"
    using Cons.IH [of "seen @ [nn]" ?net] Cons.prems c by auto
  moreover have "create_stack nn net = Inr ?net" using s(1) by (simp add: create_stack_def nn)
  ultimately show ?case by auto
qed

lemma assign_egps:
  assumes "stacks_sat d fresh_stack net" and "egps_ok d ids eg"
  shows "\<exists>net'. forE (assign_network_egp ids) eg net = Inr net' \<and> stacks_sat d fresh_stack net'
     \<and> nw_services net' = nw_services net \<and> nw_context net' = nw_context net"
  using assms
proof (induction eg arbitrary: net)
  case Nil
  then show ?case by simp
next
  case (Cons e eg)
  obtain a b x where e: "e = ((a, b), x)" by (metis surj_pair)
  have k: "a \<in> set (dict_keys d)" "b \<in> set (dict_keys ids)" using Cons.prems(2) by (auto simp: egps_ok_def e)
  obtain node i where n: "map_of d a = Some node" "map_of ids b = Some i" using key_lookup k by meson
  obtain s where s: "map_of (nw_stacks net) a = Some s" using stacks_satE [OF Cons.prems(1) n(1)] by blast
  have "\<exists>net'. on_stack a (on_qnos (\<lambda>q. Inr (assign_egp i x q))) net = Inr net' \<and> stacks_sat d fresh_stack net'
     \<and> nw_services net' = nw_services net \<and> nw_context net' = nw_context net \<and> nw_csockets net' = nw_csockets net"
    by (rule on_stack_sat [OF Cons.prems(1) n(1)]) (auto simp: on_qnos_def assign_egp_def fresh_stack_def)
  then obtain net1 where net1: "assign_network_egp ids e net = Inr net1" "stacks_sat d fresh_stack net1"
      "nw_services net1 = nw_services net" "nw_context net1 = nw_context net"
    using s n by (auto simp: assign_network_egp_def e dict_get_def)
  moreover have "egps_ok d ids eg" using Cons.prems(2) by (simp add: egps_ok_def)
  ultimately show ?case using Cons.IH [of net1] by auto
qed

text \<open>The ids of the nodes a stack is paired with so far (\<open>D\<close>), and the sockets it has (\<open>S\<close>).\<close>

definition peer_ids :: "(string, stack_node) dict \<Rightarrow> (string \<times> string) set \<Rightarrow> string \<Rightarrow> int set" where
  "peer_ids d D a = {sn_id node | b node. ((a, b) \<in> D \<or> (b, a) \<in> D) \<and> map_of d b = Some node}"

definition paired :: "(string, stack_node) dict \<Rightarrow> (string \<times> string) set \<Rightarrow> (string \<times> string) set \<Rightarrow> string \<Rightarrow> ('rg, 'ar, 's, 'm, 'r) stack \<Rightarrow> bool" where
  "paired d S D a s \<longleftrightarrow> set (peer_ports (stk_qnos s)) = peer_ids d D a
     \<and> set (dict_keys (peer_listeners (stk_qnos s))) = peer_ids d D a
     \<and> (\<forall>i buf. map_of (peer_listeners (stk_qnos s)) i = Some buf \<longrightarrow> buf = [])
     \<and> peer_out (stk_qnos s) = [] \<and> set (dict_keys (netsquid_sockets (stk_host s))) = {b. (a, b) \<in> S}"

lemma peer_ids_insert:
  assumes "map_of d x = Some nx" and "map_of d y = Some ny" and "x \<noteq> y"
  shows "peer_ids d (insert (x, y) D) a
       = (if a = x then insert (sn_id ny) (peer_ids d D a)
          else if a = y then insert (sn_id nx) (peer_ids d D a) else peer_ids d D a)"
proof -
  consider "a = x" | "a \<noteq> x" "a = y" | "a \<noteq> x" "a \<noteq> y" by blast
  then show ?thesis
  proof cases
    case 1
    then have "peer_ids d (insert (x, y) D) a = insert (sn_id ny) (peer_ids d D a)"
      using assms by (auto simp: peer_ids_def)
    then show ?thesis using 1 by simp
  next
    case 2
    then have "peer_ids d (insert (x, y) D) a = insert (sn_id nx) (peer_ids d D a)"
      using assms by (auto simp: peer_ids_def)
    then show ?thesis using 2 by simp
  next
    case 3
    then have "peer_ids d (insert (x, y) D) a = peer_ids d D a" by (auto simp: peer_ids_def)
    then show ?thesis using 3 by simp
  qed
qed

lemma dict_keys_update_set: "set (dict_keys (AList.update k v d)) = insert k (set (dict_keys d))"
  using dom_update [of k v d] by (simp add: dom_map_of_conv_image_fst)

lemma register_peer_adds:
  "\<exists>q'. register_peer i q = Inr q' \<and> peer_ports q' = peer_ports q @ [i]
     \<and> peer_listeners q' = AList.update i [] (peer_listeners q) \<and> peer_out q' = peer_out q"
  by (simp add: register_peer_def register_peer_listener_def register_peer_port_def)

lemma register_pairs:
  fixes net :: "('rg, 'ar, 's, 'm, 'r) network"
  assumes "stacks_sat d (paired d S D) net"
    and "\<forall>(x, y) \<in> set ps. x \<in> set (dict_keys d) \<and> y \<in> set (dict_keys d) \<and> x \<noteq> y"
  shows "\<exists>net'. forE register_pair ps net = Inr net' \<and> stacks_sat d (paired d S (D \<union> set ps)) net'
     \<and> nw_services net' = nw_services net \<and> nw_context net' = nw_context net"
  using assms
proof (induction ps arbitrary: net D)
  case Nil
  then show ?case by simp
next
  case (Cons p ps)
  obtain x y where p: "p = (x, y)" by (cases p)
  have xy: "x \<in> set (dict_keys d)" "y \<in> set (dict_keys d)" "x \<noteq> y" using Cons.prems(2) p by auto
  obtain nx ny where n: "map_of d x = Some nx" "map_of d y = Some ny" using key_lookup xy(1,2) by meson
  note ins = peer_ids_insert [OF n xy(3), of D]
  let ?half = "\<lambda>a s. if a = x then paired d S (insert (x, y) D) a s else paired d S D a s"
  have add: "\<exists>s'. on_qnos (register_peer i) s = Inr s' \<and> stk_node s' = stk_node s \<and> paired d S (insert (x, y) D) a s'"
    if "paired d S D a s" "peer_ids d (insert (x, y) D) a = insert i (peer_ids d D a)"
    for i a and s :: "('rg, 'ar, 's, 'm, 'r) stack"
  proof -
    obtain q' where q': "register_peer i (stk_qnos s) = Inr q'" "peer_ports q' = peer_ports (stk_qnos s) @ [i]"
       "peer_listeners q' = AList.update i [] (peer_listeners (stk_qnos s))" "peer_out q' = peer_out (stk_qnos s)"
      using register_peer_adds by blast
    moreover have "paired d S (insert (x, y) D) a (s\<lparr>stk_qnos := q'\<rparr>)"
      using that q'(2-4) by (auto simp: paired_def dict_keys_update_set update_conv simp del: set_map split: if_splits)
    ultimately show ?thesis by (simp add: on_qnos_def)
  qed
  obtain sx sy where sx: "map_of (nw_stacks net) x = Some sx" "stk_node sx = nx"
    and sy: "map_of (nw_stacks net) y = Some sy" "stk_node sy = ny"
    using stacks_satE [OF Cons.prems(1) n(1)] stacks_satE [OF Cons.prems(1) n(2)] by metis
  have "\<exists>net1. on_stack x (on_qnos (register_peer (sn_id ny))) net = Inr net1 \<and> stacks_sat d ?half net1
     \<and> nw_services net1 = nw_services net \<and> nw_context net1 = nw_context net \<and> nw_csockets net1 = nw_csockets net"
    using add [of x _ "sn_id ny"] ins [of x] by (intro on_stack_sat [OF Cons.prems(1) n(1)]) auto
  then obtain net1 where net1: "on_stack x (on_qnos (register_peer (sn_id ny))) net = Inr net1"
      "stacks_sat d ?half net1" "nw_services net1 = nw_services net" "nw_context net1 = nw_context net" by blast
  have other: "paired d S (insert (x, y) D) b s" if "b \<noteq> x" "b \<noteq> y" "paired d S D b s"
    for b and s :: "('rg, 'ar, 's, 'm, 'r) stack"
    using that ins [of b] by (simp add: paired_def)
  have "\<exists>net2. on_stack y (on_qnos (register_peer (sn_id nx))) net1 = Inr net2
     \<and> stacks_sat d (paired d S (insert (x, y) D)) net2
     \<and> nw_services net2 = nw_services net1 \<and> nw_context net2 = nw_context net1 \<and> nw_csockets net2 = nw_csockets net1"
    using add [of y _ "sn_id nx"] ins [of y] xy(3) other
    by (intro on_stack_sat [OF net1(2) n(2)]) (auto split: if_splits)
  then obtain net2 where net2: "register_pair p net = Inr net2" "stacks_sat d (paired d S (insert (x, y) D)) net2"
      "nw_services net2 = nw_services net" "nw_context net2 = nw_context net"
    using net1 sx sy by (auto simp: register_pair_def p id_of_stack_def dict_get_def)
  then show ?case using Cons.IH [OF net2(2)] Cons.prems(2) by (auto simp: p)
qed


text \<open>The service of a node knows every other node by its name and by its port.\<close>

definition service_of :: "(string, stack_node) dict \<Rightarrow> string \<Rightarrow> service" where
  "service_of d a = (let others = filter (\<lambda>(b, n). b \<noteq> a) d in
     \<lparr>svc_ids = map (\<lambda>(b, n). (b, sn_id n)) others, svc_ports = map (\<lambda>(b, n). (sn_id n, b)) others\<rparr>)"

lemma service_loop:
  assumes "dict_ok (seen @ todo)" and "distinct (map (\<lambda>(name, node). sn_id node) (seen @ todo))"
    and "\<And>b n. (b, n) \<in> set todo \<Longrightarrow> b \<noteq> a \<Longrightarrow> sn_id n \<in> set (peer_ports q)"
  shows "forE (\<lambda>rn sv. if fst rn \<noteq> a then register_remote_node q (fst rn) (sn_id (snd rn)) sv else Inr sv)
           todo (service_of seen a) = Inr (service_of (seen @ todo) a)"
  using assms
proof (induction todo arbitrary: seen)
  case Nil
  then show ?case by simp
next
  case (Cons nn todo)
  obtain b n where nn: "nn = (b, n)" by (cases nn)
  have new: "b \<notin> set (dict_keys (svc_ids (service_of seen a)))" "sn_id n \<notin> set (dict_keys (svc_ports (service_of seen a)))"
    using Cons.prems(1,2) by (auto simp: service_of_def nn Let_def split_def image_iff)
  have "(if b \<noteq> a then register_remote_node q b (sn_id n) (service_of seen a) else Inr (service_of seen a))
      = Inr (service_of (seen @ [nn]) a)"
    using Cons.prems(3) [of b n] dict_keys_update_new [OF new(1)] dict_keys_update_new [OF new(2)]
    by (auto simp: register_remote_node_def result_simps service_of_def nn Let_def)
  moreover have "forE (\<lambda>rn sv. if fst rn \<noteq> a then register_remote_node q (fst rn) (sn_id (snd rn)) sv else Inr sv)
           todo (service_of (seen @ [nn]) a) = Inr (service_of ((seen @ [nn]) @ todo) a)"
    using Cons.prems by (intro Cons.IH) auto
  ultimately show ?case by (cases "b = a") (simp_all add: nn)
qed

lemma create_services:
  fixes net :: "('rg, 'ar, 's, 'm, 'r) network"
  assumes "dict_ok (seen @ todo)" and "dict_ok d" and "distinct (map (\<lambda>(name, node). sn_id node) d)"
    and "set todo \<subseteq> set d"
    and "stacks_sat d (\<lambda>a s. \<forall>(b, n) \<in> set d. b \<noteq> a \<longrightarrow> sn_id n \<in> set (peer_ports (stk_qnos s))) net"
    and "nw_services net = map (\<lambda>(a, n). (a, service_of d a)) seen"
  shows "\<exists>net'. forE (\<lambda>nn. create_service d (fst nn)) todo net = Inr net'
     \<and> nw_services net' = map (\<lambda>(a, n). (a, service_of d a)) (seen @ todo)
     \<and> nw_stacks net' = nw_stacks net \<and> nw_context net' = nw_context net"
  using assms
proof (induction todo arbitrary: seen net)
  case Nil
  then show ?case by simp
next
  case (Cons nn todo)
  obtain a n where nn: "nn = (a, n)" by (cases nn)
  have "map_of d a = Some n" using Cons.prems(2,4) by (simp add: nn)
  then obtain s where s: "map_of (nw_stacks net) a = Some s"
      "\<forall>(b, n) \<in> set d. b \<noteq> a \<longrightarrow> sn_id n \<in> set (peer_ports (stk_qnos s))"
    using stacks_satE [OF Cons.prems(5)] by metis
  have e: "service_of [] a = \<lparr>svc_ids = [], svc_ports = []\<rparr>" by (simp add: service_of_def)
  have "forE (\<lambda>rn sv. if fst rn \<noteq> a then register_remote_node (stk_qnos s) (fst rn) (sn_id (snd rn)) sv else Inr sv)
           d (service_of [] a) = Inr (service_of ([] @ d) a)"
    using Cons.prems(2,3) s(2) by (intro service_loop) auto
  moreover have "a \<notin> set (dict_keys (nw_services net))"
    using Cons.prems(1,6) by (force simp: nn)
  ultimately have c: "create_service d (fst nn) net
      = Inr (net\<lparr>nw_services := map (\<lambda>(a, n). (a, service_of d a)) (seen @ [nn])\<rparr>)"
    using s(1) Cons.prems(6) by (simp add: create_service_def nn dict_get_def e dict_keys_update_new)
  let ?net = "net\<lparr>nw_services := map (\<lambda>(a, n). (a, service_of d a)) (seen @ [nn])\<rparr>"
  have "\<exists>net'. forE (\<lambda>nn. create_service d (fst nn)) todo ?net = Inr net'
     \<and> nw_services net' = map (\<lambda>(a, n). (a, service_of d a)) ((seen @ [nn]) @ todo)
     \<and> nw_stacks net' = nw_stacks ?net \<and> nw_context net' = nw_context ?net"
    using Cons.prems(1,2,3,4,5) by (intro Cons.IH) (auto simp: stacks_sat_def)
  then show ?case using c by simp
qed

lemma give_sockets:
  fixes net :: "('rg, 'ar, 's, 'm, 'r) network"
  assumes "stacks_sat d (paired d S D) net" and "\<forall>((a, b), k) \<in> set cs. a \<in> set (dict_keys d)"
  shows "\<exists>net'. forE give_socket cs net = Inr net' \<and> stacks_sat d (paired d (S \<union> fst ` set cs) D) net'
     \<and> nw_services net' = nw_services net \<and> nw_context net' = nw_context net"
  using assms
proof (induction cs arbitrary: net S)
  case Nil
  then show ?case by simp
next
  case (Cons c cs)
  obtain a b k where c: "c = ((a, b), k)" by (metis surj_pair)
  obtain node where n: "map_of d a = Some node" using Cons.prems(2) key_lookup [of a d] by (auto simp: c)
  have "\<exists>net1. give_socket c net = Inr net1 \<and> stacks_sat d (paired d (insert (a, b) S) D) net1
     \<and> nw_services net1 = nw_services net \<and> nw_context net1 = nw_context net \<and> nw_csockets net1 = nw_csockets net"
    unfolding give_socket_def c fst_conv snd_conv
    by (rule on_stack_sat [OF Cons.prems(1) n])
      (auto simp: on_host_def register_netsquid_socket_def paired_def dict_keys_update_set simp del: set_map)
  then obtain net1 where net1: "give_socket c net = Inr net1" "stacks_sat d (paired d (insert (a, b) S) D) net1"
     "nw_services net1 = nw_services net" "nw_context net1 = nw_context net" by blast
  then show ?case using Cons.IH [OF net1(2)] Cons.prems(2) by (auto simp: c)
qed


section \<open>The network that results\<close>

definition wired :: "(string, stack_node) dict \<Rightarrow> ('rg, 'ar, 's, 'm, 'r) network \<Rightarrow> bool" where
  "wired d net \<longleftrightarrow> nw_services net = map (\<lambda>(a, n). (a, service_of d a)) d
     \<and> stacks_sat d (\<lambda>a s. set (peer_ports (stk_qnos s)) = {sn_id n | b n. b \<noteq> a \<and> map_of d b = Some n}
          \<and> set (dict_keys (peer_listeners (stk_qnos s))) = {sn_id n | b n. b \<noteq> a \<and> map_of d b = Some n}) net"

text \<open>Nothing has been sent, and every node has a socket to every other node.\<close>

definition unused :: "(string, stack_node) dict \<Rightarrow> ('rg, 'ar, 's, 'm, 'r) network \<Rightarrow> bool" where
  "unused d net \<longleftrightarrow> stacks_sat d (\<lambda>a s. peer_out (stk_qnos s) = []
       \<and> (\<forall>i buf. map_of (peer_listeners (stk_qnos s)) i = Some buf \<longrightarrow> buf = [])
       \<and> set (dict_keys (netsquid_sockets (stk_host s))) = {b. b \<noteq> a \<and> b \<in> set (dict_keys d)}) net"

definition all_known :: "(string, stack_node) dict \<Rightarrow> ('rg, 'ar, 's, 'm, 'r) network \<Rightarrow> bool" where
  "all_known d net \<longleftrightarrow> directory_ok (nw_context net)
     \<and> (\<forall>a n. map_of d a = Some n \<longrightarrow> get_node_id (nw_context net) a = Inr (sn_id n))"

lemma create_sockets_keys:
  "fst ` set (create_sockets names) = {(a, b). a \<in> set names \<and> b \<in> set names \<and> a \<noteq> b}"
proof -
  have "map fst (create_sockets names)
      = map snd (List.enumerate 0 (concat (map (\<lambda>s1. map (Pair s1) (filter (\<lambda>s2. s2 \<noteq> s1) names)) names)))"
    unfolding create_sockets_def map_map comp_def by (intro map_cong) auto
  then have "fst ` set (create_sockets names)
      = set (concat (map (\<lambda>s1. map (Pair s1) (filter (\<lambda>s2. s2 \<noteq> s1) names)) names))"
    by (metis list.set_map map_snd_enumerate)
  then show ?thesis by auto
qed

lemma all_pairs_peer_ids:
  assumes "dict_ok d"
  shows "peer_ids d (set (combinations2 (dict_keys d))) a = {sn_id n | b n. a \<in> set (dict_keys d) \<and> b \<noteq> a \<and> map_of d b = Some n}"
proof -
  have "(a, b) \<in> set (combinations2 (dict_keys d)) \<or> (b, a) \<in> set (combinations2 (dict_keys d))
      \<longleftrightarrow> a \<in> set (dict_keys d) \<and> b \<noteq> a" if "map_of d b = Some n" for b n
    using combinations2_mem combinations2_neq [of "dict_keys d"] combinations2_total [OF _ lookup_key [OF that]]
      lookup_key [OF that] assms by (metis (no_types, lifting))
  then have "(((a, b) \<in> set (combinations2 (dict_keys d)) \<or> (b, a) \<in> set (combinations2 (dict_keys d))) \<and> map_of d b = Some n)
      \<longleftrightarrow> (a \<in> set (dict_keys d) \<and> b \<noteq> a \<and> map_of d b = Some n)" for b n by metis
  then show ?thesis unfolding peer_ids_def by presburger
qed

lemma setup_network_returns:
  assumes ok: "end_nodes_ok d" and eg: "egps_ok d ids eg"
  shows "\<exists>net :: ('rg, 'ar, 's, 'm, 'r) network. setup_network d eg ids = Inr net \<and> wired d net \<and> unused d net \<and> all_known d net"
proof -
  let ?net0 = "\<lparr>nw_stacks = [], nw_services = [], nw_csockets = [],
         nw_context = ctx_reset \<lparr>ctx_protocols = [], ctx_nodes = []\<rparr>\<rparr> :: ('rg, 'ar, 's, 'm, 'r) network"
  have dd: "dict_ok d" "distinct (map (\<lambda>(name, node). sn_id node) d)" "\<forall>(name, node) \<in> set d. known_typ (sn_typ node)"
    using ok by (simp_all add: end_nodes_ok_def)
  have "\<exists>net1. forE create_stack d ?net0 = Inr net1 \<and> stacks_sat ([] @ d) fresh_stack net1
     \<and> ctx_nodes (nw_context net1) = map (\<lambda>(name, node). (sn_id node, name)) ([] @ d) \<and> nw_services net1 = []"
    using dd by (intro create_stacks) (auto simp: stacks_sat_def ctx_reset_def)
  then obtain net1 where n1: "forE create_stack d ?net0 = Inr net1" "stacks_sat d fresh_stack net1"
     "ctx_nodes (nw_context net1) = map (\<lambda>(name, node). (sn_id node, name)) d" "nw_services net1 = []" by auto
  obtain net2 where n2: "forE (assign_network_egp ids) eg net1 = Inr net2" "stacks_sat d fresh_stack net2"
     "nw_services net2 = []" "nw_context net2 = nw_context net1"
    using assign_egps [OF n1(2) eg] n1(4) by auto
  have p: "stacks_sat d (paired d {} {}) net2"
    by (rule stacks_sat_mono [OF n2(2)]) (simp add: fresh_stack_def paired_def peer_ids_def)
  have keys: "dict_keys (nw_stacks net2) = dict_keys d" using n2(2) by (simp add: stacks_sat_def)
  let ?all = "set (combinations2 (dict_keys d))"
  have "\<forall>(x, y) \<in> ?all. x \<in> set (dict_keys d) \<and> y \<in> set (dict_keys d) \<and> x \<noteq> y"
    using combinations2_mem combinations2_neq [OF dd(1)] by fast
  from register_pairs [OF p this] obtain net3 where n3:
      "forE register_pair (combinations2 (dict_keys (nw_stacks net2))) net2 = Inr net3"
      "stacks_sat d (paired d {} ?all) net3" "nw_services net3 = []" "nw_context net3 = nw_context net1"
    using n2 keys by auto
  have ids: "a \<in> set (dict_keys d) \<Longrightarrow> peer_ids d ?all a = {sn_id n | b n. b \<noteq> a \<and> map_of d b = Some n}" for a
    using all_pairs_peer_ids [OF dd(1)] by simp
  have "stacks_sat d (\<lambda>a s. \<forall>(b, n) \<in> set d. b \<noteq> a \<longrightarrow> sn_id n \<in> set (peer_ports (stk_qnos s))) net3"
    unfolding stacks_sat_def
  proof (intro conjI allI impI)
    show "dict_keys (nw_stacks net3) = dict_keys d" using n3(2) by (simp add: stacks_sat_def)
    fix a node assume a: "map_of d a = Some node"
    from stacks_satE [OF n3(2) a] obtain s where s: "map_of (nw_stacks net3) a = Some s" "stk_node s = node"
        "paired d {} ?all a s" by blast
    have "set (peer_ports (stk_qnos s)) = {sn_id n | b n. b \<noteq> a \<and> map_of d b = Some n}"
      using s(3) ids [OF lookup_key [OF a]] by (simp add: paired_def)
    then have "\<forall>(b, n) \<in> set d. b \<noteq> a \<longrightarrow> sn_id n \<in> set (peer_ports (stk_qnos s))" using dd(1) by auto
    with s show "\<exists>s. map_of (nw_stacks net3) a = Some s \<and> stk_node s = node \<and>
        (\<forall>(b, n) \<in> set d. b \<noteq> a \<longrightarrow> sn_id n \<in> set (peer_ports (stk_qnos s)))" by blast
  qed
  from create_services [OF _ dd(1,2) subset_refl this, of "[]"] obtain net4 where n4:
      "forE (\<lambda>nn. create_service d (fst nn)) d net3 = Inr net4"
      "nw_services net4 = map (\<lambda>(a, n). (a, service_of d a)) d" "nw_stacks net4 = nw_stacks net3"
      "nw_context net4 = nw_context net1"
    using n3 dd(1) by auto
  have k4: "dict_keys (nw_stacks net4) = dict_keys d" using n3(2) n4(3) by (simp add: stacks_sat_def)
  let ?net5 = "net4\<lparr>nw_csockets := create_sockets (dict_keys d)\<rparr>"
  have s5: "stacks_sat d (paired d {} ?all) ?net5" using n3(2) n4(3) by (simp add: stacks_sat_def)
  have socks: "fst ` set (create_sockets (dict_keys d)) = {(a, b). a \<in> set (dict_keys d) \<and> b \<in> set (dict_keys d) \<and> a \<noteq> b}"
    by (rule create_sockets_keys)
  have "\<forall>((a, b), k) \<in> set (create_sockets (dict_keys d)). a \<in> set (dict_keys d)"
  proof clarify
    fix a b k assume "((a, b), k) \<in> set (create_sockets (dict_keys d))"
    then have "(a, b) \<in> fst ` set (create_sockets (dict_keys d))" by (metis fst_conv image_eqI)
    then show "a \<in> set (dict_keys d)" unfolding socks by simp
  qed
  from give_sockets [OF s5 this] obtain net6 where n6:
      "forE give_socket (create_sockets (dict_keys d)) ?net5 = Inr net6"
      "stacks_sat d (paired d ({} \<union> fst ` set (create_sockets (dict_keys d))) ?all) net6"
      "nw_services net6 = map (\<lambda>(a, n). (a, service_of d a)) d" "nw_context net6 = nw_context net1"
    using n4 by auto
  have "setup_network d eg ids = Inr net6"
    using n1(1) n2(1) n3(1) n4(1) n6(1) k4 by (simp add: setup_network_def Let_def)
  moreover have "wired d net6" unfolding wired_def
  proof
    show "nw_services net6 = map (\<lambda>(a, n). (a, service_of d a)) d" by (rule n6(3))
  qed (rule stacks_sat_mono [OF n6(2)], simp add: paired_def ids del: set_map)
  moreover have "unused d net6" unfolding unused_def
    by (rule stacks_sat_mono [OF n6(2)]) (auto simp: paired_def socks simp del: set_map)
  moreover have "all_known d net6"
  proof -
    have "dict_ok (ctx_nodes (nw_context net6))" "map snd (ctx_nodes (nw_context net6)) = dict_keys d"
      using dd n1(3) n6(4) by (simp_all add: comp_def split_def)
    then have dir: "directory_ok (nw_context net6)" using dd(1) by (simp add: directory_ok_def)
    moreover have "get_node_id (nw_context net6) a = Inr (sn_id n)" if "map_of d a = Some n" for a n
      unfolding get_node_id_iff [OF dir] using n1(3) n6(4) map_of_SomeD [OF that] by force
    ultimately show ?thesis by (simp add: all_known_def)
  qed
  ultimately show ?thesis by blast
qed


section \<open>Messages arrive\<close>

lemma service_lookup:
  assumes "end_nodes_ok d" and "map_of d b = Some n" and "b \<noteq> a"
  shows "map_of (svc_ids (service_of d a)) b = Some (sn_id n)"
    and "map_of (svc_ports (service_of d a)) (sn_id n) = Some b"
proof -
  have dd: "dict_ok d" "distinct (map (\<lambda>(name, node). sn_id node) d)" using assms(1) by (simp_all add: end_nodes_ok_def)
  have mem: "(b, n) \<in> set (filter (\<lambda>(b, n). b \<noteq> a) d)" using assms(3) map_of_SomeD [OF assms(2)] by simp
  have "dict_ok (svc_ids (service_of d a))" "dict_ok (svc_ports (service_of d a))"
    using distinct_map_filter [OF dd(1), of "\<lambda>(b, n). b \<noteq> a"] distinct_map_filter [OF dd(2), of "\<lambda>(b, n). b \<noteq> a"]
    by (simp_all add: service_of_def Let_def comp_def split_def)
  moreover have "(b, sn_id n) \<in> set (svc_ids (service_of d a))" "(sn_id n, b) \<in> set (svc_ports (service_of d a))"
    using mem by (force simp: service_of_def Let_def)+
  ultimately show "map_of (svc_ids (service_of d a)) b = Some (sn_id n)"
    "map_of (svc_ports (service_of d a)) (sn_id n) = Some b" by simp_all
qed

lemma wired_service:
  assumes "wired d net" and "map_of d a = Some n"
  shows "map_of (nw_services net) a = Some (service_of d a)"
proof -
  have "map_of (map (\<lambda>(a, n). (a, service_of d a)) e) a = map_option (\<lambda>n. service_of d a) (map_of e a)"
    for e :: "(string, stack_node) dict" by (induction e) auto
  then have "map_of (nw_services net) a = map_option (\<lambda>n. service_of d a) (map_of d a)"
    using assms(1) by (simp add: wired_def)
  then show ?thesis using assms(2) by simp
qed

text \<open>The buffer at \<open>b\<close> of the messages from \<open>a\<close>.\<close>

definition inbox_from :: "('rg, 'ar, 's, 'm, 'r) network \<Rightarrow> string \<Rightarrow> int \<Rightarrow> peer_msg list" where
  "inbox_from net b i = (case map_of (nw_stacks net) b of None \<Rightarrow> []
     | Some s \<Rightarrow> (case map_of (peer_listeners (stk_qnos s)) i of None \<Rightarrow> [] | Some buf \<Rightarrow> buf))"

definition outbox_of :: "('rg, 'ar, 's, 'm, 'r) network \<Rightarrow> string \<Rightarrow> (int \<times> peer_msg) list" where
  "outbox_of net a = (case map_of (nw_stacks net) a of None \<Rightarrow> [] | Some s \<Rightarrow> peer_out (stk_qnos s))"

lemma wired_stack:
  assumes "wired d net" and "map_of d a = Some n"
  obtains s where "map_of (nw_stacks net) a = Some s" "stk_node s = n"
    "set (dict_keys (peer_listeners (stk_qnos s))) = {sn_id n | b n. b \<noteq> a \<and> map_of d b = Some n}"
proof -
  have "stacks_sat d (\<lambda>a s. set (peer_ports (stk_qnos s)) = {sn_id n | b n. b \<noteq> a \<and> map_of d b = Some n}
          \<and> set (dict_keys (peer_listeners (stk_qnos s))) = {sn_id n | b n. b \<noteq> a \<and> map_of d b = Some n}) net"
    using assms(1) by (simp add: wired_def)
  from stacks_satE [OF this assms(2)] show thesis using that by blast
qed

lemma carry_delivers:
  fixes net :: "('rg, 'ar, 's, 'm, 'r) network"
  assumes ok: "end_nodes_ok d" and w: "wired d net"
    and a: "map_of d a = Some na" and b: "map_of d b = Some nb" and ab: "a \<noteq> b"
    and out: "outbox_of net a = (sn_id nb, msg) # rest"
  shows "\<exists>net'. carry_message a net = Inr net' \<and> wired d net'
     \<and> outbox_of net' a = rest \<and> inbox_from net' b (sn_id na) = inbox_from net b (sn_id na) @ [msg]
     \<and> (\<forall>c. c \<noteq> a \<longrightarrow> outbox_of net' c = outbox_of net c)
     \<and> (\<forall>c i. (c, i) \<noteq> (b, sn_id na) \<longrightarrow> inbox_from net' c i = inbox_from net c i)"
proof -
  obtain sa where sa: "map_of (nw_stacks net) a = Some sa" by (rule wired_stack [OF w a])
  obtain sb where sb: "map_of (nw_stacks net) b = Some sb"
      "set (dict_keys (peer_listeners (stk_qnos sb))) = {sn_id n | c n. c \<noteq> b \<and> map_of d c = Some n}"
    by (rule wired_stack [OF w b])
  have "sn_id na \<in> set (dict_keys (peer_listeners (stk_qnos sb)))"
    unfolding sb(2) mem_Collect_eq using a ab by (intro exI [of _ a] exI [of _ na]) simp
  from key_lookup [OF this] obtain buf where buf: "map_of (peer_listeners (stk_qnos sb)) (sn_id na) = Some buf" ..
  have out: "peer_out (stk_qnos sa) = (sn_id nb, msg) # rest" using out sa by (simp add: outbox_of_def)
  let ?sa = "sa\<lparr>stk_qnos := (stk_qnos sa)\<lparr>peer_out := rest\<rparr>\<rparr>"
  let ?sb = "sb\<lparr>stk_qnos := (stk_qnos sb)\<lparr>peer_listeners :=
      AList.update (sn_id na) (buf @ [msg]) (peer_listeners (stk_qnos sb))\<rparr>\<rparr>"
  let ?net = "net\<lparr>nw_stacks := AList.update b ?sb (AList.update a ?sa (nw_stacks net))\<rparr>"
  have recv: "a \<in> set (dict_keys (svc_ids (service_of d b)))"
    using service_lookup(1) [OF ok a ab] by (rule lookup_key)
  have l1: "on_stack a (on_qnos (\<lambda>q. Inr (q\<lparr>peer_out := rest\<rparr>))) net = Inr (net\<lparr>nw_stacks := AList.update a ?sa (nw_stacks net)\<rparr>)"
    using sa by (simp add: on_stack_def on_qnos_def dict_get_def)
  have l2: "receive_qnos_message (service_of d b) a msg (stk_qnos sb) = Inr (stk_qnos ?sb)"
    using recv service_lookup(1) [OF ok a ab] buf
    by (simp add: receive_qnos_message_def assertE_def dict_get_def deliver_peer_msg_def)
  have "carry_message a net = Inr ?net"
    using sa sb(1) out ab wired_service [OF w a] wired_service [OF w b] service_lookup(2) [OF ok b] l1 l2
    by (simp add: carry_message_def dict_get_def on_stack_def on_qnos_def)
  moreover have "wired d ?net" unfolding wired_def
  proof
    show "nw_services ?net = map (\<lambda>(a, n). (a, service_of d a)) d" using w by (simp add: wired_def)
    let ?R = "\<lambda>a s. set (peer_ports (stk_qnos s)) = {sn_id n | b n. b \<noteq> a \<and> map_of d b = Some n}
          \<and> set (dict_keys (peer_listeners (stk_qnos s))) = {sn_id n | b n. b \<noteq> a \<and> map_of d b = Some n}"
    have R: "stacks_sat d ?R net" using w by (simp add: wired_def)
    have ka: "dict_keys (AList.update a ?sa (nw_stacks net)) = dict_keys (nw_stacks net)"
      by (rule dict_keys_update_in [OF lookup_key [OF sa]])
    have kb: "dict_keys (AList.update b ?sb (AList.update a ?sa (nw_stacks net))) = dict_keys (AList.update a ?sa (nw_stacks net))"
      using lookup_key [OF sb(1)] ka by (intro dict_keys_update_in) simp
    have kl: "dict_keys (peer_listeners (stk_qnos ?sb)) = dict_keys (peer_listeners (stk_qnos sb))"
      using dict_keys_update_in [OF lookup_key [OF buf], of "buf @ [msg]"] by simp
    show "stacks_sat d ?R ?net" unfolding stacks_sat_def
    proof (intro conjI allI impI)
      show "dict_keys (nw_stacks ?net) = dict_keys d" using R ka kb by (simp add: stacks_sat_def)
      fix c node assume c: "map_of d c = Some node"
      from stacks_satE [OF R c] obtain s where s: "map_of (nw_stacks net) c = Some s" "stk_node s = node" "?R c s" by blast
      show "\<exists>s. map_of (nw_stacks ?net) c = Some s \<and> stk_node s = node \<and> ?R c s"
        using s sa sb(1) kl ab by (cases "c = a"; cases "c = b") (auto simp del: set_map)
    qed
  qed
  moreover have "outbox_of ?net a = rest" using ab by (simp add: outbox_of_def)
  moreover have "inbox_from ?net b (sn_id na) = inbox_from net b (sn_id na) @ [msg]"
    using sb(1) buf by (simp add: inbox_from_def)
  moreover have "outbox_of ?net c = outbox_of net c" if "c \<noteq> a" for c
    using that sb(1) by (cases "c = b") (simp_all add: outbox_of_def)
  moreover have "inbox_from ?net c i = inbox_from net c i" if "(c, i) \<noteq> (b, sn_id na)" for c i
    using that sa sb(1) by (cases "c = b"; cases "c = a") (simp_all add: inbox_from_def)
  ultimately show ?thesis by blast
qed

end
