(* ===== verification/Listener.thy ===== *)
theory Listener
  imports Prelude
begin

text \<open>
  Port listeners (classes \<open>PortListener\<close> and \<open>ComponentProtocol\<close> of
  \<open>squidasm/sim/stack/common.py\<close>): the generator that moves the inputs of a port into a
  buffer and signals once for all inputs of an instant, and \<open>_receive_msg\<close>, which takes the
  oldest message.  The locale \<open>mailbox\<close> is the contract a protocol relies on, and is what
  lets \<open>NodeState\<close> treat port, listener and buffer as one list.
\<close>

section \<open>The contract of a mailbox\<close>

text \<open>
  \<open>put\<close> adds a message, \<open>take_msg\<close> removes the oldest one, or is \<open>None\<close> where the receiver
  has to wait; \<open>contents\<close> are the messages not taken yet.
\<close>

locale mailbox =
  fixes put :: "'m \<Rightarrow> 'b \<Rightarrow> 'b"
    and take_msg :: "'b \<Rightarrow> ('m \<times> 'b) option"
    and contents :: "'b \<Rightarrow> 'm list"
  assumes contents_put: "contents (put x b) = contents b @ [x]"
    and take_empty: "take_msg b = None \<longleftrightarrow> contents b = []"
    and take_some: "take_msg b = Some (x, b') \<Longrightarrow> contents b = x # contents b'"
begin

text \<open>A history of puts and takes.\<close>

inductive history :: "'b \<Rightarrow> 'm list \<Rightarrow> 'm list \<Rightarrow> 'b \<Rightarrow> bool" where
  h_start: "history b [] [] b"
| h_put: "history b sent got b' \<Longrightarrow> history b (sent @ [x]) got (put x b')"
| h_take: "history b sent got b' \<Longrightarrow> take_msg b' = Some (x, b'') \<Longrightarrow> history b sent (got @ [x]) b''"

text \<open>Messages are received in the order sent, none lost and none twice.\<close>

lemma fifo:
  assumes "history b sent got b'"
  shows "contents b @ sent = got @ contents b'"
  using assms
proof (induction rule: history.induct)
  case (h_put b sent got b' x)
  then show ?case by (simp add: contents_put)
next
  case (h_take b sent got b' x b'')
  then show ?case using take_some by fastforce
qed simp

lemma received_prefix:
  assumes "history b sent got b'" and "contents b = []"
  shows "\<exists>rest. sent = got @ rest"
  using fifo [OF assms(1)] assms(2) by auto

end

text \<open>A plain list, messages at the end, oldest at the head.\<close>

definition list_put :: "'m \<Rightarrow> 'm list \<Rightarrow> 'm list" where
  "list_put x b = b @ [x]"

text \<open>
  \<open>_receive_msg\<close> on the buffer: with an empty buffer it waits (\<open>None\<close>), else \<open>pop(0)\<close>.
\<close>

fun receive_msg :: "'m list \<Rightarrow> ('m \<times> 'm list) option" where
  "receive_msg [] = None"
| "receive_msg (x # b) = Some (x, b)"

interpretation buffer_box: mailbox list_put receive_msg "\<lambda>b. b"
proof
  fix b :: "'m list" and x b'
  show "receive_msg b = None \<longleftrightarrow> b = []" by (cases b) simp_all
  show "receive_msg b = Some (x, b') \<Longrightarrow> b = x # b'" by (cases b) simp_all
qed (simp add: list_put_def)

section \<open>The listener's generator\<close>

text \<open>
  An input is one message object with a list of items; each input schedules one event.
  \<open>Await\<close> is the first \<open>yield\<close>; \<open>Flush k\<close> is the inner loop with \<open>k\<close> events still to be
  waited for.
\<close>

datatype listener_pc = Await | Flush nat

record 'm listener =
  lbuffer :: "'m list"
  lport :: "'m list list"
  levents :: nat
  lpc :: listener_pc
  lsignals :: nat

definition new_listener :: "'m listener" where
  "new_listener = \<lparr>lbuffer = [], lport = [], levents = 0, lpc = Await, lsignals = 0\<rparr>"

definition port_input :: "'m list \<Rightarrow> 'm listener \<Rightarrow> 'm listener" where
  "port_input items l = l\<lparr>lport := lport l @ [items], levents := levents l + 1\<rparr>"

text \<open>The loop over \<open>rx_input()\<close>: every waiting input is read, and counted.\<close>

fun read_inputs :: "'m list list \<Rightarrow> 'm list \<Rightarrow> nat \<Rightarrow> 'm list \<times> nat" where
  "read_inputs [] buf c = (buf, c)"
| "read_inputs (items # rest) buf c = read_inputs rest (buf @ items) (c + 1)"

text \<open>After the counting: wait for the remaining events, or signal and start over.\<close>

definition flush_or_signal :: "nat \<Rightarrow> 'm listener \<Rightarrow> 'm listener" where
  "flush_or_signal c l =
     (if c > 1 then l\<lparr>lpc := Flush (c - 1)\<rparr> else l\<lparr>lpc := Await, lsignals := lsignals l + 1\<rparr>)"

definition listener_step :: "'m listener \<Rightarrow> 'm listener option" where
  "listener_step l =
     (if levents l = 0 then None
      else (case lpc l of
        Await \<Rightarrow>
          (let (buf, c) = read_inputs (lport l) (lbuffer l) 0 in
           Some (flush_or_signal c (l\<lparr>lbuffer := buf, lport := [], levents := levents l - 1\<rparr>)))
      | Flush k \<Rightarrow> Some (flush_or_signal k (l\<lparr>levents := levents l - 1\<rparr>))))"

lemma read_inputs_eq: "read_inputs ps buf c = (buf @ concat ps, c + length ps)"
  by (induction ps arbitrary: buf c) simp_all

text \<open>Every event not yet waited for belongs to an unread input or to the flush loop.\<close>

definition listener_ok :: "'m listener \<Rightarrow> bool" where
  "listener_ok l \<longleftrightarrow> levents l = length (lport l) + (case lpc l of Await \<Rightarrow> 0 | Flush k \<Rightarrow> k)
     \<and> (\<forall>k. lpc l = Flush k \<longrightarrow> k > 0)"

lemma listener_ok_new [simp]: "listener_ok new_listener"
  by (simp add: listener_ok_def new_listener_def)

lemma listener_ok_input: "listener_ok l \<Longrightarrow> listener_ok (port_input items l)"
  by (simp add: listener_ok_def port_input_def)

lemma listener_ok_step:
  assumes "listener_ok l" and "listener_step l = Some l'"
  shows "listener_ok l'"
proof (cases "lpc l")
  case Await
  then have "levents l = length (lport l)" "levents l > 0"
    using assms by (auto simp: listener_ok_def listener_step_def split: if_splits)
  then show ?thesis using assms Await
    by (auto simp: listener_step_def read_inputs_eq flush_or_signal_def listener_ok_def split: if_splits)
next
  case (Flush k)
  then show ?thesis using assms
    by (auto simp: listener_step_def flush_or_signal_def listener_ok_def split: if_splits)
qed

text \<open>What is in the buffer and on the port, in order.\<close>

definition pending_items :: "'m listener \<Rightarrow> 'm list" where
  "pending_items l = lbuffer l @ concat (lport l)"

lemma pending_input [simp]: "pending_items (port_input items l) = pending_items l @ items"
  by (simp add: pending_items_def port_input_def)

lemma pending_step:
  assumes "listener_step l = Some l'"
  shows "\<exists>late. pending_items l' = pending_items l \<and> lbuffer l' = lbuffer l @ late"
  using assms
  by (auto simp: listener_step_def pending_items_def read_inputs_eq flush_or_signal_def Let_def
      split: if_splits listener_pc.splits)

text \<open>Running the listener until it has nothing to wait for.\<close>

fun listener_run :: "nat \<Rightarrow> 'm listener \<Rightarrow> 'm listener" where
  "listener_run 0 l = l"
| "listener_run (Suc k) l = (case listener_step l of None \<Rightarrow> l | Some l' \<Rightarrow> listener_run k l')"

lemma step_events: "listener_step l = Some l' \<Longrightarrow> levents l = Suc (levents l')"
  by (auto simp: listener_step_def flush_or_signal_def Let_def split: if_splits listener_pc.splits prod.splits)

lemma listener_run_inv:
  assumes "listener_ok l"
  shows "listener_ok (listener_run k l) \<and> pending_items (listener_run k l) = pending_items l"
  using assms
proof (induction k arbitrary: l)
  case 0
  then show ?case by simp
next
  case (Suc k)
  show ?case
  proof (cases "listener_step l")
    case None
    then show ?thesis using Suc.prems by simp
  next
    case (Some l')
    then show ?thesis using Suc.IH [OF listener_ok_step [OF Suc.prems Some]] pending_step [OF Some] by auto
  qed
qed

lemma listener_run_events: "levents (listener_run k l) = levents l - k"
proof (induction k arbitrary: l)
  case 0
  then show ?case by simp
next
  case (Suc k)
  show ?case
  proof (cases "listener_step l")
    case None
    then have "levents l = 0"
      by (auto simp: listener_step_def Let_def split: if_splits listener_pc.splits prod.splits)
    with None show ?thesis by simp
  next
    case (Some l')
    then show ?thesis using Suc.IH [of l'] step_events [OF Some] by simp
  qed
qed

text \<open>
  A batch of inputs at one instant, from rest: after as many events as inputs the listener
  is at rest again, has put every item into the buffer in order, and has signalled once.
\<close>

lemma step_signal_count:
  assumes "listener_ok l" and "lport l = []" and "lpc l = Flush k"
  shows "listener_run k l = l\<lparr>levents := 0, lpc := Await, lsignals := lsignals l + 1\<rparr>"
  using assms
proof (induction k arbitrary: l)
  case 0
  then show ?case unfolding listener_ok_def by blast
next
  case (Suc k)
  have ev: "levents l = Suc k" using Suc.prems by (simp add: listener_ok_def)
  show ?case
  proof (cases "k = 0")
    case True
    then show ?thesis using Suc.prems ev by (simp add: listener_step_def flush_or_signal_def)
  next
    case False
    let ?l = "l\<lparr>levents := k, lpc := Flush k\<rparr>"
    have "listener_step l = Some ?l" using Suc.prems ev False by (simp add: listener_step_def flush_or_signal_def)
    moreover have "listener_ok ?l" using False Suc.prems(2) by (simp add: listener_ok_def)
    ultimately show ?thesis using Suc.IH [of ?l] Suc.prems(2) by simp
  qed
qed

lemma batch_delivered:
  assumes "lpc l = Await" and "lport l = []" and "levents l = 0" and "batch \<noteq> []"
  shows "listener_run (length batch) (fold port_input batch l)
       = l\<lparr>lbuffer := lbuffer l @ concat batch, lsignals := lsignals l + 1\<rparr>"
proof -
  have f: "fold port_input bs k = k\<lparr>lport := lport k @ bs, levents := levents k + length bs\<rparr>" for bs and k :: "'m listener"
    by (induction bs arbitrary: k) (simp_all add: port_input_def)
  let ?k = "fold port_input batch l"
  let ?l = "l\<lparr>lbuffer := lbuffer l @ concat batch, lport := [], levents := length batch - 1\<rparr>"
  have s: "listener_step ?k = Some (flush_or_signal (length batch) ?l)"
    using assms by (simp add: f listener_step_def read_inputs_eq)
  obtain x bs where b: "batch = x # bs" using assms(4) by (cases batch) simp_all
  show ?thesis
  proof (cases bs)
    case Nil
    then show ?thesis using s assms b by (simp add: flush_or_signal_def)
  next
    case (Cons y ys)
    let ?m = "?l\<lparr>lpc := Flush (length bs)\<rparr>"
    have "listener_run (length batch) ?k = listener_run (length bs) ?m"
      using s b Cons by (simp add: flush_or_signal_def)
    also have "listener_ok ?m" using b Cons by (simp add: listener_ok_def)
    then have "listener_run (length bs) ?m = ?m\<lparr>levents := 0, lpc := Await, lsignals := lsignals ?m + 1\<rparr>"
      by (intro step_signal_count) simp_all
    finally show ?thesis using assms by simp
  qed
qed

end
