(* ===== verification/WiringProps.thy ===== *)
theory WiringProps
  imports NetworkWiring Listener Operands
begin

text \<open>
  Properties of a network of stacks: setting it up, carrying messages between the network
  stacks, the directory, the configurations, and the listeners on the ports.  The concrete
  network of the witnesses has a generic node \<open>alice\<close> and an NV node \<open>bob\<close>.
\<close>

definition ex_nodes :: "(string, stack_node) dict" where
  "ex_nodes = [(''alice'', \<lparr>sn_name = ''alice'', sn_id = 0, sn_typ = ''generic'', sn_positions = 2\<rparr>),
               (''bob'', \<lparr>sn_name = ''bob'', sn_id = 1, sn_typ = ''nv'', sn_positions = 3\<rparr>)]"

definition ex_egp :: "((string \<times> string), int) dict" where
  "ex_egp = [((''alice'', ''bob''), 0), ((''bob'', ''alice''), 1)]"

definition ex_ids :: "(string, int) dict" where
  "ex_ids = [(''alice'', 0), (''bob'', 1)]"

lemma ex_network_ok: "end_nodes_ok ex_nodes" "egps_ok ex_nodes ex_ids ex_egp"
  by code_simp+

section \<open>Setting up\<close>

text \<open>
  C11: for end nodes with distinct names and ids and known device types, and EGPs between end
  nodes, \<open>_setup_network\<close> does not raise.  In the network it returns every stack has a port and
  a listener for every other stack and for no one else, every node's service knows the
  name and port of every other node, all buffers are empty, every host has a classical
  socket to every other node, and the directory gives every node its id.
\<close>

theorem setup_returns_wired:
  assumes "end_nodes_ok d" and "egps_ok d ids eg"
  shows "\<exists>net :: ('rg, 'ar, 's, 'm, 'r) network. setup_network d eg ids = Inr net
     \<and> wired d net \<and> unused d net \<and> all_known d net"
  by (rule setup_network_returns [OF assms])

theorem setup_returns_wired_witness:
  "\<exists>net :: (ex_regs, ex_arrays, unit, unit, unit) network. setup_network ex_nodes ex_egp ex_ids = Inr net
     \<and> wired ex_nodes net \<and> unused ex_nodes net \<and> all_known ex_nodes net"
  by (rule setup_returns_wired [OF ex_network_ok])

lemma setup_empty_outbox:
  assumes "unused d net" and "map_of d a = Some na"
  shows "outbox_of net a = []"
proof -
  from stacks_satE [OF assms(1) [unfolded unused_def] assms(2)]
  obtain s where "map_of (nw_stacks net) a = Some s" "peer_out (stk_qnos s) = []" by blast
  then show ?thesis by (simp add: outbox_of_def)
qed

lemma send_wired:
  fixes net :: "('rg, 'ar, 's, 'm, 'r) network"
  assumes w: "wired d net" and a: "map_of d a = Some na" and b: "map_of d b = Some nb" and ab: "a \<noteq> b"
  shows "\<exists>net'. on_stack a (on_qnos (send_peer_msg (sn_id nb) msg)) net = Inr net' \<and> wired d net'
     \<and> outbox_of net' a = outbox_of net a @ [(sn_id nb, msg)]
     \<and> (\<forall>c. c \<noteq> a \<longrightarrow> outbox_of net' c = outbox_of net c) \<and> (\<forall>c i. inbox_from net' c i = inbox_from net c i)"
proof -
  let ?R = "\<lambda>a s :: ('rg, 'ar, 's, 'm, 'r) stack. set (peer_ports (stk_qnos s)) = {sn_id n | b n. b \<noteq> a \<and> map_of d b = Some n}
          \<and> set (dict_keys (peer_listeners (stk_qnos s))) = {sn_id n | b n. b \<noteq> a \<and> map_of d b = Some n}"
  have R: "stacks_sat d ?R net" using w by (simp add: wired_def)
  have mem: "sn_id nb \<in> {sn_id n | c n. c \<noteq> a \<and> map_of d c = Some n}"
    using b ab by (intro CollectI exI [of _ b] exI [of _ nb]) simp
  have ok: "on_qnos (send_peer_msg (sn_id nb) msg) s
      = Inr (s\<lparr>stk_qnos := (stk_qnos s)\<lparr>peer_out := peer_out (stk_qnos s) @ [(sn_id nb, msg)]\<rparr>\<rparr>)" if "?R a s" for s
  proof -
    have "sn_id nb \<in> set (peer_ports (stk_qnos s))" using mem by (simp only: conjunct1 [OF that])
    then show ?thesis by (simp add: on_qnos_def send_peer_msg_def assertE_def)
  qed
  have "\<exists>net'. on_stack a (on_qnos (send_peer_msg (sn_id nb) msg)) net = Inr net' \<and> stacks_sat d ?R net'
     \<and> nw_services net' = nw_services net \<and> nw_context net' = nw_context net \<and> nw_csockets net' = nw_csockets net"
  proof (rule on_stack_sat [OF R a])
    fix s assume s: "?R a s" "stk_node s = na"
    show "\<exists>s'. on_qnos (send_peer_msg (sn_id nb) msg) s = Inr s' \<and> stk_node s' = na \<and> ?R a s'"
      unfolding ok [OF s(1)] using s by (simp del: set_map)
  qed
  then obtain net' where net': "on_stack a (on_qnos (send_peer_msg (sn_id nb) msg)) net = Inr net'"
      "stacks_sat d ?R net'" "nw_services net' = nw_services net" by blast
  obtain s where s: "map_of (nw_stacks net) a = Some s" "?R a s" using stacks_satE [OF R a] by blast
  have eq: "net' = net\<lparr>nw_stacks := AList.update a
      (s\<lparr>stk_qnos := (stk_qnos s)\<lparr>peer_out := peer_out (stk_qnos s) @ [(sn_id nb, msg)]\<rparr>\<rparr>) (nw_stacks net)\<rparr>"
    using net'(1) s(1) ok [OF s(2)] by (simp add: on_stack_def dict_get_def)
  have "wired d net'" using w net' by (simp add: wired_def)
  moreover have "outbox_of net' a = outbox_of net a @ [(sn_id nb, msg)]" using s(1) by (simp add: eq outbox_of_def)
  moreover have "outbox_of net' c = outbox_of net c" if "c \<noteq> a" for c using that by (simp add: eq outbox_of_def)
  moreover have "inbox_from net' c i = inbox_from net c i" for c i
    using s(1) by (cases "c = a") (simp_all add: eq inbox_from_def)
  ultimately show ?thesis using net'(1) by blast
qed

text \<open>
  C12: a message a network stack sends to the id of another node arrives.  In a wired network,
  once the services have carried it, it is the last message in the destination's buffer for
  the sender; no other buffer and no other outgoing message changes, and the network stays
  wired.
\<close>

theorem peer_message_delivered:
  fixes net :: "('rg, 'ar, 's, 'm, 'r) network"
  assumes "end_nodes_ok d" and "wired d net" and "map_of d a = Some na" and "map_of d b = Some nb" and "a \<noteq> b"
    and "outbox_of net a = []"
  shows "\<exists>net1 net2. on_stack a (on_qnos (send_peer_msg (sn_id nb) msg)) net = Inr net1
     \<and> carry_message a net1 = Inr net2 \<and> wired d net2
     \<and> inbox_from net2 b (sn_id na) = inbox_from net b (sn_id na) @ [msg]
     \<and> (\<forall>c i. (c, i) \<noteq> (b, sn_id na) \<longrightarrow> inbox_from net2 c i = inbox_from net c i)
     \<and> (\<forall>c. outbox_of net2 c = outbox_of net c)"
proof -
  obtain net1 where n1: "on_stack a (on_qnos (send_peer_msg (sn_id nb) msg)) net = Inr net1" "wired d net1"
      "outbox_of net1 a = [(sn_id nb, msg)]" "\<forall>c. c \<noteq> a \<longrightarrow> outbox_of net1 c = outbox_of net c"
      "\<forall>c i. inbox_from net1 c i = inbox_from net c i"
    using send_wired [OF assms(2-5), of msg] assms(6) by auto
  from carry_delivers [OF assms(1) n1(2) assms(3-5) n1(3)] obtain net2 where n2:
      "carry_message a net1 = Inr net2" "wired d net2" "outbox_of net2 a = []"
      "inbox_from net2 b (sn_id na) = inbox_from net1 b (sn_id na) @ [msg]"
      "\<forall>c. c \<noteq> a \<longrightarrow> outbox_of net2 c = outbox_of net1 c"
      "\<forall>c i. (c, i) \<noteq> (b, sn_id na) \<longrightarrow> inbox_from net2 c i = inbox_from net1 c i" by blast
  have "outbox_of net2 c = outbox_of net c" for c
    using n1(4) n2(3,5) assms(6) by (cases "c = a") simp_all
  then show ?thesis using n1 n2 by auto
qed

theorem peer_message_delivered_witness:
  "\<exists>net net1 net2 :: (ex_regs, ex_arrays, unit, unit, unit) network. setup_network ex_nodes ex_egp ex_ids = Inr net
     \<and> on_stack ''alice'' (on_qnos (send_peer_msg 1 (PeerText ''ready''))) net = Inr net1
     \<and> carry_message ''alice'' net1 = Inr net2 \<and> inbox_from net2 ''bob'' 0 = inbox_from net ''bob'' 0 @ [PeerText ''ready'']"
proof -
  obtain net :: "(ex_regs, ex_arrays, unit, unit, unit) network" where net: "setup_network ex_nodes ex_egp ex_ids = Inr net"
      "wired ex_nodes net" "unused ex_nodes net"
    using setup_network_returns [OF ex_network_ok] by blast
  have n: "map_of ex_nodes ''alice'' = Some \<lparr>sn_name = ''alice'', sn_id = 0, sn_typ = ''generic'', sn_positions = 2\<rparr>"
      "map_of ex_nodes ''bob'' = Some \<lparr>sn_name = ''bob'', sn_id = 1, sn_typ = ''nv'', sn_positions = 3\<rparr>"
    by (simp_all add: ex_nodes_def)
  from peer_message_delivered [OF ex_network_ok(1) net(2) n _ setup_empty_outbox [OF net(3) n(1)], of "PeerText ''ready''"] net(1)
  show ?thesis by simp blast
qed

section \<open>The directory\<close>

text \<open>
  With distinct node names the directory's two lookups are inverse to each other, and the
  host's own search finds the same id, raising \<open>AssertionError\<close> where the directory raises
  \<open>ValueError\<close>.
\<close>

theorem directory_inverse:
  assumes "directory_ok c"
  shows "(get_node_id c s = Inr i \<longleftrightarrow> get_node_name c i = Inr s)
     \<and> host_find_node c s = (case get_node_id c s of Inl e \<Rightarrow> Inl AssertionError | Inr j \<Rightarrow> Inr j)"
  using stack_directory.id_iff_name [OF assms] host_find_node_eq [OF assms] by blast

theorem directory_inverse_witness:
  "(get_node_id \<lparr>ctx_protocols = [], ctx_nodes = [(0, ''alice''), (1, ''bob'')]\<rparr> ''bob'' = Inr 1
      \<longleftrightarrow> get_node_name \<lparr>ctx_protocols = [], ctx_nodes = [(0, ''alice''), (1, ''bob'')]\<rparr> 1 = Inr ''bob'')
   \<and> host_find_node \<lparr>ctx_protocols = [], ctx_nodes = [(0, ''alice''), (1, ''bob'')]\<rparr> ''bob'' = Inr 1"
proof -
  have "directory_ok \<lparr>ctx_protocols = [], ctx_nodes = [(0, ''alice''), (1, ''bob'')]\<rparr>" by code_simp
  from directory_inverse [OF this, of "''bob''" 1] show ?thesis by (simp add: get_node_id_def get_nodes_def)
qed

section \<open>Configurations\<close>

text \<open>
  The generated complete-graph configuration, converted for the network builder, connects
  every pair of distinct nodes by exactly one quantum and one classical link and adds no
  other link; all nodes have the same device.  No node is an assertion error.
\<close>

theorem complete_graph_generated:
  assumes "distinct names"
  shows "case create_complete_graph_network names ltyp lcfg ctyp ccfg qtyp qcfg of
      Inl e \<Rightarrow> e = AssertionError \<and> names = []
    | Inr c \<Rightarrow> node_names (convert_stack_network_config c) = names
        \<and> complete_graph names (edges (qlinks (convert_stack_network_config c)))
        \<and> complete_graph names (edges (clinks (convert_stack_network_config c)))
        \<and> (\<forall>s \<in> set (snc_stacks c). sc_qdevice_typ s = qtyp
             \<and> sc_qdevice_cfg s = (if qcfg = NoQDevice then PerfectGeneric else qcfg))"
proof (cases "names = []")
  case True
  then show ?thesis by (simp add: create_complete_graph_network_def assertE_def)
next
  case False
  let ?link = "\<lambda>typ cfg. map (\<lambda>(s1, s2). \<lparr>lc_stack1 = s1, lc_stack2 = s2, lc_typ = typ, lc_cfg = cfg\<rparr>) (combinations2 names)"
  have "\<exists>c. create_complete_graph_network names ltyp lcfg ctyp ccfg qtyp qcfg = Inr c
     \<and> snc_stacks c = map (\<lambda>name. \<lparr>sc_name = name, sc_qdevice_typ = qtyp,
                         sc_qdevice_cfg = (if qcfg = NoQDevice then PerfectGeneric else qcfg)\<rparr>) names
     \<and> snc_links c = ?link ltyp lcfg \<and> snc_clinks c = Some (?link ctyp ccfg)"
    using False by (simp add: create_complete_graph_network_def assertE_def fold_add_stack)
  then obtain c where c: "create_complete_graph_network names ltyp lcfg ctyp ccfg qtyp qcfg = Inr c"
      "snc_stacks c = map (\<lambda>name. \<lparr>sc_name = name, sc_qdevice_typ = qtyp,
                         sc_qdevice_cfg = (if qcfg = NoQDevice then PerfectGeneric else qcfg)\<rparr>) names"
      "snc_links c = ?link ltyp lcfg" "snc_clinks c = Some (?link ctyp ccfg)" by blast
  have q: "edges (qlinks (convert_stack_network_config c)) = combinations2 names"
    by (simp add: edges_qlinks c(3) comp_def split_def)
  have k: "edges (clinks (convert_stack_network_config c)) = combinations2 names"
  proof (cases "?link ctyp ccfg")
    case Nil
    with c(2,4) show ?thesis by (subst edges_default) (simp_all add: comp_def)
  next
    case (Cons l ls)
    then have "edges (clinks (convert_stack_network_config c)) = map (\<lambda>l. (lc_stack1 l, lc_stack2 l)) (?link ctyp ccfg)"
      using c(4) by (simp add: edges_def convert_stack_network_config_def convert_clink_def Let_def)
    then show ?thesis by (simp add: comp_def split_def)
  qed
  show ?thesis using c(1,2) complete_graph_combinations2 [OF assms]
    by (simp add: q k node_names_convert comp_def)
qed

theorem complete_graph_generated_witness:
  "\<exists>c. create_complete_graph_network [''a'', ''b'', ''c''] ''perfect'' NoCfg ''instant'' NoCfg ''generic'' NoQDevice = Inr c
     \<and> complete_graph [''a'', ''b'', ''c''] (edges (qlinks (convert_stack_network_config c)))"
proof -
  have "distinct [''a'', ''b'', ''c'']" by simp
  from complete_graph_generated [OF this, where ltyp = "''perfect''" and lcfg = NoCfg and ctyp = "''instant''"
      and ccfg = NoCfg and qtyp = "''generic''" and qcfg = NoQDevice]
  show ?thesis by (auto simp: create_complete_graph_network_def assertE_def)
qed

section \<open>Listeners\<close>

text \<open>
  A port listener at rest that gets several inputs at one instant wakes once per input and
  is then at rest again: all items are in its buffer in the order sent, and it has
  signalled exactly once, however many inputs there were.
\<close>

theorem listener_batch:
  assumes "lpc l = Await" and "lport l = []" and "levents l = 0" and "batch \<noteq> []"
  shows "listener_run (length batch) (fold port_input batch l)
       = l\<lparr>lbuffer := lbuffer l @ concat batch, lsignals := lsignals l + 1\<rparr>"
  by (rule batch_delivered [OF assms])

theorem listener_batch_witness:
  "listener_run 3 (fold port_input [[1], [2, 3], [4 :: int]] new_listener)
       = new_listener\<lparr>lbuffer := [1, 2, 3, 4], lsignals := 1\<rparr>"
  using listener_batch [of new_listener "[[1], [2, 3], [4 :: int]]"]
  by (simp add: new_listener_def eval_nat_numeral)

end
