(* ===== verification/QkdRoutine.thy ===== *)
theory QkdRoutine
  imports Prelude
begin

text \<open>
  The key distribution routine (class \<open>QKDRoutine\<close> of \<open>squidasm/util/qkd_routine.py\<close>).
  The basis choices, the measurement outcomes and \<open>random.sample\<close> are inputs; the
  messages between the two parties are arguments and results of the stages, which is exact
  because in every state of the protocol only one of the parties can move.
\<close>

section \<open>Pairs\<close>

record pair_info =
  pi_index :: int
  pi_basis :: int
  pi_outcome :: int
  pi_same_basis :: "bool option"
  pi_test_outcome :: "bool option"
  pi_same_outcome :: "bool option"

definition PairInfo :: "int \<Rightarrow> int \<Rightarrow> int \<Rightarrow> pair_info" where
  "PairInfo i outcome basis = \<lparr>pi_index = i, pi_basis = basis, pi_outcome = outcome,
     pi_same_basis = None, pi_test_outcome = None, pi_same_outcome = None\<rparr>"

text \<open>What the routine asks of the connection, in order.\<close>

datatype qkd_command = CreateKeepPair | RecvKeepPair | QubitH | QubitMeasure | FlushCommands

definition pair_commands :: "bool \<Rightarrow> int \<Rightarrow> qkd_command list" where
  "pair_commands is_init basis =
     (if is_init then CreateKeepPair else RecvKeepPair) # (if basis = 1 then [QubitH] else [])
       @ [QubitMeasure, FlushCommands]"

text \<open>
  \<open>_distribute_states\<close>: per pair the basis drawn and the outcome measured; the commands
  issued, and the pairs.
\<close>

definition distribute_states :: "bool \<Rightarrow> (int \<times> int) list \<Rightarrow> qkd_command list \<times> pair_info list" where
  "distribute_states is_init measured =
     fold (\<lambda>(i, basis, m) (cmds, results).
             (cmds @ pair_commands is_init basis, results @ [PairInfo (int i) m basis]))
       (List.enumerate 0 measured) ([], [])"

text \<open>\<open>pairs_info[i].attr = v\<close>.\<close>

definition update_pair :: "int \<Rightarrow> (pair_info \<Rightarrow> pair_info) \<Rightarrow> pair_info list \<Rightarrow> pair_info list result" where
  "update_pair i f ps =
     bindE (py_index ps i) (\<lambda>p. Inr (ps[nat (if i < 0 then i + int (length ps) else i) := f p]))"

section \<open>Filtering the bases\<close>

definition basis_list :: "pair_info list \<Rightarrow> (int \<times> int) list" where
  "basis_list ps = map (\<lambda>(i, p). (int i, pi_basis p)) (List.enumerate 0 ps)"

definition compare_basis :: "(int \<times> int) \<times> (int \<times> int) \<Rightarrow> pair_info list \<Rightarrow> pair_info list result" where
  "compare_basis x ps =
     (case x of ((i, basis), (remote_i, remote_basis)) \<Rightarrow>
        bindE (assertE (i = remote_i) AssertionError) (\<lambda>_.
          update_pair i (\<lambda>p. p\<lparr>pi_same_basis := Some (basis = remote_basis)\<rparr>) ps))"

definition filter_bases :: "pair_info list \<Rightarrow> (int \<times> int) list \<Rightarrow> pair_info list result" where
  "filter_bases ps remote_bases = forE compare_basis (zip (basis_list ps) remote_bases) ps"

section \<open>Estimating the error rate\<close>

definition same_basis_indices :: "pair_info list \<Rightarrow> int list" where
  "same_basis_indices ps = map pi_index (filter (\<lambda>p. pi_same_basis p = Some True) ps)"

text \<open>\<open>random.sample\<close> raises on a size that is negative or too large.\<close>

definition random_sample :: "(int list \<Rightarrow> nat \<Rightarrow> int list) \<Rightarrow> int list \<Rightarrow> int \<Rightarrow> int list result" where
  "random_sample sample xs k =
     (if k < 0 \<or> k > int (length xs) then Inl ValueError else Inr (sample xs (nat k)))"

definition mark_tests :: "int list \<Rightarrow> pair_info list \<Rightarrow> pair_info list" where
  "mark_tests test_indices = map (\<lambda>p. p\<lparr>pi_test_outcome := Some (pi_index p \<in> set test_indices)\<rparr>)"

definition test_outcomes :: "pair_info list \<Rightarrow> int list \<Rightarrow> (int \<times> int) list result" where
  "test_outcomes ps test_indices =
     forE (\<lambda>i acc. bindE (py_index ps i) (\<lambda>p. Inr (acc @ [(i, pi_outcome p)]))) test_indices []"

text \<open>The initiator's part up to its second message: pairs, indices to test, outcomes there.\<close>

definition choose_tests ::
    "(int list \<Rightarrow> nat \<Rightarrow> int list) \<Rightarrow> int \<Rightarrow> pair_info list
       \<Rightarrow> (pair_info list \<times> int list \<times> (int \<times> int) list) result" where
  "choose_tests sample num_test_bits ps =
     (let candidates = same_basis_indices ps in
      bindE (random_sample sample candidates (min num_test_bits (int (length candidates)))) (\<lambda>test_indices.
        let ps' = mark_tests test_indices ps in
        bindE (test_outcomes ps' test_indices) (\<lambda>outcomes. Inr (ps', test_indices, outcomes))))"

text \<open>The other party's, from the indices it gets.\<close>

definition answer_tests ::
    "int list \<Rightarrow> pair_info list \<Rightarrow> (pair_info list \<times> (int \<times> int) list) result" where
  "answer_tests test_indices ps =
     (let ps' = mark_tests test_indices ps in
      bindE (test_outcomes ps' test_indices) (\<lambda>outcomes. Inr (ps', outcomes)))"

definition compare_outcome ::
    "(int \<times> int) \<times> (int \<times> int) \<Rightarrow> int \<times> pair_info list \<Rightarrow> (int \<times> pair_info list) result" where
  "compare_outcome x st =
     (case (x, st) of (((i1, t1), (i2, t2)), (num_error, ps)) \<Rightarrow>
        bindE (assertE (i1 = i2) AssertionError) (\<lambda>_.
          if t1 \<noteq> t2 then
            bindE (update_pair i1 (\<lambda>p. p\<lparr>pi_same_outcome := Some False\<rparr>) ps) (\<lambda>ps'. Inr (num_error + 1, ps'))
          else
            bindE (update_pair i1 (\<lambda>p. p\<lparr>pi_same_outcome := Some True\<rparr>) ps) (\<lambda>ps'. Inr (num_error, ps'))))"

definition py_divide :: "int \<Rightarrow> int \<Rightarrow> rat result" where
  "py_divide a b = (if b = 0 then Inl ZeroDivisionError else Inr (of_int a / of_int b))"

definition estimate_error_rate ::
    "int \<Rightarrow> (int \<times> int) list \<Rightarrow> (int \<times> int) list \<Rightarrow> pair_info list \<Rightarrow> (pair_info list \<times> rat) result" where
  "estimate_error_rate num_test_bits own target ps =
     bindE (forE compare_outcome (zip own target) (0, ps)) (\<lambda>(num_error, ps').
     bindE (py_divide num_error num_test_bits) (\<lambda>rate. Inr (ps', rate)))"

section \<open>The routine\<close>

definition num_tests :: "int \<Rightarrow> int option \<Rightarrow> int" where
  "num_tests num_epr num_test_bits = (case num_test_bits of None \<Rightarrow> num_epr div 4 | Some k \<Rightarrow> k)"

text \<open>A test outcome that was never set counts as not tested.\<close>

definition raw_key :: "pair_info list \<Rightarrow> int list" where
  "raw_key ps = map pi_outcome
     (filter (\<lambda>p. pi_same_basis p = Some True \<and> pi_test_outcome p \<noteq> Some True) ps)"

definition qkd_finish ::
    "int \<Rightarrow> (int \<times> int) list \<Rightarrow> (int \<times> int) list \<Rightarrow> pair_info list \<Rightarrow> (int list \<times> rat) result" where
  "qkd_finish k own target ps =
     bindE (estimate_error_rate k own target ps) (\<lambda>(ps', rate). Inr (raw_key ps', rate))"

text \<open>
  \<open>run\<close> of both parties: the initiator sends its bases, gets the other's, sends the indices,
  gets the outcomes there and sends its own.
\<close>

definition qkd_run ::
    "(int list \<Rightarrow> nat \<Rightarrow> int list) \<Rightarrow> int option \<Rightarrow> int option \<Rightarrow> (int \<times> int) list \<Rightarrow> (int \<times> int) list
       \<Rightarrow> ((int list \<times> rat) \<times> (int list \<times> rat)) result" where
  "qkd_run sample test_a test_b measured_a measured_b =
     (let pa = snd (distribute_states True measured_a); pb = snd (distribute_states False measured_b);
          ka = num_tests (int (length measured_a)) test_a; kb = num_tests (int (length measured_b)) test_b in
      bindE (filter_bases pb (basis_list pa)) (\<lambda>pb1.
      bindE (filter_bases pa (basis_list pb)) (\<lambda>pa1.
      bindE (choose_tests sample ka pa1) (\<lambda>(pa2, test_indices, oa).
      bindE (answer_tests test_indices pb1) (\<lambda>(pb2, ob).
      bindE (qkd_finish ka oa ob pa2) (\<lambda>ra.
      bindE (qkd_finish kb ob oa pb2) (\<lambda>rb. Inr (ra, rb))))))))"

section \<open>The stages in closed form\<close>

lemma distribute_states_fold:
  "fold (\<lambda>(i, basis, m) (cmds, results).
             (cmds @ pair_commands f basis, results @ [PairInfo (int i) m basis]))
       (List.enumerate k ms) (c, r)
     = (c @ concat (map (\<lambda>(b, m). pair_commands f b) ms),
        r @ map (\<lambda>(i, b, m). PairInfo (int i) m b) (List.enumerate k ms))"
  by (induction ms arbitrary: k c r) (auto simp: split_def)

lemma enumerate_map_nth: "List.enumerate 0 xs = map (\<lambda>i. (i, xs ! i)) [0..<length xs]"
  by (rule nth_equalityI) (simp_all add: nth_enumerate_eq)

lemma distribute_states_eq:
  "distribute_states f ms = (concat (map (\<lambda>(b, m). pair_commands f b) ms),
     map (\<lambda>i. PairInfo (int i) (snd (ms ! i)) (fst (ms ! i))) [0..<length ms])"
  unfolding distribute_states_def distribute_states_fold
  by (simp add: enumerate_map_nth comp_def split_def)

text \<open>A loop over the indices that rewrites the element at each.\<close>

lemma forE_update_each:
  assumes "\<And>i qs. i < length ps \<Longrightarrow> length qs = length ps \<Longrightarrow> body (g i) qs = Inr (qs[i := h i (qs ! i)])"
    and "k \<le> length ps"
  shows "forE body (map g [0..<k]) ps = Inr (map (\<lambda>i. if i < k then h i (ps ! i) else ps ! i) [0..<length ps])"
  using assms(2)
proof (induction k)
  case 0
  then show ?case by (simp add: map_nth)
next
  case (Suc k)
  let ?qs = "map (\<lambda>i. if i < k then h i (ps ! i) else ps ! i) [0..<length ps]"
  have "body (g k) ?qs = Inr (?qs[k := h k (?qs ! k)])" using Suc.prems by (intro assms(1)) simp_all
  moreover have "?qs[k := h k (?qs ! k)] = map (\<lambda>i. if i < Suc k then h i (ps ! i) else ps ! i) [0..<length ps]"
    using Suc.prems by (intro nth_equalityI) (auto simp: nth_list_update less_Suc_eq)
  ultimately show ?case using Suc by (simp add: forE_append)
qed

lemma basis_list_eq: "basis_list ps = map (\<lambda>i. (int i, pi_basis (ps ! i))) [0..<length ps]"
  by (simp add: basis_list_def enumerate_map_nth comp_def)

lemma update_pair_nat: "i < length ps \<Longrightarrow> update_pair (int i) f ps = Inr (ps[i := f (ps ! i)])"
  by (simp add: update_pair_def py_index_nonneg)

lemma filter_bases_eq:
  assumes "length qs = length ps"
  shows "filter_bases ps (basis_list qs)
     = Inr (map (\<lambda>i. (ps ! i)\<lparr>pi_same_basis := Some (pi_basis (ps ! i) = pi_basis (qs ! i))\<rparr>) [0..<length ps])"
proof -
  let ?g = "\<lambda>i. ((int i, pi_basis (ps ! i)), (int i, pi_basis (qs ! i)))"
  have z: "zip (basis_list ps) (basis_list qs) = map ?g [0..<length ps]"
    using assms by (simp add: basis_list_eq zip_map_map zip_same_conv_map)
  have "forE compare_basis (map ?g [0..<length ps]) ps
      = Inr (map (\<lambda>i. if i < length ps then (ps ! i)\<lparr>pi_same_basis := Some (pi_basis (ps ! i) = pi_basis (qs ! i))\<rparr>
                       else ps ! i) [0..<length ps])"
    by (rule forE_update_each) (simp_all add: compare_basis_def update_pair_nat)
  then show ?thesis by (simp add: filter_bases_def z)
qed

lemma test_outcomes_prefix:
  assumes "\<forall>i \<in> set is. 0 \<le> i \<and> i < int (length ps)"
  shows "forE (\<lambda>i acc. bindE (py_index ps i) (\<lambda>p. Inr (acc @ [(i, pi_outcome p)]))) is acc
     = Inr (acc @ map (\<lambda>i. (i, pi_outcome (ps ! nat i))) is)"
  using assms by (induction "is" arbitrary: acc) (simp_all add: py_index_nonneg)

lemma test_outcomes_eq:
  "\<forall>i \<in> set is. 0 \<le> i \<and> i < int (length ps) \<Longrightarrow> test_outcomes ps is = Inr (map (\<lambda>i. (i, pi_outcome (ps ! nat i))) is)"
  by (simp add: test_outcomes_def test_outcomes_prefix)

lemma update_pair_key:
  assumes "0 \<le> i" and "i < int (length ps)"
    and "pi_outcome (f (ps ! nat i)) = pi_outcome (ps ! nat i)"
    and "pi_same_basis (f (ps ! nat i)) = pi_same_basis (ps ! nat i)"
    and "pi_test_outcome (f (ps ! nat i)) = pi_test_outcome (ps ! nat i)"
  shows "\<exists>ps'. update_pair i f ps = Inr ps' \<and> raw_key ps' = raw_key ps \<and> length ps' = length ps"
proof -
  have n: "nat i < length ps" using assms(1,2) by simp
  have "raw_key (ps[nat i := f (ps ! nat i)]) = raw_key ps"
    unfolding raw_key_def upd_conv_take_nth_drop [OF n]
    by (subst (4) id_take_nth_drop [OF n]) (simp add: assms(3-5))
  then show ?thesis using update_pair_nat [OF n, of f] assms(1) by simp
qed

text \<open>Comparing the outcomes counts the differences and leaves the key alone.\<close>

lemma compare_outcomes:
  assumes "\<forall>i \<in> set is. 0 \<le> i \<and> i < int (length ps)"
  shows "\<exists>ps'. forE compare_outcome (zip (map (\<lambda>i. (i, a i)) is) (map (\<lambda>i. (i, b i)) is)) (n, ps)
       = Inr (n + int (length (filter (\<lambda>i. a i \<noteq> b i) is)), ps') \<and> raw_key ps' = raw_key ps"
  using assms
proof (induction "is" arbitrary: n ps)
  case Nil
  then show ?case by simp
next
  case (Cons i "is")
  let ?f = "\<lambda>p. p\<lparr>pi_same_outcome := Some (a i = b i)\<rparr>"
  from Cons.prems have "0 \<le> i" "i < int (length ps)" by simp_all
  from update_pair_key [OF this, of ?f] obtain ps1 where p: "update_pair i ?f ps = Inr ps1"
      "raw_key ps1 = raw_key ps" "length ps1 = length ps" by auto
  have s: "compare_outcome ((i, a i), (i, b i)) (n, ps) = Inr (n + (if a i \<noteq> b i then 1 else 0), ps1)"
    using p(1) by (cases "a i = b i") (simp_all add: compare_outcome_def)
  have "\<forall>j \<in> set is. 0 \<le> j \<and> j < int (length ps1)" using Cons.prems p(3) by simp
  from Cons.IH [OF this, of "n + (if a i \<noteq> b i then 1 else 0)"] s p(2) show ?case
    by (simp split: if_splits) (simp add: algebra_simps)
qed

section \<open>The run in closed form\<close>

text \<open>The documented behaviour of \<open>random.sample\<close>.\<close>

definition sample_law :: "(int list \<Rightarrow> nat \<Rightarrow> int list) \<Rightarrow> bool" where
  "sample_law sample \<longleftrightarrow> (\<forall>xs k. distinct xs \<longrightarrow> k \<le> length xs \<longrightarrow>
     length (sample xs k) = k \<and> distinct (sample xs k) \<and> set (sample xs k) \<subseteq> set xs)"

text \<open>The pairs measured in the same basis, and those of them that are tested.\<close>

definition agreed_pairs :: "(int \<times> int) list \<Rightarrow> (int \<times> int) list \<Rightarrow> int list" where
  "agreed_pairs ma mb = map int (filter (\<lambda>i. fst (ma ! i) = fst (mb ! i)) [0..<length ma])"

definition tested_pairs :: "(int list \<Rightarrow> nat \<Rightarrow> int list) \<Rightarrow> int \<Rightarrow> (int \<times> int) list \<Rightarrow> (int \<times> int) list \<Rightarrow> int list" where
  "tested_pairs sample k ma mb = sample (agreed_pairs ma mb) (min (nat k) (length (agreed_pairs ma mb)))"

definition key_of :: "int list \<Rightarrow> int list \<Rightarrow> (int \<times> int) list \<Rightarrow> int list" where
  "key_of agreed tested ms = map (\<lambda>i. snd (ms ! nat i)) (filter (\<lambda>i. i \<notin> set tested) agreed)"

definition errors_of :: "int list \<Rightarrow> (int \<times> int) list \<Rightarrow> (int \<times> int) list \<Rightarrow> int" where
  "errors_of tested ma mb = int (length (filter (\<lambda>i. snd (ma ! nat i) \<noteq> snd (mb ! nat i)) tested))"

text \<open>The pairs of one party after the bases were compared.\<close>

definition compared :: "(int \<times> int) list \<Rightarrow> (int \<times> int) list \<Rightarrow> pair_info list" where
  "compared ms ns = map (\<lambda>i. (PairInfo (int i) (snd (ms ! i)) (fst (ms ! i)))
     \<lparr>pi_same_basis := Some (fst (ms ! i) = fst (ns ! i))\<rparr>) [0..<length ms]"

lemma filter_bases_compared:
  assumes "length ns = length ms"
  shows "filter_bases (snd (distribute_states f ms)) (basis_list (snd (distribute_states g ns))) = Inr (compared ms ns)"
  using assms by (subst filter_bases_eq) (simp_all add: distribute_states_eq compared_def PairInfo_def)

lemma same_basis_compared: "same_basis_indices (compared ms ns) = agreed_pairs ms ns"
  by (simp add: same_basis_indices_def compared_def agreed_pairs_def filter_map comp_def PairInfo_def)

lemma agreed_pairs_range: "i \<in> set (agreed_pairs ms ns) \<Longrightarrow> 0 \<le> i \<and> i < int (length ms)"
  by (auto simp: agreed_pairs_def)

lemma distinct_agreed: "distinct (agreed_pairs ms ns)"
  by (simp add: agreed_pairs_def distinct_map)

lemma agreed_pairs_sym: "length ma = length mb \<Longrightarrow> agreed_pairs mb ma = agreed_pairs ma mb"
  unfolding agreed_pairs_def by (intro arg_cong [where f = "map int"] filter_cong) auto

lemma tested_outcomes:
  assumes "\<forall>i \<in> set is. 0 \<le> i \<and> i < int (length ms)"
  shows "test_outcomes (mark_tests is (compared ms ns)) is = Inr (map (\<lambda>i. (i, snd (ms ! nat i))) is)"
proof -
  have "\<forall>i \<in> set is. 0 \<le> i \<and> i < int (length (mark_tests is (compared ms ns)))"
    using assms by (simp add: mark_tests_def compared_def)
  from test_outcomes_eq [OF this] show ?thesis
    using assms by (simp add: mark_tests_def compared_def PairInfo_def nat_less_iff)
qed

lemma raw_key_tested: "raw_key (mark_tests is (compared ms ns)) = key_of (agreed_pairs ms ns) is ms"
  by (simp add: raw_key_def mark_tests_def compared_def key_of_def agreed_pairs_def filter_map comp_def
      PairInfo_def conj_commute)

lemma qkd_finish_eq:
  assumes "\<forall>i \<in> set is. 0 \<le> i \<and> i < int (length ms)"
  shows "qkd_finish k (map (\<lambda>i. (i, snd (ms ! nat i))) is) (map (\<lambda>i. (i, snd (ns ! nat i))) is)
       (mark_tests is (compared ms ns))
     = bindE (py_divide (errors_of is ms ns) k) (\<lambda>rate. Inr (key_of (agreed_pairs ms ns) is ms, rate))"
proof -
  have "\<forall>i \<in> set is. 0 \<le> i \<and> i < int (length (mark_tests is (compared ms ns)))"
    using assms by (simp add: mark_tests_def compared_def)
  from compare_outcomes [OF this, of "\<lambda>i. snd (ms ! nat i)" "\<lambda>i. snd (ns ! nat i)" 0] obtain ps' where
    "forE compare_outcome (zip (map (\<lambda>i. (i, snd (ms ! nat i))) is) (map (\<lambda>i. (i, snd (ns ! nat i))) is))
        (0, mark_tests is (compared ms ns)) = Inr (errors_of is ms ns, ps')"
    "raw_key ps' = key_of (agreed_pairs ms ns) is ms" by (auto simp: errors_of_def raw_key_tested)
  then show ?thesis by (cases "py_divide (errors_of is ms ns) k") (simp_all add: qkd_finish_def estimate_error_rate_def)
qed

lemma errors_of_sym: "errors_of is mb ma = errors_of is ma mb"
  unfolding errors_of_def by (intro arg_cong [where f = "\<lambda>xs. int (length xs)"] filter_cong) auto

lemma qkd_run_eq:
  assumes len: "length ma = length mb" and law: "sample_law sample" and k: "0 \<le> ka"
    and ka: "ka = num_tests (int (length ma)) ta" and kb: "kb = num_tests (int (length mb)) tb"
  shows "qkd_run sample ta tb ma mb =
     (let agreed = agreed_pairs ma mb; tested = tested_pairs sample ka ma mb; e = errors_of tested ma mb in
      bindE (py_divide e ka) (\<lambda>ra. bindE (py_divide e kb) (\<lambda>rb.
        Inr ((key_of agreed tested ma, ra), (key_of agreed tested mb, rb)))))"
proof -
  let ?A = "agreed_pairs ma mb" and ?T = "tested_pairs sample ka ma mb"
  have n: "nat (min ka (int (length ?A))) = min (nat ka) (length ?A)" using k by simp
  have "set ?T \<subseteq> set ?A" using law distinct_agreed [of ma mb]
    by (simp add: sample_law_def tested_pairs_def)
  then have r: "\<forall>i \<in> set ?T. 0 \<le> i \<and> i < int (length ma)" "\<forall>i \<in> set ?T. 0 \<le> i \<and> i < int (length mb)"
    using agreed_pairs_range len by force+
  have s: "random_sample sample ?A (min ka (int (length ?A))) = Inr ?T"
    using k by (simp add: random_sample_def tested_pairs_def n)
  have c: "choose_tests sample ka (compared ma mb)
      = Inr (mark_tests ?T (compared ma mb), ?T, map (\<lambda>i. (i, snd (ma ! nat i))) ?T)"
    by (simp add: choose_tests_def Let_def same_basis_compared s tested_outcomes [OF r(1)])
  have a: "answer_tests ?T (compared mb ma) = Inr (mark_tests ?T (compared mb ma), map (\<lambda>i. (i, snd (mb ! nat i))) ?T)"
    by (simp add: answer_tests_def Let_def tested_outcomes [OF r(2)])
  show ?thesis unfolding qkd_run_def Let_def ka [symmetric] kb [symmetric]
      filter_bases_compared [OF len] filter_bases_compared [OF len [symmetric]] bindE_Inr c a
      prod.case qkd_finish_eq [OF r(1)] qkd_finish_eq [OF r(2)]
    by (simp add: bindE_assoc errors_of_sym [of _ mb ma] agreed_pairs_sym [OF len])
qed

end
