(* ===== verification/QkdProps.thy ===== *)
theory QkdProps
  imports QkdRoutine
begin

text \<open>Properties of the key distribution routine, run by both parties.\<close>

text \<open>
  C14: the result of the routine.  When both parties measure the same number of pairs and the
  test sizes are positive, neither raises.  Each raw key consists of the party's own outcomes
  at the pairs measured in the same basis and not tested, in the order of generation; each
  error rate is the number of tested pairs whose outcomes differ, divided by the
  number of tests that party asked for, which is more than were made when too few pairs agree.
\<close>

theorem qkd_run_result:
  assumes "length ma = length mb" and "sample_law sample" and "0 < ka" and "0 < kb"
  shows "qkd_run sample (Some ka) (Some kb) ma mb =
     Inr ((key_of (agreed_pairs ma mb) (tested_pairs sample ka ma mb) ma,
           of_int (errors_of (tested_pairs sample ka ma mb) ma mb) / of_int ka),
          (key_of (agreed_pairs ma mb) (tested_pairs sample ka ma mb) mb,
           of_int (errors_of (tested_pairs sample ka ma mb) ma mb) / of_int kb))"
  using assms by (simp add: qkd_run_eq [where ka = ka and kb = kb] num_tests_def Let_def py_divide_def)

lemma take_law: "sample_law (\<lambda>xs k. take k xs)"
  by (auto simp: sample_law_def dest: in_set_takeD)

theorem qkd_run_result_witness:
  "qkd_run (\<lambda>xs k. take k xs) (Some 2) (Some 4) [(0, 1), (1, 0), (1, 1), (0, 0), (1, 1)] [(0, 0), (0, 1), (1, 1), (0, 0), (1, 0)]
     = Inr (([0, 1], 1 / 2), ([0, 0], 1 / 4))"
proof -
  have e: "key_of (agreed_pairs [(0, 1), (1, 0), (1, 1), (0, 0), (1, 1)] [(0, 0), (0, 1), (1, 1), (0, 0), (1, 0)])
      (tested_pairs (\<lambda>xs k. take k xs) 2 [(0, 1), (1, 0), (1, 1), (0, 0), (1, 1)] [(0, 0), (0, 1), (1, 1), (0, 0), (1, 0)])
      [(0, 1), (1, 0), (1, 1), (0, 0), (1, 1)] = [0, 1]"
    "key_of (agreed_pairs [(0, 1), (1, 0), (1, 1), (0, 0), (1, 1)] [(0, 0), (0, 1), (1, 1), (0, 0), (1, 0)])
      (tested_pairs (\<lambda>xs k. take k xs) 2 [(0, 1), (1, 0), (1, 1), (0, 0), (1, 1)] [(0, 0), (0, 1), (1, 1), (0, 0), (1, 0)])
      [(0, 0), (0, 1), (1, 1), (0, 0), (1, 0)] = [0, 0]"
    "errors_of (tested_pairs (\<lambda>xs k. take k xs) 2 [(0, 1), (1, 0), (1, 1), (0, 0), (1, 1)] [(0, 0), (0, 1), (1, 1), (0, 0), (1, 0)])
      [(0, 1), (1, 0), (1, 1), (0, 0), (1, 1)] [(0, 0), (0, 1), (1, 1), (0, 0), (1, 0)] = 1"
    by code_simp+
  have l: "length [(0 :: int, 1 :: int), (1, 0), (1, 1), (0, 0), (1, 1)]
      = length [(0 :: int, 0 :: int), (0, 1), (1, 1), (0, 0), (1, 0)]" by simp
  show ?thesis by (simp add: qkd_run_result [OF l take_law] e)
qed

lemma key_of_length:
  assumes "sample_law sample" and "0 < k"
  shows "length (key_of (agreed_pairs ma mb) (tested_pairs sample k ma mb) ms)
     = length (agreed_pairs ma mb) - min (nat k) (length (agreed_pairs ma mb))"
proof -
  let ?A = "agreed_pairs ma mb" and ?T = "tested_pairs sample k ma mb"
  have T: "length ?T = min (nat k) (length ?A)" "distinct ?T" "set ?T \<subseteq> set ?A"
    using assms distinct_agreed [of ma mb] by (auto simp: sample_law_def tested_pairs_def)
  have "length (filter (\<lambda>i. i \<notin> set ?T) ?A) = card (set ?A - set ?T)"
    using distinct_agreed [of ma mb]
    by (simp add: distinct_length_filter Int_def set_diff_eq conj_commute)
  then show ?thesis using T distinct_agreed [of ma mb]
    by (simp add: key_of_def card_Diff_subset distinct_card)
qed

lemma agreeing_keys:
  assumes "length ma = length mb" and "sample_law sample" and "0 < ka" and "0 < kb"
    and "\<forall>i < length ma. fst (ma ! i) = fst (mb ! i) \<longrightarrow> snd (ma ! i) = snd (mb ! i)"
  shows "\<exists>key. qkd_run sample (Some ka) (Some kb) ma mb = Inr ((key, 0), (key, 0))
     \<and> length key = length (agreed_pairs ma mb) - min (nat ka) (length (agreed_pairs ma mb))"
proof -
  let ?A = "agreed_pairs ma mb" and ?T = "tested_pairs sample ka ma mb"
  have T: "set ?T \<subseteq> set ?A"
    using assms(2) distinct_agreed [of ma mb] by (auto simp: sample_law_def tested_pairs_def)
  have eq: "snd (ma ! nat i) = snd (mb ! nat i)" if "i \<in> set ?A" for i
    using that assms(5) by (auto simp: agreed_pairs_def)
  have "errors_of ?T ma mb = 0" using eq T by (auto simp: errors_of_def filter_empty_conv)
  moreover have "key_of ?A ?T ma = key_of ?A ?T mb" using eq by (simp add: key_of_def)
  moreover have "length (key_of ?A ?T mb) = length ?A - min (nat ka) (length ?A)"
    by (rule key_of_length [OF assms(2,3)])
  ultimately show ?thesis using assms(1-4)
    by (simp add: qkd_run_eq [where ka = ka and kb = kb] num_tests_def Let_def py_divide_def)
qed

text \<open>
  C13: agreement.  If the two outcomes are equal on every pair that was measured in the same
  basis, both parties end with the same key and error rate zero, and the key has one bit
  for every pair that agreed and was not tested.
\<close>

theorem qkd_keys_agree:
  assumes "length ma = length mb" and "sample_law sample" and "0 < ka" and "0 < kb"
    and "\<forall>i < length ma. fst (ma ! i) = fst (mb ! i) \<longrightarrow> snd (ma ! i) = snd (mb ! i)"
  shows "\<exists>key. qkd_run sample (Some ka) (Some kb) ma mb = Inr ((key, 0), (key, 0))
     \<and> length key = length (agreed_pairs ma mb) - min (nat ka) (length (agreed_pairs ma mb))"
  by (rule agreeing_keys [OF assms])

theorem qkd_keys_agree_witness:
  "\<exists>key. qkd_run (\<lambda>xs k. take k xs) (Some 1) (Some 1) [(0, 1), (1, 0), (1, 1)] [(0, 1), (0, 1), (1, 1)]
       = Inr ((key, 0), (key, 0)) \<and> length key = 1"
proof -
  have "\<forall>i < length [(0 :: int, 1 :: int), (1, 0), (1, 1)]. fst ([(0 :: int, 1 :: int), (1, 0), (1, 1)] ! i) = fst ([(0 :: int, 1 :: int), (0, 1), (1, 1)] ! i)
      \<longrightarrow> snd ([(0 :: int, 1 :: int), (1, 0), (1, 1)] ! i) = snd ([(0 :: int, 1 :: int), (0, 1), (1, 1)] ! i)"
    by (auto simp: less_Suc_eq_0_disj)
  from qkd_keys_agree [OF _ take_law _ _ this, of 1 1] show ?thesis by (simp add: agreed_pairs_def)
qed

text \<open>
  With the default number of tests, a run with fewer than four pairs always ends in
  \<open>ZeroDivisionError\<close>, whatever was measured.
\<close>

theorem qkd_default_tests:
  assumes "length ma = length mb" and "sample_law sample" and "length ma < 4"
  shows "qkd_run sample None None ma mb = Inl ZeroDivisionError"
proof -
  have "0 = num_tests (int (length ma)) None" "0 = num_tests (int (length mb)) None"
    using assms(1,3) by (simp_all add: num_tests_def)
  from qkd_run_eq [OF assms(1,2) _ this] show ?thesis by (simp add: Let_def py_divide_def)
qed

theorem qkd_default_tests_witness:
  "qkd_run (\<lambda>xs k. take k xs) None None [(0, 1), (1, 0), (1, 1)] [(0, 1), (0, 1), (1, 1)] = Inl ZeroDivisionError"
  by (rule qkd_default_tests [OF _ take_law]) simp_all

end
