(* ===== verification/QuantumState.thy ===== *)
theory QuantumState
  imports ProcNV
begin

text \<open>
  Amplitudes.  A pure state of the qubits, which are named by integers, gives every
  assignment of bits a complex amplitude; it is not normalised, so a measured state's
  weight is the probability of its outcome.  The gates are the documented matrices of the
  quantum simulator; on top of them stands the meaning of the device programs the NV
  processor runs.
\<close>

section \<open>States and gates\<close>

type_synonym qstate = "(int \<Rightarrow> bool) \<Rightarrow> complex"

text \<open>A gate on one qubit: the amplitude of the new bit given the old one.\<close>

type_synonym gate1 = "bool \<Rightarrow> bool \<Rightarrow> complex"

definition apply1 :: "gate1 \<Rightarrow> int \<Rightarrow> qstate \<Rightarrow> qstate" where
  "apply1 M q psi = (\<lambda>s. M (s q) False * psi (s(q := False)) + M (s q) True * psi (s(q := True)))"

text \<open>A gate on \<open>t\<close> chosen by the bit of \<open>c\<close>.\<close>

definition controlled :: "(bool \<Rightarrow> gate1) \<Rightarrow> int \<Rightarrow> int \<Rightarrow> qstate \<Rightarrow> qstate" where
  "controlled M c t psi = (\<lambda>s. apply1 (M (s c)) t psi s)"

definition half_root :: complex where
  "half_root = complex_of_real (sqrt 2 / 2)"

definition gate_I :: gate1 where
  "gate_I x y = (if x = y then 1 else 0)"

definition gate_X :: gate1 where
  "gate_X x y = (if x = y then 0 else 1)"

definition gate_Z :: gate1 where
  "gate_Z x y = (if x = y then if x then - 1 else 1 else 0)"

definition gate_H :: gate1 where
  "gate_H x y = (if x \<and> y then - half_root else half_root)"

definition gate_RX :: "real \<Rightarrow> gate1" where
  "gate_RX a x y = (if x = y then complex_of_real (cos (a / 2)) else - \<i> * complex_of_real (sin (a / 2)))"

definition gate_RY :: "real \<Rightarrow> gate1" where
  "gate_RY a x y = complex_of_real (if x = y then cos (a / 2) else if x then sin (a / 2) else - sin (a / 2))"

definition gate_RZ :: "real \<Rightarrow> gate1" where
  "gate_RZ a x y = (if x = y then cis (if x then a / 2 else - a / 2) else 0)"

definition cnot :: "int \<Rightarrow> int \<Rightarrow> qstate \<Rightarrow> qstate" where
  "cnot = controlled (\<lambda>b. if b then gate_X else gate_I)"

definition cphase :: "int \<Rightarrow> int \<Rightarrow> qstate \<Rightarrow> qstate" where
  "cphase = controlled (\<lambda>b. if b then gate_Z else gate_I)"

text \<open>The part of the state with outcome \<open>m\<close> at \<open>q\<close>, and the reset of a qubit after that.\<close>

definition measured :: "int \<Rightarrow> bool \<Rightarrow> qstate \<Rightarrow> qstate" where
  "measured q m psi = (\<lambda>s. if s q = m then psi s else 0)"

definition reset_qubit :: "int \<Rightarrow> bool \<Rightarrow> qstate \<Rightarrow> qstate" where
  "reset_qubit q m psi = (\<lambda>s. if s q then 0 else psi (s(q := m)))"

text \<open>Two qubits in state zero become the pair \<open>|00> + |11>\<close>.\<close>

definition epr_pair :: "int \<Rightarrow> int \<Rightarrow> qstate \<Rightarrow> qstate" where
  "epr_pair a b psi = (\<lambda>s. if s a = s b then half_root * psi (s(a := False, b := False)) else 0)"

lemma half_root_sq [simp]: "half_root * half_root = 1 / 2"
proof -
  have "half_root * half_root = complex_of_real (sqrt 2 * sqrt 2 / 4)"
    unfolding half_root_def of_real_mult [symmetric] by (simp del: real_sqrt_mult_self)
  also have "sqrt 2 * sqrt 2 / 4 = (1 / 2 :: real)" by simp
  finally show ?thesis by simp
qed

lemma half_root_sq' [simp]: "half_root * (half_root * x) = x / 2"
  by (simp add: mult.assoc [symmetric])

lemma half_root_nonzero [simp]: "half_root \<noteq> 0"
  by (simp add: half_root_def)

lemmas gate_defs = apply1_def controlled_def gate_X_def gate_Z_def gate_H_def gate_I_def cnot_def cphase_def
  measured_def epr_pair_def

section \<open>Device programs\<close>

text \<open>Angles are multiples of \<open>pi\<close>.\<close>

definition angle :: "rat \<Rightarrow> real" where
  "angle a = real_of_rat a * pi"

text \<open>
  The direction-controlled rotations rotate by the angle when the control is zero, and by its
  negative when it is one.  A program outside these operations has no meaning here.
\<close>

fun ns_sem :: "bool \<Rightarrow> ns_op \<Rightarrow> qstate \<Rightarrow> qstate option" where
  "ns_sem m (NsOp INSTR_INIT [Some q] None) psi = Some (reset_qubit q m psi)"
| "ns_sem m (NsOp INSTR_ROT_X [Some q] (Some a)) psi = Some (apply1 (gate_RX (angle a)) q psi)"
| "ns_sem m (NsOp INSTR_ROT_Y [Some q] (Some a)) psi = Some (apply1 (gate_RY (angle a)) q psi)"
| "ns_sem m (NsOp INSTR_ROT_Z [Some q] (Some a)) psi = Some (apply1 (gate_RZ (angle a)) q psi)"
| "ns_sem m (NsOp INSTR_CXDIR [Some c, Some t] (Some a)) psi =
     (if c = t then None else Some (controlled (\<lambda>b. gate_RX (angle (if b then - a else a))) c t psi))"
| "ns_sem m (NsOp INSTR_CYDIR [Some c, Some t] (Some a)) psi =
     (if c = t then None else Some (controlled (\<lambda>b. gate_RY (angle (if b then - a else a))) c t psi))"
| "ns_sem m (NsOp INSTR_MEASURE [Some q] None) psi = Some (measured q m psi)"
| "ns_sem m _ psi = None"

text \<open>A program, with the outcome of the operation of it that has one.\<close>

fun prog_sem :: "bool \<Rightarrow> ns_op list \<Rightarrow> qstate \<Rightarrow> qstate option" where
  "prog_sem m [] psi = Some psi"
| "prog_sem m (op # ops) psi = (case ns_sem m op psi of None \<Rightarrow> None | Some psi' \<Rightarrow> prog_sem m ops psi')"

section \<open>Two qubits at a time\<close>

text \<open>
  The states reached from \<open>psi\<close> by gates on \<open>e\<close> and \<open>c\<close>: a kernel gives the amplitude of
  their new bits from their old ones.
\<close>

definition two :: "int \<Rightarrow> int \<Rightarrow> (bool \<Rightarrow> bool \<Rightarrow> bool \<Rightarrow> bool \<Rightarrow> complex) \<Rightarrow> qstate \<Rightarrow> qstate" where
  "two e c K psi = (\<lambda>s. K (s e) (s c) False False * psi (s(e := False, c := False))
     + K (s e) (s c) False True * psi (s(e := False, c := True))
     + K (s e) (s c) True False * psi (s(e := True, c := False))
     + K (s e) (s c) True True * psi (s(e := True, c := True)))"

lemma two_id:
  assumes "e \<noteq> c"
  shows "psi = two e c (\<lambda>x y u v. if x = u \<and> y = v then 1 else 0) psi"
proof
  fix s :: "int \<Rightarrow> bool"
  have "s = s(e := s e, c := s c)" by simp
  then show "psi s = two e c (\<lambda>x y u v. if x = u \<and> y = v then 1 else 0) psi s"
    using assms by (cases "s e"; cases "s c") (simp_all add: two_def)
qed

lemma two_gate_first:
  assumes "e \<noteq> c"
  shows "apply1 M e (two e c K psi)
     = two e c (\<lambda>x y u v. M x False * K False y u v + M x True * K True y u v) psi"
  using assms by (simp add: fun_eq_iff two_def apply1_def fun_upd_twist [OF assms] algebra_simps)

lemma two_controlled:
  assumes "e \<noteq> c"
  shows "controlled M e c (two e c K psi)
     = two e c (\<lambda>x y u v. M x y False * K x False u v + M x y True * K x True u v) psi"
  using assms by (simp add: fun_eq_iff two_def controlled_def apply1_def fun_upd_twist [OF assms] algebra_simps)

lemma two_cong: "(\<And>x y u v. K x y u v = L x y u v) \<Longrightarrow> two e c K psi = two e c L psi"
  by (simp add: two_def)

lemma two_reset:
  assumes "e \<noteq> c"
  shows "reset_qubit e m psi = two e c (\<lambda>x y u v. if \<not> x \<and> u = m \<and> v = y then 1 else 0) psi"
proof
  fix s :: "int \<Rightarrow> bool"
  have "s(e := m) = s(e := m, c := s c)" using assms by (simp add: fun_eq_iff)
  then show "reset_qubit e m psi s = two e c (\<lambda>x y u v. if \<not> x \<and> u = m \<and> v = y then 1 else 0) psi s"
    by (cases m; cases "s c") (simp_all add: two_def reset_qubit_def)
qed

lemma two_reset_second:
  assumes "e \<noteq> c"
  shows "reset_qubit c m psi = two e c (\<lambda>x y u v. if \<not> y \<and> v = m \<and> u = x then 1 else 0) psi"
proof
  fix s :: "int \<Rightarrow> bool"
  have "s(c := m) = s(e := s e, c := m)" by simp
  then show "reset_qubit c m psi s = two e c (\<lambda>x y u v. if \<not> y \<and> v = m \<and> u = x then 1 else 0) psi s"
    by (cases m; cases "s e") (simp_all add: two_def reset_qubit_def)
qed

lemma quarter_turns:
  "gate_RY (angle (1 / 2)) x y = (if x = y \<or> x then half_root else - half_root)"
  "gate_RY (angle (- (1 / 2))) x y = (if x = y \<or> y then half_root else - half_root)"
  "gate_RX (angle (1 / 2)) x y = (if x = y then half_root else - \<i> * half_root)"
  "gate_RX (angle (- (1 / 2))) x y = (if x = y then half_root else \<i> * half_root)"
proof -
  have a: "angle (1 / 2) / 2 = pi / 4" "angle (- (1 / 2)) / 2 = - (pi / 4)"
    by (simp_all add: angle_def of_rat_divide of_rat_minus)
  show "gate_RY (angle (1 / 2)) x y = (if x = y \<or> x then half_root else - half_root)"
    "gate_RY (angle (- (1 / 2))) x y = (if x = y \<or> y then half_root else - half_root)"
    "gate_RX (angle (1 / 2)) x y = (if x = y then half_root else - \<i> * half_root)"
    "gate_RX (angle (- (1 / 2))) x y = (if x = y then half_root else \<i> * half_root)"
    unfolding gate_RY_def gate_RX_def a by (auto simp: half_root_def cos_45 sin_45)
qed

text \<open>
  Moving a carbon to the electron: the bits move, with a phase that depends on the bit, so
  only a measurement in the computational basis may follow.
\<close>

definition move_phase :: "bool \<Rightarrow> complex" where
  "move_phase b = half_root * (if b then \<i> - 1 else \<i> + 1)"

lemma carbon_to_electron_kernel:
  assumes "c \<noteq> 0"
  shows "prog_sem m (carbon_to_electron_prog (Some c)) psi
     = Some (two 0 c (\<lambda>x y u v. if u = m \<and> \<not> y \<and> v = x then move_phase x else 0) psi)"
proof -
  have ne: "0 \<noteq> c" using assms by simp
  show ?thesis
    unfolding carbon_to_electron_prog_def PI_OVER_2_def
    apply (simp add: ne two_reset [OF ne] two_gate_first [OF ne] two_controlled [OF ne])
    apply (rule two_cong)
    subgoal for x y u v
      by (cases x; cases y; cases u; cases v; cases m)
        (simp_all add: quarter_turns move_phase_def algebra_simps)
    done
qed

text \<open>
  Moving the electron to a carbon: the state moves, and the electron is left in
  \<open>|0> + |1>\<close>.
\<close>

lemma electron_to_carbon_kernel:
  assumes "c \<noteq> 0"
  shows "prog_sem m (electron_to_carbon_prog c) psi
     = Some (two 0 c (\<lambda>x y u v. if u = y \<and> v = m then (1 + \<i>) / 2 else 0) psi)"
proof -
  have ne: "0 \<noteq> c" using assms by simp
  show ?thesis
    unfolding electron_to_carbon_prog_def PI_OVER_2_def
    apply (simp add: ne two_reset_second [OF ne] two_gate_first [OF ne] two_controlled [OF ne])
    apply (rule two_cong)
    subgoal for x y u v
      by (cases x; cases y; cases u; cases v; cases m) (simp_all add: quarter_turns algebra_simps)
    done
qed

lemma carbon_to_electron_sem:
  assumes "c \<noteq> 0"
  shows "prog_sem m (carbon_to_electron_prog (Some c)) psi
     = Some (\<lambda>s. if s c then 0 else move_phase (s 0) * psi (s(0 := m, c := s 0)))"
  unfolding carbon_to_electron_kernel [OF assms]
  by (cases m) (auto simp: two_def fun_eq_iff)

lemma electron_to_carbon_sem:
  assumes "c \<noteq> 0"
  shows "prog_sem m (electron_to_carbon_prog c) psi = Some (\<lambda>s. (1 + \<i>) / 2 * psi (s(0 := s c, c := m)))"
  unfolding electron_to_carbon_kernel [OF assms]
  by (cases m) (auto simp: two_def fun_eq_iff)

end
