(* ===== verification/Routines.thy ===== *)
theory Routines
  imports Host QuantumState
begin

text \<open>
  The routines of \<open>squidasm/util/routines.py\<close>.  A routine is a generator over the SDK's
  objects: it queues commands on its connection, flushes them, and sends and receives
  classical messages.  The model of such a generator is a tree: a flushed subroutine runs
  its commands one by one, collecting the outcomes of its measurements, and the rest of the
  routine depends on these; the rest after a \<open>recv\<close> depends on the message.  The handle of a
  qubit the SDK creates is an argument.  \<open>network_step\<close> lets any party do its next action on
  the joint state of all qubits.
\<close>

section \<open>Generators\<close>

datatype sdk_command =
    EprCreate string int
  | EprRecv string int
  | DoInit int
  | DoX int
  | DoZ int
  | DoH int
  | DoRotY real int
  | DoRotZ real int
  | DoCnot int int
  | DoCphase int int
  | DoMeas int

datatype 'a routine =
    Returned 'a
  | Failed py_error
  | Flushing "sdk_command list" "int list" "int list \<Rightarrow> 'a routine"
  | SendMsg string string "'a routine"
  | RecvMsg string "string \<Rightarrow> 'a routine"

text \<open>
  What the routines return: nothing, a qubit, or a qubit and an outcome; applications return a
  dictionary of numbers, lists of them, and strings.
\<close>

datatype sdk_value = IntValue int | FloatValue real | StrValue string | IntsValue "int list"

datatype routine_value = NoValue | QubitValue int | QubitOutcome int int | DictValue "(string \<times> sdk_value) list"

text \<open>\<open>yield from connection.flush()\<close>: with nothing queued it is over at once.\<close>

definition flush :: "sdk_command list \<Rightarrow> (int list \<Rightarrow> 'a routine) \<Rightarrow> 'a routine" where
  "flush cmds k = (if cmds = [] then k [] else Flushing cmds [] k)"

definition orFail :: "'b result \<Rightarrow> ('b \<Rightarrow> 'a routine) \<Rightarrow> 'a routine" where
  "orFail r k = (case r of Inl e \<Rightarrow> Failed e | Inr x \<Rightarrow> k x)"

text \<open>\<open>x = yield from r\<close>: the rest of the caller follows what the routine returns.\<close>

primrec routine_bind :: "'a routine \<Rightarrow> ('a \<Rightarrow> 'b routine) \<Rightarrow> 'b routine" where
  "routine_bind (Returned x) f = f x"
| "routine_bind (Failed e) f = Failed e"
| "routine_bind (Flushing cs res k) f = Flushing cs res (\<lambda>ms. routine_bind (k ms) f)"
| "routine_bind (SendMsg peer msg r) f = SendMsg peer msg (routine_bind r f)"
| "routine_bind (RecvMsg peer k) f = RecvMsg peer (\<lambda>msg. routine_bind (k msg) f)"

lemma bind_flush [simp]: "routine_bind (flush cs k) f = flush cs (\<lambda>ms. routine_bind (k ms) f)"
  by (simp add: flush_def)

lemma bind_orFail [simp]: "routine_bind (orFail r k) f = orFail r (\<lambda>x. routine_bind (k x) f)"
  by (simp add: orFail_def split: sum.split)

text \<open>\<open>context.csockets[peer_name]\<close> and \<open>context.epr_sockets[peer_name]\<close>.\<close>

definition sockets_of :: "program_context \<Rightarrow> string \<Rightarrow> 'a routine \<Rightarrow> 'a routine" where
  "sockets_of ctx peer r =
     (if peer \<in> set (pc_csockets ctx) \<and> peer \<in> set (dict_keys (pc_epr_sockets ctx)) then r else Failed KeyError)"

section \<open>Measuring and preparing states\<close>

text \<open>These queue commands and do not flush.\<close>

definition measXY :: "int \<Rightarrow> real \<Rightarrow> sdk_command list" where
  "measXY q ang = [DoRotZ ang q, DoH q, DoMeas q]"

definition remote_state_preparation :: "string \<Rightarrow> int \<Rightarrow> real \<Rightarrow> sdk_command list" where
  "remote_state_preparation peer epr theta = EprCreate peer epr # measXY epr theta"

definition recv_remote_state_preparation :: "string \<Rightarrow> int \<Rightarrow> sdk_command list" where
  "recv_remote_state_preparation peer epr = [EprRecv peer epr]"

definition send_int :: "string \<Rightarrow> int \<Rightarrow> 'a routine \<Rightarrow> 'a routine" where
  "send_int peer outcome k = SendMsg peer (py_str outcome) k"

definition recv_int :: "string \<Rightarrow> (int \<Rightarrow> 'a routine) \<Rightarrow> 'a routine" where
  "recv_int peer k = RecvMsg peer (\<lambda>val. orFail (py_int val) k)"

section \<open>Teleportation\<close>

definition teleport_send :: "int \<Rightarrow> program_context \<Rightarrow> string \<Rightarrow> int \<Rightarrow> routine_value routine" where
  "teleport_send q ctx peer epr =
     sockets_of ctx peer
       (flush [EprCreate peer epr, DoCnot q epr, DoH q, DoMeas q, DoMeas epr] (\<lambda>ms.
          SendMsg peer (py_str (ms ! 0) @ '','' @ py_str (ms ! 1)) (Returned NoValue)))"

definition teleport_recv :: "program_context \<Rightarrow> string \<Rightarrow> int \<Rightarrow> routine_value routine" where
  "teleport_recv ctx peer epr =
     sockets_of ctx peer
       (flush [EprRecv peer epr] (\<lambda>_. RecvMsg peer (\<lambda>msg.
          case py_split (CHR '','') msg of
            [m1, m2] \<Rightarrow> orFail (py_int m2) (\<lambda>i2. orFail (py_int m1) (\<lambda>i1.
              flush ((if i2 = 1 then [DoX epr] else []) @ (if i1 = 1 then [DoZ epr] else []))
                (\<lambda>_. Returned (QubitValue epr))))
          | _ \<Rightarrow> Failed ValueError)))"

section \<open>Distributed gates\<close>

definition distributed_CNOT_control :: "program_context \<Rightarrow> string \<Rightarrow> int \<Rightarrow> int \<Rightarrow> routine_value routine" where
  "distributed_CNOT_control ctx peer ctrl_qubit epr =
     sockets_of ctx peer
       (flush [EprCreate peer epr, DoCnot ctrl_qubit epr, DoMeas epr] (\<lambda>ms.
          SendMsg peer (py_str (ms ! 0)) (RecvMsg peer (\<lambda>target_meas.
            flush (if target_meas = ''1'' then [DoZ ctrl_qubit] else []) (\<lambda>_. Returned NoValue)))))"

definition distributed_CNOT_target :: "program_context \<Rightarrow> string \<Rightarrow> int \<Rightarrow> int \<Rightarrow> routine_value routine" where
  "distributed_CNOT_target ctx peer target_qubit epr =
     sockets_of ctx peer
       (flush [EprRecv peer epr] (\<lambda>_. RecvMsg peer (\<lambda>m.
          flush ((if m = ''1'' then [DoX epr] else []) @ [DoCnot epr target_qubit, DoH epr, DoMeas epr]) (\<lambda>ms.
            SendMsg peer (py_str (ms ! 0)) (Returned NoValue)))))"

definition distributed_CPhase_control :: "program_context \<Rightarrow> string \<Rightarrow> int \<Rightarrow> int \<Rightarrow> routine_value routine" where
  "distributed_CPhase_control ctx peer ctrl_qubit epr =
     sockets_of ctx peer
       (flush [EprCreate peer epr, DoCnot ctrl_qubit epr, DoMeas epr] (\<lambda>ms.
          SendMsg peer (py_str (ms ! 0)) (RecvMsg peer (\<lambda>target_meas.
            flush (if target_meas = ''1'' then [DoZ ctrl_qubit] else []) (\<lambda>_. Returned NoValue)))))"

definition distributed_CPhase_target :: "program_context \<Rightarrow> string \<Rightarrow> int \<Rightarrow> int \<Rightarrow> routine_value routine" where
  "distributed_CPhase_target ctx peer target_qubit epr =
     sockets_of ctx peer
       (flush [EprRecv peer epr] (\<lambda>_. RecvMsg peer (\<lambda>m.
          flush ((if m = ''1'' then [DoX epr] else []) @ [DoCphase epr target_qubit, DoH epr, DoMeas epr]) (\<lambda>ms.
            SendMsg peer (py_str (ms ! 0)) (Returned NoValue)))))"

section \<open>GHZ states along a line\<close>

datatype ghz_role = RoleStart | RoleMiddle | RoleEnd

text \<open>A classical socket that may be \<open>None\<close>.\<close>

definition on_socket :: "py_error \<Rightarrow> string option \<Rightarrow> (string \<Rightarrow> 'a routine) \<Rightarrow> 'a routine" where
  "on_socket e sock k = (case sock of None \<Rightarrow> Failed e | Some peer \<Rightarrow> k peer)"

text \<open>From the flush on: the corrections.\<close>

definition ghz_corrections ::
    "ghz_role \<Rightarrow> string option \<Rightarrow> string option \<Rightarrow> bool \<Rightarrow> int \<Rightarrow> int \<Rightarrow> routine_value routine" where
  "ghz_corrections role down_socket up_socket do_corrections q m =
     (if \<not> do_corrections then Returned (QubitOutcome q m)
      else if role = RoleStart then
        on_socket AssertionError up_socket (\<lambda>up. SendMsg up (py_str 0) (flush [] (\<lambda>_. Returned (QubitOutcome q 0))))
      else
        on_socket AssertionError down_socket (\<lambda>down. recv_int down (\<lambda>corr.
          (if role = RoleMiddle then
             (\<lambda>r. on_socket AssertionError up_socket (\<lambda>up. SendMsg up (py_str ((corr + m) mod 2)) r))
           else (\<lambda>r. r))
          (flush (if corr = 1 then [DoX q] else []) (\<lambda>_. Returned (QubitOutcome q 0))))))"

definition create_ghz ::
    "string option \<Rightarrow> string option \<Rightarrow> string option \<Rightarrow> string option \<Rightarrow> bool \<Rightarrow> int \<Rightarrow> int \<Rightarrow> routine_value routine" where
  "create_ghz down_epr_socket up_epr_socket down_socket up_socket do_corrections q q_up =
     (case (down_epr_socket, up_epr_socket) of
        (None, None) \<Rightarrow> Failed TypeError
      | (None, Some up_epr) \<Rightarrow>
          on_socket AttributeError up_socket (\<lambda>up. RecvMsg up (\<lambda>_.
            flush [EprCreate up_epr q] (\<lambda>_.
              ghz_corrections RoleStart down_socket up_socket do_corrections q 0)))
      | (Some down_epr, None) \<Rightarrow>
          on_socket AttributeError down_socket (\<lambda>down. SendMsg down []
            (flush [EprRecv down_epr q] (\<lambda>_.
              ghz_corrections RoleEnd down_socket up_socket do_corrections q 0)))
      | (Some down_epr, Some up_epr) \<Rightarrow>
          on_socket AttributeError down_socket (\<lambda>down. SendMsg down []
            (on_socket AttributeError up_socket (\<lambda>up. RecvMsg up (\<lambda>_.
              flush [EprRecv down_epr q, EprCreate up_epr q_up, DoCnot q q_up, DoMeas q_up] (\<lambda>ms.
                ghz_corrections RoleMiddle down_socket up_socket do_corrections q (ms ! 0)))))))"

section \<open>Running the parties\<close>

text \<open>Outcomes of measurements are bits.\<close>

definition bit :: "int \<Rightarrow> bool" where
  "bit m \<longleftrightarrow> m = 0 \<or> m = 1"

record 'a qnet =
  progs :: "string \<Rightarrow> 'a routine"
  chan :: "string \<times> string \<Rightarrow> string list"
  amps :: qstate

text \<open>Going on to the next command, or out of the flush after the last.\<close>

fun next_command :: "sdk_command list \<Rightarrow> int list \<Rightarrow> (int list \<Rightarrow> 'a routine) \<Rightarrow> 'a routine" where
  "next_command [] res k = k res"
| "next_command (c # cs) res k = Flushing (c # cs) res k"

definition gate_step ::
    "string \<Rightarrow> sdk_command list \<Rightarrow> int list \<Rightarrow> (int list \<Rightarrow> 'a routine) \<Rightarrow> qstate \<Rightarrow> 'a qnet \<Rightarrow> 'a qnet" where
  "gate_step p cs res k psi net = net\<lparr>progs := (progs net)(p := next_command cs res k), amps := psi\<rparr>"

text \<open>
  The first command of party \<open>p\<close>'s subroutine; a measurement has outcome \<open>m\<close>.  A pair is made
  when the creator's and the receiver's commands are both next, of each other.
\<close>

fun command_step ::
    "string \<Rightarrow> int \<Rightarrow> sdk_command \<Rightarrow> sdk_command list \<Rightarrow> int list \<Rightarrow> (int list \<Rightarrow> 'a routine)
       \<Rightarrow> 'a qnet \<Rightarrow> 'a qnet option" where
  "command_step p m (DoX q) cs res k net = Some (gate_step p cs res k (apply1 gate_X q (amps net)) net)"
| "command_step p m (DoInit q) cs res k net = Some (gate_step p cs res k (reset_qubit q False (amps net)) net)"
| "command_step p m (DoZ q) cs res k net = Some (gate_step p cs res k (apply1 gate_Z q (amps net)) net)"
| "command_step p m (DoH q) cs res k net = Some (gate_step p cs res k (apply1 gate_H q (amps net)) net)"
| "command_step p m (DoRotY a q) cs res k net = Some (gate_step p cs res k (apply1 (gate_RY a) q (amps net)) net)"
| "command_step p m (DoRotZ a q) cs res k net = Some (gate_step p cs res k (apply1 (gate_RZ a) q (amps net)) net)"
| "command_step p m (DoCnot c t) cs res k net = Some (gate_step p cs res k (cnot c t (amps net)) net)"
| "command_step p m (DoCphase c t) cs res k net = Some (gate_step p cs res k (cphase c t (amps net)) net)"
| "command_step p m (DoMeas q) cs res k net =
     (if m = 0 \<or> m = 1 then Some (gate_step p cs (res @ [m]) k (measured q (m = 1) (amps net)) net) else None)"
| "command_step p m (EprRecv peer q) cs res k net = None"
| "command_step p m (EprCreate peer q) cs res k net =
     (case progs net peer of
        Flushing (EprRecv p' q' # cs') res' k' \<Rightarrow>
          if p' = p \<and> peer \<noteq> p then
            Some (net\<lparr>progs := (progs net)(p := next_command cs res k, peer := next_command cs' res' k'),
                      amps := epr_pair q q' (amps net)\<rparr>)
          else None
      | _ \<Rightarrow> None)"

fun action_step :: "string \<Rightarrow> int \<Rightarrow> 'a routine \<Rightarrow> 'a qnet \<Rightarrow> 'a qnet option" where
  "action_step p m (Flushing [] res k) net = Some (net\<lparr>progs := (progs net)(p := k res)\<rparr>)"
| "action_step p m (Flushing (c # cs) res k) net = command_step p m c cs res k net"
| "action_step p m (SendMsg peer msg k) net =
     Some (net\<lparr>progs := (progs net)(p := k), chan := (chan net)((p, peer) := chan net (p, peer) @ [msg])\<rparr>)"
| "action_step p m (RecvMsg peer k) net =
     (case chan net (peer, p) of [] \<Rightarrow> None
      | msg # rest \<Rightarrow> Some (net\<lparr>progs := (progs net)(p := k msg), chan := (chan net)((peer, p) := rest)\<rparr>))"
| "action_step p m (Returned x) net = None"
| "action_step p m (Failed e) net = None"

definition party_step :: "string \<Rightarrow> int \<Rightarrow> 'a qnet \<Rightarrow> 'a qnet option" where
  "party_step p m net = action_step p m (progs net p) net"

text \<open>After \<open>k\<close> actions, in any order the parties can take them.\<close>

inductive network_run :: "'a qnet \<Rightarrow> nat \<Rightarrow> 'a qnet \<Rightarrow> bool" for start where
  nr_refl: "network_run start 0 start"
| nr_step: "network_run start k net \<Longrightarrow> party_step p m net = Some net' \<Longrightarrow> network_run start (Suc k) net'"

text \<open>A given order of actions, with the outcomes of the measurements among them.\<close>

fun run_actions :: "(string \<times> int) list \<Rightarrow> 'a qnet \<Rightarrow> 'a qnet option" where
  "run_actions [] net = Some net"
| "run_actions ((p, m) # as) net = (case party_step p m net of None \<Rightarrow> None | Some net' \<Rightarrow> run_actions as net')"

lemma run_actions_run:
  assumes "run_actions as net = Some net'" and "network_run start k net"
  shows "network_run start (k + length as) net'"
  using assms
proof (induction "as" arbitrary: net k)
  case Nil
  then show ?case by simp
next
  case (Cons x "as")
  obtain p m where x: "x = (p, m)" by (cases x)
  with Cons.prems obtain net1 where s: "party_step p m net = Some net1" "run_actions as net1 = Some net'"
    by (auto split: option.splits)
  from Cons.IH [OF s(2) nr_step [OF Cons.prems(2) s(1)]] show ?case by simp
qed

section \<open>Two parties\<close>

text \<open>Two parties with the messages on the way from one to the other; nobody else acts.\<close>

definition net2 ::
    "string \<Rightarrow> string \<Rightarrow> routine_value routine \<Rightarrow> routine_value routine \<Rightarrow> string list \<Rightarrow> string list \<Rightarrow> qstate
       \<Rightarrow> routine_value qnet" where
  "net2 a b ra rb ab ba psi =
     \<lparr>progs = (\<lambda>p. if p = a then ra else if p = b then rb else Returned NoValue),
      chan = (\<lambda>x. if x = (a, b) then ab else if x = (b, a) then ba else []), amps = psi\<rparr>"

text \<open>The steps of such a network, by whose turn it is.\<close>

lemma net2_sel:
  assumes "a \<noteq> b"
  shows "progs (net2 a b ra rb ab ba psi) a = ra" "progs (net2 a b ra rb ab ba psi) b = rb"
    "chan (net2 a b ra rb ab ba psi) (a, b) = ab" "chan (net2 a b ra rb ab ba psi) (b, a) = ba"
    "amps (net2 a b ra rb ab ba psi) = psi"
  using assms by (simp_all add: net2_def)

lemma net2_others: "p \<noteq> a \<Longrightarrow> p \<noteq> b \<Longrightarrow> party_step p m (net2 a b ra rb ab ba psi) = None"
  by (simp add: party_step_def net2_def)

lemma net2_gate:
  assumes "a \<noteq> b"
  shows "gate_step a cs res k psi' (net2 a b ra rb ab ba psi) = net2 a b (next_command cs res k) rb ab ba psi'"
    "gate_step b cs res k psi' (net2 a b ra rb ab ba psi) = net2 a b ra (next_command cs res k) ab ba psi'"
  using assms by (auto simp: gate_step_def net2_def fun_eq_iff)

lemma net2_epr:
  assumes "a \<noteq> b"
  shows "(net2 a b ra rb ab ba psi)\<lparr>progs := (progs (net2 a b ra rb ab ba psi))(a := r, b := r'), amps := psi'\<rparr>
     = net2 a b r r' ab ba psi'"
  using assms by (auto simp: net2_def fun_eq_iff)

lemma net2_msg:
  assumes "a \<noteq> b"
  shows "(net2 a b ra rb ab ba psi)\<lparr>progs := (progs (net2 a b ra rb ab ba psi))(a := r),
        chan := (chan (net2 a b ra rb ab ba psi))((a, b) := l)\<rparr> = net2 a b r rb l ba psi"
    "(net2 a b ra rb ab ba psi)\<lparr>progs := (progs (net2 a b ra rb ab ba psi))(b := r),
        chan := (chan (net2 a b ra rb ab ba psi))((b, a) := l)\<rparr> = net2 a b ra r ab l psi"
    "(net2 a b ra rb ab ba psi)\<lparr>progs := (progs (net2 a b ra rb ab ba psi))(a := r),
        chan := (chan (net2 a b ra rb ab ba psi))((b, a) := l)\<rparr> = net2 a b r rb ab l psi"
    "(net2 a b ra rb ab ba psi)\<lparr>progs := (progs (net2 a b ra rb ab ba psi))(b := r),
        chan := (chan (net2 a b ra rb ab ba psi))((a, b) := l)\<rparr> = net2 a b ra r l ba psi"
  using assms by (auto simp: net2_def fun_eq_iff)

lemma party_step_net2:
  assumes "a \<noteq> b"
  shows "party_step a m (net2 a b ra rb ab ba psi) = action_step a m ra (net2 a b ra rb ab ba psi)"
    "party_step b m (net2 a b ra rb ab ba psi) = action_step b m rb (net2 a b ra rb ab ba psi)"
  by (simp_all add: party_step_def net2_sel [OF assms])

lemmas net2_steps = party_step_net2 net2_gate net2_epr net2_msg net2_sel

text \<open>The contexts of two parties that have sockets to each other.\<close>

definition has_sockets :: "program_context \<Rightarrow> string \<Rightarrow> bool" where
  "has_sockets ctx peer \<longleftrightarrow> peer \<in> set (pc_csockets ctx) \<and> peer \<in> set (dict_keys (pc_epr_sockets ctx))"

definition ex_program_context :: "string \<Rightarrow> program_context" where
  "ex_program_context peer = \<lparr>pc_csockets = [peer], pc_epr_sockets = [(peer, 0)], pc_app_id = 0\<rparr>"

lemma ex_sockets: "has_sockets (ex_program_context peer) peer"
  by (simp add: has_sockets_def ex_program_context_def)

text \<open>A state whose amplitude depends on qubit \<open>0\<close> only.\<close>

definition ex_amps :: qstate where
  "ex_amps s = (if s 0 then 4 / 5 else 3 / 5)"

end
