(* ===== verification/AnyOrder.thy ===== *)
theory AnyOrder
  imports Routines
begin

text \<open>
  Networks of parties that touch disjoint sets of qubits.  Steps of different parties commute:
  gates on different qubits do, a message sent does not disturb the one received, and a pair
  needs both its parties.  So whatever one schedule is shown to end in, for all outcomes of
  the measurements, every schedule ends in; the properties of the applications follow one
  order of actions only.
\<close>

section \<open>Operations on some of the qubits\<close>

definition agree_on :: "int set \<Rightarrow> (int \<Rightarrow> bool) \<Rightarrow> (int \<Rightarrow> bool) \<Rightarrow> bool" where
  "agree_on Q s s' \<longleftrightarrow> (\<forall>q \<in> Q. s q = s' q)"

text \<open>A summand of an operation: a coefficient, and the old bits given the new ones.\<close>

type_synonym summand = "((int \<Rightarrow> bool) \<Rightarrow> complex) \<times> ((int \<Rightarrow> bool) \<Rightarrow> int \<Rightarrow> bool)"

definition on_qubits :: "int set \<Rightarrow> summand \<Rightarrow> bool" where
  "on_qubits Q t \<longleftrightarrow> (\<forall>s s'. agree_on Q s s' \<longrightarrow> fst t s = fst t s' \<and> agree_on Q (snd t s) (snd t s'))
     \<and> (\<forall>s q. q \<notin> Q \<longrightarrow> snd t s q = s q)"

definition summed :: "summand list \<Rightarrow> qstate \<Rightarrow> qstate" where
  "summed ts psi = (\<lambda>s. \<Sum>t\<leftarrow>ts. fst t s * psi (snd t s))"

definition local_on :: "int set \<Rightarrow> (qstate \<Rightarrow> qstate) \<Rightarrow> bool" where
  "local_on Q f \<longleftrightarrow> (\<exists>ts. f = summed ts \<and> (\<forall>t \<in> set ts. on_qubits Q t))"

lemma on_qubitsD:
  assumes "on_qubits Q t"
  shows "agree_on Q s s' \<Longrightarrow> fst t s = fst t s'" and "agree_on Q s s' \<Longrightarrow> q \<in> Q \<Longrightarrow> snd t s q = snd t s' q"
    and "q \<notin> Q \<Longrightarrow> snd t s q = s q"
  using assms unfolding on_qubits_def agree_on_def by blast+

lemma on_qubitsI:
  assumes "\<And>s s'. agree_on Q s s' \<Longrightarrow> c s = c s'" and "\<And>s s' q. agree_on Q s s' \<Longrightarrow> q \<in> Q \<Longrightarrow> u s q = u s' q"
    and "\<And>s q. q \<notin> Q \<Longrightarrow> u s q = s q"
  shows "on_qubits Q (c, u)"
  using assms unfolding on_qubits_def by (simp add: agree_on_def)

lemma summand_commute:
  assumes "on_qubits Q t" and "on_qubits R u" and "Q \<inter> R = {}"
  shows "fst u (snd t s) = fst u s" and "snd u (snd t s) = snd t (snd u s)"
proof -
  have n: "q \<in> R \<Longrightarrow> q \<notin> Q" "q \<in> Q \<Longrightarrow> q \<notin> R" for q using assms(3) by auto
  have a: "agree_on R (snd t s) s" "agree_on Q (snd u s) s"
    using n on_qubitsD(3) [OF assms(1)] on_qubitsD(3) [OF assms(2)] by (simp_all add: agree_on_def)
  show "fst u (snd t s) = fst u s" by (rule on_qubitsD(1) [OF assms(2) a(1)])
  have "snd u (snd t s) q = snd t (snd u s) q" for q
  proof -
    consider "q \<in> Q" "q \<notin> R" | "q \<in> R" "q \<notin> Q" | "q \<notin> Q" "q \<notin> R" using n by blast
    then show ?thesis
      using on_qubitsD(2) [OF assms(1) a(2), of q] on_qubitsD(2) [OF assms(2) a(1), of q]
      by cases (simp_all add: on_qubitsD(3) [OF assms(1)] on_qubitsD(3) [OF assms(2)])
  qed
  then show "snd u (snd t s) = snd t (snd u s)" by blast
qed

lemma sum_list_swap: "(\<Sum>x\<leftarrow>xs. \<Sum>y\<leftarrow>ys. (g x y :: complex)) = (\<Sum>y\<leftarrow>ys. \<Sum>x\<leftarrow>xs. g x y)"
  by (induction xs) (simp_all add: sum_list_addf)

lemma local_on_commute:
  assumes "local_on Q f" and "local_on R g" and "Q \<inter> R = {}"
  shows "f (g psi) = g (f psi)"
proof
  fix s
  obtain ts us where f: "f = summed ts" and g: "g = summed us"
    and on: "\<forall>t \<in> set ts. on_qubits Q t" "\<forall>u \<in> set us. on_qubits R u"
    using assms(1,2) unfolding local_on_def by blast
  have d: "R \<inter> Q = {}" using assms(3) by auto
  have "f (g psi) s = (\<Sum>t\<leftarrow>ts. \<Sum>u\<leftarrow>us. fst t s * (fst u (snd t s) * psi (snd u (snd t s))))"
    by (simp add: f g summed_def sum_list_const_mult)
  also have "\<dots> = (\<Sum>t\<leftarrow>ts. \<Sum>u\<leftarrow>us. fst u s * (fst t (snd u s) * psi (snd t (snd u s))))"
  proof (intro arg_cong [where f = sum_list] map_cong refl)
    fix t u assume tu: "t \<in> set ts" "u \<in> set us"
    then have o: "on_qubits Q t" "on_qubits R u" using on by auto
    have "fst u (snd t s) = fst u s" "fst t (snd u s) = fst t s" "snd u (snd t s) = snd t (snd u s)"
      using summand_commute [OF o assms(3)] summand_commute(1) [OF o(2,1) d] by simp_all
    then show "fst t s * (fst u (snd t s) * psi (snd u (snd t s))) = fst u s * (fst t (snd u s) * psi (snd t (snd u s)))"
      by (simp only: mult.left_commute)
  qed
  also have "\<dots> = (\<Sum>u\<leftarrow>us. \<Sum>t\<leftarrow>ts. fst u s * (fst t (snd u s) * psi (snd t (snd u s))))"
    by (rule sum_list_swap)
  also have "\<dots> = g (f psi) s"
    by (simp add: f g summed_def sum_list_const_mult)
  finally show "f (g psi) s = g (f psi) s" .
qed

lemma on_qubits_mono:
  assumes "on_qubits Q t" and "Q \<subseteq> R"
  shows "on_qubits R t"
proof -
  have "agree_on R s s' \<Longrightarrow> agree_on Q s s'" for s s' using assms(2) by (auto simp: agree_on_def)
  moreover have "agree_on R s s' \<Longrightarrow> q \<in> R \<Longrightarrow> snd t s q = snd t s' q" for s s' q
    using on_qubitsD(2) [OF assms(1) calculation, of s s' q] on_qubitsD(3) [OF assms(1), of q]
    by (cases "q \<in> Q") (simp_all add: agree_on_def)
  moreover have "q \<notin> R \<Longrightarrow> snd t s q = s q" for s q using on_qubitsD(3) [OF assms(1)] assms(2) by auto
  moreover have "agree_on R s s' \<Longrightarrow> fst t s = fst t s'" for s s'
    by (rule on_qubitsD(1) [OF assms(1)]) (rule calculation(1))
  ultimately have "on_qubits R (fst t, snd t)" by (intro on_qubitsI)
  then show ?thesis by simp
qed

lemma local_on_mono: "local_on Q f \<Longrightarrow> Q \<subseteq> R \<Longrightarrow> local_on R f"
  unfolding local_on_def using on_qubits_mono by blast

text \<open>One or two summands are all the operations need.\<close>

lemma local_onI:
  "(\<And>psi s. f psi s = c s * psi (u s)) \<Longrightarrow> on_qubits Q (c, u) \<Longrightarrow> local_on Q f"
  "(\<And>psi s. f psi s = c s * psi (u s) + c' s * psi (u' s)) \<Longrightarrow> on_qubits Q (c, u) \<Longrightarrow> on_qubits Q (c', u') \<Longrightarrow> local_on Q f"
  unfolding local_on_def
  by (rule exI [of _ "[(c, u)]"], simp add: summed_def fun_eq_iff)
    (rule exI [of _ "[(c, u), (c', u')]"], simp add: summed_def fun_eq_iff)

lemma local_id: "local_on Q (\<lambda>psi. psi)"
  by (rule local_onI(1) [of _ "\<lambda>s. 1" "\<lambda>s. s"]) (auto intro!: on_qubitsI simp: agree_on_def)

lemma local_apply1: "local_on {q} (apply1 M q)"
  by (rule local_onI(2) [of _ "\<lambda>s. M (s q) False" "\<lambda>s. s(q := False)" "\<lambda>s. M (s q) True" "\<lambda>s. s(q := True)"])
    (auto intro!: on_qubitsI simp: agree_on_def apply1_def)

lemma local_controlled: "local_on {c, t} (controlled M c t)"
  by (rule local_onI(2) [of _ "\<lambda>s. M (s c) (s t) False" "\<lambda>s. s(t := False)" "\<lambda>s. M (s c) (s t) True" "\<lambda>s. s(t := True)"])
    (auto intro!: on_qubitsI simp: agree_on_def apply1_def controlled_def)

lemma local_measured: "local_on {q} (measured q m)"
  by (rule local_onI(1) [of _ "\<lambda>s. if s q = m then 1 else 0" "\<lambda>s. s"])
    (auto intro!: on_qubitsI simp: agree_on_def measured_def)

lemma local_reset: "local_on {q} (reset_qubit q m)"
  by (rule local_onI(1) [of _ "\<lambda>s. if s q then 0 else 1" "\<lambda>s. s(q := m)"])
    (auto intro!: on_qubitsI simp: agree_on_def reset_qubit_def)

lemma local_epr_pair: "local_on {a, b} (epr_pair a b)"
  by (rule local_onI(1) [of _ "\<lambda>s. if s a = s b then half_root else 0" "\<lambda>s. s(a := False, b := False)"])
    (simp add: epr_pair_def, rule on_qubitsI, auto simp: agree_on_def split: if_splits)

lemmas local_commands = local_id local_apply1 local_controlled local_measured local_reset

section \<open>Moves\<close>

text \<open>What a party does next, apart from the rest of the network.\<close>

datatype 'a move =
    Locally "qstate \<Rightarrow> qstate" "'a routine"
  | Sending string string "'a routine"
  | Receiving string "string \<Rightarrow> 'a routine"
  | Pairing string int "'a routine"

fun command_move :: "int \<Rightarrow> sdk_command \<Rightarrow> sdk_command list \<Rightarrow> int list \<Rightarrow> (int list \<Rightarrow> 'a routine) \<Rightarrow> 'a move option" where
  "command_move m (EprCreate peer q) cs res k = Some (Pairing peer q (next_command cs res k))"
| "command_move m (EprRecv peer q) cs res k = None"
| "command_move m (DoInit q) cs res k = Some (Locally (reset_qubit q False) (next_command cs res k))"
| "command_move m (DoX q) cs res k = Some (Locally (apply1 gate_X q) (next_command cs res k))"
| "command_move m (DoZ q) cs res k = Some (Locally (apply1 gate_Z q) (next_command cs res k))"
| "command_move m (DoH q) cs res k = Some (Locally (apply1 gate_H q) (next_command cs res k))"
| "command_move m (DoRotY a q) cs res k = Some (Locally (apply1 (gate_RY a) q) (next_command cs res k))"
| "command_move m (DoRotZ a q) cs res k = Some (Locally (apply1 (gate_RZ a) q) (next_command cs res k))"
| "command_move m (DoCnot c t) cs res k = Some (Locally (cnot c t) (next_command cs res k))"
| "command_move m (DoCphase c t) cs res k = Some (Locally (cphase c t) (next_command cs res k))"
| "command_move m (DoMeas q) cs res k =
     (if m = 0 \<or> m = 1 then Some (Locally (measured q (m = 1)) (next_command cs (res @ [m]) k)) else None)"

fun move_of :: "int \<Rightarrow> 'a routine \<Rightarrow> 'a move option" where
  "move_of m (Flushing [] res k) = Some (Locally (\<lambda>psi. psi) (k res))"
| "move_of m (Flushing (c # cs) res k) = command_move m c cs res k"
| "move_of m (SendMsg peer msg r) = Some (Sending peer msg r)"
| "move_of m (RecvMsg peer k) = Some (Receiving peer k)"
| "move_of m (Returned x) = None"
| "move_of m (Failed e) = None"

text \<open>The qubit a party offers to a creator, with what it does next.\<close>

fun offers :: "'a routine \<Rightarrow> (string \<times> int \<times> 'a routine) option" where
  "offers (Flushing (EprRecv p q # cs) res k) = Some (p, q, next_command cs res k)"
| "offers _ = None"

fun do_move :: "string \<Rightarrow> 'a move \<Rightarrow> 'a qnet \<Rightarrow> 'a qnet option" where
  "do_move p (Locally f r) net = Some (net\<lparr>progs := (progs net)(p := r), amps := f (amps net)\<rparr>)"
| "do_move p (Sending peer msg r) net =
     Some (net\<lparr>progs := (progs net)(p := r), chan := (chan net)((p, peer) := chan net (p, peer) @ [msg])\<rparr>)"
| "do_move p (Receiving peer k) net =
     (case chan net (peer, p) of [] \<Rightarrow> None
      | msg # rest \<Rightarrow> Some (net\<lparr>progs := (progs net)(p := k msg), chan := (chan net)((peer, p) := rest)\<rparr>))"
| "do_move p (Pairing peer q r) net =
     (case offers (progs net peer) of
        Some (p', q', r') \<Rightarrow>
          if p' = p \<and> peer \<noteq> p then
            Some (net\<lparr>progs := (progs net)(p := r, peer := r'), amps := epr_pair q q' (amps net)\<rparr>)
          else None
      | None \<Rightarrow> None)"

lemma party_step_move: "party_step p m net = Option.bind (move_of m (progs net p)) (\<lambda>mv. do_move p mv net)"
proof -
  have "command_step p m c cs res k net = Option.bind (command_move m c cs res k) (\<lambda>mv. do_move p mv net)" for c cs res k
    by (cases c) (auto simp: gate_step_def split: routine.splits list.splits sdk_command.splits)
  then show ?thesis
    unfolding party_step_def by (cases "(m, progs net p)" rule: move_of.cases) (auto split: list.splits)
qed

section \<open>Ownership\<close>

fun qubits_of :: "sdk_command \<Rightarrow> int set" where
  "qubits_of (EprCreate peer q) = {q}"
| "qubits_of (EprRecv peer q) = {q}"
| "qubits_of (DoInit q) = {q}"
| "qubits_of (DoX q) = {q}"
| "qubits_of (DoZ q) = {q}"
| "qubits_of (DoH q) = {q}"
| "qubits_of (DoRotY a q) = {q}"
| "qubits_of (DoRotZ a q) = {q}"
| "qubits_of (DoCnot c t) = {c, t}"
| "qubits_of (DoCphase c t) = {c, t}"
| "qubits_of (DoMeas q) = {q}"

text \<open>A program that only ever acts on the qubits in \<open>Q\<close>.\<close>

primrec acts_on :: "int set \<Rightarrow> 'a routine \<Rightarrow> bool" where
  "acts_on Q (Returned x) = True"
| "acts_on Q (Failed e) = True"
| "acts_on Q (Flushing cs res k) = ((\<forall>c \<in> set cs. qubits_of c \<subseteq> Q) \<and> (\<forall>ms. acts_on Q (k ms)))"
| "acts_on Q (SendMsg peer msg r) = acts_on Q r"
| "acts_on Q (RecvMsg peer k) = (\<forall>msg. acts_on Q (k msg))"

lemma acts_on_orFail [intro]: "(\<And>x. acts_on Q (k x)) \<Longrightarrow> acts_on Q (orFail r k)"
  by (simp add: orFail_def split: sum.split)

lemma acts_on_flush [intro]:
  "(\<And>c. c \<in> set cs \<Longrightarrow> qubits_of c \<subseteq> Q) \<Longrightarrow> (\<And>ms. acts_on Q (k ms)) \<Longrightarrow> acts_on Q (flush cs k)"
  by (simp add: flush_def)

definition owned :: "(string \<Rightarrow> int set) \<Rightarrow> 'a qnet \<Rightarrow> bool" where
  "owned Q net \<longleftrightarrow> (\<forall>p. acts_on (Q p) (progs net p)) \<and> (\<forall>p p'. p \<noteq> p' \<longrightarrow> Q p \<inter> Q p' = {})"

lemma acts_on_next: "acts_on Q (Flushing cs res k) \<Longrightarrow> acts_on Q (next_command cs res' k)"
  by (cases cs) auto

text \<open>What a move may do, given the qubits of its party.\<close>

fun move_on :: "int set \<Rightarrow> 'a move \<Rightarrow> bool" where
  "move_on Q (Locally f r) = (local_on Q f \<and> acts_on Q r)"
| "move_on Q (Sending peer msg r) = acts_on Q r"
| "move_on Q (Receiving peer k) = (\<forall>msg. acts_on Q (k msg))"
| "move_on Q (Pairing peer q r) = (q \<in> Q \<and> acts_on Q r)"

lemma move_of_on: "move_of m r = Some mv \<Longrightarrow> acts_on Q r \<Longrightarrow> move_on Q mv"
proof (cases "(m, r)" rule: move_of.cases)
  case (1 m' res k)
  assume "move_of m r = Some mv" "acts_on Q r"
  then show ?thesis using 1 by (auto simp: local_id)
next
  case (2 m' c cs res k)
  assume mv: "move_of m r = Some mv" and on: "acts_on Q r"
  then have c: "qubits_of c \<subseteq> Q" and n: "\<And>res. acts_on Q (next_command cs res k)"
    using 2 acts_on_next [of Q cs res k] by (auto intro: acts_on_next [of Q cs res k])
  show ?thesis using mv 2 c n
    by (cases c) (auto intro: local_commands [THEN local_on_mono] simp: cnot_def cphase_def split: if_splits)
qed auto

lemma offers_on: "offers r = Some (p, q, r') \<Longrightarrow> acts_on Q r \<Longrightarrow> q \<in> Q \<and> acts_on Q r'"
  by (cases r rule: offers.cases) (auto intro: acts_on_next)

lemma owned_step:
  assumes "owned Q net" and "party_step p m net = Some net'"
  shows "owned Q net'"
proof -
  obtain mv where mv: "move_of m (progs net p) = Some mv" "do_move p mv net = Some net'"
    using assms(2) by (auto simp: party_step_move split: bind_splits)
  have on: "move_on (Q p) mv" using move_of_on [OF mv(1)] assms(1) by (simp add: owned_def)
  have off: "offers (progs net p') = Some (p'', q, r) \<Longrightarrow> acts_on (Q p') r" for p' p'' q r
    using offers_on assms(1) unfolding owned_def by blast
  show ?thesis
    using mv(2) on assms(1) off
    by (cases mv) (auto simp: owned_def split: list.splits option.splits if_splits)
qed

section \<open>Steps of different parties commute\<close>

lemma no_offer: "move_of m r = Some mv \<Longrightarrow> offers r = None"
  by (cases r rule: offers.cases) auto

lemma do_moves_commute:
  assumes "p \<noteq> p'" and own: "owned Q net"
    and mv: "move_of m (progs net p) = Some mv" "do_move p mv net = Some n1"
    and mv': "move_of m' (progs net p') = Some mv'" "do_move p' mv' net = Some n2"
  shows "progs n1 p' = progs net p'" and "\<exists>n3. do_move p' mv' n1 = Some n3 \<and> do_move p mv n2 = Some n3"
proof -
  have on: "move_on (Q p) mv" "move_on (Q p') mv'"
    using move_of_on mv(1) mv'(1) own unfolding owned_def by blast+
  have off: "q \<in> Q x" if "offers (progs net x) = Some (y, q, r)" for x y q r
    using offers_on [OF that] own by (auto simp: owned_def)
  have no: "offers (progs net p) = None" "offers (progs net p') = None"
    using no_offer mv(1) mv'(1) by blast+
  have dis: "Q x \<inter> Q y = {}" if "x \<noteq> y" for x y using own that by (auto simp: owned_def)
  have ll: "f (g psi) = g (f psi)" if "local_on (Q p) f" "local_on (Q p') g" for f g psi
    by (rule local_on_commute [OF that dis [OF assms(1)]])
  obtain pr ch am where net: "net = \<lparr>progs = pr, chan = ch, amps = am\<rparr>" by (cases net)
  have le: "epr_pair q q' (f am) b = f (epr_pair q q' am) b"
    if "offers (pr x) = Some (y, q', r)" "local_on (Q w) f" "x \<noteq> w" "z \<noteq> w" "q \<in> Q z" for f x y z w q q' r b
  proof (rule fun_cong [OF local_on_commute [OF local_epr_pair that(2)]])
    show "{q, q'} \<inter> Q w = {}" using that off [of x y q' r] dis [of x w] dis [of z w] by (auto simp: net)
  qed
  have ee: "epr_pair q q' (epr_pair r r' am) b = epr_pair r r' (epr_pair q q' am) b"
    if "offers (pr x) = Some (v, q', t)" "q \<in> Q y" "offers (pr z) = Some (v', r', t')" "r \<in> Q w"
       "x \<noteq> z" "x \<noteq> w" "y \<noteq> z" "y \<noteq> w" for q q' r r' x y z w b t t' v v'
  proof (rule fun_cong [OF local_on_commute [OF local_epr_pair local_epr_pair]])
    show "{q, q'} \<inter> {r, r'} = {}"
      using that off [of x v q' t] off [of z v' r' t'] dis [of x z] dis [of x w] dis [of y z] dis [of y w] by (auto simp: net)
  qed
  show "progs n1 p' = progs net p'"
    using mv(2) assms(1) no by (cases mv) (auto split: list.splits option.splits if_splits)
  note splits = list.splits option.splits if_splits
  show "\<exists>n3. do_move p' mv' n1 = Some n3 \<and> do_move p mv n2 = Some n3"
  proof (cases mv)
    case L: (Locally f r)
    note prem = L mv(2) mv'(2) on assms(1) assms(1) [symmetric] no
    show ?thesis
    proof (cases mv')
      case (Pairing peer q' r')
      then show ?thesis using prem
        by (auto simp: net fun_eq_iff split: splits)
          (rule le [where f = f and w = p and z = p']; (assumption | simp))
    qed (use prem in \<open>auto simp: net fun_eq_iff ll split: splits\<close>)
  next
    case (Sending peer msg r)
    then show ?thesis using mv(2) mv'(2) on assms(1) assms(1) [symmetric] no
      by (cases mv') (auto simp: net fun_eq_iff split: list.splits option.splits if_splits)
  next
    case (Receiving peer k)
    then show ?thesis using mv(2) mv'(2) on assms(1) assms(1) [symmetric] no
      by (cases mv') (auto simp: net fun_eq_iff split: list.splits option.splits if_splits)
  next
    case P: (Pairing peer q r)
    note prem = P mv(2) mv'(2) on assms(1) assms(1) [symmetric] no
    show ?thesis
    proof (cases mv')
      case (Locally f r')
      then show ?thesis using prem
        by (auto simp: net fun_eq_iff split: splits)
          (rule le [where f = f and w = p' and z = p]; (assumption | simp))
    next
      case (Pairing peer' q' r')
      then show ?thesis using prem
        by (auto simp: net fun_eq_iff split: splits) (rule ee [where x = peer' and z = peer and y = p' and w = p]; (assumption | simp))
    qed (use prem in \<open>auto simp: net fun_eq_iff split: splits\<close>)
  qed
qed

lemma steps_commute:
  assumes "p \<noteq> p'" and "owned Q net" and "party_step p m net = Some n1" and "party_step p' m' net = Some n2"
  shows "\<exists>n3. party_step p' m' n1 = Some n3 \<and> party_step p m n2 = Some n3"
proof -
  obtain mv mv' where mv: "move_of m (progs net p) = Some mv" "do_move p mv net = Some n1"
    and mv': "move_of m' (progs net p') = Some mv'" "do_move p' mv' net = Some n2"
    using assms(3,4) by (auto simp: party_step_move split: bind_splits)
  note c = do_moves_commute [OF assms(1,2) mv mv'] do_moves_commute(1) [OF assms(1) [symmetric] assms(2) mv' mv]
  show ?thesis using c mv(1) mv'(1) by (simp add: party_step_move)
qed

text \<open>Whether a party can act does not depend on the outcome asked for, and another party's step leaves its choices.\<close>

lemma step_any_outcome:
  assumes "party_step p m net = Some n1" and "move_of m' (progs net p) \<noteq> None"
  shows "party_step p m' net \<noteq> None"
proof (cases "progs net p")
  case (Flushing cs res k)
  then show ?thesis
  proof (cases cs)
    case (Cons c cs')
    then show ?thesis using Flushing assms
      by (cases c) (auto simp: party_step_move split: option.splits if_splits)
  qed (use Flushing assms in \<open>auto simp: party_step_move\<close>)
qed (use assms in \<open>auto simp: party_step_move split: list.splits\<close>)

lemma step_still_there:
  assumes "p \<noteq> p'" and "owned Q net" and "party_step p m0 net = Some n0" and "party_step p' m' net = Some n2"
    and "party_step p m n2 = Some x"
  shows "\<exists>n1. party_step p m net = Some n1"
proof -
  obtain mv mv' where mv: "move_of m0 (progs net p) = Some mv" "do_move p mv net = Some n0"
    and mv': "move_of m' (progs net p') = Some mv'" "do_move p' mv' net = Some n2"
    using assms(3,4) by (auto simp: party_step_move split: bind_splits)
  have "progs n2 p = progs net p" by (rule do_moves_commute(1) [OF assms(1) [symmetric] assms(2) mv' mv])
  then have "move_of m (progs net p) \<noteq> None" using assms(5) by (auto simp: party_step_move split: bind_splits)
  from step_any_outcome [OF assms(3) this] show ?thesis by blast
qed

section \<open>One schedule for all\<close>

text \<open>
  By some schedule of at most \<open>n\<close> steps, which may depend on the outcomes so far, the network
  ends in a state in \<open>P\<close>, in which nobody acts any more.
\<close>

inductive completes :: "('a qnet \<Rightarrow> bool) \<Rightarrow> nat \<Rightarrow> 'a qnet \<Rightarrow> bool" for P where
  over: "P net \<Longrightarrow> (\<And>p m. party_step p m net = None) \<Longrightarrow> completes P n net"
| turn: "party_step p m0 net = Some n0 \<Longrightarrow> (\<And>m net'. party_step p m net = Some net' \<Longrightarrow> completes P n net')
     \<Longrightarrow> completes P (Suc n) net"

lemma completes_step:
  assumes "completes P n net" and "owned Q net" and "party_step p' m' net = Some other"
  shows "\<exists>n'. n = Suc n' \<and> completes P n' other"
  using assms
proof (induction arbitrary: p' m' other rule: completes.induct)
  case (over net n)
  then show ?case by simp
next
  case (turn p m0 net n0 n)
  show ?case
  proof (cases "p' = p")
    case True
    then show ?thesis using turn.hyps(2) turn.prems(2) by blast
  next
    case False
    then have ne: "p \<noteq> p'" by simp
    have go: "\<exists>n'. n = Suc n' \<and> (\<exists>n3. party_step p m other = Some n3 \<and> completes P n' n3)"
      if m: "party_step p m net = Some n1" for m n1
    proof -
      from steps_commute [OF ne turn.prems(1) m turn.prems(2)]
      obtain n3 where n3: "party_step p' m' n1 = Some n3" "party_step p m other = Some n3" by blast
      from turn.IH [OF m owned_step [OF turn.prems(1) m] n3(1)] n3(2) show ?thesis by blast
    qed
    from go [OF turn.hyps(1)] obtain n' n3 where n': "n = Suc n'" "party_step p m0 other = Some n3" by blast
    have "completes P n' x" if x: "party_step p m other = Some x" for m x
    proof -
      from step_still_there [OF ne turn.prems(1) turn.hyps(1) turn.prems(2) x]
      obtain n1 where "party_step p m net = Some n1" by blast
      from go [OF this] x n'(1) show ?thesis by auto
    qed
    with completes.turn [OF n'(2), of P n'] n'(1) show ?thesis by blast
  qed
qed

theorem any_order:
  assumes "completes P n start" and "owned Q start" and "network_run start k net"
  shows "k \<le> n \<and> completes P (n - k) net"
proof -
  have "k \<le> n \<and> owned Q net \<and> completes P (n - k) net"
    using assms(3)
  proof (induction rule: network_run.induct)
    case nr_refl
    then show ?case using assms(1,2) by simp
  next
    case (nr_step k net p m net')
    then obtain n' where "n - k = Suc n'" "completes P n' net'"
      using completes_step [of P "n - k" net Q p m net'] by blast
    moreover have "owned Q net'" using owned_step nr_step by blast
    ultimately show ?case by (metis Suc_diff_Suc Suc_leI diff_Suc_1 zero_less_Suc zero_less_diff)
  qed
  then show ?thesis by simp
qed

lemma completes_Suc: "completes P n net \<Longrightarrow> completes P (Suc n) net"
proof (induction rule: completes.induct)
  case (over net n)
  then show ?case by (rule completes.over)
next
  case (turn p m0 net n0 n)
  show ?case using turn.hyps(1) turn.IH by (rule completes.turn)
qed

end
