(* ===== verification/Schedules.thy ===== *)
theory Schedules
  imports AnyOrder
begin

text \<open>
  Schedules, by which a network is led through its actions: what holds at the end of one holds
  at the end of every order of actions.
\<close>

section \<open>Playing a schedule\<close>

text \<open>
  A schedule as a list of parties, each to act if it can; \<open>P\<close> holds at its end, for all
  outcomes of the measurements on the way.
\<close>

fun plays :: "('a qnet \<Rightarrow> bool) \<Rightarrow> string list \<Rightarrow> 'a qnet \<Rightarrow> bool" where
  "plays P [] net \<longleftrightarrow> P net \<and> (\<forall>p m. party_step p m net = None)"
| "plays P (p # ps) net \<longleftrightarrow> (if party_step p 0 net = None then plays P ps net
     else \<forall>m. case party_step p m net of None \<Rightarrow> True | Some net' \<Rightarrow> plays P ps net')"

lemma plays_completes: "plays P ps net \<Longrightarrow> completes P (length ps) net"
proof (induction ps arbitrary: net)
  case Nil
  then show ?case by (auto intro: completes.over)
next
  case (Cons p ps)
  show ?case
  proof (cases "party_step p 0 net")
    case None
    then show ?thesis using Cons completes_Suc by auto
  next
    case (Some n0)
    have "completes P (length ps) net'" if "party_step p m net = Some net'" for m net'
      using Cons.prems Some Cons.IH [of net'] that by (auto dest!: spec [of _ m])
    from completes.turn [OF Some this] show ?thesis by simp
  qed
qed

lemma step_outcome_0: "party_step p m net = Some net' \<Longrightarrow> party_step p 0 net \<noteq> None"
proof (rule step_any_outcome)
  assume s: "party_step p m net = Some net'"
  show "move_of 0 (progs net p) \<noteq> None"
  proof (cases "progs net p")
    case (Flushing cs res k)
    then show ?thesis
    proof (cases cs)
      case (Cons c cs')
      then show ?thesis using Flushing s by (cases c) (auto simp: party_step_move)
    qed simp
  qed (use s in \<open>auto simp: party_step_move\<close>)
qed

theorem schedule_independence:
  assumes "plays P ps start" and "owned Q start" and "network_run start k net"
  shows "k \<le> length ps \<and> (P net \<or> (\<exists>p net'. party_step p 0 net = Some net'))"
proof -
  have k: "k \<le> length ps" "completes P (length ps - k) net"
    using any_order [OF plays_completes [OF assms(1)] assms(2,3)] by simp_all
  from k(2) have "P net \<or> (\<exists>p net'. party_step p 0 net = Some net')"
  proof cases
    case (turn p m0 n0 n)
    then show ?thesis using step_outcome_0 [of p m0 net n0] by auto
  qed simp
  with k(1) show ?thesis by simp
qed

text \<open>A part of a schedule, to a state in \<open>R\<close> from which others go on.\<close>

fun reaches :: "('a qnet \<Rightarrow> bool) \<Rightarrow> string list \<Rightarrow> 'a qnet \<Rightarrow> bool" where
  "reaches R [] net \<longleftrightarrow> R net"
| "reaches R (p # ps) net \<longleftrightarrow> (if party_step p 0 net = None then reaches R ps net
     else \<forall>m. case party_step p m net of None \<Rightarrow> True | Some net' \<Rightarrow> reaches R ps net')"

lemma reaches_append: "reaches R (ps @ qs) net \<longleftrightarrow> reaches (reaches R qs) ps net"
  by (induction ps arbitrary: net) (auto split: option.splits)

lemma reaches_plays: "plays P ps net \<longleftrightarrow> reaches (\<lambda>net. P net \<and> (\<forall>p m. party_step p m net = None)) ps net"
  by (induction ps arbitrary: net) (auto split: option.splits)

lemma reaches_mono: "reaches R ps net \<Longrightarrow> (\<And>net. R net \<Longrightarrow> R' net) \<Longrightarrow> reaches R' ps net"
  by (induction ps arbitrary: net) (auto split: option.splits if_splits)

lemma plays_append:
  assumes "reaches R ps net" and "\<And>net. R net \<Longrightarrow> plays P qs net"
  shows "plays P (ps @ qs) net"
  unfolding reaches_plays reaches_append
  by (rule reaches_mono [OF assms(1)]) (use assms(2) in \<open>simp add: reaches_plays\<close>)

lemma reaches_trans:
  assumes "reaches R ps net" and "\<And>net. R net \<Longrightarrow> reaches R' qs net"
  shows "reaches R' (ps @ qs) net"
  unfolding reaches_append by (rule reaches_mono [OF assms])

text \<open>A step of a schedule: without a choice, with a measurement, or skipped.\<close>

lemma reaches_det:
  "(\<And>m. party_step p m net = Some net') \<Longrightarrow> reaches R ps net' \<Longrightarrow> reaches R (p # ps) net"
  by simp

lemma reaches_meas:
  "(\<And>m. party_step p m net = (if m = 0 \<or> m = 1 then Some (f m) else None)) \<Longrightarrow> (\<And>m. bit m \<Longrightarrow> reaches R ps (f m))
     \<Longrightarrow> reaches R (p # ps) net"
  by (simp add: bit_def)

lemma reaches_skip: "(\<And>m. party_step p m net = None) \<Longrightarrow> reaches R ps net \<Longrightarrow> reaches R (p # ps) net"
  by simp

text \<open>A party that has returned does nothing more.\<close>

lemma returned_stays:
  assumes "party_step p m net = Some net'" and "progs net x = Returned v"
  shows "progs net' x = Returned v"
proof (cases "progs net p")
  case (Flushing cs res k)
  then show ?thesis
  proof (cases cs)
    case (Cons c cs')
    then show ?thesis using Flushing assms
      by (cases c) (auto simp: party_step_def gate_step_def split: if_splits routine.splits list.splits sdk_command.splits)
  qed (use assms in \<open>auto simp: party_step_def\<close>)
qed (use assms in \<open>auto simp: party_step_def split: list.splits\<close>)

lemma run_returned_stays: "network_run start k net \<Longrightarrow> progs start x = Returned v \<Longrightarrow> progs net x = Returned v"
  by (induction rule: network_run.induct) (auto intro: returned_stays)

section \<open>Two parties\<close>

lemma net2_owned:
  assumes "A \<noteq> B" and "acts_on Qa ra" and "acts_on Qb rb" and "Qa \<inter> Qb = {}"
  shows "owned ((\<lambda>_. {})(A := Qa, B := Qb)) (net2 A B ra rb ab ba psi)"
  using assms by (auto simp: owned_def net2_def)

lemma net2_over: "A \<noteq> B \<Longrightarrow> party_step p m (net2 A B (Returned x) (Returned y) ab ba psi) = None"
  by (cases "p = A"; cases "p = B") (auto simp: net2_steps net2_others)

text \<open>Nobody else ever acts.\<close>

lemma net2_actors:
  assumes "network_run (net2 A B ra rb ab ba psi) k net" and "party_step p m net = Some net'"
  shows "p = A \<or> p = B"
proof (rule ccontr)
  assume "\<not> (p = A \<or> p = B)"
  then have "progs (net2 A B ra rb ab ba psi) p = Returned NoValue" by (simp add: net2_def)
  from run_returned_stays [OF assms(1) this] assms(2) show False by (simp add: party_step_def)
qed

text \<open>A network that is one of \<open>f\<close>, given two outcomes.\<close>

definition some_bits :: "(int \<Rightarrow> int \<Rightarrow> routine_value qnet) \<Rightarrow> routine_value qnet \<Rightarrow> bool" where
  "some_bits f net \<longleftrightarrow> (\<exists>m m'. bit m \<and> bit m' \<and> net = f m m')"

lemma some_bitsI: "bit m \<Longrightarrow> bit m' \<Longrightarrow> f m m' = net \<Longrightarrow> some_bits f net"
  by (auto simp: some_bits_def)

text \<open>The quantifier over outcomes is that over the two outcomes.\<close>

lemma all_bits:
  "(\<forall>m. case (if m = 0 \<or> m = 1 then Some (f m) else None) of None \<Rightarrow> True | Some net' \<Rightarrow> X net')
     \<longleftrightarrow> (\<forall>m. bit m \<longrightarrow> X (f m))"
  by (simp add: bit_def)

text \<open>Playing by rewriting: programs are left alone until their turn comes.\<close>

lemma play_congs:
  "peer = peer' \<Longrightarrow> RecvMsg peer h = RecvMsg peer' h"
  "cs = cs' \<Longrightarrow> res = res' \<Longrightarrow> Flushing cs res k = Flushing cs' res' k"
  "msg = msg' \<Longrightarrow> SendMsg to msg r = SendMsg to msg' r"
  "ra = ra' \<Longrightarrow> rb = rb' \<Longrightarrow> ab = ab' \<Longrightarrow> ba = ba' \<Longrightarrow> net2 A B ra rb ab ba psi = net2 A B ra' rb' ab' ba' psi"
  by simp_all

end
