(* ===== verification/Teleport.thy ===== *)
theory Teleport
  imports Schedules
begin

text \<open>
  Teleportation between two parties: one schedule, the state at its end, and so the state at
  the end of every order of actions.
\<close>

section \<open>One schedule\<close>

definition tele_msg :: "int \<Rightarrow> int \<Rightarrow> string" where
  "tele_msg m1 m2 = py_str m1 @ '','' @ py_str m2"

definition tele_corrections :: "int \<Rightarrow> string \<Rightarrow> routine_value routine" where
  "tele_corrections epr msg =
     (case py_split (CHR '','') msg of
        [m1, m2] \<Rightarrow> orFail (py_int m2) (\<lambda>i2. orFail (py_int m1) (\<lambda>i1.
          flush ((if i2 = 1 then [DoX epr] else []) @ (if i1 = 1 then [DoZ epr] else []))
            (\<lambda>_. Returned (QubitValue epr))))
      | _ \<Rightarrow> Failed ValueError)"

lemma tele_corrections_msg:
  "tele_corrections epr (tele_msg m1 m2)
     = flush ((if m2 = 1 then [DoX epr] else []) @ (if m1 = 1 then [DoZ epr] else [])) (\<lambda>_. Returned (QubitValue epr))"
  using py_split_append [OF comma_not_in_py_str, of m1 "py_str m2"] py_split_no_sep [OF comma_not_in_py_str, of m2]
  by (simp add: tele_corrections_def orFail_def tele_msg_def)

text \<open>The amplitudes once the sender's two qubits are measured.\<close>

definition tele_amps :: "int \<Rightarrow> int \<Rightarrow> int \<Rightarrow> qstate \<Rightarrow> qstate" where
  "tele_amps q a b psi = apply1 gate_H q (cnot q a (epr_pair a b psi))"

definition tele_measured :: "int \<Rightarrow> int \<Rightarrow> int \<Rightarrow> int \<Rightarrow> int \<Rightarrow> qstate \<Rightarrow> qstate" where
  "tele_measured q a b m1 m2 psi = measured a (m2 = 1) (measured q (m1 = 1) (tele_amps q a b psi))"

definition teleport_net ::
    "string \<Rightarrow> string \<Rightarrow> program_context \<Rightarrow> program_context \<Rightarrow> int \<Rightarrow> int \<Rightarrow> int \<Rightarrow> qstate \<Rightarrow> routine_value qnet" where
  "teleport_net A B ca cb q a b psi = net2 A B (teleport_send q ca B a) (teleport_recv cb A b) [] [] psi"

definition tele_sent :: "string \<Rightarrow> string \<Rightarrow> int \<Rightarrow> int \<Rightarrow> int \<Rightarrow> qstate \<Rightarrow> routine_value qnet \<Rightarrow> bool" where
  "tele_sent A B q a b psi net \<longleftrightarrow> (\<exists>m1 m2. bit m1 \<and> bit m2
     \<and> net = net2 A B (Returned NoValue) (RecvMsg A (tele_corrections b)) [tele_msg m1 m2] [] (tele_measured q a b m1 m2 psi))"

definition tele_done :: "string \<Rightarrow> string \<Rightarrow> int \<Rightarrow> int \<Rightarrow> int \<Rightarrow> qstate \<Rightarrow> routine_value qnet \<Rightarrow> bool" where
  "tele_done A B q a b psi net \<longleftrightarrow> (\<exists>m1 m2. bit m1 \<and> bit m2 \<and> net = net2 A B (Returned NoValue) (Returned (QubitValue b)) [] []
      ((if m1 = 1 then apply1 gate_Z b else (\<lambda>x. x)) ((if m2 = 1 then apply1 gate_X b else (\<lambda>x. x))
         (tele_measured q a b m1 m2 psi))))"

lemma teleport_net_programs:
  assumes "has_sockets ca B" and "has_sockets cb A"
  shows "teleport_net A B ca cb q a b psi = net2 A B
      (Flushing [EprCreate B a, DoCnot q a, DoH q, DoMeas q, DoMeas a] []
        (\<lambda>ms. SendMsg B (tele_msg (ms ! 0) (ms ! 1)) (Returned NoValue)))
      (Flushing [EprRecv A b] [] (\<lambda>_. RecvMsg A (tele_corrections b))) [] [] psi"
  using assms unfolding teleport_net_def teleport_send_def teleport_recv_def tele_msg_def
    tele_corrections_def [abs_def] has_sockets_def sockets_of_def flush_def by simp

lemma teleport_plays:
  assumes "A \<noteq> B" and "has_sockets ca B" and "has_sockets cb A"
  shows "plays (tele_done A B q a b psi) (replicate 6 A @ replicate 3 B) (teleport_net A B ca cb q a b psi)"
proof (rule plays_append [where R = "tele_sent A B q a b psi"])
  show "reaches (tele_sent A B q a b psi) (replicate 6 A) (teleport_net A B ca cb q a b psi)"
    unfolding teleport_net_programs [OF assms(2,3)] using assms(1)
    by (simp add: net2_steps all_bits eval_nat_numeral cong: play_congs)
      (simp add: tele_sent_def tele_measured_def tele_amps_def, blast)
next
  fix net assume "tele_sent A B q a b psi net"
  then obtain m1 m2 where m: "bit m1" "bit m2" and net: "net = net2 A B (Returned NoValue)
      (RecvMsg A (tele_corrections b)) [tele_msg m1 m2] [] (tele_measured q a b m1 m2 psi)"
    unfolding tele_sent_def by blast
  have "tele_done A B q a b psi (net2 A B (Returned NoValue) (Returned (QubitValue b)) [] []
      ((if m1 = 1 then apply1 gate_Z b else (\<lambda>x. x)) ((if m2 = 1 then apply1 gate_X b else (\<lambda>x. x))
         (tele_measured q a b m1 m2 psi))))"
    unfolding tele_done_def using m by blast
  then show "plays (tele_done A B q a b psi) (replicate 3 B) net"
    unfolding net using assms(1)
    by (cases "m1 = 1"; cases "m2 = 1") (simp_all add: net2_steps tele_corrections_msg flush_def net2_over eval_nat_numeral)
qed

lemma teleport_owned:
  assumes "A \<noteq> B" and "distinct [q, a, b]"
  shows "owned ((\<lambda>_. {})(A := {q, a}, B := {b})) (teleport_net A B ca cb q a b psi)"
  unfolding teleport_net_def
  by (rule net2_owned [OF assms(1)])
    (use assms(2) in \<open>auto simp: teleport_send_def teleport_recv_def sockets_of_def intro!: acts_on_flush acts_on_orFail split: list.split\<close>)

section \<open>The amplitudes at the end\<close>

lemma tele_amps_eq:
  assumes "distinct [q, a, b]"
  shows "tele_amps q a b psi = (\<lambda>s. (if s q \<and> s a \<noteq> s b then - (1 / 2) else 1 / 2)
     * psi (s(q := s a \<noteq> s b, a := False, b := False)))"
proof
  fix s :: "int \<Rightarrow> bool"
  show "tele_amps q a b psi s = (if s q \<and> s a \<noteq> s b then - (1 / 2) else 1 / 2)
     * psi (s(q := s a \<noteq> s b, a := False, b := False))"
    using assms by (cases "s q"; cases "s a"; cases "s b") (auto simp: tele_amps_def gate_defs fun_upd_twist [of a q] fun_upd_twist [of b q])
qed

lemma tele_final:
  assumes "distinct [q, a, b]" and "bit m1" and "bit m2"
  shows "(if m1 = 1 then apply1 gate_Z b else (\<lambda>x. x)) ((if m2 = 1 then apply1 gate_X b else (\<lambda>x. x))
         (tele_measured q a b m1 m2 psi))
     = (\<lambda>s. if s q = (m1 = 1) \<and> s a = (m2 = 1) then 1 / 2 * psi (s(q := s b, a := False, b := False)) else 0)"
proof
  fix s :: "int \<Rightarrow> bool"
  have b: "s(b := False, q := x, a := False, b := y) = s(q := x, a := False, b := y)"
    "s(b := True, q := x, a := False, b := y) = s(q := x, a := False, b := y)" for x y
    using assms(1) by auto
  show "(if m1 = 1 then apply1 gate_Z b else (\<lambda>x. x)) ((if m2 = 1 then apply1 gate_X b else (\<lambda>x. x))
         (tele_measured q a b m1 m2 psi)) s
     = (if s q = (m1 = 1) \<and> s a = (m2 = 1) then 1 / 2 * psi (s(q := s b, a := False, b := False)) else 0)"
    using assms by (cases "s q"; cases "s a"; cases "s b")
      (auto simp: tele_measured_def tele_amps_eq apply1_def gate_X_def gate_Z_def measured_def bit_def b)
qed

end
