(* ===== verification/DistributedGate.thy ===== *)
theory DistributedGate
  imports Teleport
begin

text \<open>
  Distributed gates between two parties: one schedule, and the state at the end of every order
  of actions.  The CNOT and the CPhase differ only in the gate the target's node applies,
  which is a parameter here.
\<close>

definition dist_fix :: "int \<Rightarrow> string \<Rightarrow> routine_value routine" where
  "dist_fix c msg = flush (if msg = ''1'' then [DoZ c] else []) (\<lambda>_. Returned NoValue)"

definition dist_ctrl_end :: "string \<Rightarrow> int \<Rightarrow> int list \<Rightarrow> routine_value routine" where
  "dist_ctrl_end peer c ms = SendMsg peer (py_str (ms ! 0)) (RecvMsg peer (dist_fix c))"

definition dist_target_end :: "string \<Rightarrow> int list \<Rightarrow> routine_value routine" where
  "dist_target_end peer ms = SendMsg peer (py_str (ms ! 0)) (Returned NoValue)"

definition dist_target :: "(int \<Rightarrow> int \<Rightarrow> sdk_command) \<Rightarrow> string \<Rightarrow> int \<Rightarrow> int \<Rightarrow> string \<Rightarrow> routine_value routine" where
  "dist_target cmd peer t b m =
     flush ((if m = ''1'' then [DoX b] else []) @ [cmd b t, DoH b, DoMeas b]) (dist_target_end peer)"

text \<open>The gate a command stands for.\<close>

definition two_qubit_command :: "(int \<Rightarrow> int \<Rightarrow> sdk_command) \<Rightarrow> (int \<Rightarrow> int \<Rightarrow> qstate \<Rightarrow> qstate) \<Rightarrow> bool" where
  "two_qubit_command cmd op \<longleftrightarrow> (\<forall>p m q r cs res k (net :: routine_value qnet).
     command_step p m (cmd q r) cs res k net = Some (gate_step p cs res k (op q r (amps net)) net))"

lemma two_qubit_commands: "two_qubit_command DoCnot cnot" "two_qubit_command DoCphase cphase"
  by (simp_all add: two_qubit_command_def)

text \<open>The amplitudes after the control's measurement, the target's gates and its measurement.\<close>

definition dist_ctrl_amps :: "int \<Rightarrow> int \<Rightarrow> int \<Rightarrow> int \<Rightarrow> qstate \<Rightarrow> qstate" where
  "dist_ctrl_amps c a b m psi = measured a (m = 1) (cnot c a (epr_pair a b psi))"

definition flipped :: "int \<Rightarrow> int \<Rightarrow> qstate \<Rightarrow> qstate" where
  "flipped m b psi = (if m = 1 then apply1 gate_X b psi else psi)"

definition dist_amps ::
    "(int \<Rightarrow> int \<Rightarrow> qstate \<Rightarrow> qstate) \<Rightarrow> int \<Rightarrow> int \<Rightarrow> int \<Rightarrow> int \<Rightarrow> int \<Rightarrow> qstate \<Rightarrow> qstate" where
  "dist_amps op c t a b m psi = apply1 gate_H b (op b t (flipped m b (dist_ctrl_amps c a b m psi)))"

lemma py_str_one: "py_str m = ''1'' \<longleftrightarrow> m = 1"
  using py_str_inject [of m 1] by simp

section \<open>One schedule\<close>

definition dist_start ::
    "(int \<Rightarrow> int \<Rightarrow> sdk_command) \<Rightarrow> string \<Rightarrow> string \<Rightarrow> int \<Rightarrow> int \<Rightarrow> int \<Rightarrow> int \<Rightarrow> qstate \<Rightarrow> routine_value qnet" where
  "dist_start cmd A B c t a b psi = net2 A B (Flushing [EprCreate B a, DoCnot c a, DoMeas a] [] (dist_ctrl_end B c))
     (Flushing [EprRecv A b] [] (\<lambda>_. RecvMsg A (dist_target cmd A t b))) [] [] psi"

definition dist_sent ::
    "(int \<Rightarrow> int \<Rightarrow> sdk_command) \<Rightarrow> string \<Rightarrow> string \<Rightarrow> int \<Rightarrow> int \<Rightarrow> int \<Rightarrow> int \<Rightarrow> qstate \<Rightarrow> routine_value qnet \<Rightarrow> bool" where
  "dist_sent cmd A B c t a b psi net \<longleftrightarrow> (\<exists>m. bit m \<and> net = net2 A B (RecvMsg B (dist_fix c))
     (RecvMsg A (dist_target cmd A t b)) [py_str m] [] (dist_ctrl_amps c a b m psi))"

definition dist_answered ::
    "(int \<Rightarrow> int \<Rightarrow> qstate \<Rightarrow> qstate) \<Rightarrow> string \<Rightarrow> string \<Rightarrow> int \<Rightarrow> int \<Rightarrow> int \<Rightarrow> int \<Rightarrow> qstate \<Rightarrow> routine_value qnet \<Rightarrow> bool" where
  "dist_answered op A B c t a b psi net \<longleftrightarrow> (\<exists>m m'. bit m \<and> bit m' \<and> net = net2 A B (RecvMsg B (dist_fix c))
     (Returned NoValue) [] [py_str m'] (measured b (m' = 1) (dist_amps op c t a b m psi)))"

definition dist_done ::
    "(int \<Rightarrow> int \<Rightarrow> qstate \<Rightarrow> qstate) \<Rightarrow> string \<Rightarrow> string \<Rightarrow> int \<Rightarrow> int \<Rightarrow> int \<Rightarrow> int \<Rightarrow> qstate \<Rightarrow> routine_value qnet \<Rightarrow> bool" where
  "dist_done op A B c t a b psi net \<longleftrightarrow> (\<exists>m m'. bit m \<and> bit m' \<and> net = net2 A B (Returned NoValue) (Returned NoValue) [] []
     ((if m' = 1 then apply1 gate_Z c else (\<lambda>x. x)) (measured b (m' = 1) (dist_amps op c t a b m psi))))"

lemma dist_sends:
  assumes "A \<noteq> B"
  shows "reaches (dist_sent cmd A B c t a b psi) (replicate 4 A) (dist_start cmd A B c t a b psi)"
  unfolding dist_start_def using assms
  by (simp add: dist_ctrl_end_def net2_steps all_bits eval_nat_numeral cong: play_congs)
    (simp add: dist_sent_def dist_ctrl_amps_def, blast)

lemma dist_answers:
  assumes "A \<noteq> B" and cmd: "two_qubit_command cmd op" and "dist_sent cmd A B c t a b psi net"
  shows "reaches (dist_answered op A B c t a b psi) (replicate 6 B) net"
proof -
  from assms(3) obtain m where m: "bit m" and net: "net = net2 A B (RecvMsg B (dist_fix c))
     (RecvMsg A (dist_target cmd A t b)) [py_str m] [] (dist_ctrl_amps c a b m psi)" unfolding dist_sent_def by blast
  have op: "command_step p k (cmd q r) cs res K net = Some (gate_step p cs res K (op q r (amps net)) net)"
    for p k q r cs res K and net :: "routine_value qnet" using cmd by (simp add: two_qubit_command_def)
  have fin: "dist_answered op A B c t a b psi (net2 A B (RecvMsg B (dist_fix c)) (Returned NoValue) [] [py_str m']
     (measured b (m' = 1) (dist_amps op c t a b m psi)))" if "bit m'" for m'
    unfolding dist_answered_def using m that by blast
  note sim = dist_target_def dist_target_end_def flush_def py_str_one net2_steps op all_bits eval_nat_numeral
  show ?thesis
  proof (cases "m = 1")
    case True
    from fin [unfolded dist_amps_def flipped_def True if_P [OF refl]] show ?thesis
      unfolding net True using assms(1) by (simp add: sim cong: play_congs)
  next
    case False
    from fin [unfolded dist_amps_def flipped_def if_not_P [OF False]] show ?thesis
      unfolding net using assms(1) False by (simp add: sim cong: play_congs)
  qed
qed

lemma dist_fixes:
  assumes "A \<noteq> B" and "dist_answered op A B c t a b psi net"
  shows "plays (dist_done op A B c t a b psi) (replicate 2 A) net"
proof -
  from assms(2) obtain m m' where m: "bit m" "bit m'" and net: "net = net2 A B (RecvMsg B (dist_fix c))
     (Returned NoValue) [] [py_str m'] (measured b (m' = 1) (dist_amps op c t a b m psi))" unfolding dist_answered_def by blast
  have "dist_done op A B c t a b psi (net2 A B (Returned NoValue) (Returned NoValue) [] []
     ((if m' = 1 then apply1 gate_Z c else (\<lambda>x. x)) (measured b (m' = 1) (dist_amps op c t a b m psi))))"
    unfolding dist_done_def using m by blast
  then show ?thesis
    unfolding net using assms(1)
    by (cases "m' = 1") (simp_all add: dist_fix_def flush_def py_str_one net2_steps net2_over eval_nat_numeral)
qed

lemma dist_plays:
  assumes "A \<noteq> B" and "two_qubit_command cmd op"
  shows "plays (dist_done op A B c t a b psi) (replicate 4 A @ replicate 6 B @ replicate 2 A) (dist_start cmd A B c t a b psi)"
  by (rule plays_append [OF dist_sends [OF assms(1)]], rule plays_append [OF dist_answers [OF assms]], assumption,
      rule dist_fixes [OF assms(1)])

lemma dist_owned:
  assumes "A \<noteq> B" and "distinct [c, t, a, b]" and "qubits_of (cmd b t) = {b, t}"
  shows "owned ((\<lambda>_. {})(A := {c, a}, B := {t, b})) (dist_start cmd A B c t a b psi)"
  unfolding dist_start_def
proof (rule net2_owned [OF assms(1)])
  have q: "qubits_of (cmd b t) \<subseteq> {t, b}" using assms(3) by simp
  show "acts_on {c, a} (Flushing [EprCreate B a, DoCnot c a, DoMeas a] [] (dist_ctrl_end B c))"
    by (simp add: dist_ctrl_end_def dist_fix_def flush_def)
  show "acts_on {t, b} (Flushing [EprRecv A b] [] (\<lambda>_. RecvMsg A (dist_target cmd A t b)))"
    by (simp add: dist_target_def dist_target_end_def flush_def q)
  show "{c, a} \<inter> {t, b} = {}" using assms(2) by auto
qed

section \<open>The amplitudes at the end\<close>

lemma dist_ctrl_final:
  assumes "distinct [c, a, b]" and "bit m"
  shows "flipped m b (dist_ctrl_amps c a b m psi)
     = (\<lambda>s. if s a = (m = 1) \<and> s c = s b then half_root * psi (s(a := False, b := False)) else 0)"
proof
  fix s :: "int \<Rightarrow> bool"
  have u: "s(b := x, a := False, b := False) = s(a := False, b := False)"
    "s(b := x, a := y, b := False) = s(a := y, b := False)" for x y using assms(1) by auto
  show "flipped m b (dist_ctrl_amps c a b m psi) s
     = (if s a = (m = 1) \<and> s c = s b then half_root * psi (s(a := False, b := False)) else 0)"
    using assms by (cases "s a"; cases "s b"; cases "s c")
      (auto simp: dist_ctrl_amps_def flipped_def gate_defs bit_def u)
qed

text \<open>Both gates are diagonal in their control, so either copy of its bit will do.\<close>

lemma dist_gate_copy:
  assumes "distinct [c, t, a, b]" and "op = cnot \<or> op = cphase"
  shows "op b t (\<lambda>s. if s a = x \<and> s c = s b then k * psi (s(a := False, b := False)) else 0)
     = (\<lambda>s. if s a = x \<and> s c = s b then k * op c t psi (s(a := False, b := False)) else 0)"
proof
  fix s :: "int \<Rightarrow> bool"
  have u: "s(t := y, a := False, b := False) = s(a := False, b := False, t := y)" for y
    using assms(1) by (auto simp: fun_eq_iff)
  show "op b t (\<lambda>s. if s a = x \<and> s c = s b then k * psi (s(a := False, b := False)) else 0) s
     = (if s a = x \<and> s c = s b then k * op c t psi (s(a := False, b := False)) else 0)"
    using assms by (cases "s b"; cases "s t") (auto simp: gate_defs u)
qed

lemma dist_final:
  assumes "distinct [c, t, a, b]" and "bit m" and "bit m'" and "op = cnot \<or> op = cphase"
  shows "(if m' = 1 then apply1 gate_Z c else (\<lambda>x. x)) (measured b (m' = 1) (dist_amps op c t a b m psi))
     = (\<lambda>s. if s a = (m = 1) \<and> s b = (m' = 1) then 1 / 2 * op c t psi (s(a := False, b := False)) else 0)"
proof
  fix s :: "int \<Rightarrow> bool"
  let ?phi = "op c t psi"
  have amps: "dist_amps op c t a b m psi
      = apply1 gate_H b (\<lambda>s. if s a = (m = 1) \<and> s c = s b then half_root * ?phi (s(a := False, b := False)) else 0)"
    unfolding dist_amps_def using assms(1,2,4) by (simp add: dist_ctrl_final dist_gate_copy)
  have u: "s(b := x, a := False, b := False) = s(a := False, b := False)"
    "s(c := y, b := x, a := False, b := False) = s(c := y, a := False, b := False)" for x y using assms(1) by auto
  have w: "s c \<Longrightarrow> s(c := True, a := False, b := False) = s(a := False, b := False)"
    "\<not> s c \<Longrightarrow> s(c := False, a := False, b := False) = s(a := False, b := False)"
    by (auto simp: fun_eq_iff)
  show "(if m' = 1 then apply1 gate_Z c else (\<lambda>x. x)) (measured b (m' = 1) (dist_amps op c t a b m psi)) s
     = (if s a = (m = 1) \<and> s b = (m' = 1) then 1 / 2 * ?phi (s(a := False, b := False)) else 0)"
    unfolding amps using assms(1-3)
    by (cases "s a"; cases "s b"; cases "s c")
      (auto simp: apply1_def gate_Z_def gate_H_def measured_def bit_def u w)
qed

section \<open>Every order of actions\<close>

lemma dist_done_amps:
  assumes "dist_done op A B c t a b psi net" and "A \<noteq> B" and "distinct [c, t, a, b]" and "op = cnot \<or> op = cphase"
  obtains x y where "progs net A = Returned NoValue" and "progs net B = Returned NoValue"
    and "amps net = (\<lambda>s. if s a = x \<and> s b = y then 1 / 2 * op c t psi (s(a := False, b := False)) else 0)"
proof -
  from assms(1) obtain m m' where m: "bit m" "bit m'" and net: "net = net2 A B (Returned NoValue) (Returned NoValue) [] []
      ((if m' = 1 then apply1 gate_Z c else (\<lambda>x. x)) (measured b (m' = 1) (dist_amps op c t a b m psi)))"
    unfolding dist_done_def by blast
  show ?thesis
    by (rule that [of "m = 1" "m' = 1"]) (unfold net dist_final [OF assms(3) m assms(4)], simp_all add: net2_sel [OF assms(2)])
qed

lemma distributed_gate:
  assumes "A \<noteq> B" and "distinct [c, t, a, b]" and "two_qubit_command cmd op" and "op = cnot \<or> op = cphase"
    and "qubits_of (cmd b t) = {b, t}" and "network_run (dist_start cmd A B c t a b psi) k net"
  shows "k \<le> 12 \<and> ((\<exists>net'. party_step A 0 net = Some net' \<or> party_step B 0 net = Some net')
     \<or> progs net A = Returned NoValue \<and> progs net B = Returned NoValue
       \<and> (\<exists>x y. amps net = (\<lambda>s. if s a = x \<and> s b = y then 1 / 2 * op c t psi (s(a := False, b := False)) else 0)))"
proof -
  from schedule_independence [OF dist_plays [OF assms(1,3)] dist_owned [where cmd = cmd and b = b and t = t, OF assms(1,2,5)] assms(6)]
  have k: "k \<le> 12" "dist_done op A B c t a b psi net \<or> (\<exists>p net'. party_step p 0 net = Some net')" by simp_all
  from k(2) show ?thesis
  proof
    assume "dist_done op A B c t a b psi net"
    then show ?thesis using k(1) by (blast elim: dist_done_amps [OF _ assms(1,2,4)])
  next
    assume "\<exists>p net'. party_step p 0 net = Some net'"
    with net2_actors [OF assms(6) [unfolded dist_start_def]] k(1) show ?thesis by blast
  qed
qed

end
