(* ===== verification/RoutineProps.thy ===== *)
theory RoutineProps
  imports DistributedGate
begin

text \<open>
  Properties of the routines and of the NV processor's device programs, on amplitudes: what
  the protocols compute, for every interleaving of the parties, every outcome of the
  measurements and every state of all qubits, those outside the protocol included.
\<close>

section \<open>Teleportation\<close>

text \<open>
  C3: teleportation.  However the two parties are interleaved and whatever they measure, the
  run ends after at most nine actions without blocking: some party can act until both have
  returned.  Then the receiver's qubit has taken the place of the sent one in the state,
  whatever that was entangled with; the sent qubit and the sender's half of the pair are
  in the measured states, and each of the four outcomes has weight one quarter.
\<close>

theorem teleport_correct:
  assumes "A \<noteq> B" and "has_sockets ca B" and "has_sockets cb A" and "distinct [q, a, b]"
    and "network_run (teleport_net A B ca cb q a b psi) k net"
  shows "k \<le> 9 \<and> ((\<exists>net'. party_step A 0 net = Some net' \<or> party_step B 0 net = Some net')
     \<or> progs net A = Returned NoValue \<and> progs net B = Returned (QubitValue b)
       \<and> (\<exists>x y. amps net = (\<lambda>s. if s q = x \<and> s a = y then 1 / 2 * psi (s(q := s b, a := False, b := False)) else 0)))"
proof -
  from schedule_independence [OF teleport_plays [OF assms(1-3)] teleport_owned [OF assms(1,4)] assms(5)]
  have k: "k \<le> 9" "tele_done A B q a b psi net \<or> (\<exists>p net'. party_step p 0 net = Some net')" by simp_all
  from k(2) show ?thesis
  proof
    assume "tele_done A B q a b psi net"
    then obtain m1 m2 where m: "bit m1" "bit m2" and net: "net = net2 A B (Returned NoValue) (Returned (QubitValue b)) [] []
      ((if m1 = 1 then apply1 gate_Z b else (\<lambda>x. x)) ((if m2 = 1 then apply1 gate_X b else (\<lambda>x. x))
         (tele_measured q a b m1 m2 psi)))" unfolding tele_done_def by blast
    have "progs net A = Returned NoValue" "progs net B = Returned (QubitValue b)"
        "amps net = (\<lambda>s. if s q = (m1 = 1) \<and> s a = (m2 = 1) then 1 / 2 * psi (s(q := s b, a := False, b := False)) else 0)"
      unfolding net tele_final [OF assms(4) m] by (simp_all add: net2_sel [OF assms(1)])
    then show ?thesis using k(1) by blast
  next
    assume "\<exists>p net'. party_step p 0 net = Some net'"
    with net2_actors [OF assms(5) [unfolded teleport_net_def]] k(1) show ?thesis by blast
  qed
qed

theorem teleport_correct_witness:
  "\<exists>net'. party_step ''a'' 0 (teleport_net ''a'' ''b'' (ex_program_context ''b'') (ex_program_context ''a'') 0 1 2 ex_amps) = Some net'"
proof -
  let ?net = "teleport_net ''a'' ''b'' (ex_program_context ''b'') (ex_program_context ''a'') 0 1 2 ex_amps"
  have "network_run ?net 0 ?net" by (rule nr_refl)
  from teleport_correct [OF _ ex_sockets ex_sockets _ this]
  have "(\<exists>net'. party_step ''a'' 0 ?net = Some net' \<or> party_step ''b'' 0 ?net = Some net')
      \<or> progs ?net ''a'' = Returned NoValue" by simp blast
  moreover have "progs ?net ''a'' \<noteq> Returned NoValue" "party_step ''b'' 0 ?net = None"
    by (simp_all add: teleport_net_def net2_def teleport_send_def teleport_recv_def sockets_of_def flush_def
        ex_program_context_def party_step_def)
  ultimately show ?thesis by auto
qed

section \<open>Distributed gates\<close>

definition distributed_net ::
    "(program_context \<Rightarrow> string \<Rightarrow> int \<Rightarrow> int \<Rightarrow> routine_value routine) \<Rightarrow> (program_context \<Rightarrow> string \<Rightarrow> int \<Rightarrow> int \<Rightarrow> routine_value routine)
       \<Rightarrow> string \<Rightarrow> string \<Rightarrow> program_context \<Rightarrow> program_context \<Rightarrow> int \<Rightarrow> int \<Rightarrow> int \<Rightarrow> int \<Rightarrow> qstate \<Rightarrow> routine_value qnet" where
  "distributed_net ctrl target A B ca cb c t a b psi = net2 A B (ctrl ca B c a) (target cb A t b) [] [] psi"

lemma distributed_net_start:
  assumes "has_sockets ca B" and "has_sockets cb A"
  shows "distributed_net distributed_CNOT_control distributed_CNOT_target A B ca cb c t a b psi
      = dist_start DoCnot A B c t a b psi"
    and "distributed_net distributed_CPhase_control distributed_CPhase_target A B ca cb c t a b psi
      = dist_start DoCphase A B c t a b psi"
  using assms unfolding distributed_net_def dist_start_def dist_ctrl_end_def [abs_def] dist_target_def [abs_def]
    dist_fix_def [abs_def] dist_target_end_def [abs_def] has_sockets_def sockets_of_def flush_def
    distributed_CNOT_control_def distributed_CNOT_target_def distributed_CPhase_control_def distributed_CPhase_target_def
  by simp_all

text \<open>
  C7: the distributed CNOT.  However the two parties are interleaved and whatever they measure,
  the run ends after at most twelve actions without blocking, and then the state is
  that of a CNOT from the control's qubit to the target's, with the used pair measured.
\<close>

theorem distributed_CNOT_correct:
  assumes "A \<noteq> B" and "has_sockets ca B" and "has_sockets cb A" and "distinct [c, t, a, b]"
    and "network_run (distributed_net distributed_CNOT_control distributed_CNOT_target A B ca cb c t a b psi) k net"
  shows "k \<le> 12 \<and> ((\<exists>net'. party_step A 0 net = Some net' \<or> party_step B 0 net = Some net')
     \<or> progs net A = Returned NoValue \<and> progs net B = Returned NoValue
       \<and> (\<exists>x y. amps net = (\<lambda>s. if s a = x \<and> s b = y then 1 / 2 * cnot c t psi (s(a := False, b := False)) else 0)))"
  by (rule distributed_gate [OF assms(1,4) two_qubit_commands(1) _ _ assms(5) [unfolded distributed_net_start [OF assms(2,3)]]]) simp_all

theorem distributed_CNOT_correct_witness:
  "\<exists>net'. party_step ''a'' 0 (distributed_net distributed_CNOT_control distributed_CNOT_target ''a'' ''b''
     (ex_program_context ''b'') (ex_program_context ''a'') 0 1 2 3 ex_amps) = Some net'"
proof -
  let ?net = "distributed_net distributed_CNOT_control distributed_CNOT_target ''a'' ''b''
     (ex_program_context ''b'') (ex_program_context ''a'') 0 1 2 3 ex_amps"
  have "network_run ?net 0 ?net" by (rule nr_refl)
  from distributed_CNOT_correct [OF _ ex_sockets ex_sockets _ this]
  have "(\<exists>net'. party_step ''a'' 0 ?net = Some net' \<or> party_step ''b'' 0 ?net = Some net')
      \<or> progs ?net ''a'' = Returned NoValue" by simp blast
  moreover have "progs ?net ''a'' \<noteq> Returned NoValue" "party_step ''b'' 0 ?net = None"
    by (simp_all add: distributed_net_def net2_def distributed_CNOT_control_def distributed_CNOT_target_def
        sockets_of_def flush_def ex_program_context_def party_step_def)
  ultimately show ?thesis by auto
qed

text \<open>
  The distributed CPhase, in the same sense.
\<close>

theorem distributed_CPhase_correct:
  assumes "A \<noteq> B" and "has_sockets ca B" and "has_sockets cb A" and "distinct [c, t, a, b]"
    and "network_run (distributed_net distributed_CPhase_control distributed_CPhase_target A B ca cb c t a b psi) k net"
  shows "k \<le> 12 \<and> ((\<exists>net'. party_step A 0 net = Some net' \<or> party_step B 0 net = Some net')
     \<or> progs net A = Returned NoValue \<and> progs net B = Returned NoValue
       \<and> (\<exists>x y. amps net = (\<lambda>s. if s a = x \<and> s b = y then 1 / 2 * cphase c t psi (s(a := False, b := False)) else 0)))"
  by (rule distributed_gate [OF assms(1,4) two_qubit_commands(2) _ _ assms(5) [unfolded distributed_net_start [OF assms(2,3)]]]) simp_all

theorem distributed_CPhase_correct_witness:
  "\<exists>net'. party_step ''a'' 0 (distributed_net distributed_CPhase_control distributed_CPhase_target ''a'' ''b''
     (ex_program_context ''b'') (ex_program_context ''a'') 0 1 2 3 ex_amps) = Some net'"
proof -
  let ?net = "distributed_net distributed_CPhase_control distributed_CPhase_target ''a'' ''b''
     (ex_program_context ''b'') (ex_program_context ''a'') 0 1 2 3 ex_amps"
  have "network_run ?net 0 ?net" by (rule nr_refl)
  from distributed_CPhase_correct [OF _ ex_sockets ex_sockets _ this]
  have "(\<exists>net'. party_step ''a'' 0 ?net = Some net' \<or> party_step ''b'' 0 ?net = Some net')
      \<or> progs ?net ''a'' = Returned NoValue" by simp blast
  moreover have "progs ?net ''a'' \<noteq> Returned NoValue" "party_step ''b'' 0 ?net = None"
    by (simp_all add: distributed_net_def net2_def distributed_CPhase_control_def distributed_CPhase_target_def
        sockets_of_def flush_def ex_program_context_def party_step_def)
  ultimately show ?thesis by auto
qed

section \<open>Preparing and measuring states\<close>

definition preparation_net :: "string \<Rightarrow> string \<Rightarrow> int \<Rightarrow> int \<Rightarrow> real \<Rightarrow> qstate \<Rightarrow> routine_value qnet" where
  "preparation_net A B a b theta psi = net2 A B
     (flush (remote_state_preparation B a theta) (\<lambda>ms. Returned (QubitOutcome a (ms ! 0))))
     (flush (recv_remote_state_preparation A b) (\<lambda>_. Returned (QubitValue b))) [] [] psi"

lemma rz_shift:
  assumes "bit m"
  shows "cis (of_int m * pi / 2) * gate_RZ (theta + of_int m * pi) x x
     = (if m = 1 \<and> x then - gate_RZ theta x x else gate_RZ theta x x)"
proof -
  have "pi / 2 + (theta + pi) / 2 = theta / 2 + pi" "pi / 2 + - ((theta + pi) / 2) = - (theta / 2)"
    by (simp_all add: field_simps)
  then have "cis (pi / 2) * cis ((theta + pi) / 2) = cis (theta / 2 + pi)"
    "cis (pi / 2) * cis (- ((theta + pi) / 2)) = cis (- (theta / 2))" unfolding cis_mult by presburger+
  moreover have "cis (theta / 2 + pi) = - cis (theta / 2)" by (simp add: cis_mult [symmetric])
  moreover have "- ((theta + pi) / 2) = - (theta + pi) / 2" by (rule minus_divide_left)
  ultimately show ?thesis using assms by (cases x) (auto simp: gate_RZ_def bit_def simp del: cis_pi_half)
qed

lemma prepared_amps:
  assumes "a \<noteq> b" and "bit m"
  shows "measured a (m = 1) (apply1 gate_H a (apply1 (gate_RZ theta) a (epr_pair a b psi)))
     = (\<lambda>s. if s a = (m = 1) then cis (of_int m * pi / 2) * half_root
         * (gate_RZ (theta + of_int m * pi) (s b) (s b) * half_root) * psi (s(a := False, b := False)) else 0)"
proof
  fix s :: "int \<Rightarrow> bool"
  have "cis (of_int m * pi / 2) * half_root * (gate_RZ (theta + of_int m * pi) (s b) (s b) * half_root)
      = (cis (of_int m * pi / 2) * gate_RZ (theta + of_int m * pi) (s b) (s b)) * (half_root * half_root)"
    by (simp only: mult.assoc mult.left_commute)
  then have r: "cis (of_int m * pi / 2) * half_root * (gate_RZ (theta + of_int m * pi) (s b) (s b) * half_root)
      = (if m = 1 \<and> s b then - gate_RZ theta (s b) (s b) else gate_RZ theta (s b) (s b)) / 2"
    unfolding rz_shift [OF assms(2)] by simp
  show "measured a (m = 1) (apply1 gate_H a (apply1 (gate_RZ theta) a (epr_pair a b psi))) s
     = (if s a = (m = 1) then cis (of_int m * pi / 2) * half_root
         * (gate_RZ (theta + of_int m * pi) (s b) (s b) * half_root) * psi (s(a := False, b := False)) else 0)"
    unfolding r using assms by (cases "s a"; cases "s b")
      (auto simp: gate_defs gate_RZ_def bit_def mult.left_commute)
qed

definition prepared_net :: "string \<Rightarrow> string \<Rightarrow> int \<Rightarrow> int \<Rightarrow> real \<Rightarrow> qstate \<Rightarrow> int \<Rightarrow> routine_value qnet" where
  "prepared_net A B a b theta psi m = net2 A B (Returned (QubitOutcome a m)) (Returned (QubitValue b)) [] []
     (\<lambda>s. if s a = (m = 1) then cis (of_int m * pi / 2) * half_root
         * (gate_RZ (theta + of_int m * pi) (s b) (s b) * half_root) * psi (s(a := False, b := False)) else 0)"

lemmas preparation_defs = preparation_net_def remote_state_preparation_def recv_remote_state_preparation_def
  measXY_def flush_def

lemma preparation_plays:
  assumes "A \<noteq> B" and "a \<noteq> b"
  shows "plays (\<lambda>net. \<exists>m. bit m \<and> net = prepared_net A B a b theta psi m) (replicate 4 A) (preparation_net A B a b theta psi)"
proof -
  have "\<exists>m'. bit m' \<and> net2 A B (Returned (QubitOutcome a m)) (Returned (QubitValue b)) [] []
      (measured a (m = 1) (apply1 gate_H a (apply1 (gate_RZ theta) a (epr_pair a b psi)))) = prepared_net A B a b theta psi m'"
    if "bit m" for m
    using that by (intro exI [of _ m]) (simp add: prepared_net_def prepared_amps [OF assms(2) that])
  then show ?thesis
    using assms(1) by (simp add: preparation_defs net2_steps all_bits net2_over eval_nat_numeral cong: play_congs)
qed

lemma preparation_owned:
  assumes "A \<noteq> B" and "a \<noteq> b"
  shows "owned ((\<lambda>_. {})(A := {a}, B := {b})) (preparation_net A B a b theta psi)"
  unfolding preparation_net_def
  by (rule net2_owned [OF assms(1)]) (use assms(2) in \<open>simp_all add: preparation_defs\<close>)

text \<open>
  C33: remote state preparation.  In every order of actions both routines return after at most
  four actions, and for the outcome \<open>m\<close> of the client's measurement the server's qubit is in the
  state \<open>R_z(theta + m pi) |+>\<close>, up to a global phase; each outcome is reached, with weight
  one half.
\<close>

theorem remote_preparation:
  assumes "A \<noteq> B" and "a \<noteq> b" and "m = 0 \<or> m = 1"
  shows "(\<forall>k net. network_run (preparation_net A B a b theta psi) k net \<longrightarrow> k \<le> 4
       \<and> ((\<exists>m. bit m \<and> net = prepared_net A B a b theta psi m) \<or> (\<exists>p net'. party_step p 0 net = Some net')))
     \<and> (\<exists>net. network_run (preparation_net A B a b theta psi) 4 net
     \<and> progs net A = Returned (QubitOutcome a m) \<and> progs net B = Returned (QubitValue b)
     \<and> amps net = (\<lambda>s. if s a = (m = 1) then cis (of_int m * pi / 2) * half_root
         * (gate_RZ (theta + of_int m * pi) (s b) (s b) * half_root) * psi (s(a := False, b := False)) else 0))"
proof
  show "\<forall>k net. network_run (preparation_net A B a b theta psi) k net \<longrightarrow> k \<le> 4
       \<and> ((\<exists>m. bit m \<and> net = prepared_net A B a b theta psi m) \<or> (\<exists>p net'. party_step p 0 net = Some net'))"
    using schedule_independence [OF preparation_plays [OF assms(1,2)] preparation_owned [OF assms(1,2)]] by auto
  let ?net = "net2 A B (Returned (QubitOutcome a m)) (Returned (QubitValue b)) [] []
      (measured a (m = 1) (apply1 gate_H a (apply1 (gate_RZ theta) a (epr_pair a b psi))))"
  have "run_actions [(A, 0), (A, 0), (A, 0), (A, m)] (preparation_net A B a b theta psi) = Some ?net"
    using assms by (auto simp: preparation_defs net2_steps)
  from run_actions_run [OF this nr_refl] have "network_run (preparation_net A B a b theta psi) 4 ?net"
    by (simp add: eval_nat_numeral)
  moreover have "bit m" using assms(3) by (auto simp: bit_def)
  ultimately show "\<exists>net. network_run (preparation_net A B a b theta psi) 4 net
     \<and> progs net A = Returned (QubitOutcome a m) \<and> progs net B = Returned (QubitValue b)
     \<and> amps net = (\<lambda>s. if s a = (m = 1) then cis (of_int m * pi / 2) * half_root
         * (gate_RZ (theta + of_int m * pi) (s b) (s b) * half_root) * psi (s(a := False, b := False)) else 0)"
    unfolding prepared_amps [OF assms(2) \<open>bit m\<close>, symmetric]
    by (intro exI [of _ ?net]) (simp add: net2_sel [OF assms(1)])
qed

theorem remote_preparation_witness:
  "\<exists>net. network_run (preparation_net ''c'' ''s'' 0 1 (pi / 2) ex_amps) 4 net
     \<and> progs net ''c'' = Returned (QubitOutcome 0 1)"
  using remote_preparation [of "''c''" "''s''" 0 1 1 "pi / 2" ex_amps] by auto

text \<open>
  The basis \<open>measXY\<close> measures in.  A qubit in state \<open>|0> + (-1)^x e^(-i angle) |1>\<close> gives outcome
  \<open>x\<close> with certainty: the angle enters with a minus sign.
\<close>

theorem measXY_basis:
  assumes "m \<noteq> x"
  shows "measured q m (apply1 gate_H q (apply1 (gate_RZ ang) q
      (\<lambda>s. (if s q then (if x then - 1 else 1) * cis (- ang) else 1) * psi (s(q := False))))) = (\<lambda>s. 0)
   \<and> measXY q ang = [DoRotZ ang q, DoH q, DoMeas q]"
proof -
  have "cis (ang / 2) * cis (- ang) = cis (- (ang / 2))" by (simp add: cis_mult)
  then have "cis (ang / 2) * (cis (- ang) * y) = cis (- (ang / 2)) * y" for y
    by (simp add: mult.assoc [symmetric])
  then show ?thesis using assms
    by (auto simp: fun_eq_iff measured_def apply1_def gate_H_def gate_RZ_def measXY_def minus_divide_left [symmetric])
qed

theorem measXY_basis_witness:
  "measured 0 True (apply1 gate_H 0 (apply1 (gate_RZ (pi / 2)) 0
      (\<lambda>s. (if s 0 then 1 * cis (- (pi / 2)) else 1) * ex_amps (s(0 := False))))) = (\<lambda>s. 0)"
  using measXY_basis [of True False 0 "pi / 2" ex_amps] by (simp cong: if_cong)

section \<open>GHZ states\<close>

text \<open>A line of three parties, each with qubit \<open>q\<close>; the middle one merges with \<open>u\<close>.\<close>

definition ghz_net :: "int \<Rightarrow> int \<Rightarrow> int \<Rightarrow> int \<Rightarrow> qstate \<Rightarrow> routine_value qnet" where
  "ghz_net q0 q1 u q2 psi =
     \<lparr>progs = (\<lambda>_. Returned NoValue)
        (''start'' := create_ghz None (Some ''middle'') None (Some ''middle'') True q0 0,
         ''middle'' := create_ghz (Some ''start'') (Some ''end'') (Some ''start'') (Some ''end'') True q1 u,
         ''end'' := create_ghz (Some ''middle'') None (Some ''middle'') None True q2 0),
      chan = (\<lambda>_. []), amps = psi\<rparr>"

definition ghz_order :: "int \<Rightarrow> (string \<times> int) list" where
  "ghz_order m = [(''middle'', 0), (''end'', 0), (''middle'', 0), (''start'', 0), (''start'', 0), (''middle'', 0),
     (''middle'', 0), (''middle'', m), (''start'', 0), (''middle'', 0), (''middle'', 0), (''end'', 0)]
     @ (if m = 1 then [(''end'', 0)] else [])"

definition ghz_amps :: "int \<Rightarrow> int \<Rightarrow> int \<Rightarrow> int \<Rightarrow> int \<Rightarrow> qstate \<Rightarrow> qstate" where
  "ghz_amps q0 q1 u q2 m psi = flipped m q2 (measured u (m = 1) (cnot q1 u (epr_pair u q2 (epr_pair q0 q1 psi))))"

lemma ghz_amps_eq:
  assumes "distinct [q0, q1, u, q2]" and "bit m"
  shows "ghz_amps q0 q1 u q2 m psi = (\<lambda>s. if s u = (m = 1) \<and> s q0 = s q1 \<and> s q1 = s q2
     then 1 / 2 * psi (s(u := False, q2 := False, q0 := False, q1 := False)) else 0)"
proof
  fix s :: "int \<Rightarrow> bool"
  have w: "s(q2 := x, u := False, q2 := False, q0 := False, q1 := False)
      = s(u := False, q2 := False, q0 := False, q1 := False)"
    "s(q2 := x, u := y, u := False, q2 := False, q0 := False, q1 := False)
      = s(u := False, q2 := False, q0 := False, q1 := False)" for x y using assms(1) by (auto simp: fun_eq_iff)
  show "ghz_amps q0 q1 u q2 m psi s = (if s u = (m = 1) \<and> s q0 = s q1 \<and> s q1 = s q2
     then 1 / 2 * psi (s(u := False, q2 := False, q0 := False, q1 := False)) else 0)"
    using assms by (cases "s u"; cases "s q0"; cases "s q1"; cases "s q2")
      (auto simp: ghz_amps_def flipped_def gate_defs bit_def w mult.assoc [symmetric])
qed

text \<open>
  The GHZ routine, with corrections, along a line of three nodes.  For either outcome of the
  middle node's measurement the routines can run to their ends, in the given order of
  actions, and the three qubits are then in \<open>|000> + |111>\<close>, the extra qubit measured.
\<close>

theorem ghz_three:
  assumes "distinct [q0, q1, u, q2]" and "m = 0 \<or> m = 1"
  shows "\<exists>net. run_actions (ghz_order m) (ghz_net q0 q1 u q2 psi) = Some net
     \<and> progs net ''start'' = Returned (QubitOutcome q0 0) \<and> progs net ''middle'' = Returned (QubitOutcome q1 0)
     \<and> progs net ''end'' = Returned (QubitOutcome q2 0)
     \<and> amps net = (\<lambda>s. if s u = (m = 1) \<and> s q0 = s q1 \<and> s q1 = s q2
         then 1 / 2 * psi (s(u := False, q2 := False, q0 := False, q1 := False)) else 0)"
proof -
  have m: "bit m" using assms(2) by (simp add: bit_def)
  note defs = ghz_net_def ghz_order_def create_ghz_def on_socket_def flush_def ghz_corrections_def recv_int_def orFail_def
    party_step_def gate_step_def ghz_amps_def flipped_def py_int_py_str [of 0, simplified] py_int_py_str [of 1, simplified]
  show ?thesis unfolding ghz_amps_eq [OF assms(1) m, symmetric]
    using assms(2) by (elim disjE) (simp_all add: defs)
qed

theorem ghz_three_witness:
  "\<exists>net. run_actions (ghz_order 1) (ghz_net 0 1 2 3 ex_amps) = Some net
     \<and> progs net ''end'' = Returned (QubitOutcome 3 0)"
  using ghz_three [of 0 1 2 3 1 ex_amps] by auto

section \<open>Measuring on NV hardware\<close>

text \<open>
  C34: the device programs of an NV measurement.  Moving the electron to position \<open>n\<close>, then the
  carbon \<open>p\<close> to the electron and measuring it, with outcome \<open>k\<close>: the amplitude is, up to a
  factor of weight one half for either state the electron was reset from, that of the
  original state with \<open>k\<close> at \<open>p\<close>, where position \<open>n\<close> now holds what the electron held and the
  carbon is back in state zero.  Without a move of the electron first the factor has weight one.
\<close>

theorem nv_measure_programs:
  assumes "distinct [0, n, p]"
  shows "Option.bind (prog_sem x (electron_to_carbon_prog n) psi) (\<lambda>psi1.
       Option.bind (prog_sem y (carbon_to_electron_prog (Some p)) psi1)
         (prog_sem k [NsOp INSTR_MEASURE [Some 0] None]))
     = Some (\<lambda>s. if s 0 = k \<and> \<not> s p then (1 + \<i>) / 2 * move_phase k * psi (s(0 := s n, n := x, p := k)) else 0)
   \<and> Option.bind (prog_sem y (carbon_to_electron_prog (Some p)) psi) (prog_sem k [NsOp INSTR_MEASURE [Some 0] None])
     = Some (\<lambda>s. if s 0 = k \<and> \<not> s p then move_phase k * psi (s(0 := y, p := k)) else 0)
   \<and> (cmod ((1 + \<i>) / 2 * move_phase k))\<^sup>2 = 1 / 2 \<and> cmod (move_phase k) = 1"
proof -
  have n: "n \<noteq> 0" "p \<noteq> 0" "n \<noteq> p" using assms by auto
  have u: "s(p := k, 0 := s n, n := x) = s(0 := s n, n := x, p := k)" for s :: "int \<Rightarrow> bool" and k
    using n by (auto simp: fun_eq_iff)
  have c: "cmod (move_phase k) = 1"
    by (cases k) (simp_all add: move_phase_def norm_mult half_root_def cmod_def power_divide)
  have "(cmod (1 + \<i>))\<^sup>2 = 2" by (simp add: cmod_power2)
  then have w: "(cmod ((1 + \<i>) / 2 * move_phase k))\<^sup>2 = 1 / 2"
    by (simp add: norm_mult norm_divide power_divide c power_mult_distrib)
  show ?thesis
    using c w n by (auto simp: electron_to_carbon_sem carbon_to_electron_sem measured_def u intro!: ext)
qed

theorem nv_measure_programs_witness:
  "Option.bind (prog_sem False (electron_to_carbon_prog 2) ex_amps) (\<lambda>psi1.
       Option.bind (prog_sem True (carbon_to_electron_prog (Some 1)) psi1)
         (prog_sem True [NsOp INSTR_MEASURE [Some 0] None]))
     = Some (\<lambda>s. if s 0 = True \<and> \<not> s 1 then (1 + \<i>) / 2 * move_phase True * ex_amps (s(0 := s 2, 2 := False, 1 := True)) else 0)"
  using nv_measure_programs [of 2 1 False ex_amps True True] by simp

end
