(* ===== verification/SimQueues.thy ===== *)
theory SimQueues
  imports Listener
begin

text \<open>
  The task queues between the host threads and the QNodeOS simulations
  (\<open>squidasm/sim/queues.py\<close>): a queue of raw messages that also knows which messages have
  been dealt with, and the registry of the queues of all nodes.  What blocks is \<open>None\<close>: a
  \<open>get\<close> on an empty queue, a \<open>join\<close> with unfinished items, and the loop of \<open>join_task\<close>.
\<close>

section \<open>One queue\<close>

text \<open>
  \<open>queue.Queue\<close> counts its unfinished items: \<open>put\<close> adds one, \<open>task_done\<close> takes one away and
  raises when there is none; \<open>get\<close> does not change the count.
\<close>

record 'i task_queue =
  tq_items :: "'i list"
  tq_unfinished :: int
  tq_fin_tasks :: "'i list"

definition TaskQueue :: "'i task_queue" where
  "TaskQueue = \<lparr>tq_items = [], tq_unfinished = 0, tq_fin_tasks = []\<rparr>"

definition tq_reset :: "'i task_queue \<Rightarrow> 'i task_queue" where
  "tq_reset q = q\<lparr>tq_items := [], tq_unfinished := 0, tq_fin_tasks := []\<rparr>"

definition tq_qsize :: "'i task_queue \<Rightarrow> int" where
  "tq_qsize q = int (length (tq_items q))"

definition tq_empty :: "'i task_queue \<Rightarrow> bool" where
  "tq_empty q \<longleftrightarrow> tq_items q = []"

text \<open>The queue has no maximal size.\<close>

definition tq_full :: "'i task_queue \<Rightarrow> bool" where
  "tq_full q = False"

text \<open>Without blocking, or when the time is up, an empty queue raises.\<close>

definition tq_get :: "bool \<Rightarrow> bool \<Rightarrow> 'i task_queue \<Rightarrow> ('i \<times> 'i task_queue) result option" where
  "tq_get block timed_out q =
     (case tq_items q of
        x # rest \<Rightarrow> Some (Inr (x, q\<lparr>tq_items := rest\<rparr>))
      | [] \<Rightarrow> if block \<and> \<not> timed_out then None else Some (Inl QueueEmpty))"

definition tq_put :: "'i \<Rightarrow> 'i task_queue \<Rightarrow> 'i task_queue" where
  "tq_put x q = q\<lparr>tq_items := tq_items q @ [x], tq_unfinished := tq_unfinished q + 1\<rparr>"

text \<open>The finished tasks are a set: a message that is there already is not added again.\<close>

definition tq_task_done :: "'i \<Rightarrow> 'i task_queue \<Rightarrow> 'i task_queue result" where
  "tq_task_done x q =
     bindE (assertE (tq_unfinished q > 0) ValueError) (\<lambda>_.
       Inr (q\<lparr>tq_fin_tasks := List.insert x (tq_fin_tasks q), tq_unfinished := tq_unfinished q - 1\<rparr>))"

definition tq_join_task :: "'i \<Rightarrow> 'i task_queue \<Rightarrow> 'i task_queue option" where
  "tq_join_task x q =
     (if x \<in> set (tq_fin_tasks q) then Some (q\<lparr>tq_fin_tasks := remove1 x (tq_fin_tasks q)\<rparr>) else None)"

definition tq_join :: "'i task_queue \<Rightarrow> unit option" where
  "tq_join q = (if tq_unfinished q = 0 then Some () else None)"

text \<open>As a mailbox: messages come out in the order they were put in.\<close>

definition tq_take :: "'i task_queue \<Rightarrow> ('i \<times> 'i task_queue) option" where
  "tq_take q = (case tq_get True False q of Some (Inr r) \<Rightarrow> Some r | _ \<Rightarrow> None)"

interpretation task_box: mailbox tq_put tq_take tq_items
proof
  fix q :: "'i task_queue" and x q'
  show "tq_items (tq_put x q) = tq_items q @ [x]" by (simp add: tq_put_def)
  show "tq_take q = None \<longleftrightarrow> tq_items q = []" by (simp add: tq_take_def tq_get_def split: list.splits)
  show "tq_take q = Some (x, q') \<Longrightarrow> tq_items q = x # tq_items q'"
    by (auto simp: tq_take_def tq_get_def split: list.splits)
qed

section \<open>The registry\<close>

type_synonym 'i queues = "(string, 'i task_queue) dict"

definition create_queue :: "string \<Rightarrow> 'i queues \<Rightarrow> 'i queues result" where
  "create_queue node_name qs =
     (if map_of qs node_name \<noteq> None then Inl RuntimeError else Inr (AList.update node_name TaskQueue qs))"

definition get_queue :: "string \<Rightarrow> 'i queues \<Rightarrow> 'i task_queue result" where
  "get_queue node_name qs = (case map_of qs node_name of None \<Rightarrow> Inl RuntimeError | Some q \<Rightarrow> Inr q)"

definition reset_queues :: "'i queues \<Rightarrow> 'i queues" where
  "reset_queues qs = map (\<lambda>(name, q). (name, tq_reset q)) qs"

text \<open>\<open>popitem\<close> removes the entry inserted last, until none is left.\<close>

fun destroy_queues_from :: "nat \<Rightarrow> 'i queues \<Rightarrow> 'i queues" where
  "destroy_queues_from 0 qs = qs"
| "destroy_queues_from (Suc k) qs = (if qs = [] then qs else destroy_queues_from k (butlast qs))"

definition destroy_queues :: "'i queues \<Rightarrow> 'i queues" where
  "destroy_queues qs = destroy_queues_from (length qs) qs"

lemma destroy_queues_empty: "destroy_queues qs = []"
proof -
  have "destroy_queues_from k qs = []" if "length qs = k" for k and qs :: "'b queues"
    using that by (induction k arbitrary: qs) auto
  then show ?thesis by (simp add: destroy_queues_def)
qed

section \<open>Histories of a queue\<close>

text \<open>What the two threads do to a queue.\<close>

datatype 'i queue_op = QPut 'i | QGet | QDone 'i | QJoinTask 'i

fun do_op :: "'i queue_op \<Rightarrow> 'i task_queue \<Rightarrow> 'i task_queue option" where
  "do_op (QPut x) q = Some (tq_put x q)"
| "do_op QGet q = (case tq_get False False q of Some (Inr (x, q')) \<Rightarrow> Some q' | _ \<Rightarrow> None)"
| "do_op (QDone x) q = (case tq_task_done x q of Inr q' \<Rightarrow> Some q' | Inl e \<Rightarrow> None)"
| "do_op (QJoinTask x) q = tq_join_task x q"

fun queue_ops :: "'i queue_op list \<Rightarrow> 'i task_queue \<Rightarrow> 'i task_queue option" where
  "queue_ops [] q = Some q"
| "queue_ops (a # as) q = (case do_op a q of None \<Rightarrow> None | Some q' \<Rightarrow> queue_ops as q')"

fun op_weight :: "'i queue_op \<Rightarrow> int" where
  "op_weight (QPut x) = 1"
| "op_weight (QDone x) = - 1"
| "op_weight _ = 0"

text \<open>The unfinished items are those put and not yet done, and never fewer than none.\<close>

lemma do_op_count:
  assumes "do_op a q = Some q'" and "tq_unfinished q \<ge> 0" and "distinct (tq_fin_tasks q)"
  shows "tq_unfinished q' = tq_unfinished q + op_weight a \<and> tq_unfinished q' \<ge> 0 \<and> distinct (tq_fin_tasks q')"
  using assms
  by (cases a) (auto simp: tq_put_def tq_get_def tq_task_done_def assertE_def tq_join_task_def
      split: list.splits if_splits sum.splits)

lemma queue_ops_count:
  assumes "queue_ops as q = Some q'" and "tq_unfinished q \<ge> 0" and "distinct (tq_fin_tasks q)"
  shows "tq_unfinished q' = tq_unfinished q + sum_list (map op_weight as) \<and> tq_unfinished q' \<ge> 0
     \<and> distinct (tq_fin_tasks q')"
  using assms
proof (induction "as" arbitrary: q)
  case Nil
  then show ?case by simp
next
  case (Cons a "as")
  from Cons.prems(1) obtain q1 where q1: "do_op a q = Some q1" "queue_ops as q1 = Some q'"
    by (auto split: option.splits)
  note c = do_op_count [OF q1(1) Cons.prems(2,3)]
  from Cons.IH [OF q1(2)] c show ?case by auto
qed

end
