(* ===== verification/TaskScheduler.thy ===== *)
theory TaskScheduler
  imports SimQueues
begin

text \<open>
  The scheduler of the NetQASM simulation's QNodeOS (\<open>squidasm/nqasm/qnodeos.py\<close>): raw
  messages from the host become tasks, which are generators of the executor, and the loop
  of \<open>run\<close> advances one task at a time.  A generator is a state of type \<open>'g\<close> with a parameter
  \<open>gen_next\<close> that yields its next event, ends (\<open>None\<close>) or raises; deserialising a message and
  handling it is the parameter \<open>handle\<close>, which may raise too, and the random choice among waiting
  subroutines is an argument.
\<close>

section \<open>Events\<close>

text \<open>What a generator yields: an event type, an expression (atomic or not), or something else.\<close>

datatype sim_event = EventType string | EventExpression "string option" | OtherObject

definition wait_event_names :: "string list" where
  "wait_event_names = [''ANY_EVENT'', ''LOOP'', ''WAIT'']"

fun is_waiting_event :: "sim_event \<Rightarrow> bool result" where
  "is_waiting_event (EventType name) = Inr (name \<in> set wait_event_names)"
| "is_waiting_event (EventExpression (Some name)) = Inr (name \<in> set wait_event_names)"
| "is_waiting_event (EventExpression None) = Inl ValueError"
| "is_waiting_event OtherObject = Inl TypeError"

section \<open>Tasks\<close>

text \<open>A generator that has raised is closed: asked again, it only ends.\<close>

record ('g, 'm) task =
  tk_gen :: "'g option"
  tk_msg :: 'm
  tk_next_event :: "sim_event option"
  tk_finished :: bool
  tk_waiting :: bool

definition Task :: "'g \<Rightarrow> 'm \<Rightarrow> ('g, 'm) task" where
  "Task gen msg = \<lparr>tk_gen = Some gen, tk_msg = msg, tk_next_event = None, tk_finished = False, tk_waiting = False\<rparr>"

definition update_next_event ::
    "('g \<Rightarrow> (sim_event \<times> 'g) option result) \<Rightarrow> ('g, 'm) task \<Rightarrow> ('g, 'm) task result" where
  "update_next_event gen_next t =
     (if tk_next_event t \<noteq> None then Inr t
      else bindE (case tk_gen t of None \<Rightarrow> Inr None | Some g \<Rightarrow> gen_next g) (\<lambda>r.
        case r of
          None \<Rightarrow> Inr (t\<lparr>tk_finished := True, tk_waiting := False\<rparr>)
        | Some (ev, g) \<Rightarrow> bindE (is_waiting_event ev) (\<lambda>w.
            Inr (t\<lparr>tk_gen := Some g, tk_waiting := w, tk_next_event := Some ev\<rparr>))))"

text \<open>
  \<open>pop_next_event\<close>: an \<open>IndexError\<close> is caught by every caller, so it is \<open>None\<close> here, beside the
  task; it is that of a finished task, or one the generator itself raised, which is closed then.
\<close>

definition pop_next_event ::
    "('g \<Rightarrow> (sim_event \<times> 'g) option result) \<Rightarrow> ('g, 'm) task \<Rightarrow> (sim_event option \<times> ('g, 'm) task) result" where
  "pop_next_event gen_next t =
     (case (if tk_next_event t = None then update_next_event gen_next t else Inr t) of
        Inl err \<Rightarrow> if err = IndexError then Inr (None, t\<lparr>tk_gen := None\<rparr>) else Inl err
      | Inr t1 \<Rightarrow>
          if tk_finished t1 then Inr (None, t1)
          else (case tk_next_event t1 of
              None \<Rightarrow> Inl AssertionError
            | Some ev \<Rightarrow> Inr (Some ev, t1\<lparr>tk_next_event := None\<rparr>)))"

section \<open>The scheduler\<close>

record ('g, 'm) scheduler =
  sc_queue :: "'m task_queue"
  sc_subroutine_tasks :: "('g, 'm) task list"
  sc_other_tasks :: "('g, 'm) task list"
  sc_finished_messages :: "'m list"

definition new_scheduler :: "('g, 'm) scheduler" where
  "new_scheduler = \<lparr>sc_queue = TaskQueue, sc_subroutine_tasks = [], sc_other_tasks = [], sc_finished_messages = []\<rparr>"

definition mark_message_finished :: "'m \<Rightarrow> ('g, 'm) scheduler \<Rightarrow> ('g, 'm) scheduler result" where
  "mark_message_finished msg s =
     bindE (tq_task_done msg (sc_queue s)) (\<lambda>q.
       Inr (s\<lparr>sc_finished_messages := sc_finished_messages s @ [msg], sc_queue := q\<rparr>))"

text \<open>\<open>_next_message\<close>: without blocking, the empty queue's exception is caught.\<close>

definition next_message :: "('g, 'm) scheduler \<Rightarrow> 'm option \<times> ('g, 'm) scheduler" where
  "next_message s =
     (case tq_get False False (sc_queue s) of
        Some (Inr (m, q)) \<Rightarrow> (Some m, s\<lparr>sc_queue := q\<rparr>)
      | _ \<Rightarrow> (None, s))"

text \<open>
  What the handler of a message returns: nothing, or a generator; subroutines are kept
  apart from the other tasks.
\<close>

datatype 'g handler_output = NoGenerator | SubroutineGenerator 'g | OtherGenerator 'g

definition handle_message ::
    "('m \<Rightarrow> 'g handler_output result) \<Rightarrow> 'm \<Rightarrow> ('g, 'm) scheduler \<Rightarrow> ('g, 'm) scheduler result" where
  "handle_message handle msg s =
     bindE (handle msg) (\<lambda>output. case output of
        SubroutineGenerator g \<Rightarrow> Inr (s\<lparr>sc_subroutine_tasks := sc_subroutine_tasks s @ [Task g msg]\<rparr>)
      | OtherGenerator g \<Rightarrow> Inr (s\<lparr>sc_other_tasks := sc_other_tasks s @ [Task g msg]\<rparr>)
      | NoGenerator \<Rightarrow> mark_message_finished msg s)"

text \<open>\<open>_get_next_other_task\<close>: finished tasks at the head are marked and dropped.\<close>

fun drop_finished_others ::
    "('g, 'm) task list \<Rightarrow> ('g, 'm) scheduler \<Rightarrow> ('g, 'm) scheduler result" where
  "drop_finished_others [] s = Inr (s\<lparr>sc_other_tasks := []\<rparr>)"
| "drop_finished_others (t # ts) s =
     (if tk_finished t then bindE (mark_message_finished (tk_msg t) s) (drop_finished_others ts)
      else Inr (s\<lparr>sc_other_tasks := t # ts\<rparr>))"

text \<open>\<open>_get_next_subroutine_task\<close>: all finished tasks are marked, then removed.\<close>

definition drop_finished_subroutines :: "('g, 'm) scheduler \<Rightarrow> ('g, 'm) scheduler result" where
  "drop_finished_subroutines s =
     bindE (forE (\<lambda>t. if tk_finished t then mark_message_finished (tk_msg t) else Inr) (sc_subroutine_tasks s) s) (\<lambda>s1.
       Inr (s1\<lparr>sc_subroutine_tasks := filter (\<lambda>t. \<not> tk_finished t) (sc_subroutine_tasks s1)\<rparr>))"

text \<open>The first that is not waiting, else a random one.\<close>

definition choose_subroutine :: "nat \<Rightarrow> ('g, 'm) task list \<Rightarrow> nat option" where
  "choose_subroutine choice ts =
     (if ts = [] then None
      else (case List.find (\<lambda>i. \<not> tk_waiting (ts ! i)) [0..<length ts] of
          Some i \<Rightarrow> Some i
        | None \<Rightarrow> Some (choice mod length ts)))"

definition get_next_task_event ::
    "('g \<Rightarrow> (sim_event \<times> 'g) option result) \<Rightarrow> nat \<Rightarrow> ('g, 'm) scheduler
       \<Rightarrow> (sim_event option \<times> ('g, 'm) scheduler) result" where
  "get_next_task_event gen_next choice s =
     bindE (drop_finished_others (sc_other_tasks s) s) (\<lambda>s1.
       case sc_other_tasks s1 of
         t # ts \<Rightarrow>
           bindE (pop_next_event gen_next t) (\<lambda>(ev, t1). Inr (ev, s1\<lparr>sc_other_tasks := t1 # ts\<rparr>))
       | [] \<Rightarrow>
           bindE (drop_finished_subroutines s1) (\<lambda>s2.
             case choose_subroutine choice (sc_subroutine_tasks s2) of
               None \<Rightarrow> Inr (None, s2)
             | Some i \<Rightarrow>
                 bindE (pop_next_event gen_next (sc_subroutine_tasks s2 ! i)) (\<lambda>(ev, t1).
                   Inr (ev, s2\<lparr>sc_subroutine_tasks := (sc_subroutine_tasks s2)[i := t1]\<rparr>))))"

text \<open>One round of the loop in \<open>run\<close>, up to its \<open>yield\<close>; \<open>None\<close> is the sleep.\<close>

definition run_round ::
    "('m \<Rightarrow> 'g handler_output result) \<Rightarrow> ('g \<Rightarrow> (sim_event \<times> 'g) option result) \<Rightarrow> nat \<Rightarrow> ('g, 'm) scheduler
       \<Rightarrow> (sim_event option \<times> ('g, 'm) scheduler) result" where
  "run_round handle gen_next choice s =
     (case next_message s of
        (None, s1) \<Rightarrow> get_next_task_event gen_next choice s1
      | (Some msg, s1) \<Rightarrow> bindE (handle_message handle msg s1) (get_next_task_event gen_next choice))"

text \<open>
  The host's thread puts messages between the rounds.  What the handlers and generators do
  depends on the executor's memory, so each round may have its own functions.
\<close>

inductive sched_run :: "nat \<Rightarrow> ('g, 'm) scheduler \<Rightarrow> bool" where
  sr_new: "sched_run 0 new_scheduler"
| sr_put: "sched_run k s \<Longrightarrow> sched_run (Suc k) (s\<lparr>sc_queue := tq_put m (sc_queue s)\<rparr>)"
| sr_round: "sched_run k s \<Longrightarrow> run_round handle gen_next c s = Inr (ev, s') \<Longrightarrow> sched_run k s'"

section \<open>Every message is dealt with once\<close>

definition open_tasks :: "('g, 'm) scheduler \<Rightarrow> int" where
  "open_tasks s = int (length (sc_subroutine_tasks s)) + int (length (sc_other_tasks s))"

text \<open>
  The queue's unfinished items are the messages not taken yet and the tasks not marked yet;
  with the finished ones they are all the messages ever put.
\<close>

definition accounts :: "nat \<Rightarrow> ('g, 'm) scheduler \<Rightarrow> bool" where
  "accounts k s \<longleftrightarrow> tq_unfinished (sc_queue s) = int (length (tq_items (sc_queue s))) + open_tasks s
     \<and> int (length (sc_finished_messages s)) + tq_unfinished (sc_queue s) = int k"

lemma mark_finished:
  assumes "tq_unfinished (sc_queue s) > 0"
  obtains s' where "mark_message_finished msg s = Inr s'"
    "tq_unfinished (sc_queue s') = tq_unfinished (sc_queue s) - 1" "tq_items (sc_queue s') = tq_items (sc_queue s)"
    "sc_finished_messages s' = sc_finished_messages s @ [msg]"
    "sc_subroutine_tasks s' = sc_subroutine_tasks s" "sc_other_tasks s' = sc_other_tasks s"
  using assms that by (auto simp: mark_message_finished_def tq_task_done_def)

lemma drop_others_accounts:
  assumes "tq_unfinished (sc_queue s) = int (length (tq_items (sc_queue s))) + int (length (sc_subroutine_tasks s)) + int (length ts)"
    and "int (length (sc_finished_messages s)) + tq_unfinished (sc_queue s) = int k"
  shows "\<exists>s'. drop_finished_others ts s = Inr s' \<and> accounts k s'
     \<and> (\<forall>t ts'. sc_other_tasks s' = t # ts' \<longrightarrow> \<not> tk_finished t)"
  using assms
proof (induction ts arbitrary: s)
  case Nil
  then show ?case by (simp add: accounts_def open_tasks_def)
next
  case (Cons t ts)
  show ?case
  proof (cases "tk_finished t")
    case True
    have "tq_unfinished (sc_queue s) > 0" using Cons.prems(1) by simp
    from mark_finished [OF this] obtain s' where s': "mark_message_finished (tk_msg t) s = Inr s'"
      "tq_unfinished (sc_queue s') = tq_unfinished (sc_queue s) - 1" "tq_items (sc_queue s') = tq_items (sc_queue s)"
      "sc_finished_messages s' = sc_finished_messages s @ [tk_msg t]"
      "sc_subroutine_tasks s' = sc_subroutine_tasks s" by metis
    then show ?thesis using True Cons.IH [of s'] Cons.prems by simp
  next
    case False
    then show ?thesis using Cons.prems by (simp add: accounts_def open_tasks_def)
  qed
qed

lemma drop_subs_accounts:
  assumes "tq_unfinished (sc_queue s) \<ge> int (length ts)"
  shows "\<exists>s'. forE (\<lambda>t. if tk_finished t then mark_message_finished (tk_msg t) else Inr) ts s = Inr s'
     \<and> tq_unfinished (sc_queue s') = tq_unfinished (sc_queue s) - int (length (filter tk_finished ts))
     \<and> tq_items (sc_queue s') = tq_items (sc_queue s)
     \<and> length (sc_finished_messages s') = length (sc_finished_messages s) + length (filter tk_finished ts)
     \<and> sc_subroutine_tasks s' = sc_subroutine_tasks s \<and> sc_other_tasks s' = sc_other_tasks s"
  using assms
proof (induction ts arbitrary: s)
  case Nil
  then show ?case by simp
next
  case (Cons t ts)
  show ?case
  proof (cases "tk_finished t")
    case True
    have "tq_unfinished (sc_queue s) > 0" using Cons.prems(1) by simp
    from mark_finished [OF this] obtain s' where s': "mark_message_finished (tk_msg t) s = Inr s'"
      "tq_unfinished (sc_queue s') = tq_unfinished (sc_queue s) - 1" "tq_items (sc_queue s') = tq_items (sc_queue s)"
      "sc_finished_messages s' = sc_finished_messages s @ [tk_msg t]"
      "sc_subroutine_tasks s' = sc_subroutine_tasks s" "sc_other_tasks s' = sc_other_tasks s" by metis
    then show ?thesis using True Cons.IH [of s'] Cons.prems by auto
  next
    case False
    then show ?thesis using Cons.IH [of s] Cons.prems by auto
  qed
qed

text \<open>
  What advancing a task may raise: what its generator raised, unless it was an \<open>IndexError\<close>, or
  an event that cannot be read.
\<close>

definition generator_raises :: "('g \<Rightarrow> (sim_event \<times> 'g) option result) \<Rightarrow> py_error \<Rightarrow> bool" where
  "generator_raises gen_next err \<longleftrightarrow> err \<noteq> IndexError \<and> ((\<exists>g. gen_next g = Inl err)
     \<or> (\<exists>g ev g'. gen_next g = Inr (Some (ev, g')) \<and> is_waiting_event ev = Inl err))"

lemma waiting_event_errors: "is_waiting_event ev = Inl err \<Longrightarrow> err \<noteq> IndexError"
  by (cases ev rule: is_waiting_event.cases) auto

lemma pop_next_event_raises:
  assumes "pop_next_event gen_next t = Inl err"
  shows "generator_raises gen_next err"
proof (cases "tk_next_event t")
  case None
  show ?thesis
  proof (cases "update_next_event gen_next t")
    case (Inl e)
    then have "err = e" "e \<noteq> IndexError"
      using assms None by (auto simp: pop_next_event_def split: if_splits)
    moreover obtain g where "tk_gen t = Some g" "gen_next g = Inl e
        \<or> (\<exists>ev g'. gen_next g = Inr (Some (ev, g')) \<and> is_waiting_event ev = Inl e)"
      using Inl None by (auto simp: update_next_event_def result_simps split: option.splits)
    ultimately show ?thesis by (auto simp: generator_raises_def)
  next
    case (Inr t1)
    then have "tk_finished t1 \<or> tk_next_event t1 \<noteq> None"
      using None by (auto simp: update_next_event_def result_simps split: option.splits)
    then show ?thesis using assms None Inr by (auto simp: pop_next_event_def split: if_splits)
  qed
next
  case (Some ev)
  then show ?thesis using assms by (auto simp: pop_next_event_def split: if_splits)
qed

text \<open>The tasks' part of a round keeps the accounts and does not raise.\<close>

lemma drop_finished_subroutines_accounts:
  assumes "accounts k s"
  shows "\<exists>s'. drop_finished_subroutines s = Inr s' \<and> accounts k s' \<and> (\<forall>t \<in> set (sc_subroutine_tasks s'). \<not> tk_finished t)"
proof -
  have "tq_unfinished (sc_queue s) \<ge> int (length (sc_subroutine_tasks s))"
    using assms by (simp add: accounts_def open_tasks_def)
  from drop_subs_accounts [OF this] obtain s1 where
    s1: "forE (\<lambda>t. if tk_finished t then mark_message_finished (tk_msg t) else Inr) (sc_subroutine_tasks s) s = Inr s1"
    "tq_unfinished (sc_queue s1) = tq_unfinished (sc_queue s) - int (length (filter tk_finished (sc_subroutine_tasks s)))"
    "tq_items (sc_queue s1) = tq_items (sc_queue s)"
    "length (sc_finished_messages s1) = length (sc_finished_messages s) + length (filter tk_finished (sc_subroutine_tasks s))"
    "sc_subroutine_tasks s1 = sc_subroutine_tasks s" "sc_other_tasks s1 = sc_other_tasks s" by metis
  have "int (length (filter (\<lambda>t. \<not> tk_finished t) (sc_subroutine_tasks s)))
      = int (length (sc_subroutine_tasks s)) - int (length (filter tk_finished (sc_subroutine_tasks s)))"
    using sum_length_filter_compl [of tk_finished "sc_subroutine_tasks s"] by linarith
  with s1 assms show ?thesis by (simp add: drop_finished_subroutines_def accounts_def open_tasks_def)
qed

lemma accounts_replace:
  "accounts k s \<Longrightarrow> accounts k (s\<lparr>sc_subroutine_tasks := (sc_subroutine_tasks s)[i := t]\<rparr>)"
  "accounts k s \<Longrightarrow> sc_other_tasks s = t # ts \<Longrightarrow> accounts k (s\<lparr>sc_other_tasks := t' # ts\<rparr>)"
  by (simp_all add: accounts_def open_tasks_def)

lemma get_next_task_event_accounts:
  assumes "accounts k s"
  shows "get_next_task_event gen_next c s = Inr (ev, s') \<Longrightarrow> accounts k s'"
    and "get_next_task_event gen_next c s = Inl err \<Longrightarrow> generator_raises gen_next err"
proof -
  from drop_others_accounts [of s "sc_other_tasks s" k] assms obtain s1 where
    s1: "drop_finished_others (sc_other_tasks s) s = Inr s1" "accounts k s1"
    by (auto simp: accounts_def open_tasks_def)
  obtain s2 where s2: "drop_finished_subroutines s1 = Inr s2" "accounts k s2"
    using drop_finished_subroutines_accounts [OF s1(2)] by blast
  show "get_next_task_event gen_next c s = Inr (ev, s') \<Longrightarrow> accounts k s'"
    using s1 s2 by (cases "sc_other_tasks s1"; cases "choose_subroutine c (sc_subroutine_tasks s2)")
      (auto simp: get_next_task_event_def result_simps intro: accounts_replace)
  show "get_next_task_event gen_next c s = Inl err \<Longrightarrow> generator_raises gen_next err"
    using s1 s2 by (cases "sc_other_tasks s1"; cases "choose_subroutine c (sc_subroutine_tasks s2)")
      (auto simp: get_next_task_event_def result_simps intro: pop_next_event_raises)
qed

text \<open>A message taken from the queue is owed until it is a task or marked.\<close>

lemma handle_message_accounts:
  assumes "tq_unfinished (sc_queue s) = int (length (tq_items (sc_queue s))) + open_tasks s + 1"
    and "int (length (sc_finished_messages s)) + tq_unfinished (sc_queue s) = int k"
  shows "case handle msg of Inl err \<Rightarrow> handle_message handle msg s = Inl err
    | Inr r \<Rightarrow> \<exists>s'. handle_message handle msg s = Inr s' \<and> accounts k s'"
proof (cases "handle msg")
  case (Inr r)
  show ?thesis
  proof (cases r)
    case NoGenerator
    have "tq_unfinished (sc_queue s) > 0" using assms(1) by (simp add: open_tasks_def)
    from mark_finished [OF this, of msg] obtain s' where "mark_message_finished msg s = Inr s'"
      "tq_unfinished (sc_queue s') = tq_unfinished (sc_queue s) - 1" "tq_items (sc_queue s') = tq_items (sc_queue s)"
      "sc_finished_messages s' = sc_finished_messages s @ [msg]"
      "sc_subroutine_tasks s' = sc_subroutine_tasks s" "sc_other_tasks s' = sc_other_tasks s" by metis
    then show ?thesis using NoGenerator Inr assms by (simp add: handle_message_def accounts_def open_tasks_def)
  qed (use assms Inr in \<open>simp_all add: handle_message_def accounts_def open_tasks_def\<close>)
qed (simp add: handle_message_def)

lemma run_round_accounts:
  assumes "accounts k s"
  shows "run_round handle gen_next c s = Inr (ev, s') \<Longrightarrow> accounts k s'"
    and "run_round handle gen_next c s = Inl err \<Longrightarrow>
      (\<exists>msg rest. tq_items (sc_queue s) = msg # rest \<and> handle msg = Inl err) \<or> generator_raises gen_next err"
proof -
  have "(\<exists>s1. accounts k s1 \<and> run_round handle gen_next c s = get_next_task_event gen_next c s1)
     \<or> (\<exists>msg rest e. tq_items (sc_queue s) = msg # rest \<and> handle msg = Inl e \<and> run_round handle gen_next c s = Inl e)"
  proof (cases "tq_items (sc_queue s)")
    case Nil
    then have "run_round handle gen_next c s = get_next_task_event gen_next c s"
      by (simp add: run_round_def next_message_def tq_get_def)
    then show ?thesis using assms by blast
  next
    case (Cons m rest)
    let ?s1 = "s\<lparr>sc_queue := (sc_queue s)\<lparr>tq_items := rest\<rparr>\<rparr>"
    have "tq_unfinished (sc_queue ?s1) = int (length (tq_items (sc_queue ?s1))) + open_tasks ?s1 + 1"
      "int (length (sc_finished_messages ?s1)) + tq_unfinished (sc_queue ?s1) = int k"
      using assms Cons by (simp_all add: accounts_def open_tasks_def)
    note h = handle_message_accounts [OF this, of handle m]
    have r: "run_round handle gen_next c s = bindE (handle_message handle m ?s1) (get_next_task_event gen_next c)"
      using Cons by (simp add: run_round_def next_message_def tq_get_def)
    show ?thesis
    proof (cases "handle m")
      case (Inl e)
      then show ?thesis using h r Cons by simp
    next
      case (Inr out)
      then obtain s1 where "handle_message handle m ?s1 = Inr s1" "accounts k s1" using h by auto
      then show ?thesis using r by auto
    qed
  qed
  then show "run_round handle gen_next c s = Inr (ev, s') \<Longrightarrow> accounts k s'"
    and "run_round handle gen_next c s = Inl err \<Longrightarrow>
      (\<exists>msg rest. tq_items (sc_queue s) = msg # rest \<and> handle msg = Inl err) \<or> generator_raises gen_next err"
    using get_next_task_event_accounts by (metis sum.distinct(1), metis sum.inject(1))
qed

lemma sched_run_accounts:
  assumes "sched_run k s"
  shows "accounts k s"
  using assms
proof (induction rule: sched_run.induct)
  case sr_new
  then show ?case by (simp add: accounts_def open_tasks_def new_scheduler_def TaskQueue_def)
next
  case (sr_put k s m)
  then show ?case by (simp add: accounts_def open_tasks_def tq_put_def)
next
  case (sr_round k s handle gen_next c ev s')
  then show ?case using run_round_accounts(1) by blast
qed

end
