(* ===== verification/Signaling.thy ===== *)
theory Signaling
  imports Prelude
begin

text \<open>
  The signalling protocol and the network stack of the NetQASM simulation
  (\<open>squidasm/nqasm/netstack.py\<close>): circuits between EPR sockets, the purpose ids both ends
  share, and the setting up of a socket.  \<open>hash\<close> of a set of addresses and the conversion
  to a link-layer request are parameters; requests put to a link-layer service are logged.
\<close>

section \<open>The protocol\<close>

record address =
  ad_node_id :: int
  ad_epr_socket_id :: int

record signaling =
  sg_circuits :: "((address \<times> address), int) dict"
  sg_purpose_ids :: "((int \<times> int \<times> int), int) dict"
  sg_next_purpose_id :: int

definition SignalingProtocol :: signaling where
  "SignalingProtocol = \<lparr>sg_circuits = [], sg_purpose_ids = [], sg_next_purpose_id = 0\<rparr>"

definition sg_reset :: "signaling \<Rightarrow> signaling" where
  "sg_reset s = SignalingProtocol"

text \<open>The hash of the frozen set of the two addresses.\<close>

definition get_circuit_id :: "((int \<times> int) set \<Rightarrow> int) \<Rightarrow> address \<Rightarrow> address \<Rightarrow> int" where
  "get_circuit_id hash local remote =
     hash {(ad_node_id local, ad_epr_socket_id local), (ad_node_id remote, ad_epr_socket_id remote)}"

definition setup_circuit :: "((int \<times> int) set \<Rightarrow> int) \<Rightarrow> address \<Rightarrow> address \<Rightarrow> signaling \<Rightarrow> signaling" where
  "setup_circuit hash local remote s =
     s\<lparr>sg_circuits := AList.update (local, remote) (get_circuit_id hash local remote) (sg_circuits s)\<rparr>"

definition has_circuit :: "address \<Rightarrow> address \<Rightarrow> signaling \<Rightarrow> bool" where
  "has_circuit local remote s \<longleftrightarrow> (local, remote) \<in> set (dict_keys (sg_circuits s))
     \<and> (remote, local) \<in> set (dict_keys (sg_circuits s))"

text \<open>The keys of both ends: node, remote node, own socket.\<close>

definition purpose_keys :: "address \<Rightarrow> address \<Rightarrow> (int \<times> int \<times> int) list" where
  "purpose_keys local remote =
     [(ad_node_id local, ad_node_id remote, ad_epr_socket_id local),
      (ad_node_id remote, ad_node_id local, ad_epr_socket_id remote)]"

text \<open>The last key that has an id wins; with none, a new id; then both keys get it.\<close>

definition assign_purpose_id :: "address \<Rightarrow> address \<Rightarrow> signaling \<Rightarrow> signaling" where
  "assign_purpose_id local remote s =
     (let keys = purpose_keys local remote;
          found = fold (\<lambda>key pid. if key \<in> set (dict_keys (sg_purpose_ids s)) then map_of (sg_purpose_ids s) key else pid) keys None;
          (purpose_id, s1) = (case found of None \<Rightarrow> (sg_next_purpose_id s, s\<lparr>sg_next_purpose_id := sg_next_purpose_id s + 1\<rparr>)
                              | Some pid \<Rightarrow> (pid, s))
      in s1\<lparr>sg_purpose_ids := fold (\<lambda>key d. AList.update key purpose_id d) keys (sg_purpose_ids s1)\<rparr>)"

definition get_purpose_id :: "int \<Rightarrow> int \<Rightarrow> int \<Rightarrow> signaling \<Rightarrow> int result" where
  "get_purpose_id node_id remote_node_id epr_socket_id s =
     (case map_of (sg_purpose_ids s) (node_id, remote_node_id, epr_socket_id) of
        None \<Rightarrow> Inl ValueError | Some pid \<Rightarrow> Inr pid)"

section \<open>The network stack of a node\<close>

datatype ll_req = LinkLayerCreate int int | LinkLayerRecv int int

fun ll_remote_node :: "ll_req \<Rightarrow> int" where
  "ll_remote_node (LinkLayerCreate remote purpose) = remote"
| "ll_remote_node (LinkLayerRecv remote purpose) = remote"

record 'q network_stack =
  ns_node_id :: int
  ns_services :: "(int, int) dict"
  ns_put_log :: "(int \<times> 'q) list"

definition ns_put :: "(ll_req \<Rightarrow> 'q) \<Rightarrow> ll_req \<Rightarrow> 'q network_stack \<Rightarrow> 'q network_stack result" where
  "ns_put convert request ns =
     (case map_of (ns_services ns) (ll_remote_node request) of
        None \<Rightarrow> Inl ValueError
      | Some service \<Rightarrow> Inr (ns\<lparr>ns_put_log := ns_put_log ns @ [(service, convert request)]\<rparr>))"

definition get_recv_request :: "address \<Rightarrow> address \<Rightarrow> 'q network_stack \<Rightarrow> signaling \<Rightarrow> ll_req result" where
  "get_recv_request local remote ns s =
     bindE (get_purpose_id (ns_node_id ns) (ad_node_id remote) (ad_epr_socket_id local) s) (\<lambda>purpose_id.
       Inr (LinkLayerRecv (ad_node_id remote) purpose_id))"

definition setup_recv_rule ::
    "(ll_req \<Rightarrow> 'q) \<Rightarrow> address \<Rightarrow> address \<Rightarrow> 'q network_stack \<times> signaling \<Rightarrow> ('q network_stack \<times> signaling) result" where
  "setup_recv_rule convert local remote st =
     (let s1 = assign_purpose_id local remote (snd st) in
      bindE (get_recv_request local remote (fst st) s1) (\<lambda>req.
      bindE (ns_put convert req (fst st)) (\<lambda>ns1. Inr (ns1, s1))))"

text \<open>\<open>setup_epr_socket\<close> up to its wait.\<close>

definition setup_epr_socket ::
    "((int \<times> int) set \<Rightarrow> int) \<Rightarrow> (ll_req \<Rightarrow> 'q) \<Rightarrow> int \<Rightarrow> int \<Rightarrow> int
       \<Rightarrow> 'q network_stack \<times> signaling \<Rightarrow> ('q network_stack \<times> signaling) result" where
  "setup_epr_socket hash convert epr_socket_id remote_node_id remote_epr_socket_id st =
     (let local = \<lparr>ad_node_id = ns_node_id (fst st), ad_epr_socket_id = epr_socket_id\<rparr>;
          remote = \<lparr>ad_node_id = remote_node_id, ad_epr_socket_id = remote_epr_socket_id\<rparr> in
      bindE (setup_recv_rule convert local remote st) (\<lambda>(ns1, s1).
        Inr (ns1, setup_circuit hash local remote s1)))"

text \<open>
  The wait: a check of the state, and the real time once the sleep after it is over.  With
  no further check it still waits.
\<close>

fun wait_for_remote_node ::
    "address \<Rightarrow> address \<Rightarrow> rat \<Rightarrow> rat \<Rightarrow> (signaling \<times> rat) list \<Rightarrow> unit result option" where
  "wait_for_remote_node local remote timeout t_start [] = None"
| "wait_for_remote_node local remote timeout t_start ((s, now) # checks) =
     (if has_circuit local remote s then Some (Inr ())
      else if now - t_start > timeout then Some (Inl TimeoutError)
      else wait_for_remote_node local remote timeout t_start checks)"

section \<open>Facts\<close>

lemma fold_update_keys:
  "map_of (fold (\<lambda>key d. AList.update key pid d) keys d) k = (if k \<in> set keys then Some pid else map_of d k)"
  by (induction keys arbitrary: d) (auto simp: map_of_update)

lemma has_circuit_sym: "has_circuit a b s = has_circuit b a s"
  by (auto simp: has_circuit_def)

lemma circuit_id_sym: "get_circuit_id hash a b = get_circuit_id hash b a"
  by (simp add: get_circuit_id_def insert_commute)

text \<open>The ids in use are below the next one.\<close>

definition purpose_ok :: "signaling \<Rightarrow> bool" where
  "purpose_ok s \<longleftrightarrow> (\<forall>k pid. map_of (sg_purpose_ids s) k = Some pid \<longrightarrow> pid < sg_next_purpose_id s)"

definition purpose_found :: "address \<Rightarrow> address \<Rightarrow> signaling \<Rightarrow> int option" where
  "purpose_found a b s = (case map_of (sg_purpose_ids s) (ad_node_id b, ad_node_id a, ad_epr_socket_id b) of
      Some pid \<Rightarrow> Some pid | None \<Rightarrow> map_of (sg_purpose_ids s) (ad_node_id a, ad_node_id b, ad_epr_socket_id a))"

lemma in_dict_keys: "k \<in> set (dict_keys d) \<longleftrightarrow> map_of d k \<noteq> None"
  by (metis domIff dom_map_of_conv_image_fst list.set_map)

lemma assign_purpose_id_eq:
  "\<exists>pid. (\<forall>k. map_of (sg_purpose_ids (assign_purpose_id a b s)) k
        = (if k \<in> set (purpose_keys a b) then Some pid else map_of (sg_purpose_ids s) k))
     \<and> (case purpose_found a b s of
          Some p \<Rightarrow> pid = p \<and> sg_next_purpose_id (assign_purpose_id a b s) = sg_next_purpose_id s
        | None \<Rightarrow> pid = sg_next_purpose_id s \<and> sg_next_purpose_id (assign_purpose_id a b s) = sg_next_purpose_id s + 1)
     \<and> sg_circuits (assign_purpose_id a b s) = sg_circuits s"
proof -
  let ?k1 = "(ad_node_id a, ad_node_id b, ad_epr_socket_id a)" and ?k2 = "(ad_node_id b, ad_node_id a, ad_epr_socket_id b)"
  let ?f = "\<lambda>key pid. if key \<in> set (dict_keys (sg_purpose_ids s)) then map_of (sg_purpose_ids s) key else pid"
  have f: "fold ?f (purpose_keys a b) None = purpose_found a b s"
    unfolding in_dict_keys purpose_keys_def purpose_found_def by (simp split: option.splits)
  let ?pid = "case purpose_found a b s of None \<Rightarrow> sg_next_purpose_id s | Some p \<Rightarrow> p"
  have "\<forall>k. map_of (sg_purpose_ids (assign_purpose_id a b s)) k
        = (if k \<in> set (purpose_keys a b) then Some ?pid else map_of (sg_purpose_ids s) k)"
    unfolding assign_purpose_id_def Let_def f
    by (cases "purpose_found a b s") (simp_all add: fold_update_keys)
  moreover have "sg_next_purpose_id (assign_purpose_id a b s)
      = sg_next_purpose_id s + (if purpose_found a b s = None then 1 else 0)"
    unfolding assign_purpose_id_def Let_def f by (cases "purpose_found a b s") simp_all
  moreover have "sg_circuits (assign_purpose_id a b s) = sg_circuits s"
    unfolding assign_purpose_id_def Let_def f by (cases "purpose_found a b s") simp_all
  ultimately show ?thesis by (intro exI [of _ ?pid]) (auto split: option.splits)
qed

lemma assign_purpose_ok:
  assumes "purpose_ok s"
  shows "purpose_ok (assign_purpose_id a b s)"
proof -
  obtain pid where p: "\<And>k. map_of (sg_purpose_ids (assign_purpose_id a b s)) k
        = (if k \<in> set (purpose_keys a b) then Some pid else map_of (sg_purpose_ids s) k)"
     "case purpose_found a b s of
          Some p \<Rightarrow> pid = p \<and> sg_next_purpose_id (assign_purpose_id a b s) = sg_next_purpose_id s
        | None \<Rightarrow> pid = sg_next_purpose_id s \<and> sg_next_purpose_id (assign_purpose_id a b s) = sg_next_purpose_id s + 1"
    using assign_purpose_id_eq [of a b s] by blast
  have "p < sg_next_purpose_id s" if "purpose_found a b s = Some p" for p
    using that assms by (auto simp: purpose_found_def purpose_ok_def split: option.splits)
  with p(2) have "pid < sg_next_purpose_id (assign_purpose_id a b s)"
    "sg_next_purpose_id s \<le> sg_next_purpose_id (assign_purpose_id a b s)" by (auto split: option.splits)
  then show ?thesis using assms unfolding purpose_ok_def p(1) by (metis (no_types, lifting) less_le_trans option.inject)
qed

end
