(* ===== verification/QueueProps.thy ===== *)
theory QueueProps
  imports TaskScheduler Signaling
begin

text \<open>
  Properties of the NetQASM simulation's queues, scheduler and signalling protocol.
\<close>

section \<open>The scheduler\<close>

text \<open>
  C16: in every state of the scheduler, after \<open>k\<close> messages were put, the messages waiting, the
  open tasks and the finished messages are together \<open>k\<close>: every message is marked as
  finished at most once, and none is lost.  A round raises only what the handler of the message it
  took raised, what a generator raised (an \<open>IndexError\<close> apart, which is taken for the
  generator's end), or the error of an event that cannot be read; in particular \<open>task_done\<close> is never
  called too often.
\<close>

theorem scheduler_accounts:
  assumes "sched_run k s"
  shows "int (length (tq_items (sc_queue s))) + open_tasks s + int (length (sc_finished_messages s)) = int k
     \<and> tq_unfinished (sc_queue s) = int (length (tq_items (sc_queue s))) + open_tasks s
     \<and> (case run_round handle gen_next c s of
          Inr (ev, s') \<Rightarrow> sched_run k s'
        | Inl err \<Rightarrow> (\<exists>msg rest. tq_items (sc_queue s) = msg # rest \<and> handle msg = Inl err)
            \<or> generator_raises gen_next err)"
proof -
  have "accounts k s" by (rule sched_run_accounts [OF assms])
  then show ?thesis using run_round_accounts(2) [of k s handle gen_next c] sr_round [OF assms, of handle gen_next c]
    by (auto simp: accounts_def split: sum.split)
qed

text \<open>
  Two messages put; the first will start a task, the second is done at once; a message of another
  kind has an unknown signal.
\<close>

definition ex_handle :: "string \<Rightarrow> nat handler_output result" where
  "ex_handle m = (if m = ''sub'' then Inr (SubroutineGenerator 0)
     else if m = ''init'' then Inr NoGenerator else Inl ValueError)"

definition ex_next :: "nat \<Rightarrow> (sim_event \<times> nat) option result" where
  "ex_next g = (if g = 0 then Inr (Some (EventType ''WAIT'', 1)) else if g = 1 then Inr None else Inl TimeoutError)"

definition ex_sched :: "(nat, string) scheduler" where
  "ex_sched = new_scheduler\<lparr>sc_queue := tq_put ''init'' (tq_put ''sub'' TaskQueue)\<rparr>"

theorem scheduler_accounts_witness:
  "\<exists>ev s'. run_round ex_handle ex_next 0 ex_sched = Inr (ev, s') \<and> sched_run 2 s'"
proof -
  have "sched_run 2 ex_sched"
    using sr_put [OF sr_put [OF sr_new], of "''init''" "''sub''"]
    by (simp add: numeral_2_eq_2 ex_sched_def new_scheduler_def)
  from scheduler_accounts [OF this, of ex_handle ex_next 0]
  have "case run_round ex_handle ex_next 0 ex_sched of Inr (ev, s') \<Rightarrow> sched_run 2 s' | Inl err \<Rightarrow> True"
    by (auto split: sum.splits)
  moreover have "case run_round ex_handle ex_next 0 ex_sched of Inr x \<Rightarrow> True | Inl err \<Rightarrow> False" by code_simp
  ultimately show ?thesis by (auto split: sum.splits)
qed

section \<open>The queues\<close>

text \<open>
  C36: identical messages.  After the same message was put, taken and marked as done \<open>n\<close>
  times, with \<open>n\<close> at least one, nothing is unfinished, but waiting for that message returns
  once only: the second wait never does.
\<close>

theorem duplicate_tasks_collapse:
  assumes "0 < n"
  shows "\<exists>q q'. queue_ops (replicate n (QPut x) @ replicate n QGet @ replicate n (QDone x)) TaskQueue = Some q
     \<and> tq_items q = [] \<and> tq_join q = Some () \<and> tq_join_task x q = Some q' \<and> tq_join_task x q' = None"
proof -
  have app: "queue_ops (as @ bs) q = (case queue_ops as q of None \<Rightarrow> None | Some q' \<Rightarrow> queue_ops bs q')"
    for as bs and q :: "'a task_queue"
    by (induction "as" arbitrary: q) (auto split: option.splits)
  have puts: "queue_ops (replicate k (QPut x)) q = Some (q\<lparr>tq_items := tq_items q @ replicate k x, tq_unfinished := tq_unfinished q + int k\<rparr>)" for k q
    by (induction k arbitrary: q) (simp_all add: tq_put_def replicate_append_same)
  have gets: "queue_ops (replicate k QGet) q = Some (q\<lparr>tq_items := []\<rparr>)" if "tq_items q = replicate k x" for k q
    using that by (induction k arbitrary: q) (simp_all add: tq_get_def)
  have dones: "queue_ops (replicate k (QDone x)) q = Some (q\<lparr>tq_unfinished := tq_unfinished q - int k,
        tq_fin_tasks := (if k = 0 then tq_fin_tasks q else List.insert x (tq_fin_tasks q))\<rparr>)"
    if "tq_unfinished q \<ge> int k" for k q
    using that by (induction k arbitrary: q) (simp_all add: tq_task_done_def)
  let ?q = "\<lparr>tq_items = [], tq_unfinished = 0, tq_fin_tasks = [x]\<rparr>"
  have "queue_ops (replicate n (QPut x) @ replicate n QGet @ replicate n (QDone x)) TaskQueue = Some ?q"
    using assms by (simp add: app puts gets dones TaskQueue_def)
  then show ?thesis by (intro exI [of _ ?q] exI [of _ TaskQueue]) (simp add: tq_join_def tq_join_task_def TaskQueue_def)
qed

theorem duplicate_tasks_collapse_witness:
  "\<exists>q q'. queue_ops [QPut ''m'', QPut ''m'', QGet, QGet, QDone ''m'', QDone ''m''] TaskQueue = Some q
     \<and> tq_join_task ''m'' q = Some q' \<and> tq_join_task ''m'' q' = None"
  using duplicate_tasks_collapse [of 2 "''m''"] by (auto simp: numeral_2_eq_2)

section \<open>Purpose ids\<close>

text \<open>Sockets set up one after the other, each as its node's address and its partner's.\<close>

definition assign_all :: "(address \<times> address) list \<Rightarrow> signaling" where
  "assign_all ps = fold (\<lambda>(a, b). assign_purpose_id a b) ps SignalingProtocol"

text \<open>Every socket has one partner: circuits that share a key are the same.\<close>

definition one_partner :: "(address \<times> address) list \<Rightarrow> bool" where
  "one_partner ps \<longleftrightarrow> (\<forall>(a, b) \<in> set ps. \<forall>(c, d) \<in> set ps.
     set (purpose_keys a b) \<inter> set (purpose_keys c d) \<noteq> {} \<longrightarrow> {a, b} = {c, d})"

definition purpose_inv :: "(address \<times> address) list \<Rightarrow> signaling \<Rightarrow> bool" where
  "purpose_inv ps s \<longleftrightarrow>
     (\<forall>(a, b) \<in> set ps. \<exists>pid. \<forall>k \<in> set (purpose_keys a b). map_of (sg_purpose_ids s) k = Some pid)
   \<and> (\<forall>k pid. map_of (sg_purpose_ids s) k = Some pid \<longrightarrow> pid < sg_next_purpose_id s \<and> (\<exists>(a, b) \<in> set ps. k \<in> set (purpose_keys a b)))
   \<and> (\<forall>k l pid. map_of (sg_purpose_ids s) k = Some pid \<longrightarrow> map_of (sg_purpose_ids s) l = Some pid \<longrightarrow>
        (\<exists>(a, b) \<in> set ps. k \<in> set (purpose_keys a b) \<and> l \<in> set (purpose_keys a b)))"

lemma purpose_keys_sym: "{a, b} = {c, d} \<Longrightarrow> set (purpose_keys a b) = set (purpose_keys c d)"
  by (auto simp: purpose_keys_def doubleton_eq_iff)

lemma one_partner_subset: "one_partner ys \<Longrightarrow> set xs \<subseteq> set ys \<Longrightarrow> one_partner xs"
  unfolding one_partner_def by (intro ballI) (fast dest: bspec subsetD)

lemma purpose_inv_step:
  assumes "purpose_inv ps s" and "one_partner (ps @ [(a, b)])"
  shows "purpose_inv (ps @ [(a, b)]) (assign_purpose_id a b s)"
proof -
  note inv = assms(1) [unfolded purpose_inv_def]
  obtain pid where p: "\<And>k. map_of (sg_purpose_ids (assign_purpose_id a b s)) k
        = (if k \<in> set (purpose_keys a b) then Some pid else map_of (sg_purpose_ids s) k)"
     "case purpose_found a b s of
          Some p \<Rightarrow> pid = p \<and> sg_next_purpose_id (assign_purpose_id a b s) = sg_next_purpose_id s
        | None \<Rightarrow> pid = sg_next_purpose_id s \<and> sg_next_purpose_id (assign_purpose_id a b s) = sg_next_purpose_id s + 1"
    using assign_purpose_id_eq [of a b s] by blast
  have same: "set (purpose_keys c d) = set (purpose_keys a b)"
    if "(c, d) \<in> set ps" "k \<in> set (purpose_keys c d)" "k \<in> set (purpose_keys a b)" for c d k
  proof -
    have "{c, d} = {a, b}" using assms(2) that unfolding one_partner_def by fastforce
    then show ?thesis by (rule purpose_keys_sym)
  qed
  let ?m = "\<lambda>k. map_of (sg_purpose_ids s) k" and ?m' = "\<lambda>k. map_of (sg_purpose_ids (assign_purpose_id a b s)) k"
  have inv1: "\<exists>pid. \<forall>k \<in> set (purpose_keys c d). ?m k = Some pid" if "(c, d) \<in> set ps" for c d
    using inv that by fast
  have inv2: "pid < sg_next_purpose_id s" "\<exists>(c, d) \<in> set ps. k \<in> set (purpose_keys c d)" if "?m k = Some pid" for k pid
    using inv that by fast+
  have inv3: "\<exists>(c, d) \<in> set ps. k \<in> set (purpose_keys c d) \<and> l \<in> set (purpose_keys c d)" if "?m k = Some pid" "?m l = Some pid" for k l pid
    using inv that by fast
  show ?thesis
  proof (cases "purpose_found a b s")
    case None
    then have free: "?m k = None" if "k \<in> set (purpose_keys a b)" for k
      using that by (auto simp: purpose_found_def purpose_keys_def split: option.splits)
    have pid: "pid = sg_next_purpose_id s" "sg_next_purpose_id (assign_purpose_id a b s) = sg_next_purpose_id s + 1"
      using p(2) None by simp_all
    have old: "?m' k = ?m k" if "(c, d) \<in> set ps" "k \<in> set (purpose_keys c d)" for c d k
    proof -
      have "?m k \<noteq> None" using inv1 [OF that(1)] that(2) by fast
      then have "k \<notin> set (purpose_keys a b)" by (rule contrapos_nn) (rule free)
      then show ?thesis by (simp add: p(1))
    qed
    have less: "?m k = Some pid' \<Longrightarrow> pid' < pid" for k pid' using inv2(1) pid(1) by blast
    show ?thesis
      unfolding purpose_inv_def
    proof (intro conjI allI impI ballI)
      fix x assume x: "x \<in> set (ps @ [(a, b)])"
      obtain c d where cd: "x = (c, d)" by (cases x)
      have "\<exists>pid. \<forall>k \<in> set (purpose_keys c d). ?m' k = Some pid"
      proof (cases "(c, d) \<in> set ps")
        case True
        then show ?thesis using inv1 [OF True] old [OF True] by simp
      next
        case False
        then show ?thesis using x by (simp add: cd p(1))
      qed
      then show "case x of (c, d) \<Rightarrow> \<exists>pid. \<forall>k \<in> set (purpose_keys c d). ?m' k = Some pid" by (simp add: cd)
    next
      fix k pid' assume k: "?m' k = Some pid'"
      then show "pid' < sg_next_purpose_id (assign_purpose_id a b s)"
        using less [of k pid'] pid p(1) [of k] by (auto split: if_splits)
      show "\<exists>(c, d) \<in> set (ps @ [(a, b)]). k \<in> set (purpose_keys c d)"
        using k inv2(2) [of k pid'] p(1) [of k] by (auto split: if_splits)
    next
      fix k l pid' assume kl: "?m' k = Some pid'" "?m' l = Some pid'"
      have "k \<in> set (purpose_keys a b) \<longleftrightarrow> l \<in> set (purpose_keys a b)"
        using kl less p(1) by (metis less_irrefl option.inject)
      then show "\<exists>(c, d) \<in> set (ps @ [(a, b)]). k \<in> set (purpose_keys c d) \<and> l \<in> set (purpose_keys c d)"
        using kl inv3 [of k pid' l] p(1) [of k] p(1) [of l] by (auto split: if_splits)
    qed
  next
    case (Some q)
    then obtain k where k: "k \<in> set (purpose_keys a b)" "?m k = Some q"
      by (auto simp: purpose_found_def purpose_keys_def split: option.splits)
    obtain c d where cd: "(c, d) \<in> set ps" "k \<in> set (purpose_keys c d)" using inv2(2) [OF k(2)] by blast
    have eq: "set (purpose_keys c d) = set (purpose_keys a b)" using same [OF cd k(1)] .
    have all: "?m l = Some q" if "l \<in> set (purpose_keys a b)" for l
      using inv1 [OF cd(1)] k that unfolding eq by (metis)
    have new: "?m' l = ?m l" for l using p Some all by simp
    have nx: "sg_next_purpose_id (assign_purpose_id a b s) = sg_next_purpose_id s" using p(2) Some by simp
    show ?thesis
      unfolding purpose_inv_def new nx set_append ball_Un bex_Un
    proof (intro conjI allI impI)
      show "\<forall>(c, d) \<in> set ps. \<exists>pid. \<forall>k \<in> set (purpose_keys c d). ?m k = Some pid" using inv by blast
      show "\<forall>(c, d) \<in> set [(a, b)]. \<exists>pid. \<forall>k \<in> set (purpose_keys c d). ?m k = Some pid" using all by simp
    qed (use inv2 inv3 in blast)+
  qed
qed

text \<open>
  C21: when sockets are set up in any order, every socket with one partner only, both ends
  get the same purpose id, and different circuits get different ones.
\<close>

theorem purpose_ids_agree:
  assumes "one_partner ps" and "(a, b) \<in> set ps" and "(c, d) \<in> set ps"
  shows "\<exists>pid pid'. get_purpose_id (ad_node_id a) (ad_node_id b) (ad_epr_socket_id a) (assign_all ps) = Inr pid
     \<and> get_purpose_id (ad_node_id b) (ad_node_id a) (ad_epr_socket_id b) (assign_all ps) = Inr pid
     \<and> get_purpose_id (ad_node_id c) (ad_node_id d) (ad_epr_socket_id c) (assign_all ps) = Inr pid'
     \<and> (pid = pid' \<longleftrightarrow> {a, b} = {c, d})"
proof -
  have "purpose_inv ps (assign_all ps)"
    using assms(1)
  proof (induction ps rule: rev_induct)
    case Nil
    then show ?case by (simp add: purpose_inv_def assign_all_def SignalingProtocol_def)
  next
    case (snoc x xs)
    obtain a b where x: "x = (a, b)" by (cases x)
    have "one_partner xs" by (rule one_partner_subset [OF snoc.prems]) auto
    from purpose_inv_step [OF snoc.IH [OF this], of a b] snoc.prems show ?case by (simp add: assign_all_def x)
  qed
  then have inv1: "\<exists>pid. \<forall>k \<in> set (purpose_keys a b). map_of (sg_purpose_ids (assign_all ps)) k = Some pid"
      "\<exists>pid. \<forall>k \<in> set (purpose_keys c d). map_of (sg_purpose_ids (assign_all ps)) k = Some pid"
    and inv3: "\<And>k l pid. map_of (sg_purpose_ids (assign_all ps)) k = Some pid \<Longrightarrow> map_of (sg_purpose_ids (assign_all ps)) l = Some pid \<Longrightarrow>
        (\<exists>(a, b) \<in> set ps. k \<in> set (purpose_keys a b) \<and> l \<in> set (purpose_keys a b))"
    using assms(2,3) unfolding purpose_inv_def by fast+
  from inv1 obtain pid pid' where ids: "\<forall>k \<in> set (purpose_keys a b). map_of (sg_purpose_ids (assign_all ps)) k = Some pid"
    "\<forall>k \<in> set (purpose_keys c d). map_of (sg_purpose_ids (assign_all ps)) k = Some pid'" by blast
  have "{a, b} = {c, d}" if "pid = pid'"
  proof -
    let ?k = "(ad_node_id a, ad_node_id b, ad_epr_socket_id a)" and ?l = "(ad_node_id c, ad_node_id d, ad_epr_socket_id c)"
    have "?k \<in> set (purpose_keys a b)" "?l \<in> set (purpose_keys c d)" by (simp_all add: purpose_keys_def)
    with inv3 [of ?k pid ?l] ids that obtain e f where ef: "(e, f) \<in> set ps" "?k \<in> set (purpose_keys e f)" "?l \<in> set (purpose_keys e f)"
      by auto
    then have "{a, b} = {e, f}" "{c, d} = {e, f}"
      using assms \<open>?k \<in> set (purpose_keys a b)\<close> \<open>?l \<in> set (purpose_keys c d)\<close> unfolding one_partner_def by fastforce+
    then show ?thesis by simp
  qed
  moreover have "pid = pid'" if "{a, b} = {c, d}"
  proof -
    have "(ad_node_id a, ad_node_id b, ad_epr_socket_id a) \<in> set (purpose_keys a b)" by (simp add: purpose_keys_def)
    with ids purpose_keys_sym [OF that] show ?thesis by (metis option.inject)
  qed
  ultimately show ?thesis using ids by (intro exI [of _ pid] exI [of _ pid']) (auto simp: get_purpose_id_def purpose_keys_def)
qed

definition ex_address :: "int \<Rightarrow> int \<Rightarrow> address" where
  "ex_address n k = \<lparr>ad_node_id = n, ad_epr_socket_id = k\<rparr>"

theorem purpose_ids_agree_witness:
  "\<exists>pid pid'. get_purpose_id 0 1 0 (assign_all [(ex_address 0 0, ex_address 1 5), (ex_address 1 6, ex_address 0 1), (ex_address 1 5, ex_address 0 0)]) = Inr pid
     \<and> get_purpose_id 1 0 5 (assign_all [(ex_address 0 0, ex_address 1 5), (ex_address 1 6, ex_address 0 1), (ex_address 1 5, ex_address 0 0)]) = Inr pid
     \<and> pid \<noteq> pid'
     \<and> get_purpose_id 1 0 6 (assign_all [(ex_address 0 0, ex_address 1 5), (ex_address 1 6, ex_address 0 1), (ex_address 1 5, ex_address 0 0)]) = Inr pid'"
proof -
  let ?ps = "[(ex_address 0 0, ex_address 1 5), (ex_address 1 6, ex_address 0 1), (ex_address 1 5, ex_address 0 0)]"
  have "one_partner ?ps" by (auto simp: one_partner_def purpose_keys_def ex_address_def)
  from purpose_ids_agree [OF this, of "ex_address 0 0" "ex_address 1 5" "ex_address 1 6" "ex_address 0 1"]
  show ?thesis by (auto simp: ex_address_def doubleton_eq_iff)
qed

end
