(* ===== verification/NVDevice.thy ===== *)
theory NVDevice
  imports NodeState
begin

text \<open>
  The description of NV hardware (\<open>squidasm/sim/network/nv_config.py\<close>): the configuration
  read from a dictionary, and the device built from it, with every physical instruction's
  positions, noise and duration.  Floats are rationals; the square roots of the
  measurement operators are real numbers.
\<close>

section \<open>Configuration\<close>

text \<open>The numbers of the file are integers or floats; nothing converts them.\<close>

datatype py_num = PyInt int | PyFloat rat

fun num_of :: "py_num \<Rightarrow> rat" where
  "num_of (PyInt i) = of_int i"
| "num_of (PyFloat q) = q"

record nv_config =
  cf_num_qubits :: py_num
  cf_electron_init_depolar_prob :: py_num
  cf_electron_single_qubit_depolar_prob :: py_num
  cf_prob_error_0 :: py_num
  cf_prob_error_1 :: py_num
  cf_carbon_init_depolar_prob :: py_num
  cf_carbon_z_rot_depolar_prob :: py_num
  cf_ec_gate_depolar_prob :: py_num
  cf_electron_T1 :: py_num
  cf_electron_T2 :: py_num
  cf_carbon_T1 :: py_num
  cf_carbon_T2 :: py_num
  cf_carbon_init :: py_num
  cf_carbon_rot_x :: py_num
  cf_carbon_rot_y :: py_num
  cf_carbon_rot_z :: py_num
  cf_electron_init :: py_num
  cf_electron_rot_x :: py_num
  cf_electron_rot_y :: py_num
  cf_electron_rot_z :: py_num
  cf_ec_controlled_dir_x :: py_num
  cf_ec_controlled_dir_y :: py_num
  cf_measure :: py_num
  cf_instr_proc_time :: py_num
  cf_host_latency :: py_num

definition nv_config_keys :: "string list" where
  "nv_config_keys =
     [''num_qubits'', ''electron_init_depolar_prob'', ''electron_single_qubit_depolar_prob'',
      ''prob_error_0'', ''prob_error_1'', ''carbon_init_depolar_prob'', ''carbon_z_rot_depolar_prob'',
      ''ec_gate_depolar_prob'', ''electron_T1'', ''electron_T2'', ''carbon_T1'', ''carbon_T2'',
      ''carbon_init'', ''carbon_rot_x'', ''carbon_rot_y'', ''carbon_rot_z'',
      ''electron_init'', ''electron_rot_x'', ''electron_rot_y'', ''electron_rot_z'',
      ''ec_controlled_dir_x'', ''ec_controlled_dir_y'', ''measure'', ''instr_proc_time'', ''host_latency'']"

text \<open>The \<open>KeyError\<close> of a missing key is caught and becomes a \<open>ValueError\<close>.\<close>

definition parse_nv_config :: "(string, py_num) dict \<Rightarrow> nv_config result" where
  "parse_nv_config cfg =
     (let v = (\<lambda>key. the (map_of cfg key)) in
      if \<exists>key \<in> set nv_config_keys. map_of cfg key = None then Inl ValueError
      else Inr \<lparr>
        cf_num_qubits = v ''num_qubits'',
        cf_electron_init_depolar_prob = v ''electron_init_depolar_prob'',
        cf_electron_single_qubit_depolar_prob = v ''electron_single_qubit_depolar_prob'',
        cf_prob_error_0 = v ''prob_error_0'',
        cf_prob_error_1 = v ''prob_error_1'',
        cf_carbon_init_depolar_prob = v ''carbon_init_depolar_prob'',
        cf_carbon_z_rot_depolar_prob = v ''carbon_z_rot_depolar_prob'',
        cf_ec_gate_depolar_prob = v ''ec_gate_depolar_prob'',
        cf_electron_T1 = v ''electron_T1'',
        cf_electron_T2 = v ''electron_T2'',
        cf_carbon_T1 = v ''carbon_T1'',
        cf_carbon_T2 = v ''carbon_T2'',
        cf_carbon_init = v ''carbon_init'',
        cf_carbon_rot_x = v ''carbon_rot_x'',
        cf_carbon_rot_y = v ''carbon_rot_y'',
        cf_carbon_rot_z = v ''carbon_rot_z'',
        cf_electron_init = v ''electron_init'',
        cf_electron_rot_x = v ''electron_rot_x'',
        cf_electron_rot_y = v ''electron_rot_y'',
        cf_electron_rot_z = v ''electron_rot_z'',
        cf_ec_controlled_dir_x = v ''ec_controlled_dir_x'',
        cf_ec_controlled_dir_y = v ''ec_controlled_dir_y'',
        cf_measure = v ''measure'',
        cf_instr_proc_time = v ''instr_proc_time'',
        cf_host_latency = v ''host_latency''\<rparr>)"

section \<open>Devices\<close>

text \<open>
  An instruction with the positions it may act on, each a list (\<open>None\<close> is any), the rate of
  its depolarising noise (\<open>None\<close> is none), and its duration.
\<close>

record phys_instr =
  pn_instr :: ns_instr
  pn_topology :: "int list list option"
  pn_depolar_rate :: "rat option"
  pn_duration :: rat

record qdevice =
  qd_name :: string
  qd_num_positions :: int
  qd_instrs :: "phys_instr list"
  qd_noise :: "(rat \<times> rat) list"

definition phys_instr_on :: "ns_instr \<Rightarrow> int list list \<Rightarrow> py_num option \<Rightarrow> py_num \<Rightarrow> phys_instr" where
  "phys_instr_on i topology noise duration =
     \<lparr>pn_instr = i, pn_topology = Some topology, pn_depolar_rate = map_option num_of noise,
      pn_duration = num_of duration\<rparr>"

text \<open>\<open>range\<close> takes no float.\<close>

fun count_of :: "py_num \<Rightarrow> int result" where
  "count_of (PyInt n) = Inr n"
| "count_of (PyFloat q) = Inl TypeError"

definition carbon_positions :: "int \<Rightarrow> int list" where
  "carbon_positions num_qubits = map (\<lambda>pos. pos + 1) (py_range (num_qubits - 1))"

definition nv_phys_instructions :: "nv_config \<Rightarrow> int list \<Rightarrow> phys_instr list" where
  "nv_phys_instructions cfg carbon_pos =
     (let carbons = map (\<lambda>pos. [pos]) carbon_pos; pairs = map (\<lambda>pos. [0, pos]) carbon_pos in
      [phys_instr_on INSTR_INIT carbons (Some (cf_carbon_init_depolar_prob cfg)) (cf_carbon_init cfg)]
      @ map (\<lambda>(instr, dur). phys_instr_on instr carbons (Some (cf_carbon_z_rot_depolar_prob cfg)) dur)
          (zip [INSTR_ROT_X, INSTR_ROT_Y, INSTR_ROT_Z] [cf_carbon_rot_x cfg, cf_carbon_rot_y cfg, cf_carbon_rot_z cfg])
      @ [phys_instr_on INSTR_INIT [[0]] (Some (cf_electron_init_depolar_prob cfg)) (cf_electron_init cfg)]
      @ map (\<lambda>(instr, dur). phys_instr_on instr [[0]] (Some (cf_electron_single_qubit_depolar_prob cfg)) dur)
          (zip [INSTR_ROT_X, INSTR_ROT_Y, INSTR_ROT_Z]
            [cf_electron_rot_x cfg, cf_electron_rot_y cfg, cf_electron_rot_z cfg])
      @ [phys_instr_on INSTR_CXDIR pairs (Some (cf_ec_gate_depolar_prob cfg)) (cf_ec_controlled_dir_x cfg),
         phys_instr_on INSTR_CYDIR pairs (Some (cf_ec_gate_depolar_prob cfg)) (cf_ec_controlled_dir_y cfg),
         phys_instr_on INSTR_MEASURE [[0]] None (cf_measure cfg)])"

definition build_nv_qdevice :: "string \<Rightarrow> nv_config \<Rightarrow> qdevice result" where
  "build_nv_qdevice name cfg =
     bindE (count_of (cf_num_qubits cfg)) (\<lambda>num_qubits.
       let carbon_pos = carbon_positions num_qubits in
       Inr \<lparr>qd_name = name, qd_num_positions = num_qubits,
            qd_instrs = nv_phys_instructions cfg carbon_pos,
            qd_noise = (num_of (cf_electron_T1 cfg), num_of (cf_electron_T2 cfg))
              # replicate (length carbon_pos) (num_of (cf_carbon_T1 cfg), num_of (cf_carbon_T2 cfg))\<rparr>)"

text \<open>The diagonals of the two measurement operators.\<close>

definition meas_operators :: "nv_config \<Rightarrow> (real \<times> real) \<times> (real \<times> real)" where
  "meas_operators cfg =
     ((sqrt (of_rat (1 - num_of (cf_prob_error_0 cfg))), sqrt (of_rat (num_of (cf_prob_error_1 cfg)))),
      (sqrt (of_rat (num_of (cf_prob_error_0 cfg))), sqrt (of_rat (1 - num_of (cf_prob_error_1 cfg)))))"

section \<open>What a device can do\<close>

text \<open>The device has an instruction for this operation on these positions.\<close>

definition device_can :: "qdevice \<Rightarrow> ns_instr \<Rightarrow> int list \<Rightarrow> bool" where
  "device_can d i ps \<longleftrightarrow> (\<exists>pi \<in> set (qd_instrs d). pn_instr pi = i \<and> (case pn_topology pi of
       None \<Rightarrow> set ps \<subseteq> set (py_range (qd_num_positions d)) | Some topology \<Rightarrow> ps \<in> set topology))"

fun op_possible :: "qdevice \<Rightarrow> ns_op \<Rightarrow> bool" where
  "op_possible d (NsOp i ps ang) = (None \<notin> set ps \<and> device_can d i (map the ps))"

lemma set_carbon_positions: "set (carbon_positions k) = {1..<k}"
proof -
  have "set (carbon_positions k) = (\<lambda>pos. pos + 1) ` {0..<k - 1}" by (simp add: carbon_positions_def)
  also have "\<dots> = {1..<k}" by (auto simp: image_def intro: bexI [of _ "_ - 1"])
  finally show ?thesis .
qed

text \<open>On a device built from a configuration with \<open>k\<close> qubits.\<close>

lemma build_nv_can:
  assumes "build_nv_qdevice name cfg = Inr d" and "cf_num_qubits cfg = PyInt k"
  shows "device_can d INSTR_INIT [p] \<longleftrightarrow> p = 0 \<or> 1 \<le> p \<and> p < k"
    and "i \<in> {INSTR_ROT_X, INSTR_ROT_Y, INSTR_ROT_Z} \<Longrightarrow> device_can d i [p] \<longleftrightarrow> p = 0 \<or> 1 \<le> p \<and> p < k"
    and "i \<in> {INSTR_CXDIR, INSTR_CYDIR} \<Longrightarrow> device_can d i [p, q] \<longleftrightarrow> p = 0 \<and> 1 \<le> q \<and> q < k"
    and "device_can d INSTR_MEASURE [p] \<longleftrightarrow> p = 0"
proof -
  have d: "qd_instrs d = nv_phys_instructions cfg (carbon_positions k)"
    using assms by (auto simp: build_nv_qdevice_def Let_def)
  note defs = device_can_def d nv_phys_instructions_def Let_def phys_instr_on_def set_carbon_positions image_iff
  show "device_can d INSTR_INIT [p] \<longleftrightarrow> p = 0 \<or> 1 \<le> p \<and> p < k"
    and "i \<in> {INSTR_ROT_X, INSTR_ROT_Y, INSTR_ROT_Z} \<Longrightarrow> device_can d i [p] \<longleftrightarrow> p = 0 \<or> 1 \<le> p \<and> p < k"
    and "i \<in> {INSTR_CXDIR, INSTR_CYDIR} \<Longrightarrow> device_can d i [p, q] \<longleftrightarrow> p = 0 \<and> 1 \<le> q \<and> q < k"
    and "device_can d INSTR_MEASURE [p] \<longleftrightarrow> p = 0"
    by (auto simp: defs)
qed

end
