(* ===== verification/SimRegistry.thy ===== *)
theory SimRegistry
  imports Directory
begin

text \<open>
  The registry of the running simulation (\<open>squidasm/sim/glob.py\<close>) and the logger of
  instructions that keeps it up to date (\<open>squidasm/nqasm/output.py\<close>).  The module variables
  are the fields of a record.  A call that waits for a backend that is not there is \<open>None\<close>.
  What the devices hold is the parameter \<open>peek\<close>: reading a position gives a qubit or none.
\<close>

section \<open>The running backend\<close>

record backend_node =
  bn_name :: string
  bn_id :: int
  bn_num_positions :: int

record backend =
  be_nodes :: "(string, backend_node) dict"
  be_app_node_map :: "(string, backend_node) dict"

record registry =
  rg_backend :: "backend option"
  rg_qubits_in_use :: "(string \<times> int, bool) dict"

definition get_running_backend :: "bool \<Rightarrow> registry \<Rightarrow> backend option option" where
  "get_running_backend block r =
     (case rg_backend r of Some b \<Rightarrow> Some (Some b) | None \<Rightarrow> if block then None else Some None)"

text \<open>What every accessor does with the backend it gets.\<close>

definition on_backend :: "bool \<Rightarrow> (backend \<Rightarrow> 'a result) \<Rightarrow> registry \<Rightarrow> 'a result option" where
  "on_backend block f r =
     map_option (\<lambda>b. case b of None \<Rightarrow> Inl RuntimeError | Some be \<Rightarrow> f be) (get_running_backend block r)"

definition get_current_nodes :: "bool \<Rightarrow> registry \<Rightarrow> (string, backend_node) dict result option" where
  "get_current_nodes block = on_backend block (\<lambda>b. Inr (be_nodes b))"

definition get_current_node_names :: "bool \<Rightarrow> registry \<Rightarrow> string list result option" where
  "get_current_node_names block = on_backend block (\<lambda>b. Inr (dict_keys (be_nodes b)))"

definition node_ids :: "backend \<Rightarrow> (string, int) dict" where
  "node_ids b = map (\<lambda>(name, node). (name, bn_id node)) (be_nodes b)"

definition get_current_node_ids :: "bool \<Rightarrow> registry \<Rightarrow> (string, int) dict result option" where
  "get_current_node_ids block = on_backend block (\<lambda>b. Inr (node_ids b))"

definition get_current_app_node_mapping :: "bool \<Rightarrow> registry \<Rightarrow> (string, backend_node) dict result option" where
  "get_current_app_node_mapping block = on_backend block (\<lambda>b. Inr (be_app_node_map b))"

text \<open>The lookups: on the dictionaries they get, and behind the wait for the backend.\<close>

definition node_for_app :: "(string, backend_node) dict \<Rightarrow> string \<Rightarrow> backend_node result" where
  "node_for_app app_node_map app_name =
     (case map_of app_node_map app_name of None \<Rightarrow> Inl ValueError | Some node \<Rightarrow> Inr node)"

definition app_node_id :: "string \<Rightarrow> registry \<Rightarrow> int result option" where
  "app_node_id app_name = on_backend True (\<lambda>b. bindE (node_for_app (be_app_node_map b) app_name) (\<lambda>n. Inr (bn_id n)))"

definition app_node_name :: "string \<Rightarrow> registry \<Rightarrow> string result option" where
  "app_node_name app_name = on_backend True (\<lambda>b. bindE (node_for_app (be_app_node_map b) app_name) (\<lambda>n. Inr (bn_name n)))"

definition node_id_in :: "(string, int) dict \<Rightarrow> string \<Rightarrow> int result" where
  "node_id_in ids name = (case map_of ids name of None \<Rightarrow> Inl ValueError | Some i \<Rightarrow> Inr i)"

definition node_name_in :: "(string, int) dict \<Rightarrow> int \<Rightarrow> string result" where
  "node_name_in ids node_id =
     (case List.find (\<lambda>(name, i). i = node_id) ids of None \<Rightarrow> Inl ValueError | Some (name, i) \<Rightarrow> Inr name)"

definition sim_node_id :: "string \<Rightarrow> registry \<Rightarrow> int result option" where
  "sim_node_id name = on_backend True (\<lambda>b. node_id_in (node_ids b) name)"

definition sim_node_name :: "int \<Rightarrow> registry \<Rightarrow> string result option" where
  "sim_node_name node_id = on_backend True (\<lambda>b. node_name_in (node_ids b) node_id)"

definition put_current_backend :: "backend \<Rightarrow> registry \<Rightarrow> registry result" where
  "put_current_backend b r =
     (if rg_backend r \<noteq> None then Inl RuntimeError else Inr (r\<lparr>rg_backend := Some b\<rparr>))"

definition pop_current_backend :: "registry \<Rightarrow> registry" where
  "pop_current_backend r = r\<lparr>rg_backend := None\<rparr>"

text \<open>Names are keys; with distinct ids the lookups are a directory like the stack's.\<close>

definition ids_ok :: "(string, int) dict \<Rightarrow> bool" where
  "ids_ok ids \<longleftrightarrow> dict_ok ids \<and> distinct (map snd ids)"

lemma node_name_in_iff:
  assumes "ids_ok ids"
  shows "node_name_in ids i = Inr s \<longleftrightarrow> (s, i) \<in> set ids"
proof
  assume "node_name_in ids i = Inr s"
  then show "(s, i) \<in> set ids" by (auto simp: node_name_in_def split: option.splits dest: find_SomeD)
next
  assume m: "(s, i) \<in> set ids"
  then have "List.find (\<lambda>(name, j). j = i) ids \<noteq> None" by (auto simp: find_None_iff)
  then obtain t j where f: "List.find (\<lambda>(name, j). j = i) ids = Some (t, j)" by auto
  then have "(t, i) \<in> set ids" by (auto dest: find_SomeD)
  moreover have "inj_on snd (set ids)" using assms by (simp add: ids_ok_def distinct_map)
  ultimately have "(t, i) = (s, i)" using m by (metis inj_onD snd_conv)
  with f show "node_name_in ids i = Inr s" by (simp add: node_name_in_def)
qed

interpretation sim_directory: node_directory ids_ok node_id_in node_name_in
proof
  fix ids i s
  assume ok: "ids_ok ids"
  have m: "(s, i) \<in> set ids \<longleftrightarrow> map_of ids s = Some i" using ok dict_in_iff unfolding ids_ok_def by metis
  have "node_id_in ids s = Inr i \<longleftrightarrow> (s, i) \<in> set ids"
    unfolding m node_id_in_def by (cases "map_of ids s") simp_all
  then show "node_name_in ids i = Inr s \<Longrightarrow> node_id_in ids s = Inr i"
    and "node_id_in ids s = Inr i \<Longrightarrow> node_name_in ids i = Inr s"
    using node_name_in_iff [OF ok] by simp_all
qed

section \<open>Qubits in use\<close>

definition update_qubits_used :: "string \<Rightarrow> int \<Rightarrow> bool \<Rightarrow> registry \<Rightarrow> registry" where
  "update_qubits_used node_name pos used r =
     r\<lparr>rg_qubits_in_use := AList.update (node_name, pos) used (rg_qubits_in_use r)\<rparr>"

text \<open>
  A qubit: the hash of its state object, the number of qubits of that state, whether it
  is entangled (\<open>None\<close> is undecided), and its own reduced density matrix.
\<close>

record 'd sim_qubit =
  sq_state :: int
  sq_num_qubits :: nat
  sq_entangled :: "bool option"
  sq_dm :: 'd

record 'd qubit_group =
  qg_is_entangled :: "bool option"
  qg_qubit_ids :: "(string \<times> int) list"
  qg_state :: "'d option"

type_synonym 'd groups = "(int, 'd qubit_group) dict"

definition add_to_group :: "string \<Rightarrow> int \<Rightarrow> 'd sim_qubit \<Rightarrow> 'd groups \<Rightarrow> 'd groups" where
  "add_to_group app_name pos q groups =
     (let g = (case map_of groups (sq_state q) of
          None \<Rightarrow> \<lparr>qg_is_entangled = None, qg_qubit_ids = [], qg_state = None\<rparr> | Some g \<Rightarrow> g);
          g1 = g\<lparr>qg_qubit_ids := qg_qubit_ids g @ [(app_name, pos)], qg_is_entangled := sq_entangled q\<rparr>;
          g2 = (if sq_num_qubits q = 1 then g1\<lparr>qg_state := Some (sq_dm q)\<rparr> else g1)
      in AList.update (sq_state q) g2 groups)"

definition visit_position ::
    "(string \<Rightarrow> int \<Rightarrow> 'd sim_qubit option) \<Rightarrow> registry \<Rightarrow> string \<Rightarrow> string \<Rightarrow> int \<Rightarrow> 'd groups \<Rightarrow> 'd groups" where
  "visit_position peek r app_name node_name pos groups =
     (case peek node_name pos of
        None \<Rightarrow> groups
      | Some q \<Rightarrow>
          if map_of (rg_qubits_in_use r) (node_name, pos) = Some False then groups
          else add_to_group app_name pos q groups)"

definition get_qubit_groups ::
    "(string \<Rightarrow> int \<Rightarrow> 'd sim_qubit option) \<Rightarrow> registry \<Rightarrow> 'd groups result option" where
  "get_qubit_groups peek r =
     on_backend True (\<lambda>b. Inr (fold (\<lambda>(app_name, node).
         fold (visit_position peek r app_name (bn_name node)) (py_range (bn_num_positions node)))
       (be_app_node_map b) [])) r"

section \<open>The logger of instructions\<close>

datatype logged_instr = LogInit | LogCreateEPR | LogRecvEPR | LogQFree | LogMeas | LogOther

definition update_qubits :: "string \<Rightarrow> logged_instr \<Rightarrow> int list \<Rightarrow> registry \<Rightarrow> registry" where
  "update_qubits node_name i qubit_ids r =
     (if i \<in> {LogInit, LogCreateEPR, LogRecvEPR} then
        fold (\<lambda>qubit_id. update_qubits_used node_name qubit_id True) qubit_ids r
      else if i \<in> {LogQFree, LogMeas} then
        fold (\<lambda>qubit_id. update_qubits_used node_name qubit_id False) qubit_ids r
      else r)"

text \<open>
  \<open>_get_qubit_in_mem\<close> asks the executor of the node's subroutine handler for a virtual
  qubit; \<open>executors\<close> gives that lookup per node.
\<close>

definition get_qubit_in_mem ::
    "(string, int \<Rightarrow> int \<Rightarrow> 'd sim_qubit option) dict \<Rightarrow> string \<Rightarrow> int \<Rightarrow> int \<Rightarrow> registry
       \<Rightarrow> 'd sim_qubit option result option" where
  "get_qubit_in_mem executors node_name app_id qubit_id =
     on_backend True (\<lambda>b. bindE (dict_get executors node_name) (\<lambda>lookup. Inr (lookup app_id qubit_id)))"

fun get_qubit_states ::
    "(string, int \<Rightarrow> int \<Rightarrow> 'd sim_qubit option) dict \<Rightarrow> string \<Rightarrow> int \<Rightarrow> int list \<Rightarrow> registry
       \<Rightarrow> 'd option list result option" where
  "get_qubit_states executors node_name app_id [] r = Some (Inr [])"
| "get_qubit_states executors node_name app_id (qubit_id # ids) r =
     (case get_qubit_in_mem executors node_name app_id qubit_id r of
        None \<Rightarrow> None
      | Some (Inl e) \<Rightarrow> Some (Inl e)
      | Some (Inr q) \<Rightarrow>
          map_option (\<lambda>res. bindE res (\<lambda>states. Inr (map_option sq_dm q # states)))
            (get_qubit_states executors node_name app_id ids r))"

section \<open>The groups in closed form\<close>

text \<open>All positions visited, in order, with the node's name.\<close>

definition all_slots :: "backend \<Rightarrow> (string \<times> string \<times> int) list" where
  "all_slots b = concat (map (\<lambda>(app_name, node). map (\<lambda>pos. (app_name, bn_name node, pos)) (py_range (bn_num_positions node)))
     (be_app_node_map b))"

definition shown :: "(string \<Rightarrow> int \<Rightarrow> 'd sim_qubit option) \<Rightarrow> registry \<Rightarrow> int \<Rightarrow> string \<times> string \<times> int \<Rightarrow> bool" where
  "shown peek r h x = (case x of (app_name, node_name, pos) \<Rightarrow>
     (case peek node_name pos of None \<Rightarrow> False | Some q \<Rightarrow> sq_state q = h)
     \<and> map_of (rg_qubits_in_use r) (node_name, pos) \<noteq> Some False)"

definition group_ids :: "'d groups \<Rightarrow> int \<Rightarrow> (string \<times> int) list" where
  "group_ids groups h = (case map_of groups h of None \<Rightarrow> [] | Some g \<Rightarrow> qg_qubit_ids g)"

lemma visit_slots:
  "fold (\<lambda>(app_name, node). fold (visit_position peek r app_name (bn_name node)) (py_range (bn_num_positions node))) nodes groups
     = fold (\<lambda>(app_name, node_name, pos). visit_position peek r app_name node_name pos)
         (concat (map (\<lambda>(app_name, node). map (\<lambda>pos. (app_name, bn_name node, pos)) (py_range (bn_num_positions node))) nodes)) groups"
  by (induction nodes arbitrary: groups) (auto simp: fold_map comp_def)

lemma visit_position_ids:
  "group_ids (visit_position peek r app_name node_name pos groups) h
     = group_ids groups h @ (if shown peek r h (app_name, node_name, pos) then [(app_name, pos)] else [])"
  by (auto simp: visit_position_def shown_def add_to_group_def group_ids_def Let_def map_of_update
      split: option.splits)

lemma visit_all_ids:
  "group_ids (fold (\<lambda>(app_name, node_name, pos). visit_position peek r app_name node_name pos) slots groups) h
     = group_ids groups h @ map (\<lambda>(app_name, node_name, pos). (app_name, pos)) (filter (shown peek r h) slots)"
  by (induction slots arbitrary: groups) (auto simp: visit_position_ids)

lemma visit_position_nonempty:
  assumes "\<forall>h g. map_of groups h = Some g \<longrightarrow> qg_qubit_ids g \<noteq> []"
  shows "\<forall>h g. map_of (visit_position peek r app_name node_name pos groups) h = Some g \<longrightarrow> qg_qubit_ids g \<noteq> []"
  using assms by (auto simp: visit_position_def add_to_group_def Let_def map_of_update split: option.splits)

lemma visit_all_nonempty:
  assumes "\<forall>h g. map_of groups h = Some g \<longrightarrow> qg_qubit_ids g \<noteq> []"
  shows "\<forall>h g. map_of (fold (\<lambda>(app_name, node_name, pos). visit_position peek r app_name node_name pos) slots groups) h = Some g
     \<longrightarrow> qg_qubit_ids g \<noteq> []"
  using assms
proof (induction slots arbitrary: groups)
  case Nil
  then show ?case by simp
next
  case (Cons x slots)
  obtain a b c where x: "x = (a, b, c)" by (cases x)
  show ?case using Cons.IH [OF visit_position_nonempty [OF Cons.prems]] by (simp add: x)
qed

end
