(* ===== verification/SimNetwork.thy ===== *)
theory SimNetwork
  imports NVDevice SimRegistry
begin

text \<open>
  The network of the NetQASM simulation (\<open>squidasm/sim/network/network.py\<close>): nodes with
  their devices, one link-layer protocol per link with a service for either end, the
  delivery of an entangled pair, and the state that noisy links deliver.  NetSquid's and
  the NetQASM package's enumerations are read through parameters; protocols are numbered in
  the order they are made, and what a delivery does to the outside is a list of effects.
\<close>

section \<open>Devices\<close>

definition default_phys_instructions :: "(ns_instr \<times> rat) list" where
  "default_phys_instructions =
     [(INSTR_INIT, 100000), (INSTR_X, 1000), (INSTR_Y, 1000), (INSTR_Z, 1000), (INSTR_H, 1000), (INSTR_K, 1000),
      (INSTR_S, 1000), (INSTR_T, 1000), (INSTR_ROT_X, 1000), (INSTR_ROT_Y, 1000), (INSTR_ROT_Z, 1000),
      (INSTR_CNOT, 500000), (INSTR_CZ, 500000)]"

definition QDevice ::
    "string \<Rightarrow> nat \<Rightarrow> (ns_instr \<times> rat) list option \<Rightarrow> rat \<Rightarrow> (rat \<times> rat) list option \<Rightarrow> qdevice" where
  "QDevice name num_qubits phys_instrs gate_fidelity mem_fidelities =
     \<lparr>qd_name = name, qd_num_positions = int num_qubits,
      qd_instrs = map (\<lambda>(i, duration).
          \<lparr>pn_instr = i, pn_topology = None, pn_depolar_rate = Some (1 - gate_fidelity), pn_duration = duration\<rparr>)
        (case phys_instrs of None \<Rightarrow> default_phys_instructions | Some is \<Rightarrow> is),
      qd_noise = (case mem_fidelities of None \<Rightarrow> replicate num_qubits (0, 0) | Some fs \<Rightarrow> fs)\<rparr>"

definition NVQDevice :: "string \<Rightarrow> nat \<Rightarrow> rat \<Rightarrow> (rat \<times> rat) list option \<Rightarrow> qdevice" where
  "NVQDevice name num_qubits gate_fidelity mem_fidelities =
     QDevice name num_qubits
       (Some [(INSTR_INIT, 1), (INSTR_ROT_X, 2), (INSTR_ROT_Y, 2), (INSTR_ROT_Z, 2), (INSTR_CXDIR, 5), (INSTR_CYDIR, 5)])
       gate_fidelity mem_fidelities"

section \<open>Building the nodes\<close>

record node_config =
  nc_name :: string
  nc_hardware :: string
  nc_qubits :: "(rat \<times> rat) list"
  nc_gate_fidelity :: rat

record nq_link_config =
  lk_name :: string
  lk_node_name1 :: string
  lk_node_name2 :: string
  lk_noise_type :: string
  lk_fidelity :: rat

record network_config =
  nw_nodes :: "node_config list"
  nw_links :: "nq_link_config list"

datatype quantum_hardware = HwNV | HwTrappedIon | HwGeneric | HwOther

datatype noise_type = NoNoise | Depolarise | DiscreteDepolarise | Bitflip | OtherNoise

record sim_node =
  sn_name :: string
  sn_id :: int
  sn_qmemory :: qdevice

datatype distributor =
    PerfectStateMagicDistributor rat
  | LinearDepolariseMagicDistributor rat rat rat
  | DepolariseMagicDistributor rat rat
  | BitflipMagicDistributor rat rat

text \<open>A protocol has its two nodes, its distributor if one was made, and its path.\<close>

record link_protocol =
  lp_nodes :: "string \<times> string"
  lp_distributor :: "distributor option"
  lp_path :: "string list"

record link_service =
  ls_node :: string
  ls_protocol :: nat

record sim_network =
  nt_nv_config :: "nv_config option"
  nt_node_hardware_types :: "(string, quantum_hardware) dict"
  nt_instr_proc_time :: py_num
  nt_host_latency :: py_num
  nt_nodes :: "(string, sim_node) dict"
  nt_protocols :: "link_protocol list"
  nt_link_layer_services :: "(string, (int, link_service) dict) dict"

text \<open>\<open>QuantumHardware(value)\<close> raises on an unknown value, here \<open>None\<close>.\<close>

definition node_hardware :: "(string \<Rightarrow> quantum_hardware option) \<Rightarrow> node_config \<Rightarrow> quantum_hardware" where
  "node_hardware to_hardware c = (case to_hardware (nc_hardware c) of None \<Rightarrow> HwGeneric | Some h \<Rightarrow> h)"

definition node_device :: "nv_config option \<Rightarrow> quantum_hardware \<Rightarrow> node_config \<Rightarrow> qdevice result" where
  "node_device nv h c =
     (if h = HwNV then
        (case nv of
           None \<Rightarrow> Inr (NVQDevice (nc_name c @ ''_NVQDevice'') (length (nc_qubits c)) (nc_gate_fidelity c) (Some (nc_qubits c)))
         | Some cfg \<Rightarrow> build_nv_qdevice (nc_name c @ ''_NVQDevice'') cfg)
      else if h = HwTrappedIon then Inl ValueError
      else Inr (QDevice (nc_name c @ ''_QDevice'') (length (nc_qubits c)) None (nc_gate_fidelity c) (Some (nc_qubits c))))"

definition build_node_of ::
    "(string \<Rightarrow> quantum_hardware option) \<Rightarrow> nat \<times> node_config \<Rightarrow> sim_network \<Rightarrow> sim_network result" where
  "build_node_of to_hardware ic net =
     (let c = snd ic; h = node_hardware to_hardware c in
      bindE (node_device (nt_nv_config net) h c) (\<lambda>d.
        Inr (net\<lparr>nt_node_hardware_types := AList.update (nc_name c) h (nt_node_hardware_types net),
                 nt_nodes := AList.update (nc_name c) \<lparr>sn_name = nc_name c, sn_id = int (fst ic), sn_qmemory = d\<rparr> (nt_nodes net)\<rparr>)))"

definition build_network ::
    "(string \<Rightarrow> quantum_hardware option) \<Rightarrow> network_config \<Rightarrow> sim_network \<Rightarrow> sim_network result" where
  "build_network to_hardware cfg net = forE (build_node_of to_hardware) (List.enumerate 0 (nw_nodes cfg)) net"

section \<open>Links\<close>

text \<open>What \<open>get_node\<close> of NetSquid's network raises for an unknown name is a parameter.\<close>

definition get_node :: "py_error \<Rightarrow> sim_network \<Rightarrow> string \<Rightarrow> sim_node result" where
  "get_node missing net name = (case map_of (nt_nodes net) name of None \<Rightarrow> Inl missing | Some n \<Rightarrow> Inr n)"

text \<open>
  \<open>NoiseType(value)\<close> raises \<open>ValueError\<close> on an unknown value (\<open>None\<close>), which becomes a
  \<open>TypeError\<close>; a type without a branch falls through to Python's \<open>None\<close>.
\<close>

definition create_link_distributor ::
    "(string \<Rightarrow> noise_type option) \<Rightarrow> py_error \<Rightarrow> sim_network \<Rightarrow> nq_link_config \<Rightarrow> rat \<Rightarrow> distributor option result" where
  "create_link_distributor noise_of missing net link state_delay =
     bindE (get_node missing net (lk_node_name1 link)) (\<lambda>_.
     bindE (get_node missing net (lk_node_name2 link)) (\<lambda>_.
       case noise_of (lk_noise_type link) of
         None \<Rightarrow> Inl TypeError
       | Some NoNoise \<Rightarrow> Inr (Some (PerfectStateMagicDistributor state_delay))
       | Some Depolarise \<Rightarrow> Inr (Some (LinearDepolariseMagicDistributor state_delay 1 (1 - lk_fidelity link)))
       | Some DiscreteDepolarise \<Rightarrow> Inr (Some (DepolariseMagicDistributor (1 - lk_fidelity link) state_delay))
       | Some Bitflip \<Rightarrow> Inr (Some (BitflipMagicDistributor (1 - lk_fidelity link) state_delay))
       | Some OtherNoise \<Rightarrow> Inr None))"

definition add_service ::
    "sim_node \<Rightarrow> sim_node \<Rightarrow> nat \<Rightarrow> sim_network \<Rightarrow> sim_network result" where
  "add_service node remote_node proto net =
     bindE (dict_get (nt_link_layer_services net) (sn_name node)) (\<lambda>services.
       Inr (net\<lparr>nt_link_layer_services := AList.update (sn_name node)
              (AList.update (sn_id remote_node) \<lparr>ls_node = sn_name node, ls_protocol = proto\<rparr> services)
              (nt_link_layer_services net)\<rparr>))"

definition create_link ::
    "(string \<Rightarrow> noise_type option) \<Rightarrow> py_error \<Rightarrow> nq_link_config \<Rightarrow> sim_network \<Rightarrow> sim_network result" where
  "create_link noise_of missing link net =
     bindE (get_node missing net (lk_node_name1 link)) (\<lambda>node1.
     bindE (get_node missing net (lk_node_name2 link)) (\<lambda>node2.
     bindE (create_link_distributor noise_of missing net link 1000) (\<lambda>magic_dist.
       let proto = length (nt_protocols net);
           net1 = net\<lparr>nt_protocols := nt_protocols net @
             [\<lparr>lp_nodes = (sn_name node1, sn_name node2), lp_distributor = magic_dist, lp_path = [lk_name link]\<rparr>]\<rparr> in
       bindE (add_service node1 node2 proto net1) (add_service node2 node1 proto))))"

definition create_link_layer_services ::
    "(string \<Rightarrow> noise_type option) \<Rightarrow> py_error \<Rightarrow> network_config \<Rightarrow> sim_network \<Rightarrow> sim_network result" where
  "create_link_layer_services noise_of missing cfg net =
     forE (create_link noise_of missing) (nw_links cfg)
       (net\<lparr>nt_link_layer_services :=
          fold (\<lambda>name d. AList.update name [] d) (dict_keys (nt_nodes net)) (nt_link_layer_services net)\<rparr>)"

definition NetSquidNetwork ::
    "(string \<Rightarrow> quantum_hardware option) \<Rightarrow> (string \<Rightarrow> noise_type option) \<Rightarrow> py_error \<Rightarrow> network_config \<Rightarrow> nv_config option
       \<Rightarrow> sim_network result" where
  "NetSquidNetwork to_hardware noise_of missing cfg nv =
     bindE (build_network to_hardware cfg
         \<lparr>nt_nv_config = nv, nt_node_hardware_types = [],
          nt_instr_proc_time = (case nv of None \<Rightarrow> PyInt 0 | Some c \<Rightarrow> cf_instr_proc_time c),
          nt_host_latency = (case nv of None \<Rightarrow> PyInt 0 | Some c \<Rightarrow> cf_host_latency c),
          nt_nodes = [], nt_protocols = [], nt_link_layer_services = []\<rparr>)
       (create_link_layer_services noise_of missing cfg)"

section \<open>The state a noisy link delivers\<close>

definition epr_state :: "rat list list" where
  "epr_state = [[1/2, 0, 0, 1/2], [0, 0, 0, 0], [0, 0, 0, 0], [1/2, 0, 0, 1/2]]"

definition maximally_mixed :: "rat list list" where
  "maximally_mixed = [[1/4, 0, 0, 0], [0, 1/4, 0, 0], [0, 0, 1/4, 0], [0, 0, 0, 1/4]]"

definition delivered_state :: "rat \<Rightarrow> rat list list" where
  "delivered_state prob_max_mixed =
     map2 (map2 (\<lambda>a b. (1 - prob_max_mixed) * a + prob_max_mixed * b)) epr_state maximally_mixed"

text \<open>The states and their probabilities, and the probability of success.\<close>

definition delivery_func :: "rat \<Rightarrow> (rat list list list \<times> rat list) \<times> rat" where
  "delivery_func prob_max_mixed = (([delivered_state prob_max_mixed], [1]), 1)"

section \<open>Facts\<close>

text \<open>Names of the nodes, in order, and what a built network holds for them.\<close>

lemma build_nodes:
  assumes "forE (build_node_of to_hardware) (List.enumerate k cs) net = Inr net'"
    and "distinct (map nc_name cs)" and "set (map nc_name cs) \<inter> set (dict_keys (nt_nodes net)) = {}"
  shows "dict_keys (nt_nodes net') = dict_keys (nt_nodes net) @ map nc_name cs
     \<and> (\<forall>s. s \<in> set (dict_keys (nt_nodes net)) \<longrightarrow> map_of (nt_nodes net') s = map_of (nt_nodes net) s)
     \<and> (\<forall>j < length cs. \<exists>n. map_of (nt_nodes net') (nc_name (cs ! j)) = Some n \<and> sn_name n = nc_name (cs ! j) \<and> sn_id n = int (k + j))
     \<and> nt_protocols net' = nt_protocols net \<and> nt_link_layer_services net' = nt_link_layer_services net"
  using assms
proof (induction cs arbitrary: k net)
  case Nil
  then show ?case by simp
next
  case (Cons c cs)
  from Cons.prems(1) obtain net1 where n1: "build_node_of to_hardware (k, c) net = Inr net1"
    and d: "forE (build_node_of to_hardware) (List.enumerate (Suc k) cs) net1 = Inr net'"
    by (auto simp: result_simps)
  from n1 obtain d where net1: "nt_nodes net1 = AList.update (nc_name c) \<lparr>sn_name = nc_name c, sn_id = int k, sn_qmemory = d\<rparr> (nt_nodes net)"
    "nt_protocols net1 = nt_protocols net" "nt_link_layer_services net1 = nt_link_layer_services net"
    by (auto simp: build_node_of_def Let_def result_simps)
  have new: "nc_name c \<notin> set (dict_keys (nt_nodes net))" using Cons.prems(3) by auto
  have keys: "dict_keys (nt_nodes net1) = dict_keys (nt_nodes net) @ [nc_name c]"
    using new by (simp add: net1 dict_keys_update_new)
  have "set (map nc_name cs) \<inter> set (dict_keys (nt_nodes net1)) = {}"
    unfolding keys using Cons.prems(2,3) by auto
  from Cons.IH [OF d _ this] Cons.prems(2) have IH:
    "dict_keys (nt_nodes net') = dict_keys (nt_nodes net1) @ map nc_name cs"
    "\<forall>s. s \<in> set (dict_keys (nt_nodes net1)) \<longrightarrow> map_of (nt_nodes net') s = map_of (nt_nodes net1) s"
    "\<forall>j < length cs. \<exists>n. map_of (nt_nodes net') (nc_name (cs ! j)) = Some n \<and> sn_name n = nc_name (cs ! j) \<and> sn_id n = int (Suc k + j)"
    "nt_protocols net' = nt_protocols net1" "nt_link_layer_services net' = nt_link_layer_services net1" by auto
  have "map_of (nt_nodes net') s = map_of (nt_nodes net) s" if "s \<in> set (dict_keys (nt_nodes net))" for s
  proof -
    have "s \<noteq> nc_name c" using that new by blast
    moreover have "s \<in> set (dict_keys (nt_nodes net1))" unfolding keys using that by simp
    ultimately show ?thesis using IH(2) by (simp add: net1 map_of_update)
  qed
  moreover have "map_of (nt_nodes net') (nc_name c) = Some \<lparr>sn_name = nc_name c, sn_id = int k, sn_qmemory = d\<rparr>"
    using IH(2) unfolding keys by (simp add: net1 map_of_update)
  ultimately show ?case using IH(1,3-5) keys net1(2,3)
    by (auto simp: nth_Cons split: nat.splits)
qed

text \<open>The protocol of a node's service for another node, if it has one.\<close>

definition service_protocol :: "sim_network \<Rightarrow> string \<Rightarrow> int \<Rightarrow> nat option" where
  "service_protocol net s i = Option.bind (map_of (nt_link_layer_services net) s) (\<lambda>d. map_option ls_protocol (map_of d i))"

text \<open>
  Services come in pairs: every service of a node for another one has a protocol, whose
  nodes are these two, and the other has a service for it with the same protocol.
\<close>

definition services_paired :: "sim_network \<Rightarrow> bool" where
  "services_paired net \<longleftrightarrow> (\<forall>s t n m k. map_of (nt_nodes net) s = Some n \<longrightarrow> map_of (nt_nodes net) t = Some m \<longrightarrow>
     service_protocol net s (sn_id m) = Some k \<longrightarrow>
       service_protocol net t (sn_id n) = Some k \<and> k < length (nt_protocols net)
       \<and> {fst (lp_nodes (nt_protocols net ! k)), snd (lp_nodes (nt_protocols net ! k))} = {s, t})"

text \<open>Nodes are stored under their names and have distinct ids.\<close>

definition nodes_ok :: "sim_network \<Rightarrow> bool" where
  "nodes_ok net \<longleftrightarrow> (\<forall>s n. map_of (nt_nodes net) s = Some n \<longrightarrow> sn_name n = s \<and> map_of (nt_link_layer_services net) s \<noteq> None)
     \<and> (\<forall>s t n m. map_of (nt_nodes net) s = Some n \<longrightarrow> map_of (nt_nodes net) t = Some m \<longrightarrow> sn_id n = sn_id m \<longrightarrow> s = t)"

lemma add_service_returns:
  assumes "map_of (nt_link_layer_services net) (sn_name n) \<noteq> None"
  obtains net' where "add_service n m k net = Inr net'" "nt_nodes net' = nt_nodes net"
    "nt_protocols net' = nt_protocols net"
    "\<And>s i. service_protocol net' s i = (if s = sn_name n \<and> i = sn_id m then Some k else service_protocol net s i)"
    "\<And>s. map_of (nt_link_layer_services net) s \<noteq> None \<Longrightarrow> map_of (nt_link_layer_services net') s \<noteq> None"
proof -
  obtain d where d: "map_of (nt_link_layer_services net) (sn_name n) = Some d" using assms by auto
  show thesis
    by (rule that [of "net\<lparr>nt_link_layer_services := AList.update (sn_name n)
              (AList.update (sn_id m) \<lparr>ls_node = sn_name n, ls_protocol = k\<rparr> d) (nt_link_layer_services net)\<rparr>"])
      (auto simp: add_service_def dict_get_def d service_protocol_def map_of_update)
qed

text \<open>One link between two different known nodes with a noise type that is known.\<close>

lemma create_link_returns:
  assumes "nodes_ok net" and "services_paired net" and "lk_node_name1 link \<noteq> lk_node_name2 link"
    and "map_of (nt_nodes net) (lk_node_name1 link) \<noteq> None" and "map_of (nt_nodes net) (lk_node_name2 link) \<noteq> None"
    and "noise_of (lk_noise_type link) \<noteq> None"
  shows "\<exists>net' n m. create_link noise_of missing link net = Inr net' \<and> nodes_ok net' \<and> services_paired net'
     \<and> nt_nodes net' = nt_nodes net
     \<and> map_of (nt_nodes net) (lk_node_name1 link) = Some n \<and> map_of (nt_nodes net) (lk_node_name2 link) = Some m
     \<and> (\<forall>s i. service_protocol net' s i =
          (if s = lk_node_name2 link \<and> i = sn_id n \<or> s = lk_node_name1 link \<and> i = sn_id m
           then Some (length (nt_protocols net)) else service_protocol net s i))
     \<and> length (nt_protocols net') = Suc (length (nt_protocols net))
     \<and> lp_path (nt_protocols net' ! length (nt_protocols net)) = [lk_name link]
     \<and> (\<forall>k < length (nt_protocols net). nt_protocols net' ! k = nt_protocols net ! k)"
proof -
  obtain n m where n: "map_of (nt_nodes net) (lk_node_name1 link) = Some n" and m: "map_of (nt_nodes net) (lk_node_name2 link) = Some m"
    using assms(4,5) by auto
  have nm: "sn_name n = lk_node_name1 link" "sn_name m = lk_node_name2 link" "sn_id n \<noteq> sn_id m"
    and sv: "\<And>s. map_of (nt_nodes net) s \<noteq> None \<Longrightarrow> map_of (nt_link_layer_services net) s \<noteq> None"
    using assms(1,3) n m unfolding nodes_ok_def by blast+
  let ?k = "length (nt_protocols net)"
  obtain y where y: "noise_of (lk_noise_type link) = Some y" using assms(6) by auto
  have "\<exists>dist. create_link_distributor noise_of missing net link 1000 = Inr dist"
    using n m by (cases y) (auto simp: create_link_distributor_def get_node_def y)
  then obtain dist where dist: "create_link_distributor noise_of missing net link 1000 = Inr dist" by blast
  let ?net1 = "net\<lparr>nt_protocols := nt_protocols net @
             [\<lparr>lp_nodes = (sn_name n, sn_name m), lp_distributor = dist, lp_path = [lk_name link]\<rparr>]\<rparr>"
  have sp1: "service_protocol ?net1 s i = service_protocol net s i" for s i by (simp add: service_protocol_def)
  have "map_of (nt_link_layer_services ?net1) (sn_name n) \<noteq> None" using sv n nm by simp
  then obtain net2 where net2: "add_service n m ?k ?net1 = Inr net2" "nt_nodes net2 = nt_nodes net"
    "nt_protocols net2 = nt_protocols ?net1"
    "\<And>s i. service_protocol net2 s i = (if s = sn_name n \<and> i = sn_id m then Some ?k else service_protocol net s i)"
    "\<And>s. map_of (nt_link_layer_services net) s \<noteq> None \<Longrightarrow> map_of (nt_link_layer_services net2) s \<noteq> None"
    by (rule add_service_returns [of ?net1 n m ?k]) (use sp1 in auto)
  have "map_of (nt_link_layer_services net2) (sn_name m) \<noteq> None" using net2(5) sv m nm by simp
  then obtain net3 where net3: "add_service m n ?k net2 = Inr net3" "nt_nodes net3 = nt_nodes net"
    "nt_protocols net3 = nt_protocols ?net1"
    "\<And>s i. service_protocol net3 s i = (if s = sn_name m \<and> i = sn_id n then Some ?k else service_protocol net2 s i)"
    "\<And>s. map_of (nt_link_layer_services net) s \<noteq> None \<Longrightarrow> map_of (nt_link_layer_services net3) s \<noteq> None"
    by (rule add_service_returns [of net2 m n ?k]) (use net2 in auto)
  have sp: "service_protocol net3 s i = (if s = lk_node_name2 link \<and> i = sn_id n \<or> s = lk_node_name1 link \<and> i = sn_id m
           then Some ?k else service_protocol net s i)" for s i
    by (auto simp: net3(4) net2(4) nm)
  have ok: "nodes_ok net3" using assms(1) net3(5) unfolding nodes_ok_def net3(2) by blast
  have inj: "\<And>s t x y. map_of (nt_nodes net) s = Some x \<Longrightarrow> map_of (nt_nodes net) t = Some y \<Longrightarrow> sn_id x = sn_id y \<Longrightarrow> s = t"
    using assms(1) unfolding nodes_ok_def by blast
  have paired: "services_paired net3"
    unfolding services_paired_def net3(2)
  proof (intro allI impI)
    fix s t x y k
    assume h: "map_of (nt_nodes net) s = Some x" "map_of (nt_nodes net) t = Some y" "service_protocol net3 s (sn_id y) = Some k"
    show "service_protocol net3 t (sn_id x) = Some k \<and> k < length (nt_protocols net3)
       \<and> {fst (lp_nodes (nt_protocols net3 ! k)), snd (lp_nodes (nt_protocols net3 ! k))} = {s, t}"
    proof (cases "s = lk_node_name2 link \<and> sn_id y = sn_id n \<or> s = lk_node_name1 link \<and> sn_id y = sn_id m")
      case True
      with h n m inj have st: "(s, x, t, y) = (lk_node_name2 link, m, lk_node_name1 link, n) \<or> (s, x, t, y) = (lk_node_name1 link, n, lk_node_name2 link, m)"
        by (metis option.inject)
      moreover have "k = ?k" using True h(3) by (simp add: sp)
      ultimately show ?thesis by (auto simp: sp net3(3) nm)
    next
      case False
      then have "service_protocol net s (sn_id y) = Some k" using h(3) unfolding sp by (simp only: if_not_P if_False)
      with assms(2) h(1,2) have old: "service_protocol net t (sn_id x) = Some k" "k < ?k"
        "{fst (lp_nodes (nt_protocols net ! k)), snd (lp_nodes (nt_protocols net ! k))} = {s, t}"
        unfolding services_paired_def by blast+
      have "\<not> (t = lk_node_name2 link \<and> sn_id x = sn_id n \<or> t = lk_node_name1 link \<and> sn_id x = sn_id m)"
        using False h(1,2) n m inj by (metis option.inject)
      then have "service_protocol net3 t (sn_id x) = service_protocol net t (sn_id x)"
        unfolding sp by (simp only: if_not_P if_False)
      then show ?thesis using old by (simp add: net3(3) nth_append)
    qed
  qed
  have "create_link noise_of missing link net = Inr net3"
    using n m dist net2(1) net3(1) by (simp add: create_link_def get_node_def Let_def)
  then show ?thesis using ok paired net3(2,3) sp n m by (intro exI [of _ net3] exI [of _ n] exI [of _ m]) (simp add: nth_append)
qed

text \<open>Both nodes of a link have a service for the other.\<close>

definition linked :: "sim_network \<Rightarrow> nq_link_config \<Rightarrow> bool" where
  "linked net link \<longleftrightarrow> (\<exists>n m k. map_of (nt_nodes net) (lk_node_name1 link) = Some n
     \<and> map_of (nt_nodes net) (lk_node_name2 link) = Some m
     \<and> service_protocol net (lk_node_name1 link) (sn_id m) = Some k
     \<and> service_protocol net (lk_node_name2 link) (sn_id n) = Some k)"

definition link_valid :: "(string \<Rightarrow> noise_type option) \<Rightarrow> string set \<Rightarrow> nq_link_config \<Rightarrow> bool" where
  "link_valid noise_of names link \<longleftrightarrow> lk_node_name1 link \<noteq> lk_node_name2 link
     \<and> lk_node_name1 link \<in> names \<and> lk_node_name2 link \<in> names \<and> noise_of (lk_noise_type link) \<noteq> None"

lemma create_links:
  assumes "nodes_ok net" and "services_paired net" and "\<forall>l \<in> set ls. link_valid noise_of (dom (map_of (nt_nodes net))) l"
  shows "\<exists>net'. forE (create_link noise_of missing) ls net = Inr net' \<and> services_paired net' \<and> nt_nodes net' = nt_nodes net
     \<and> (\<forall>l \<in> set ls. linked net' l) \<and> (\<forall>s i. service_protocol net s i \<noteq> None \<longrightarrow> service_protocol net' s i \<noteq> None)"
  using assms
proof (induction ls arbitrary: net)
  case Nil
  then show ?case by simp
next
  case (Cons l ls)
  have v: "lk_node_name1 l \<noteq> lk_node_name2 l" "map_of (nt_nodes net) (lk_node_name1 l) \<noteq> None"
    "map_of (nt_nodes net) (lk_node_name2 l) \<noteq> None" "noise_of (lk_noise_type l) \<noteq> None"
    using Cons.prems(3) by (auto simp: link_valid_def)
  obtain net1 n m where net1: "create_link noise_of missing l net = Inr net1" "nodes_ok net1" "services_paired net1"
    "nt_nodes net1 = nt_nodes net" "map_of (nt_nodes net) (lk_node_name1 l) = Some n" "map_of (nt_nodes net) (lk_node_name2 l) = Some m"
    "\<And>s i. service_protocol net1 s i = (if s = lk_node_name2 l \<and> i = sn_id n \<or> s = lk_node_name1 l \<and> i = sn_id m
           then Some (length (nt_protocols net)) else service_protocol net s i)"
    using create_link_returns [of net l noise_of missing] Cons.prems(1,2) v by blast
  obtain net' where net': "forE (create_link noise_of missing) ls net1 = Inr net'" "services_paired net'"
    "nt_nodes net' = nt_nodes net1" "\<forall>l \<in> set ls. linked net' l"
    "\<And>s i. service_protocol net1 s i \<noteq> None \<Longrightarrow> service_protocol net' s i \<noteq> None"
    using Cons.IH [OF net1(2,3)] Cons.prems(3) net1(4) by auto
  have "service_protocol net1 (lk_node_name1 l) (sn_id m) \<noteq> None" by (simp add: net1(7))
  from net'(5) [OF this] obtain k where k: "service_protocol net' (lk_node_name1 l) (sn_id m) = Some k" by auto
  with net'(2) have "service_protocol net' (lk_node_name2 l) (sn_id n) = Some k"
    unfolding services_paired_def net'(3) net1(4) using net1(5,6) by blast
  with k have "linked net' l" unfolding linked_def net'(3) net1(4) using net1(5,6) by blast
  moreover have "service_protocol net' s i \<noteq> None" if "service_protocol net s i \<noteq> None" for s i
    using that by (intro net'(5)) (simp add: net1(7))
  ultimately show ?case using net1(1,4) net'(1-4) by auto
qed

lemma fold_empty_services:
  "map_of (fold (\<lambda>name d. AList.update name [] d) names d) s = (if s \<in> set names then Some [] else map_of d s)"
  by (induction names arbitrary: d) (auto simp: map_of_update)

lemma node_device_returns:
  assumes "h \<noteq> HwTrappedIon" and "\<And>c. nv = Some c \<Longrightarrow> \<exists>k. cf_num_qubits c = PyInt k"
  shows "\<exists>d. node_device nv h c = Inr d"
  using assms by (cases nv) (auto simp: node_device_def build_nv_qdevice_def Let_def)

lemma build_network_returns:
  assumes "\<And>c. c \<in> set cs \<Longrightarrow> node_hardware to_hardware c \<noteq> HwTrappedIon"
    and "\<And>c. nt_nv_config net = Some c \<Longrightarrow> \<exists>k. cf_num_qubits c = PyInt k"
  shows "\<exists>net'. forE (build_node_of to_hardware) (List.enumerate k cs) net = Inr net'"
proof -
  have "\<exists>net'. forE (build_node_of to_hardware) (List.enumerate k cs) net = Inr net' \<and> nt_nv_config net' = nt_nv_config net"
  proof (rule forE_returns)
    fix x and u :: sim_network
    assume x: "x \<in> set (List.enumerate k cs)" and u: "nt_nv_config u = nt_nv_config net"
    from x have "snd x \<in> set (map snd (List.enumerate k cs))" unfolding set_map by (rule imageI)
    then have "snd x \<in> set cs" by (simp only: map_snd_enumerate)
    from assms(1) [OF this] have "\<exists>d. node_device (nt_nv_config u) (node_hardware to_hardware (snd x)) (snd x) = Inr d"
      by (rule node_device_returns) (use u assms(2) in simp)
    then show "\<exists>v. build_node_of to_hardware x u = Inr v \<and> nt_nv_config v = nt_nv_config net"
      using u by (auto simp: build_node_of_def Let_def)
  qed simp
  then show ?thesis by blast
qed

end
