(* ===== verification/SimDelivery.thy ===== *)
theory SimDelivery
  imports SimNetwork
begin

text \<open>
  The delivery of an entangled pair (class \<open>MagicNetworkLayerProtocol\<close> of
  \<open>squidasm/sim/network/network.py\<close>).  What it asks of NetSquid's classes (the delivery in
  process, its positions and Bell state, the outcome of a measurement, the next sequence
  number) are arguments; what it does to the outside is a list of effects, in order, beside
  the registry of the qubits in use.
\<close>

datatype request_kind = ReqCreateAndKeep | ReqMeasureDirectly | ReqRemoteStatePrep

record delivery_request =
  dr_kind :: request_kind
  dr_remote_node_id :: int
  dr_purpose_id :: int
  dr_minimum_fidelity :: rat

record queue_item =
  qi_request :: delivery_request
  qi_node_id :: int
  qi_create_id :: int

record keep_response =
  rk_create_id :: int
  rk_logical_qubit_id :: int
  rk_directionality_flag :: int
  rk_sequence_number :: int
  rk_purpose_id :: int
  rk_remote_node_id :: int
  rk_goodness :: rat
  rk_time_of_goodness :: rat
  rk_bell_state :: int

record measure_response =
  rm_create_id :: int
  rm_measurement_outcome :: int
  rm_measurement_basis :: int
  rm_directionality_flag :: int
  rm_sequence_number :: int
  rm_purpose_id :: int
  rm_remote_node_id :: int
  rm_goodness :: rat
  rm_bell_state :: int

datatype response = KeepResponse keep_response | MeasureResponse measure_response

datatype ent_stage = EntStart | EntFinish

datatype qlink_type = RequestTypeK | RequestTypeM

record 'd log_entry =
  le_sim_time :: rat
  le_ent_type :: "qlink_type option"
  le_ent_stage :: ent_stage
  le_meas_bases :: "int list option"
  le_meas_outcomes :: "int list option"
  le_nodes :: "string list"
  le_path :: "string list"
  le_qubit_ids :: "int list"
  le_qubit_groups :: "'d groups option"

datatype 'd effect =
    DecrementPairsLeft int int
  | ReactTo int response
  | GlobalLog "'d log_entry"
  | EprDelivered
  | HandleNext

text \<open>A protocol's nodes, as id and name, its path, and whether the network has a logger.\<close>

record magic_protocol =
  mp_nodes :: "(int \<times> string) list"
  mp_path :: "string list"
  mp_logging :: bool

definition global_log :: "magic_protocol \<Rightarrow> 'd log_entry \<Rightarrow> 'd effect list" where
  "global_log p entry = (if mp_logging p then [GlobalLog entry] else [])"

text \<open>The groups for the log: none without a running backend.\<close>

definition logged_groups ::
    "(string \<Rightarrow> int \<Rightarrow> 'd sim_qubit option) \<Rightarrow> registry \<Rightarrow> 'd groups option result" where
  "logged_groups peek r =
     (case get_running_backend False r of
        Some None \<Rightarrow> Inr None
      | _ \<Rightarrow> (case get_qubit_groups peek r of
            Some (Inr groups) \<Rightarrow> Inr (Some groups) | Some (Inl e) \<Rightarrow> Inl e | None \<Rightarrow> Inr None))"

definition get_log_data ::
    "magic_protocol \<Rightarrow> (int, int) dict \<Rightarrow> (int \<Rightarrow> int \<Rightarrow> 'st option) option
       \<Rightarrow> (string list \<times> int list \<times> 'st option list) result" where
  "get_log_data p places qubit_state =
     forE (\<lambda>(node_id, name) (nodes, qubit_ids, states).
         bindE (dict_get places node_id) (\<lambda>qubit_id.
           Inr (nodes @ [name], qubit_ids @ [qubit_id],
                states @ [case qubit_state of None \<Rightarrow> None | Some f \<Rightarrow> f node_id qubit_id])))
       (mp_nodes p) ([], [], [])"

text \<open>\<open>[memory_positions[node.ID] for node in self.nodes]\<close>.\<close>

definition node_positions :: "magic_protocol \<Rightarrow> (int, int) dict \<Rightarrow> int list result" where
  "node_positions p places =
     forE (\<lambda>(node_id, name) ids. bindE (dict_get places node_id) (\<lambda>q. Inr (ids @ [q]))) (mp_nodes p) []"

text \<open>The positions the base class found, if any; a start entry is logged.\<close>

definition get_unused_memory_positions ::
    "magic_protocol \<Rightarrow> rat \<Rightarrow> (string \<Rightarrow> int \<Rightarrow> 'd sim_qubit option) \<Rightarrow> (int, int) dict option \<Rightarrow> registry
       \<Rightarrow> ((int, int) dict option \<times> 'd effect list) result" where
  "get_unused_memory_positions p now peek super r =
     (case super of
        None \<Rightarrow> Inr (None, [])
      | Some places \<Rightarrow>
          bindE (get_log_data p places (None :: (int \<Rightarrow> int \<Rightarrow> unit option) option)) (\<lambda>_.
          bindE (node_positions p places) (\<lambda>qubit_ids.
          bindE (logged_groups peek r) (\<lambda>groups.
            Inr (Some places,
              global_log p \<lparr>le_sim_time = now, le_ent_type = None, le_ent_stage = EntStart,
                le_meas_bases = None, le_meas_outcomes = None, le_nodes = map snd (mp_nodes p),
                le_path = mp_path p, le_qubit_ids = qubit_ids, le_qubit_groups = groups\<rparr>)))))"

text \<open>The first node of the protocol with another id.\<close>

definition other_node_id :: "magic_protocol \<Rightarrow> int \<Rightarrow> int result" where
  "other_node_id p node_id =
     (case List.find (\<lambda>(i, name). i \<noteq> node_id) (mp_nodes p) of
        None \<Rightarrow> Inl RuntimeError | Some (i, name) \<Rightarrow> Inr i)"

text \<open>The response for one node; \<open>meas\<close> gives outcome and basis.\<close>

definition node_response ::
    "magic_protocol \<Rightarrow> queue_item \<Rightarrow> (int, int list) dict \<Rightarrow> (int \<Rightarrow> int \<times> int) \<Rightarrow> int \<Rightarrow> int \<Rightarrow> rat \<Rightarrow> int \<Rightarrow> response result" where
  "node_response p item places meas bell_state seqno now node_id =
     (let req = qi_request item; flag = (if node_id \<noteq> dr_remote_node_id req then 0 else 1) in
      bindE (other_node_id p node_id) (\<lambda>remote_node_id.
      bindE (dict_get places node_id) (\<lambda>mem_pos.
      bindE (py_index mem_pos 0) (\<lambda>memory_position.
        case dr_kind req of
          ReqCreateAndKeep \<Rightarrow>
            Inr (KeepResponse \<lparr>rk_create_id = qi_create_id item, rk_logical_qubit_id = memory_position,
              rk_directionality_flag = flag, rk_sequence_number = seqno, rk_purpose_id = dr_purpose_id req,
              rk_remote_node_id = remote_node_id, rk_goodness = dr_minimum_fidelity req, rk_time_of_goodness = now,
              rk_bell_state = bell_state\<rparr>)
        | ReqMeasureDirectly \<Rightarrow>
            Inr (MeasureResponse \<lparr>rm_create_id = qi_create_id item,
              rm_measurement_outcome = fst (meas node_id), rm_measurement_basis = snd (meas node_id),
              rm_directionality_flag = flag, rm_sequence_number = seqno, rm_purpose_id = dr_purpose_id req,
              rm_remote_node_id = remote_node_id, rm_goodness = dr_minimum_fidelity req, rm_bell_state = bell_state\<rparr>)
        | ReqRemoteStatePrep \<Rightarrow> Inl NotADirectoryError))))"

definition node_responses ::
    "magic_protocol \<Rightarrow> queue_item \<Rightarrow> (int, int list) dict \<Rightarrow> (int \<Rightarrow> int \<times> int) \<Rightarrow> int \<Rightarrow> int \<Rightarrow> rat
       \<Rightarrow> (int, response) dict result" where
  "node_responses p item places meas bell_state seqno now =
     forE (\<lambda>(node_id, name) messages.
         bindE (node_response p item places meas bell_state seqno now node_id) (\<lambda>msg.
           Inr (AList.update node_id msg messages)))
       (mp_nodes p) []"

fun response_basis :: "response \<Rightarrow> int result" where
  "response_basis (MeasureResponse r) = Inr (rm_measurement_basis r)"
| "response_basis (KeepResponse r) = Inl AttributeError"

fun response_outcome :: "response \<Rightarrow> int result" where
  "response_outcome (MeasureResponse r) = Inr (rm_measurement_outcome r)"
| "response_outcome (KeepResponse r) = Inl AttributeError"

definition collect :: "('x \<Rightarrow> 'y result) \<Rightarrow> 'x list \<Rightarrow> 'y list result" where
  "collect f xs = forE (\<lambda>x ys. bindE (f x) (\<lambda>y. Inr (ys @ [y]))) xs []"

text \<open>
  \<open>_handle_label_delivery\<close>: \<open>popped\<close> is \<open>None\<close> where looking the delivery up raises
  \<open>KeyError\<close>, and \<open>Some None\<close> where it gives Python's \<open>None\<close>.
\<close>

definition handle_label_delivery ::
    "magic_protocol \<Rightarrow> queue_item option option \<Rightarrow> (int, int list) dict \<Rightarrow> (int \<Rightarrow> int \<times> int) \<Rightarrow> int \<Rightarrow> int \<Rightarrow> rat
       \<Rightarrow> (string \<Rightarrow> int \<Rightarrow> 'd sim_qubit option) \<Rightarrow> registry \<Rightarrow> ('d effect list \<times> registry) result" where
  "handle_label_delivery p popped places meas bell_state seqno now peek r =
     (case popped of
        None \<Rightarrow> Inr ([], r)
      | Some None \<Rightarrow> Inr ([], r)
      | Some (Some item) \<Rightarrow>
          bindE (node_responses p item places meas bell_state seqno now) (\<lambda>messages.
          bindE (collect (\<lambda>(node_id, name). bindE (dict_get messages node_id) (\<lambda>msg. Inr (ReactTo node_id msg))) (mp_nodes p)) (\<lambda>reactions.
          bindE (if dr_kind (qi_request item) = ReqMeasureDirectly
                 then bindE (collect response_basis (map snd messages)) (\<lambda>bs. Inr (Some bs)) else Inr None) (\<lambda>meas_bases.
          bindE (if dr_kind (qi_request item) = ReqMeasureDirectly
                 then bindE (collect response_outcome (map snd messages)) (\<lambda>os. Inr (Some os)) else Inr None) (\<lambda>meas_outcomes.
          bindE (collect (\<lambda>(node_id, mem_pos). bindE (py_index mem_pos 0) (\<lambda>q. Inr (node_id, q))) places) (\<lambda>places1.
          bindE (node_positions p places1) (\<lambda>qubit_ids.
          bindE (forE (\<lambda>(node_id, name) reg. bindE (dict_get places1 node_id) (\<lambda>q. Inr (update_qubits_used name q True reg)))
                 (mp_nodes p) r) (\<lambda>r1.
          bindE (logged_groups peek r1) (\<lambda>groups.
          bindE (case dr_kind (qi_request item) of
                   ReqCreateAndKeep \<Rightarrow> Inr RequestTypeK | ReqMeasureDirectly \<Rightarrow> Inr RequestTypeM
                 | ReqRemoteStatePrep \<Rightarrow> Inl ValueError) (\<lambda>qlink_type.
            Inr (DecrementPairsLeft (qi_node_id item) (qi_create_id item) # reactions
              @ global_log p \<lparr>le_sim_time = now, le_ent_type = Some qlink_type, le_ent_stage = EntFinish,
                  le_meas_bases = meas_bases, le_meas_outcomes = meas_outcomes, le_nodes = map snd (mp_nodes p),
                  le_path = mp_path p, le_qubit_ids = qubit_ids, le_qubit_groups = groups\<rparr>
              @ [EprDelivered, HandleNext], r1)))))))))))"

lemma collect_eq:
  assumes "\<And>x. x \<in> set xs \<Longrightarrow> f x = Inr (g x)"
  shows "collect f xs = Inr (map g xs)"
proof -
  have "forE (\<lambda>x ys. bindE (f x) (\<lambda>y. Inr (ys @ [y]))) xs ys = Inr (ys @ map g xs)" for ys
    using assms by (induction xs arbitrary: ys) auto
  then show ?thesis by (simp add: collect_def)
qed

end
