(* ===== verification/Executor.thy ===== *)
theory Executor
  imports ProcNV
begin

text \<open>
  The executors of the NetQASM simulation (\<open>squidasm/nqasm/executor/\<close>): \<open>base.py\<close> runs
  quantum instructions on a NetSquid device, \<open>vanilla.py\<close> and \<open>nv.py\<close> give the tables of
  instructions and the measurement.  The base class \<open>Executor\<close> of the NetQASM package is not
  part of the repository: its lookup of physical positions is the parameter \<open>position_of\<close>,
  and its own generators are arguments.

  A generator is a tree of what it does: it yields events, reads whether the device is
  busy, gives it instructions, measures.  \<open>run_gen\<close> runs one against given answers.
\<close>

section \<open>Generators\<close>

datatype exec_event = ProgramDone | WaitDone

datatype 'a exec_gen =
    GDone 'a
  | GRaise py_error
  | GYield exec_event "'a exec_gen"
  | GBusy "bool \<Rightarrow> 'a exec_gen"
  | GInstr ns_op "'a exec_gen"
  | GMeasure int "int \<Rightarrow> 'a exec_gen"
  | GInUse int bool "'a exec_gen"
  | GSchedule int "'a exec_gen"

text \<open>\<open>yield from\<close>.\<close>

primrec gen_bind :: "'a exec_gen \<Rightarrow> ('a \<Rightarrow> 'b exec_gen) \<Rightarrow> 'b exec_gen" where
  "gen_bind (GDone x) f = f x"
| "gen_bind (GRaise e) f = GRaise e"
| "gen_bind (GYield ev g) f = GYield ev (gen_bind g f)"
| "gen_bind (GBusy k) f = GBusy (\<lambda>b. gen_bind (k b) f)"
| "gen_bind (GInstr op g) f = GInstr op (gen_bind g f)"
| "gen_bind (GMeasure p k) f = GMeasure p (\<lambda>m. gen_bind (k m) f)"
| "gen_bind (GInUse p b g) f = GInUse p b (gen_bind g f)"
| "gen_bind (GSchedule t g) f = GSchedule t (gen_bind g f)"

definition gen_then :: "'a exec_gen \<Rightarrow> 'b exec_gen \<Rightarrow> 'b exec_gen" where
  "gen_then g h = gen_bind g (\<lambda>_. h)"

definition gen_result :: "'a result \<Rightarrow> ('a \<Rightarrow> 'b exec_gen) \<Rightarrow> 'b exec_gen" where
  "gen_result r k = (case r of Inl e \<Rightarrow> GRaise e | Inr x \<Rightarrow> k x)"

section \<open>Instructions\<close>

text \<open>The instruction classes the tables know, and any other.\<close>

datatype instr_class =
    InitInstruction
  | GateXInstruction | GateYInstruction | GateZInstruction | GateHInstruction | GateKInstruction
  | GateSInstruction | GateTInstruction
  | VanillaRotInstruction axis | NVRotInstruction axis
  | CnotInstruction | CphaseInstruction | MovInstruction
  | ControlledRotXInstruction | ControlledRotYInstruction
  | OtherInstruction string

definition VANILLA_NS_INSTR_MAPPING :: "(instr_class, ns_instr) dict" where
  "VANILLA_NS_INSTR_MAPPING =
     [(InitInstruction, INSTR_INIT),
      (GateXInstruction, INSTR_X), (GateYInstruction, INSTR_Y), (GateZInstruction, INSTR_Z),
      (GateHInstruction, INSTR_H), (GateKInstruction, INSTR_K), (GateSInstruction, INSTR_S),
      (GateTInstruction, INSTR_T),
      (VanillaRotInstruction AxisX, INSTR_ROT_X), (VanillaRotInstruction AxisY, INSTR_ROT_Y),
      (VanillaRotInstruction AxisZ, INSTR_ROT_Z),
      (CnotInstruction, INSTR_CNOT), (CphaseInstruction, INSTR_CZ), (MovInstruction, INSTR_SWAP)]"

definition NV_NS_INSTR_MAPPING :: "(instr_class, ns_instr) dict" where
  "NV_NS_INSTR_MAPPING =
     [(InitInstruction, INSTR_INIT),
      (NVRotInstruction AxisX, INSTR_ROT_X), (NVRotInstruction AxisY, INSTR_ROT_Y),
      (NVRotInstruction AxisZ, INSTR_ROT_Z),
      (ControlledRotXInstruction, INSTR_CXDIR), (ControlledRotYInstruction, INSTR_CYDIR)]"

section \<open>The executor\<close>

text \<open>What the constructor is given of the node: its name, id, and device if it has one.\<close>

record ns_node =
  nn_name :: string
  nn_id :: int
  nn_num_positions :: "int option"

record executor =
  ex_name :: string
  ex_node_name :: string
  ex_node_id :: int
  ex_instr_mapping :: "(instr_class, ns_instr) dict"
  ex_num_positions :: int
  ex_used_positions :: "int set"
  ex_instr_proc_time :: int
  ex_host_latency :: int

text \<open>An argument that is no NetSquid node at all is \<open>None\<close>.\<close>

definition NetSquidExecutor ::
    "ns_node option \<Rightarrow> string option \<Rightarrow> (instr_class, ns_instr) dict option \<Rightarrow> int \<Rightarrow> int \<Rightarrow> executor result" where
  "NetSquidExecutor nd name instr_mapping instr_proc_time host_latency =
     (case nd of None \<Rightarrow> Inl TypeError
      | Some node \<Rightarrow>
          (case instr_mapping of None \<Rightarrow> Inl ValueError
           | Some instr_table \<Rightarrow>
               (case nn_num_positions node of None \<Rightarrow> Inl ValueError
                | Some k \<Rightarrow>
                    Inr \<lparr>ex_name = (case name of None \<Rightarrow> nn_name node | Some s \<Rightarrow> s),
                         ex_node_name = nn_name node, ex_node_id = nn_id node,
                         ex_instr_mapping = instr_table, ex_num_positions = k, ex_used_positions = {},
                         ex_instr_proc_time = instr_proc_time, ex_host_latency = host_latency\<rparr>)))"

definition VanillaNetSquidExecutor :: "ns_node option \<Rightarrow> string option \<Rightarrow> int \<Rightarrow> int \<Rightarrow> executor result" where
  "VanillaNetSquidExecutor nd name = NetSquidExecutor nd name (Some VANILLA_NS_INSTR_MAPPING)"

definition NVNetSquidExecutor :: "ns_node option \<Rightarrow> string option \<Rightarrow> int \<Rightarrow> int \<Rightarrow> executor result" where
  "NVNetSquidExecutor nd name = NetSquidExecutor nd name (Some NV_NS_INSTR_MAPPING)"

text \<open>\<open>_get_executor_class\<close>: a flavour, if any, that is neither of the two is not supported.\<close>

datatype any_flavour = KnownFlavour flavour | UnknownFlavour

definition get_executor_class :: "any_flavour option \<Rightarrow> hardware result" where
  "get_executor_class fl =
     (case fl of None \<Rightarrow> Inr GenericHardware
      | Some (KnownFlavour VanillaFlavour) \<Rightarrow> Inr GenericHardware
      | Some (KnownFlavour NVFlavour) \<Rightarrow> Inr NVHardware
      | Some UnknownFlavour \<Rightarrow> Inl ValueError)"

section \<open>Giving the device instructions\<close>

definition execute_qdevice_instruction :: "ns_instr \<Rightarrow> int list \<Rightarrow> rat option \<Rightarrow> unit exec_gen" where
  "execute_qdevice_instruction ns_instr qubit_mapping ang =
     GBusy (\<lambda>busy.
       (if busy then GYield ProgramDone else (\<lambda>g. g))
         (GInstr (NsOp ns_instr (map Some qubit_mapping) ang) (GYield ProgramDone (GDone ()))))"

definition get_netsquid_instruction :: "executor \<Rightarrow> instr_class \<Rightarrow> ns_instr result" where
  "get_netsquid_instruction e c =
     (case map_of (ex_instr_mapping e) c of None \<Rightarrow> Inl RuntimeError | Some i \<Rightarrow> Inr i)"

type_synonym position_lookup = "int \<Rightarrow> int \<Rightarrow> int result"

definition do_single_qubit_instr ::
    "executor \<Rightarrow> position_lookup \<Rightarrow> instr_class \<Rightarrow> int \<Rightarrow> int \<Rightarrow> unit exec_gen" where
  "do_single_qubit_instr e position_of c sid address =
     gen_result (position_of sid address) (\<lambda>position.
     gen_result (get_netsquid_instruction e c) (\<lambda>ns_instr.
       execute_qdevice_instruction ns_instr [position] None))"

definition do_single_qubit_rotation ::
    "executor \<Rightarrow> position_lookup \<Rightarrow> instr_class \<Rightarrow> int \<Rightarrow> int \<Rightarrow> rat \<Rightarrow> unit exec_gen" where
  "do_single_qubit_rotation e position_of c sid address ang =
     gen_result (position_of sid address) (\<lambda>position.
     gen_result (get_netsquid_instruction e c) (\<lambda>ns_instr.
       execute_qdevice_instruction ns_instr [position] (Some ang)))"

text \<open>\<open>_get_positions\<close> looks the addresses up in order.\<close>

definition get_positions :: "position_lookup \<Rightarrow> int \<Rightarrow> int \<Rightarrow> int \<Rightarrow> (int list) result" where
  "get_positions position_of sid address1 address2 =
     bindE (position_of sid address1) (\<lambda>p1. bindE (position_of sid address2) (\<lambda>p2. Inr [p1, p2]))"

definition do_controlled_qubit_rotation ::
    "executor \<Rightarrow> position_lookup \<Rightarrow> instr_class \<Rightarrow> int \<Rightarrow> int \<Rightarrow> int \<Rightarrow> rat \<Rightarrow> unit exec_gen" where
  "do_controlled_qubit_rotation e position_of c sid address1 address2 ang =
     gen_result (get_positions position_of sid address1 address2) (\<lambda>ps.
     gen_result (get_netsquid_instruction e c) (\<lambda>ns_instr.
       execute_qdevice_instruction ns_instr ps (Some ang)))"

definition do_two_qubit_instr ::
    "executor \<Rightarrow> position_lookup \<Rightarrow> instr_class \<Rightarrow> int \<Rightarrow> int \<Rightarrow> int \<Rightarrow> unit exec_gen" where
  "do_two_qubit_instr e position_of c sid address1 address2 =
     gen_result (get_positions position_of sid address1 address2) (\<lambda>ps.
     gen_result (get_netsquid_instruction e c) (\<lambda>ns_instr.
       execute_qdevice_instruction ns_instr ps None))"

section \<open>Measuring\<close>

definition meas_physical_qubit :: "int \<Rightarrow> int exec_gen" where
  "meas_physical_qubit position =
     GBusy (\<lambda>busy. (if busy then GYield ProgramDone else (\<lambda>g. g)) (GMeasure position GDone))"

definition clear_phys_qubit_in_memory :: "int \<Rightarrow> 'a exec_gen \<Rightarrow> 'a exec_gen" where
  "clear_phys_qubit_in_memory physical_address g = GInUse physical_address False g"

definition reserve_physical_qubit :: "int \<Rightarrow> 'a exec_gen \<Rightarrow> 'a exec_gen" where
  "reserve_physical_qubit physical_address g = GInUse physical_address True g"

definition do_meas :: "position_lookup \<Rightarrow> int \<Rightarrow> int \<Rightarrow> int exec_gen" where
  "do_meas position_of sid q_address = gen_result (position_of sid q_address) meas_physical_qubit"

text \<open>The NV executor moves a carbon to the electron first; angles as multiples of \<open>pi\<close>.\<close>

definition nv_do_meas :: "position_lookup \<Rightarrow> int \<Rightarrow> int \<Rightarrow> int exec_gen" where
  "nv_do_meas position_of sid q_address =
     gen_result (position_of sid q_address) (\<lambda>position.
       (if position \<noteq> 0 then
          (\<lambda>g. gen_then (execute_qdevice_instruction INSTR_INIT [0] None)
              (gen_then (execute_qdevice_instruction INSTR_ROT_Y [0] (Some (1 / 2)))
              (gen_then (execute_qdevice_instruction INSTR_CYDIR [0, position] (Some (- 1 / 2)))
              (gen_then (execute_qdevice_instruction INSTR_ROT_X [0] (Some (- 1 / 2)))
              (gen_then (execute_qdevice_instruction INSTR_CXDIR [0, position] (Some (1 / 2)))
              (gen_then (execute_qdevice_instruction INSTR_ROT_Y [0] (Some (- 1 / 2)))
              (clear_phys_qubit_in_memory 0 g)))))))
        else (\<lambda>g. g)) (meas_physical_qubit 0))"

section \<open>Time and memory\<close>

definition do_wait :: "unit exec_gen" where
  "do_wait = GSchedule 1000 (GYield WaitDone (GDone ()))"

text \<open>The generator of the base class is the argument \<open>super\<close>.\<close>

definition execute_subroutine :: "executor \<Rightarrow> unit exec_gen \<Rightarrow> unit exec_gen" where
  "execute_subroutine e super =
     (if ex_host_latency e > 0 then GSchedule (ex_host_latency e) (GYield WaitDone super) else super)"

definition execute_command :: "executor \<Rightarrow> unit exec_gen \<Rightarrow> unit exec_gen" where
  "execute_command e super =
     (if ex_instr_proc_time e > 0 then GSchedule (ex_instr_proc_time e) (GYield WaitDone super) else super)"

definition get_unused_physical_qubit :: "executor \<Rightarrow> (int \<times> executor) result" where
  "get_unused_physical_qubit e =
     (case List.find (\<lambda>i. i \<notin> ex_used_positions e) (py_range (ex_num_positions e)) of
        None \<Rightarrow> Inl RuntimeError
      | Some i \<Rightarrow> Inr (i, e\<lparr>ex_used_positions := insert i (ex_used_positions e)\<rparr>))"

text \<open>
  \<open>_get_qubit\<close>: \<open>read\<close> gives the qubit at a position, read without noise or not; a busy
  position is read without noise.
\<close>

definition get_qubit :: "int result \<Rightarrow> (int \<Rightarrow> bool) \<Rightarrow> (bool \<Rightarrow> int \<Rightarrow> 'q) \<Rightarrow> ('q option) result" where
  "get_qubit position busy_at read =
     (case position of
        Inl NotAllocatedError \<Rightarrow> Inr None
      | Inl e \<Rightarrow> Inl e
      | Inr p \<Rightarrow> Inr (Some (read (busy_at p) p)))"

section \<open>Running a generator\<close>

datatype exec_action =
    AYield exec_event | ABusy bool | AInstr ns_op | AMeasure int | AInUse int bool | ASchedule int

text \<open>\<open>busy i\<close> answers the \<open>i\<close>-th look at the device, \<open>m\<close> is the outcome of a measurement.\<close>

primrec run_gen :: "'a exec_gen \<Rightarrow> (nat \<Rightarrow> bool) \<Rightarrow> int \<Rightarrow> exec_action list \<times> 'a result" where
  "run_gen (GDone x) busy m = ([], Inr x)"
| "run_gen (GRaise e) busy m = ([], Inl e)"
| "run_gen (GYield ev g) busy m = (let (tr, r) = run_gen g busy m in (AYield ev # tr, r))"
| "run_gen (GBusy k) busy m = (let (tr, r) = run_gen (k (busy 0)) (\<lambda>i. busy (Suc i)) m in (ABusy (busy 0) # tr, r))"
| "run_gen (GInstr op g) busy m = (let (tr, r) = run_gen g busy m in (AInstr op # tr, r))"
| "run_gen (GMeasure p k) busy m = (let (tr, r) = run_gen (k m) busy m in (AMeasure p # tr, r))"
| "run_gen (GInUse p b g) busy m = (let (tr, r) = run_gen g busy m in (AInUse p b # tr, r))"
| "run_gen (GSchedule t g) busy m = (let (tr, r) = run_gen g busy m in (ASchedule t # tr, r))"

text \<open>What the device was told to do.\<close>

fun issued :: "exec_action list \<Rightarrow> ns_op list" where
  "issued [] = []"
| "issued (AInstr op # tr) = op # issued tr"
| "issued (AMeasure p # tr) = NsOp INSTR_MEASURE [Some p] None # issued tr"
| "issued (_ # tr) = issued tr"

text \<open>
  The device gets an instruction only when it is known to be idle: it was seen idle or its
  program-done event was waited for, and nothing was started since.
\<close>

fun polite :: "bool \<Rightarrow> exec_action list \<Rightarrow> bool" where
  "polite idle [] = True"
| "polite idle (ABusy b # tr) = polite (\<not> b) tr"
| "polite idle (AYield ProgramDone # tr) = polite True tr"
| "polite idle (AYield WaitDone # tr) = polite False tr"
| "polite idle (AInstr op # tr) = (idle \<and> polite False tr)"
| "polite idle (AMeasure p # tr) = (idle \<and> polite idle tr)"
| "polite idle (AInUse p b # tr) = polite idle tr"
| "polite idle (ASchedule t # tr) = polite idle tr"

text \<open>The actions of one instruction and of one measurement.\<close>

definition instr_actions :: "bool \<Rightarrow> ns_op \<Rightarrow> exec_action list" where
  "instr_actions b op = ABusy b # (if b then [AYield ProgramDone] else []) @ [AInstr op, AYield ProgramDone]"

definition meas_actions :: "bool \<Rightarrow> int \<Rightarrow> exec_action list" where
  "meas_actions b p = ABusy b # (if b then [AYield ProgramDone] else []) @ [AMeasure p]"

lemma run_instruction:
  "run_gen (execute_qdevice_instruction i ps a) busy m = (instr_actions (busy 0) (NsOp i (map Some ps) a), Inr ())"
  by (simp add: execute_qdevice_instruction_def instr_actions_def)

lemma run_instruction_then:
  "run_gen (gen_then (execute_qdevice_instruction i ps a) g) busy m
     = (instr_actions (busy 0) (NsOp i (map Some ps) a) @ fst (run_gen g (\<lambda>j. busy (Suc j)) m),
        snd (run_gen g (\<lambda>j. busy (Suc j)) m))"
  by (simp add: gen_then_def execute_qdevice_instruction_def instr_actions_def split_def Let_def)

lemma run_measurement:
  "run_gen (meas_physical_qubit p) busy m = (meas_actions (busy 0) p, Inr m)"
  by (simp add: meas_physical_qubit_def meas_actions_def)

lemma issued_actions [simp]:
  "issued (instr_actions b op @ tr) = op # issued tr" "issued (meas_actions b p) = [NsOp INSTR_MEASURE [Some p] None]"
  by (simp_all add: instr_actions_def meas_actions_def)

lemma polite_actions [simp]:
  "polite idle (instr_actions b op)" "polite idle (instr_actions b op @ tr) = polite True tr"
  "polite idle (meas_actions b p)"
  by (simp_all add: instr_actions_def meas_actions_def)

lemmas run_actions_simps = run_instruction run_instruction_then run_measurement

lemma polite_result:
  assumes "\<And>x. polite idle (fst (run_gen (k x) busy m))"
  shows "polite idle (fst (run_gen (gen_result r k) busy m))"
  using assms by (cases r) (simp_all add: gen_result_def)

end
