(* ===== verification/SimProps.thy ===== *)
theory SimProps
  imports SimDelivery Executor
begin

text \<open>
  Properties of the network of the NetQASM simulation: its links, deliveries and devices,
  and the registry of qubits.
\<close>

section \<open>Links\<close>

definition empty_network :: "nv_config option \<Rightarrow> sim_network" where
  "empty_network nv =
     \<lparr>nt_nv_config = nv, nt_node_hardware_types = [],
      nt_instr_proc_time = (case nv of None \<Rightarrow> PyInt 0 | Some c \<Rightarrow> cf_instr_proc_time c),
      nt_host_latency = (case nv of None \<Rightarrow> PyInt 0 | Some c \<Rightarrow> cf_host_latency c),
      nt_nodes = [], nt_protocols = [], nt_link_layer_services = []\<rparr>"

definition with_empty_services :: "sim_network \<Rightarrow> sim_network" where
  "with_empty_services net = net\<lparr>nt_link_layer_services :=
     fold (\<lambda>name d. AList.update name [] d) (dict_keys (nt_nodes net)) (nt_link_layer_services net)\<rparr>"

text \<open>Before the links are made: the nodes are there, with no services.\<close>

lemma built_network_ok:
  assumes "build_network to_hardware cfg (empty_network nv) = Inr net" and "distinct (map nc_name (nw_nodes cfg))"
  shows "nodes_ok (with_empty_services net)" and "services_paired (with_empty_services net)"
    and "dom (map_of (nt_nodes (with_empty_services net))) = set (map nc_name (nw_nodes cfg))"
    and "j < length (nw_nodes cfg) \<Longrightarrow> \<exists>n. map_of (nt_nodes net) (nc_name (nw_nodes cfg ! j)) = Some n \<and> sn_id n = int j"
proof -
  note nodes = build_nodes [OF assms(1) [unfolded build_network_def] assms(2), simplified]
  have keys: "set (dict_keys (nt_nodes net)) = set (map nc_name (nw_nodes cfg))"
    using nodes by (simp add: empty_network_def)
  have node: "\<exists>j < length (nw_nodes cfg). s = nc_name (nw_nodes cfg ! j) \<and> sn_name n = s \<and> sn_id n = int j"
    if s: "map_of (nt_nodes net) s = Some n" for s n
  proof -
    have "s \<in> set (dict_keys (nt_nodes net))" using s by (force dest: map_of_SomeD)
    then obtain j where j: "j < length (nw_nodes cfg)" "s = nc_name (nw_nodes cfg ! j)"
      unfolding keys by (auto simp: in_set_conv_nth)
    with nodes s show ?thesis by (force simp: empty_network_def)
  qed
  have svc: "service_protocol (with_empty_services net) s i = None" for s i
    using nodes by (simp add: service_protocol_def fold_empty_services with_empty_services_def empty_network_def)
  show "nodes_ok (with_empty_services net)"
    unfolding nodes_ok_def
  proof (intro conjI allI impI)
    fix s n assume s: "map_of (nt_nodes (with_empty_services net)) s = Some n"
    then show "sn_name n = s" using node [of s n] by (auto simp: with_empty_services_def)
    have "s \<in> set (dict_keys (nt_nodes net))" using s by (force simp: with_empty_services_def dest: map_of_SomeD)
    then show "map_of (nt_link_layer_services (with_empty_services net)) s \<noteq> None"
      by (simp add: fold_empty_services with_empty_services_def)
  next
    fix s t n m
    assume "map_of (nt_nodes (with_empty_services net)) s = Some n" "map_of (nt_nodes (with_empty_services net)) t = Some m"
      "sn_id n = sn_id m"
    then show "s = t" using node [of s n] node [of t m] by (auto simp: with_empty_services_def)
  qed
  show "services_paired (with_empty_services net)" unfolding services_paired_def svc by simp
  show "dom (map_of (nt_nodes (with_empty_services net))) = set (map nc_name (nw_nodes cfg))"
    using keys by (simp add: dom_map_of_conv_image_fst with_empty_services_def)
  show "\<exists>n. map_of (nt_nodes net) (nc_name (nw_nodes cfg ! j)) = Some n \<and> sn_id n = int j" if "j < length (nw_nodes cfg)"
    using nodes that by (auto simp: empty_network_def)
qed

text \<open>
  C17: building a network from a configuration with distinct node names, hardware that is
  supported, and links between two different known nodes with a known noise type succeeds;
  every link's two nodes then have a service for each other, and all services come in
  pairs: both ends use the same protocol, whose nodes are these two.
\<close>

theorem link_services_paired:
  assumes "distinct (map nc_name (nw_nodes cfg))"
    and "\<forall>c \<in> set (nw_nodes cfg). node_hardware to_hardware c \<noteq> HwTrappedIon"
    and "\<forall>c. nv = Some c \<longrightarrow> (\<exists>k. cf_num_qubits c = PyInt k)"
    and "\<forall>l \<in> set (nw_links cfg). link_valid noise_of (set (map nc_name (nw_nodes cfg))) l"
  shows "\<exists>net. NetSquidNetwork to_hardware noise_of missing cfg nv = Inr net \<and> services_paired net
     \<and> (\<forall>l \<in> set (nw_links cfg). linked net l)
     \<and> (\<forall>j < length (nw_nodes cfg). \<exists>n. map_of (nt_nodes net) (nc_name (nw_nodes cfg ! j)) = Some n \<and> sn_id n = int j)"
proof -
  obtain net1 where net1: "build_network to_hardware cfg (empty_network nv) = Inr net1"
    using build_network_returns [of "nw_nodes cfg" to_hardware "empty_network nv" 0] assms(2,3)
    by (auto simp: build_network_def empty_network_def)
  note ok = built_network_ok [OF net1 assms(1)]
  have "\<forall>l \<in> set (nw_links cfg). link_valid noise_of (dom (map_of (nt_nodes (with_empty_services net1)))) l"
    using assms(4) unfolding ok(3) .
  from create_links [OF ok(1,2) this, of missing] obtain net where net:
    "forE (create_link noise_of missing) (nw_links cfg) (with_empty_services net1) = Inr net" "services_paired net"
    "nt_nodes net = nt_nodes (with_empty_services net1)" "\<forall>l \<in> set (nw_links cfg). linked net l" by blast
  have "NetSquidNetwork to_hardware noise_of missing cfg nv = Inr net"
    unfolding NetSquidNetwork_def net1 [unfolded empty_network_def] create_link_layer_services_def bindE_Inr
    by (rule net(1) [unfolded with_empty_services_def])
  moreover have "nt_nodes net = nt_nodes net1" using net(3) by (simp add: with_empty_services_def)
  ultimately show ?thesis using net(2,4) ok(4) by (intro exI [of _ net]) auto
qed

definition ex_sim_config :: network_config where
  "ex_sim_config = \<lparr>nw_nodes = [\<lparr>nc_name = ''a'', nc_hardware = ''NV'', nc_qubits = [(0, 0)], nc_gate_fidelity = 1\<rparr>,
       \<lparr>nc_name = ''b'', nc_hardware = ''Generic'', nc_qubits = [(0, 0)], nc_gate_fidelity = 1\<rparr>],
     nw_links = [\<lparr>lk_name = ''ab'', lk_node_name1 = ''a'', lk_node_name2 = ''b'', lk_noise_type = ''x'', lk_fidelity = 9 / 10\<rparr>]\<rparr>"

theorem link_services_paired_witness:
  "\<exists>net. NetSquidNetwork (\<lambda>s. if s = ''NV'' then Some HwNV else None) (\<lambda>s. Some Depolarise) KeyError ex_sim_config None = Inr net
     \<and> services_paired net"
proof -
  have "distinct (map nc_name (nw_nodes ex_sim_config))"
    "\<forall>c \<in> set (nw_nodes ex_sim_config). node_hardware (\<lambda>s. if s = ''NV'' then Some HwNV else None) c \<noteq> HwTrappedIon"
    "\<forall>l \<in> set (nw_links ex_sim_config). link_valid (\<lambda>s. Some Depolarise) (set (map nc_name (nw_nodes ex_sim_config))) l"
    by (simp_all add: ex_sim_config_def node_hardware_def link_valid_def)
  then show ?thesis using link_services_paired [of ex_sim_config _ None "\<lambda>s. Some Depolarise" KeyError] by fastforce
qed

section \<open>Deliveries\<close>

text \<open>What the responses of the two ends have in common and where they differ.\<close>

fun responses_agree :: "queue_item \<Rightarrow> int \<Rightarrow> int \<Rightarrow> response \<Rightarrow> response \<Rightarrow> bool" where
  "responses_agree item a b (KeepResponse x) (KeepResponse y) =
     (dr_kind (qi_request item) = ReqCreateAndKeep
      \<and> rk_create_id x = rk_create_id y \<and> rk_sequence_number x = rk_sequence_number y \<and> rk_bell_state x = rk_bell_state y
      \<and> rk_purpose_id x = rk_purpose_id y \<and> rk_remote_node_id x = b \<and> rk_remote_node_id y = a
      \<and> rk_directionality_flag x + rk_directionality_flag y = 1
      \<and> (rk_directionality_flag x = 1 \<longleftrightarrow> a = dr_remote_node_id (qi_request item)))"
| "responses_agree item a b (MeasureResponse x) (MeasureResponse y) =
     (dr_kind (qi_request item) = ReqMeasureDirectly
      \<and> rm_create_id x = rm_create_id y \<and> rm_sequence_number x = rm_sequence_number y \<and> rm_bell_state x = rm_bell_state y
      \<and> rm_purpose_id x = rm_purpose_id y \<and> rm_remote_node_id x = b \<and> rm_remote_node_id y = a
      \<and> rm_directionality_flag x + rm_directionality_flag y = 1
      \<and> (rm_directionality_flag x = 1 \<longleftrightarrow> a = dr_remote_node_id (qi_request item)))"
| "responses_agree item a b _ _ = False"

lemma logged_groups_returns:
  obtains groups where "logged_groups peek r = Inr groups" and "groups = None \<longleftrightarrow> rg_backend r = None"
  by (cases "rg_backend r")
    (auto simp: logged_groups_def get_running_backend_def get_qubit_groups_def on_backend_def)

lemma update_qubits_used_backend [simp]: "rg_backend (update_qubits_used node pos b r) = rg_backend r"
  by (simp add: update_qubits_used_def)

text \<open>
  C18: the delivery of a pair between nodes \<open>a\<close> and \<open>b\<close>, whether a backend is running or not.  For
  a request to keep or to measure, each end gets exactly one response, with the same create
  id, sequence number, purpose id and Bell state, the other end as its remote node, and opposite
  directionality flags; then the delivery is signalled and the next request handled.  Both
  positions are marked as used.  A network with a logger logs one entry, with the groups of
  qubits exactly if a backend is running.  A request to prepare a remote state is answered to
  nobody: the delivery raises \<open>NotADirectoryError\<close>.
\<close>

theorem delivery_responses:
  assumes "mp_nodes p = [(a, na), (b, nb)]" and "a \<noteq> b" and "na \<noteq> nb \<or> pa \<noteq> pb"
    and "places = [(a, [pa]), (b, [pb])]" and "dr_remote_node_id (qi_request item) \<in> {a, b}"
  shows "if dr_kind (qi_request item) = ReqRemoteStatePrep
    then handle_label_delivery p (Some (Some item)) places meas bell seqno now peek r = Inl NotADirectoryError
    else \<exists>x y effects r' logs. handle_label_delivery p (Some (Some item)) places meas bell seqno now peek r = Inr (effects, r')
     \<and> effects = [DecrementPairsLeft (qi_node_id item) (qi_create_id item), ReactTo a x, ReactTo b y]
         @ logs @ [EprDelivered, HandleNext]
     \<and> (if mp_logging p then \<exists>entry. logs = [GlobalLog entry] \<and> (le_qubit_groups entry = None \<longleftrightarrow> rg_backend r = None)
        else logs = [])
     \<and> responses_agree item a b x y
     \<and> map_of (rg_qubits_in_use r') (na, pa) = Some True \<and> map_of (rg_qubits_in_use r') (nb, pb) = Some True
     \<and> rg_backend r' = rg_backend r"
proof -
  let ?r' = "update_qubits_used nb pb True (update_qubits_used na pa True r)"
  obtain groups where g: "logged_groups peek ?r' = Inr groups" "groups = None \<longleftrightarrow> rg_backend r = None"
    using logged_groups_returns [of peek ?r'] by auto
  have u: "map_of (rg_qubits_in_use ?r') (na, pa) = Some True \<and> map_of (rg_qubits_in_use ?r') (nb, pb) = Some True"
    by (simp add: update_qubits_used_def map_of_update)
  note defs = handle_label_delivery_def node_responses_def node_response_def other_node_id_def dict_get_def
    collect_def node_positions_def global_log_def py_index_def
  show ?thesis
  proof (cases "dr_kind (qi_request item)")
    case ReqCreateAndKeep
    then show ?thesis using assms g u by (auto simp: defs Let_def)
  next
    case ReqMeasureDirectly
    then show ?thesis using assms g u by (auto simp: defs Let_def)
  next
    case ReqRemoteStatePrep
    then show ?thesis using assms by (simp add: defs Let_def)
  qed
qed

definition ex_protocol :: magic_protocol where
  "ex_protocol = \<lparr>mp_nodes = [(4, ''a''), (7, ''b'')], mp_path = [''ab''], mp_logging = True\<rparr>"

definition ex_item :: queue_item where
  "ex_item = \<lparr>qi_request = \<lparr>dr_kind = ReqMeasureDirectly, dr_remote_node_id = 7, dr_purpose_id = 0, dr_minimum_fidelity = 1\<rparr>,
     qi_node_id = 4, qi_create_id = 2\<rparr>"

definition ex_registry :: registry where
  "ex_registry = \<lparr>rg_backend = None, rg_qubits_in_use = [((''a'', 0), False)]\<rparr>"

text \<open>A running backend, and a registry without one.\<close>

definition ex_backend :: backend where
  "ex_backend = (let na = \<lparr>bn_name = ''a'', bn_id = 4, bn_num_positions = 1\<rparr>; nb = \<lparr>bn_name = ''b'', bn_id = 7, bn_num_positions = 4\<rparr> in
     \<lparr>be_nodes = [(''a'', na), (''b'', nb)], be_app_node_map = [(''app_a'', na), (''app_b'', nb)]\<rparr>)"

definition no_qubits :: "string \<Rightarrow> int \<Rightarrow> unit sim_qubit option" where
  "no_qubits node pos = None"

theorem delivery_responses_witness:
  "\<exists>x y effects r'. handle_label_delivery ex_protocol (Some (Some ex_item)) [(4, [0]), (7, [3])] (\<lambda>i. (1, 0)) 0 5 10
       no_qubits (ex_registry\<lparr>rg_backend := Some ex_backend\<rparr>) = Inr (effects, r')
     \<and> responses_agree ex_item 4 7 x y \<and> map_of (rg_qubits_in_use r') (''a'', 0) = Some True"
proof -
  have "mp_nodes ex_protocol = [(4, ''a''), (7, ''b'')]" "(4 :: int) \<noteq> 7" "''a'' \<noteq> ''b'' \<or> (0 :: int) \<noteq> 3"
    "[(4 :: int, [0 :: int]), (7, [3])] = [(4, [0]), (7, [3])]" "dr_remote_node_id (qi_request ex_item) \<in> {4, 7}"
    "dr_kind (qi_request ex_item) = ReqMeasureDirectly"
    by (simp_all add: ex_protocol_def ex_item_def)
  then show ?thesis
    using delivery_responses [of ex_protocol 4 "''a''" 7 "''b''" 0 3 "[(4, [0]), (7, [3])]" ex_item
        "\<lambda>i. (1, 0)" 0 5 10 no_qubits "ex_registry\<lparr>rg_backend := Some ex_backend\<rparr>"]
    by (auto simp del: responses_agree.simps)
qed

section \<open>Noisy links\<close>

text \<open>The overlap of a state with the perfect pair, and its trace.\<close>

definition pair_fidelity :: "rat list list \<Rightarrow> rat" where
  "pair_fidelity rho = (rho ! 0 ! 0 + rho ! 0 ! 3 + rho ! 3 ! 0 + rho ! 3 ! 3) / 2"

definition trace4 :: "rat list list \<Rightarrow> rat" where
  "trace4 rho = rho ! 0 ! 0 + rho ! 1 ! 1 + rho ! 2 ! 2 + rho ! 3 ! 3"

text \<open>
  C35: what a link with depolarising noise delivers.  The state has trace one and its
  fidelity with the perfect pair is \<open>(1 + 3 F) / 4\<close> for the configured fidelity \<open>F\<close>: at least
  a quarter for \<open>F\<close> not negative, never below \<open>F\<close> for \<open>F\<close> up to one, and equal to it only
  for \<open>F = 1\<close>.
\<close>

theorem noisy_link_state:
  assumes "noise_of (lk_noise_type link) = Some Depolarise"
    and "map_of (nt_nodes net) (lk_node_name1 link) \<noteq> None" and "map_of (nt_nodes net) (lk_node_name2 link) \<noteq> None"
  shows "\<exists>q. create_link_distributor noise_of missing net link 1000 = Inr (Some (LinearDepolariseMagicDistributor 1000 1 q))
     \<and> delivery_func q = (([delivered_state q], [1]), 1)
     \<and> trace4 (delivered_state q) = 1
     \<and> pair_fidelity (delivered_state q) = (1 + 3 * lk_fidelity link) / 4
     \<and> (0 \<le> lk_fidelity link \<longrightarrow> 1 / 4 \<le> pair_fidelity (delivered_state q))
     \<and> (lk_fidelity link \<le> 1 \<longrightarrow> lk_fidelity link \<le> pair_fidelity (delivered_state q) \<and> pair_fidelity (delivered_state q) \<le> 1)
     \<and> (pair_fidelity (delivered_state q) = lk_fidelity link \<longleftrightarrow> lk_fidelity link = 1)"
proof -
  have f: "pair_fidelity (delivered_state (1 - x)) = (1 + 3 * x) / 4" "trace4 (delivered_state (1 - x)) = 1" for x
    by (simp_all add: pair_fidelity_def trace4_def delivered_state_def epr_state_def maximally_mixed_def field_simps)
  have "create_link_distributor noise_of missing net link 1000 = Inr (Some (LinearDepolariseMagicDistributor 1000 1 (1 - lk_fidelity link)))"
    using assms by (auto simp: create_link_distributor_def get_node_def)
  then show ?thesis
    by (intro exI [of _ "1 - lk_fidelity link"] conjI) (auto simp: f delivery_func_def field_simps)
qed

definition ex_sim_net :: sim_network where
  "ex_sim_net = \<lparr>nt_nv_config = None, nt_node_hardware_types = [], nt_instr_proc_time = PyInt 0, nt_host_latency = PyInt 0,
     nt_nodes = [(''a'', \<lparr>sn_name = ''a'', sn_id = 0, sn_qmemory = NVQDevice ''x'' 1 1 None\<rparr>),
       (''b'', \<lparr>sn_name = ''b'', sn_id = 1, sn_qmemory = NVQDevice ''x'' 1 1 None\<rparr>)],
     nt_protocols = [], nt_link_layer_services = []\<rparr>"

theorem noisy_link_state_witness:
  "\<exists>q. create_link_distributor (\<lambda>s. Some Depolarise) KeyError ex_sim_net (hd (nw_links ex_sim_config)) 1000
       = Inr (Some (LinearDepolariseMagicDistributor 1000 1 q)) \<and> pair_fidelity (delivered_state q) = 37 / 40"
  using noisy_link_state [of "\<lambda>s. Some Depolarise" "hd (nw_links ex_sim_config)" ex_sim_net KeyError]
  by (auto simp: ex_sim_config_def ex_sim_net_def)

section \<open>Groups of qubits\<close>

text \<open>
  With a backend running, the groups list every position that holds a qubit and is not
  marked as unused exactly once, under the qubit's state, in the order of the applications
  and their positions; a group is never empty.  Without a backend the call does not return.
\<close>

theorem qubit_groups_listed:
  "case rg_backend r of
     None \<Rightarrow> get_qubit_groups peek r = None
   | Some b \<Rightarrow> \<exists>groups. get_qubit_groups peek r = Some (Inr groups)
       \<and> (\<forall>h. group_ids groups h = map (\<lambda>(app_name, node_name, pos). (app_name, pos)) (filter (shown peek r h) (all_slots b)))
       \<and> (\<forall>h. map_of groups h \<noteq> None \<longleftrightarrow> (\<exists>x \<in> set (all_slots b). shown peek r h x))"
proof (cases "rg_backend r")
  case None
  then show ?thesis by (simp add: get_qubit_groups_def on_backend_def get_running_backend_def)
next
  case (Some b)
  let ?g = "fold (\<lambda>(app_name, node_name, pos). visit_position peek r app_name node_name pos) (all_slots b) []"
  have g: "get_qubit_groups peek r = Some (Inr ?g)"
    using Some by (simp add: get_qubit_groups_def on_backend_def get_running_backend_def visit_slots all_slots_def)
  have ids: "group_ids ?g h = map (\<lambda>(app_name, node_name, pos). (app_name, pos)) (filter (shown peek r h) (all_slots b))" for h
    unfolding visit_all_ids by (simp add: group_ids_def)
  have ne: "map_of ?g h \<noteq> None \<longleftrightarrow> group_ids ?g h \<noteq> []" for h
    using visit_all_nonempty [of "[]" peek r "all_slots b"] by (auto simp: group_ids_def split: option.splits)
  have "map_of ?g h \<noteq> None \<longleftrightarrow> (\<exists>x \<in> set (all_slots b). shown peek r h x)" for h
    unfolding ne ids by (auto simp: filter_empty_conv)
  with g ids Some show ?thesis by auto
qed

section \<open>Devices\<close>

text \<open>Every instruction of an executor's table is one the device has, at any of its positions.\<close>

definition table_supported :: "qdevice \<Rightarrow> (instr_class, ns_instr) dict \<Rightarrow> bool" where
  "table_supported d table \<longleftrightarrow> (\<forall>i \<in> set (map snd table). \<forall>p \<in> set (py_range (qd_num_positions d)). device_can d i [p])"

text \<open>
  The default devices and the executors' tables.  The NV device has every instruction the
  NV executor can give it.  The generic device has every instruction of the vanilla
  executor's table but one: it cannot do the swap that \<open>mov\<close> is mapped to.
\<close>

theorem device_tables:
  "table_supported (NVQDevice name k f ms) NV_NS_INSTR_MAPPING
   \<and> table_supported (QDevice name k None f ms) (filter (\<lambda>(c, i). c \<noteq> MovInstruction) VANILLA_NS_INSTR_MAPPING)
   \<and> map_of VANILLA_NS_INSTR_MAPPING MovInstruction = Some INSTR_SWAP
   \<and> (\<forall>p q. \<not> device_can (QDevice name k None f ms) INSTR_SWAP [p, q])"
  by (simp add: table_supported_def device_can_def QDevice_def NVQDevice_def default_phys_instructions_def
      NV_NS_INSTR_MAPPING_def VANILLA_NS_INSTR_MAPPING_def)

text \<open>
  A device built from an NV configuration can run every program of the NV processor's
  measurement: moving the electron to any carbon, moving any carbon to the electron, and
  measuring the electron; it cannot measure a carbon.
\<close>

theorem nv_device_runs_programs:
  assumes "cf_num_qubits cfg = PyInt k" and "1 \<le> p" and "p < k"
  shows "\<exists>d. build_nv_qdevice name cfg = Inr d
     \<and> (\<forall>op \<in> set (electron_to_carbon_prog p @ carbon_to_electron_prog (Some p) @ [NsOp INSTR_MEASURE [Some 0] None]). op_possible d op)
     \<and> \<not> op_possible d (NsOp INSTR_MEASURE [Some p] None)
     \<and> length (qd_noise d) = nat k"
proof -
  obtain d where d: "build_nv_qdevice name cfg = Inr d" "length (qd_noise d) = Suc (length (carbon_positions k))"
    using assms(1) by (auto simp: build_nv_qdevice_def Let_def)
  note can = build_nv_can [OF d(1) assms(1)]
  have "length (qd_noise d) = nat k" using d(2) assms by (simp add: carbon_positions_def)
  then show ?thesis
    using d(1) assms by (intro exI [of _ d]) (auto simp: electron_to_carbon_prog_def carbon_to_electron_prog_def can)
qed

definition ex_nv_config :: nv_config where
  "ex_nv_config = (case parse_nv_config (map (\<lambda>key. (key, PyInt 3)) nv_config_keys) of Inr cfg \<Rightarrow> cfg | Inl e \<Rightarrow> undefined)"

theorem nv_device_runs_programs_witness:
  "\<exists>d. build_nv_qdevice ''nv'' ex_nv_config = Inr d \<and> \<not> op_possible d (NsOp INSTR_MEASURE [Some 2] None)"
proof -
  have "cf_num_qubits ex_nv_config = PyInt 3"
    by (simp add: ex_nv_config_def parse_nv_config_def nv_config_keys_def Let_def)
  from nv_device_runs_programs [OF this, of 2 "''nv''"] show ?thesis by auto
qed

end
