(* ===== verification/ExecutorProps.thy ===== *)
theory ExecutorProps
  imports Executor QuantumState
begin

text \<open>
  Properties of the executors, and their agreement with the processors of the stack.
\<close>

text \<open>
  C20: the device is never given an instruction, and never measured, while it may be busy:
  whatever it answers, every operation has seen it idle or waited for its program to end.
\<close>

theorem executor_waits_for_device:
  "polite idle (fst (run_gen (do_single_qubit_instr e position_of c sid a) busy m))
   \<and> polite idle (fst (run_gen (do_single_qubit_rotation e position_of c sid a ang) busy m))
   \<and> polite idle (fst (run_gen (do_two_qubit_instr e position_of c sid a b) busy m))
   \<and> polite idle (fst (run_gen (do_controlled_qubit_rotation e position_of c sid a b ang) busy m))
   \<and> polite idle (fst (run_gen (do_meas position_of sid a) busy m))
   \<and> polite idle (fst (run_gen (nv_do_meas position_of sid a) busy m))"
proof (intro conjI)
  show "polite idle (fst (run_gen (do_meas position_of sid a) busy m))"
    unfolding do_meas_def by (rule polite_result) (simp add: run_actions_simps)
  show "polite idle (fst (run_gen (nv_do_meas position_of sid a) busy m))"
    unfolding nv_do_meas_def by (rule polite_result) (simp add: run_actions_simps clear_phys_qubit_in_memory_def)
qed (simp_all add: do_single_qubit_instr_def do_single_qubit_rotation_def do_two_qubit_instr_def
    do_controlled_qubit_rotation_def polite_result run_actions_simps)

text \<open>
  C19: measuring a carbon on the NV executor gives the device exactly the programs that the
  NV processor of the stack runs, which move the carbon's state to the electron, and then
  measures the electron; the electron is marked free before that.  Measuring the electron
  itself is one measurement.  On amplitudes the programs measure the carbon.
\<close>

theorem executor_measures_like_stack:
  assumes "position_of sid a = Inr p" and "p \<noteq> 0"
  shows "\<exists>moved. run_gen (nv_do_meas position_of sid a) busy m
       = (moved @ AInUse 0 False # meas_actions (busy 6) 0, Inr m)
     \<and> issued moved = carbon_to_electron_prog (Some p)
     \<and> issued (meas_actions (busy 6) 0) = [NsOp INSTR_MEASURE [Some 0] None]
     \<and> prog_sem k (issued moved) psi = Some (\<lambda>s. if s p then 0 else move_phase (s 0) * psi (s(0 := k, p := s 0)))"
proof -
  let ?i = "\<lambda>j i ps a. instr_actions (busy j) (NsOp i (map Some ps) a)"
  let ?moved = "?i 0 INSTR_INIT [0] None @ ?i 1 INSTR_ROT_Y [0] (Some (1 / 2)) @ ?i 2 INSTR_CYDIR [0, p] (Some (- 1 / 2))
    @ ?i 3 INSTR_ROT_X [0] (Some (- 1 / 2)) @ ?i 4 INSTR_CXDIR [0, p] (Some (1 / 2))
    @ ?i 5 INSTR_ROT_Y [0] (Some (- 1 / 2)) @ []"
  have r: "run_gen (nv_do_meas position_of sid a) busy m = (?moved @ AInUse 0 False # meas_actions (busy 6) 0, Inr m)"
    using assms by (simp add: nv_do_meas_def gen_result_def run_actions_simps clear_phys_qubit_in_memory_def eval_nat_numeral)
  have i: "issued ?moved = carbon_to_electron_prog (Some p)"
    by (simp add: carbon_to_electron_prog_def PI_OVER_2_def del: append_Nil2)
  have s: "prog_sem k (issued ?moved) psi = Some (\<lambda>s. if s p then 0 else move_phase (s 0) * psi (s(0 := k, p := s 0)))"
    unfolding i by (rule carbon_to_electron_sem [OF assms(2)])
  show ?thesis by (intro exI [of _ ?moved] conjI r i s issued_actions(2))
qed

theorem executor_measures_like_stack_witness:
  "\<exists>moved. run_gen (nv_do_meas (\<lambda>sid a. Inr (a + 1)) 0 2) (\<lambda>i. i = 1) 1
       = (moved @ AInUse 0 False # meas_actions False 0, Inr 1)
     \<and> issued moved = carbon_to_electron_prog (Some 3)"
  using executor_measures_like_stack [of "\<lambda>sid a. Inr (a + 1)" 0 2 3 "\<lambda>i. i = 1" 1] by auto

text \<open>
  The executor's allocation is the one of the stack's physical memory, with another
  exception: on equal sets of taken positions both take the same position, the smallest
  free one, or both raise.
\<close>

theorem executor_allocates_like_stack:
  assumes "allocated_ids pm = IdSet (ex_used_positions e)" and "qubit_count pm = ex_num_positions e"
  shows "get_unused_physical_qubit e = (case allocate pm of
       Inl err \<Rightarrow> Inl RuntimeError
     | Inr (i, pm') \<Rightarrow> Inr (i, e\<lparr>ex_used_positions := used pm'\<rparr>))"
  using assms by (simp add: get_unused_physical_qubit_def allocate_def allocate_where_def used_def split: option.splits)

definition ex_executor :: executor where
  "ex_executor = \<lparr>ex_name = ''alice'', ex_node_name = ''alice'', ex_node_id = 0, ex_instr_mapping = NV_NS_INSTR_MAPPING,
     ex_num_positions = 3, ex_used_positions = {0, 2}, ex_instr_proc_time = 0, ex_host_latency = 0\<rparr>"

theorem executor_allocates_like_stack_witness:
  "get_unused_physical_qubit ex_executor = Inr (1, ex_executor\<lparr>ex_used_positions := {0, 1, 2}\<rparr>)"
proof -
  let ?pm = "(NVPhysicalQuantumMemory 3)\<lparr>allocated_ids := IdSet {0, 2}\<rparr>"
  have "allocate ?pm = Inr (1, ?pm\<lparr>allocated_ids := IdSet {1, 0, 2}\<rparr>)" by code_simp
  moreover have "allocated_ids ?pm = IdSet (ex_used_positions ex_executor)" "qubit_count ?pm = ex_num_positions ex_executor"
    by (simp_all add: ex_executor_def NVPhysicalQuantumMemory_def PhysicalQuantumMemory_def)
  moreover have "{1, 0, 2} = {0, 1, 2 :: int}" by auto
  ultimately show ?thesis using executor_allocates_like_stack [of ?pm ex_executor] by (simp add: used_def)
qed

end
