(* ===== verification/SingleThread.thy ===== *)
theory SingleThread
  imports Prelude
begin

text \<open>
  The simulator in one thread: the QNodeOS protocol and the listeners of
  \<open>squidasm/run/singlethread/protocols.py\<close> and the connection a host's program uses
  (\<open>squidasm/nqasm/singlethread/connection.py\<close>), over the two channels between them.  The
  executor is a parameter: it is asked to do things and reports when they are done.  What
  the program flushes, and when it closes its connection, is input.
\<close>

section \<open>Messages\<close>

record sdk_epr_socket =
  es_epr_socket_id :: int
  es_remote_node_id :: int
  es_remote_epr_socket_id :: int

datatype 's host_message =
    InitNewAppMessage int int
  | OpenEPRSocketMessage sdk_epr_socket
  | SubroutineMessage 's
  | StopAppMessage int

definition SUBRT_FINISHED :: string where
  "SUBRT_FINISHED = ''Subroutine finished''"

section \<open>QNodeOS\<close>

text \<open>What the executor is asked to do, in order.\<close>

datatype 's executor_call =
    InitNewApplication int int
  | SetupEprSocket int int int
  | ExecuteSubroutine 's
  | StopApplication int

datatype qnos_pc = QStart | QReady | QSetup | QExecuting | QStopping | QStopped

record 's qnos_protocol =
  qp_buffer :: "'s host_message list"
  qp_pc :: qnos_pc
  qp_calls :: "'s executor_call list"

definition QNodeOsProtocol :: "'s qnos_protocol" where
  "QNodeOsProtocol = \<lparr>qp_buffer = [], qp_pc = QStart, qp_calls = []\<rparr>"

text \<open>The listener adds what arrives at the port to the buffer, in order.\<close>

definition qnos_listen :: "'s host_message list \<Rightarrow> 's qnos_protocol \<Rightarrow> 's qnos_protocol" where
  "qnos_listen items q = q\<lparr>qp_buffer := qp_buffer q @ items\<rparr>"

definition call_executor :: "'s executor_call \<Rightarrow> qnos_pc \<Rightarrow> 's qnos_protocol \<Rightarrow> 's qnos_protocol" where
  "call_executor c pc q = q\<lparr>qp_calls := qp_calls q @ [c], qp_pc := pc\<rparr>"

text \<open>The first message has to be the one that starts an application.\<close>

fun receive_init_msg :: "'s host_message \<Rightarrow> 's qnos_protocol \<Rightarrow> 's qnos_protocol result" where
  "receive_init_msg (InitNewAppMessage app_id max_qubits) q =
     Inr (call_executor (InitNewApplication app_id max_qubits) QReady q)"
| "receive_init_msg _ q = Inl AssertionError"

text \<open>The body of the loop of \<open>run\<close>, up to where it waits for the executor.\<close>

fun qnos_dispatch :: "'s host_message \<Rightarrow> 's qnos_protocol \<Rightarrow> 's qnos_protocol" where
  "qnos_dispatch (InitNewAppMessage app_id max_qubits) q = call_executor (InitNewApplication app_id max_qubits) QReady q"
| "qnos_dispatch (OpenEPRSocketMessage sck) q =
     call_executor (SetupEprSocket (es_epr_socket_id sck) (es_remote_node_id sck) (es_remote_epr_socket_id sck)) QSetup q"
| "qnos_dispatch (SubroutineMessage s) q = call_executor (ExecuteSubroutine s) QExecuting q"
| "qnos_dispatch (StopAppMessage app_id) q = call_executor (StopApplication app_id) QStopping q"

text \<open>A step of the protocol when it waits for a message; \<open>None\<close> if there is none.\<close>

definition qnos_receive :: "'s qnos_protocol \<Rightarrow> 's qnos_protocol result option" where
  "qnos_receive q =
     (case (qp_pc q, qp_buffer q) of
        (QStart, msg # rest) \<Rightarrow> Some (receive_init_msg msg (q\<lparr>qp_buffer := rest\<rparr>))
      | (QReady, msg # rest) \<Rightarrow> Some (Inr (qnos_dispatch msg (q\<lparr>qp_buffer := rest\<rparr>)))
      | _ \<Rightarrow> None)"

text \<open>
  A step when the executor is done: the answer for the host, if any, and the new state.
  After stopping an application the protocol and its listener stop.
\<close>

definition qnos_executor_done :: "'s qnos_protocol \<Rightarrow> (string list \<times> 's qnos_protocol) option" where
  "qnos_executor_done q =
     (case qp_pc q of
        QSetup \<Rightarrow> Some ([SUBRT_FINISHED], q\<lparr>qp_pc := QReady\<rparr>)
      | QExecuting \<Rightarrow> Some ([SUBRT_FINISHED], q\<lparr>qp_pc := QReady\<rparr>)
      | QStopping \<Rightarrow> Some ([], q\<lparr>qp_pc := QStopped\<rparr>)
      | _ \<Rightarrow> None)"

section \<open>The connection\<close>

text \<open>
  The sockets not opened yet and those opened, in the order of the dictionary; where the
  program is: not in a call, waiting for a socket to open with a subroutine to send after,
  or waiting for a subroutine.
\<close>

datatype 's conn_pc = CnIdle | CnAwaitOpen sdk_epr_socket 's | CnAwaitSubroutine | CnClosed

record 's connection =
  cn_app_id :: int
  cn_max_qubits :: int
  cn_epr_sck_status :: "(sdk_epr_socket \<times> bool) list"
  cn_results :: "string list"
  cn_pc :: "'s conn_pc"

definition NetSquidConnection :: "int \<Rightarrow> sdk_epr_socket list option \<Rightarrow> 's connection" where
  "NetSquidConnection max_qubits epr_sockets =
     \<lparr>cn_app_id = 0, cn_max_qubits = max_qubits,
      cn_epr_sck_status = map (\<lambda>sck. (sck, False)) (case epr_sockets of None \<Rightarrow> [] | Some s \<Rightarrow> s),
      cn_results = [], cn_pc = CnIdle\<rparr>"

text \<open>\<open>__enter__\<close>: the message that starts the application.\<close>

definition conn_enter :: "'s connection \<Rightarrow> 's host_message list" where
  "conn_enter c = [InitNewAppMessage 0 (cn_max_qubits c)]"

text \<open>
  \<open>commit_protosubroutine\<close> from the head of its loop: the next socket that is not open is
  opened first, then the compiled subroutine is sent.
\<close>

definition commit_next :: "'s \<Rightarrow> 's connection \<Rightarrow> 's host_message list \<times> 's connection" where
  "commit_next s c =
     (case List.find (\<lambda>(sck, opened). \<not> opened) (cn_epr_sck_status c) of
        Some (sck, opened) \<Rightarrow> ([OpenEPRSocketMessage sck], c\<lparr>cn_pc := CnAwaitOpen sck s\<rparr>)
      | None \<Rightarrow> ([SubroutineMessage s], c\<lparr>cn_pc := CnAwaitSubroutine\<rparr>))"

text \<open>\<open>flush\<close>: nothing pending is no work.\<close>

definition conn_flush :: "'s option \<Rightarrow> 's connection \<Rightarrow> 's host_message list \<times> 's connection" where
  "conn_flush pending c = (case pending of None \<Rightarrow> ([], c) | Some s \<Rightarrow> commit_next s c)"

definition mark_open :: "sdk_epr_socket \<Rightarrow> (sdk_epr_socket \<times> bool) list \<Rightarrow> (sdk_epr_socket \<times> bool) list" where
  "mark_open sck status = map (\<lambda>(k, v). (k, v \<or> k = sck)) status"

text \<open>The rest of \<open>_wait_for_results\<close>, once the buffer holds a message, and what follows it.\<close>

definition conn_receive :: "'s connection \<Rightarrow> ('s host_message list \<times> 's connection) result option" where
  "conn_receive c =
     (case (cn_pc c, cn_results c) of
        (CnAwaitOpen sck s, msg # rest) \<Rightarrow>
          Some (bindE (assertE (msg = SUBRT_FINISHED) AssertionError) (\<lambda>_.
            Inr (commit_next s (c\<lparr>cn_results := rest, cn_epr_sck_status := mark_open sck (cn_epr_sck_status c)\<rparr>))))
      | (CnAwaitSubroutine, msg # rest) \<Rightarrow>
          Some (bindE (assertE (msg = SUBRT_FINISHED) AssertionError) (\<lambda>_.
            Inr ([], c\<lparr>cn_results := rest, cn_pc := CnIdle\<rparr>)))
      | _ \<Rightarrow> None)"

text \<open>
  \<open>close\<close>: its call of \<open>flush\<close> makes a generator and throws it away, so whatever is pending
  is not sent.
\<close>

definition conn_close :: "'s option \<Rightarrow> 's connection \<Rightarrow> 's host_message list \<times> 's connection" where
  "conn_close pending c = ([StopAppMessage (cn_app_id c)], c\<lparr>cn_pc := CnClosed\<rparr>)"

section \<open>Host and QNodeOS together\<close>

record 's single =
  sg_conn :: "'s connection"
  sg_qnos :: "'s qnos_protocol"

definition send_all :: "'s host_message list \<times> 's connection \<Rightarrow> 's single \<Rightarrow> 's single" where
  "send_all mc st = st\<lparr>sg_conn := snd mc, sg_qnos := qnos_listen (fst mc) (sg_qnos st)\<rparr>"

text \<open>What can happen: the program flushes or closes, or one of the two protocols goes on.\<close>

datatype 's single_event = ProgramFlush "'s option" | ProgramClose "'s option" | ConnectionGo | QnosGo | ExecutorDone

fun single_step :: "'s single_event \<Rightarrow> 's single \<Rightarrow> 's single result option" where
  "single_step (ProgramFlush pending) st =
     (if cn_pc (sg_conn st) = CnIdle then Some (Inr (send_all (conn_flush pending (sg_conn st)) st)) else None)"
| "single_step (ProgramClose pending) st =
     (if cn_pc (sg_conn st) = CnIdle then Some (Inr (send_all (conn_close pending (sg_conn st)) st)) else None)"
| "single_step ConnectionGo st =
     map_option (\<lambda>r. bindE r (\<lambda>mc. Inr (send_all mc st))) (conn_receive (sg_conn st))"
| "single_step QnosGo st =
     map_option (\<lambda>r. bindE r (\<lambda>q. Inr (st\<lparr>sg_qnos := q\<rparr>))) (qnos_receive (sg_qnos st))"
| "single_step ExecutorDone st =
     map_option (\<lambda>(replies, q). Inr (st\<lparr>sg_qnos := q, sg_conn := (sg_conn st)\<lparr>cn_results := cn_results (sg_conn st) @ replies\<rparr>\<rparr>))
       (qnos_executor_done (sg_qnos st))"

text \<open>From entering the connection on; \<open>fl\<close> are the subroutines flushed, in order.\<close>

definition single_start :: "int \<Rightarrow> sdk_epr_socket list option \<Rightarrow> 's single" where
  "single_start max_qubits socks =
     (let c = NetSquidConnection max_qubits socks in
      \<lparr>sg_conn = c, sg_qnos = qnos_listen (conn_enter c) QNodeOsProtocol\<rparr>)"

fun flushed_by :: "'s single_event \<Rightarrow> 's list" where
  "flushed_by (ProgramFlush (Some s)) = [s]"
| "flushed_by _ = []"

inductive single_run :: "int \<Rightarrow> sdk_epr_socket list option \<Rightarrow> 's list \<Rightarrow> 's single \<Rightarrow> bool" for mq socks where
  sr_start: "single_run mq socks [] (single_start mq socks)"
| sr_event: "single_run mq socks fl st \<Longrightarrow> single_step e st = Some (Inr st') \<Longrightarrow> single_run mq socks (fl @ flushed_by e) st'"

section \<open>The rounds of the simulator\<close>

text \<open>
  \<open>run_protocols\<close>: every round resets the memories and the network, starts all protocols, runs
  them and collects what every host returned; \<open>play\<close> stands for the simulation of one round.
\<close>

fun run_rounds :: "('w \<Rightarrow> 'w) \<Rightarrow> ('w \<Rightarrow> 'r list \<times> 'w) \<Rightarrow> nat \<Rightarrow> 'w \<Rightarrow> 'r list list \<times> 'w" where
  "run_rounds reset play 0 w = ([], w)"
| "run_rounds reset play (Suc k) w =
     (let (round_results, w1) = play (reset w); (results, w2) = run_rounds reset play k w1 in (round_results # results, w2))"

text \<open>The inputs of a program, and how its entry is called.\<close>

definition program_inputs :: "(string, (string, 'v) dict) dict option \<Rightarrow> string \<Rightarrow> (string, 'v) dict option" where
  "program_inputs inputs name =
     (case inputs of None \<Rightarrow> None
      | Some d \<Rightarrow> if d = [] then None else Some (case map_of d name of None \<Rightarrow> [] | Some i \<Rightarrow> i))"

text \<open>\<open>run\<close> of the host: no inputs, or empty ones, and the entry is called without argument.\<close>

definition host_entry_argument :: "(string, 'v) dict option \<Rightarrow> (string, 'v) dict option" where
  "host_entry_argument inputs = (case inputs of None \<Rightarrow> None | Some d \<Rightarrow> if d = [] then None else Some d)"

section \<open>The states of a run\<close>

definition setup_call :: "sdk_epr_socket \<Rightarrow> 's executor_call" where
  "setup_call sck = SetupEprSocket (es_epr_socket_id sck) (es_remote_node_id sck) (es_remote_epr_socket_id sck)"

text \<open>The calls of a run with \<open>j\<close> sockets set up and the subroutines \<open>es\<close> executed.\<close>

definition calls_made :: "int \<Rightarrow> sdk_epr_socket list \<Rightarrow> nat \<Rightarrow> 's list \<Rightarrow> 's executor_call list" where
  "calls_made mq socks j es = InitNewApplication 0 mq # map setup_call (take j socks) @ map ExecuteSubroutine es"

definition opened :: "sdk_epr_socket list \<Rightarrow> nat \<Rightarrow> (sdk_epr_socket \<times> bool) list" where
  "opened socks j = map (\<lambda>sck. (sck, True)) (take j socks) @ map (\<lambda>sck. (sck, False)) (drop j socks)"

text \<open>
  QNodeOS at rest: before or after the application's start, with the calls \<open>cs\<close> made once it
  has started.
\<close>

definition qnos_rest :: "int \<Rightarrow> 's executor_call list \<Rightarrow> 's qnos_protocol \<Rightarrow> bool" where
  "qnos_rest mq cs q \<longleftrightarrow> qp_pc q = QReady \<and> qp_buffer q = [] \<and> qp_calls q = cs
     \<or> qp_pc q = QStart \<and> qp_buffer q = [InitNewAppMessage 0 mq] \<and> qp_calls q = [] \<and> cs = [InitNewApplication 0 mq]"

text \<open>QNodeOS with one message to deal with, for which it makes the call \<open>c\<close> at \<open>pc\<close>.\<close>

definition qnos_busy ::
    "int \<Rightarrow> 's executor_call list \<Rightarrow> 's host_message \<Rightarrow> 's executor_call \<Rightarrow> qnos_pc \<Rightarrow> 's qnos_protocol \<Rightarrow> bool" where
  "qnos_busy mq cs m c pc q \<longleftrightarrow>
       qp_pc q = QStart \<and> qp_buffer q = [InitNewAppMessage 0 mq, m] \<and> qp_calls q = [] \<and> cs = [InitNewApplication 0 mq]
     \<or> qp_pc q = QReady \<and> qp_buffer q = [m] \<and> qp_calls q = cs
     \<or> qp_pc q = pc \<and> qp_buffer q = [] \<and> qp_calls q = cs @ [c]"

inductive single_phase :: "int \<Rightarrow> sdk_epr_socket list \<Rightarrow> 's list \<Rightarrow> 's single \<Rightarrow> bool" for mq socks where
  ph_idle: "cn_pc c = CnIdle \<Longrightarrow> cn_results c = [] \<Longrightarrow> cn_epr_sck_status c = opened socks j \<Longrightarrow> cn_app_id c = 0
     \<Longrightarrow> j = (if fl = [] then 0 else length socks) \<Longrightarrow> qnos_rest mq (calls_made mq socks j fl) q
     \<Longrightarrow> single_phase mq socks fl \<lparr>sg_conn = c, sg_qnos = q\<rparr>"
| ph_open: "cn_pc c = CnAwaitOpen (socks ! j) s \<Longrightarrow> j < length socks \<Longrightarrow> cn_epr_sck_status c = opened socks j \<Longrightarrow> cn_app_id c = 0
     \<Longrightarrow> cn_results c = [] \<and> qnos_busy mq (calls_made mq socks j []) (OpenEPRSocketMessage (socks ! j)) (setup_call (socks ! j)) QSetup q
       \<or> cn_results c = [SUBRT_FINISHED] \<and> qp_pc q = QReady \<and> qp_buffer q = [] \<and> qp_calls q = calls_made mq socks (Suc j) []
     \<Longrightarrow> single_phase mq socks [s] \<lparr>sg_conn = c, sg_qnos = q\<rparr>"
| ph_subroutine: "cn_pc c = CnAwaitSubroutine \<Longrightarrow> cn_epr_sck_status c = opened socks (length socks) \<Longrightarrow> cn_app_id c = 0
     \<Longrightarrow> cn_results c = [] \<and> qnos_busy mq (calls_made mq socks (length socks) es) (SubroutineMessage s) (ExecuteSubroutine s) QExecuting q
       \<or> cn_results c = [SUBRT_FINISHED] \<and> qp_pc q = QReady \<and> qp_buffer q = []
          \<and> qp_calls q = calls_made mq socks (length socks) (es @ [s])
     \<Longrightarrow> single_phase mq socks (es @ [s]) \<lparr>sg_conn = c, sg_qnos = q\<rparr>"
| ph_closed: "cn_pc c = CnClosed \<Longrightarrow> cn_results c = [] \<Longrightarrow> j = (if fl = [] then 0 else length socks)
     \<Longrightarrow> qnos_busy mq (calls_made mq socks j fl) (StopAppMessage 0) (StopApplication 0) QStopping q
       \<or> qp_pc q = QStopped \<and> qp_buffer q = [] \<and> qp_calls q = calls_made mq socks j fl @ [StopApplication 0]
     \<Longrightarrow> single_phase mq socks fl \<lparr>sg_conn = c, sg_qnos = q\<rparr>"

lemma find_opened:
  "List.find (\<lambda>(sck, op). \<not> op) (opened socks j) = (if j < length socks then Some (socks ! j, False) else None)"
proof -
  have "List.find (\<lambda>(sck, op). \<not> op) (map (\<lambda>sck. (sck, True)) xs) = None" for xs :: "sdk_epr_socket list"
    by (simp add: find_None_iff)
  then show ?thesis
    by (cases "j < length socks") (simp_all add: opened_def find_append Cons_nth_drop_Suc [symmetric])
qed

lemma mark_opened:
  assumes "distinct socks" and "j < length socks"
  shows "mark_open (socks ! j) (opened socks j) = opened socks (Suc j)"
proof -
  have "sck \<noteq> socks ! j" if "sck \<in> set (drop (Suc j) socks)" for sck
    using assms that by (metis Cons_nth_drop_Suc distinct.simps(2) distinct_drop)
  moreover have "drop j socks = socks ! j # drop (Suc j) socks" using assms(2) by (simp add: Cons_nth_drop_Suc)
  ultimately show ?thesis
    using assms(2) by (auto simp: mark_open_def opened_def take_Suc_conv_app_nth)
qed

lemma calls_made_simps:
  "j < length socks \<Longrightarrow> calls_made mq socks j [] @ [setup_call (socks ! j)] = calls_made mq socks (Suc j) []"
  "calls_made mq socks j es @ [ExecuteSubroutine s] = calls_made mq socks j (es @ [s])"
  by (simp_all add: calls_made_def take_Suc_conv_app_nth)

lemma calls_made_init: "calls_made mq socks j es = [InitNewApplication 0 mq] \<longleftrightarrow> (j = 0 \<or> socks = []) \<and> es = []"
  by (auto simp: calls_made_def)

text \<open>What a rest of QNodeOS becomes when one message arrives.\<close>

lemma rest_then_busy:
  "qnos_rest mq cs q \<Longrightarrow> qnos_busy mq cs m c pc (qnos_listen [m] q)"
  by (auto simp: qnos_rest_def qnos_busy_def qnos_listen_def)

lemma send_nothing: "send_all ([], c') \<lparr>sg_conn = c, sg_qnos = q\<rparr> = \<lparr>sg_conn = c', sg_qnos = q\<rparr>"
  by (simp add: send_all_def qnos_listen_def)

lemma ready_is_rest: "qp_pc q = QReady \<Longrightarrow> qp_buffer q = [] \<Longrightarrow> qp_calls q = cs \<Longrightarrow> qnos_rest mq cs q"
  by (simp add: qnos_rest_def)

text \<open>Sending the next message of a flush, with \<open>j\<close> sockets open.\<close>

lemma commit_phase:
  assumes "cn_epr_sck_status c = opened socks j" and "cn_app_id c = 0" and "cn_results c = []"
    and "j \<le> length socks" and "j < length socks \<longrightarrow> es = []" and "qnos_rest mq (calls_made mq socks j es) q"
  shows "single_phase mq socks (es @ [s]) (send_all (commit_next s c) \<lparr>sg_conn = c', sg_qnos = q\<rparr>)"
proof (cases "j < length socks")
  case True
  with assms(5) have "es = []" by simp
  then show ?thesis
    using assms True ph_open [of "snd (commit_next s c)" socks j s mq "qnos_listen [OpenEPRSocketMessage (socks ! j)] q"]
    by (simp add: commit_next_def find_opened send_all_def rest_then_busy)
next
  case False
  then have j: "j = length socks" using assms(4) by simp
  then show ?thesis
    using assms ph_subroutine [of "snd (commit_next s c)" socks mq es s "qnos_listen [SubroutineMessage s] q"]
    by (simp add: commit_next_def find_opened send_all_def rest_then_busy)
qed

text \<open>A message dealt with and a call made, up to the executor's answer.\<close>

lemma busy_receive:
  assumes "qnos_busy mq cs m c pc q" and "qnos_receive q = Some r" and "pc \<noteq> QReady" and "pc \<noteq> QStart"
    and "\<And>q. qnos_dispatch m q = call_executor c pc q"
  obtains q' where "r = Inr q'" "qnos_busy mq cs m c pc q'"
proof -
  from assms(1) consider "qp_pc q = QStart" "qp_buffer q = [InitNewAppMessage 0 mq, m]" "qp_calls q = []" "cs = [InitNewApplication 0 mq]"
    | "qp_pc q = QReady" "qp_buffer q = [m]" "qp_calls q = cs" | "qp_pc q = pc" "qp_buffer q = []"
    unfolding qnos_busy_def by blast
  then show thesis
  proof cases
    case 1
    then show ?thesis using that assms(2) by (auto simp: qnos_receive_def qnos_busy_def call_executor_def)
  next
    case 2
    then show ?thesis using that assms(2) by (auto simp: qnos_receive_def qnos_busy_def call_executor_def assms(5))
  next
    case 3
    then show ?thesis using assms(2) by (cases "qp_pc q") (simp_all add: qnos_receive_def)
  qed
qed

lemma rest_receive:
  assumes "qnos_rest mq cs q" and "qnos_receive q = Some r"
  obtains q' where "r = Inr q'" "qnos_rest mq cs q'"
  using assms by (auto simp: qnos_rest_def qnos_receive_def call_executor_def)

lemma busy_done:
  assumes "qnos_busy mq cs m c pc q" and "qnos_executor_done q = Some (replies, q')"
  shows "qp_pc q = pc \<and> qp_buffer q' = [] \<and> qp_calls q' = cs @ [c]"
  using assms by (auto simp: qnos_busy_def qnos_executor_done_def split: qnos_pc.splits)

lemma rest_not_done: "qnos_rest mq cs q \<Longrightarrow> qnos_executor_done q = None"
  by (auto simp: qnos_rest_def qnos_executor_done_def)

lemma ready_waits: "qp_pc q = QReady \<Longrightarrow> qp_buffer q = [] \<Longrightarrow> qnos_receive q = None \<and> qnos_executor_done q = None"
  by (simp add: qnos_receive_def qnos_executor_done_def)

lemma stopped_waits: "qp_pc q = QStopped \<Longrightarrow> qnos_receive q = None \<and> qnos_executor_done q = None"
  by (simp add: qnos_receive_def qnos_executor_done_def)

text \<open>Every event keeps the run in its phase or takes it to the next, and none raises.\<close>

lemma idle_step:
  assumes "single_phase mq socks fl \<lparr>sg_conn = c, sg_qnos = q\<rparr>" and "single_step e \<lparr>sg_conn = c, sg_qnos = q\<rparr> = Some r"
    and idle: "cn_pc c = CnIdle" "cn_results c = []" "cn_epr_sck_status c = opened socks j" "cn_app_id c = 0"
      "j = (if fl = [] then 0 else length socks)" "qnos_rest mq (calls_made mq socks j fl) q"
  shows "\<exists>st'. r = Inr st' \<and> single_phase mq socks (fl @ flushed_by e) st'"
proof (cases e)
  case (ProgramFlush pending)
  show ?thesis
  proof (cases pending)
    case None
    then show ?thesis using assms(1,2) idle ProgramFlush
      by (auto simp: conn_flush_def send_all_def qnos_listen_def)
  next
    case (Some s)
    have "j \<le> length socks" "j < length socks \<longrightarrow> fl = []" using idle(5) by (auto split: if_splits)
    from commit_phase [OF idle(3,4,2) this idle(6), of s c] show ?thesis
      using assms(2) idle ProgramFlush Some by (auto simp: conn_flush_def)
  qed
next
  case (ProgramClose pending)
  have "single_phase mq socks fl (send_all (conn_close pending c) \<lparr>sg_conn = c, sg_qnos = q\<rparr>)"
    using ph_closed [of "snd (conn_close pending c)" j fl socks mq "qnos_listen [StopAppMessage 0] q"] idle(2,4,5)
      rest_then_busy [OF idle(6)] by (simp add: conn_close_def send_all_def)
  then show ?thesis using assms(2) idle ProgramClose by auto
next
  case ConnectionGo
  then show ?thesis using assms(2) idle by (simp add: conn_receive_def)
next
  case QnosGo
  with assms(2) obtain x where x: "qnos_receive q = Some x" "r = bindE x (\<lambda>q. Inr \<lparr>sg_conn = c, sg_qnos = q\<rparr>)" by auto
  obtain q' where "x = Inr q'" "qnos_rest mq (calls_made mq socks j fl) q'"
    using rest_receive [OF idle(6) x(1)] .
  then show ?thesis using ph_idle [OF idle(1-5), of mq q'] x QnosGo by simp
next
  case ExecutorDone
  then show ?thesis using assms(2) rest_not_done [OF idle(6)] by simp
qed

text \<open>
  A message on its way: QNodeOS takes it, the executor works, the answer comes back.  The
  phases differ in what the message is and in the answer.
\<close>

lemma busy_step:
  assumes "qnos_busy mq cs m cl pc q" and "e = QnosGo \<or> e = ExecutorDone"
    and "single_step e \<lparr>sg_conn = c, sg_qnos = q\<rparr> = Some r"
    and "pc \<in> {QSetup, QExecuting, QStopping}" and "\<And>q. qnos_dispatch m q = call_executor cl pc q"
  shows "\<exists>c' q'. r = Inr \<lparr>sg_conn = c', sg_qnos = q'\<rparr>
     \<and> (c' = c \<and> qnos_busy mq cs m cl pc q'
        \<or> qp_buffer q' = [] \<and> qp_calls q' = cs @ [cl]
          \<and> (if pc = QStopping then c' = c \<and> qp_pc q' = QStopped
             else c' = c\<lparr>cn_results := cn_results c @ [SUBRT_FINISHED]\<rparr> \<and> qp_pc q' = QReady))"
  using assms(2)
proof
  assume "e = QnosGo"
  with assms(3) obtain x where x: "qnos_receive q = Some x" "r = bindE x (\<lambda>q. Inr \<lparr>sg_conn = c, sg_qnos = q\<rparr>)" by auto
  obtain q' where "x = Inr q'" "qnos_busy mq cs m cl pc q'"
    by (rule busy_receive [OF assms(1) x(1)]) (use assms(4,5) in auto)
  then show ?thesis using x by auto
next
  assume "e = ExecutorDone"
  with assms(3) obtain replies q' where x: "qnos_executor_done q = Some (replies, q')"
    "r = Inr \<lparr>sg_conn = c\<lparr>cn_results := cn_results c @ replies\<rparr>, sg_qnos = q'\<rparr>" by auto
  with busy_done [OF assms(1) x(1)] assms(4) show ?thesis by (auto simp: qnos_executor_done_def)
qed

lemma open_step:
  assumes "distinct socks" and "single_step e \<lparr>sg_conn = c, sg_qnos = q\<rparr> = Some r"
    and op: "cn_pc c = CnAwaitOpen (socks ! j) s" "j < length socks" "cn_epr_sck_status c = opened socks j" "cn_app_id c = 0"
    and q: "cn_results c = [] \<and> qnos_busy mq (calls_made mq socks j []) (OpenEPRSocketMessage (socks ! j)) (setup_call (socks ! j)) QSetup q
       \<or> cn_results c = [SUBRT_FINISHED] \<and> qp_pc q = QReady \<and> qp_buffer q = [] \<and> qp_calls q = calls_made mq socks (Suc j) []"
  shows "\<exists>st'. r = Inr st' \<and> single_phase mq socks ([s] @ flushed_by e) st'"
  using q
proof
  assume d: "cn_results c = [] \<and> qnos_busy mq (calls_made mq socks j []) (OpenEPRSocketMessage (socks ! j)) (setup_call (socks ! j)) QSetup q"
  then have e: "e = QnosGo \<or> e = ExecutorDone" using assms(2) op(1) by (cases e) (auto simp: conn_receive_def)
  have "qnos_dispatch (OpenEPRSocketMessage (socks ! j)) q = call_executor (setup_call (socks ! j)) QSetup q"
    for q :: "'a qnos_protocol" by (simp add: setup_call_def)
  from busy_step [OF conjunct2 [OF d] e assms(2) _ this] obtain c' q' where r: "r = Inr \<lparr>sg_conn = c', sg_qnos = q'\<rparr>"
    "c' = c \<and> qnos_busy mq (calls_made mq socks j []) (OpenEPRSocketMessage (socks ! j)) (setup_call (socks ! j)) QSetup q'
     \<or> qp_buffer q' = [] \<and> qp_calls q' = calls_made mq socks j [] @ [setup_call (socks ! j)]
       \<and> c' = c\<lparr>cn_results := [SUBRT_FINISHED]\<rparr> \<and> qp_pc q' = QReady" using d by auto
  then have "single_phase mq socks [s] \<lparr>sg_conn = c', sg_qnos = q'\<rparr>"
    using op d calls_made_simps(1) [OF op(2), of mq] by (intro ph_open [of c' socks j s]) auto
  then show ?thesis using r(1) e by auto
next
  assume d: "cn_results c = [SUBRT_FINISHED] \<and> qp_pc q = QReady \<and> qp_buffer q = [] \<and> qp_calls q = calls_made mq socks (Suc j) []"
  then have e: "e = ConnectionGo" using assms(2) op(1) ready_waits [of q] by (cases e) auto
  let ?c = "c\<lparr>cn_results := [], cn_epr_sck_status := mark_open (socks ! j) (cn_epr_sck_status c)\<rparr>"
  have "single_phase mq socks ([] @ [s]) (send_all (commit_next s ?c) \<lparr>sg_conn = c, sg_qnos = q\<rparr>)"
    using op d by (intro commit_phase [of ?c socks "Suc j"]) (simp_all add: mark_opened [OF assms(1)] ready_is_rest)
  then show ?thesis using assms(2) op d e by (auto simp: conn_receive_def)
qed

lemma subroutine_step:
  assumes "single_step e \<lparr>sg_conn = c, sg_qnos = q\<rparr> = Some r"
    and sb: "cn_pc c = CnAwaitSubroutine" "cn_epr_sck_status c = opened socks (length socks)" "cn_app_id c = 0"
    and q: "cn_results c = [] \<and> qnos_busy mq (calls_made mq socks (length socks) es) (SubroutineMessage s) (ExecuteSubroutine s) QExecuting q
       \<or> cn_results c = [SUBRT_FINISHED] \<and> qp_pc q = QReady \<and> qp_buffer q = []
          \<and> qp_calls q = calls_made mq socks (length socks) (es @ [s])"
  shows "\<exists>st'. r = Inr st' \<and> single_phase mq socks ((es @ [s]) @ flushed_by e) st'"
  using q
proof
  assume d: "cn_results c = [] \<and> qnos_busy mq (calls_made mq socks (length socks) es) (SubroutineMessage s) (ExecuteSubroutine s) QExecuting q"
  then have e: "e = QnosGo \<or> e = ExecutorDone" using assms(1) sb(1) by (cases e) (auto simp: conn_receive_def)
  from busy_step [OF conjunct2 [OF d] e assms(1)] obtain c' q' where r: "r = Inr \<lparr>sg_conn = c', sg_qnos = q'\<rparr>"
    "c' = c \<and> qnos_busy mq (calls_made mq socks (length socks) es) (SubroutineMessage s) (ExecuteSubroutine s) QExecuting q'
     \<or> qp_buffer q' = [] \<and> qp_calls q' = calls_made mq socks (length socks) es @ [ExecuteSubroutine s]
       \<and> c' = c\<lparr>cn_results := [SUBRT_FINISHED]\<rparr> \<and> qp_pc q' = QReady" using d by auto
  then have "single_phase mq socks (es @ [s]) \<lparr>sg_conn = c', sg_qnos = q'\<rparr>"
    using sb d calls_made_simps(2) [of mq socks "length socks" es s] by (intro ph_subroutine [of c' socks mq es s]) auto
  then show ?thesis using r(1) e by auto
next
  assume d: "cn_results c = [SUBRT_FINISHED] \<and> qp_pc q = QReady \<and> qp_buffer q = [] \<and> qp_calls q = calls_made mq socks (length socks) (es @ [s])"
  then have e: "e = ConnectionGo" using assms(1) sb(1) ready_waits [of q] by (cases e) auto
  have "single_phase mq socks (es @ [s]) \<lparr>sg_conn = c\<lparr>cn_results := [], cn_pc := CnIdle\<rparr>, sg_qnos = q\<rparr>"
    using sb d by (intro ph_idle [where j = "length socks"]) (simp_all add: ready_is_rest)
  moreover have "r = Inr \<lparr>sg_conn = c\<lparr>cn_results := [], cn_pc := CnIdle\<rparr>, sg_qnos = q\<rparr>"
    using assms(1) sb(1) d e by (auto simp: conn_receive_def send_nothing)
  ultimately show ?thesis using e by simp
qed

lemma closed_step:
  assumes "single_step e \<lparr>sg_conn = c, sg_qnos = q\<rparr> = Some r"
    and cl: "cn_pc c = CnClosed" "cn_results c = []" "j = (if fl = [] then 0 else length socks)"
    and q: "qnos_busy mq (calls_made mq socks j fl) (StopAppMessage 0) (StopApplication 0) QStopping q
       \<or> qp_pc q = QStopped \<and> qp_buffer q = [] \<and> qp_calls q = calls_made mq socks j fl @ [StopApplication 0]"
  shows "\<exists>st'. r = Inr st' \<and> single_phase mq socks (fl @ flushed_by e) st'"
proof -
  have e: "e = QnosGo \<or> e = ExecutorDone" using assms(1) cl(1) by (cases e) (auto simp: conn_receive_def)
  then have b: "qnos_busy mq (calls_made mq socks j fl) (StopAppMessage 0) (StopApplication 0) QStopping q"
    using q assms(1) stopped_waits [of q] by auto
  from busy_step [OF b e assms(1)] obtain q' where r: "r = Inr \<lparr>sg_conn = c, sg_qnos = q'\<rparr>"
    "qnos_busy mq (calls_made mq socks j fl) (StopAppMessage 0) (StopApplication 0) QStopping q'
     \<or> qp_buffer q' = [] \<and> qp_calls q' = calls_made mq socks j fl @ [StopApplication 0] \<and> qp_pc q' = QStopped" by auto
  then have "single_phase mq socks fl \<lparr>sg_conn = c, sg_qnos = q'\<rparr>"
    using cl by (intro ph_closed [of c j fl]) auto
  then show ?thesis using r(1) e by auto
qed

lemma single_step_phase:
  assumes "distinct socks" and "single_phase mq socks fl st" and "single_step e st = Some r"
  shows "\<exists>st'. r = Inr st' \<and> single_phase mq socks (fl @ flushed_by e) st'"
  using assms(2)
proof cases
  case (ph_idle c j q)
  then show ?thesis using idle_step [of mq socks fl c q e r j] assms(2,3) by simp
next
  case (ph_open c j s q)
  then show ?thesis using open_step [OF assms(1), of e c q r j s mq] assms(3) by simp
next
  case (ph_subroutine c es s q)
  then show ?thesis using subroutine_step [of e c q r socks mq es s] assms(3) by simp
next
  case (ph_closed c j q)
  then show ?thesis using closed_step [of e c q r j fl socks mq] assms(3) by simp
qed

lemma single_run_phase:
  assumes "distinct socks" and "single_run mq (Some socks) fl st"
  shows "single_phase mq socks fl st"
  using assms(2)
proof (induction rule: single_run.induct)
  case sr_start
  have "single_phase mq socks [] \<lparr>sg_conn = NetSquidConnection mq (Some socks),
      sg_qnos = qnos_listen (conn_enter (NetSquidConnection mq (Some socks))) QNodeOsProtocol\<rparr>"
    by (rule ph_idle [where j = 0]) (simp_all add: NetSquidConnection_def opened_def qnos_rest_def qnos_listen_def
        conn_enter_def QNodeOsProtocol_def calls_made_def)
  then show ?case by (simp add: single_start_def Let_def)
next
  case (sr_event fl st e st')
  then show ?case using single_step_phase [OF assms(1)] by blast
qed

end
