(* ===== verification/SingleProps.thy ===== *)
theory SingleProps
  imports SingleThread "HOL-Library.Sublist"
begin

text \<open>
  What a run of the one-thread simulator does: the executor is called as the program asks, in
  its order, no assertion fails, and nobody waits for a message that never comes.
\<close>

section \<open>The calls of a run\<close>

definition all_calls :: "int \<Rightarrow> sdk_epr_socket list \<Rightarrow> 's list \<Rightarrow> 's executor_call list" where
  "all_calls mq socks fl = calls_made mq socks (if fl = [] then 0 else length socks) fl"

text \<open>Nothing can happen before the program acts again.\<close>

definition single_waits :: "'s single \<Rightarrow> bool" where
  "single_waits st \<longleftrightarrow> single_step ConnectionGo st = None \<and> single_step QnosGo st = None \<and> single_step ExecutorDone st = None"

lemma calls_prefix:
  shows "prefix (calls_made mq socks j []) (calls_made mq socks (length socks) fl)"
proof -
  have "map setup_call socks @ map ExecuteSubroutine fl
      = map setup_call (take j socks) @ map setup_call (drop j socks) @ map ExecuteSubroutine fl"
    by (metis append_assoc append_take_drop_id map_append)
  then show ?thesis unfolding calls_made_def by (simp add: prefix_def)
qed

lemma rest_prefix: "qnos_rest mq cs q \<Longrightarrow> prefix (qp_calls q) cs"
  by (auto simp: qnos_rest_def)

lemma busy_prefix: "qnos_busy mq cs m c pc q \<Longrightarrow> prefix (qp_calls q) (cs @ [c])"
  by (auto simp: qnos_busy_def)

lemma phase_prefix:
  assumes "single_phase mq socks fl st"
  shows "prefix (qp_calls (sg_qnos st)) (all_calls mq socks fl @ [StopApplication 0])"
  using assms
proof cases
  case (ph_idle c j q)
  then show ?thesis using rest_prefix [of mq "calls_made mq socks j fl" q] by (simp add: all_calls_def prefix_order.trans)
next
  case (ph_open c j s q)
  have "prefix (qp_calls q) (calls_made mq socks (Suc j) [])"
    using ph_open(7) busy_prefix calls_made_simps(1) [OF ph_open(4), of mq] by (metis prefix_order.refl)
  also have "prefix \<dots> (calls_made mq socks (length socks) fl)" by (rule calls_prefix)
  finally show ?thesis using ph_open by (simp add: all_calls_def prefix_order.trans)
next
  case (ph_subroutine c es s q)
  have "prefix (qp_calls q) (calls_made mq socks (length socks) (es @ [s]))"
    using ph_subroutine(6) busy_prefix calls_made_simps(2) by (metis prefix_order.refl)
  then show ?thesis using ph_subroutine by (simp add: all_calls_def)
next
  case (ph_closed c j q)
  have "prefix (qp_calls q) (calls_made mq socks j fl @ [StopApplication 0])"
    using ph_closed(5) busy_prefix by (metis prefix_order.refl)
  then show ?thesis using ph_closed(1,4) by (simp add: all_calls_def split: if_splits)
qed

text \<open>QNodeOS with a message, or with a call under way, can always go on.\<close>

lemma busy_goes_on:
  assumes "qnos_busy mq cs m c pc q" and "pc \<in> {QSetup, QExecuting, QStopping}"
  shows "qnos_receive q \<noteq> None \<or> qnos_executor_done q \<noteq> None"
  using assms by (auto simp: qnos_busy_def qnos_receive_def qnos_executor_done_def)

lemma rest_waits: "qnos_rest mq cs q \<Longrightarrow> qnos_receive q = None \<Longrightarrow> qp_calls q = cs"
  by (auto simp: qnos_rest_def qnos_receive_def)

lemma phase_waits:
  assumes "single_phase mq socks fl st" and "single_waits st"
  shows "cn_pc (sg_conn st) = CnIdle \<and> qp_calls (sg_qnos st) = all_calls mq socks fl
     \<or> cn_pc (sg_conn st) = CnClosed \<and> qp_pc (sg_qnos st) = QStopped \<and> qp_calls (sg_qnos st) = all_calls mq socks fl @ [StopApplication 0]"
  using assms(1)
proof cases
  case (ph_idle c j q)
  then show ?thesis using assms(2) rest_waits by (auto simp: single_waits_def all_calls_def)
next
  case (ph_open c j s q)
  then show ?thesis using assms(2) busy_goes_on [of mq _ _ _ QSetup q]
    by (auto simp: single_waits_def conn_receive_def)
next
  case (ph_subroutine c es s q)
  then show ?thesis using assms(2) busy_goes_on [of mq _ _ _ QExecuting q]
    by (auto simp: single_waits_def conn_receive_def)
next
  case (ph_closed c j q)
  then show ?thesis using assms(2) busy_goes_on [of mq _ _ _ QStopping q]
    by (auto simp: single_waits_def all_calls_def)
qed

text \<open>
  C22: In every run of a program over the one-thread simulator no step raises; the executor's
  calls are those the flushes ask for, in order: start the application, set up every socket
  once before the first subroutine, execute the subroutines, stop; and the run waits only for
  the program, with all its calls made.
\<close>

theorem single_thread_runs:
  assumes "distinct socks" and "single_run mq (Some socks) fl st"
  shows "(\<forall>e err. single_step e st \<noteq> Some (Inl err))
     \<and> prefix (qp_calls (sg_qnos st))
         (InitNewApplication 0 mq # (if fl = [] then [] else map setup_call socks) @ map ExecuteSubroutine fl @ [StopApplication 0])
     \<and> (single_waits st \<longrightarrow>
          (cn_pc (sg_conn st) = CnIdle \<or> cn_pc (sg_conn st) = CnClosed \<and> qp_pc (sg_qnos st) = QStopped)
          \<and> qp_calls (sg_qnos st) = InitNewApplication 0 mq # (if fl = [] then [] else map setup_call socks)
              @ map ExecuteSubroutine fl @ (if cn_pc (sg_conn st) = CnClosed then [StopApplication 0] else []))"
proof -
  note ph = single_run_phase [OF assms]
  have "\<forall>e err. single_step e st \<noteq> Some (Inl err)" using single_step_phase [OF assms(1) ph] by force
  moreover have "prefix (qp_calls (sg_qnos st))
      (InitNewApplication 0 mq # (if fl = [] then [] else map setup_call socks) @ map ExecuteSubroutine fl @ [StopApplication 0])"
    using phase_prefix [OF ph] by (simp add: all_calls_def calls_made_def split: if_splits)
  moreover have "(cn_pc (sg_conn st) = CnIdle \<or> cn_pc (sg_conn st) = CnClosed \<and> qp_pc (sg_qnos st) = QStopped)
      \<and> qp_calls (sg_qnos st) = InitNewApplication 0 mq # (if fl = [] then [] else map setup_call socks)
          @ map ExecuteSubroutine fl @ (if cn_pc (sg_conn st) = CnClosed then [StopApplication 0] else [])" if "single_waits st"
    using phase_waits [OF ph that] by (auto simp: all_calls_def calls_made_def)
  ultimately show ?thesis by blast
qed

text \<open>A program that opens one socket, flushes one subroutine and closes.\<close>

definition run_events :: "nat single_event list" where
  "run_events = [QnosGo, ProgramFlush (Some 7), QnosGo, ExecutorDone, ConnectionGo, QnosGo, ExecutorDone, ConnectionGo,
     ProgramClose None, QnosGo, ExecutorDone]"

fun after_events :: "nat single_event list \<Rightarrow> nat single \<Rightarrow> nat single" where
  "after_events [] st = st"
| "after_events (e # es) st = (case single_step e st of Some (Inr st') \<Rightarrow> after_events es st' | _ \<Rightarrow> st)"

fun all_happen :: "nat single_event list \<Rightarrow> nat single \<Rightarrow> bool" where
  "all_happen [] st = True"
| "all_happen (e # es) st = (case single_step e st of Some (Inr st') \<Rightarrow> all_happen es st' | _ \<Rightarrow> False)"

lemma run_by_events:
  "single_run mq socks fl st \<Longrightarrow> all_happen es st \<Longrightarrow> single_run mq socks (fl @ concat (map flushed_by es)) (after_events es st)"
proof (induction es arbitrary: fl st)
  case (Cons e es)
  then obtain st' where s: "single_step e st = Some (Inr st')" "all_happen es st'"
    by (auto split: option.splits sum.splits)
  from Cons.IH [OF sr_event [OF Cons.prems(1) s(1)] s(2)] show ?case using s(1) by simp
qed simp

definition witness_socket :: sdk_epr_socket where
  "witness_socket = \<lparr>es_epr_socket_id = 0, es_remote_node_id = 1, es_remote_epr_socket_id = 0\<rparr>"

definition witness_end :: "nat single" where
  "witness_end = after_events run_events (single_start 5 (Some [witness_socket]))"

lemma witness_end_run: "single_run 5 (Some [witness_socket]) [7] witness_end"
proof -
  have "all_happen run_events (single_start 5 (Some [witness_socket]))" by code_simp
  from run_by_events [OF sr_start this] show ?thesis by (simp add: witness_end_def run_events_def)
qed

theorem single_thread_runs_witness:
  "qp_calls (sg_qnos witness_end) = [InitNewApplication 0 5, SetupEprSocket 0 1 0, ExecuteSubroutine 7, StopApplication 0]
   \<and> single_step QnosGo witness_end \<noteq> Some (Inl AssertionError)"
proof -
  have d: "distinct [witness_socket]" by simp
  have w: "single_waits witness_end" by code_simp
  have c: "cn_pc (sg_conn witness_end) = CnClosed" by code_simp
  show ?thesis
    using single_thread_runs [OF d witness_end_run] w c
    by (simp add: setup_call_def witness_socket_def del: single_step.simps)
qed

text \<open>
  What is pending when the connection is closed is never executed: closing sends only the
  message that stops the application.
\<close>

lemma close_loses_pending: "fst (conn_close (Some s) c) = [StopAppMessage (cn_app_id c)]"
  by (simp add: conn_close_def)

text \<open>Every round of the simulator gives one list of results.\<close>

lemma one_result_per_round: "length (fst (run_rounds reset play k w)) = k"
  by (induction k arbitrary: w) (simp_all add: Let_def split: prod.splits, metis fst_conv)

text \<open>A program without inputs of its own is called without argument.\<close>

lemma no_inputs_no_argument:
  "map_of d name = None \<Longrightarrow> host_entry_argument (program_inputs (Some d) name) = None"
  by (simp add: host_entry_argument_def program_inputs_def)

end
