(* ===== verification/Runtime.thy ===== *)
theory Runtime
  imports SimNetwork SimQueues "HOL-Library.Multiset"
begin

text \<open>
  The runtime manager of the multithread simulator (\<open>squidasm/run/multithread/runtime_mgr.py\<close>):
  handlers for the nodes of a network, the thread the simulation runs in, and the running of
  an application, whose programs are threads that are collected as they finish
  (\<open>squidasm/util/thread.py\<close>).  When a program is finished and what it returns is input.
\<close>

section \<open>Collecting what is finished\<close>

definition remove_nth :: "nat \<Rightarrow> 'a list \<Rightarrow> 'a list" where
  "remove_nth i xs = take i xs @ drop (Suc i) xs"

text \<open>\<open>names.pop(i)\<close>, where names were given.\<close>

definition pop_name :: "nat \<Rightarrow> string list option \<Rightarrow> (string option \<times> string list option) result" where
  "pop_name i names =
     (case names of
        None \<Rightarrow> Inr (None, None)
      | Some ns \<Rightarrow> if i < length ns then Inr (Some (ns ! i), Some (remove_nth i ns)) else Inl IndexError)"

text \<open>
  One pass of the \<open>for\<close> loop of \<open>as_completed\<close>, with the body of the loop that consumes it.  The
  list is changed while it is enumerated: the element after one that is taken is skipped.
  \<open>now\<close> counts the questions to futures; \<open>ready now f\<close> is the answer.
\<close>

function poll_pass ::
    "(nat \<Rightarrow> 'f \<Rightarrow> bool) \<Rightarrow> ('f \<Rightarrow> string option \<Rightarrow> 's \<Rightarrow> 's result) \<Rightarrow> nat \<Rightarrow> nat \<Rightarrow> 'f list \<Rightarrow> string list option \<Rightarrow> 's
       \<Rightarrow> (nat \<times> 'f list \<times> string list option \<times> 's) result" where
  "poll_pass ready body now i futures names s =
     (if i < length futures then
        if ready now (futures ! i) then
          bindE (pop_name i names) (\<lambda>(name, names').
          bindE (body (futures ! i) name s) (\<lambda>s'.
            poll_pass ready body (Suc now) (Suc i) (remove_nth i futures) names' s'))
        else poll_pass ready body (Suc now) (Suc i) futures names s
      else Inr (now, futures, names, s))"
  by pat_completeness auto
termination
  by (relation "measure (\<lambda>(ready, body, now, i, futures, names, s). length futures - i)") (auto simp: remove_nth_def)

declare poll_pass.simps [simp del]

text \<open>The whole loop, from the moment \<open>now\<close>; \<open>None\<close> if it never ends.\<close>

partial_function (option) for_completed ::
    "(nat \<Rightarrow> 'f \<Rightarrow> bool) \<Rightarrow> ('f \<Rightarrow> string option \<Rightarrow> 's \<Rightarrow> 's result) \<Rightarrow> nat \<Rightarrow> 'f list \<Rightarrow> string list option \<Rightarrow> 's \<Rightarrow> 's result option" where
  "for_completed ready body now futures names s =
     (if futures = [] then Some (Inr s)
      else case poll_pass ready body now 0 futures names s of
          Inl e \<Rightarrow> Some (Inl e)
        | Inr r \<Rightarrow> for_completed ready body (fst r) (fst (snd r)) (fst (snd (snd r))) (snd (snd (snd r))))"

lemma length_remove_nth [simp]: "i < length xs \<Longrightarrow> length (remove_nth i xs) = length xs - 1"
  by (simp add: remove_nth_def)

lemma zip_remove_nth: "length xs = length ys \<Longrightarrow> zip (remove_nth i xs) (remove_nth i ys) = remove_nth i (zip xs ys)"
  by (simp add: remove_nth_def take_zip drop_zip)

lemma mset_remove_nth: "i < length xs \<Longrightarrow> mset xs = add_mset (xs ! i) (mset (remove_nth i xs))"
  by (subst id_take_nth_drop [of i xs]) (simp_all add: remove_nth_def)

lemma set_remove_nth: "set (remove_nth i xs) \<subseteq> set xs"
  by (auto simp: remove_nth_def dest: in_set_takeD in_set_dropD)

text \<open>What a pass does: it consumes some of the futures, each with its name and ready.\<close>

definition pass_takes ::
    "(nat \<Rightarrow> 'f \<Rightarrow> bool) \<Rightarrow> nat \<Rightarrow> nat \<Rightarrow> 'f list \<Rightarrow> string list \<Rightarrow> ('f \<times> string) list \<Rightarrow> nat \<Rightarrow> 'f list \<Rightarrow> string list \<Rightarrow> bool" where
  "pass_takes ready now i fs ns ys now' fs' ns' \<longleftrightarrow> now \<le> now' \<and> (i < length fs \<longrightarrow> now < now')
     \<and> length ns' = length fs' \<and> mset (zip fs ns) = mset ys + mset (zip fs' ns')
     \<and> (\<forall>f \<in> fst ` set ys. \<exists>t \<ge> now. ready t f) \<and> (i < length fs \<and> ready now (fs ! i) \<longrightarrow> ys \<noteq> [])"

lemma pass_takes_ready:
  assumes "i < length fs" and "length ns = length fs" and "ready now (fs ! i)"
    and "pass_takes ready (Suc now) (Suc i) (remove_nth i fs) (remove_nth i ns) ys now' fs' ns'"
  shows "pass_takes ready now i fs ns ((fs ! i, ns ! i) # ys) now' fs' ns'"
proof -
  have "mset (zip fs ns) = add_mset (fs ! i, ns ! i) (mset (zip (remove_nth i fs) (remove_nth i ns)))"
    using mset_remove_nth [of i "zip fs ns"] assms(1,2) by (simp add: zip_remove_nth)
  moreover have "\<forall>f \<in> fst ` set ys. \<exists>t \<ge> now. ready t f"
    using assms(4) unfolding pass_takes_def by (meson Suc_leD)
  ultimately show ?thesis using assms unfolding pass_takes_def by auto
qed

lemma pass_takes_not_ready:
  assumes "\<not> ready now (fs ! i)" and "pass_takes ready (Suc now) (Suc i) fs ns ys now' fs' ns'"
  shows "pass_takes ready now i fs ns ys now' fs' ns'"
proof -
  have "\<forall>f \<in> fst ` set ys. \<exists>t \<ge> now. ready t f"
    using assms(2) unfolding pass_takes_def by (meson Suc_leD)
  then show ?thesis using assms unfolding pass_takes_def by auto
qed

lemma poll_pass_takes:
  assumes "length ns = length fs"
  shows "\<exists>ys now' fs' ns'. pass_takes ready now i fs ns ys now' fs' ns'
     \<and> poll_pass ready body now i fs (Some ns) s
         = bindE (forE (\<lambda>(f, n). body f (Some n)) ys s) (\<lambda>s'. Inr (now', fs', Some ns', s'))"
  using assms
proof (induction "length fs - i" arbitrary: now i fs ns s rule: less_induct)
  case less
  show ?case
  proof (cases "i < length fs")
    case False
    then show ?thesis using less.prems
      by (intro exI [of _ "[]"] exI [of _ now] exI [of _ fs] exI [of _ ns]) (simp add: pass_takes_def poll_pass.simps)
  next
    case i: True
    note eq = poll_pass.simps [of ready body now i fs "Some ns" s]
    show ?thesis
    proof (cases "ready now (fs ! i)")
      case True
      let ?s = "body (fs ! i) (Some (ns ! i)) s"
      have "\<exists>ys now' fs' ns'. pass_takes ready (Suc now) (Suc i) (remove_nth i fs) (remove_nth i ns) ys now' fs' ns'
         \<and> poll_pass ready body (Suc now) (Suc i) (remove_nth i fs) (Some (remove_nth i ns)) s1
             = bindE (forE (\<lambda>(f, n). body f (Some n)) ys s1) (\<lambda>s'. Inr (now', fs', Some ns', s'))" for s1
        using i less.prems by (intro less.hyps) (auto simp: less.prems)
      from this [of "projr ?s"] obtain ys now' fs' ns' where r:
        "pass_takes ready (Suc now) (Suc i) (remove_nth i fs) (remove_nth i ns) ys now' fs' ns'"
        "poll_pass ready body (Suc now) (Suc i) (remove_nth i fs) (Some (remove_nth i ns)) (projr ?s)
             = bindE (forE (\<lambda>(f, n). body f (Some n)) ys (projr ?s)) (\<lambda>s'. Inr (now', fs', Some ns', s'))" by blast
      have "poll_pass ready body now i fs (Some ns) s
          = bindE (forE (\<lambda>(f, n). body f (Some n)) ((fs ! i, ns ! i) # ys) s) (\<lambda>s'. Inr (now', fs', Some ns', s'))"
        using r(2) i True less.prems by (cases ?s) (simp_all add: eq pop_name_def)
      then show ?thesis using pass_takes_ready [OF i less.prems True r(1)] by blast
    next
      case False
      obtain ys now' fs' ns' where r: "pass_takes ready (Suc now) (Suc i) fs ns ys now' fs' ns'"
        "poll_pass ready body (Suc now) (Suc i) fs (Some ns) s
             = bindE (forE (\<lambda>(f, n). body f (Some n)) ys s) (\<lambda>s'. Inr (now', fs', Some ns', s'))"
        using less.hyps [OF diff_less_mono2 [OF lessI i] less.prems, of "Suc now" s] by blast
      then show ?thesis using i False pass_takes_not_ready [OF False r(1)] by (auto simp: eq)
    qed
  qed
qed

text \<open>
  If every future is ready from some time on, the loop ends as the loop over some
  arrangement of the futures with their names.
\<close>

lemma for_completed_returns:
  assumes "length ns = length fs" and "\<And>f t. f \<in> set fs \<Longrightarrow> T \<le> t \<Longrightarrow> ready t f"
  shows "\<exists>ys. mset ys = mset (zip fs ns)
     \<and> for_completed ready body now fs (Some ns) s = Some (forE (\<lambda>(f, n). body f (Some n)) ys s)"
  using assms
proof (induction "length fs + (T - now)" arbitrary: now fs ns s rule: less_induct)
  case less
  show ?case
  proof (cases "fs = []")
    case True
    then show ?thesis by (intro exI [of _ "[]"]) (simp add: for_completed.simps)
  next
    case False
    obtain ys now' fs' ns' where p: "pass_takes ready now 0 fs ns ys now' fs' ns'"
      "poll_pass ready body now 0 fs (Some ns) s
         = bindE (forE (\<lambda>(f, n). body f (Some n)) ys s) (\<lambda>s'. Inr (now', fs', Some ns', s'))"
      using poll_pass_takes [OF less.prems(1), of ready now 0 body s] by blast
    note t = p(1) [unfolded pass_takes_def]
    have len: "length fs = length ys + length fs'"
      using t less.prems(1) by (metis length_zip min.idem size_mset size_union)
    have sub: "set fs' \<subseteq> set fs"
    proof
      fix f assume "f \<in> set fs'"
      then obtain n where "(f, n) \<in> set (zip fs' ns')" using t by (metis in_set_impl_in_set_zip1)
      then have "(f, n) \<in># mset (zip fs ns)" using t by simp
      then show "f \<in> set fs" by (auto dest: set_zip_leftD)
    qed
    show ?thesis
    proof (cases "forE (\<lambda>(f, n). body f (Some n)) ys s")
      case (Inl e)
      then have "for_completed ready body now fs (Some ns) s = Some (Inl e)"
        using False p(2) by (simp add: for_completed.simps)
      moreover have "forE (\<lambda>(f, n). body f (Some n)) (ys @ zip fs' ns') s = Inl e" by (simp add: forE_append Inl)
      moreover have "mset (ys @ zip fs' ns') = mset (zip fs ns)" using t by simp
      ultimately show ?thesis by (intro exI [of _ "ys @ zip fs' ns'"]) simp
    next
      case (Inr s1)
      have "length fs' + (T - now') < length fs + (T - now)"
      proof (cases "T \<le> now")
        case True
        then have "ys \<noteq> []" using t False less.prems(2) by simp
        moreover have "T - now' = 0" using True conjunct1 [OF t] by simp
        ultimately show ?thesis using len by simp
      next
        case F: False
        then have "T - now' < T - now" using conjunct1 [OF conjunct2 [OF t]] False by (simp add: diff_less_mono2)
        then show ?thesis using len by simp
      qed
      from less.hyps [OF this, of ns' s1] obtain zs where zs: "mset zs = mset (zip fs' ns')"
        "for_completed ready body now' fs' (Some ns') s1 = Some (forE (\<lambda>(f, n). body f (Some n)) zs s1)"
        using t less.prems(2) [OF subsetD [OF sub]] by blast
      have "for_completed ready body now fs (Some ns) s = Some (forE (\<lambda>(f, n). body f (Some n)) (ys @ zs) s)"
        using False p(2) Inr zs(2) by (simp add: for_completed.simps [of ready body now] forE_append)
      moreover have "mset (ys @ zs) = mset (zip fs ns)" using t zs(1) by simp
      ultimately show ?thesis by blast
    qed
  qed
qed

text \<open>Where the loop ends without a raise, every future was ready at some time.\<close>

lemma for_completed_waits:
  assumes "for_completed ready body now fs names s = Some (Inr s')" and "names = Some ns" and "length ns = length fs" and "f \<in> set fs"
  shows "\<exists>t \<ge> now. ready t f"
proof -
  have "\<forall>r ns. x = Inr r \<longrightarrow> names = Some ns \<longrightarrow> length ns = length fs \<longrightarrow> (\<forall>f \<in> set fs. \<exists>t \<ge> now. ready t f)"
    if "for_completed ready body now fs names s = Some x" for x
  proof (rule for_completed.raw_induct [where P = "\<lambda>ready body now fs names s x. \<forall>r ns. x = Inr r \<longrightarrow> names = Some ns
      \<longrightarrow> length ns = length fs \<longrightarrow> (\<forall>f \<in> set fs. \<exists>t \<ge> now. ready t f)", OF _ that])
    fix loop ready body now fs names s x
    assume IH: "\<And>ready body now fs names s x. loop ready body now fs names s = Some x \<Longrightarrow> \<forall>r ns. x = Inr r \<longrightarrow> names = Some ns
      \<longrightarrow> length ns = length fs \<longrightarrow> (\<forall>f \<in> set fs. \<exists>t \<ge> now. ready t f)"
      and eq: "(if fs = [] then Some (Inr s)
        else case poll_pass ready body now 0 fs names s of Inl e \<Rightarrow> Some (Inl e)
          | Inr r \<Rightarrow> loop ready body (fst r) (fst (snd r)) (fst (snd (snd r))) (snd (snd (snd r)))) = Some x"
    show "\<forall>r ns. x = Inr r \<longrightarrow> names = Some ns \<longrightarrow> length ns = length fs \<longrightarrow> (\<forall>f \<in> set fs. \<exists>t \<ge> now. ready t f)"
    proof (intro allI impI ballI)
      fix r ns f
      assume h: "x = Inr r" "names = Some ns" "length ns = length fs" "f \<in> set fs"
      obtain ys now' fs' ns' where p: "pass_takes ready now 0 fs ns ys now' fs' ns'"
        "poll_pass ready body now 0 fs (Some ns) s
           = bindE (forE (\<lambda>(f, n). body f (Some n)) ys s) (\<lambda>s'. Inr (now', fs', Some ns', s'))"
        using poll_pass_takes [OF h(3), of ready now 0 body s] by blast
      note t = p(1) [unfolded pass_takes_def]
      obtain n where "(f, n) \<in> set (zip fs ns)" using h(3,4) by (metis in_set_impl_in_set_zip1)
      then have "(f, n) \<in># mset ys + mset (zip fs' ns')" using t by (metis set_mset_mset)
      then consider "(f, n) \<in> set ys" | "f \<in> set fs'" by (auto dest: set_zip_leftD)
      then show "\<exists>t \<ge> now. ready t f"
      proof cases
        case 1
        then have "f \<in> fst ` set ys" by force
        then show ?thesis using t by blast
      next
        case 2
        obtain s1 where "forE (\<lambda>(f, n). body f (Some n)) ys s = Inr s1" "loop ready body now' fs' (Some ns') s1 = Some (Inr r)"
          using eq h p(2) by (cases "forE (\<lambda>(f, n). body f (Some n)) ys s") (auto split: if_splits)
        from IH [OF this(2)] 2 t have "\<exists>t \<ge> now'. ready t f" by blast
        then show ?thesis using t order_trans by blast
      qed
    qed
  qed
  then show ?thesis using assms by blast
qed

section \<open>Handlers of the nodes\<close>

datatype flavour = NVFlavour | VanillaFlavour

text \<open>A node's handler: its network stack has the link services of the node.\<close>

record subroutine_handler =
  hd_node :: sim_node
  hd_flavour :: flavour
  hd_instr_proc_time :: py_num
  hd_host_latency :: py_num
  hd_link_layer_services :: "(int, link_service) dict"

text \<open>Where the thread of the backend is.\<close>

datatype thread_pc = NoThread | ThreadStarted | ThreadSimulates | ThreadEnded

text \<open>
  The manager with the global queues; \<open>mg_registered\<close> says whether it is the running backend
  of the registry.  A reaction handler belongs to a service, which is known by its node and
  the remote node's id.
\<close>

record 'i manager =
  mg_network :: "sim_network option"
  mg_subroutine_handlers :: "(string, subroutine_handler) dict"
  mg_party_map :: "(string, sim_node) dict"
  mg_is_running :: bool
  mg_registered :: bool
  mg_thread :: thread_pc
  mg_queues :: "'i queues"
  mg_reactions :: "((string \<times> int) \<times> string) list"

definition node_flavour :: "quantum_hardware \<Rightarrow> flavour result" where
  "node_flavour h = (if h = HwNV then Inr NVFlavour else if h = HwGeneric then Inr VanillaFlavour else Inl ValueError)"

definition create_handler :: "sim_network \<Rightarrow> sim_node \<Rightarrow> 'i manager \<Rightarrow> 'i manager result" where
  "create_handler net node mg =
     bindE (dict_get (nt_node_hardware_types net) (sn_name node)) (\<lambda>hardware.
     bindE (node_flavour hardware) (\<lambda>flavour.
     bindE (create_queue (sn_name node) (mg_queues mg)) (\<lambda>queues.
     bindE (dict_get (nt_link_layer_services net) (sn_name node)) (\<lambda>services.
       Inr (mg\<lparr>mg_queues := queues,
               mg_reactions := mg_reactions mg @ map (\<lambda>(remote, s). ((sn_name node, remote), sn_name node)) services,
               mg_subroutine_handlers := AList.update (sn_name node)
                 \<lparr>hd_node = node, hd_flavour = flavour, hd_instr_proc_time = nt_instr_proc_time net,
                  hd_host_latency = nt_host_latency net, hd_link_layer_services = services\<rparr>
                 (mg_subroutine_handlers mg)\<rparr>)))))"

definition create_subroutine_handlers :: "sim_network \<Rightarrow> 'i manager \<Rightarrow> 'i manager result" where
  "create_subroutine_handlers net mg = forE (create_handler net) (map snd (nt_nodes net)) (mg\<lparr>mg_subroutine_handlers := []\<rparr>)"

definition set_network ::
    "(string \<Rightarrow> quantum_hardware option) \<Rightarrow> (string \<Rightarrow> noise_type option) \<Rightarrow> py_error \<Rightarrow> network_config \<Rightarrow> nv_config option
       \<Rightarrow> 'i manager \<Rightarrow> 'i manager result" where
  "set_network to_hardware noise_of missing cfg nv mg =
     bindE (NetSquidNetwork to_hardware noise_of missing cfg nv) (\<lambda>net.
       create_subroutine_handlers net (mg\<lparr>mg_network := Some net\<rparr>))"

text \<open>A new manager resets the queues of earlier ones but keeps them.\<close>

definition reset_backend :: "'i manager \<Rightarrow> 'i manager" where
  "reset_backend mg = mg\<lparr>mg_queues := reset_queues (mg_queues mg)\<rparr>"

definition SquidAsmRuntimeManager :: "'i queues \<Rightarrow> bool \<Rightarrow> 'i manager" where
  "SquidAsmRuntimeManager queues registered =
     reset_backend \<lparr>mg_network = None, mg_subroutine_handlers = [], mg_party_map = [], mg_is_running = False,
       mg_registered = registered, mg_thread = NoThread, mg_queues = queues, mg_reactions = []\<rparr>"

section \<open>The backend's thread\<close>

text \<open>\<open>start_backend\<close> only logs an error when there is a thread already.\<close>

definition start_backend :: "'i manager \<Rightarrow> 'i manager" where
  "start_backend mg = (if mg_thread mg \<noteq> NoThread then mg else mg\<lparr>mg_thread := ThreadStarted\<rparr>)"

text \<open>
  The thread up to the simulation, and after it.  Without a network it ends at once; an
  exception ends it too, after the manager has been marked as running.
\<close>

definition backend_thread_begin :: "'i manager \<Rightarrow> 'i manager option" where
  "backend_thread_begin mg =
     (if mg_thread mg \<noteq> ThreadStarted then None
      else if mg_network mg = None then Some (mg\<lparr>mg_thread := ThreadEnded\<rparr>)
      else if mg_registered mg then Some (mg\<lparr>mg_is_running := True, mg_thread := ThreadEnded\<rparr>)
      else Some (mg\<lparr>mg_is_running := True, mg_registered := True, mg_thread := ThreadSimulates\<rparr>))"

definition backend_thread_end :: "'i manager \<Rightarrow> 'i manager option" where
  "backend_thread_end mg =
     (if mg_thread mg \<noteq> ThreadSimulates then None
      else Some (mg\<lparr>mg_registered := False, mg_is_running := False, mg_thread := ThreadEnded\<rparr>))"

text \<open>\<open>stop_backend\<close> waits for the thread to end; without a thread there is nothing to join.\<close>

definition stop_backend :: "'i manager \<Rightarrow> 'i manager result option" where
  "stop_backend mg =
     (case mg_thread mg of
        NoThread \<Rightarrow> Some (Inl AttributeError)
      | ThreadEnded \<Rightarrow> Some (Inr (mg\<lparr>mg_thread := NoThread, mg_queues := destroy_queues (mg_queues mg)\<rparr>))
      | _ \<Rightarrow> None)"

text \<open>What the registry shows while this manager is the running backend.\<close>

definition backend_node_of :: "sim_node \<Rightarrow> backend_node" where
  "backend_node_of n = \<lparr>bn_name = sn_name n, bn_id = sn_id n, bn_num_positions = qd_num_positions (sn_qmemory n)\<rparr>"

definition backend_of :: "'i manager \<Rightarrow> backend" where
  "backend_of mg =
     \<lparr>be_nodes = (case mg_network mg of None \<Rightarrow> [] | Some net \<Rightarrow> map (\<lambda>(s, n). (s, backend_node_of n)) (nt_nodes net)),
      be_app_node_map = map (\<lambda>(s, n). (s, backend_node_of n)) (mg_party_map mg)\<rparr>"

section \<open>Running an application\<close>

text \<open>
  What a program is called with: its inputs, and its node when an application configuration
  is passed along.
\<close>

record 'v app_call =
  ac_party :: string
  ac_inputs :: "(string, 'v) dict"
  ac_config_node :: "sim_node option"

definition assign_parties ::
    "py_error \<Rightarrow> sim_network \<Rightarrow> (string, string) dict \<Rightarrow> (string, sim_node) dict \<Rightarrow> (string, sim_node) dict result" where
  "assign_parties missing net party_alloc party_map =
     forE (\<lambda>(party, node_name) m. bindE (get_node missing net node_name) (\<lambda>n. Inr (AList.update party n m))) party_alloc party_map"

definition start_program ::
    "bool \<Rightarrow> (string, sim_node) dict \<Rightarrow> (string, (string, 'v) dict) dict \<Rightarrow> string \<Rightarrow> 'v app_call list \<Rightarrow> 'v app_call list result" where
  "start_program use_app_config party_map program_inputs party calls =
     bindE (dict_get program_inputs party) (\<lambda>inputs.
     bindE (if use_app_config then bindE (dict_get party_map party) (\<lambda>n. Inr (Some n)) else Inr None) (\<lambda>node.
       Inr (calls @ [\<lparr>ac_party = party, ac_inputs = inputs, ac_config_node = node\<rparr>])))"

definition app_prefix :: string where
  "app_prefix = ''app_''"

text \<open>\<open>results[name] = future.get()\<close>\<close>

definition collect_result ::
    "('v app_call \<Rightarrow> 'r result) \<Rightarrow> 'v app_call \<Rightarrow> string option \<Rightarrow> (string, 'r) dict \<Rightarrow> (string, 'r) dict result" where
  "collect_result outcome call name results = bindE (outcome call) (\<lambda>x. Inr (AList.update (the name) x results))"

text \<open>
  \<open>run_app\<close>: the programs' parties are \<open>parties\<close>; \<open>ready\<close> and \<open>outcome\<close> tell when a program has
  finished and what it returned or raised.
\<close>

definition run_app ::
    "py_error \<Rightarrow> (nat \<Rightarrow> 'v app_call \<Rightarrow> bool) \<Rightarrow> ('v app_call \<Rightarrow> 'r result) \<Rightarrow> string list \<Rightarrow> (string, string) dict
       \<Rightarrow> (string, (string, 'v) dict) dict \<Rightarrow> bool \<Rightarrow> 'i manager \<Rightarrow> ((string, 'r) dict \<times> 'i manager) result option" where
  "run_app missing ready outcome parties party_alloc program_inputs use_app_config mg =
     (case mg_network mg of
        None \<Rightarrow> Some (Inl AssertionError)
      | Some net \<Rightarrow>
          (case assign_parties missing net party_alloc (mg_party_map mg) of
             Inl e \<Rightarrow> Some (Inl e)
           | Inr party_map \<Rightarrow>
               (case forE (start_program use_app_config party_map program_inputs) parties [] of
                  Inl e \<Rightarrow> Some (Inl e)
                | Inr calls \<Rightarrow>
                    map_option (\<lambda>r. bindE r (\<lambda>results. Inr (results, mg\<lparr>mg_party_map := party_map\<rparr>)))
                      (for_completed ready (collect_result outcome) 0 calls
                        (Some (map (\<lambda>party. app_prefix @ party) parties)) []))))"

text \<open>\<open>simulate_application\<close>: one run of the application per round, on one backend.\<close>

fun simulate_rounds :: "(nat \<Rightarrow> 'i manager \<Rightarrow> ('r \<times> 'i manager) result option) \<Rightarrow> nat \<Rightarrow> nat \<Rightarrow> 'r list \<Rightarrow> 'i manager
    \<Rightarrow> ('r list \<times> 'i manager) result option" where
  "simulate_rounds play i 0 results mg = Some (Inr (results, mg))"
| "simulate_rounds play i (Suc k) results mg =
     (case play i mg of
        None \<Rightarrow> None
      | Some (Inl e) \<Rightarrow> Some (Inl e)
      | Some (Inr (r, mg')) \<Rightarrow> simulate_rounds play (Suc i) k (results @ [r]) mg')"

section \<open>Connections of the host threads\<close>

text \<open>The compiler of a connection, unless one is given.\<close>

definition choose_compiler :: "'c \<Rightarrow> 'c option \<Rightarrow> string \<Rightarrow> 'i manager \<Rightarrow> 'c option result" where
  "choose_compiler nv_transpiler compiler node_name mg =
     (case compiler of
        Some c \<Rightarrow> Inr (Some c)
      | None \<Rightarrow> bindE (dict_get (mg_subroutine_handlers mg) node_name) (\<lambda>h.
          Inr (if hd_flavour h = NVFlavour then Some nv_transpiler else None)))"

end
