(* ===== verification/RuntimeProps.thy ===== *)
theory RuntimeProps
  imports Runtime
begin

text \<open>
  What the runtime manager guarantees: an application's results do not depend on the order in
  which its programs finish, every node of a network gets its handler, and the registry
  follows the backend's thread.
\<close>

section \<open>Running an application\<close>

lemma assign_parties_returns:
  assumes "dict_ok alloc" and "\<forall>(p, s) \<in> set alloc. map_of (nt_nodes net) s \<noteq> None"
  obtains m where "assign_parties missing net alloc m0 = Inr m"
    "\<And>p. map_of m p = (case map_of alloc p of None \<Rightarrow> map_of m0 p | Some s \<Rightarrow> map_of (nt_nodes net) s)"
proof -
  have "\<exists>m. assign_parties missing net alloc m0 = Inr m
     \<and> (\<forall>p. map_of m p = (case map_of alloc p of None \<Rightarrow> map_of m0 p | Some s \<Rightarrow> map_of (nt_nodes net) s))"
    using assms
  proof (induction alloc arbitrary: m0)
    case Nil
    then show ?case by (simp add: assign_parties_def)
  next
    case (Cons a alloc)
    obtain p s where a: "a = (p, s)" by (cases a)
    with Cons.prems obtain n where n: "map_of (nt_nodes net) s = Some n" by auto
    obtain m where m: "assign_parties missing net alloc (AList.update p n m0) = Inr m"
      "\<And>q. map_of m q = (case map_of alloc q of None \<Rightarrow> map_of (AList.update p n m0) q | Some s \<Rightarrow> map_of (nt_nodes net) s)"
      using Cons.IH [of "AList.update p n m0"] Cons.prems by auto
    have "map_of alloc p = None" using Cons.prems(1) a by (simp add: map_of_eq_None_iff)
    then have "map_of m q = (case map_of (a # alloc) q of None \<Rightarrow> map_of m0 q | Some s \<Rightarrow> map_of (nt_nodes net) s)" for q
      using m(2) [of q] n a by (simp add: map_of_update split: option.split)
    moreover have "assign_parties missing net (a # alloc) m0 = Inr m"
      using m(1) n a by (simp add: assign_parties_def get_node_def)
    ultimately show ?case by blast
  qed
  then show thesis using that by blast
qed

definition call_of ::
    "bool \<Rightarrow> (string, sim_node) dict \<Rightarrow> (string, (string, 'v) dict) dict \<Rightarrow> string \<Rightarrow> 'v app_call" where
  "call_of use_app_config party_map program_inputs p =
     \<lparr>ac_party = p, ac_inputs = the (map_of program_inputs p), ac_config_node = (if use_app_config then map_of party_map p else None)\<rparr>"

lemma start_programs:
  assumes "\<forall>p \<in> set parties. map_of inputs p \<noteq> None" and "\<forall>p \<in> set parties. use_cfg \<longrightarrow> map_of party_map p \<noteq> None"
  shows "forE (start_program use_cfg party_map inputs) parties calls = Inr (calls @ map (call_of use_cfg party_map inputs) parties)"
  using assms
proof (induction parties arbitrary: calls)
  case (Cons p parties)
  then show ?case by (auto simp: start_program_def dict_get_def call_of_def)
qed simp

lemma collect_one: "outcome f = Inr x \<Longrightarrow> collect_result outcome f (Some n) d = Inr (AList.update n x d)"
  by (simp add: collect_result_def)

lemma collect_results:
  assumes "\<forall>(f, n) \<in> set ys. outcome f = Inr (val f)" and "distinct (map snd ys)"
  shows "\<exists>results. forE (\<lambda>(f, n). collect_result outcome f (Some n)) ys d = Inr results
     \<and> map_of results = map_of d ++ map_of (map (\<lambda>(f, n). (n, val f)) ys)"
  using assms
proof (induction ys arbitrary: d)
  case Nil
  then show ?case by simp
next
  case (Cons y ys)
  obtain f n where y: "y = (f, n)" by (cases y)
  have new: "map_of (map (\<lambda>(f, n). (n, val f)) ys) n = None"
    using Cons.prems(2) y by (force simp: map_of_eq_None_iff)
  have "\<forall>(f, n) \<in> set ys. outcome f = Inr (val f)" "distinct (map snd ys)" using Cons.prems by auto
  from Cons.IH [OF this, of "AList.update n (val f) d"] obtain results where r:
    "forE (\<lambda>(f, n). collect_result outcome f (Some n)) ys (AList.update n (val f) d) = Inr results"
    "map_of results = map_of (AList.update n (val f) d) ++ map_of (map (\<lambda>(f, n). (n, val f)) ys)"
    by blast
  have "map_of results = map_of d ++ map_of (map (\<lambda>(f, n). (n, val f)) (y # ys))"
    using new by (auto simp: r(2) y map_add_def fun_eq_iff map_of_update split: option.split)
  moreover have "forE (\<lambda>(f, n). collect_result outcome f (Some n)) (y # ys) d = Inr results"
    using r(1) Cons.prems(1) y by (simp add: collect_one)
  ultimately show ?case by blast
qed

text \<open>The results of programs that finish in some order, by name.\<close>

lemma completed_results:
  assumes "distinct parties" and "\<forall>p \<in> set parties. outcome (c p) = Inr (val (c p))"
    and "mset ys = mset (zip (map c parties) (map (\<lambda>p. app_prefix @ p) parties))"
  shows "\<exists>results. forE (\<lambda>(f, n). collect_result outcome f (Some n)) ys []
       = Inr results
     \<and> (\<forall>p \<in> set parties. map_of results (app_prefix @ p) = Some (val (c p)))
     \<and> set (dict_keys results) = (\<lambda>p. app_prefix @ p) ` set parties"
proof -
  let ?zs = "map (\<lambda>p. (c p, app_prefix @ p)) parties"
  have m: "mset ys = mset ?zs" using assms(3) by (simp add: zip_map_map zip_same_conv_map comp_def)
  then have set: "set ys = set ?zs" by (metis set_mset_mset)
  have "mset (map snd ys) = mset (map snd ?zs)" using m by (metis mset_map)
  moreover have "distinct (map snd ?zs)" using assms(1) by (simp add: comp_def distinct_map inj_on_def)
  ultimately have d: "distinct (map snd ys)" by (metis mset_eq_imp_distinct_iff)
  have "\<forall>(f, n) \<in> set ys. outcome f = Inr (val f)" unfolding set using assms(2) by auto
  from collect_results [OF this d, of "[]"] obtain results where r:
    "forE (\<lambda>(f, n). collect_result outcome f (Some n)) ys []
       = Inr results"
    "map_of results = map_of (map (\<lambda>(f, n). (n, val f)) ys)"
    by auto
  have dk: "dict_ok (map (\<lambda>(f, n). (n, val f)) ys)" using d by (simp add: comp_def case_prod_unfold)
  have val: "map_of results (app_prefix @ p) = Some (val (c p))" if "p \<in> set parties" for p
  proof -
    have "(app_prefix @ p, val (c p)) \<in> set (map (\<lambda>(f, n). (n, val f)) ys)" using that set by force
    then show ?thesis unfolding r(2) by (rule map_of_is_SomeI [OF dk])
  qed
  have "set (dict_keys results) = dom (map_of results)" by (simp add: dom_map_of_conv_image_fst)
  also have "\<dots> = dom (map_of (map (\<lambda>(f, n). (n, val f)) ys))" using r(2) by (simp add: dom_def)
  also have "\<dots> = snd ` set ys" by (force simp: dom_map_of_conv_image_fst)
  also have "\<dots> = (\<lambda>p. app_prefix @ p) ` set parties" unfolding set by force
  finally show ?thesis using r(1) val by blast
qed

text \<open>
  C23: An application whose parties are different, have inputs, and are on known nodes returns
  once all its programs do, whatever the order they finish in: the results are what every
  program returned, under its own name, each program has been called with its inputs and its
  node, and every party is mapped to its node.
\<close>

theorem run_app_results:
  assumes "mg_network mg = Some net" and "distinct parties" and "dict_ok alloc"
    and "\<forall>(p, s) \<in> set alloc. map_of (nt_nodes net) s \<noteq> None"
    and "\<forall>p \<in> set parties. map_of inputs p \<noteq> None \<and> map_of alloc p \<noteq> None"
    and "\<forall>call. ac_party call \<in> set parties \<longrightarrow> outcome call = Inr (val call) \<and> (\<forall>t \<ge> T. ready t call)"
  shows "\<exists>results mg'. run_app missing ready outcome parties alloc inputs use_cfg mg = Some (Inr (results, mg'))
     \<and> set (dict_keys results) = (\<lambda>p. app_prefix @ p) ` set parties
     \<and> (\<forall>p \<in> set parties. map_of results (app_prefix @ p) = Some (val
           \<lparr>ac_party = p, ac_inputs = the (map_of inputs p),
            ac_config_node = (if use_cfg then map_of (nt_nodes net) (the (map_of alloc p)) else None)\<rparr>))
     \<and> (\<forall>p \<in> set parties. map_of (mg_party_map mg') p = map_of (nt_nodes net) (the (map_of alloc p)))"
proof -
  obtain m where m: "assign_parties missing net alloc (mg_party_map mg) = Inr m"
    "\<And>p. map_of m p = (case map_of alloc p of None \<Rightarrow> map_of (mg_party_map mg) p | Some s \<Rightarrow> map_of (nt_nodes net) s)"
    using assign_parties_returns [OF assms(3,4)] by metis
  have pm: "map_of m p = map_of (nt_nodes net) (the (map_of alloc p)) \<and> map_of m p \<noteq> None" if p: "p \<in> set parties" for p
  proof -
    obtain s where s: "map_of alloc p = Some s" using bspec [OF assms(5) p] by auto
    have "map_of (nt_nodes net) s \<noteq> None" using bspec [OF assms(4) map_of_SomeD [OF s]] by simp
    then show ?thesis unfolding m(2) s option.case option.sel by blast
  qed
  let ?c = "call_of use_cfg m inputs"
  have calls: "forE (start_program use_cfg m inputs) parties [] = Inr (map ?c parties)"
    using start_programs [of parties inputs use_cfg m "[]"] bspec [OF assms(5)] pm unfolding append_Nil by blast
  have c: "ac_party (?c p) = p" for p by (simp add: call_of_def)
  have rd: "ready t f" if "f \<in> set (map ?c parties)" "T \<le> t" for f t using that assms(6) c by auto
  have lp: "length (map (\<lambda>p. app_prefix @ p) parties) = length (map ?c parties)" by simp
  from for_completed_returns [where ready = ready and T = T and body = "collect_result outcome" and now = 0 and s = "[]", OF lp rd]
  obtain ys where ys: "mset ys = mset (zip (map ?c parties) (map (\<lambda>p. app_prefix @ p) parties))"
    "for_completed ready (collect_result outcome) 0
        (map ?c parties) (Some (map (\<lambda>p. app_prefix @ p) parties)) []
     = Some (forE (\<lambda>(f, n). collect_result outcome f (Some n)) ys [])"
    by blast
  have "\<forall>p \<in> set parties. outcome (?c p) = Inr (val (?c p))" using assms(6) c by auto
  from completed_results [where outcome = outcome and val = val and c = ?c, OF assms(2) this ys(1)] obtain results where r:
    "forE (\<lambda>(f, n). collect_result outcome f (Some n)) ys []
      = Inr results"
    "\<And>p. p \<in> set parties \<Longrightarrow> map_of results (app_prefix @ p) = Some (val (?c p))"
    "set (dict_keys results) = (\<lambda>p. app_prefix @ p) ` set parties" by blast
  have "run_app missing ready outcome parties alloc inputs use_cfg mg = Some (Inr (results, mg\<lparr>mg_party_map := m\<rparr>))"
    using m(1) calls ys(2) r(1) assms(1) by (simp add: run_app_def)
  then show ?thesis using r pm by (auto simp: call_of_def)
qed

text \<open>An application with a program that never finishes does not return results.\<close>

lemma run_app_waits:
  assumes "p \<in> set parties" and "\<And>call t. ac_party call = p \<Longrightarrow> \<not> ready t call"
  shows "run_app missing ready outcome parties alloc inputs use_cfg mg \<noteq> Some (Inr r)"
proof
  assume r: "run_app missing ready outcome parties alloc inputs use_cfg mg = Some (Inr r)"
  then obtain m calls results where c: "forE (start_program use_cfg m inputs) parties [] = Inr calls"
    and f: "for_completed ready (collect_result outcome)
       0 calls (Some (map (\<lambda>party. app_prefix @ party) parties)) [] = Some (Inr results)"
    by (auto simp: run_app_def result_simps split: option.splits sum.splits)
  have "map ac_party cs' = map ac_party cs @ ps" if "forE (start_program use_cfg m inputs) ps cs = Inr cs'" for ps cs cs'
    using that by (induction ps arbitrary: cs) (auto simp: start_program_def result_simps)
  from this [OF c] have cp: "map ac_party calls = parties" by simp
  then obtain call where "call \<in> set calls" "ac_party call = p" using assms(1) by force
  moreover have "length parties = length calls" using cp by (metis length_map)
  ultimately show False using for_completed_waits [OF f refl, of call] assms(2) [of call] by auto
qed

definition ex_runtime :: "nat manager" where
  "ex_runtime = (SquidAsmRuntimeManager [] False)\<lparr>mg_network := Some
     \<lparr>nt_nv_config = None, nt_node_hardware_types = [(''n'', HwGeneric)], nt_instr_proc_time = PyInt 0, nt_host_latency = PyInt 0,
      nt_nodes = [(''n'', \<lparr>sn_name = ''n'', sn_id = 0, sn_qmemory = QDevice ''d'' 1 None 1 None\<rparr>)],
      nt_protocols = [], nt_link_layer_services = [(''n'', [])]\<rparr>\<rparr>"

theorem run_app_results_witness:
  "\<exists>results mg'. run_app KeyError (\<lambda>now call. now \<ge> 3) (\<lambda>call. Inr (length (ac_inputs call))) [''alice'', ''bob'']
       [(''alice'', ''n''), (''bob'', ''n'')] [(''alice'', [(''x'', 1 :: int)]), (''bob'', [])] False ex_runtime = Some (Inr (results, mg'))
     \<and> map_of results ''app_alice'' = Some 1 \<and> map_of results ''app_bob'' = Some 0"
proof -
  obtain net where net: "mg_network ex_runtime = Some net" "map_of (nt_nodes net) ''n'' \<noteq> None"
    by (simp add: ex_runtime_def)
  from run_app_results [OF net(1), of "[''alice'', ''bob'']" "[(''alice'', ''n''), (''bob'', ''n'')]"
      "[(''alice'', [(''x'', 1 :: int)]), (''bob'', [])]" "\<lambda>call. Inr (length (ac_inputs call))" "\<lambda>call. length (ac_inputs call)" 3
      "\<lambda>now call. now \<ge> 3" KeyError False] net(2)
  show ?thesis by (auto simp: app_prefix_def)
qed

section \<open>Handlers of a network\<close>

text \<open>What a handler of a node is.\<close>

definition handler_for :: "sim_network \<Rightarrow> sim_node \<Rightarrow> subroutine_handler" where
  "handler_for net n =
     \<lparr>hd_node = n, hd_flavour = (if map_of (nt_node_hardware_types net) (sn_name n) = Some HwNV then NVFlavour else VanillaFlavour),
      hd_instr_proc_time = nt_instr_proc_time net, hd_host_latency = nt_host_latency net,
      hd_link_layer_services = the (map_of (nt_link_layer_services net) (sn_name n))\<rparr>"

definition node_supported :: "sim_network \<Rightarrow> sim_node \<Rightarrow> bool" where
  "node_supported net n \<longleftrightarrow> map_of (nt_node_hardware_types net) (sn_name n) \<in> {Some HwNV, Some HwGeneric}
     \<and> map_of (nt_link_layer_services net) (sn_name n) \<noteq> None"

lemma create_handler_returns:
  assumes "node_supported net n" and "map_of (mg_queues mg) (sn_name n) = None"
  obtains mg' where "create_handler net n mg = Inr mg'" "mg_network mg' = mg_network mg"
    "mg_queues mg' = AList.update (sn_name n) TaskQueue (mg_queues mg)"
    "mg_subroutine_handlers mg' = AList.update (sn_name n) (handler_for net n) (mg_subroutine_handlers mg)"
    "\<And>r. r \<in> dom (map_of (hd_link_layer_services (handler_for net n))) \<Longrightarrow> ((sn_name n, r), sn_name n) \<in> set (mg_reactions mg')"
    "set (mg_reactions mg) \<subseteq> set (mg_reactions mg')"
proof -
  obtain h sv where h: "map_of (nt_node_hardware_types net) (sn_name n) = Some h" "h = HwNV \<or> h = HwGeneric"
    and sv: "map_of (nt_link_layer_services net) (sn_name n) = Some sv"
    using assms(1) by (auto simp: node_supported_def)
  show thesis
    by (rule that [of "mg\<lparr>mg_queues := AList.update (sn_name n) TaskQueue (mg_queues mg),
               mg_reactions := mg_reactions mg @ map (\<lambda>(remote, s). ((sn_name n, remote), sn_name n)) sv,
               mg_subroutine_handlers := AList.update (sn_name n) (handler_for net n) (mg_subroutine_handlers mg)\<rparr>"])
      (use h assms(2) in \<open>auto simp: create_handler_def dict_get_def node_flavour_def create_queue_def handler_for_def sv
        dest: map_of_SomeD\<close>)
qed

lemma create_handlers_return:
  assumes "\<forall>n \<in> set ns. node_supported net n" and "distinct (map sn_name ns)"
    and "\<forall>n \<in> set ns. map_of (mg_queues mg) (sn_name n) = None"
  shows "\<exists>mg'. forE (create_handler net) ns mg = Inr mg' \<and> mg_network mg' = mg_network mg
     \<and> (\<forall>n \<in> set ns. map_of (mg_subroutine_handlers mg') (sn_name n) = Some (handler_for net n)
          \<and> map_of (mg_queues mg') (sn_name n) = Some TaskQueue
          \<and> (\<forall>r \<in> dom (map_of (hd_link_layer_services (handler_for net n))). ((sn_name n, r), sn_name n) \<in> set (mg_reactions mg')))
     \<and> (\<forall>s. s \<notin> sn_name ` set ns \<longrightarrow> map_of (mg_subroutine_handlers mg') s = map_of (mg_subroutine_handlers mg) s
          \<and> map_of (mg_queues mg') s = map_of (mg_queues mg) s)
     \<and> set (mg_reactions mg) \<subseteq> set (mg_reactions mg')"
  using assms
proof (induction ns arbitrary: mg)
  case Nil
  then show ?case by simp
next
  case (Cons n ns)
  obtain mg1 where mg1: "create_handler net n mg = Inr mg1" "mg_network mg1 = mg_network mg"
    "mg_queues mg1 = AList.update (sn_name n) TaskQueue (mg_queues mg)"
    "mg_subroutine_handlers mg1 = AList.update (sn_name n) (handler_for net n) (mg_subroutine_handlers mg)"
    "\<And>r. r \<in> dom (map_of (hd_link_layer_services (handler_for net n))) \<Longrightarrow> ((sn_name n, r), sn_name n) \<in> set (mg_reactions mg1)"
    "set (mg_reactions mg) \<subseteq> set (mg_reactions mg1)"
    by (rule create_handler_returns [of net n mg]) (use Cons.prems in auto)
  have new: "sn_name n \<notin> sn_name ` set ns" using Cons.prems(2) by auto
  have "\<forall>m \<in> set ns. map_of (mg_queues mg1) (sn_name m) = None"
    using Cons.prems(3) new by (auto simp: mg1(3) map_of_update image_iff)
  with Cons.IH [of mg1] Cons.prems(1,2) obtain mg' where mg': "forE (create_handler net) ns mg1 = Inr mg'"
    "mg_network mg' = mg_network mg1" "set (mg_reactions mg1) \<subseteq> set (mg_reactions mg')"
    "\<And>m. m \<in> set ns \<Longrightarrow> map_of (mg_subroutine_handlers mg') (sn_name m) = Some (handler_for net m)
          \<and> map_of (mg_queues mg') (sn_name m) = Some TaskQueue
          \<and> (\<forall>r \<in> dom (map_of (hd_link_layer_services (handler_for net m))). ((sn_name m, r), sn_name m) \<in> set (mg_reactions mg'))"
    "\<And>s. s \<notin> sn_name ` set ns \<Longrightarrow> map_of (mg_subroutine_handlers mg') s = map_of (mg_subroutine_handlers mg1) s
          \<and> map_of (mg_queues mg') s = map_of (mg_queues mg1) s"
    by auto
  have first: "map_of (mg_subroutine_handlers mg') (sn_name n) = Some (handler_for net n) \<and> map_of (mg_queues mg') (sn_name n) = Some TaskQueue"
    using mg'(5) [OF new] by (simp add: mg1(3,4) map_of_update)
  have rest: "map_of (mg_subroutine_handlers mg') s = map_of (mg_subroutine_handlers mg) s \<and> map_of (mg_queues mg') s = map_of (mg_queues mg) s"
    if "s \<notin> sn_name ` set (n # ns)" for s
    using mg'(5) [of s] that by (simp add: mg1(3,4) map_of_update)
  show ?case
    using mg1(1,2,5,6) mg'(1-4) first rest by (intro exI [of _ mg']) auto
qed

text \<open>The tables of a network that has been built.\<close>

lemma build_hardware:
  assumes "forE (build_node_of to_hardware) (List.enumerate k cs) net = Inr net'" and "distinct (map nc_name cs)"
  shows "(\<forall>c \<in> set cs. map_of (nt_node_hardware_types net') (nc_name c) = Some (node_hardware to_hardware c))
     \<and> (\<forall>s. s \<notin> nc_name ` set cs \<longrightarrow> map_of (nt_node_hardware_types net') s = map_of (nt_node_hardware_types net) s)"
  using assms
proof (induction cs arbitrary: k net)
  case Nil
  then show ?case by simp
next
  case (Cons c cs)
  from Cons.prems(1) obtain net1 where net1: "build_node_of to_hardware (k, c) net = Inr net1"
    and rest: "forE (build_node_of to_hardware) (List.enumerate (Suc k) cs) net1 = Inr net'"
    by (auto simp: result_simps)
  from net1 have hw: "nt_node_hardware_types net1 = AList.update (nc_name c) (node_hardware to_hardware c) (nt_node_hardware_types net)"
    by (auto simp: build_node_of_def Let_def result_simps)
  have "nc_name c \<notin> nc_name ` set cs" using Cons.prems(2) by auto
  with Cons.IH [OF rest] Cons.prems(2) show ?case by (auto simp: hw map_of_update)
qed

definition same_tables :: "sim_network \<Rightarrow> sim_network \<Rightarrow> bool" where
  "same_tables net net' \<longleftrightarrow> nt_nodes net' = nt_nodes net \<and> nt_node_hardware_types net' = nt_node_hardware_types net
     \<and> (\<forall>s. map_of (nt_link_layer_services net) s \<noteq> None \<longrightarrow> map_of (nt_link_layer_services net') s \<noteq> None)"

lemma create_link_tables: "create_link noise_of missing l net = Inr net' \<Longrightarrow> same_tables net net'"
  by (auto simp: create_link_def add_service_def Let_def result_simps same_tables_def map_of_update split: if_splits)

lemma network_tables:
  assumes "NetSquidNetwork to_hardware noise_of missing cfg nv = Inr net" and "distinct (map nc_name (nw_nodes cfg))"
  shows "dict_keys (nt_nodes net) = map nc_name (nw_nodes cfg)"
    and "map sn_name (map snd (nt_nodes net)) = map nc_name (nw_nodes cfg)"
    and "c \<in> set (nw_nodes cfg) \<Longrightarrow> map_of (nt_node_hardware_types net) (nc_name c) = Some (node_hardware to_hardware c)"
    and "c \<in> set (nw_nodes cfg) \<Longrightarrow> map_of (nt_link_layer_services net) (nc_name c) \<noteq> None"
proof -
  let ?net0 = "\<lparr>nt_nv_config = nv, nt_node_hardware_types = [],
          nt_instr_proc_time = (case nv of None \<Rightarrow> PyInt 0 | Some c \<Rightarrow> cf_instr_proc_time c),
          nt_host_latency = (case nv of None \<Rightarrow> PyInt 0 | Some c \<Rightarrow> cf_host_latency c),
          nt_nodes = [], nt_protocols = [], nt_link_layer_services = []\<rparr>"
  obtain net1 where net1: "forE (build_node_of to_hardware) (List.enumerate 0 (nw_nodes cfg)) ?net0 = Inr net1"
    "create_link_layer_services noise_of missing cfg net1 = Inr net"
    using assms(1) by (auto simp: NetSquidNetwork_def build_network_def result_simps)
  note nodes = build_nodes [OF net1(1) assms(2), simplified]
  note hw = build_hardware [OF net1(1) assms(2)]
  let ?net2 = "net1\<lparr>nt_link_layer_services :=
          fold (\<lambda>name d. AList.update name [] d) (dict_keys (nt_nodes net1)) (nt_link_layer_services net1)\<rparr>"
  have "same_tables ?net2 net"
    by (rule forE_invariant [OF net1(2) [unfolded create_link_layer_services_def]])
      (auto simp: same_tables_def dest!: create_link_tables)
  then have t: "nt_nodes net = nt_nodes net1" "nt_node_hardware_types net = nt_node_hardware_types net1"
    "\<And>s. s \<in> set (dict_keys (nt_nodes net1)) \<Longrightarrow> map_of (nt_link_layer_services net) s \<noteq> None"
    by (auto simp: same_tables_def fold_empty_services)
  show keys: "dict_keys (nt_nodes net) = map nc_name (nw_nodes cfg)" using nodes t(1) by simp
  show "map sn_name (map snd (nt_nodes net)) = map nc_name (nw_nodes cfg)"
  proof (rule nth_equalityI)
    show len: "length (map sn_name (map snd (nt_nodes net))) = length (map nc_name (nw_nodes cfg))"
      using arg_cong [OF keys, of length] by simp
    fix j assume "j < length (map sn_name (map snd (nt_nodes net)))"
    then have j: "j < length (nt_nodes net)" "j < length (nw_nodes cfg)" using len by simp_all
    have nm: "fst (nt_nodes net ! j) = nc_name (nw_nodes cfg ! j)" using arg_cong [OF keys, of "\<lambda>xs. xs ! j"] j by simp
    have "map_of (nt_nodes net) (fst (nt_nodes net ! j)) = Some (snd (nt_nodes net ! j))"
      using j(1) keys assms(2) by (intro map_of_is_SomeI) (simp_all add: nth_mem)
    then show "map sn_name (map snd (nt_nodes net)) ! j = map nc_name (nw_nodes cfg) ! j"
      using nodes j nm t(1) by fastforce
  qed
  show "map_of (nt_node_hardware_types net) (nc_name c) = Some (node_hardware to_hardware c)" if "c \<in> set (nw_nodes cfg)"
    using hw that t(2) by simp
  show "map_of (nt_link_layer_services net) (nc_name c) \<noteq> None" if "c \<in> set (nw_nodes cfg)"
    by (rule t(3)) (use keys t(1) that in simp)
qed

text \<open>A node that has a queue already cannot get a handler.\<close>

lemma create_handler_again:
  assumes "node_supported net n" and "map_of (mg_queues mg) (sn_name n) \<noteq> None"
  shows "create_handler net n mg = Inl RuntimeError"
  using assms by (auto simp: node_supported_def create_handler_def dict_get_def node_flavour_def create_queue_def)

lemma reset_queue_there: "map_of (reset_queues qs) s = map_option tq_reset (map_of qs s)"
  by (simp add: reset_queues_def map_of_map)

lemma network_nodes_supported:
  assumes "NetSquidNetwork to_hardware noise_of missing cfg nv = Inr net" and "distinct (map nc_name (nw_nodes cfg))"
    and "\<forall>c \<in> set (nw_nodes cfg). node_hardware to_hardware c \<in> {HwNV, HwGeneric}" and "n \<in> set (map snd (nt_nodes net))"
  obtains c where "c \<in> set (nw_nodes cfg)" "sn_name n = nc_name c" "node_supported net n"
proof -
  note t = network_tables [OF assms(1,2)]
  obtain c where c: "c \<in> set (nw_nodes cfg)" "sn_name n = nc_name c"
    using assms(4) t(2) by (metis image_iff set_map)
  then have "node_supported net n" using t(3,4) assms(3) by (fastforce simp: node_supported_def)
  with c show thesis by (rule that)
qed

text \<open>
  C24: Once a network with different node names and supported hardware is built, setting it
  gives every node a handler with the node's link services and the instruction flavour of its
  hardware, an empty queue for the node's messages, and a reaction to every link service of
  the node.  A network with a node that has a queue already is refused, also after the
  backend has been reset.
\<close>

theorem set_network_handlers:
  assumes "NetSquidNetwork to_hardware noise_of missing cfg nv = Inr net" and "distinct (map nc_name (nw_nodes cfg))"
    and "\<forall>c \<in> set (nw_nodes cfg). node_hardware to_hardware c \<in> {HwNV, HwGeneric}"
    and "\<forall>c \<in> set (nw_nodes cfg). map_of (mg_queues mg) (nc_name c) = None"
  shows "\<exists>mg'. set_network to_hardware noise_of missing cfg nv mg = Inr mg' \<and> mg_network mg' = Some net
     \<and> (\<forall>c \<in> set (nw_nodes cfg). \<exists>h services. map_of (mg_subroutine_handlers mg') (nc_name c) = Some h
          \<and> sn_name (hd_node h) = nc_name c
          \<and> hd_flavour h = (if node_hardware to_hardware c = HwNV then NVFlavour else VanillaFlavour)
          \<and> map_of (nt_link_layer_services net) (nc_name c) = Some services \<and> hd_link_layer_services h = services
          \<and> get_queue (nc_name c) (mg_queues mg') = Inr TaskQueue
          \<and> (\<forall>r \<in> dom (map_of services). ((nc_name c, r), nc_name c) \<in> set (mg_reactions mg')))
     \<and> (nw_nodes cfg \<noteq> [] \<longrightarrow> set_network to_hardware noise_of missing cfg nv (reset_backend mg') = Inl RuntimeError)"
proof -
  note t = network_tables [OF assms(1,2)] and sup = network_nodes_supported [OF assms(1-3)]
  let ?ns = "map snd (nt_nodes net)" and ?mg = "mg\<lparr>mg_network := Some net, mg_subroutine_handlers := []\<rparr>"
  have conf: "\<exists>n \<in> set ?ns. sn_name n = nc_name c" if "c \<in> set (nw_nodes cfg)" for c
    using that t(2) by (metis image_iff set_map)
  have d: "distinct (map sn_name ?ns)" using t(2) assms(2) by simp
  have free: "\<forall>n \<in> set ?ns. map_of (mg_queues ?mg) (sn_name n) = None"
  proof
    fix n assume "n \<in> set ?ns"
    then show "map_of (mg_queues ?mg) (sn_name n) = None" by (rule sup) (use assms(4) in simp)
  qed
  have "\<forall>n \<in> set ?ns. node_supported net n" using sup by blast
  from create_handlers_return [OF this d free] obtain mg' where mg':
    "forE (create_handler net) ?ns ?mg = Inr mg'" "mg_network mg' = Some net"
    "\<And>n. n \<in> set ?ns \<Longrightarrow> map_of (mg_subroutine_handlers mg') (sn_name n) = Some (handler_for net n)
          \<and> map_of (mg_queues mg') (sn_name n) = Some TaskQueue
          \<and> (\<forall>r \<in> dom (map_of (hd_link_layer_services (handler_for net n))). ((sn_name n, r), sn_name n) \<in> set (mg_reactions mg'))"
    by auto
  have set: "set_network to_hardware noise_of missing cfg nv mg = Inr mg'"
    using mg'(1) assms(1) by (simp add: set_network_def create_subroutine_handlers_def)
  have each: "\<exists>h services. map_of (mg_subroutine_handlers mg') (nc_name c) = Some h
          \<and> sn_name (hd_node h) = nc_name c
          \<and> hd_flavour h = (if node_hardware to_hardware c = HwNV then NVFlavour else VanillaFlavour)
          \<and> map_of (nt_link_layer_services net) (nc_name c) = Some services \<and> hd_link_layer_services h = services
          \<and> get_queue (nc_name c) (mg_queues mg') = Inr TaskQueue
          \<and> (\<forall>r \<in> dom (map_of services). ((nc_name c, r), nc_name c) \<in> set (mg_reactions mg'))"
    if c: "c \<in> set (nw_nodes cfg)" for c
  proof -
    obtain n where n: "n \<in> set ?ns" "sn_name n = nc_name c" using conf [OF c] by blast
    obtain services where sv: "map_of (nt_link_layer_services net) (nc_name c) = Some services" using t(4) [OF c] by blast
    show ?thesis
      using mg'(3) [OF n(1)] n(2) sv t(3) [OF c]
      by (intro exI [of _ "handler_for net n"] exI [of _ services]) (simp add: handler_for_def get_queue_def)
  qed
  have again: "set_network to_hardware noise_of missing cfg nv (reset_backend mg') = Inl RuntimeError" if ne: "nw_nodes cfg \<noteq> []"
  proof -
    obtain n ns where ns: "?ns = n # ns" using ne t(2) by (cases ?ns) auto
    then have n: "n \<in> set ?ns" by simp
    have "node_supported net n" using sup [OF n] by blast
    from create_handler_again [OF this, of "(reset_backend mg')\<lparr>mg_network := Some net, mg_subroutine_handlers := []\<rparr>"]
    show ?thesis using assms(1) ns mg'(3) [OF n]
      by (simp add: set_network_def create_subroutine_handlers_def reset_backend_def reset_queue_there)
  qed
  show ?thesis using set mg'(2) each again by blast
qed

definition ex_runtime_config :: network_config where
  "ex_runtime_config = \<lparr>nw_nodes = [\<lparr>nc_name = ''a'', nc_hardware = ''NV'', nc_qubits = [(0, 0)], nc_gate_fidelity = 1\<rparr>,
       \<lparr>nc_name = ''b'', nc_hardware = ''Generic'', nc_qubits = [(0, 0)], nc_gate_fidelity = 1\<rparr>],
     nw_links = [\<lparr>lk_name = ''ab'', lk_node_name1 = ''a'', lk_node_name2 = ''b'', lk_noise_type = ''x'', lk_fidelity = 9 / 10\<rparr>]\<rparr>"

theorem set_network_handlers_witness:
  "\<exists>mg h. set_network (\<lambda>s. if s = ''NV'' then Some HwNV else None) (\<lambda>s. Some Depolarise) KeyError ex_runtime_config None
       (SquidAsmRuntimeManager ([] :: nat queues) False) = Inr mg
     \<and> map_of (mg_subroutine_handlers mg) ''a'' = Some h \<and> hd_flavour h = NVFlavour"
proof -
  let ?hw = "\<lambda>s. if s = ''NV'' then Some HwNV else None"
  have "\<not> isl (NetSquidNetwork ?hw (\<lambda>s. Some Depolarise) KeyError ex_runtime_config None)" by code_simp
  then obtain net where net: "NetSquidNetwork ?hw (\<lambda>s. Some Depolarise) KeyError ex_runtime_config None = Inr net"
    by (cases "NetSquidNetwork ?hw (\<lambda>s. Some Depolarise) KeyError ex_runtime_config None") auto
  have c: "distinct (map nc_name (nw_nodes ex_runtime_config))"
    "\<forall>c \<in> set (nw_nodes ex_runtime_config). node_hardware ?hw c \<in> {HwNV, HwGeneric}"
    "\<forall>c \<in> set (nw_nodes ex_runtime_config). map_of (mg_queues (SquidAsmRuntimeManager ([] :: nat queues) False)) (nc_name c) = None"
    by (simp_all add: ex_runtime_config_def node_hardware_def SquidAsmRuntimeManager_def reset_backend_def reset_queues_def)
  have a: "hd (nw_nodes ex_runtime_config) \<in> set (nw_nodes ex_runtime_config)" "nc_name (hd (nw_nodes ex_runtime_config)) = ''a''"
    "node_hardware ?hw (hd (nw_nodes ex_runtime_config)) = HwNV"
    by (simp_all add: ex_runtime_config_def node_hardware_def)
  from set_network_handlers [OF net c] a show ?thesis by metis
qed

section \<open>The registry and the backend's thread\<close>

datatype thread_event = StartBackend | ThreadBegins | ThreadEnds | StopBackend

fun thread_step :: "thread_event \<Rightarrow> 'i manager \<Rightarrow> 'i manager option" where
  "thread_step StartBackend mg = Some (start_backend mg)"
| "thread_step ThreadBegins mg = backend_thread_begin mg"
| "thread_step ThreadEnds mg = backend_thread_end mg"
| "thread_step StopBackend mg = (case stop_backend mg of Some (Inr mg') \<Rightarrow> Some mg' | _ \<Rightarrow> None)"

text \<open>
  While no other manager is the running backend, this one is registered exactly while its
  thread simulates, and then says that it is running.
\<close>

definition registry_follows :: "'i manager \<Rightarrow> bool" where
  "registry_follows mg \<longleftrightarrow> (mg_registered mg \<longleftrightarrow> mg_thread mg = ThreadSimulates) \<and> (mg_is_running mg \<longleftrightarrow> mg_thread mg = ThreadSimulates)
     \<and> (mg_registered mg \<longrightarrow> mg_network mg \<noteq> None)"

lemma thread_step_registry: "thread_step e mg = Some mg' \<Longrightarrow> registry_follows mg \<Longrightarrow> registry_follows mg'"
  by (cases e) (auto simp: registry_follows_def start_backend_def backend_thread_begin_def backend_thread_end_def
      stop_backend_def split: if_splits thread_pc.splits)

text \<open>
  A backend started without a network stays started: a later start does nothing, also when
  there is a network by then, until the backend is stopped.
\<close>

lemma start_without_network:
  assumes "mg_thread mg = NoThread" and "mg_network mg = None" and "backend_thread_begin (start_backend mg) = Some mg1"
  shows "start_backend (mg1\<lparr>mg_network := Some net\<rparr>) = mg1\<lparr>mg_network := Some net\<rparr>"
    and "backend_thread_begin (mg1\<lparr>mg_network := Some net\<rparr>) = None"
  using assms by (auto simp: start_backend_def backend_thread_begin_def split: if_splits)

text \<open>The directory that the registry shows for a running backend is the network's.\<close>

lemma backend_of_nodes:
  assumes "mg_network mg = Some net" and "map_of (nt_nodes net) s = Some n"
  shows "map_of (be_nodes (backend_of mg)) s = Some (backend_node_of n)"
  using assms by (simp add: backend_of_def map_of_map)

lemma backend_of_apps:
  "map_of (be_app_node_map (backend_of mg)) p = map_option backend_node_of (map_of (mg_party_map mg) p)"
  by (simp add: backend_of_def map_of_map)

end
