(* ===== verification/StateHelpers.thy ===== *)
theory StateHelpers
  imports Prelude
begin

text \<open>
  Helpers on quantum states (\<open>squidasm/util/ns.py\<close>): the partial transpose of a density
  matrix and the decision whether a state is entangled.  A matrix is the list of its rows;
  the numerical libraries' logarithm, rank and eigenvalues are parameters.
\<close>

section \<open>Matrices\<close>

text \<open>\<open>mat[r0:r1, c0:c1]\<close>\<close>

definition submatrix :: "nat \<Rightarrow> nat \<Rightarrow> nat \<Rightarrow> nat \<Rightarrow> 'a list list \<Rightarrow> 'a list list" where
  "submatrix r0 r1 c0 c1 mat = map (\<lambda>row. take (c1 - c0) (drop c0 row)) (take (r1 - r0) (drop r0 mat))"

text \<open>
  \<open>np.block\<close> of rows of blocks: the blocks of a row need one height, and the rows of the
  result one width.
\<close>

definition block_row :: "'a list list list \<Rightarrow> 'a list list result" where
  "block_row bs = bindE (assertE (\<forall>b \<in> set bs. length b = length (hd bs)) ValueError) (\<lambda>_.
     Inr (map (\<lambda>i. concat (map (\<lambda>b. b ! i) bs)) [0..<length (hd bs)]))"

definition np_block :: "'a list list list list \<Rightarrow> 'a list list result" where
  "np_block rows =
     bindE (forE (\<lambda>bs done. bindE (block_row bs) (\<lambda>r. Inr (done @ r))) rows []) (\<lambda>mat.
     bindE (assertE (\<forall>r \<in> set mat. length r = length (hd mat)) ValueError) (\<lambda>_. Inr mat))"

definition matrix_cols :: "'a list list \<Rightarrow> nat" where
  "matrix_cols mat = (case mat of [] \<Rightarrow> 0 | row # rows \<Rightarrow> length row)"

text \<open>
  \<open>partial_transpose\<close>: \<open>int_log n d\<close> stands for \<open>int(np.log(n) / np.log(d))\<close>.  With \<open>size_b\<close> given
  the variable \<open>m\<close> is read before it is set.
\<close>

definition partial_transpose ::
    "(nat \<Rightarrow> nat \<Rightarrow> nat) \<Rightarrow> 'a list list \<Rightarrow> nat \<Rightarrow> nat option \<Rightarrow> 'a list list result" where
  "partial_transpose int_log mat base size_b =
     (let nrows = length mat; exponent = int_log nrows base in
      bindE (assertE (nrows = matrix_cols mat) AssertionError) (\<lambda>_.
      bindE (assertE (base ^ exponent = nrows) AssertionError) (\<lambda>_.
      bindE (case size_b of
          Some s \<Rightarrow> Inl UnboundLocalError
        | None \<Rightarrow> bindE (assertE (exponent div 2 + exponent div 2 = exponent) AssertionError) (\<lambda>_.
            Inr (exponent div 2, exponent div 2))) (\<lambda>(n, m).
        let N = base ^ n; M = base ^ m in
        np_block (map (\<lambda>j. map (\<lambda>k. transpose (submatrix (M * j) (M * (j + 1)) (N * k) (N * (k + 1)) mat)) [0..<N]) [0..<N])))))"

section \<open>Entanglement\<close>

definition is_dm_pure :: "('d \<Rightarrow> nat) \<Rightarrow> 'd \<Rightarrow> bool" where
  "is_dm_pure matrix_rank dm \<longleftrightarrow> matrix_rank dm = 1"

text \<open>A state as its density matrix and the reduced ones of its qubits.\<close>

record 'd qstate =
  qs_dm :: 'd
  qs_reduced :: "'d list"

abbreviation qs_num_qubits :: "'d qstate \<Rightarrow> nat" where
  "qs_num_qubits st \<equiv> length (qs_reduced st)"

fun some_mixed :: "('d \<Rightarrow> nat) \<Rightarrow> 'd list \<Rightarrow> bool" where
  "some_mixed matrix_rank [] = False"
| "some_mixed matrix_rank (dm # dms) = (if \<not> is_dm_pure matrix_rank dm then True else some_mixed matrix_rank dms)"

definition is_pure_state_entangled :: "('d \<Rightarrow> nat) \<Rightarrow> 'd qstate \<Rightarrow> bool" where
  "is_pure_state_entangled matrix_rank st = some_mixed matrix_rank (qs_reduced st)"

text \<open>\<open>nonneg\<close> says whether an eigenvalue is at least zero, \<open>eigvals\<close> lists them.\<close>

definition is_ppt ::
    "(nat \<Rightarrow> nat \<Rightarrow> nat) \<Rightarrow> ('a list list \<Rightarrow> 'e list) \<Rightarrow> ('e \<Rightarrow> bool) \<Rightarrow> 'a list list \<Rightarrow> nat \<Rightarrow> nat option \<Rightarrow> bool result" where
  "is_ppt int_log eigvals nonneg mat base size_b =
     bindE (partial_transpose int_log mat base size_b) (\<lambda>pt. Inr (list_all nonneg (eigvals pt)))"

definition is_state_entangled ::
    "(nat \<Rightarrow> nat \<Rightarrow> nat) \<Rightarrow> ('a list list \<Rightarrow> 'e list) \<Rightarrow> ('e \<Rightarrow> bool) \<Rightarrow> ('a list list \<Rightarrow> nat) \<Rightarrow> 'a list list qstate
       \<Rightarrow> bool option result" where
  "is_state_entangled int_log eigvals nonneg matrix_rank st =
     (if qs_num_qubits st \<le> 1 then Inr (Some False)
      else if is_dm_pure matrix_rank (qs_dm st) then Inr (Some (is_pure_state_entangled matrix_rank st))
      else if qs_num_qubits st = 2 then
        bindE (is_ppt int_log eigvals nonneg (qs_dm st) 2 None) (\<lambda>ppt. Inr (Some (\<not> ppt)))
      else Inr None)"

section \<open>The partial transpose, entry by entry\<close>

text \<open>
  The reference: rows and columns are pairs of an outer and an inner index, and the inner
  ones are swapped.
\<close>

definition inner_swapped :: "nat \<Rightarrow> 'a list list \<Rightarrow> 'a list list" where
  "inner_swapped M mat =
     map (\<lambda>r. map (\<lambda>c. mat ! (M * (r div M) + c mod M) ! (M * (c div M) + r mod M)) [0..<M * M]) [0..<M * M]"

definition square :: "nat \<Rightarrow> 'a list list \<Rightarrow> bool" where
  "square K mat \<longleftrightarrow> length mat = K \<and> (\<forall>row \<in> set mat. length row = K)"

lemma upt_blocks:
  "concat (map (\<lambda>k. map (\<lambda>b. f (M * k + b)) [0..<M]) [0..<N]) = map f [0..<M * N]"
proof (induction N)
  case (Suc N)
  have "[0..<M * Suc N] = [0..<M * N] @ [M * N..<M * N + M]"
    using upt_add_eq_append [of 0 "M * N" M] by (simp add: add.commute)
  moreover have "map (\<lambda>b. f (M * N + b)) [0..<M] = map f [M * N..<M * N + M]"
    by (intro nth_equalityI) simp_all
  ultimately show ?case using Suc by simp
qed simp

lemma transposed_block:
  assumes "square (M * M) mat" and "j < M" and "k < M"
  shows "transpose (submatrix (M * j) (M * (j + 1)) (M * k) (M * (k + 1)) mat)
     = map (\<lambda>a. map (\<lambda>b. mat ! (M * j + b) ! (M * k + a)) [0..<M]) [0..<M]"
proof -
  have le: "M * j + M \<le> M * M" "M * k + M \<le> M * M" using assms(2,3) by (metis Suc_leI mult_Suc_right add.commute mult_le_mono2)+
  let ?B = "submatrix (M * j) (M * (j + 1)) (M * k) (M * (k + 1)) mat"
  have len: "length ?B = M" using assms(1) le by (simp add: submatrix_def square_def)
  have row: "?B ! b = take M (drop (M * k) (mat ! (M * j + b)))" if "b < M" for b
  proof -
    have "M * j \<le> length mat" using add_leD1 [OF le(1)] assms(1) unfolding square_def by metis
    then show ?thesis using that le assms(1) by (simp add: submatrix_def square_def nth_drop)
  qed
  have wid: "length (?B ! b) = M" if "b < M" for b
    using that le assms(1) row [OF that] by (simp add: square_def)
  have ent: "?B ! b ! a = mat ! (M * j + b) ! (M * k + a)" if "a < M" "b < M" for a b
  proof -
    have "length (mat ! (M * j + b)) = M * M" using that le assms(1) by (simp add: square_def)
    then show ?thesis unfolding row [OF that(2)] using that(1) add_leD1 [OF le(2)] by (simp only: nth_take nth_drop)
  qed
  have nil: "M = 0" if "?B = []" using len that by simp
  have wid': "length (?B ! b) = M" if "b < length ?B" for b using wid that unfolding len .
  from transpose_rectangle [OF nil wid']
  have "transpose ?B = map (\<lambda>a. map (\<lambda>b. ?B ! b ! a) [0..<length ?B]) [0..<M]" by blast
  also have "\<dots> = map (\<lambda>a. map (\<lambda>b. mat ! (M * j + b) ! (M * k + a)) [0..<M]) [0..<M]"
    unfolding len by (intro map_cong refl ent) simp_all
  finally show ?thesis .
qed

lemma div_mod_block: "b < M \<Longrightarrow> (M * k + b) div M = k \<and> (M * k + b) mod M = (b :: nat)"
  by simp

lemma concat_blocks:
  "concat (map (\<lambda>k. map (\<lambda>b. g k b) [0..<M]) [0..<N]) = map (\<lambda>c. g (c div M) (c mod M)) [0..<M * N]"
proof -
  have "map (\<lambda>b. g k b) [0..<M] = map (\<lambda>b. g ((M * k + b) div M) ((M * k + b) mod M)) [0..<M]" for k
    using div_mod_block by (intro map_cong) auto
  then show ?thesis using upt_blocks [of "\<lambda>c. g (c div M) (c mod M)" M N] by (simp only:)
qed

lemma block_row_of:
  assumes "N > 0"
  shows "block_row (map (\<lambda>k. map (\<lambda>a. map (\<lambda>b. g k a b) [0..<M]) [0..<M]) [0..<N])
     = Inr (map (\<lambda>a. map (\<lambda>c. g (c div M) a (c mod M)) [0..<M * N]) [0..<M])"
proof -
  have hd: "length (hd (map (\<lambda>k. map (\<lambda>a. map (\<lambda>b. g k a b) [0..<M]) [0..<M]) [0..<N])) = M"
    using assms by (simp add: hd_map)
  have "concat (map (\<lambda>x. x ! a) (map (\<lambda>k. map (\<lambda>a. map (\<lambda>b. g k a b) [0..<M]) [0..<M]) [0..<N]))
      = map (\<lambda>c. g (c div M) a (c mod M)) [0..<M * N]" if "a < M" for a
    using that concat_blocks [of "\<lambda>k b. g k a b"] by (simp add: comp_def)
  then show ?thesis by (simp add: block_row_def hd cong: map_cong)
qed

lemma forE_rows:
  assumes "\<And>x. x \<in> set xs \<Longrightarrow> block_row (F x) = Inr (G x)"
  shows "forE (\<lambda>bs done. bindE (block_row bs) (\<lambda>r. Inr (done @ r))) (map F xs) d = Inr (d @ concat (map G xs))"
  using assms by (induction xs arbitrary: d) simp_all

lemma np_block_of:
  assumes "N > 0"
  shows "np_block (map (\<lambda>j. map (\<lambda>k. map (\<lambda>a. map (\<lambda>b. f j k a b) [0..<M]) [0..<M]) [0..<N]) [0..<N])
     = Inr (map (\<lambda>r. map (\<lambda>c. f (r div M) (c div M) (r mod M) (c mod M)) [0..<M * N]) [0..<M * N])"
proof -
  let ?G = "\<lambda>j. map (\<lambda>a. map (\<lambda>c. f j (c div M) a (c mod M)) [0..<M * N]) [0..<M]"
  have c: "concat (map ?G [0..<N]) = map (\<lambda>r. map (\<lambda>c. f (r div M) (c div M) (r mod M) (c mod M)) [0..<M * N]) [0..<M * N]"
    by (rule concat_blocks)
  have w: "length row = length (hd mat)" if "\<forall>r \<in> set mat. length r = n" "row \<in> set mat" for mat :: "'a list list" and row n
    using that by (cases mat) auto
  have "\<forall>r \<in> set (concat (map ?G [0..<N])). length r = length (hd (concat (map ?G [0..<N])))"
    by (intro ballI w [where n = "M * N"]) auto
  then have "np_block (map (\<lambda>j. map (\<lambda>k. map (\<lambda>a. map (\<lambda>b. f j k a b) [0..<M]) [0..<M]) [0..<N]) [0..<N])
      = Inr (concat (map ?G [0..<N]))"
    unfolding np_block_def using forE_rows [where F = "\<lambda>j. map (\<lambda>k. map (\<lambda>a. map (\<lambda>b. f j k a b) [0..<M]) [0..<M]) [0..<N]"
        and G = ?G and xs = "[0..<N]" and d = "[]", OF block_row_of [OF assms]] by simp
  then show ?thesis unfolding c .
qed

text \<open>The transpose of a matrix of \<open>M\<close> times \<open>M\<close> blocks of size \<open>M\<close>.\<close>

lemma partial_transpose_is:
  assumes "square (M * M) mat" and "M > 0" and "M = base ^ e" and "int_log (M * M) base = 2 * e"
  shows "partial_transpose int_log mat base None = Inr (inner_swapped M mat)"
proof -
  have len: "length mat = M * M" "matrix_cols mat = M * M"
    using assms(1,2) by (auto simp: square_def matrix_cols_def split: list.split)
  have pow: "base ^ (2 * e) = M * M" by (simp add: assms(3) mult_2 power_add)
  have half: "2 * e div 2 = e" by simp
  have blocks: "map (\<lambda>j. map (\<lambda>k. transpose (submatrix (M * j) (M * (j + 1)) (M * k) (M * (k + 1)) mat)) [0..<M]) [0..<M]
      = map (\<lambda>j. map (\<lambda>k. map (\<lambda>a. map (\<lambda>b. mat ! (M * j + b) ! (M * k + a)) [0..<M]) [0..<M]) [0..<M]) [0..<M]"
    using transposed_block [OF assms(1)] by (intro map_cong refl) auto
  have "partial_transpose int_log mat base None
      = np_block (map (\<lambda>j. map (\<lambda>k. transpose (submatrix (M * j) (M * (j + 1)) (M * k) (M * (k + 1)) mat)) [0..<M]) [0..<M])"
    by (simp add: partial_transpose_def Let_def len assms(4) pow half assms(3) [symmetric])
  also have "\<dots> = Inr (inner_swapped M mat)"
    unfolding blocks np_block_of [OF assms(2)] inner_swapped_def by simp
  finally show ?thesis .
qed

lemma inner_swapped_square: "square (M * M) (inner_swapped M mat)"
  by (auto simp: square_def inner_swapped_def)

lemma inner_swapped_nth:
  "r < M * M \<Longrightarrow> c < M * M \<Longrightarrow> inner_swapped M mat ! r ! c = mat ! (M * (r div M) + c mod M) ! (M * (c div M) + r mod M)"
  by (simp add: inner_swapped_def)

lemma block_index:
  assumes "r < M * M"
  shows "M * (r div M) + c mod M < M * (M :: nat)"
proof -
  have "M > 0" using assms by (cases M) auto
  then have "r div M < M" "c mod M < M" using assms by (simp_all add: less_mult_imp_div_less)
  then have "M * (r div M) + c mod M < M * (r div M) + M" "M * (r div M) + M \<le> M * M"
    by (simp, metis Suc_leI mult_Suc_right add.commute mult_le_mono2)
  then show ?thesis by simp
qed

lemma inner_swapped_twice:
  assumes "square (M * M) mat"
  shows "inner_swapped M (inner_swapped M mat) = mat"
proof (rule nth_equalityI)
  show "length (inner_swapped M (inner_swapped M mat)) = length mat" using assms by (simp add: inner_swapped_def square_def)
  fix r assume "r < length (inner_swapped M (inner_swapped M mat))"
  then have r: "r < M * M" by (simp add: inner_swapped_def)
  show "inner_swapped M (inner_swapped M mat) ! r = mat ! r"
  proof (rule nth_equalityI)
    have len: "length (mat ! r) = M * M" using assms r by (simp add: square_def)
    then show "length (inner_swapped M (inner_swapped M mat) ! r) = length (mat ! r)" using r by (simp add: inner_swapped_def)
    fix c assume "c < length (inner_swapped M (inner_swapped M mat) ! r)"
    then have c: "c < M * M" using r by (simp add: inner_swapped_def)
    have "M > 0" using r by (cases M) auto
    then show "inner_swapped M (inner_swapped M mat) ! r ! c = mat ! r ! c"
      using r c block_index [OF r, of c] block_index [OF c, of r] by (simp add: inner_swapped_nth)
  qed
qed

text \<open>
  C39: The partial transpose of a density matrix of two equal halves exchanges the inner
  indices of every entry, and doing it twice gives the matrix back; with the size of the
  second half given the function raises.
\<close>

theorem partial_transpose_swaps:
  assumes "square (base ^ e * base ^ e) mat" and "base > 0" and "int_log (base ^ e * base ^ e) base = 2 * e"
  shows "partial_transpose int_log mat base None = Inr (inner_swapped (base ^ e) mat)
     \<and> partial_transpose int_log (inner_swapped (base ^ e) mat) base None = Inr mat
     \<and> partial_transpose int_log mat base (Some s) = Inl UnboundLocalError"
proof (intro conjI)
  have M: "base ^ e > 0" using assms(2) by simp
  show "partial_transpose int_log mat base None = Inr (inner_swapped (base ^ e) mat)"
    using assms(1,3) M by (intro partial_transpose_is) auto
  show "partial_transpose int_log (inner_swapped (base ^ e) mat) base None = Inr mat"
    using partial_transpose_is [of "base ^ e" "inner_swapped (base ^ e) mat" base e int_log] assms(3) M
    by (simp only: inner_swapped_twice [OF assms(1)] inner_swapped_square)
  have "base ^ (2 * e) = base ^ e * base ^ e" by (simp add: mult_2 power_add)
  moreover have "matrix_cols mat = base ^ e * base ^ e"
    using assms(1) M by (auto simp: square_def matrix_cols_def split: list.split)
  ultimately show "partial_transpose int_log mat base (Some s) = Inl UnboundLocalError"
    using assms(1,3) by (simp add: partial_transpose_def Let_def square_def)
qed

theorem partial_transpose_swaps_witness:
  "partial_transpose (\<lambda>n d. 2) [[0, 1, 2, 3], [4, 5, 6, 7], [8, 9, 10, 11], [12, 13, 14, 15 :: int]] 2 None
     = Inr [[0, 4, 2, 6], [1, 5, 3, 7], [8, 12, 10, 14], [9, 13, 11, 15]]"
proof -
  have "square (2 ^ 1 * 2 ^ 1) [[0, 1, 2, 3], [4, 5, 6, 7], [8, 9, 10, 11], [12, 13, 14, 15 :: int]]"
    by (simp add: square_def)
  from partial_transpose_swaps [OF this, of "\<lambda>n d. 2"]
  have "partial_transpose (\<lambda>n d. 2) [[0, 1, 2, 3], [4, 5, 6, 7], [8, 9, 10, 11], [12, 13, 14, 15 :: int]] 2 None
     = Inr (inner_swapped 2 [[0, 1, 2, 3], [4, 5, 6, 7], [8, 9, 10, 11], [12, 13, 14, 15]])" by simp
  moreover have "inner_swapped 2 [[0, 1, 2, 3], [4, 5, 6, 7], [8, 9, 10, 11], [12, 13, 14, 15 :: int]]
     = [[0, 4, 2, 6], [1, 5, 3, 7], [8, 12, 10, 14], [9, 13, 11, 15]]" by code_simp
  ultimately show ?thesis by simp
qed

text \<open>A decision is always made for at most two qubits with a density matrix of the right size, and for pure states.\<close>

lemma entanglement_decided:
  assumes "qs_num_qubits st \<le> 2 \<or> is_dm_pure matrix_rank (qs_dm st)"
  shows "is_state_entangled int_log eigvals nonneg matrix_rank st \<noteq> Inr None"
  using assms by (auto simp: is_state_entangled_def result_simps)

lemma entanglement_open:
  assumes "qs_num_qubits st > 2" and "\<not> is_dm_pure matrix_rank (qs_dm st)"
  shows "is_state_entangled int_log eigvals nonneg matrix_rank st = Inr None"
  using assms by (simp add: is_state_entangled_def)

text \<open>A product of pure states is not entangled, and a pure state with a mixed part is.\<close>

lemma pure_state_entangled_iff:
  "is_pure_state_entangled matrix_rank st \<longleftrightarrow> (\<exists>dm \<in> set (qs_reduced st). matrix_rank dm \<noteq> 1)"
proof -
  have "some_mixed matrix_rank dms \<longleftrightarrow> (\<exists>dm \<in> set dms. matrix_rank dm \<noteq> 1)" for dms
    by (induction dms) (simp_all add: is_dm_pure_def)
  then show ?thesis by (simp add: is_pure_state_entangled_def)
qed

end
