(* ===== verification/CSocket.thy ===== *)
theory CSocket
  imports AnyOrder
begin

text \<open>
  The classical sockets of \<open>squidasm/sim/stack/csocket.py\<close> as the programs on the stack use them,
  and the conversions \<open>send_float\<close> and \<open>recv_float\<close> of the routines.  How Python prints and
  reads a floating-point number is a parameter; structured messages, which are objects, are
  not modelled.
\<close>

record float_io =
  str_of_float :: "real \<Rightarrow> string"
  float_of_str :: "string \<Rightarrow> real result"

text \<open>
  What the programs rely on: the numbers in \<open>V\<close> are read back as printed, and so is a bit
  printed as an integer.
\<close>

definition float_roundtrip :: "float_io \<Rightarrow> real set \<Rightarrow> bool" where
  "float_roundtrip io V \<longleftrightarrow> (\<forall>v \<in> V. float_of_str io (str_of_float io v) = Inr v)
     \<and> (\<forall>m \<in> {0, 1}. float_of_str io (py_str m) = Inr (real_of_int m))"

section \<open>Methods of a socket\<close>

definition csock_send :: "string \<Rightarrow> string \<Rightarrow> 'a routine \<Rightarrow> 'a routine" where
  "csock_send peer msg k = SendMsg peer msg k"

definition csock_recv :: "string \<Rightarrow> (string \<Rightarrow> 'a routine) \<Rightarrow> 'a routine" where
  "csock_recv peer k = RecvMsg peer k"

definition csock_send_int :: "string \<Rightarrow> int \<Rightarrow> 'a routine \<Rightarrow> 'a routine" where
  "csock_send_int peer v k = csock_send peer (py_str v) k"

definition csock_recv_int :: "string \<Rightarrow> (int \<Rightarrow> 'a routine) \<Rightarrow> 'a routine" where
  "csock_recv_int peer k = csock_recv peer (\<lambda>v. orFail (py_int v) k)"

definition csock_send_float :: "float_io \<Rightarrow> string \<Rightarrow> real \<Rightarrow> 'a routine \<Rightarrow> 'a routine" where
  "csock_send_float io peer v k = csock_send peer (str_of_float io v) k"

definition csock_recv_float :: "float_io \<Rightarrow> string \<Rightarrow> (real \<Rightarrow> 'a routine) \<Rightarrow> 'a routine" where
  "csock_recv_float io peer k = csock_recv peer (\<lambda>v. orFail (float_of_str io v) k)"

definition csock_recv_silent :: "'a routine" where
  "csock_recv_silent = Failed NotImplementedError"

definition csock_send_silent :: "string \<Rightarrow> 'a routine" where
  "csock_send_silent msg = Failed NotImplementedError"

text \<open>The routines of the same purpose, which are given the socket.\<close>

definition send_float :: "float_io \<Rightarrow> string \<Rightarrow> real \<Rightarrow> 'a routine \<Rightarrow> 'a routine" where
  "send_float io peer phi k = SendMsg peer (str_of_float io phi) k"

definition recv_float :: "float_io \<Rightarrow> string \<Rightarrow> (real \<Rightarrow> 'a routine) \<Rightarrow> 'a routine" where
  "recv_float io peer k = RecvMsg peer (\<lambda>val. orFail (float_of_str io val) k)"

lemmas socket_defs = csock_send_def csock_recv_def csock_send_int_def csock_recv_int_def csock_send_float_def
  csock_recv_float_def send_float_def recv_float_def send_int_def recv_int_def

lemma orFail_simps: "orFail (Inr x) k = k x" "orFail (Inl e) k = Failed e"
  by (simp_all add: orFail_def)

end
