(* ===== verification/ChshGame.thy ===== *)
theory ChshGame
  imports CSocket Schedules
begin

text \<open>
  The CHSH game of \<open>examples/applications/chsh_game/example_chsh_game.py\<close>: Alice and Bob measure
  the halves of one pair in bases chosen by their inputs.
\<close>

definition game_won :: "int \<Rightarrow> int \<Rightarrow> int \<Rightarrow> int \<Rightarrow> string" where
  "game_won x y a b =
     (if x = 1 \<and> y = 1 then
        if a \<noteq> b then ''Alice and Bob won the game, since x * y = 1 and a ^ b = 1''
        else ''Alice and Bob lost the game, since x * y = 1 and a ^ b = 0''
      else
        if a = b then ''Alice and Bob won the game, since x * y = 0 and a ^ b = 0''
        else ''Alice and Bob lost the game, since x * y = 0 and a ^ b = 1'')"

text \<open>The methods that queue Alice's and Bob's measurements.\<close>

definition alice_measure_basis_0 :: "int \<Rightarrow> sdk_command list" where
  "alice_measure_basis_0 q = [DoMeas q]"

definition alice_measure_basis_1 :: "int \<Rightarrow> sdk_command list" where
  "alice_measure_basis_1 q = [DoH q, DoMeas q]"

definition bob_measure_basis_0 :: "int \<Rightarrow> sdk_command list" where
  "bob_measure_basis_0 q = [DoRotY (- pi / 4) q, DoMeas q]"

definition bob_measure_basis_1 :: "int \<Rightarrow> sdk_command list" where
  "bob_measure_basis_1 q = [DoRotY (pi / 4) q, DoMeas q]"

text \<open>
  Alice's program reads the variable \<open>x\<close> of the module it is in, not its own field: there has to
  be one, or it fails.
\<close>

definition chsh_alice_run :: "int option \<Rightarrow> program_context \<Rightarrow> int \<Rightarrow> routine_value routine" where
  "chsh_alice_run module_x ctx epr =
     (if ''Bob'' \<in> set (dict_keys (pc_epr_sockets ctx)) then
        flush [EprCreate ''Bob'' epr] (\<lambda>_.
          case module_x of None \<Rightarrow> Failed NameError
          | Some x \<Rightarrow> flush (if x = 0 then alice_measure_basis_0 epr else alice_measure_basis_1 epr) (\<lambda>ms.
              Returned (DictValue [(''x'', IntValue x), (''a'', IntValue (ms ! 0))])))
      else Failed KeyError)"

definition chsh_bob_run :: "int \<Rightarrow> program_context \<Rightarrow> int \<Rightarrow> routine_value routine" where
  "chsh_bob_run y ctx epr =
     (if ''Alice'' \<in> set (dict_keys (pc_epr_sockets ctx)) then
        flush [EprRecv ''Alice'' epr] (\<lambda>_.
          flush (if y = 0 then bob_measure_basis_0 epr else bob_measure_basis_1 epr) (\<lambda>ms.
            Returned (DictValue [(''y'', IntValue y), (''b'', IntValue (ms ! 0))])))
      else Failed KeyError)"

definition chsh_net :: "int option \<Rightarrow> int \<Rightarrow> program_context \<Rightarrow> program_context \<Rightarrow> int \<Rightarrow> int \<Rightarrow> qstate \<Rightarrow> routine_value qnet" where
  "chsh_net module_x y ca cb qa qb psi =
     net2 ''Alice'' ''Bob'' (chsh_alice_run module_x ca qa) (chsh_bob_run y cb qb) [] [] psi"

section \<open>One schedule\<close>

lemmas chsh_defs = chsh_alice_run_def chsh_bob_run_def alice_measure_basis_0_def alice_measure_basis_1_def
  bob_measure_basis_0_def bob_measure_basis_1_def flush_def

lemma chsh_owned:
  assumes "qa \<noteq> qb"
  shows "owned ((\<lambda>_. {})(''Alice'' := {qa}, ''Bob'' := {qb})) (chsh_net mx y ca cb qa qb psi)"
  unfolding chsh_net_def
  by (rule net2_owned) (use assms in \<open>auto simp: chsh_defs split: option.splits\<close>)

definition chsh_amps :: "int \<Rightarrow> int \<Rightarrow> int \<Rightarrow> int \<Rightarrow> int \<Rightarrow> int \<Rightarrow> qstate \<Rightarrow> qstate" where
  "chsh_amps x y qa qb a b psi =
     measured qb (b = 1) (apply1 (gate_RY (if y = 0 then - pi / 4 else pi / 4)) qb
       (measured qa (a = 1) ((if x = 0 then (\<lambda>v. v) else apply1 gate_H qa) (epr_pair qa qb psi))))"

definition chsh_done :: "int \<Rightarrow> int \<Rightarrow> int \<Rightarrow> int \<Rightarrow> qstate \<Rightarrow> routine_value qnet \<Rightarrow> bool" where
  "chsh_done x y qa qb psi net \<longleftrightarrow> (\<exists>a b. bit a \<and> bit b \<and> net = net2 ''Alice'' ''Bob''
     (Returned (DictValue [(''x'', IntValue x), (''a'', IntValue a)]))
     (Returned (DictValue [(''y'', IntValue y), (''b'', IntValue b)])) [] [] (chsh_amps x y qa qb a b psi))"

lemma chsh_plays:
  assumes "''Bob'' \<in> set (dict_keys (pc_epr_sockets ca))" and "''Alice'' \<in> set (dict_keys (pc_epr_sockets cb))"
  shows "plays (chsh_done x y qa qb psi) [''Alice'', ''Alice'', ''Alice'', ''Bob'', ''Bob''] (chsh_net (Some x) y ca cb qa qb psi)"
  using assms unfolding chsh_net_def
  by (cases "x = 0"; cases "y = 0")
    (simp_all add: chsh_defs net2_steps all_bits net2_over chsh_amps_def chsh_done_def cong: if_cong, blast+)

section \<open>The odds\<close>

text \<open>The amplitude of outcomes \<open>a\<close> and \<open>b\<close>: the pair's two terms, measured on either side.\<close>

definition chsh_coef :: "int \<Rightarrow> int \<Rightarrow> bool \<Rightarrow> bool \<Rightarrow> complex" where
  "chsh_coef x y a b = (\<Sum>v \<in> {False, True}. half_root * (if x = 0 then gate_I else gate_H) a v
     * gate_RY (if y = 0 then - pi / 4 else pi / 4) b v)"

lemma chsh_amps_eq:
  assumes "qa \<noteq> qb"
  shows "chsh_amps x y qa qb a b psi = (\<lambda>s. if s qa = (a = 1) \<and> s qb = (b = 1)
     then chsh_coef x y (a = 1) (b = 1) * psi (s(qa := False, qb := False)) else 0)"
proof
  fix s :: "int \<Rightarrow> bool"
  have u: "s(qb := v, qa := w, qb := u) = s(qa := w, qb := u)" "s(qb := v, qa := w) = s(qa := w, qb := v)" for u v w
    using assms by (auto simp: fun_eq_iff)
  show "chsh_amps x y qa qb a b psi s = (if s qa = (a = 1) \<and> s qb = (b = 1)
     then chsh_coef x y (a = 1) (b = 1) * psi (s(qa := False, qb := False)) else 0)"
    using assms by (cases "s qa"; cases "s qb"; cases "x = 0")
      (simp_all add: chsh_amps_def chsh_coef_def gate_defs u algebra_simps)
qed

definition won :: "string \<Rightarrow> bool" where
  "won msg \<longleftrightarrow> take 18 msg = ''Alice and Bob won ''"

lemma eighth_turn:
  "(cos (pi / 8))\<^sup>2 = (2 + sqrt 2) / 4" "(sin (pi / 8))\<^sup>2 = (2 - sqrt 2) / 4" "cos (pi / 8) * sin (pi / 8) = sqrt 2 / 4"
proof -
  have c: "cos (pi / 4) = 2 * (cos (pi / 8))\<^sup>2 - 1" using cos_double_cos [of "pi / 8"] by simp
  have s: "sin (pi / 4) = 2 * (sin (pi / 8) * cos (pi / 8))" using sin_double [of "pi / 8"] by simp
  show c2: "(cos (pi / 8))\<^sup>2 = (2 + sqrt 2) / 4" using c by (simp add: cos_45 field_simps)
  show "(sin (pi / 8))\<^sup>2 = (2 - sqrt 2) / 4" using c2 sin_cos_squared_add [of "pi / 8"] by argo
  show "cos (pi / 8) * sin (pi / 8) = sqrt 2 / 4" using s by (simp add: sin_45 field_simps)
qed

lemma eighth_turn_sums:
  "(cos (pi / 8) / 2 + sin (pi / 8) / 2)\<^sup>2 * 8 = 2 + sqrt 2" "(sin (pi / 8) / 2 + cos (pi / 8) / 2)\<^sup>2 * 8 = 2 + sqrt 2"
  "(- (sin (pi / 8) / 2) - cos (pi / 8) / 2)\<^sup>2 * 8 = 2 + sqrt 2"
  "(cos (pi / 8) / 2 - sin (pi / 8) / 2)\<^sup>2 * 8 = 2 - sqrt 2" "(sin (pi / 8) / 2 - cos (pi / 8) / 2)\<^sup>2 * 8 = 2 - sqrt 2"
proof -
  have e: "(u + w)\<^sup>2 * 8 = 8 * u\<^sup>2 + 8 * w\<^sup>2 + 16 * (u * w)" "(u - w)\<^sup>2 * 8 = 8 * u\<^sup>2 + 8 * w\<^sup>2 - 16 * (u * w)"
    "(- u - w)\<^sup>2 * 8 = 8 * u\<^sup>2 + 8 * w\<^sup>2 + 16 * (u * w)" for u w :: real
    by (simp_all add: power2_eq_square algebra_simps)
  have p: "sin (pi / 8) * cos (pi / 8) = sqrt 2 / 4" using eighth_turn(3) by (simp add: mult.commute)
  show "(cos (pi / 8) / 2 + sin (pi / 8) / 2)\<^sup>2 * 8 = 2 + sqrt 2" "(sin (pi / 8) / 2 + cos (pi / 8) / 2)\<^sup>2 * 8 = 2 + sqrt 2"
    "(- (sin (pi / 8) / 2) - cos (pi / 8) / 2)\<^sup>2 * 8 = 2 + sqrt 2"
    "(cos (pi / 8) / 2 - sin (pi / 8) / 2)\<^sup>2 * 8 = 2 - sqrt 2" "(sin (pi / 8) / 2 - cos (pi / 8) / 2)\<^sup>2 * 8 = 2 - sqrt 2"
    unfolding e by (simp_all add: power_divide eighth_turn p field_simps)
qed

lemma chsh_weight:
  assumes "bit x" and "bit y" and "bit a" and "bit b"
  shows "(cmod (chsh_coef x y (a = 1) (b = 1)))\<^sup>2
     = (if won (game_won x y a b) then (2 + sqrt 2) / 8 else (2 - sqrt 2) / 8)"
proof -
  have h: "half_root = complex_of_real (sqrt 2 / 2)" by (simp add: half_root_def)
  show ?thesis
    using assms unfolding bit_def
    apply (elim disjE)
    apply (simp_all add: chsh_coef_def gate_defs gate_RY_def game_won_def won_def h norm_mult power_mult_distrib
          eighth_turn power_divide flip: of_real_mult of_real_add of_real_minus of_real_diff)
    apply (simp_all add: cmod_power2 eighth_turn_sums)
    done
qed

text \<open>
  C29: the CHSH game.  For every input of the two players, every interleaving and every state
  of the other qubits, the run never blocks and ends within five actions with both players'
  dictionaries; the weight of each winning pair of outcomes is (2 + sqrt 2) / 8, and the
  two winning pairs together have the quantum bound (2 + sqrt 2) / 4, against 3 / 4 without
  entanglement.
\<close>

theorem chsh_game_value:
  assumes "''Bob'' \<in> set (dict_keys (pc_epr_sockets ca))" and "''Alice'' \<in> set (dict_keys (pc_epr_sockets cb))"
    and "qa \<noteq> qb" and "bit x" and "bit y" and "network_run (chsh_net (Some x) y ca cb qa qb psi) k net"
  shows "k \<le> 5 \<and> ((\<exists>p net'. party_step p 0 net = Some net')
     \<or> (\<exists>a b c. bit a \<and> bit b
         \<and> progs net ''Alice'' = Returned (DictValue [(''x'', IntValue x), (''a'', IntValue a)])
         \<and> progs net ''Bob'' = Returned (DictValue [(''y'', IntValue y), (''b'', IntValue b)])
         \<and> amps net = (\<lambda>s. if s qa = (a = 1) \<and> s qb = (b = 1) then c * psi (s(qa := False, qb := False)) else 0)
         \<and> (cmod c)\<^sup>2 = (if won (game_won x y a b) then (2 + sqrt 2) / 8 else (2 - sqrt 2) / 8)))
     \<and> card {(a, b). bit a \<and> bit b \<and> won (game_won x y a b)} = 2"
proof -
  have two: "card {(a, b). bit a \<and> bit b \<and> won (game_won x y a b)} = 2"
  proof -
    have "{(a, b). bit a \<and> bit b \<and> won (game_won x y a b)}
        = (if x = 1 \<and> y = 1 then {(0, 1), (1, 0)} else {(0, 0), (1, 1)})"
      by (auto simp: bit_def game_won_def won_def)
    then show ?thesis by simp
  qed
  from schedule_independence [OF chsh_plays [OF assms(1,2)] chsh_owned [OF assms(3)] assms(6)]
  have k: "k \<le> 5" "chsh_done x y qa qb psi net \<or> (\<exists>p net'. party_step p 0 net = Some net')" by simp_all
  from k(2) show ?thesis
  proof
    assume "chsh_done x y qa qb psi net"
    then obtain a b where ab: "bit a" "bit b" and net: "net = net2 ''Alice'' ''Bob''
        (Returned (DictValue [(''x'', IntValue x), (''a'', IntValue a)]))
        (Returned (DictValue [(''y'', IntValue y), (''b'', IntValue b)])) [] [] (chsh_amps x y qa qb a b psi)"
      unfolding chsh_done_def by blast
    show ?thesis
      using k(1) two ab chsh_weight [OF assms(4,5) ab] chsh_amps_eq [OF assms(3), of x y a b psi]
      by (auto simp: net net2_sel)
  qed (use k(1) two in blast)
qed

theorem chsh_game_value_witness:
  "\<exists>p net'. party_step p 0
     (chsh_net (Some 1) 1 (ex_program_context ''Bob'') (ex_program_context ''Alice'') 0 1 ex_amps) = Some net'"
proof -
  let ?net = "chsh_net (Some 1) 1 (ex_program_context ''Bob'') (ex_program_context ''Alice'') 0 1 ex_amps"
  have "network_run ?net 0 ?net" by (rule nr_refl)
  from chsh_game_value [OF _ _ _ _ _ this]
  have "(\<exists>p net'. party_step p 0 ?net = Some net')
      \<or> (\<exists>a. progs ?net ''Alice'' = Returned (DictValue [(''x'', IntValue 1), (''a'', IntValue a)]))"
    by (simp add: ex_program_context_def bit_def) blast
  moreover have "progs ?net ''Alice'' \<noteq> Returned v" for v
    by (simp add: chsh_net_def net2_sel chsh_defs ex_program_context_def)
  ultimately show ?thesis by blast
qed

end
