(* ===== verification/BlindStates.thy ===== *)
theory BlindStates
  imports CSocket Schedules
begin

text \<open>
  The states of blind quantum computation: two qubits prepared remotely, joined by a
  controlled phase and measured in two bases, and the weight of their outcomes.
\<close>

section \<open>Preparing, joining and measuring\<close>

text \<open>
  What one preparation and one measurement contribute when the server's qubit is \<open>v\<close>.
\<close>

definition phase_of :: "real \<Rightarrow> bool \<Rightarrow> bool \<Rightarrow> complex" where
  "phase_of a m v = (if v then (if m then - 1 else 1) * cis (a / 2) else cis (- a / 2))"

lemma prepared_eq:
  assumes "c \<noteq> q"
  shows "measured c p (apply1 gate_H c (apply1 (gate_RZ a) c (epr_pair c q psi)))
     = (\<lambda>s. if s c = p then phase_of a p (s q) / 2 * psi (s(c := False, q := False)) else 0)"
proof
  fix s :: "int \<Rightarrow> bool"
  have h: "half_root * (x * (half_root * y)) = x * y / 2" for x y
    using half_root_sq' [of "x * y"] by (simp only: mult.left_commute [of x] mult.assoc)
  have u: "s(c := u, c := False, q := False) = s(c := False, q := False)" for u by simp
  show "measured c p (apply1 gate_H c (apply1 (gate_RZ a) c (epr_pair c q psi))) s
     = (if s c = p then phase_of a p (s q) / 2 * psi (s(c := False, q := False)) else 0)"
    using assms by (cases "s q"; cases p)
      (simp_all add: measured_def apply1_def gate_H_def gate_RZ_def epr_pair_def phase_of_def h)
qed

lemma measured_XY_eq:
  "measured q m (apply1 gate_H q (apply1 (gate_RZ a) q psi))
     = (\<lambda>s. if s q = m then half_root * (phase_of a m False * psi (s(q := False)) + phase_of a m True * psi (s(q := True))) else 0)"
  by (auto simp: fun_eq_iff gate_defs gate_RZ_def phase_of_def algebra_simps)

lemma cphase_eq:
  assumes "q1 \<noteq> q2"
  shows "cphase q1 q2 psi = (\<lambda>s. (if s q1 \<and> s q2 then - 1 else 1) * psi s)"
proof
  fix s :: "int \<Rightarrow> bool"
  have "s(q2 := s q2) = s" by simp
  then show "cphase q1 q2 psi s = (if s q1 \<and> s q2 then - 1 else 1) * psi s"
    by (cases "s q1"; cases "s q2") (simp_all add: cphase_def controlled_def apply1_def gate_Z_def gate_I_def)
qed

text \<open>Measuring the half of a pair leaves the other half in the outcome.\<close>

lemma dummy_eq:
  assumes "c \<noteq> q"
  shows "measured c p (epr_pair c q psi)
     = (\<lambda>s. if s c = p then (if s q = p then half_root else 0) * psi (s(c := False, q := False)) else 0)"
  by (auto simp: fun_eq_iff measured_def epr_pair_def)

text \<open>
  The amplitude of outcomes \<open>m1\<close> and \<open>m2\<close> when the two qubits' amplitudes are \<open>g1\<close> and \<open>g2\<close>.
\<close>

definition graph_coef :: "(bool \<Rightarrow> complex) \<Rightarrow> (bool \<Rightarrow> complex) \<Rightarrow> real \<Rightarrow> real \<Rightarrow> bool \<Rightarrow> bool \<Rightarrow> complex" where
  "graph_coef g1 g2 delta1 delta2 m1 m2 = (1 / 2) *
     (\<Sum>u \<in> {False, True}. \<Sum>v \<in> {False, True}. (if u \<and> v then - 1 else 1)
        * (g1 u * phase_of delta1 m1 u) * (g2 v * phase_of delta2 m2 v))"

definition measured_graph :: "real \<Rightarrow> real \<Rightarrow> int \<Rightarrow> int \<Rightarrow> bool \<Rightarrow> bool \<Rightarrow> qstate \<Rightarrow> qstate" where
  "measured_graph delta1 delta2 q1 q2 m1 m2 psi = measured q2 m2 (apply1 gate_H q2 (apply1 (gate_RZ delta2) q2
     (measured q1 m1 (apply1 gate_H q1 (apply1 (gate_RZ delta1) q1 psi)))))"

lemma measured_graph_rest:
  assumes "q1 \<noteq> q2" and "phi = (\<lambda>s. g1 (s q1) * g2 (s q2) * chi (s(q1 := False, q2 := False)))"
  shows "measured_graph delta1 delta2 q1 q2 m1 m2 (cphase q1 q2 phi)
     = (\<lambda>s. if s q1 = m1 \<and> s q2 = m2 then graph_coef g1 g2 delta1 delta2 m1 m2 * chi (s(q1 := False, q2 := False)) else 0)"
proof
  fix s :: "int \<Rightarrow> bool"
  have w: "s(q2 := w, q1 := v, q2 := False) = s(q1 := v, q2 := False)" "s(q2 := w, q1 := v, q1 := False, q2 := False) = s(q1 := False, q2 := False)"
    for v w using assms(1) by (auto simp: fun_eq_iff)
  show "measured_graph delta1 delta2 q1 q2 m1 m2 (cphase q1 q2 phi) s
     = (if s q1 = m1 \<and> s q2 = m2 then graph_coef g1 g2 delta1 delta2 m1 m2 * chi (s(q1 := False, q2 := False)) else 0)"
    unfolding measured_graph_def cphase_eq [OF assms(1)] measured_XY_eq graph_coef_def assms(2)
    using assms(1) by (auto simp: w algebra_simps)
qed

text \<open>With the bits the client found on its side.\<close>

lemma measured_graph_eq:
  assumes "distinct [c1, c2, q1, q2]"
    and "phi = (\<lambda>s. if s c1 = p1 \<and> s c2 = p2
      then g1 (s q1) * g2 (s q2) * psi (s(c1 := False, c2 := False, q1 := False, q2 := False)) else 0)"
  shows "measured_graph delta1 delta2 q1 q2 m1 m2 (cphase q1 q2 phi)
     = (\<lambda>s. if s c1 = p1 \<and> s c2 = p2 \<and> s q1 = m1 \<and> s q2 = m2
         then graph_coef g1 g2 delta1 delta2 m1 m2 * psi (s(c1 := False, c2 := False, q1 := False, q2 := False)) else 0)"
proof -
  let ?chi = "\<lambda>s. if s c1 = p1 \<and> s c2 = p2 then psi (s(c1 := False, c2 := False)) else 0"
  have d: "q1 \<noteq> q2" "c1 \<noteq> q1" "c1 \<noteq> q2" "c2 \<noteq> q1" "c2 \<noteq> q2" using assms(1) by auto
  have u: "s(q1 := False, q2 := False, c1 := False, c2 := False) = s(c1 := False, c2 := False, q1 := False, q2 := False)"
    for s :: "int \<Rightarrow> bool" using assms(1) by (auto simp: fun_eq_iff)
  have "phi = (\<lambda>s. g1 (s q1) * g2 (s q2) * ?chi (s(q1 := False, q2 := False)))"
    unfolding assms(2) using d by (auto simp: u)
  from measured_graph_rest [OF d(1) this, of delta1 delta2 m1 m2] show ?thesis using d by (auto simp: u fun_eq_iff)
qed

lemma cphase_sym: "q1 \<noteq> q2 \<Longrightarrow> cphase q2 q1 psi = cphase q1 q2 psi"
  by (auto simp: cphase_eq fun_eq_iff)

section \<open>Weights\<close>

lemma cmod_graph:
  fixes s t :: real
  assumes "s\<^sup>2 = 1" and "t\<^sup>2 = 1"
  shows "(cmod (1 + of_real s * cis a + of_real t * cis b - of_real (s * t) * (cis a * cis b)))\<^sup>2 = 4 + 4 * (s * t) * (sin a * sin b)"
proof -
  have ring: "(1 + s * ca + t * cb - s * t * (ca * cb - sa * sb))\<^sup>2 + (s * sa + t * sb - s * t * (ca * sb + sa * cb))\<^sup>2
      = 4 + 4 * (s * t) * (sa * sb)" if "sa\<^sup>2 + ca\<^sup>2 = 1" "sb\<^sup>2 + cb\<^sup>2 = 1" for sa ca sb cb
    using assms that by algebra
  show ?thesis
    using ring [OF sin_cos_squared_add sin_cos_squared_add, of a b] by (simp add: cmod_power2)
qed

definition differ :: "bool \<Rightarrow> bool \<Rightarrow> real" where
  "differ p m = (if p = m then 1 else - 1)"

lemma phase_of_mult:
  "phase_of a p v * phase_of b m v = cis (- (a + b) / 2) * (if v then of_real (differ p m) * cis (a + b) else 1)"
proof -
  have "a / 2 + b / 2 = - (a + b) / 2 + (a + b)" "- a / 2 + - b / 2 = - (a + b) / 2" by (simp_all add: field_simps)
  then have c: "cis (a / 2) * cis (b / 2) = cis (- (a + b) / 2) * cis (a + b)"
    "cis (- a / 2) * cis (- b / 2) = cis (- (a + b) / 2)" by (simp_all only: cis_mult)
  show ?thesis
    by (cases v; cases p; cases m) (simp_all only: phase_of_def differ_def c if_True if_False of_real_1 of_real_minus
        mult_1 mult_minus1 mult_minus_left mult_minus_right minus_minus simp_thms mult_1_right)
qed

lemma graph_weight:
  "(cmod (graph_coef (\<lambda>v. phase_of theta1 p1 v / 2) (\<lambda>v. phase_of theta2 p2 v / 2) delta1 delta2 m1 m2))\<^sup>2
     = (1 + differ p1 m1 * differ p2 m2 * (sin (theta1 + delta1) * sin (theta2 + delta2))) / 16"
proof -
  let ?a = "theta1 + delta1" and ?b = "theta2 + delta2" and ?s = "differ p1 m1" and ?t = "differ p2 m2"
  let ?g = "1 + of_real ?s * cis ?a + of_real ?t * cis ?b - of_real (?s * ?t) * (cis ?a * cis ?b)"
  have h: "phase_of a p v / 2 * phase_of b m v = phase_of a p v * phase_of b m v / 2" for a p b m v by simp
  have c: "graph_coef (\<lambda>v. phase_of theta1 p1 v / 2) (\<lambda>v. phase_of theta2 p2 v / 2) delta1 delta2 m1 m2
      = (1 / 8) * (cis (- ?a / 2) * cis (- ?b / 2)) * ?g"
    unfolding graph_coef_def h phase_of_mult by (simp add: field_simps)
  have g: "cmod (graph_coef (\<lambda>v. phase_of theta1 p1 v / 2) (\<lambda>v. phase_of theta2 p2 v / 2) delta1 delta2 m1 m2)
      = cmod ?g / 8"
    unfolding c norm_mult norm_cis by simp
  have sq: "(cmod ?g)\<^sup>2 = 4 + 4 * (?s * ?t) * (sin ?a * sin ?b)"
    by (rule cmod_graph) (simp_all add: differ_def)
  show ?thesis unfolding g power_divide sq by simp
qed

lemma sin_shift: "sin (x + real_of_int n * pi) = (if even n then sin x else - sin x)"
  by (simp add: sin_add mult.commute [of _ pi] sin_npi_int cos_npi_int)

text \<open>
  The effective computation: \<open>H Rz(beta) H Rz(alpha)\<close> on \<open>|0> + |1>\<close>, the amplitude of
  outcome \<open>b\<close>.
\<close>

definition effective_amp :: "real \<Rightarrow> real \<Rightarrow> bool \<Rightarrow> complex" where
  "effective_amp alpha beta b = apply1 gate_H 0 (apply1 (gate_RZ beta) 0 (apply1 gate_H 0
     (apply1 (gate_RZ alpha) 0 (\<lambda>s. half_root)))) (\<lambda>_. b)"

lemma effective_weight:
  "(cmod (effective_amp alpha beta b))\<^sup>2 = (1 + differ b False * (sin alpha * sin beta)) / 2"
proof -
  have "effective_amp alpha beta b = 4 * half_root * graph_coef (\<lambda>v. phase_of alpha False v / 2) (\<lambda>v. phase_of beta b v / 2)
      0 0 False False"
    by (cases b) (simp_all add: effective_amp_def graph_coef_def apply1_def gate_H_def gate_RZ_def phase_of_def algebra_simps)
  moreover have "(cmod half_root)\<^sup>2 = 1 / 2" by (simp add: half_root_def power_divide)
  ultimately show ?thesis by (simp add: norm_mult power_mult_distrib graph_weight differ_def)
qed

text \<open>
  Angles that cancel the secrets: up to outcomes and the bits \<open>r1\<close>, \<open>r2\<close> the weights are
  those of the effective computation.
\<close>

lemma blind_weight:
  fixes p1 p2 m1 m2 r1 r2 :: int
  assumes "bit p1" and "bit p2" and "bit m1" and "bit m2"
    and "delta1 = alpha - theta1 + real_of_int (p1 + r1) * pi"
    and "delta2 = (if even (m1 + r1) then 1 else - 1) * beta - theta2 + real_of_int (p2 + r2) * pi"
  shows "(cmod (graph_coef (\<lambda>v. phase_of theta1 (p1 = 1) v / 2) (\<lambda>v. phase_of theta2 (p2 = 1) v / 2)
       delta1 delta2 (m1 = 1) (m2 = 1)))\<^sup>2
     = (cmod (effective_amp alpha beta (odd (m2 + r2))))\<^sup>2 / 8"
proof -
  have a: "theta1 + delta1 = alpha + real_of_int (p1 + r1) * pi"
    "theta2 + delta2 = (if even (m1 + r1) then 1 else - 1) * beta + real_of_int (p2 + r2) * pi"
    by (simp_all add: assms(5,6))
  have s: "sin ((if e then 1 else - 1) * x) = (if e then 1 else - 1) * sin x" for e and x :: real by simp
  show ?thesis
    unfolding graph_weight effective_weight a sin_shift s
    using assms(1-4) by (auto simp: bit_def differ_def)
qed

text \<open>A dummy in place of the second qubit flips the first, or not; so does one in place of the first.\<close>

lemma graph_coef_sym: "graph_coef g1 g2 delta1 delta2 m1 m2 = graph_coef g2 g1 delta2 delta1 m2 m1"
  by (simp add: graph_coef_def algebra_simps)

lemma cis_int_pi: "cis (real_of_int n * pi) = (if even n then 1 else - 1)"
  by (rule complex_eqI) (simp_all add: mult.commute [of _ pi] sin_npi_int cos_npi_int)

lemma dummy_weight:
  fixes p m d r :: int
  assumes "bit p" and "bit m" and "bit d" and "theta + delta1 = real_of_int (p + r) * pi"
  shows "(cmod (graph_coef (\<lambda>v. phase_of theta (p = 1) v / 2) (\<lambda>v. if v = (d = 1) then half_root else 0)
       delta1 delta2 (m = 1) m2))\<^sup>2 = (if even (d + m + r) then 1 / 8 else 0)"
proof -
  let ?a = "theta + delta1" and ?s = "differ (d = 1) False * differ (p = 1) (m = 1)"
  have h: "phase_of a q v / 2 * phase_of b n v = phase_of a q v * phase_of b n v / 2" for a q b n v by simp
  have g: "graph_coef (\<lambda>v. phase_of theta (p = 1) v / 2) (\<lambda>v. if v = (d = 1) then half_root else 0) delta1 delta2 (m = 1) m2
      = (1 / 4) * (half_root * phase_of delta2 m2 (d = 1)) * cis (- ?a / 2) * (1 + of_real ?s * cis ?a)"
    unfolding graph_coef_def h phase_of_mult
    by (cases "d = 1") (simp_all add: differ_def field_simps)
  have n: "cmod (phase_of delta2 m2 (d = 1)) = 1" by (simp add: phase_of_def norm_mult)
  have r: "(cmod half_root)\<^sup>2 = 1 / 2" by (simp add: half_root_def power_divide)
  show ?thesis
    unfolding g norm_mult norm_cis n power_mult_distrib r assms(4) cis_int_pi
    using assms(1-3) by (auto simp: bit_def differ_def power_divide)
qed

section \<open>An example printer\<close>

text \<open>Zero and pi are all the angles of a computation with no angles; a printer for them.\<close>

definition ex_float_io :: float_io where
  "ex_float_io = \<lparr>str_of_float = (\<lambda>v. if v = 0 then ''0.0'' else ''3.141592653589793''),
     float_of_str = (\<lambda>s. if s = ''0.0'' \<or> s = ''0'' then Inr 0 else if s = ''1'' then Inr 1
       else if s = ''3.141592653589793'' then Inr pi else Inl ValueError)\<rparr>"

lemma ex_float_reads:
  assumes "V \<subseteq> {0, pi}"
  shows "float_roundtrip ex_float_io V"
proof -
  have "py_str 0 = ''0''" "py_str 1 = ''1''" by code_simp+
  then show ?thesis using assms by (auto simp: float_roundtrip_def ex_float_io_def)
qed

end
