(* ===== verification/BlindQC.thy ===== *)
theory BlindQC
  imports BlindStates
begin

text \<open>
  Blind quantum computation, \<open>examples/applications/bqc/example_bqc.py\<close>: the client prepares two
  qubits on the server, hidden by random angles, and drives the server's measurements by
  angles that depend on their outcomes.
\<close>

section \<open>The programs\<close>

record bqc_params =
  bqc_alpha :: real
  bqc_beta :: real
  bqc_theta1 :: real
  bqc_theta2 :: real
  bqc_r1 :: int
  bqc_r2 :: int
  bqc_dummy :: int

text \<open>\<open>math.pow(-1, x)\<close>.\<close>

definition pow_minus_one :: "real \<Rightarrow> real result" where
  "pow_minus_one x = (if real_of_int \<lfloor>x\<rfloor> = x then Inr (if even \<lfloor>x\<rfloor> then 1 else - 1) else Inl ValueError)"

definition bqc_delta1 :: "bqc_params \<Rightarrow> int \<Rightarrow> real" where
  "bqc_delta1 P p1 = bqc_alpha P - bqc_theta1 P + real_of_int (p1 + bqc_r1 P) * pi"

definition bqc_delta2 :: "bqc_params \<Rightarrow> real \<Rightarrow> int \<Rightarrow> real" where
  "bqc_delta2 P sign p2 = sign * bqc_beta P - bqc_theta2 P + real_of_int (p2 + bqc_r2 P) * pi"

definition bqc_client_result :: "real \<Rightarrow> real \<Rightarrow> int \<Rightarrow> int \<Rightarrow> real \<Rightarrow> int \<Rightarrow> routine_value" where
  "bqc_client_result delta1 delta2 p1 p2 m1 m2 = DictValue
     [(''delta1'', FloatValue (delta1 / pi)), (''delta2'', FloatValue (delta2 / pi)),
      (''p1'', IntValue p1), (''p2'', IntValue p2), (''m1'', FloatValue m1), (''m2'', IntValue m2)]"

definition bqc_client_run :: "float_io \<Rightarrow> bqc_params \<Rightarrow> program_context \<Rightarrow> int \<Rightarrow> int \<Rightarrow> routine_value routine" where
  "bqc_client_run io P ctx c1 c2 =
     sockets_of ctx ''Server''
       (flush (remote_state_preparation ''Server'' c1 (bqc_theta1 P) @ remote_state_preparation ''Server'' c2 (bqc_theta2 P))
         (\<lambda>ms. send_float io ''Server'' (bqc_delta1 P (ms ! 0))
           (recv_float io ''Server'' (\<lambda>m1.
             orFail (pow_minus_one (m1 + real_of_int (bqc_r1 P))) (\<lambda>sign.
               send_float io ''Server'' (bqc_delta2 P sign (ms ! 1))
                 (recv_int ''Server'' (\<lambda>m2.
                   Returned (bqc_client_result (bqc_delta1 P (ms ! 0)) (bqc_delta2 P sign (ms ! 1)) (ms ! 0) (ms ! 1) m1 m2)))))))) "

text \<open>
  The server also looks its last qubit's density matrix up in the simulation and returns it;
  that does not act on the qubits and is left out.
\<close>

definition bqc_server_run :: "float_io \<Rightarrow> program_context \<Rightarrow> int \<Rightarrow> int \<Rightarrow> routine_value routine" where
  "bqc_server_run io ctx q1 q2 =
     sockets_of ctx ''Client''
       (flush (recv_remote_state_preparation ''Client'' q1 @ recv_remote_state_preparation ''Client'' q2 @ [DoCphase q1 q2])
         (\<lambda>_. recv_float io ''Client'' (\<lambda>angle.
           flush (measXY q1 angle) (\<lambda>ms. send_int ''Client'' (ms ! 0)
             (recv_float io ''Client'' (\<lambda>angle.
               flush [DoRotZ angle q2, DoH q2] (\<lambda>_. flush [DoMeas q2] (\<lambda>ms.
                 send_int ''Client'' (ms ! 0) (Returned NoValue)))))))))"

definition bqc_net ::
    "float_io \<Rightarrow> bqc_params \<Rightarrow> program_context \<Rightarrow> program_context \<Rightarrow> int \<Rightarrow> int \<Rightarrow> int \<Rightarrow> int \<Rightarrow> qstate \<Rightarrow> routine_value qnet" where
  "bqc_net io P cc cs c1 c2 q1 q2 psi =
     net2 ''Client'' ''Server'' (bqc_client_run io P cc c1 c2) (bqc_server_run io cs q1 q2) [] [] psi"

text \<open>The angles sent; the sign is that of the first outcome, corrected by \<open>r1\<close>.\<close>

definition bqc_sign :: "bqc_params \<Rightarrow> int \<Rightarrow> real" where
  "bqc_sign P m1 = (if even (m1 + bqc_r1 P) then 1 else - 1)"

definition bqc_angles :: "bqc_params \<Rightarrow> real set" where
  "bqc_angles P = bqc_delta1 P ` {0, 1} \<union> bqc_delta2 P 1 ` {0, 1} \<union> bqc_delta2 P (- 1) ` {0, 1}"

section \<open>One schedule\<close>

definition bqc_amps ::
    "real \<Rightarrow> real \<Rightarrow> real \<Rightarrow> real \<Rightarrow> int \<Rightarrow> int \<Rightarrow> int \<Rightarrow> int \<Rightarrow> int \<Rightarrow> int \<Rightarrow> int \<Rightarrow> int \<Rightarrow> qstate \<Rightarrow> qstate" where
  "bqc_amps theta1 theta2 delta1 delta2 c1 c2 q1 q2 p1 p2 m1 m2 psi =
     measured q2 (m2 = 1) (apply1 gate_H q2 (apply1 (gate_RZ delta2) q2
       (measured q1 (m1 = 1) (apply1 gate_H q1 (apply1 (gate_RZ delta1) q1 (cphase q1 q2
         (measured c2 (p2 = 1) (apply1 gate_H c2 (apply1 (gate_RZ theta2) c2 (epr_pair c2 q2
           (measured c1 (p1 = 1) (apply1 gate_H c1 (apply1 (gate_RZ theta1) c1 (epr_pair c1 q1 psi))))))))))))))"

definition bqc_done ::
    "bqc_params \<Rightarrow> int \<Rightarrow> int \<Rightarrow> int \<Rightarrow> int \<Rightarrow> qstate \<Rightarrow> routine_value qnet \<Rightarrow> bool" where
  "bqc_done P c1 c2 q1 q2 psi net \<longleftrightarrow> (\<exists>p1 p2 m1 m2. bit p1 \<and> bit p2 \<and> bit m1 \<and> bit m2
     \<and> net = net2 ''Client'' ''Server''
         (Returned (bqc_client_result (bqc_delta1 P p1) (bqc_delta2 P (bqc_sign P m1) p2) p1 p2 (real_of_int m1) m2))
         (Returned NoValue) [] []
         (bqc_amps (bqc_theta1 P) (bqc_theta2 P) (bqc_delta1 P p1) (bqc_delta2 P (bqc_sign P m1) p2)
           c1 c2 q1 q2 p1 p2 m1 m2 psi))"

definition bqc_schedule :: "string list" where
  "bqc_schedule = replicate 8 ''Client'' @ [''Server'', ''Client''] @ replicate 5 ''Server'' @ [''Client'', ''Client'']
     @ replicate 5 ''Server'' @ [''Client'']"

lemmas bqc_run_defs = bqc_client_run_def bqc_server_run_def remote_state_preparation_def
  recv_remote_state_preparation_def measXY_def sockets_of_def flush_def send_float_def recv_float_def
  send_int_def recv_int_def

lemma bqc_owned:
  assumes "distinct [c1, c2, q1, q2]"
  shows "owned ((\<lambda>_. {})(''Client'' := {c1, c2}, ''Server'' := {q1, q2})) (bqc_net io P cc cs c1 c2 q1 q2 psi)"
  unfolding bqc_net_def
  by (rule net2_owned) (use assms in \<open>auto simp: bqc_run_defs intro!: acts_on_orFail\<close>)

lemma read_bit: "float_roundtrip io V \<Longrightarrow> bit m \<Longrightarrow> float_of_str io (py_str m) = Inr (real_of_int m)"
  by (auto simp: float_roundtrip_def bit_def)

lemma read_angles:
  assumes "float_roundtrip io (bqc_angles P)" and "bit p"
  shows "float_of_str io (str_of_float io (bqc_delta1 P p)) = Inr (bqc_delta1 P p)"
    "float_of_str io (str_of_float io (bqc_delta2 P (bqc_sign P m) p)) = Inr (bqc_delta2 P (bqc_sign P m) p)"
  using assms by (auto simp: float_roundtrip_def bit_def bqc_angles_def bqc_sign_def)

lemma pow_minus_one_int: "pow_minus_one (real_of_int m + real_of_int (bqc_r1 P)) = Inr (bqc_sign P m)"
  by (simp add: pow_minus_one_def bqc_sign_def flip: of_int_add)

lemma bqc_plays:
  assumes "has_sockets cc ''Server''" and "has_sockets cs ''Client''" and "float_roundtrip io (bqc_angles P)"
  shows "plays (bqc_done P c1 c2 q1 q2 psi) bqc_schedule (bqc_net io P cc cs c1 c2 q1 q2 psi)"
proof -
  note [simp] = read_bit [OF assms(3)] read_angles [OF assms(3)] pow_minus_one_int orFail_simps
  show ?thesis
    using assms(1,2) unfolding bqc_net_def bqc_schedule_def has_sockets_def
    by (simp add: bqc_run_defs net2_steps all_bits net2_over eval_nat_numeral cong: play_congs)
      (simp add: bqc_done_def bqc_amps_def, blast)
qed

section \<open>The amplitudes\<close>

definition bqc_coef :: "bqc_params \<Rightarrow> int \<Rightarrow> int \<Rightarrow> int \<Rightarrow> int \<Rightarrow> complex" where
  "bqc_coef P p1 p2 m1 m2 = graph_coef (\<lambda>v. phase_of (bqc_theta1 P) (p1 = 1) v / 2) (\<lambda>v. phase_of (bqc_theta2 P) (p2 = 1) v / 2)
     (bqc_delta1 P p1) (bqc_delta2 P (bqc_sign P m1) p2) (m1 = 1) (m2 = 1)"

lemma bqc_amps_eq:
  assumes "distinct [c1, c2, q1, q2]"
  shows "bqc_amps (bqc_theta1 P) (bqc_theta2 P) (bqc_delta1 P p1) (bqc_delta2 P (bqc_sign P m1) p2) c1 c2 q1 q2 p1 p2 m1 m2 psi
     = (\<lambda>s. if s c1 = (p1 = 1) \<and> s c2 = (p2 = 1) \<and> s q1 = (m1 = 1) \<and> s q2 = (m2 = 1)
         then bqc_coef P p1 p2 m1 m2 * psi (s(c1 := False, c2 := False, q1 := False, q2 := False)) else 0)"
  unfolding bqc_amps_def measured_graph_def [symmetric] bqc_coef_def
proof (rule measured_graph_eq [OF assms])
  have d: "c1 \<noteq> q1" "c2 \<noteq> q2" "c1 \<noteq> c2" "c1 \<noteq> q2" "q1 \<noteq> c2" "q1 \<noteq> q2" using assms by auto
  have u: "s(c2 := False, q2 := False, c1 := False, q1 := False) = s(c1 := False, c2 := False, q1 := False, q2 := False)"
    for s :: "int \<Rightarrow> bool" using assms by (auto simp: fun_eq_iff)
  show "measured c2 (p2 = 1) (apply1 gate_H c2 (apply1 (gate_RZ (bqc_theta2 P)) c2 (epr_pair c2 q2
        (measured c1 (p1 = 1) (apply1 gate_H c1 (apply1 (gate_RZ (bqc_theta1 P)) c1 (epr_pair c1 q1 psi)))))))
     = (\<lambda>s. if s c1 = (p1 = 1) \<and> s c2 = (p2 = 1)
         then phase_of (bqc_theta1 P) (p1 = 1) (s q1) / 2 * (phase_of (bqc_theta2 P) (p2 = 1) (s q2) / 2)
           * psi (s(c1 := False, c2 := False, q1 := False, q2 := False)) else 0)"
    unfolding prepared_eq [OF d(1)] prepared_eq [OF d(2)] using d by (auto simp: fun_eq_iff u)
qed

lemma bqc_weight:
  assumes "bit p1" and "bit p2" and "bit m1" and "bit m2"
  shows "(cmod (bqc_coef P p1 p2 m1 m2))\<^sup>2 = (cmod (effective_amp (bqc_alpha P) (bqc_beta P) (odd (m2 + bqc_r2 P))))\<^sup>2 / 8"
  unfolding bqc_coef_def by (rule blind_weight [OF assms]) (simp_all only: bqc_delta1_def bqc_delta2_def bqc_sign_def)

section \<open>Blind computation\<close>

text \<open>
  C26: blind quantum computation.  However the client and the server are interleaved, the run
  never blocks and ends within 23 actions; the client gets the angles it sent and all
  outcomes.  Whatever the random angles, \<open>r1\<close>, \<open>r2\<close>, the outcomes of the preparation and the
  first measurement, each of which is uniformly random, the last outcome, flipped by \<open>r2\<close>, has
  the distribution of the effective computation.
\<close>

theorem blind_computation:
  assumes "has_sockets cc ''Server''" and "has_sockets cs ''Client''" and "float_roundtrip io (bqc_angles P)"
    and "distinct [c1, c2, q1, q2]" and "network_run (bqc_net io P cc cs c1 c2 q1 q2 psi) k net"
  shows "k \<le> 23 \<and> ((\<exists>p net'. party_step p 0 net = Some net')
     \<or> (\<exists>p1 p2 m1 m2 c. bit p1 \<and> bit p2 \<and> bit m1 \<and> bit m2
         \<and> progs net ''Client'' = Returned (bqc_client_result (bqc_delta1 P p1) (bqc_delta2 P (bqc_sign P m1) p2)
             p1 p2 (real_of_int m1) m2)
         \<and> progs net ''Server'' = Returned NoValue
         \<and> amps net = (\<lambda>s. if s c1 = (p1 = 1) \<and> s c2 = (p2 = 1) \<and> s q1 = (m1 = 1) \<and> s q2 = (m2 = 1)
             then c * psi (s(c1 := False, c2 := False, q1 := False, q2 := False)) else 0)
         \<and> (cmod c)\<^sup>2 = (cmod (effective_amp (bqc_alpha P) (bqc_beta P) (odd (m2 + bqc_r2 P))))\<^sup>2 / 8))"
proof -
  have l: "length bqc_schedule = 23" by (simp add: bqc_schedule_def)
  from schedule_independence [OF bqc_plays [OF assms(1-3)] bqc_owned [OF assms(4)] assms(5)]
  have k: "k \<le> 23" "bqc_done P c1 c2 q1 q2 psi net \<or> (\<exists>p net'. party_step p 0 net = Some net')" unfolding l by simp_all
  from k(2) show ?thesis
  proof
    assume "bqc_done P c1 c2 q1 q2 psi net"
    then obtain p1 p2 m1 m2 where b: "bit p1" "bit p2" "bit m1" "bit m2" and net: "net = net2 ''Client'' ''Server''
        (Returned (bqc_client_result (bqc_delta1 P p1) (bqc_delta2 P (bqc_sign P m1) p2) p1 p2 (real_of_int m1) m2))
        (Returned NoValue) [] []
        (bqc_amps (bqc_theta1 P) (bqc_theta2 P) (bqc_delta1 P p1) (bqc_delta2 P (bqc_sign P m1) p2)
           c1 c2 q1 q2 p1 p2 m1 m2 psi)"
      unfolding bqc_done_def by blast
    have n: "''Client'' \<noteq> ''Server''" by simp
    note sel = net2_sel [OF n, of _ _ "[]" "[]"]
    have "amps net = (\<lambda>s. if s c1 = (p1 = 1) \<and> s c2 = (p2 = 1) \<and> s q1 = (m1 = 1) \<and> s q2 = (m2 = 1)
        then bqc_coef P p1 p2 m1 m2 * psi (s(c1 := False, c2 := False, q1 := False, q2 := False)) else 0)"
      unfolding net sel by (rule bqc_amps_eq [OF assms(4)])
    moreover have "progs net ''Client'' = Returned (bqc_client_result (bqc_delta1 P p1) (bqc_delta2 P (bqc_sign P m1) p2)
            p1 p2 (real_of_int m1) m2)" "progs net ''Server'' = Returned NoValue"
      unfolding net sel by simp_all
    ultimately show ?thesis using k(1) b bqc_weight [OF b, of P] by blast
  qed (use k(1) in blast)
qed

definition ex_bqc_params :: bqc_params where
  "ex_bqc_params = \<lparr>bqc_alpha = 0, bqc_beta = 0, bqc_theta1 = 0, bqc_theta2 = 0, bqc_r1 = 0, bqc_r2 = 0, bqc_dummy = 0\<rparr>"

lemma ex_float_roundtrip: "float_roundtrip ex_float_io (bqc_angles ex_bqc_params)"
  by (rule ex_float_reads) (auto simp: bqc_angles_def bqc_delta1_def bqc_delta2_def ex_bqc_params_def)

theorem blind_computation_witness:
  "\<exists>p net'. party_step p 0 (bqc_net ex_float_io ex_bqc_params (ex_program_context ''Server'')
     (ex_program_context ''Client'') 0 1 2 3 ex_amps) = Some net'"
proof -
  let ?net = "bqc_net ex_float_io ex_bqc_params (ex_program_context ''Server'') (ex_program_context ''Client'') 0 1 2 3 ex_amps"
  have "network_run ?net 0 ?net" by (rule nr_refl)
  from blind_computation [OF ex_sockets ex_sockets ex_float_roundtrip _ this]
  have "(\<exists>p net'. party_step p 0 ?net = Some net') \<or> progs ?net ''Server'' = Returned NoValue"
    by simp blast
  moreover have "progs ?net ''Server'' \<noteq> Returned NoValue"
    by (simp add: bqc_net_def net2_sel bqc_run_defs ex_program_context_def)
  ultimately show ?thesis by blast
qed

end
