(* ===== verification/BlindHiding.thy ===== *)
theory BlindHiding
  imports BlindQC
begin

text \<open>
  What the server of a blind quantum computation learns.  All it gets from the client are the
  two qubits and the two angles; seen as angles, they carry nothing about the angles of the
  effective computation, whatever the server does with them.
\<close>

section \<open>The secrets\<close>

text \<open>The ranges \<open>generate_random_params\<close> draws the secrets from.\<close>

definition drawn :: "bqc_params \<Rightarrow> bool" where
  "drawn P \<longleftrightarrow> 0 \<le> bqc_theta1 P \<and> bqc_theta1 P < pi \<and> 0 \<le> bqc_theta2 P \<and> bqc_theta2 P < pi
     \<and> bit (bqc_r1 P) \<and> bit (bqc_r2 P)"

definition same_angle :: "real \<Rightarrow> real \<Rightarrow> bool" where
  "same_angle a b \<longleftrightarrow> (\<exists>n :: int. a = b + real_of_int (2 * n) * pi)"

text \<open>
  Parameters with the angles \<open>alpha\<close> and \<open>beta\<close> that make the client, with the outcomes \<open>p1\<close>
  and \<open>p2\<close> of its preparation, send the angles \<open>d1\<close> and, told \<open>m\<close>, \<open>d2\<close>.
\<close>

definition explains :: "real \<Rightarrow> real \<Rightarrow> int \<Rightarrow> real \<Rightarrow> real \<Rightarrow> int \<Rightarrow> int \<Rightarrow> bqc_params \<Rightarrow> bool" where
  "explains alpha beta m d1 d2 p1 p2 P \<longleftrightarrow> drawn P \<and> bqc_alpha P = alpha \<and> bqc_beta P = beta \<and> bqc_dummy P = 0
     \<and> same_angle (bqc_delta1 P p1) d1 \<and> same_angle (bqc_delta2 P (bqc_sign P m) p2) d2"

lemma fraction_unique:
  assumes "0 \<le> a" "a < pi" "0 \<le> b" "b < pi" and "a - b = real_of_int n * pi"
  shows "a = b" and "n = 0"
proof -
  have "real_of_int n * pi < 1 * pi" "(- 1) * pi < real_of_int n * pi" using assms by linarith+
  then have "real_of_int n < 1" "- 1 < real_of_int n" using mult_less_cancel_right_pos [OF pi_gt_zero] by blast+
  then show "n = 0" by linarith
  with assms(5) show "a = b" by simp
qed

text \<open>An angle is one of \<open>[0, pi)\<close>, or that plus \<open>pi\<close>, in exactly one way.\<close>

lemma angle_split:
  fixes x :: real
  obtains theta r where "0 \<le> theta" and "theta < pi" and "bit r" and "same_angle (x - theta + real_of_int r * pi) 0"
proof -
  define k where "k = \<lfloor>x / pi\<rfloor>"
  have k: "real_of_int k * pi \<le> x" "x < real_of_int k * pi + pi"
  proof -
    have "real_of_int k \<le> x / pi" "x / pi < real_of_int k + 1" using floor_correct [of "x / pi"] by (simp_all add: k_def)
    then show "real_of_int k * pi \<le> x" "x < real_of_int k * pi + pi"
      by (simp_all add: pos_le_divide_eq pos_divide_less_eq distrib_right)
  qed
  have "k + k mod 2 = 2 * ((k + 1) div 2)" by presburger
  then have "real_of_int (k + k mod 2) * pi = real_of_int (2 * ((k + 1) div 2)) * pi" by (simp only:)
  then have "x - (x - real_of_int k * pi) + real_of_int (k mod 2) * pi = 0 + real_of_int (2 * ((k + 1) div 2)) * pi"
    by (simp only: of_int_add distrib_right)
  then have "same_angle (x - (x - real_of_int k * pi) + real_of_int (k mod 2) * pi) 0"
    unfolding same_angle_def by blast
  moreover have "bit (k mod 2)" by (auto simp: bit_def)
  ultimately show thesis using k by (intro that [of "x - real_of_int k * pi" "k mod 2"]) simp_all
qed

lemma split_unique:
  assumes "0 \<le> theta" "theta < pi" "bit r" "same_angle (x - theta + real_of_int (p + r) * pi) d"
    and "0 \<le> theta'" "theta' < pi" "bit r'" "same_angle (x - theta' + real_of_int (p' + r') * pi) d"
  shows "theta' = theta" and "p' = p \<Longrightarrow> r' = r"
proof -
  obtain n n' where "x - theta + real_of_int (p + r) * pi = d + real_of_int (2 * n) * pi"
      "x - theta' + real_of_int (p' + r') * pi = d + real_of_int (2 * n') * pi"
    using assms(4,8) unfolding same_angle_def by blast
  then have "theta' - theta = real_of_int (p' + r' - p - r - 2 * n' + 2 * n) * pi" by (simp add: algebra_simps)
  note u = fraction_unique [OF assms(5,6,1,2) this]
  show "theta' = theta" by (rule u(1))
  show "r' = r" if "p' = p" using u(2) that assms(3,7) by (auto simp: bit_def) presburger+
qed

lemma same_angle_shift: "same_angle (x - y) 0 \<longleftrightarrow> same_angle x y"
  by (auto simp: same_angle_def algebra_simps)

lemma split_exists:
  obtains theta r where "0 \<le> theta" and "theta < pi" and "bit r" and "same_angle (x - theta + real_of_int (p + r) * pi) d"
proof -
  from angle_split [of "x - d + real_of_int p * pi"] obtain theta r
    where s: "0 \<le> theta" "theta < pi" "bit r" "same_angle (x - d + real_of_int p * pi - theta + real_of_int r * pi) 0" .
  have "x - d + real_of_int p * pi - theta + real_of_int r * pi = (x - theta + real_of_int (p + r) * pi) - d"
    by (simp add: algebra_simps)
  with s(4) have "same_angle (x - theta + real_of_int (p + r) * pi) d" by (simp only: same_angle_shift)
  with s(1-3) show thesis by (rule that)
qed

lemma one_explanation: "\<exists>!P. explains alpha beta m d1 d2 p1 p2 P"
proof -
  obtain t1 r1 where 1: "0 \<le> t1" "t1 < pi" "bit r1" "same_angle (alpha - t1 + real_of_int (p1 + r1) * pi) d1"
    by (rule split_exists)
  let ?x = "(if even (m + r1) then 1 else - 1) * beta"
  obtain t2 r2 where 2: "0 \<le> t2" "t2 < pi" "bit r2" "same_angle (?x - t2 + real_of_int (p2 + r2) * pi) d2"
    by (rule split_exists)
  show ?thesis
  proof (rule ex1I)
    show "explains alpha beta m d1 d2 p1 p2 \<lparr>bqc_alpha = alpha, bqc_beta = beta, bqc_theta1 = t1, bqc_theta2 = t2,
        bqc_r1 = r1, bqc_r2 = r2, bqc_dummy = 0\<rparr>"
      using 1 2 by (simp add: explains_def drawn_def bqc_delta1_def bqc_delta2_def bqc_sign_def del: of_int_add)
  next
    fix P assume e: "explains alpha beta m d1 d2 p1 p2 P"
    have d: "bqc_alpha P = alpha" "bqc_beta P = beta" "0 \<le> bqc_theta1 P" "bqc_theta1 P < pi" "0 \<le> bqc_theta2 P"
        "bqc_theta2 P < pi" "bit (bqc_r1 P)" "bit (bqc_r2 P)"
        "same_angle (bqc_delta1 P p1) d1" "same_angle (bqc_delta2 P (bqc_sign P m) p2) d2"
      using e by (simp_all add: explains_def drawn_def)
    have t: "bqc_theta1 P = t1" "bqc_r1 P = r1"
      using split_unique [OF 1, of "bqc_theta1 P" "bqc_r1 P" p1] d
      by (simp_all add: bqc_delta1_def del: of_int_add)
    have "bqc_theta2 P = t2" "bqc_r2 P = r2"
      using split_unique [OF 2, of "bqc_theta2 P" "bqc_r2 P" p2] d t(2)
      by (simp_all add: bqc_delta2_def bqc_sign_def del: of_int_add)
    with t e show "P = \<lparr>bqc_alpha = alpha, bqc_beta = beta, bqc_theta1 = t1, bqc_theta2 = t2,
        bqc_r1 = r1, bqc_r2 = r2, bqc_dummy = 0\<rparr>"
      by (simp add: explains_def)
  qed
qed

section \<open>What the server gets\<close>

text \<open>
  The server, honest or not, takes the two qubits and may then do anything.  The client
  prepares them with the outcomes \<open>p1\<close> and \<open>p2\<close>; what it says afterwards is \<open>client_says\<close>.
\<close>

definition any_server ::
    "int \<Rightarrow> int \<Rightarrow> sdk_command list \<Rightarrow> (int list \<Rightarrow> routine_value routine) \<Rightarrow> routine_value routine" where
  "any_server q1 q2 cs k = Flushing (EprRecv ''Client'' q1 # EprRecv ''Client'' q2 # cs) [] k"

definition client_says :: "float_io \<Rightarrow> bqc_params \<Rightarrow> int \<Rightarrow> int \<Rightarrow> routine_value routine" where
  "client_says io P p1 p2 = SendMsg ''Server'' (str_of_float io (bqc_delta1 P p1))
     (recv_float io ''Server'' (\<lambda>m1. orFail (pow_minus_one (m1 + real_of_int (bqc_r1 P))) (\<lambda>sign.
        SendMsg ''Server'' (str_of_float io (bqc_delta2 P sign p2)) (recv_int ''Server'' (\<lambda>m2.
          Returned (bqc_client_result (bqc_delta1 P p1) (bqc_delta2 P sign p2) p1 p2 m1 m2))))))"

definition preparing :: "int \<Rightarrow> int \<Rightarrow> (string \<times> int) list" where
  "preparing p1 p2 = map (Pair ''Client'') [0, 0, 0, p1, 0, 0, 0, p2]"

definition prepared_amps ::
    "bqc_params \<Rightarrow> int \<Rightarrow> int \<Rightarrow> int \<Rightarrow> int \<Rightarrow> int \<Rightarrow> int \<Rightarrow> qstate \<Rightarrow> qstate" where
  "prepared_amps P c1 c2 q1 q2 p1 p2 psi = (\<lambda>s. if s c1 = (p1 = 1) \<and> s c2 = (p2 = 1)
     then phase_of (bqc_theta1 P) (p1 = 1) (s q1) / 2 * (phase_of (bqc_theta2 P) (p2 = 1) (s q2) / 2)
       * psi (s(c1 := False, c2 := False, q1 := False, q2 := False)) else 0)"

lemma preparation_run:
  assumes "has_sockets cc ''Server''" and "distinct [c1, c2, q1, q2]" and "bit p1" and "bit p2"
  shows "run_actions (preparing p1 p2) (net2 ''Client'' ''Server'' (bqc_client_run io P cc c1 c2) (any_server q1 q2 cs k) [] [] psi)
     = Some (net2 ''Client'' ''Server'' (client_says io P p1 p2) (next_command cs [] k) [] []
         (prepared_amps P c1 c2 q1 q2 p1 p2 psi))"
proof -
  have d: "c1 \<noteq> q1" "c2 \<noteq> q2" using assms(2) by auto
  have u: "s(c2 := False, q2 := False, c1 := False, q1 := False) = s(c1 := False, c2 := False, q1 := False, q2 := False)"
    for s :: "int \<Rightarrow> bool" using assms(2) by (auto simp: fun_eq_iff)
  have a: "measured c2 (p2 = 1) (apply1 gate_H c2 (apply1 (gate_RZ (bqc_theta2 P)) c2 (epr_pair c2 q2
        (measured c1 (p1 = 1) (apply1 gate_H c1 (apply1 (gate_RZ (bqc_theta1 P)) c1 (epr_pair c1 q1 psi)))))))
     = prepared_amps P c1 c2 q1 q2 p1 p2 psi"
    unfolding prepared_eq [OF d(1)] prepared_eq [OF d(2)] prepared_amps_def using assms(2) by (auto simp: fun_eq_iff u)
  show ?thesis
    using assms(1,3,4)
    by (simp add: preparing_def bqc_client_run_def any_server_def remote_state_preparation_def measXY_def sockets_of_def
        flush_def send_float_def has_sockets_def net2_steps bit_def client_says_def cong: play_congs)
      (simp add: a)
qed

section \<open>The mixture\<close>

lemma phase_pair:
  "(\<Sum>p \<in> {0, 1 :: int}. phase_of a (p = 1) u * cnj (phase_of a (p = 1) v)) = (if u = v then 2 else 0)"
  by (cases u; cases v) (simp_all add: phase_of_def cis_cnj cis_mult)

lemma fixed_fraction:
  assumes "explains alpha beta m d1 d2 p1 p2 P" and "explains alpha beta m d1 d2 p1' p2' P'"
  shows "bqc_theta1 P' = bqc_theta1 P" and "p1' = p1 \<Longrightarrow> bqc_theta2 P' = bqc_theta2 P"
proof -
  have d: "bqc_alpha P = alpha" "bqc_beta P = beta" "0 \<le> bqc_theta1 P" "bqc_theta1 P < pi" "0 \<le> bqc_theta2 P"
      "bqc_theta2 P < pi" "bit (bqc_r1 P)" "bit (bqc_r2 P)"
      "same_angle (bqc_delta1 P p1) d1" "same_angle (bqc_delta2 P (bqc_sign P m) p2) d2"
    and d': "bqc_alpha P' = alpha" "bqc_beta P' = beta" "0 \<le> bqc_theta1 P'" "bqc_theta1 P' < pi" "0 \<le> bqc_theta2 P'"
      "bqc_theta2 P' < pi" "bit (bqc_r1 P')" "bit (bqc_r2 P')"
      "same_angle (bqc_delta1 P' p1') d1" "same_angle (bqc_delta2 P' (bqc_sign P' m) p2') d2"
    using assms by (simp_all add: explains_def drawn_def)
  note u = split_unique [OF d(3,4,7) d(9) [unfolded bqc_delta1_def d(1)] d'(3,4,7) d'(9) [unfolded bqc_delta1_def d'(1)]]
  show "bqc_theta1 P' = bqc_theta1 P" by (rule u(1))
  assume "p1' = p1"
  then have s: "bqc_sign P' m = bqc_sign P m" using u(2) by (simp add: bqc_sign_def)
  show "bqc_theta2 P' = bqc_theta2 P"
    by (rule split_unique(1) [OF d(5,6,8) d(10) [unfolded bqc_delta2_def d(2)] d'(5,6,8)
          d'(10) [unfolded bqc_delta2_def d'(2) s]])
qed

text \<open>
  Summed over the outcomes of the preparation, which only the client knows, the two qubits
  are in the maximally mixed state.
\<close>

lemma mixed:
  assumes "distinct [c1, c2, q1, q2]"
    and "\<And>p1 p2. bit p1 \<Longrightarrow> bit p2 \<Longrightarrow> explains alpha beta m d1 d2 p1 p2 (S p1 p2)"
  shows "(\<Sum>p1 \<in> {0, 1}. \<Sum>p2 \<in> {0, 1}.
        prepared_amps (S p1 p2) c1 c2 q1 q2 p1 p2 psi (s(c1 := p1 = 1, c2 := p2 = 1))
        * cnj (prepared_amps (S p1 p2) c1 c2 q1 q2 p1 p2 psi (t(c1 := p1 = 1, c2 := p2 = 1))))
     = (if s q1 = t q1 \<and> s q2 = t q2
        then psi (s(c1 := False, c2 := False, q1 := False, q2 := False))
           * cnj (psi (t(c1 := False, c2 := False, q1 := False, q2 := False))) / 4 else 0)"
proof -
  let ?w = "psi (s(c1 := False, c2 := False, q1 := False, q2 := False))
      * cnj (psi (t(c1 := False, c2 := False, q1 := False, q2 := False)))"
  let ?E = "\<lambda>a (p :: int) q. phase_of a (p = 1) (s q) * cnj (phase_of a (p = 1) (t q))"
  define a where "a = bqc_theta1 (S 0 0)"
  define b where "b p1 = bqc_theta2 (S p1 0)" for p1 :: int
  have bits: "bit 0" "bit 1" by (simp_all add: bit_def)
  have th: "bqc_theta1 (S p1 p2) = a" "bqc_theta2 (S p1 p2) = b p1" if "bit p1" "bit p2" for p1 p2
    using fixed_fraction(1) [OF assms(2) [OF bits(1) bits(1)] assms(2) [OF that]]
      fixed_fraction(2) [OF assms(2) [OF that(1) bits(1)] assms(2) [OF that]] by (simp_all add: a_def b_def)
  have t: "prepared_amps (S p1 p2) c1 c2 q1 q2 p1 p2 psi (s(c1 := p1 = 1, c2 := p2 = 1))
        * cnj (prepared_amps (S p1 p2) c1 c2 q1 q2 p1 p2 psi (t(c1 := p1 = 1, c2 := p2 = 1)))
      = ?E a p1 q1 * (?E (b p1) p2 q2 * (?w / 16))" if "bit p1" "bit p2" for p1 p2
  proof -
    have f: "(s :: int \<Rightarrow> bool)(c1 := x, c2 := y, c1 := False, c2 := False, q1 := False, q2 := False)
        = s(c1 := False, c2 := False, q1 := False, q2 := False)" for s x y by (auto simp: fun_eq_iff)
    show ?thesis using assms(1) unfolding prepared_amps_def th [OF that] by (simp add: f)
  qed
  have "(\<Sum>p1 \<in> {0, 1}. \<Sum>p2 \<in> {0, 1}.
        prepared_amps (S p1 p2) c1 c2 q1 q2 p1 p2 psi (s(c1 := p1 = 1, c2 := p2 = 1))
        * cnj (prepared_amps (S p1 p2) c1 c2 q1 q2 p1 p2 psi (t(c1 := p1 = 1, c2 := p2 = 1))))
      = (\<Sum>p1 \<in> {0, 1}. \<Sum>p2 \<in> {0, 1}. ?E a p1 q1 * (?E (b p1) p2 q2 * (?w / 16)))"
    by (rule sum.cong [OF refl], rule sum.cong [OF refl], rule t) (simp_all add: bit_def)
  also have "\<dots> = (\<Sum>p1 \<in> {0, 1}. ?E a p1 q1 * (\<Sum>p2 \<in> {0, 1}. ?E (b p1) p2 q2 * (?w / 16)))"
    by (simp only: sum_distrib_left)
  also have "\<dots> = (\<Sum>p1 \<in> {0, 1}. ?E a p1 q1 * ((\<Sum>p2 \<in> {0, 1}. ?E (b p1) p2 q2) * (?w / 16)))"
    by (simp only: sum_distrib_right)
  also have "\<dots> = (\<Sum>p1 \<in> {0, 1}. ?E a p1 q1 * ((if s q2 = t q2 then 2 else 0) * (?w / 16)))"
    by (simp only: phase_pair)
  also have "\<dots> = (\<Sum>p1 \<in> {0, 1}. ?E a p1 q1) * ((if s q2 = t q2 then 2 else 0) * (?w / 16))"
    by (rule sum_distrib_right [symmetric])
  also have "\<dots> = (if s q1 = t q1 \<and> s q2 = t q2 then ?w / 4 else 0)" unfolding phase_pair by simp
  finally show ?thesis .
qed

section \<open>Hiding\<close>

text \<open>
  C27: the computation is hidden.  Let the server, after it has taken the two qubits, do anything.
  Whatever the secrets, the client's preparation can have all outcomes, and then the server has
  the qubits of \<open>prepared_amps\<close> and gets the two angles of \<open>client_says\<close> and nothing else.
  Let \<open>d1\<close> and \<open>d2\<close> be angles it got, up to full turns, after it reported the outcome \<open>m\<close>.  For any
  angles \<open>alpha\<close> and \<open>beta\<close> of the computation and all outcomes of the preparation, exactly one
  choice of the random angles and bits, in the ranges they are drawn from, makes the
  client send these; and the qubits, averaged over these choices, are maximally mixed:
  neither the angles nor the qubits tell anything about \<open>alpha\<close> and \<open>beta\<close>.
\<close>

theorem blind_hiding:
  assumes "has_sockets cc ''Server''" and "distinct [c1, c2, q1, q2]"
  shows "(\<forall>P p1 p2. bit p1 \<and> bit p2 \<longrightarrow>
        run_actions (preparing p1 p2)
          (net2 ''Client'' ''Server'' (bqc_client_run io P cc c1 c2) (any_server q1 q2 cs k) [] [] psi)
        = Some (net2 ''Client'' ''Server'' (client_says io P p1 p2) (next_command cs [] k) [] []
            (prepared_amps P c1 c2 q1 q2 p1 p2 psi)))
    \<and> (\<forall>p1 p2. \<exists>!P. explains alpha beta m d1 d2 p1 p2 P)
    \<and> (\<forall>S s t. (\<forall>p1 p2. bit p1 \<and> bit p2 \<longrightarrow> explains alpha beta m d1 d2 p1 p2 (S p1 p2)) \<longrightarrow>
        (\<Sum>p1 \<in> {0, 1}. \<Sum>p2 \<in> {0, 1}.
          prepared_amps (S p1 p2) c1 c2 q1 q2 p1 p2 psi (s(c1 := p1 = 1, c2 := p2 = 1))
          * cnj (prepared_amps (S p1 p2) c1 c2 q1 q2 p1 p2 psi (t(c1 := p1 = 1, c2 := p2 = 1))))
        = (if s q1 = t q1 \<and> s q2 = t q2
           then psi (s(c1 := False, c2 := False, q1 := False, q2 := False))
             * cnj (psi (t(c1 := False, c2 := False, q1 := False, q2 := False))) / 4 else 0))"
proof (intro conjI allI impI)
  show "run_actions (preparing p1 p2)
          (net2 ''Client'' ''Server'' (bqc_client_run io P cc c1 c2) (any_server q1 q2 cs k) [] [] psi)
        = Some (net2 ''Client'' ''Server'' (client_says io P p1 p2) (next_command cs [] k) [] []
            (prepared_amps P c1 c2 q1 q2 p1 p2 psi))" if "bit p1 \<and> bit p2" for P p1 p2
    using preparation_run [OF assms] that by blast
  show "\<exists>!P. explains alpha beta m d1 d2 p1 p2 P" for p1 p2 by (rule one_explanation)
  show "(\<Sum>p1 \<in> {0, 1}. \<Sum>p2 \<in> {0, 1}.
          prepared_amps (S p1 p2) c1 c2 q1 q2 p1 p2 psi (s(c1 := p1 = 1, c2 := p2 = 1))
          * cnj (prepared_amps (S p1 p2) c1 c2 q1 q2 p1 p2 psi (t(c1 := p1 = 1, c2 := p2 = 1))))
        = (if s q1 = t q1 \<and> s q2 = t q2
           then psi (s(c1 := False, c2 := False, q1 := False, q2 := False))
             * cnj (psi (t(c1 := False, c2 := False, q1 := False, q2 := False))) / 4 else 0)"
    if "\<forall>p1 p2. bit p1 \<and> bit p2 \<longrightarrow> explains alpha beta m d1 d2 p1 p2 (S p1 p2)" for S s t
    by (rule mixed [OF assms(2)]) (use that in blast)
qed

theorem blind_hiding_witness:
  "\<exists>!P. explains (pi / 2) 0 1 (pi / 3) (- pi) 0 1 P"
  using blind_hiding [OF ex_sockets [of "''Server''"], of 0 1 2 3 _ _ _ _ "pi / 2" 0 1 "pi / 3" "- pi"] by simp

text \<open>
  The angles are sent as they are, not reduced to a full turn, and so the numbers do tell
  something: the first is at most \<open>alpha\<close> and two half turns, and more than \<open>alpha\<close> less one.
\<close>

lemma delta_range:
  assumes "drawn P" and "bit p1"
  shows "bqc_alpha P - pi < bqc_delta1 P p1" and "bqc_delta1 P p1 \<le> bqc_alpha P + 2 * pi"
proof -
  have "0 \<le> real_of_int (p1 + bqc_r1 P)" "real_of_int (p1 + bqc_r1 P) \<le> 2"
    using assms by (auto simp: drawn_def bit_def)
  then have "0 \<le> real_of_int (p1 + bqc_r1 P) * pi" "real_of_int (p1 + bqc_r1 P) * pi \<le> 2 * pi"
    by (simp_all add: mult_right_mono del: of_int_add)
  then show "bqc_alpha P - pi < bqc_delta1 P p1" "bqc_delta1 P p1 \<le> bqc_alpha P + 2 * pi"
    using assms(1) unfolding bqc_delta1_def drawn_def by linarith+
qed

end
