(* ===== verification/TrapRounds.thy ===== *)
theory TrapRounds
  imports BlindStates
begin

text \<open>
  Blind quantum computation with trap rounds, \<open>examples/advanced/bqc/example_bqc.py\<close>: in a trap
  round the client prepares a dummy in place of one of its qubits and compares an outcome
  of the server's with its own.
\<close>

section \<open>The programs\<close>

record trap_params =
  tp_alpha :: real
  tp_beta :: real
  tp_trap :: bool
  tp_dummy :: int
  tp_theta1 :: real
  tp_theta2 :: real
  tp_r1 :: int
  tp_r2 :: int

text \<open>What the client queues for the pair it makes a dummy or a prepared qubit of.\<close>

definition trap_preparation :: "bool \<Rightarrow> real \<Rightarrow> int \<Rightarrow> sdk_command list" where
  "trap_preparation dummy theta epr = (if dummy then [DoMeas epr] else [DoRotZ theta epr, DoH epr, DoMeas epr])"

definition trap_delta1 :: "trap_params \<Rightarrow> int \<Rightarrow> real" where
  "trap_delta1 P p1 =
     (if tp_trap P \<and> tp_dummy P = 2 then - tp_theta1 P + real_of_int (p1 + tp_r1 P) * pi
      else tp_alpha P - tp_theta1 P + real_of_int (p1 + tp_r1 P) * pi)"

text \<open>\<open>math.pow(-1, m1 + r1)\<close> of an integer.\<close>

definition sign_of :: "int \<Rightarrow> real" where
  "sign_of n = (if even n then 1 else - 1)"

definition trap_delta2 :: "trap_params \<Rightarrow> int \<Rightarrow> int \<Rightarrow> real" where
  "trap_delta2 P m1 p2 =
     (if tp_trap P \<and> tp_dummy P = 1 then - tp_theta2 P + real_of_int (p2 + tp_r2 P) * pi
      else sign_of (m1 + tp_r1 P) * tp_beta P - tp_theta2 P + real_of_int (p2 + tp_r2 P) * pi)"

definition trap_client_run :: "float_io \<Rightarrow> trap_params \<Rightarrow> program_context \<Rightarrow> int \<Rightarrow> int \<Rightarrow> routine_value routine" where
  "trap_client_run io P ctx epr1 epr2 =
     sockets_of ctx ''server''
       (flush (EprCreate ''server'' epr1 # trap_preparation (tp_trap P \<and> tp_dummy P = 2) (tp_theta2 P) epr1
           @ EprCreate ''server'' epr2 # trap_preparation (tp_trap P \<and> tp_dummy P = 1) (tp_theta1 P) epr2)
         (\<lambda>ms. csock_send_float io ''server'' (trap_delta1 P (ms ! 1))
           (csock_recv_int ''server'' (\<lambda>m1.
             csock_send_float io ''server'' (trap_delta2 P m1 (ms ! 0))
               (Returned (DictValue [(''p1'', IntValue (ms ! 1)), (''p2'', IntValue (ms ! 0))]))))))"

text \<open>The breakpoint the server inserts before its last measurement only reports the state.\<close>

definition trap_server_run :: "float_io \<Rightarrow> program_context \<Rightarrow> int \<Rightarrow> int \<Rightarrow> routine_value routine" where
  "trap_server_run io ctx epr1 epr2 =
     sockets_of ctx ''client''
       (flush [EprRecv ''client'' epr1, EprRecv ''client'' epr2, DoCphase epr2 epr1]
         (\<lambda>_. csock_recv_float io ''client'' (\<lambda>delta1.
           flush [DoRotZ delta1 epr2, DoH epr2, DoMeas epr2] (\<lambda>ms.
             csock_send_int ''client'' (ms ! 0)
               (csock_recv_float io ''client'' (\<lambda>delta2.
                 flush [DoRotZ delta2 epr1, DoH epr1, DoMeas epr1] (\<lambda>ms'.
                   Returned (DictValue [(''m1'', IntValue (ms ! 0)), (''m2'', IntValue (ms' ! 0))]))))))))"

definition trap_net ::
    "float_io \<Rightarrow> trap_params \<Rightarrow> program_context \<Rightarrow> program_context \<Rightarrow> int \<Rightarrow> int \<Rightarrow> int \<Rightarrow> int \<Rightarrow> qstate \<Rightarrow> routine_value qnet" where
  "trap_net io P cc cs c2 c1 q2 q1 psi =
     net2 ''client'' ''server'' (trap_client_run io P cc c2 c1) (trap_server_run io cs q2 q1) [] [] psi"

definition trap_angles :: "trap_params \<Rightarrow> real set" where
  "trap_angles P = trap_delta1 P ` {0, 1} \<union> trap_delta2 P 0 ` {0, 1} \<union> trap_delta2 P 1 ` {0, 1}"

section \<open>One schedule\<close>

definition trap_prepared :: "bool \<Rightarrow> real \<Rightarrow> int \<Rightarrow> int \<Rightarrow> bool \<Rightarrow> qstate \<Rightarrow> qstate" where
  "trap_prepared dummy theta c q p psi =
     measured c p (if dummy then epr_pair c q psi else apply1 gate_H c (apply1 (gate_RZ theta) c (epr_pair c q psi)))"

definition trap_amps :: "trap_params \<Rightarrow> int \<Rightarrow> int \<Rightarrow> int \<Rightarrow> int \<Rightarrow> int \<Rightarrow> int \<Rightarrow> int \<Rightarrow> int \<Rightarrow> qstate \<Rightarrow> qstate" where
  "trap_amps P c2 c1 q2 q1 p1 p2 m1 m2 psi =
     measured_graph (trap_delta1 P p1) (trap_delta2 P m1 p2) q1 q2 (m1 = 1) (m2 = 1) (cphase q1 q2
       (trap_prepared (tp_trap P \<and> tp_dummy P = 1) (tp_theta1 P) c1 q1 (p1 = 1)
         (trap_prepared (tp_trap P \<and> tp_dummy P = 2) (tp_theta2 P) c2 q2 (p2 = 1) psi)))"

definition trap_done ::
    "trap_params \<Rightarrow> int \<Rightarrow> int \<Rightarrow> int \<Rightarrow> int \<Rightarrow> qstate \<Rightarrow> routine_value qnet \<Rightarrow> bool" where
  "trap_done P c2 c1 q2 q1 psi net \<longleftrightarrow> (\<exists>p1 p2 m1 m2. bit p1 \<and> bit p2 \<and> bit m1 \<and> bit m2
     \<and> net = net2 ''client'' ''server'' (Returned (DictValue [(''p1'', IntValue p1), (''p2'', IntValue p2)]))
         (Returned (DictValue [(''m1'', IntValue m1), (''m2'', IntValue m2)])) [] []
         (trap_amps P c2 c1 q2 q1 p1 p2 m1 m2 psi))"

definition trap_schedule :: "string list" where
  "trap_schedule = replicate 8 ''client'' @ [''server'', ''client''] @ replicate 5 ''server'' @ [''client'', ''client'']
     @ replicate 4 ''server''"

lemmas trap_run_defs = trap_client_run_def trap_server_run_def trap_preparation_def sockets_of_def flush_def socket_defs

lemma trap_owned:
  assumes "distinct [c2, c1, q2, q1]"
  shows "owned ((\<lambda>_. {})(''client'' := {c2, c1}, ''server'' := {q2, q1})) (trap_net io P cc cs c2 c1 q2 q1 psi)"
  unfolding trap_net_def
  by (rule net2_owned) (use assms in \<open>auto simp: trap_run_defs intro!: acts_on_orFail\<close>)

lemma read_trap_angles:
  assumes "float_roundtrip io (trap_angles P)" and "bit p" and "bit m"
  shows "float_of_str io (str_of_float io (trap_delta1 P p)) = Inr (trap_delta1 P p)"
    "float_of_str io (str_of_float io (trap_delta2 P m p)) = Inr (trap_delta2 P m p)"
  using assms by (auto simp: float_roundtrip_def bit_def trap_angles_def)

lemma trap_plays:
  assumes "has_sockets cc ''server''" and "has_sockets cs ''client''" and "float_roundtrip io (trap_angles P)"
    and "q1 \<noteq> q2"
  shows "plays (trap_done P c2 c1 q2 q1 psi) trap_schedule (trap_net io P cc cs c2 c1 q2 q1 psi)"
proof -
  note [simp] = read_trap_angles [OF assms(3)] orFail_simps cphase_sym [OF assms(4)]
  have b: "bit 0" by (simp add: bit_def)
  show ?thesis
    using assms(1,2) b unfolding trap_net_def trap_schedule_def has_sockets_def
    by (cases "tp_trap P \<and> tp_dummy P = 2"; cases "tp_trap P \<and> tp_dummy P = 1")
      (simp_all add: trap_run_defs net2_steps all_bits net2_over eval_nat_numeral cong: play_congs,
       (simp add: trap_done_def trap_amps_def trap_prepared_def measured_graph_def, blast?)+)
qed

section \<open>The amplitudes\<close>

definition prepared_amp :: "bool \<Rightarrow> real \<Rightarrow> bool \<Rightarrow> bool \<Rightarrow> complex" where
  "prepared_amp dummy theta p v = (if dummy then if v = p then half_root else 0 else phase_of theta p v / 2)"

definition trap_coef :: "trap_params \<Rightarrow> int \<Rightarrow> int \<Rightarrow> int \<Rightarrow> int \<Rightarrow> complex" where
  "trap_coef P p1 p2 m1 m2 = graph_coef (prepared_amp (tp_trap P \<and> tp_dummy P = 1) (tp_theta1 P) (p1 = 1))
     (prepared_amp (tp_trap P \<and> tp_dummy P = 2) (tp_theta2 P) (p2 = 1)) (trap_delta1 P p1) (trap_delta2 P m1 p2) (m1 = 1) (m2 = 1)"

lemma trap_prepared_eq:
  "c \<noteq> q \<Longrightarrow> trap_prepared dummy theta c q p psi
     = (\<lambda>s. if s c = p then prepared_amp dummy theta p (s q) * psi (s(c := False, q := False)) else 0)"
  by (simp add: trap_prepared_def prepared_amp_def dummy_eq prepared_eq cong: if_cong)

lemma trap_amps_eq:
  assumes "distinct [c2, c1, q2, q1]"
  shows "trap_amps P c2 c1 q2 q1 p1 p2 m1 m2 psi
     = (\<lambda>s. if s c1 = (p1 = 1) \<and> s c2 = (p2 = 1) \<and> s q1 = (m1 = 1) \<and> s q2 = (m2 = 1)
         then trap_coef P p1 p2 m1 m2 * psi (s(c1 := False, c2 := False, q1 := False, q2 := False)) else 0)"
  unfolding trap_amps_def trap_coef_def
proof (rule measured_graph_eq)
  show "distinct [c1, c2, q1, q2]" using assms by auto
  have d: "c1 \<noteq> q1" "c2 \<noteq> q2" "c1 \<noteq> c2" "c1 \<noteq> q2" "q1 \<noteq> c2" "q1 \<noteq> q2" using assms by auto
  have u: "s(c1 := False, q1 := False, c2 := False, q2 := False) = s(c1 := False, c2 := False, q1 := False, q2 := False)"
    for s :: "int \<Rightarrow> bool" using assms by (auto simp: fun_eq_iff)
  show "trap_prepared (tp_trap P \<and> tp_dummy P = 1) (tp_theta1 P) c1 q1 (p1 = 1)
        (trap_prepared (tp_trap P \<and> tp_dummy P = 2) (tp_theta2 P) c2 q2 (p2 = 1) psi)
     = (\<lambda>s. if s c1 = (p1 = 1) \<and> s c2 = (p2 = 1)
         then prepared_amp (tp_trap P \<and> tp_dummy P = 1) (tp_theta1 P) (p1 = 1) (s q1)
           * prepared_amp (tp_trap P \<and> tp_dummy P = 2) (tp_theta2 P) (p2 = 1) (s q2)
           * psi (s(c1 := False, c2 := False, q1 := False, q2 := False)) else 0)"
    unfolding trap_prepared_eq [OF d(1)] trap_prepared_eq [OF d(2)] using d by (auto simp: fun_eq_iff u)
qed

text \<open>The weight of the outcomes in each kind of round.\<close>

definition trap_weight :: "trap_params \<Rightarrow> int \<Rightarrow> int \<Rightarrow> int \<Rightarrow> int \<Rightarrow> real" where
  "trap_weight P p1 p2 m1 m2 =
     (if tp_trap P \<and> tp_dummy P = 1 then if even (p1 + m2 + tp_r2 P) then 1 / 8 else 0
      else if tp_trap P \<and> tp_dummy P = 2 then if even (p2 + m1 + tp_r1 P) then 1 / 8 else 0
      else (cmod (effective_amp (tp_alpha P) (tp_beta P) (odd (m2 + tp_r2 P))))\<^sup>2 / 8)"

lemma prepared_amp_simps:
  "prepared_amp True theta p = (\<lambda>v. if v = p then half_root else 0)"
  "prepared_amp False theta p = (\<lambda>v. phase_of theta p v / 2)"
  by (simp_all add: prepared_amp_def fun_eq_iff)

lemma trap_weight_eq:
  assumes "bit p1" and "bit p2" and "bit m1" and "bit m2"
  shows "(cmod (trap_coef P p1 p2 m1 m2))\<^sup>2 = trap_weight P p1 p2 m1 m2"
proof -
  have d: "tp_theta2 P + trap_delta2 P m1 p2 = real_of_int (p2 + tp_r2 P) * pi" if "tp_trap P \<and> tp_dummy P = 1"
    using that by (simp add: trap_delta2_def)
  have e: "tp_theta1 P + trap_delta1 P p1 = real_of_int (p1 + tp_r1 P) * pi" if "tp_trap P \<and> tp_dummy P = 2"
    using that by (simp add: trap_delta1_def)
  consider (first) "tp_trap P \<and> tp_dummy P = 1" "\<not> (tp_trap P \<and> tp_dummy P = 2)"
    | (second) "\<not> (tp_trap P \<and> tp_dummy P = 1)" "tp_trap P \<and> tp_dummy P = 2"
    | (none) "\<not> (tp_trap P \<and> tp_dummy P = 1)" "\<not> (tp_trap P \<and> tp_dummy P = 2)" by fastforce
  then show ?thesis
  proof cases
    case first
    then show ?thesis
      using dummy_weight [OF assms(2,4,1) d, of "trap_delta1 P p1" "m1 = 1"]
      by (simp only: trap_coef_def trap_weight_def simp_thms if_True prepared_amp_simps graph_coef_sym [of _ _ _ _ "m1 = 1"])
  next
    case second
    then show ?thesis
      using dummy_weight [OF assms(1,3,2) e, of "trap_delta2 P m1 p2" "m2 = 1"]
      by (simp only: trap_coef_def trap_weight_def simp_thms if_True if_False prepared_amp_simps)
  next
    case none
    then show ?thesis
      unfolding trap_coef_def trap_weight_def
      by (simp only: simp_thms if_False prepared_amp_simps)
        (rule blind_weight [OF assms]; simp only: trap_delta1_def trap_delta2_def sign_of_def simp_thms if_False)
  qed
qed

section \<open>Trap rounds\<close>

text \<open>How many of the runs of a trap round fail, given what clients and servers returned.\<close>

definition trap_fails :: "int \<Rightarrow> (int \<times> int) list \<Rightarrow> (int \<times> int) list \<Rightarrow> nat result" where
  "trap_fails dummy clients servers =
     (if dummy = 1 then Inr (length (filter (\<lambda>(p, m). p \<noteq> m) (zip (List.map fst clients) (List.map snd servers))))
      else if dummy = 2 then Inr (length (filter (\<lambda>(p, m). p \<noteq> m) (zip (List.map snd clients) (List.map fst servers))))
      else Inl AssertionError)"

text \<open>
  C28: trap rounds.  In every order of actions client and server end within 21 actions; in a
  computation round the outcomes have the weights of the effective computation, in a trap
  round those of an honest server: with \<open>r1\<close> and \<open>r2\<close> zero, as the trap round has them, no
  outcome of nonzero weight counts as a failure.
\<close>

theorem trap_rounds:
  assumes "has_sockets cc ''server''" and "has_sockets cs ''client''" and "float_roundtrip io (trap_angles P)"
    and "distinct [c2, c1, q2, q1]" and "network_run (trap_net io P cc cs c2 c1 q2 q1 psi) k net"
  shows "k \<le> 21 \<and> ((\<exists>p net'. party_step p 0 net = Some net')
     \<or> (\<exists>p1 p2 m1 m2 c. bit p1 \<and> bit p2 \<and> bit m1 \<and> bit m2
         \<and> progs net ''client'' = Returned (DictValue [(''p1'', IntValue p1), (''p2'', IntValue p2)])
         \<and> progs net ''server'' = Returned (DictValue [(''m1'', IntValue m1), (''m2'', IntValue m2)])
         \<and> amps net = (\<lambda>s. if s c1 = (p1 = 1) \<and> s c2 = (p2 = 1) \<and> s q1 = (m1 = 1) \<and> s q2 = (m2 = 1)
             then c * psi (s(c1 := False, c2 := False, q1 := False, q2 := False)) else 0)
         \<and> (cmod c)\<^sup>2 = trap_weight P p1 p2 m1 m2
         \<and> (tp_trap P \<and> tp_dummy P \<in> {1, 2} \<and> tp_r1 P = 0 \<and> tp_r2 P = 0 \<and> c \<noteq> 0
             \<longrightarrow> trap_fails (tp_dummy P) [(p1, p2)] [(m1, m2)] = Inr 0)))"
proof -
  have l: "length trap_schedule = 21" and q: "q1 \<noteq> q2" using assms(4) by (auto simp: trap_schedule_def)
  from schedule_independence [OF trap_plays [OF assms(1-3) q] trap_owned [OF assms(4)] assms(5)]
  have k: "k \<le> 21" "trap_done P c2 c1 q2 q1 psi net \<or> (\<exists>p net'. party_step p 0 net = Some net')" unfolding l by simp_all
  from k(2) show ?thesis
  proof
    assume "trap_done P c2 c1 q2 q1 psi net"
    then obtain p1 p2 m1 m2 where b: "bit p1" "bit p2" "bit m1" "bit m2" and net: "net = net2 ''client'' ''server''
        (Returned (DictValue [(''p1'', IntValue p1), (''p2'', IntValue p2)]))
        (Returned (DictValue [(''m1'', IntValue m1), (''m2'', IntValue m2)])) [] []
        (trap_amps P c2 c1 q2 q1 p1 p2 m1 m2 psi)"
      unfolding trap_done_def by blast
    have n: "''client'' \<noteq> ''server''" by simp
    note sel = net2_sel [OF n, of _ _ "[]" "[]"] and w = trap_weight_eq [OF b, of P]
    have "amps net = (\<lambda>s. if s c1 = (p1 = 1) \<and> s c2 = (p2 = 1) \<and> s q1 = (m1 = 1) \<and> s q2 = (m2 = 1)
        then trap_coef P p1 p2 m1 m2 * psi (s(c1 := False, c2 := False, q1 := False, q2 := False)) else 0)"
      unfolding net sel by (rule trap_amps_eq [OF assms(4)])
    moreover have "progs net ''client'' = Returned (DictValue [(''p1'', IntValue p1), (''p2'', IntValue p2)])"
      "progs net ''server'' = Returned (DictValue [(''m1'', IntValue m1), (''m2'', IntValue m2)])"
      unfolding net sel by simp_all
    moreover have "tp_trap P \<and> tp_dummy P \<in> {1, 2} \<and> tp_r1 P = 0 \<and> tp_r2 P = 0 \<and> trap_coef P p1 p2 m1 m2 \<noteq> 0
        \<longrightarrow> trap_fails (tp_dummy P) [(p1, p2)] [(m1, m2)] = Inr 0"
      using w b by (auto simp: trap_weight_def trap_fails_def bit_def split: if_splits)
    ultimately show ?thesis using k(1) b w by blast
  qed (use k(1) in blast)
qed

definition ex_trap_params :: trap_params where
  "ex_trap_params = \<lparr>tp_alpha = 0, tp_beta = 0, tp_trap = True, tp_dummy = 1, tp_theta1 = 0, tp_theta2 = 0, tp_r1 = 0, tp_r2 = 0\<rparr>"

lemma ex_trap_roundtrip: "float_roundtrip ex_float_io (trap_angles ex_trap_params)"
  by (rule ex_float_reads) (auto simp: trap_angles_def trap_delta1_def trap_delta2_def ex_trap_params_def)

theorem trap_rounds_witness:
  "\<exists>p net'. party_step p 0 (trap_net ex_float_io ex_trap_params (ex_program_context ''server'')
     (ex_program_context ''client'') 0 1 2 3 ex_amps) = Some net'"
proof -
  let ?net = "trap_net ex_float_io ex_trap_params (ex_program_context ''server'') (ex_program_context ''client'') 0 1 2 3 ex_amps"
  have "network_run ?net 0 ?net" by (rule nr_refl)
  from trap_rounds [OF ex_sockets ex_sockets ex_trap_roundtrip _ this]
  have "(\<exists>p net'. party_step p 0 ?net = Some net') \<or> (\<exists>v. progs ?net ''server'' = Returned v)"
    by simp blast
  moreover have "progs ?net ''server'' \<noteq> Returned v" for v
    by (simp add: trap_net_def net2_sel trap_run_defs ex_program_context_def)
  ultimately show ?thesis by blast
qed

end
