(* ===== verification/PartialBlind.thy ===== *)
theory PartialBlind
  imports BlindStates
begin

text \<open>
  The steps towards blind quantum computation in \<open>examples/advanced/partial_bqc\<close>: the server's
  computation with angles sent in the clear (\<open>example_bqc_5_2.py\<close>), a remotely prepared qubit
  measured in the X basis (\<open>example_bqc_5_3.py\<close>), and one hidden by an angle
  (\<open>example_bqc_5_4.py\<close>).
\<close>

section \<open>Driving the server's measurements\<close>

definition driven_client_run :: "float_io \<Rightarrow> real \<Rightarrow> real \<Rightarrow> program_context \<Rightarrow> routine_value routine" where
  "driven_client_run io alpha beta ctx =
     (if ''server'' \<in> set (pc_csockets ctx) then
        csock_send_float io ''server'' alpha (csock_recv_int ''server'' (\<lambda>m1.
          csock_send_float io ''server'' (if m1 = 1 then - beta else beta) (Returned (DictValue []))))
      else Failed KeyError)"

definition driven_server_run :: "float_io \<Rightarrow> program_context \<Rightarrow> int \<Rightarrow> int \<Rightarrow> routine_value routine" where
  "driven_server_run io ctx electron carbon =
     (if ''client'' \<in> set (pc_csockets ctx) then
        csock_recv_float io ''client'' (\<lambda>alpha.
          flush [DoInit electron, DoInit carbon, DoH carbon, DoH electron, DoCphase electron carbon,
              DoRotZ alpha electron, DoH electron, DoMeas electron] (\<lambda>ms.
            csock_send_int ''client'' (ms ! 0) (csock_recv_float io ''client'' (\<lambda>beta.
              flush [DoRotZ beta carbon, DoH carbon, DoMeas carbon] (\<lambda>ms'.
                Returned (DictValue [(''m1'', IntValue (ms ! 0)), (''m2'', IntValue (ms' ! 0))]))))))
      else Failed KeyError)"

definition driven_net ::
    "float_io \<Rightarrow> real \<Rightarrow> real \<Rightarrow> program_context \<Rightarrow> program_context \<Rightarrow> int \<Rightarrow> int \<Rightarrow> qstate \<Rightarrow> routine_value qnet" where
  "driven_net io alpha beta cc cs e c psi =
     net2 ''client'' ''server'' (driven_client_run io alpha beta cc) (driven_server_run io cs e c) [] [] psi"

definition driven_amps :: "real \<Rightarrow> real \<Rightarrow> int \<Rightarrow> int \<Rightarrow> int \<Rightarrow> int \<Rightarrow> qstate \<Rightarrow> qstate" where
  "driven_amps alpha beta e c m1 m2 psi = measured_graph alpha (if m1 = 1 then - beta else beta) e c (m1 = 1) (m2 = 1)
     (cphase e c (apply1 gate_H e (apply1 gate_H c (reset_qubit c False (reset_qubit e False psi)))))"

definition driven_done :: "real \<Rightarrow> real \<Rightarrow> int \<Rightarrow> int \<Rightarrow> qstate \<Rightarrow> routine_value qnet \<Rightarrow> bool" where
  "driven_done alpha beta e c psi net \<longleftrightarrow> (\<exists>m1 m2. bit m1 \<and> bit m2
     \<and> net = net2 ''client'' ''server'' (Returned (DictValue []))
         (Returned (DictValue [(''m1'', IntValue m1), (''m2'', IntValue m2)])) [] [] (driven_amps alpha beta e c m1 m2 psi))"

definition driven_schedule :: "string list" where
  "driven_schedule = ''client'' # replicate 10 ''server'' @ [''client'', ''client''] @ replicate 4 ''server''"

lemmas driven_defs = driven_client_run_def driven_server_run_def flush_def socket_defs

lemma driven_owned: "owned ((\<lambda>_. {})(''client'' := {}, ''server'' := {e, c})) (driven_net io alpha beta cc cs e c psi)"
  unfolding driven_net_def by (rule net2_owned) (auto simp: driven_defs intro!: acts_on_orFail)

lemma driven_plays:
  assumes "has_sockets cc ''server''" and "has_sockets cs ''client''" and "float_roundtrip io {alpha, beta, - beta}"
  shows "plays (driven_done alpha beta e c psi) driven_schedule (driven_net io alpha beta cc cs e c psi)"
proof -
  have [simp]: "float_of_str io (str_of_float io alpha) = Inr alpha"
    "float_of_str io (str_of_float io (if b then - beta else beta)) = Inr (if b then - beta else beta)" for b
    using assms(3) by (simp_all add: float_roundtrip_def)
  note [simp] = orFail_simps
  show ?thesis
    using assms(1,2) unfolding driven_net_def driven_schedule_def has_sockets_def
    by (simp add: driven_defs net2_steps all_bits net2_over eval_nat_numeral cong: play_congs)
      (simp add: driven_done_def driven_amps_def measured_graph_def, blast)
qed

lemma driven_amps_eq:
  assumes "e \<noteq> c"
  shows "driven_amps alpha beta e c m1 m2 psi = (\<lambda>s. if s e = (m1 = 1) \<and> s c = (m2 = 1)
     then graph_coef (\<lambda>v. half_root) (\<lambda>v. half_root) alpha (if m1 = 1 then - beta else beta) (m1 = 1) (m2 = 1)
       * psi (s(e := False, c := False)) else 0)"
  unfolding driven_amps_def
proof (rule measured_graph_rest [OF assms])
  have u: "s(c := u, e := v) = s(e := v, c := u)" for s :: "int \<Rightarrow> bool" and u v using assms by (auto simp: fun_eq_iff)
  show "apply1 gate_H e (apply1 gate_H c (reset_qubit c False (reset_qubit e False psi)))
     = (\<lambda>s. half_root * half_root * psi (s(e := False, c := False)))"
    using assms by (auto simp: fun_eq_iff apply1_def gate_H_def reset_qubit_def u)
qed

lemma driven_weight:
  assumes "bit m1" and "bit m2"
  shows "(cmod (graph_coef (\<lambda>v. half_root) (\<lambda>v. half_root) alpha (if m1 = 1 then - beta else beta) (m1 = 1) (m2 = 1)))\<^sup>2
     = (cmod (effective_amp alpha beta (m2 = 1)))\<^sup>2 / 2"
proof -
  have "graph_coef (\<lambda>v. half_root) (\<lambda>v. half_root) alpha b n1 n2
      = 2 * graph_coef (\<lambda>v. phase_of 0 False v / 2) (\<lambda>v. phase_of 0 False v / 2) alpha b n1 n2" for b n1 n2
    by (simp add: graph_coef_def phase_of_def algebra_simps)
  then show ?thesis
    using assms by (auto simp: norm_mult power_mult_distrib graph_weight effective_weight differ_def bit_def)
qed

section \<open>A remotely prepared qubit\<close>

definition rsp_client_run :: "real \<Rightarrow> program_context \<Rightarrow> int \<Rightarrow> routine_value routine" where
  "rsp_client_run theta1 ctx epr =
     (if ''server'' \<in> set (dict_keys (pc_epr_sockets ctx)) then
        flush [EprCreate ''server'' epr, DoRotZ theta1 epr, DoH epr, DoMeas epr] (\<lambda>ms.
          Returned (DictValue [(''p1'', IntValue (ms ! 0))]))
      else Failed KeyError)"

definition rsp_server_run :: "program_context \<Rightarrow> int \<Rightarrow> routine_value routine" where
  "rsp_server_run ctx epr =
     (if ''client'' \<in> set (dict_keys (pc_epr_sockets ctx)) then
        flush [EprRecv ''client'' epr, DoH epr, DoMeas epr] (\<lambda>ms.
          Returned (DictValue [(''m2'', IntValue (ms ! 0))]))
      else Failed KeyError)"

section \<open>A hidden rotation\<close>

definition hidden_delta1 :: "real \<Rightarrow> real \<Rightarrow> int \<Rightarrow> int \<Rightarrow> real" where
  "hidden_delta1 alpha theta1 r1 p1 = alpha - theta1 + real_of_int (p1 + r1) * pi"

definition hidden_client_run :: "float_io \<Rightarrow> real \<Rightarrow> real \<Rightarrow> int \<Rightarrow> program_context \<Rightarrow> int \<Rightarrow> routine_value routine" where
  "hidden_client_run io alpha theta1 r1 ctx epr =
     sockets_of ctx ''server''
       (flush [EprCreate ''server'' epr, DoRotZ theta1 epr, DoH epr, DoMeas epr] (\<lambda>ms.
          csock_send_float io ''server'' (hidden_delta1 alpha theta1 r1 (ms ! 0))
            (Returned (DictValue [(''p1'', IntValue (ms ! 0))]))))"

definition hidden_server_run :: "float_io \<Rightarrow> program_context \<Rightarrow> int \<Rightarrow> routine_value routine" where
  "hidden_server_run io ctx epr =
     sockets_of ctx ''client''
       (flush [EprRecv ''client'' epr] (\<lambda>_. csock_recv_float io ''client'' (\<lambda>delta1.
          flush [DoRotZ delta1 epr, DoH epr, DoMeas epr] (\<lambda>ms.
            Returned (DictValue [(''m2'', IntValue (ms ! 0))])))))"

section \<open>Schedules and amplitudes\<close>

definition rsp_net :: "real \<Rightarrow> program_context \<Rightarrow> program_context \<Rightarrow> int \<Rightarrow> int \<Rightarrow> qstate \<Rightarrow> routine_value qnet" where
  "rsp_net theta1 cc cs a b psi = net2 ''client'' ''server'' (rsp_client_run theta1 cc a) (rsp_server_run cs b) [] [] psi"

definition hidden_net ::
    "float_io \<Rightarrow> real \<Rightarrow> real \<Rightarrow> int \<Rightarrow> program_context \<Rightarrow> program_context \<Rightarrow> int \<Rightarrow> int \<Rightarrow> qstate \<Rightarrow> routine_value qnet" where
  "hidden_net io alpha theta1 r1 cc cs a b psi =
     net2 ''client'' ''server'' (hidden_client_run io alpha theta1 r1 cc a) (hidden_server_run io cs b) [] [] psi"

definition pair_amps :: "real \<Rightarrow> real \<Rightarrow> int \<Rightarrow> int \<Rightarrow> bool \<Rightarrow> bool \<Rightarrow> qstate \<Rightarrow> qstate" where
  "pair_amps theta delta a b p m psi = measured b m (apply1 gate_H b (apply1 (gate_RZ delta) b
     (measured a p (apply1 gate_H a (apply1 (gate_RZ theta) a (epr_pair a b psi))))))"

definition pair_coef :: "real \<Rightarrow> real \<Rightarrow> bool \<Rightarrow> bool \<Rightarrow> complex" where
  "pair_coef theta delta p m = half_root * (\<Sum>v \<in> {False, True}. phase_of theta p v * phase_of delta m v) / 2"

lemma pair_amps_eq:
  assumes "a \<noteq> b"
  shows "pair_amps theta delta a b p m psi
     = (\<lambda>s. if s a = p \<and> s b = m then pair_coef theta delta p m * psi (s(a := False, b := False)) else 0)"
proof -
  have u: "s(b := u, a := False, b := False) = s(a := False, b := False)" for s :: "int \<Rightarrow> bool" and u
    using assms by (auto simp: fun_eq_iff)
  show ?thesis
    unfolding pair_amps_def prepared_eq [OF assms] pair_coef_def
    unfolding measured_XY_eq
    using assms by (auto simp: fun_eq_iff u algebra_simps)
qed

lemma pair_weight: "(cmod (pair_coef theta delta p m))\<^sup>2 = (1 + differ p m * cos (theta + delta)) / 4"
proof -
  let ?a = "theta + delta" and ?s = "differ p m"
  have c: "pair_coef theta delta p m = (1 / 2) * half_root * cis (- ?a / 2) * (1 + of_real ?s * cis ?a)"
    unfolding pair_coef_def phase_of_mult by (simp add: algebra_simps)
  have ring: "(1 + t * c)\<^sup>2 + (t * u)\<^sup>2 = 2 + 2 * (t * c)" if "t\<^sup>2 = 1" "u\<^sup>2 + c\<^sup>2 = 1" for t c u :: real
    using that by algebra
  have s: "(cmod (1 + of_real ?s * cis ?a))\<^sup>2 = 2 + 2 * (?s * cos ?a)"
    using ring [of ?s "sin ?a" "cos ?a"] by (simp add: cmod_power2 differ_def)
  have r: "(cmod half_root)\<^sup>2 = 1 / 2" by (simp add: half_root_def power_divide)
  show ?thesis unfolding c norm_mult norm_cis power_mult_distrib r s by (simp add: power_divide)
qed

text \<open>A rotated qubit measured in the X basis.\<close>

definition rotated_amp :: "real \<Rightarrow> bool \<Rightarrow> complex" where
  "rotated_amp alpha b = apply1 gate_H 0 (apply1 (gate_RZ alpha) 0 (\<lambda>s. half_root)) (\<lambda>_. b)"

lemma rotated_weight: "(cmod (rotated_amp alpha b))\<^sup>2 = (1 + differ b False * cos alpha) / 2"
proof -
  have "rotated_amp alpha b = 2 * half_root * pair_coef alpha 0 b False"
    by (cases b) (simp_all add: rotated_amp_def pair_coef_def apply1_def gate_H_def gate_RZ_def phase_of_def algebra_simps)
  moreover have "(cmod half_root)\<^sup>2 = 1 / 2" by (simp add: half_root_def power_divide)
  ultimately show ?thesis by (simp add: norm_mult power_mult_distrib pair_weight)
qed

lemma cos_shift: "cos (x + real_of_int n * pi) = (if even n then cos x else - cos x)"
  by (simp add: cos_add mult.commute [of _ pi] sin_npi_int cos_npi_int)

definition pair_done ::
    "(int \<Rightarrow> real) \<Rightarrow> real \<Rightarrow> int \<Rightarrow> int \<Rightarrow> qstate \<Rightarrow> routine_value qnet \<Rightarrow> bool" where
  "pair_done delta theta a b psi net \<longleftrightarrow> (\<exists>p m. bit p \<and> bit m
     \<and> net = net2 ''client'' ''server'' (Returned (DictValue [(''p1'', IntValue p)])) (Returned (DictValue [(''m2'', IntValue m)]))
         [] [] (pair_amps theta (delta p) a b (p = 1) (m = 1) psi))"

lemmas pair_run_defs = rsp_client_run_def rsp_server_run_def hidden_client_run_def hidden_server_run_def sockets_of_def
  flush_def socket_defs

lemma pair_owned:
  assumes "a \<noteq> b"
  shows "owned ((\<lambda>_. {})(''client'' := {a}, ''server'' := {b})) (rsp_net theta1 cc cs a b psi)"
    and "owned ((\<lambda>_. {})(''client'' := {a}, ''server'' := {b})) (hidden_net io alpha theta1 r1 cc cs a b psi)"
  unfolding rsp_net_def hidden_net_def
  by (rule net2_owned; use assms in \<open>auto simp: pair_run_defs intro!: acts_on_orFail\<close>)+

lemma rz_zero: "apply1 (gate_RZ 0) q psi = psi"
proof
  fix s :: "int \<Rightarrow> bool"
  have "s(q := s q) = s" by simp
  then show "apply1 (gate_RZ 0) q psi s = psi s" by (cases "s q") (simp_all add: apply1_def gate_RZ_def)
qed

lemma rsp_plays:
  assumes "has_sockets cc ''server''" and "has_sockets cs ''client''"
  shows "plays (pair_done (\<lambda>p. 0) theta1 a b psi) (replicate 4 ''client'' @ replicate 2 ''server'') (rsp_net theta1 cc cs a b psi)"
  using assms unfolding rsp_net_def has_sockets_def
  by (simp add: pair_run_defs net2_steps all_bits net2_over eval_nat_numeral cong: play_congs)
    (simp add: pair_done_def pair_amps_def rz_zero, blast)

lemma hidden_plays:
  assumes "has_sockets cc ''server''" and "has_sockets cs ''client''"
    and "float_roundtrip io (hidden_delta1 alpha theta1 r1 ` {0, 1})"
  shows "plays (pair_done (hidden_delta1 alpha theta1 r1) theta1 a b psi) (replicate 5 ''client'' @ replicate 4 ''server'')
     (hidden_net io alpha theta1 r1 cc cs a b psi)"
proof -
  have [simp]: "bit p \<Longrightarrow> float_of_str io (str_of_float io (hidden_delta1 alpha theta1 r1 p)) = Inr (hidden_delta1 alpha theta1 r1 p)" for p
    using assms(3) by (auto simp: float_roundtrip_def bit_def)
  note [simp] = orFail_simps
  show ?thesis
    using assms(1,2) unfolding hidden_net_def has_sockets_def
    by (simp add: pair_run_defs net2_steps all_bits net2_over eval_nat_numeral cong: play_congs)
      (simp add: pair_done_def pair_amps_def, blast)
qed

lemma pair_done_amps:
  assumes "pair_done delta theta a b psi net" and "a \<noteq> b"
  obtains p m where "bit p" "bit m" "progs net ''client'' = Returned (DictValue [(''p1'', IntValue p)])"
    "progs net ''server'' = Returned (DictValue [(''m2'', IntValue m)])"
    "amps net = (\<lambda>s. if s a = (p = 1) \<and> s b = (m = 1)
       then pair_coef theta (delta p) (p = 1) (m = 1) * psi (s(a := False, b := False)) else 0)"
  using assms unfolding pair_done_def pair_amps_eq [OF assms(2)] by (auto simp: net2_sel)

section \<open>Properties\<close>

text \<open>
  Driven measurements.  With angles in the clear and the second angle's sign chosen by
  the client, the server's second outcome has the distribution of the effective
  computation whatever the first one is, in every order of actions.
\<close>

theorem driven_computation:
  assumes "has_sockets cc ''server''" and "has_sockets cs ''client''" and "float_roundtrip io {alpha, beta, - beta}"
    and "e \<noteq> c" and "network_run (driven_net io alpha beta cc cs e c psi) k net"
  shows "k \<le> 17 \<and> ((\<exists>p net'. party_step p 0 net = Some net')
     \<or> (\<exists>m1 m2 w. bit m1 \<and> bit m2 \<and> progs net ''client'' = Returned (DictValue [])
         \<and> progs net ''server'' = Returned (DictValue [(''m1'', IntValue m1), (''m2'', IntValue m2)])
         \<and> amps net = (\<lambda>s. if s e = (m1 = 1) \<and> s c = (m2 = 1) then w * psi (s(e := False, c := False)) else 0)
         \<and> (cmod w)\<^sup>2 = (cmod (effective_amp alpha beta (m2 = 1)))\<^sup>2 / 2))"
proof -
  have l: "length driven_schedule = 17" by (simp add: driven_schedule_def)
  from schedule_independence [OF driven_plays [OF assms(1-3)] driven_owned assms(5)]
  have k: "k \<le> 17" "driven_done alpha beta e c psi net \<or> (\<exists>p net'. party_step p 0 net = Some net')" unfolding l by simp_all
  from k(2) show ?thesis
  proof
    assume "driven_done alpha beta e c psi net"
    then obtain m1 m2 where m: "bit m1" "bit m2" and net: "net = net2 ''client'' ''server'' (Returned (DictValue []))
        (Returned (DictValue [(''m1'', IntValue m1), (''m2'', IntValue m2)])) [] [] (driven_amps alpha beta e c m1 m2 psi)"
      unfolding driven_done_def by blast
    have n: "''client'' \<noteq> ''server''" by simp
    have "progs net ''client'' = Returned (DictValue [])"
      "progs net ''server'' = Returned (DictValue [(''m1'', IntValue m1), (''m2'', IntValue m2)])"
      unfolding net net2_sel [OF n] by simp_all
    moreover have "amps net = driven_amps alpha beta e c m1 m2 psi" unfolding net by (rule net2_sel(5) [OF n])
    ultimately show ?thesis using k(1) m driven_weight [OF m, of alpha beta] unfolding driven_amps_eq [OF assms(4)] by blast
  qed (use k(1) in blast)
qed

text \<open>
  A qubit prepared remotely at \<open>theta1\<close> and measured in the X basis: a rotation by \<open>theta1\<close>,
  flipped by the client's outcome.
\<close>

lemma prepared_measured:
  assumes "has_sockets cc ''server''" and "has_sockets cs ''client''" and "a \<noteq> b"
    and "network_run (rsp_net theta1 cc cs a b psi) k net"
  shows "k \<le> 6 \<and> ((\<exists>p net'. party_step p 0 net = Some net')
     \<or> (\<exists>p m c. bit p \<and> bit m \<and> progs net ''client'' = Returned (DictValue [(''p1'', IntValue p)])
         \<and> progs net ''server'' = Returned (DictValue [(''m2'', IntValue m)])
         \<and> amps net = (\<lambda>s. if s a = (p = 1) \<and> s b = (m = 1) then c * psi (s(a := False, b := False)) else 0)
         \<and> (cmod c)\<^sup>2 = (cmod (rotated_amp theta1 (p \<noteq> m)))\<^sup>2 / 2))"
proof -
  have w: "(cmod (pair_coef theta1 0 (p = 1) (m = 1)))\<^sup>2 = (cmod (rotated_amp theta1 (p \<noteq> m)))\<^sup>2 / 2" if "bit p" "bit m" for p m
    unfolding pair_weight rotated_weight using that by (auto simp: bit_def differ_def)
  from schedule_independence [OF rsp_plays [OF assms(1,2)] pair_owned(1) [OF assms(3)] assms(4)]
  have k: "k \<le> 6" "pair_done (\<lambda>p. 0) theta1 a b psi net \<or> (\<exists>p net'. party_step p 0 net = Some net')" by simp_all
  from k(2) show ?thesis
  proof
    assume "pair_done (\<lambda>p. 0) theta1 a b psi net"
    then show ?thesis using k(1) w by (blast elim: pair_done_amps [OF _ assms(3)])
  qed (use k(1) in blast)
qed

text \<open>
  A hidden rotation.  In every order of actions the run ends within nine actions, and
  whatever the random angle and bit and the client's outcome, which is uniformly random,
  the server's outcome, flipped by the bit, is that of a qubit rotated by \<open>alpha\<close>.
\<close>

theorem hidden_rotation:
  assumes "has_sockets cc ''server''" and "has_sockets cs ''client''"
    and "float_roundtrip io (hidden_delta1 alpha theta1 r1 ` {0, 1})" and "a \<noteq> b"
    and "network_run (hidden_net io alpha theta1 r1 cc cs a b psi) k net"
  shows "k \<le> 9 \<and> ((\<exists>p net'. party_step p 0 net = Some net')
     \<or> (\<exists>p m c. bit p \<and> bit m \<and> progs net ''client'' = Returned (DictValue [(''p1'', IntValue p)])
         \<and> progs net ''server'' = Returned (DictValue [(''m2'', IntValue m)])
         \<and> amps net = (\<lambda>s. if s a = (p = 1) \<and> s b = (m = 1) then c * psi (s(a := False, b := False)) else 0)
         \<and> (cmod c)\<^sup>2 = (cmod (rotated_amp alpha (odd (m + r1))))\<^sup>2 / 2))"
proof -
  have w: "(cmod (pair_coef theta1 (hidden_delta1 alpha theta1 r1 p) (p = 1) (m = 1)))\<^sup>2
      = (cmod (rotated_amp alpha (odd (m + r1))))\<^sup>2 / 2" if "bit p" "bit m" for p m
  proof -
    have a: "theta1 + hidden_delta1 alpha theta1 r1 p = alpha + real_of_int (p + r1) * pi" by (simp add: hidden_delta1_def)
    show ?thesis unfolding pair_weight rotated_weight a cos_shift using that by (auto simp: bit_def differ_def)
  qed
  from schedule_independence [OF hidden_plays [OF assms(1-3)] pair_owned(2) [OF assms(4)] assms(5)]
  have k: "k \<le> 9" "pair_done (hidden_delta1 alpha theta1 r1) theta1 a b psi net \<or> (\<exists>p net'. party_step p 0 net = Some net')"
    by simp_all
  from k(2) show ?thesis
  proof
    assume "pair_done (hidden_delta1 alpha theta1 r1) theta1 a b psi net"
    then show ?thesis using k(1) w by (blast elim: pair_done_amps [OF _ assms(4)])
  qed (use k(1) in blast)
qed

theorem driven_computation_witness:
  "\<exists>p net'. party_step p 0 (driven_net ex_float_io 0 0 (ex_program_context ''server'') (ex_program_context ''client'') 0 1 ex_amps)
     = Some net'"
proof -
  let ?net = "driven_net ex_float_io 0 0 (ex_program_context ''server'') (ex_program_context ''client'') 0 1 ex_amps"
  have "network_run ?net 0 ?net" by (rule nr_refl)
  from driven_computation [OF ex_sockets ex_sockets _ _ this]
  have "(\<exists>p net'. party_step p 0 ?net = Some net') \<or> (\<exists>v. progs ?net ''server'' = Returned v)"
    using ex_float_reads [of "{0}"] by simp blast
  moreover have "progs ?net ''server'' \<noteq> Returned v" for v
    by (simp add: driven_net_def net2_sel driven_defs ex_program_context_def)
  ultimately show ?thesis by blast
qed

theorem hidden_rotation_witness:
  "\<exists>p net'. party_step p 0 (hidden_net ex_float_io 0 0 0 (ex_program_context ''server'') (ex_program_context ''client'') 0 1 ex_amps)
     = Some net'"
proof -
  let ?net = "hidden_net ex_float_io 0 0 0 (ex_program_context ''server'') (ex_program_context ''client'') 0 1 ex_amps"
  have "float_roundtrip ex_float_io (hidden_delta1 0 0 0 ` {0, 1})"
    by (rule ex_float_reads) (auto simp: hidden_delta1_def)
  moreover have "network_run ?net 0 ?net" by (rule nr_refl)
  ultimately have "(\<exists>p net'. party_step p 0 ?net = Some net') \<or> (\<exists>v. progs ?net ''server'' = Returned v)"
    using hidden_rotation [OF ex_sockets ex_sockets, of ex_float_io 0 0 0 0 1 ex_amps 0 ?net] by simp blast
  moreover have "progs ?net ''server'' \<noteq> Returned v" for v
    by (simp add: hidden_net_def net2_sel pair_run_defs ex_program_context_def)
  ultimately show ?thesis by blast
qed

end
