(* ===== verification/GhzLine.thy ===== *)
theory GhzLine
  imports CSocket Schedules
begin

text \<open>
  GHZ states along a line of any number of nodes: the program of
  \<open>examples/advanced/ghz/example_ghz.py\<close>, which runs \<open>create_ghz\<close> with corrections on every
  node and measures.
\<close>

section \<open>The program\<close>

definition has_line_socket :: "program_context \<Rightarrow> string \<Rightarrow> bool" where
  "has_line_socket ctx peer \<longleftrightarrow> peer \<in> set (dict_keys (pc_epr_sockets ctx)) \<and> peer \<in> set (pc_csockets ctx)"

text \<open>\<open>node_names.index(name)\<close>.\<close>

fun list_index :: "string list \<Rightarrow> string \<Rightarrow> nat result" where
  "list_index [] x = Inl ValueError"
| "list_index (y # ys) x = (if y = x then Inr 0 else case list_index ys x of Inl e \<Rightarrow> Inl e | Inr i \<Rightarrow> Inr (Suc i))"

text \<open>The sockets down and up the line, where there is a node; then the routine, then the measurement.\<close>

definition ghz_program_run :: "string \<Rightarrow> string list \<Rightarrow> program_context \<Rightarrow> int \<Rightarrow> int \<Rightarrow> routine_value routine" where
  "ghz_program_run name node_names ctx q q_up =
     orFail (list_index node_names name) (\<lambda>i.
       let down = (if 0 < i then Some (node_names ! (i - 1)) else None);
           up = (if i + 1 < length node_names then Some (node_names ! (i + 1)) else None)
       in if (\<forall>peer \<in> set_option down \<union> set_option up. has_line_socket ctx peer) then
            routine_bind (create_ghz down up down up True q q_up) (\<lambda>r.
              case r of
                QubitOutcome qubit m \<Rightarrow> flush [DoMeas qubit] (\<lambda>ms.
                  Returned (DictValue [(''name'', StrValue name), (''result'', IntValue (ms ! 0))]))
              | _ \<Rightarrow> Failed TypeError)
          else Failed KeyError)"

lemma list_index_nth: "distinct ns \<Longrightarrow> i < length ns \<Longrightarrow> list_index ns (ns ! i) = Inr i"
proof (induction ns arbitrary: i)
  case (Cons n ns)
  then show ?case by (cases i) auto
qed simp

section \<open>Networks of numbered nodes\<close>

definition line_net ::
    "string list \<Rightarrow> (nat \<Rightarrow> routine_value routine) \<Rightarrow> (nat \<times> nat \<Rightarrow> string list) \<Rightarrow> qstate \<Rightarrow> routine_value qnet" where
  "line_net ns f c psi =
     \<lparr>progs = (\<lambda>p. case list_index ns p of Inl e \<Rightarrow> Returned NoValue | Inr i \<Rightarrow> f i),
      chan = (\<lambda>(p, p'). case list_index ns p of Inl e \<Rightarrow> []
        | Inr i \<Rightarrow> (case list_index ns p' of Inl e \<Rightarrow> [] | Inr j \<Rightarrow> c (i, j))),
      amps = psi\<rparr>"

lemma list_index_Inr: "list_index ns p = Inr i \<Longrightarrow> i < length ns \<and> ns ! i = p"
  by (induction ns arbitrary: i) (auto split: if_splits sum.splits)

lemma line_sel:
  assumes "distinct ns" and "i < length ns" and "j < length ns"
  shows "progs (line_net ns f c psi) (ns ! i) = f i" "chan (line_net ns f c psi) (ns ! i, ns ! j) = c (i, j)"
    "amps (line_net ns f c psi) = psi"
  using assms by (simp_all add: line_net_def list_index_nth)

lemma line_upd:
  assumes "distinct ns" and "i < length ns"
  shows "(\<lambda>p. case list_index ns p of Inl e \<Rightarrow> Returned NoValue | Inr i \<Rightarrow> f i)(ns ! i := r)
     = (\<lambda>p. case list_index ns p of Inl e \<Rightarrow> Returned NoValue | Inr j \<Rightarrow> (f(i := r)) j)"
  using assms by (auto simp: fun_eq_iff list_index_nth dest: list_index_Inr split: sum.splits)

lemma line_chan_upd:
  assumes "distinct ns" and "i < length ns" and "j < length ns"
  shows "(\<lambda>(p, p'). case list_index ns p of Inl e \<Rightarrow> []
        | Inr i \<Rightarrow> (case list_index ns p' of Inl e \<Rightarrow> [] | Inr j \<Rightarrow> c (i, j)))((ns ! i, ns ! j) := l)
     = (\<lambda>(p, p'). case list_index ns p of Inl e \<Rightarrow> []
        | Inr i' \<Rightarrow> (case list_index ns p' of Inl e \<Rightarrow> [] | Inr j' \<Rightarrow> (c((i, j) := l)) (i', j')))"
  using assms by (auto simp: fun_eq_iff list_index_nth dest: list_index_Inr split: sum.splits)

text \<open>Steps of a numbered network.\<close>

lemma line_local:
  assumes "distinct ns" and "i < length ns" and "move_of m (f i) = Some (Locally h r)"
  shows "party_step (ns ! i) m (line_net ns f c psi) = Some (line_net ns (f(i := r)) c (h psi))"
  using assms unfolding party_step_move line_sel [OF assms(1,2,2)]
  by (simp add: line_net_def line_upd del: fun_upd_apply)

lemma line_send:
  assumes "distinct ns" and "i < length ns" and "j < length ns" and "move_of m (f i) = Some (Sending (ns ! j) msg r)"
  shows "party_step (ns ! i) m (line_net ns f c psi) = Some (line_net ns (f(i := r)) (c((i, j) := c (i, j) @ [msg])) psi)"
  using assms unfolding party_step_move line_sel [OF assms(1,2,2)]
  by (simp add: line_sel) (simp add: line_net_def line_upd line_chan_upd del: fun_upd_apply)

lemma line_recv:
  assumes "distinct ns" and "i < length ns" and "j < length ns" and "move_of m (f i) = Some (Receiving (ns ! j) k)"
    and "c (j, i) = msg # rest"
  shows "party_step (ns ! i) m (line_net ns f c psi) = Some (line_net ns (f(i := k msg)) (c((j, i) := rest)) psi)"
  using assms unfolding party_step_move line_sel [OF assms(1,2,2)]
  by (simp add: line_sel) (simp add: line_net_def line_upd line_chan_upd del: fun_upd_apply)

lemma line_pair:
  assumes "distinct ns" and "i < length ns" and "j < length ns" and "i \<noteq> j"
    and "move_of m (f i) = Some (Pairing (ns ! j) a r)" and "offers (f j) = Some (ns ! i, b, r')"
  shows "party_step (ns ! i) m (line_net ns f c psi) = Some (line_net ns (f(i := r, j := r')) c (epr_pair a b psi))"
proof -
  have "ns ! j \<noteq> ns ! i" using assms(1-4) by (simp add: nth_eq_iff_index_eq)
  then show ?thesis
    using assms unfolding party_step_move line_sel [OF assms(1,2,2)]
    by (simp add: line_sel) (simp add: line_net_def line_upd del: fun_upd_apply)
qed

section \<open>What the nodes run\<close>

text \<open>The program of node \<open>i\<close> of \<open>0\<close> to \<open>n\<close>, after each of its actions.\<close>

definition ghz_result :: "string list \<Rightarrow> nat \<Rightarrow> int \<Rightarrow> routine_value routine" where
  "ghz_result ns i r = Returned (DictValue [(''name'', StrValue (ns ! i)), (''result'', IntValue r)])"

definition ghz_measure :: "string list \<Rightarrow> int \<Rightarrow> nat \<Rightarrow> routine_value routine" where
  "ghz_measure ns q i = Flushing [DoMeas q] [] (\<lambda>ms. ghz_result ns i (ms ! 0))"

definition ghz_flip :: "string list \<Rightarrow> int \<Rightarrow> nat \<Rightarrow> int \<Rightarrow> routine_value routine" where
  "ghz_flip ns q i corr = flush (if corr = 1 then [DoX q] else []) (\<lambda>_. ghz_measure ns q i)"

definition ghz_fix :: "string list \<Rightarrow> int \<Rightarrow> nat \<Rightarrow> int \<Rightarrow> routine_value routine" where
  "ghz_fix ns q i m = RecvMsg (ns ! (i - 1)) (\<lambda>val. orFail (py_int val) (\<lambda>corr.
     if i + 1 < length ns then SendMsg (ns ! (i + 1)) (py_str ((corr + m) mod 2)) (ghz_flip ns q i corr)
     else ghz_flip ns q i corr))"

definition ghz_held :: "string list \<Rightarrow> int \<Rightarrow> int \<Rightarrow> nat \<Rightarrow> routine_value routine" where
  "ghz_held ns q u i = (if i + 1 < length ns then
     Flushing [EprCreate (ns ! (i + 1)) u, DoCnot q u, DoMeas u] [] (\<lambda>ms. ghz_fix ns q i (ms ! 0)) else ghz_fix ns q i 0)"

definition ghz_wait :: "string list \<Rightarrow> int \<Rightarrow> int \<Rightarrow> nat \<Rightarrow> routine_value routine" where
  "ghz_wait ns q u i =
     (if i = 0 then Flushing [EprCreate (ns ! 1) q] [] (\<lambda>_. SendMsg (ns ! 1) (py_str 0) (ghz_measure ns q 0))
      else if i + 1 < length ns then
        Flushing [EprRecv (ns ! (i - 1)) q, EprCreate (ns ! (i + 1)) u, DoCnot q u, DoMeas u] [] (\<lambda>ms. ghz_fix ns q i (ms ! 0))
      else Flushing [EprRecv (ns ! (i - 1)) q] [] (\<lambda>_. ghz_fix ns q i 0))"

definition ghz_start :: "string list \<Rightarrow> int \<Rightarrow> int \<Rightarrow> nat \<Rightarrow> routine_value routine" where
  "ghz_start ns q u i =
     (if i = 0 then RecvMsg (ns ! 1) (\<lambda>_. ghz_wait ns q u i)
      else if i + 1 < length ns then SendMsg (ns ! (i - 1)) [] (RecvMsg (ns ! (i + 1)) (\<lambda>_. ghz_wait ns q u i))
      else SendMsg (ns ! (i - 1)) [] (ghz_wait ns q u i))"

definition line_context :: "string list \<Rightarrow> nat \<Rightarrow> program_context \<Rightarrow> bool" where
  "line_context ns i ctx \<longleftrightarrow> (0 < i \<longrightarrow> has_line_socket ctx (ns ! (i - 1)))
     \<and> (i + 1 < length ns \<longrightarrow> has_line_socket ctx (ns ! (i + 1)))"

lemma ghz_program_start:
  assumes "distinct ns" and "2 \<le> length ns" and "i < length ns" and "line_context ns i ctx"
  shows "ghz_program_run (ns ! i) ns ctx q u = ghz_start ns q u i"
proof -
  have m: "flush [DoMeas q] (\<lambda>ms. Returned (DictValue [(''name'', StrValue (ns ! i)), (''result'', IntValue (ms ! 0))]))
      = ghz_measure ns q i"
    by (simp add: flush_def ghz_measure_def ghz_result_def)
  have f: "flush cs (\<lambda>_. ghz_measure ns q i) = ghz_flip ns q i corr" if "cs = (if corr = 1 then [DoX q] else [])" for cs corr
    using that by (simp add: ghz_flip_def)
  consider "i = 0" | "0 < i" "i + 1 < length ns" | "0 < i" "i + 1 = length ns" using assms(3) by linarith
  then show ?thesis
  proof cases
    case 1
    then show ?thesis using assms
      by (simp add: ghz_program_run_def list_index_nth orFail_def line_context_def create_ghz_def on_socket_def
          ghz_corrections_def ghz_start_def ghz_wait_def flush_def ghz_measure_def ghz_result_def)
  next
    case 2
    then show ?thesis using assms
      by (simp add: ghz_program_run_def list_index_nth line_context_def create_ghz_def on_socket_def orFail_simps
          ghz_corrections_def ghz_start_def ghz_wait_def ghz_fix_def recv_int_def m f cong: if_cong)
        (simp add: flush_def)
  next
    case 3
    then show ?thesis using assms
      by (simp add: ghz_program_run_def list_index_nth line_context_def create_ghz_def on_socket_def orFail_simps
          ghz_corrections_def ghz_start_def ghz_wait_def ghz_fix_def recv_int_def m f cong: if_cong)
        (simp add: flush_def)
  qed
qed

section \<open>The state of a chain\<close>

text \<open>The correction that reaches node \<open>b\<close>, given the outcomes \<open>m\<close> of the nodes before it.\<close>

primrec ghz_corr :: "(nat \<Rightarrow> int) \<Rightarrow> nat \<Rightarrow> int" where
  "ghz_corr m 0 = 0"
| "ghz_corr m (Suc b) = (if b = 0 then 0 else (ghz_corr m b + m b) mod 2)"

lemma ghz_corr_bit: "bit (ghz_corr m b)"
  by (cases b) (auto simp: bit_def)

lemma ghz_corr_upd: "b \<le> i \<Longrightarrow> ghz_corr (m(i := x)) b = ghz_corr m b"
  by (induction b) auto

definition chain_clear :: "(nat \<Rightarrow> int) \<Rightarrow> (nat \<Rightarrow> int) \<Rightarrow> nat \<Rightarrow> (int \<Rightarrow> bool) \<Rightarrow> int \<Rightarrow> bool" where
  "chain_clear q u b s = (\<lambda>x. if x \<in> q ` {..b} \<union> u ` {0<..<b} then False else s x)"

text \<open>The bits the nodes before \<open>b\<close> have found, which all are the first one.\<close>

definition chain_agrees :: "(nat \<Rightarrow> int) \<Rightarrow> (nat \<Rightarrow> int) \<Rightarrow> nat \<Rightarrow> (nat \<Rightarrow> int) \<Rightarrow> (nat \<Rightarrow> int) \<Rightarrow> (int \<Rightarrow> bool) \<Rightarrow> bool" where
  "chain_agrees q u b r m s \<longleftrightarrow>
     (\<forall>j<b. s (q j) = (r j = 1) \<and> (r j = 1) = (r 0 = 1) \<and> (0 < j \<longrightarrow> s (u j) = (m j = 1)))"

text \<open>
  The amplitudes when the nodes before \<open>b\<close> have measured \<open>r\<close>, and node \<open>b\<close>, if it is not the
  first, holds the other half of a pair: the outcomes are equal, and the qubit held differs
  from them by the correction on its way.
\<close>

definition chain_amps :: "(nat \<Rightarrow> int) \<Rightarrow> (nat \<Rightarrow> int) \<Rightarrow> nat \<Rightarrow> (nat \<Rightarrow> int) \<Rightarrow> (nat \<Rightarrow> int) \<Rightarrow> qstate \<Rightarrow> qstate" where
  "chain_amps q u b r m psi =
     (\<lambda>s. if chain_agrees q u b r m s \<and> (s (q b) \<noteq> (ghz_corr m b = 1)) = (r 0 = 1)
      then half_root ^ b * psi (chain_clear q u b s) else 0)"

definition flipped_if :: "bool \<Rightarrow> int \<Rightarrow> qstate \<Rightarrow> qstate" where
  "flipped_if c q = (if c then apply1 gate_X q else (\<lambda>psi. psi))"

lemma chain_step:
  assumes "distinct [q, u, q']"
  shows "measured q r (flipped_if c q (measured u m (cnot q u (epr_pair u q' phi))))
     = (\<lambda>s. if s q = r \<and> s u = m \<and> s q' = (m \<noteq> (r \<noteq> c)) then half_root * phi (s(q := r \<noteq> c, u := False, q' := False)) else 0)"
proof
  fix s :: "int \<Rightarrow> bool"
  have d: "q \<noteq> u" "q \<noteq> q'" "u \<noteq> q'" "u \<noteq> q" "q' \<noteq> q" "q' \<noteq> u" using assms by auto
  have t: "s(u := x, u := False, q' := False) = s(u := False, q' := False)" for x by simp
  have k: "s(q := s q) = s" by simp
  show "measured q r (flipped_if c q (measured u m (cnot q u (epr_pair u q' phi)))) s
     = (if s q = r \<and> s u = m \<and> s q' = (m \<noteq> (r \<noteq> c)) then half_root * phi (s(q := r \<noteq> c, u := False, q' := False)) else 0)"
    using d k by (cases c; cases "s q"; cases "s u"; cases "s q'"; cases m; cases r)
      (simp_all add: flipped_if_def gate_defs)
qed

lemma chain_first:
  assumes "q 0 \<noteq> q 1" and "bit x"
  shows "measured (q 0) (x = 1) (epr_pair (q 0) (q 1) psi) = chain_amps q u 1 (r(0 := x)) m psi"
proof -
  have c: "chain_clear q u (Suc 0) s = s(q 0 := False, q (Suc 0) := False)" for s
    by (auto simp: chain_clear_def fun_eq_iff atMost_Suc)
  show ?thesis by (rule ext) (use assms in \<open>auto simp: c chain_agrees_def chain_amps_def measured_def epr_pair_def bit_def\<close>)
qed

definition chain_distinct :: "(nat \<Rightarrow> int) \<Rightarrow> (nat \<Rightarrow> int) \<Rightarrow> nat \<Rightarrow> bool" where
  "chain_distinct q u n \<longleftrightarrow> (\<forall>i\<le>n. \<forall>j\<le>n. (i \<noteq> j \<longrightarrow> q i \<noteq> q j \<and> u i \<noteq> u j) \<and> q i \<noteq> u j)"

lemma chain_distinctD:
  assumes "chain_distinct q u n" and "i \<le> n" and "j \<le> n"
  shows "q i \<noteq> u j" "u j \<noteq> q i" "i \<noteq> j \<Longrightarrow> q i \<noteq> q j" "i \<noteq> j \<Longrightarrow> u i \<noteq> u j"
proof -
  have "q i \<noteq> u j \<and> (i \<noteq> j \<longrightarrow> q i \<noteq> q j \<and> u i \<noteq> u j)" using assms unfolding chain_distinct_def by blast
  then show "q i \<noteq> u j" "u j \<noteq> q i" "i \<noteq> j \<Longrightarrow> q i \<noteq> q j" "i \<noteq> j \<Longrightarrow> u i \<noteq> u j" by auto
qed

lemma chain_next:
  assumes "chain_distinct q u n" and "0 < b" and "b < n" and "bit x" and "bit y" and "\<forall>j. bit (r j)"
  shows "measured (q b) (x = 1) (flipped_if (ghz_corr m b = 1) (q b) (measured (u b) (y = 1) (cnot (q b) (u b)
       (epr_pair (u b) (q (Suc b)) (chain_amps q u b r m psi)))))
     = chain_amps q u (Suc b) (r(b := x)) (m(b := y)) psi"
proof
  fix s :: "int \<Rightarrow> bool"
  let ?s = "s(q b := (x = 1) \<noteq> (ghz_corr m b = 1), u b := False, q (Suc b) := False)"
  have "q b \<noteq> u b" "q b \<noteq> q (Suc b)" "q (Suc b) \<noteq> u b" using assms(3) by (simp_all add: chain_distinctD [OF assms(1)])
  then have d: "distinct [q b, u b, q (Suc b)]" by auto
  have cl: "chain_clear q u b ?s = chain_clear q u (Suc b) s"
    using assms(2) by (auto simp: chain_clear_def fun_eq_iff atMost_Suc greaterThanLessThan_def lessThan_Suc)
  have old: "?s (q j) = s (q j)" "0 < j \<Longrightarrow> ?s (u j) = s (u j)" if "j < b" for j
    using that assms(3) by (simp_all add: chain_distinctD [OF assms(1)])
  have qb: "?s (q b) = ((x = 1) \<noteq> (ghz_corr m b = 1))" using d by auto
  have c: "(ghz_corr (m(b := y)) (Suc b) = 1) = ((ghz_corr m b = 1) \<noteq> (y = 1))"
    using assms(2,5) ghz_corr_bit [of m b] by (auto simp: ghz_corr_upd bit_def)
  have r0: "(r(b := x)) 0 = r 0" using assms(2) by simp
  have before: "chain_agrees q u b r m ?s = chain_agrees q u b r m s"
    unfolding chain_agrees_def by (intro all_cong conj_cong imp_cong refl) (simp_all only: old)
  have after: "chain_agrees q u (Suc b) (r(b := x)) (m(b := y)) s
      = (chain_agrees q u b r m s \<and> s (q b) = (x = 1) \<and> (x = 1) = (r 0 = 1) \<and> s (u b) = (y = 1))"
    using assms(2) unfolding chain_agrees_def less_Suc_eq by auto
  show "measured (q b) (x = 1) (flipped_if (ghz_corr m b = 1) (q b) (measured (u b) (y = 1) (cnot (q b) (u b)
       (epr_pair (u b) (q (Suc b)) (chain_amps q u b r m psi))))) s
     = chain_amps q u (Suc b) (r(b := x)) (m(b := y)) psi s"
    unfolding chain_step [OF d] chain_amps_def cl c r0 qb before after
    by (cases "s (q b)"; cases "s (u b)"; cases "s (q (Suc b))"; cases "x = 1"; cases "y = 1"; cases "ghz_corr m b = 1"; simp)
qed

lemma chain_last:
  assumes "chain_distinct q u n" and "0 < n" and "bit x"
  shows "measured (q n) (x = 1) (flipped_if (ghz_corr m n = 1) (q n) (chain_amps q u n r m psi))
     = (\<lambda>s. if (\<forall>j\<le>n. s (q j) = ((r(n := x)) j = 1) \<and> ((r(n := x)) j = 1) = (r 0 = 1) \<and> (0 < j \<and> j < n \<longrightarrow> s (u j) = (m j = 1)))
        then half_root ^ n * psi (chain_clear q u n s) else 0)"
proof
  fix s :: "int \<Rightarrow> bool"
  have cl: "chain_clear q u n (s(q n := v)) = chain_clear q u n s" for v
    by (auto simp: chain_clear_def fun_eq_iff)
  have old: "(s(q n := v)) (q j) = s (q j)" "0 < j \<Longrightarrow> (s(q n := v)) (u j) = s (u j)" if "j < n" for j v
    using that by (simp_all add: chain_distinctD [OF assms(1)])
  have fl: "flipped_if c (q n) phi s = phi (s(q n := s (q n) \<noteq> c))" for c phi
    by (cases c; cases "s (q n)") (simp_all add: flipped_if_def apply1_def gate_X_def fun_upd_idem)
  have before: "chain_agrees q u n r m (s(q n := v)) = chain_agrees q u n r m s" for v
    unfolding chain_agrees_def by (intro all_cong conj_cong imp_cong refl) (simp_all only: old)
  have after: "(\<forall>j\<le>n. s (q j) = ((r(n := x)) j = 1) \<and> ((r(n := x)) j = 1) = (r 0 = 1) \<and> (0 < j \<and> j < n \<longrightarrow> s (u j) = (m j = 1)))
      = (chain_agrees q u n r m s \<and> s (q n) = (x = 1) \<and> (x = 1) = (r 0 = 1))"
    unfolding chain_agrees_def le_less by auto
  show "measured (q n) (x = 1) (flipped_if (ghz_corr m n = 1) (q n) (chain_amps q u n r m psi)) s
     = (if (\<forall>j\<le>n. s (q j) = ((r(n := x)) j = 1) \<and> ((r(n := x)) j = 1) = (r 0 = 1) \<and> (0 < j \<and> j < n \<longrightarrow> s (u j) = (m j = 1)))
        then half_root ^ n * psi (chain_clear q u n s) else 0)"
    unfolding measured_def fl chain_amps_def cl before after
    by (cases "s (q n)"; cases "x = 1"; cases "ghz_corr m n = 1"; simp)
qed

section \<open>A schedule of the line\<close>

lemma line_cong: "f = f' \<Longrightarrow> c = c' \<Longrightarrow> psi = psi' \<Longrightarrow> line_net ns f c psi = line_net ns f' c' psi'"
  by simp

text \<open>First the nodes wake each other, from the end of the line down.\<close>

definition waking :: "string list \<Rightarrow> (nat \<Rightarrow> int) \<Rightarrow> (nat \<Rightarrow> int) \<Rightarrow> nat \<Rightarrow> qstate \<Rightarrow> routine_value qnet" where
  "waking ns q u a psi =
     line_net ns (\<lambda>j. if j \<le> a then ghz_start ns (q j) (u j) j else ghz_wait ns (q j) (u j) j)
       (\<lambda>x. if x = (Suc a, a) then [[]] else []) psi"

primrec wake_schedule :: "string list \<Rightarrow> nat \<Rightarrow> string list" where
  "wake_schedule ns 0 = [ns ! 0]"
| "wake_schedule ns (Suc a) = ns ! Suc a # ns ! Suc a # wake_schedule ns a"

definition all_waiting :: "string list \<Rightarrow> (nat \<Rightarrow> int) \<Rightarrow> (nat \<Rightarrow> int) \<Rightarrow> qstate \<Rightarrow> routine_value qnet" where
  "all_waiting ns q u psi = line_net ns (\<lambda>j. ghz_wait ns (q j) (u j) j) (\<lambda>_. []) psi"

lemma wake_nodes:
  assumes "distinct ns" and "Suc a < length ns" and "reaches R qs (all_waiting ns q u psi)"
  shows "reaches R (wake_schedule ns a @ qs) (waking ns q u a psi)"
  using assms(2)
proof (induction a)
  case 0
  then have l: "0 < length ns" "1 < length ns" by auto
  have "party_step (ns ! 0) m (waking ns q u 0 psi) = Some (all_waiting ns q u psi)" for m
    unfolding waking_def all_waiting_def
    by (subst line_recv [OF assms(1) l, where rest = "[]"])
      (auto simp: ghz_start_def intro!: line_cong)
  then show ?case using assms(3) by (auto intro: reaches_det)
next
  case (Suc a)
  then have l: "Suc a < length ns" "a < length ns" "Suc (Suc a) < length ns" by simp_all
  let ?f = "\<lambda>j. if j \<le> Suc a then ghz_start ns (q j) (u j) j else ghz_wait ns (q j) (u j) j"
  let ?c = "\<lambda>x. if x = (Suc (Suc a), Suc a) then [[]] else ([] :: string list)"
  let ?mid = "line_net ns (?f(Suc a := RecvMsg (ns ! Suc (Suc a)) (\<lambda>_. ghz_wait ns (q (Suc a)) (u (Suc a)) (Suc a))))
     (?c((Suc a, a) := [[]])) psi"
  have "party_step (ns ! Suc a) m (waking ns q u (Suc a) psi) = Some ?mid" for m
    unfolding waking_def using l
    by (subst line_send [OF assms(1) l(1,2)]) (auto simp: ghz_start_def)
  moreover have "party_step (ns ! Suc a) m ?mid = Some (waking ns q u a psi)" for m
    unfolding waking_def using l
    by (subst line_recv [OF assms(1) l(1,3), where rest = "[]"]) (auto intro!: line_cong simp: fun_eq_iff le_Suc_eq)
  ultimately show ?case using Suc.IH l by (auto intro!: reaches_det)
qed

lemma wake_all:
  assumes "distinct ns" and "length ns = Suc n" and "0 < n" and "reaches R qs (all_waiting ns q u psi)"
  shows "reaches R ((ns ! n # wake_schedule ns (n - 1)) @ qs) (line_net ns (\<lambda>j. ghz_start ns (q j) (u j) j) (\<lambda>_. []) psi)"
proof -
  have l: "n < length ns" "n - 1 < length ns" "Suc (n - 1) < length ns" using assms(2,3) by simp_all
  have "party_step (ns ! n) m (line_net ns (\<lambda>j. ghz_start ns (q j) (u j) j) (\<lambda>_. []) psi)
      = Some (line_net ns ((\<lambda>j. ghz_start ns (q j) (u j) j)(n := ghz_wait ns (q n) (u n) n)) ((\<lambda>_. [])((n, n - 1) := [[]])) psi)" for m
    using assms(2,3) by (subst line_send [OF assms(1) l(1,2)]) (auto simp: ghz_start_def)
  moreover have "line_net ns ((\<lambda>j. ghz_start ns (q j) (u j) j)(n := ghz_wait ns (q n) (u n) n)) ((\<lambda>_. [])((n, n - 1) := [[]])) psi
      = line_net ns (\<lambda>j. if j \<le> n - 1 then ghz_start ns (q j) (u j) j else if j = n then ghz_wait ns (q j) (u j) j
           else ghz_start ns (q j) (u j) j) (\<lambda>x. if x = (Suc (n - 1), n - 1) then [[]] else []) psi"
    using assms(3) by (intro line_cong) (auto simp: fun_eq_iff)
  moreover have "\<dots> = waking ns q u (n - 1) psi"
    unfolding waking_def line_net_def using assms(2)
    by (auto simp: fun_eq_iff dest: list_index_Inr split: sum.splits)
  ultimately show ?thesis using wake_nodes [OF assms(1) l(3) assms(4)] by (auto intro!: reaches_det)
qed

text \<open>Then each node in turn makes its pair, merges it, passes the correction on and measures.\<close>

definition chain_state ::
    "string list \<Rightarrow> (nat \<Rightarrow> int) \<Rightarrow> (nat \<Rightarrow> int) \<Rightarrow> nat \<Rightarrow> (nat \<Rightarrow> int) \<Rightarrow> (nat \<Rightarrow> int) \<Rightarrow> qstate \<Rightarrow> routine_value qnet" where
  "chain_state ns q u b r m psi =
     line_net ns (\<lambda>j. if j < b then ghz_result ns j (r j) else if j = b then ghz_held ns (q j) (u j) j
         else ghz_wait ns (q j) (u j) j)
       (\<lambda>x. if x = (b - 1, b) then [py_str (ghz_corr m b)] else []) (chain_amps q u b r m psi)"

lemma flip_and_measure:
  assumes "distinct ns" and "i < length ns"
    and "\<And>x. bit x \<Longrightarrow> reaches R qs (line_net ns (f(i := ghz_result ns i x)) c (measured q (x = 1) (flipped_if (corr = 1) q psi)))"
  shows "reaches R (ns ! i # ns ! i # qs) (line_net ns (f(i := ghz_flip ns q i corr)) c psi)"
proof -
  have meas: "party_step (ns ! i) m (line_net ns (f(i := ghz_measure ns q i)) c phi)
      = (if m = 0 \<or> m = 1 then Some (line_net ns (f(i := ghz_result ns i m)) c (measured q (m = 1) phi)) else None)" for m phi
  proof (cases "m = 0 \<or> m = 1")
    case True
    then have "move_of m ((f(i := ghz_measure ns q i)) i) = Some (Locally (measured q (m = 1)) (ghz_result ns i m))"
      by (simp add: ghz_measure_def)
    from line_local [OF assms(1,2), of m "f(i := ghz_measure ns q i)", OF this] True show ?thesis by simp
  next
    case False
    then show ?thesis by (simp add: party_step_move line_sel [OF assms(1,2,2)] ghz_measure_def)
  qed
  have over: "party_step (ns ! i) m (line_net ns (f(i := ghz_result ns i x)) c phi) = None" for m x phi
    by (simp add: party_step_move line_sel [OF assms(1,2,2)] ghz_result_def)
  show ?thesis
  proof (cases "corr = 1")
    case True
    then have "move_of m ((f(i := ghz_flip ns q i corr)) i) = Some (Locally (apply1 gate_X q) (ghz_measure ns q i))" for m
      by (simp add: ghz_flip_def flush_def)
    from line_local [OF assms(1,2), of _ "f(i := ghz_flip ns q i corr)", OF this]
    have "party_step (ns ! i) m (line_net ns (f(i := ghz_flip ns q i corr)) c psi)
        = Some (line_net ns (f(i := ghz_measure ns q i)) c (apply1 gate_X q psi))" for m by simp
    moreover have "reaches R (ns ! i # qs) (line_net ns (f(i := ghz_measure ns q i)) c (apply1 gate_X q psi))"
      by (rule reaches_meas [OF meas]) (use assms(3) True in \<open>simp add: flipped_if_def\<close>)
    ultimately show ?thesis by (auto intro: reaches_det)
  next
    case False
    then have f: "ghz_flip ns q i corr = ghz_measure ns q i" by (simp add: ghz_flip_def flush_def)
    show ?thesis
      unfolding f
      by (rule reaches_meas [OF meas], rule reaches_skip [OF over]) (use assms(3) False in \<open>simp add: flipped_if_def\<close>)
  qed
qed

lemma first_link:
  assumes "distinct ns" and "length ns = Suc n" and "0 < n" and "chain_distinct q u n"
    and "\<And>x. bit x \<Longrightarrow> reaches R qs (chain_state ns q u 1 (r(0 := x)) m psi)"
  shows "reaches R (ns ! 0 # ns ! 0 # ns ! 0 # qs) (all_waiting ns q u psi)"
proof -
  have l: "0 < length ns" "1 < length ns" using assms(2,3) by auto
  have q: "q 0 \<noteq> q 1" using chain_distinctD(3) [OF assms(4), of 0 1] assms(3) by simp
  let ?w = "\<lambda>j. ghz_wait ns (q j) (u j) j"
  let ?f = "?w(0 := SendMsg (ns ! 1) (py_str 0) (ghz_measure ns (q 0) 0), 1 := ghz_held ns (q 1) (u 1) 1)"
  let ?g = "?w(0 := ghz_measure ns (q 0) 0, 1 := ghz_held ns (q 1) (u 1) 1)"
  let ?c = "(\<lambda>_. [])((0, 1) := [py_str 0])"
  have pair: "party_step (ns ! 0) k (all_waiting ns q u psi) = Some (line_net ns ?f (\<lambda>_. []) (epr_pair (q 0) (q 1) psi))" for k
    unfolding all_waiting_def
    by (rule line_pair [OF assms(1) l]) (use assms(2,3) in \<open>auto simp: ghz_wait_def ghz_held_def\<close>)
  have send: "party_step (ns ! 0) k (line_net ns ?f (\<lambda>_. []) (epr_pair (q 0) (q 1) psi))
      = Some (line_net ns ?g ?c (epr_pair (q 0) (q 1) psi))" for k
    by (subst line_send [OF assms(1) l]) (auto intro!: line_cong)
  have meas: "party_step (ns ! 0) x (line_net ns ?g ?c (epr_pair (q 0) (q 1) psi))
      = (if x = 0 \<or> x = 1 then Some (chain_state ns q u 1 (r(0 := x)) m psi) else None)" for x
  proof (cases "x = 0 \<or> x = 1")
    case True
    have "party_step (ns ! 0) x (line_net ns ?g ?c (epr_pair (q 0) (q 1) psi))
        = Some (line_net ns (?g(0 := ghz_result ns 0 x)) ?c (measured (q 0) (x = 1) (epr_pair (q 0) (q 1) psi)))"
      by (rule line_local [OF assms(1) l(1)]) (use True in \<open>simp add: ghz_measure_def\<close>)
    also have "\<dots> = Some (chain_state ns q u 1 (r(0 := x)) m psi)"
      unfolding chain_state_def option.inject
      by (rule line_cong) (use chain_first [OF q, of x psi u r m] True in \<open>auto simp: bit_def fun_eq_iff\<close>)
    finally show ?thesis using True by simp
  next
    case False
    then show ?thesis by (simp add: party_step_move line_sel [OF assms(1) l(1) l(1)] ghz_measure_def)
  qed
  show ?thesis
    by (rule reaches_det [OF pair], rule reaches_det [OF send], rule reaches_meas [OF meas], rule assms(5))
qed

lemma replicates: "replicate 7 x = [x, x, x, x, x, x, x]" "replicate 3 x = [x, x, x]"
  by (simp_all add: eval_nat_numeral)

text \<open>A node between others.\<close>

lemma next_link:
  assumes "distinct ns" and "length ns = Suc n" and "chain_distinct q u n" and "0 < b" and "b < n" and "\<forall>j. bit (r j)"
    and "\<And>x y. bit x \<Longrightarrow> bit y \<Longrightarrow> reaches R qs (chain_state ns q u (Suc b) (r(b := x)) (m(b := y)) psi)"
  shows "reaches R (replicate 7 (ns ! b) @ qs) (chain_state ns q u b r m psi)"
proof -
  have l: "b < length ns" "Suc b < length ns" "b - 1 < length ns" using assms(2,5) by auto
  let ?c0 = "\<lambda>x. if x = (b - 1, b) then [py_str (ghz_corr m b)] else []"
  let ?f0 = "\<lambda>j. if j < b then ghz_result ns j (r j) else if j = b then ghz_held ns (q j) (u j) j else ghz_wait ns (q j) (u j) j"
  let ?f = "?f0(Suc b := ghz_held ns (q (Suc b)) (u (Suc b)) (Suc b))"
  let ?k = "\<lambda>ms. ghz_fix ns (q b) b (ms ! 0)"
  let ?psi1 = "epr_pair (u b) (q (Suc b)) (chain_amps q u b r m psi)"
  let ?psi2 = "cnot (q b) (u b) ?psi1"
  let ?c1 = "?c0((b - 1, b) := [])"
  let ?c2 = "\<lambda>y. ?c1((b, Suc b) := [py_str ((ghz_corr m b + y) mod 2)])"
  have pair: "party_step (ns ! b) x (chain_state ns q u b r m psi)
      = Some (line_net ns (?f(b := Flushing [DoCnot (q b) (u b), DoMeas (u b)] [] ?k)) ?c0 ?psi1)" for x
    unfolding chain_state_def
    by (subst line_pair [OF assms(1) l(1,2), where b = "q (Suc b)" and r' = "ghz_held ns (q (Suc b)) (u (Suc b)) (Suc b)"])
      (use assms(2,4,5) in \<open>auto simp: ghz_held_def ghz_wait_def fun_upd_twist intro!: line_cong\<close>)
  have cnot: "party_step (ns ! b) x (line_net ns (?f(b := Flushing [DoCnot (q b) (u b), DoMeas (u b)] [] ?k)) ?c0 ?psi1)
      = Some (line_net ns (?f(b := Flushing [DoMeas (u b)] [] ?k)) ?c0 ?psi2)" for x
    by (subst line_local [OF assms(1) l(1)]) auto
  have meas: "party_step (ns ! b) y (line_net ns (?f(b := Flushing [DoMeas (u b)] [] ?k)) ?c0 ?psi2)
      = (if y = 0 \<or> y = 1 then Some (line_net ns (?f(b := ghz_fix ns (q b) b y)) ?c0 (measured (u b) (y = 1) ?psi2)) else None)" for y
  proof (cases "y = 0 \<or> y = 1")
    case True
    then show ?thesis by (subst line_local [OF assms(1) l(1)]) auto
  next
    case False
    then show ?thesis by (simp add: party_step_move line_sel [OF assms(1) l(1) l(1)])
  qed
  have recv: "party_step (ns ! b) x (line_net ns (?f(b := ghz_fix ns (q b) b y)) ?c0 phi)
      = Some (line_net ns (?f(b := SendMsg (ns ! Suc b) (py_str ((ghz_corr m b + y) mod 2)) (ghz_flip ns (q b) b (ghz_corr m b)))) ?c1 phi)"
    for x y phi
    by (subst line_recv [OF assms(1) l(1,3), where rest = "[]" and msg = "py_str (ghz_corr m b)" and k = "\<lambda>val.
        orFail (py_int val) (\<lambda>corr. SendMsg (ns ! Suc b) (py_str ((corr + y) mod 2)) (ghz_flip ns (q b) b corr))"])
      (use l(2) in \<open>auto simp: ghz_fix_def orFail_simps\<close>)
  have send: "party_step (ns ! b) x (line_net ns (?f(b := SendMsg (ns ! Suc b) (py_str ((ghz_corr m b + y) mod 2))
        (ghz_flip ns (q b) b (ghz_corr m b)))) ?c1 phi)
      = Some (line_net ns (?f(b := ghz_flip ns (q b) b (ghz_corr m b))) (?c2 y) phi)" for x y phi
    by (subst line_send [OF assms(1) l(1,2)]) auto
  have last: "line_net ns (?f(b := ghz_result ns b x)) (?c2 y) (measured (q b) (x = 1) (flipped_if (ghz_corr m b = 1) (q b)
        (measured (u b) (y = 1) ?psi2))) = chain_state ns q u (Suc b) (r(b := x)) (m(b := y)) psi"
    if "bit x" "bit y" for x y
    unfolding chain_state_def chain_next [OF assms(3-5) that assms(6)]
    by (rule line_cong) (use assms(4) in \<open>auto simp: fun_eq_iff ghz_corr_upd\<close>)
  have "reaches R (ns ! b # ns ! b # qs) (line_net ns (?f(b := ghz_flip ns (q b) b (ghz_corr m b))) (?c2 y) (measured (u b) (y = 1) ?psi2))"
    if "bit y" for y
    by (rule flip_and_measure [OF assms(1) l(1)]) (use assms(7) that last in simp)
  note tail = reaches_meas [OF meas, OF reaches_det [OF recv, OF reaches_det [OF send, OF this]]]
  show ?thesis
    unfolding replicates append_Cons append_Nil
    by (rule reaches_det [OF pair, OF reaches_det [OF cnot, OF tail]])
qed

text \<open>The last node, and what all have then.\<close>

definition ghz_done :: "string list \<Rightarrow> (nat \<Rightarrow> int) \<Rightarrow> (nat \<Rightarrow> int) \<Rightarrow> nat \<Rightarrow> qstate \<Rightarrow> routine_value qnet \<Rightarrow> bool" where
  "ghz_done ns q u n psi net \<longleftrightarrow> (\<exists>r m. (\<forall>j. bit (r j) \<and> bit (m j)) \<and> net = line_net ns (\<lambda>j. ghz_result ns j (r j)) (\<lambda>_. [])
     (\<lambda>s. if (\<forall>j\<le>n. s (q j) = (r j = 1) \<and> (r j = 1) = (r 0 = 1) \<and> (0 < j \<and> j < n \<longrightarrow> s (u j) = (m j = 1)))
        then half_root ^ n * psi (chain_clear q u n s) else 0))"

lemma last_link:
  assumes "distinct ns" and "length ns = Suc n" and "chain_distinct q u n" and "0 < n" and "\<forall>j. bit (r j) \<and> bit (m j)"
  shows "reaches (ghz_done ns q u n psi) (replicate 3 (ns ! n)) (chain_state ns q u n r m psi)"
proof -
  have l: "n < length ns" "n - 1 < length ns" using assms(2,4) by auto
  let ?c0 = "\<lambda>x. if x = (n - 1, n) then [py_str (ghz_corr m n)] else []"
  let ?f = "\<lambda>j. if j < n then ghz_result ns j (r j) else if j = n then ghz_held ns (q j) (u j) j else ghz_wait ns (q j) (u j) j"
  let ?psi = "chain_amps q u n r m psi"
  have recv: "party_step (ns ! n) x (chain_state ns q u n r m psi)
      = Some (line_net ns (?f(n := ghz_flip ns (q n) n (ghz_corr m n))) (?c0((n - 1, n) := [])) ?psi)" for x
    unfolding chain_state_def
    by (subst line_recv [OF assms(1) l, where rest = "[]" and msg = "py_str (ghz_corr m n)" and k = "\<lambda>val.
        orFail (py_int val) (ghz_flip ns (q n) n)"])
      (use assms(2) in \<open>auto simp: ghz_held_def ghz_fix_def orFail_simps\<close>)
  have last: "ghz_done ns q u n psi (line_net ns (?f(n := ghz_result ns n x)) (?c0((n - 1, n) := []))
      (measured (q n) (x = 1) (flipped_if (ghz_corr m n = 1) (q n) ?psi)))" if "bit x" for x
  proof -
    have "line_net ns (?f(n := ghz_result ns n x)) (?c0((n - 1, n) := [])) phi
        = line_net ns (\<lambda>j. ghz_result ns j ((r(n := x)) j)) (\<lambda>_. []) phi" for phi
    proof -
      have c: "?c0((n - 1, n) := []) = (\<lambda>_. [])" by (simp add: fun_eq_iff)
      show ?thesis unfolding c line_net_def using assms(2)
        by (auto simp: fun_eq_iff dest: list_index_Inr split: sum.splits)
    qed
    then show ?thesis
      unfolding ghz_done_def chain_last [OF assms(3,4) that]
      using assms(4,5) that by (intro exI [of _ "r(n := x)"] exI [of _ m]) simp
  qed
  have "reaches (ghz_done ns q u n psi) (ns ! n # ns ! n # [])
      (line_net ns (?f(n := ghz_flip ns (q n) n (ghz_corr m n))) (?c0((n - 1, n) := [])) ?psi)"
    by (rule flip_and_measure [OF assms(1) l(1)]) (use last in simp)
  from reaches_det [OF recv this] show ?thesis unfolding replicates .
qed

definition chain_schedule :: "string list \<Rightarrow> nat \<Rightarrow> nat \<Rightarrow> string list" where
  "chain_schedule ns b n = concat (List.map (\<lambda>b. replicate 7 (ns ! b)) [b..<n]) @ replicate 3 (ns ! n)"

lemma all_links:
  assumes "distinct ns" and "length ns = Suc n" and "chain_distinct q u n" and "0 < b" and "b \<le> n"
    and "\<forall>j. bit (r j) \<and> bit (m j)"
  shows "reaches (ghz_done ns q u n psi) (chain_schedule ns b n) (chain_state ns q u b r m psi)"
  using assms(5,4,6)
proof (induction b arbitrary: r m rule: inc_induct)
  case base
  then show ?case using last_link [OF assms(1-3)] by (simp add: chain_schedule_def)
next
  case (step b)
  have s: "chain_schedule ns b n = replicate 7 (ns ! b) @ chain_schedule ns (Suc b) n"
    using step.hyps by (simp add: chain_schedule_def upt_conv_Cons)
  show ?case
    unfolding s by (rule next_link [OF assms(1-3)]) (use step in \<open>auto simp: bit_def\<close>)
qed

definition ghz_schedule :: "string list \<Rightarrow> nat \<Rightarrow> string list" where
  "ghz_schedule ns n = (ns ! n # wake_schedule ns (n - 1)) @ [ns ! 0, ns ! 0, ns ! 0] @ chain_schedule ns 1 n"

lemma ghz_schedule_length: "0 < n \<Longrightarrow> length (ghz_schedule ns n) + 1 = 9 * n"
proof -
  have "length (wake_schedule ns a) = 2 * a + 1" for a by (induction a) simp_all
  moreover have "length (concat (List.map (\<lambda>b. replicate 7 (ns ! b)) [a..<n])) = 7 * (n - a)" for a
    by (simp add: length_concat comp_def sum_list_triv)
  moreover assume "0 < n"
  ultimately show ?thesis by (simp add: ghz_schedule_def chain_schedule_def)
qed

section \<open>Every order of actions\<close>

definition ghz_line_net ::
    "string list \<Rightarrow> (nat \<Rightarrow> program_context) \<Rightarrow> (nat \<Rightarrow> int) \<Rightarrow> (nat \<Rightarrow> int) \<Rightarrow> qstate \<Rightarrow> routine_value qnet" where
  "ghz_line_net ns ctx q u psi = line_net ns (\<lambda>i. ghz_program_run (ns ! i) ns (ctx i) (q i) (u i)) (\<lambda>_. []) psi"

lemma ghz_line_net_start:
  assumes "distinct ns" and "length ns = Suc n" and "0 < n" and "\<forall>i\<le>n. line_context ns i (ctx i)"
  shows "ghz_line_net ns ctx q u psi = line_net ns (\<lambda>j. ghz_start ns (q j) (u j) j) (\<lambda>_. []) psi"
proof -
  have "ghz_program_run (ns ! i) ns (ctx i) (q i) (u i) = ghz_start ns (q i) (u i) i" if "i < length ns" for i
    using ghz_program_start [OF assms(1) _ that] assms(2-4) that by simp
  then show ?thesis
    unfolding ghz_line_net_def line_net_def
    by (auto simp: fun_eq_iff dest: list_index_Inr split: sum.splits)
qed

definition line_owner :: "string list \<Rightarrow> (nat \<Rightarrow> int) \<Rightarrow> (nat \<Rightarrow> int) \<Rightarrow> string \<Rightarrow> int set" where
  "line_owner ns q u p = (case list_index ns p of Inl e \<Rightarrow> {} | Inr i \<Rightarrow> {q i, u i})"

lemma ghz_start_acts: "acts_on {q, u} (ghz_start ns q u i)"
  by (auto simp: ghz_start_def ghz_wait_def ghz_fix_def ghz_flip_def ghz_measure_def ghz_result_def flush_def intro!: acts_on_orFail)

lemma line_owned:
  assumes "length ns = Suc n" and "chain_distinct q u n"
  shows "owned (line_owner ns q u) (line_net ns (\<lambda>j. ghz_start ns (q j) (u j) j) c psi)"
  unfolding owned_def
proof (intro conjI allI impI)
  show "acts_on (line_owner ns q u p) (progs (line_net ns (\<lambda>j. ghz_start ns (q j) (u j) j) c psi) p)" for p
    by (simp add: line_owner_def line_net_def ghz_start_acts split: sum.split)
  show "line_owner ns q u p \<inter> line_owner ns q u p' = {}" if ne: "p \<noteq> p'" for p p'
  proof (cases "list_index ns p"; cases "list_index ns p'")
    fix i j assume ij: "list_index ns p = Inr i" "list_index ns p' = Inr j"
    then have "i \<le> n" "j \<le> n" "i \<noteq> j" using list_index_Inr [OF ij(1)] list_index_Inr [OF ij(2)] assms(1) ne by auto
    then show ?thesis using chain_distinctD [OF assms(2), of i j] chain_distinctD [OF assms(2), of j i]
      by (auto simp: line_owner_def ij)
  qed (simp_all add: line_owner_def)
qed

lemma ghz_done_over: "ghz_done ns q u n psi net \<Longrightarrow> party_step p m net = None"
  by (auto simp: ghz_done_def party_step_move line_net_def ghz_result_def split: sum.splits)

lemma ghz_plays:
  assumes "distinct ns" and "length ns = Suc n" and "0 < n" and "chain_distinct q u n"
  shows "plays (ghz_done ns q u n psi) (ghz_schedule ns n) (line_net ns (\<lambda>j. ghz_start ns (q j) (u j) j) (\<lambda>_. []) psi)"
proof -
  have over: "(\<lambda>net. ghz_done ns q u n psi net \<and> (\<forall>p m. party_step p m net = None)) = ghz_done ns q u n psi"
    using ghz_done_over by blast
  have chain: "reaches (ghz_done ns q u n psi) (chain_schedule ns 1 n) (chain_state ns q u 1 ((\<lambda>_. 0)(0 := x)) (\<lambda>_. 0) psi)"
    if "bit x" for x
    by (rule all_links [OF assms(1,2,4)]) (use assms(3) that in \<open>auto simp: bit_def\<close>)
  have "reaches (ghz_done ns q u n psi) ([ns ! 0, ns ! 0, ns ! 0] @ chain_schedule ns 1 n) (all_waiting ns q u psi)"
    unfolding append_Cons append_Nil by (rule first_link [OF assms chain])
  from wake_all [OF assms(1-3) this] show ?thesis unfolding reaches_plays over ghz_schedule_def .
qed

text \<open>
  C25: the GHZ program on a line of any number of nodes.  In every order of actions the run never
  blocks and ends within \<open>9 n\<close> actions for \<open>n\<close> links; then every node has its result, the
  amplitude of unequal results is zero, and the two equal ones have equal weight, for all
  outcomes of the nodes between.
\<close>

theorem ghz_line:
  assumes "distinct ns" and "length ns = Suc n" and "0 < n" and "\<forall>i\<le>n. line_context ns i (ctx i)"
    and "chain_distinct q u n" and "network_run (ghz_line_net ns ctx q u psi) k net"
  shows "k < 9 * n \<and> ((\<exists>p net'. party_step p 0 net = Some net')
     \<or> (\<exists>r m. (\<forall>j. bit (r j) \<and> bit (m j))
         \<and> (\<forall>i\<le>n. progs net (ns ! i) = Returned (DictValue [(''name'', StrValue (ns ! i)), (''result'', IntValue (r i))]))
         \<and> amps net = (\<lambda>s. if (\<forall>j\<le>n. s (q j) = (r j = 1) \<and> r j = r 0) \<and> (\<forall>j. 0 < j \<and> j < n \<longrightarrow> s (u j) = (m j = 1))
             then half_root ^ n * psi (chain_clear q u n s) else 0)))"
proof -
  note start = ghz_line_net_start [OF assms(1-4)]
  from schedule_independence [OF ghz_plays [OF assms(1-3,5)] line_owned [OF assms(2,5)] assms(6) [unfolded start]]
  have k: "k < 9 * n" "ghz_done ns q u n psi net \<or> (\<exists>p net'. party_step p 0 net = Some net')"
    using ghz_schedule_length [OF assms(3), of ns] by auto
  from k(2) show ?thesis
  proof
    assume "ghz_done ns q u n psi net"
    then obtain r m where b: "\<forall>j. bit (r j) \<and> bit (m j)" and net: "net = line_net ns (\<lambda>j. ghz_result ns j (r j)) (\<lambda>_. [])
        (\<lambda>s. if (\<forall>j\<le>n. s (q j) = (r j = 1) \<and> (r j = 1) = (r 0 = 1) \<and> (0 < j \<and> j < n \<longrightarrow> s (u j) = (m j = 1)))
          then half_root ^ n * psi (chain_clear q u n s) else 0)"
      unfolding ghz_done_def by blast
    have e: "((r j = 1) = (r 0 = 1)) = (r j = r 0)" for j
      using b unfolding bit_def by (metis zero_neq_one)
    have "amps net = (\<lambda>s. if (\<forall>j\<le>n. s (q j) = (r j = 1) \<and> r j = r 0) \<and> (\<forall>j. 0 < j \<and> j < n \<longrightarrow> s (u j) = (m j = 1))
        then half_root ^ n * psi (chain_clear q u n s) else 0)"
      unfolding net line_net_def qnet.select_convs e by (intro ext if_cong refl) auto
    moreover have "progs net (ns ! i) = Returned (DictValue [(''name'', StrValue (ns ! i)), (''result'', IntValue (r i))])"
      if "i \<le> n" for i
      unfolding net using that assms(2) line_sel(1) [OF assms(1), of i i] by (simp add: ghz_result_def)
    ultimately show ?thesis using k(1) b by blast
  qed (use k(1) in blast)
qed

definition ex_line_context :: "string list \<Rightarrow> program_context" where
  "ex_line_context peers = \<lparr>pc_csockets = peers, pc_epr_sockets = List.map (\<lambda>p. (p, 0)) peers, pc_app_id = 0\<rparr>"

theorem ghz_line_witness:
  "\<exists>p net'. party_step p 0 (ghz_line_net [''a'', ''b'', ''c''] (\<lambda>_. ex_line_context [''a'', ''b'', ''c'']) (\<lambda>i. 2 * int i)
     (\<lambda>i. 2 * int i + 1) ex_amps) = Some net'"
proof -
  let ?ns = "[''a'', ''b'', ''c'']"
  let ?net = "ghz_line_net ?ns (\<lambda>_. ex_line_context ?ns) (\<lambda>i. 2 * int i) (\<lambda>i. 2 * int i + 1) ex_amps"
  have c: "\<forall>i\<le>2. line_context ?ns i (ex_line_context ?ns)"
    by (auto simp: line_context_def has_line_socket_def ex_line_context_def less_Suc_eq le_Suc_eq numeral_2_eq_2)
  have q: "chain_distinct (\<lambda>i. 2 * int i) (\<lambda>i. 2 * int i + 1) 2" by (auto simp: chain_distinct_def) presburger
  have "network_run ?net 0 ?net" by (rule nr_refl)
  from ghz_line [OF _ _ _ c q this]
  have "(\<exists>p net'. party_step p 0 ?net = Some net') \<or> (\<exists>v. progs ?net (?ns ! 0) = Returned v)" by auto
  moreover have "progs ?net (?ns ! 0) = ghz_start ?ns 0 1 0"
    using c by (simp add: ghz_line_net_start [of _ 2] line_net_def)
  then have "progs ?net (?ns ! 0) \<noteq> Returned v" for v by (simp add: ghz_start_def)
  ultimately show ?thesis by blast
qed

end
