(* ===== verification/EntanglementSwap.thy ===== *)
theory EntanglementSwap
  imports CSocket Schedules
begin

text \<open>
  Entanglement swapping between three nodes, the programs of
  \<open>examples/tutorial/4.3_multi-node/application.py\<close>: Alice makes a pair with Bob and one with
  Charlie and measures her halves, Charlie corrects his, and both measure.
\<close>

section \<open>The programs\<close>

definition swap_alice_run :: "program_context \<Rightarrow> int \<Rightarrow> int \<Rightarrow> routine_value routine" where
  "swap_alice_run ctx epr_qubit_bob epr_qubit_charlie =
     sockets_of ctx ''Bob'' (sockets_of ctx ''Charlie''
       (csock_send ''Bob'' ''Hello from Alice'' (csock_send ''Charlie'' ''Hello from Alice''
         (flush [EprCreate ''Bob'' epr_qubit_bob, EprCreate ''Charlie'' epr_qubit_charlie,
             DoCnot epr_qubit_bob epr_qubit_charlie, DoH epr_qubit_bob, DoMeas epr_qubit_bob, DoMeas epr_qubit_charlie]
           (\<lambda>ms. csock_send ''Charlie'' (py_str (ms ! 0)) (csock_send ''Charlie'' (py_str (ms ! 1))
             (Returned (DictValue []))))))))"

definition swap_bob_run :: "program_context \<Rightarrow> int \<Rightarrow> routine_value routine" where
  "swap_bob_run ctx qubit =
     sockets_of ctx ''Alice'' (csock_recv ''Alice'' (\<lambda>msg.
       flush [EprRecv ''Alice'' qubit, DoMeas qubit] (\<lambda>_. Returned NoValue)))"

definition swap_charlie_run :: "program_context \<Rightarrow> int \<Rightarrow> routine_value routine" where
  "swap_charlie_run ctx qubit =
     sockets_of ctx ''Alice'' (csock_recv ''Alice'' (\<lambda>msg.
       flush [EprRecv ''Alice'' qubit] (\<lambda>_.
         csock_recv ''Alice'' (\<lambda>m2. csock_recv ''Alice'' (\<lambda>m1.
           orFail (py_int m1) (\<lambda>i1. orFail (py_int m2) (\<lambda>i2.
             flush ((if i1 \<noteq> 0 then [DoX qubit] else []) @ (if i2 \<noteq> 0 then [DoZ qubit] else []) @ [DoMeas qubit])
               (\<lambda>_. Returned NoValue))))))))"

section \<open>Networks of a centre and two others\<close>

text \<open>The two others get messages from the centre, and send none.\<close>

definition net3 ::
    "string \<Rightarrow> string \<Rightarrow> string \<Rightarrow> routine_value routine \<Rightarrow> routine_value routine \<Rightarrow> routine_value routine
       \<Rightarrow> string list \<Rightarrow> string list \<Rightarrow> qstate \<Rightarrow> routine_value qnet" where
  "net3 a b c ra rb rc ab ac psi =
     \<lparr>progs = (\<lambda>p. if p = a then ra else if p = b then rb else if p = c then rc else Returned NoValue),
      chan = (\<lambda>x. if x = (a, b) then ab else if x = (a, c) then ac else []), amps = psi\<rparr>"

lemma net3_sel:
  assumes "distinct [a, b, c]"
  shows "progs (net3 a b c ra rb rc ab ac psi) a = ra" "progs (net3 a b c ra rb rc ab ac psi) b = rb"
    "progs (net3 a b c ra rb rc ab ac psi) c = rc"
    "chan (net3 a b c ra rb rc ab ac psi) (a, b) = ab" "chan (net3 a b c ra rb rc ab ac psi) (a, c) = ac"
    "amps (net3 a b c ra rb rc ab ac psi) = psi"
  using assms by (auto simp: net3_def)

lemma net3_gate:
  assumes "distinct [a, b, c]"
  shows "gate_step a cs res k psi' (net3 a b c ra rb rc ab ac psi) = net3 a b c (next_command cs res k) rb rc ab ac psi'"
    "gate_step b cs res k psi' (net3 a b c ra rb rc ab ac psi) = net3 a b c ra (next_command cs res k) rc ab ac psi'"
    "gate_step c cs res k psi' (net3 a b c ra rb rc ab ac psi) = net3 a b c ra rb (next_command cs res k) ab ac psi'"
  using assms by (auto simp: gate_step_def net3_def fun_eq_iff)

lemma net3_epr:
  assumes "distinct [a, b, c]"
  shows "(net3 a b c ra rb rc ab ac psi)\<lparr>progs := (progs (net3 a b c ra rb rc ab ac psi))(a := r, b := r'), amps := psi'\<rparr>
     = net3 a b c r r' rc ab ac psi'"
    "(net3 a b c ra rb rc ab ac psi)\<lparr>progs := (progs (net3 a b c ra rb rc ab ac psi))(a := r, c := r'), amps := psi'\<rparr>
     = net3 a b c r rb r' ab ac psi'"
  using assms by (auto simp: net3_def fun_eq_iff)

lemma net3_msg:
  assumes "distinct [a, b, c]"
  shows "(net3 a b c ra rb rc ab ac psi)\<lparr>progs := (progs (net3 a b c ra rb rc ab ac psi))(a := r),
        chan := (chan (net3 a b c ra rb rc ab ac psi))((a, b) := l)\<rparr> = net3 a b c r rb rc l ac psi"
    "(net3 a b c ra rb rc ab ac psi)\<lparr>progs := (progs (net3 a b c ra rb rc ab ac psi))(a := r),
        chan := (chan (net3 a b c ra rb rc ab ac psi))((a, c) := l)\<rparr> = net3 a b c r rb rc ab l psi"
    "(net3 a b c ra rb rc ab ac psi)\<lparr>progs := (progs (net3 a b c ra rb rc ab ac psi))(b := r),
        chan := (chan (net3 a b c ra rb rc ab ac psi))((a, b) := l)\<rparr> = net3 a b c ra r rc l ac psi"
    "(net3 a b c ra rb rc ab ac psi)\<lparr>progs := (progs (net3 a b c ra rb rc ab ac psi))(c := r),
        chan := (chan (net3 a b c ra rb rc ab ac psi))((a, c) := l)\<rparr> = net3 a b c ra rb r ab l psi"
  using assms by (auto simp: net3_def fun_eq_iff)

lemma party_step_net3:
  assumes "distinct [a, b, c]"
  shows "party_step a m (net3 a b c ra rb rc ab ac psi) = action_step a m ra (net3 a b c ra rb rc ab ac psi)"
    "party_step b m (net3 a b c ra rb rc ab ac psi) = action_step b m rb (net3 a b c ra rb rc ab ac psi)"
    "party_step c m (net3 a b c ra rb rc ab ac psi) = action_step c m rc (net3 a b c ra rb rc ab ac psi)"
  by (simp_all add: party_step_def net3_sel [OF assms])

lemmas net3_steps = party_step_net3 net3_gate net3_epr net3_msg net3_sel

lemma net3_owned:
  assumes "distinct [a, b, c]" and "acts_on Qa ra" and "acts_on Qb rb" and "acts_on Qc rc"
    and "Qa \<inter> Qb = {}" and "Qa \<inter> Qc = {}" and "Qb \<inter> Qc = {}"
  shows "owned ((\<lambda>_. {})(a := Qa, b := Qb, c := Qc)) (net3 a b c ra rb rc ab ac psi)"
  using assms by (auto simp: owned_def net3_def)

lemma net3_over: "distinct [a, b, c] \<Longrightarrow>
    party_step p m (net3 a b c (Returned x) (Returned y) (Returned z) ab ac psi) = None"
  by (auto simp: party_step_def net3_def)

lemma net3_cong:
  "ra = ra' \<Longrightarrow> rb = rb' \<Longrightarrow> rc = rc' \<Longrightarrow> ab = ab' \<Longrightarrow> ac = ac'
     \<Longrightarrow> net3 a b c ra rb rc ab ac psi = net3 a b c ra' rb' rc' ab' ac' psi"
  by simp

section \<open>One schedule\<close>

definition swap_net ::
    "program_context \<Rightarrow> program_context \<Rightarrow> program_context \<Rightarrow> int \<Rightarrow> int \<Rightarrow> int \<Rightarrow> int \<Rightarrow> qstate \<Rightarrow> routine_value qnet" where
  "swap_net ca cb cc q1 q2 b c psi =
     net3 ''Alice'' ''Bob'' ''Charlie'' (swap_alice_run ca q1 q2) (swap_bob_run cb b) (swap_charlie_run cc c) [] [] psi"

text \<open>Alice's outcomes, then Bob's, then Charlie's, after his corrections.\<close>

definition swap_alice_amps :: "int \<Rightarrow> int \<Rightarrow> int \<Rightarrow> int \<Rightarrow> int \<Rightarrow> int \<Rightarrow> qstate \<Rightarrow> qstate" where
  "swap_alice_amps q1 q2 b c m2 m1 psi = measured q2 (m1 = 1) (measured q1 (m2 = 1)
     (apply1 gate_H q1 (cnot q1 q2 (epr_pair q2 c (epr_pair q1 b psi)))))"

definition swap_amps :: "int \<Rightarrow> int \<Rightarrow> int \<Rightarrow> int \<Rightarrow> int \<Rightarrow> int \<Rightarrow> int \<Rightarrow> int \<Rightarrow> qstate \<Rightarrow> qstate" where
  "swap_amps q1 q2 b c m2 m1 rb rc psi = measured c (rc = 1)
     ((if m2 = 1 then apply1 gate_Z c else (\<lambda>x. x)) ((if m1 = 1 then apply1 gate_X c else (\<lambda>x. x))
       (measured b (rb = 1) (swap_alice_amps q1 q2 b c m2 m1 psi))))"

definition swap_corrections :: "int \<Rightarrow> int \<Rightarrow> int \<Rightarrow> sdk_command list" where
  "swap_corrections c m1 m2 = (if m1 = 1 then [DoX c] else []) @ (if m2 = 1 then [DoZ c] else []) @ [DoMeas c]"

definition swap_sent :: "int \<Rightarrow> int \<Rightarrow> int \<Rightarrow> int \<Rightarrow> qstate \<Rightarrow> routine_value qnet \<Rightarrow> bool" where
  "swap_sent q1 q2 b c psi net \<longleftrightarrow> (\<exists>m2 m1 rb. bit m2 \<and> bit m1 \<and> bit rb
     \<and> net = net3 ''Alice'' ''Bob'' ''Charlie'' (Returned (DictValue [])) (Returned NoValue)
         (Flushing (swap_corrections c m1 m2) [] (\<lambda>_. Returned NoValue)) [] []
         (measured b (rb = 1) (swap_alice_amps q1 q2 b c m2 m1 psi)))"

definition swap_done :: "int \<Rightarrow> int \<Rightarrow> int \<Rightarrow> int \<Rightarrow> qstate \<Rightarrow> routine_value qnet \<Rightarrow> bool" where
  "swap_done q1 q2 b c psi net \<longleftrightarrow> (\<exists>m2 m1 rb rc. bit m2 \<and> bit m1 \<and> bit rb \<and> bit rc
     \<and> net = net3 ''Alice'' ''Bob'' ''Charlie'' (Returned (DictValue [])) (Returned NoValue) (Returned NoValue) [] []
         (swap_amps q1 q2 b c m2 m1 rb rc psi))"

lemmas swap_defs = swap_alice_run_def swap_bob_run_def swap_charlie_run_def sockets_of_def flush_def socket_defs

lemma swap_owned:
  assumes "distinct [q1, q2, b, c]"
  shows "owned ((\<lambda>_. {})(''Alice'' := {q1, q2}, ''Bob'' := {b}, ''Charlie'' := {c})) (swap_net ca cb cc q1 q2 b c psi)"
  unfolding swap_net_def
proof (rule net3_owned)
  show "acts_on {c} (swap_charlie_run cc c)"
    by (auto simp: swap_charlie_run_def sockets_of_def csock_recv_def intro!: acts_on_flush acts_on_orFail)
qed (use assms in \<open>auto simp: swap_alice_run_def swap_bob_run_def sockets_of_def socket_defs flush_def\<close>)

lemma bit_nonzero: "bit m \<Longrightarrow> (m \<noteq> 0) = (m = 1)"
  by (auto simp: bit_def)

lemma swap_reaches:
  assumes "has_sockets ca ''Bob''" and "has_sockets ca ''Charlie''" and "has_sockets cb ''Alice''" and "has_sockets cc ''Alice''"
  shows "reaches (swap_sent q1 q2 b c psi)
     (replicate 2 ''Alice'' @ [''Bob'', ''Charlie''] @ replicate 8 ''Alice'' @ [''Bob'', ''Charlie'', ''Charlie''])
     (swap_net ca cb cc q1 q2 b c psi)"
proof -
  note [simp] = orFail_simps bit_nonzero
  show ?thesis
    using assms unfolding swap_net_def has_sockets_def
    by (simp add: swap_defs net3_steps all_bits eval_nat_numeral cong: play_congs net3_cong)
      (simp add: swap_sent_def swap_corrections_def swap_alice_amps_def, blast)
qed

lemma swap_finishes:
  assumes "swap_sent q1 q2 b c psi net"
  shows "plays (swap_done q1 q2 b c psi) (replicate 3 ''Charlie'') net"
proof -
  from assms obtain m2 m1 rb where m: "bit m2" "bit m1" "bit rb"
    and net: "net = net3 ''Alice'' ''Bob'' ''Charlie'' (Returned (DictValue [])) (Returned NoValue)
         (Flushing (swap_corrections c m1 m2) [] (\<lambda>_. Returned NoValue)) [] []
         (measured b (rb = 1) (swap_alice_amps q1 q2 b c m2 m1 psi))" unfolding swap_sent_def by blast
  have fin: "swap_done q1 q2 b c psi (net3 ''Alice'' ''Bob'' ''Charlie'' (Returned (DictValue [])) (Returned NoValue)
      (Returned NoValue) [] [] phi)" if "bit rc" "swap_amps q1 q2 b c m2 m1 rb rc psi = phi" for rc phi
    unfolding swap_done_def using m that by blast
  show ?thesis
    unfolding net swap_corrections_def
    by (cases "m1 = 1"; cases "m2 = 1")
      (simp add: net3_steps net3_over all_bits eval_nat_numeral cong: play_congs net3_cong;
       intro allI impI fin; simp add: swap_amps_def)+
qed

lemma swap_plays:
  assumes "has_sockets ca ''Bob''" and "has_sockets ca ''Charlie''" and "has_sockets cb ''Alice''" and "has_sockets cc ''Alice''"
  shows "plays (swap_done q1 q2 b c psi)
     ((replicate 2 ''Alice'' @ [''Bob'', ''Charlie''] @ replicate 8 ''Alice'' @ [''Bob'', ''Charlie'', ''Charlie''])
       @ replicate 3 ''Charlie'') (swap_net ca cb cc q1 q2 b c psi)"
  by (rule plays_append [OF swap_reaches [OF assms] swap_finishes])

section \<open>What the nodes find\<close>

lemma swap_amps_eq:
  assumes "distinct [q1, q2, b, c]" and "bit m2" and "bit m1" and "bit rb" and "bit rc"
  shows "swap_amps q1 q2 b c m2 m1 rb rc psi = (\<lambda>s. if s q1 = (m2 = 1) \<and> s q2 = (m1 = 1) \<and> s b = (rb = 1) \<and> s c = (rc = 1)
       \<and> rb = rc then half_root / 2 * psi (s(q1 := False, q2 := False, b := False, c := False)) else 0)"
proof
  fix s :: "int \<Rightarrow> bool"
  have n: "q1 \<noteq> q2" "q1 \<noteq> b" "q1 \<noteq> c" "q2 \<noteq> b" "q2 \<noteq> c" "b \<noteq> c" "q2 \<noteq> q1" "b \<noteq> q1" "c \<noteq> q1" "b \<noteq> q2" "c \<noteq> q2" "c \<noteq> b"
    using assms(1) by auto
  define cl where "cl = (\<lambda>s :: int \<Rightarrow> bool. s(q1 := False, q2 := False, b := False, c := False))"
  have cl: "cl (s(q1 := v)) = cl s" "cl (s(q2 := v)) = cl s" "cl (s(b := v)) = cl s" "cl (s(c := v)) = cl s" for s v
    using n by (auto simp: cl_def fun_eq_iff)
  have pairs: "epr_pair q2 c (epr_pair q1 b psi) = (\<lambda>s. if s q2 = s c \<and> s q1 = s b then 1 / 2 * psi (cl s) else 0)"
  proof
    fix s :: "int \<Rightarrow> bool"
    have "s(q2 := False, c := False, q1 := False, b := False) = cl s" using n by (auto simp: cl_def fun_eq_iff)
    then show "epr_pair q2 c (epr_pair q1 b psi) s = (if s q2 = s c \<and> s q1 = s b then 1 / 2 * psi (cl s) else 0)"
      using n by (simp add: epr_pair_def mult.assoc [symmetric])
  qed
  have alice: "swap_alice_amps q1 q2 b c m2 m1 psi = (\<lambda>s. if s q1 = (m2 = 1) \<and> s q2 = (m1 = 1) \<and> s q2 = (s b \<noteq> s c)
      then (if s q1 \<and> s b then - (half_root / 2) else half_root / 2) * psi (cl s) else 0)"
    unfolding swap_alice_amps_def pairs
  proof
    fix s :: "int \<Rightarrow> bool"
    show "measured q2 (m1 = 1) (measured q1 (m2 = 1) (apply1 gate_H q1 (cnot q1 q2
        (\<lambda>s. if s q2 = s c \<and> s q1 = s b then 1 / 2 * psi (cl s) else 0)))) s
      = (if s q1 = (m2 = 1) \<and> s q2 = (m1 = 1) \<and> s q2 = (s b \<noteq> s c)
         then (if s q1 \<and> s b then - (half_root / 2) else half_root / 2) * psi (cl s) else 0)"
      using n by (cases "s q1"; cases "s q2"; cases "s b"; cases "s c") (simp_all add: gate_defs cl)
  qed
  have x: "(rb = rc) = ((rb = 1) = (rc = 1))" using assms(4,5) by (auto simp: bit_def)
  have "swap_amps q1 q2 b c m2 m1 rb rc psi s = (if s q1 = (m2 = 1) \<and> s q2 = (m1 = 1) \<and> s b = (rb = 1) \<and> s c = (rc = 1)
       \<and> (rb = 1) = (rc = 1) then half_root / 2 * psi (cl s) else 0)"
    unfolding swap_amps_def alice using n
    by (cases "m1 = 1"; cases "m2 = 1"; cases "s b"; cases "s c") (simp_all add: gate_defs cl)
  then show "swap_amps q1 q2 b c m2 m1 rb rc psi s = (if s q1 = (m2 = 1) \<and> s q2 = (m1 = 1) \<and> s b = (rb = 1) \<and> s c = (rc = 1)
       \<and> rb = rc then half_root / 2 * psi (s(q1 := False, q2 := False, b := False, c := False)) else 0)"
    unfolding x by (simp add: cl_def)
qed

text \<open>
  C31: entanglement swapping.  In every order of the three nodes' actions the run never blocks
  and ends within 18 actions.  Bob and Charlie, who share no link, then have measured the
  same bit: whatever Alice measured, and even if Bob measured before Charlie corrected, the
  amplitude of different bits is zero and both equal ones have weight one half.
\<close>

theorem entanglement_swap:
  assumes "has_sockets ca ''Bob''" and "has_sockets ca ''Charlie''" and "has_sockets cb ''Alice''" and "has_sockets cc ''Alice''"
    and "distinct [q1, q2, b, c]" and "network_run (swap_net ca cb cc q1 q2 b c psi) k net"
  shows "k \<le> 18 \<and> ((\<exists>p net'. party_step p 0 net = Some net')
     \<or> (\<exists>m2 m1 rb rc. bit m2 \<and> bit m1 \<and> bit rb \<and> bit rc
         \<and> progs net ''Alice'' = Returned (DictValue [])
         \<and> progs net ''Bob'' = Returned NoValue \<and> progs net ''Charlie'' = Returned NoValue
         \<and> amps net = (\<lambda>s. if s q1 = (m2 = 1) \<and> s q2 = (m1 = 1) \<and> s b = (rb = 1) \<and> s c = (rc = 1) \<and> rb = rc
             then half_root / 2 * psi (s(q1 := False, q2 := False, b := False, c := False)) else 0)))"
proof -
  from schedule_independence [OF swap_plays [OF assms(1-4)] swap_owned [OF assms(5)] assms(6)]
  have k: "k \<le> 18" "swap_done q1 q2 b c psi net \<or> (\<exists>p net'. party_step p 0 net = Some net')" by simp_all
  from k(2) show ?thesis
  proof
    assume "swap_done q1 q2 b c psi net"
    then obtain m2 m1 rb rc where m: "bit m2" "bit m1" "bit rb" "bit rc"
      and net: "net = net3 ''Alice'' ''Bob'' ''Charlie'' (Returned (DictValue [])) (Returned NoValue) (Returned NoValue) [] []
         (swap_amps q1 q2 b c m2 m1 rb rc psi)" unfolding swap_done_def by blast
    have "progs net ''Alice'' = Returned (DictValue [])" "progs net ''Bob'' = Returned NoValue"
      "progs net ''Charlie'' = Returned NoValue" "amps net = swap_amps q1 q2 b c m2 m1 rb rc psi"
      unfolding net by (simp_all add: net3_sel)
    with k(1) m show ?thesis unfolding swap_amps_eq [OF assms(5) m] by blast
  qed (use k(1) in blast)
qed

definition ex_two_sockets :: program_context where
  "ex_two_sockets = \<lparr>pc_csockets = [''Bob'', ''Charlie''], pc_epr_sockets = [(''Bob'', 0), (''Charlie'', 1)], pc_app_id = 0\<rparr>"

theorem entanglement_swap_witness:
  "\<exists>p net'. party_step p 0 (swap_net ex_two_sockets (ex_program_context ''Alice'') (ex_program_context ''Alice'') 0 1 2 3 ex_amps)
     = Some net'"
proof -
  let ?net = "swap_net ex_two_sockets (ex_program_context ''Alice'') (ex_program_context ''Alice'') 0 1 2 3 ex_amps"
  have s: "has_sockets ex_two_sockets ''Bob''" "has_sockets ex_two_sockets ''Charlie''"
    by (simp_all add: has_sockets_def ex_two_sockets_def)
  have "network_run ?net 0 ?net" by (rule nr_refl)
  from entanglement_swap [OF s ex_sockets ex_sockets _ this]
  have "(\<exists>p net'. party_step p 0 ?net = Some net') \<or> (\<exists>v. progs ?net ''Bob'' = Returned v)" by simp blast
  moreover have "progs ?net ''Bob'' \<noteq> Returned v" for v
    by (simp add: swap_net_def net3_sel swap_bob_run_def sockets_of_def ex_program_context_def csock_recv_def)
  ultimately show ?thesis by blast
qed

end
