(* ===== verification/StatePrep.thy ===== *)
theory StatePrep
  imports CSocket Schedules
begin

text \<open>
  Preparing a qubit before a routine uses it.  Commands queued on a connection wait for the
  next flush, also one inside a routine that is called meanwhile.  What
  \<open>set_qubit_state(q, phi, theta)\<close> of the SDK's toolbox queues is a parameter.
\<close>

section \<open>Queued gates\<close>

text \<open>\<open>cmds\<close> are pending when \<open>r\<close> starts: they come before the first commands it flushes.\<close>

primrec queue_first :: "sdk_command list \<Rightarrow> 'a routine \<Rightarrow> 'a routine" where
  "queue_first cmds (Returned x) = Returned x"
| "queue_first cmds (Failed e) = Failed e"
| "queue_first cmds (Flushing cs res k) = Flushing (cmds @ cs) res k"
| "queue_first cmds (SendMsg peer msg r) = SendMsg peer msg (queue_first cmds r)"
| "queue_first cmds (RecvMsg peer k) = RecvMsg peer (\<lambda>msg. queue_first cmds (k msg))"

fun gate_of :: "sdk_command \<Rightarrow> (qstate \<Rightarrow> qstate) option" where
  "gate_of (DoInit q) = Some (reset_qubit q False)"
| "gate_of (DoX q) = Some (apply1 gate_X q)"
| "gate_of (DoZ q) = Some (apply1 gate_Z q)"
| "gate_of (DoH q) = Some (apply1 gate_H q)"
| "gate_of (DoRotY a q) = Some (apply1 (gate_RY a) q)"
| "gate_of (DoRotZ a q) = Some (apply1 (gate_RZ a) q)"
| "gate_of (DoCnot c t) = Some (cnot c t)"
| "gate_of (DoCphase c t) = Some (cphase c t)"
| "gate_of _ = None"

definition all_gates :: "sdk_command list \<Rightarrow> bool" where
  "all_gates cs \<longleftrightarrow> (\<forall>c \<in> set cs. gate_of c \<noteq> None)"

primrec apply_gates :: "sdk_command list \<Rightarrow> qstate \<Rightarrow> qstate" where
  "apply_gates [] psi = psi"
| "apply_gates (c # cs) psi = apply_gates cs (case gate_of c of None \<Rightarrow> psi | Some f \<Rightarrow> f psi)"

text \<open>
  What is relied on of \<open>set_qubit_state\<close>: it queues gates on its qubit alone, which take a fresh
  qubit to the state with amplitudes \<open>st\<close>.
\<close>

definition prepares :: "(int \<Rightarrow> sdk_command list) \<Rightarrow> (bool \<Rightarrow> complex) \<Rightarrow> bool" where
  "prepares set_state st \<longleftrightarrow> (\<forall>q. all_gates (set_state q) \<and> (\<forall>c \<in> set (set_state q). qubits_of c \<subseteq> {q})
     \<and> (\<forall>psi. apply_gates (set_state q) (reset_qubit q False psi) = (\<lambda>s. st (s q) * psi (s(q := False)))))"

lemma gate_step_gates:
  assumes "gate_of c = Some f"
  shows "command_step p m c cs res k net = Some (gate_step p cs res k (f (amps net)) net)"
    and "local_on (qubits_of c) f"
  using assms by (cases c; auto simp: cnot_def cphase_def intro!: local_commands)+

text \<open>Playing queued gates.\<close>

lemma flush_gates:
  assumes "all_gates cs" and "A \<noteq> B"
  shows "reaches R (replicate (length cs) A) (net2 A B (next_command (cs @ rest) res k) rb ab ba psi)
       \<longleftrightarrow> R (net2 A B (next_command rest res k) rb ab ba (apply_gates cs psi))"
    and "reaches R (replicate (length cs) B) (net2 A B ra (next_command (cs @ rest) res k) ab ba psi)
       \<longleftrightarrow> R (net2 A B ra (next_command rest res k) ab ba (apply_gates cs psi))"
  using assms(1)
proof (induction cs arbitrary: psi)
  case (Cons c cs)
  { case 1
    from 1 obtain f where "gate_of c = Some f" "all_gates cs" by (auto simp: all_gates_def)
    then show ?case using Cons.IH(1) assms(2) by (simp add: net2_steps gate_step_gates(1)) }
  { case 2
    from 2 obtain f where "gate_of c = Some f" "all_gates cs" by (auto simp: all_gates_def)
    then show ?case using Cons.IH(2) assms(2) by (simp add: net2_steps gate_step_gates(1)) }
qed simp_all

text \<open>Gates commute with what is done to other qubits.\<close>

lemma gates_commute:
  assumes "all_gates cs" and "\<And>c. c \<in> set cs \<Longrightarrow> qubits_of c \<subseteq> Q" and "local_on R g" and "Q \<inter> R = {}"
  shows "apply_gates cs (g psi) = g (apply_gates cs psi)"
  using assms(1,2)
proof (induction cs arbitrary: psi)
  case (Cons c cs)
  then obtain f where f: "gate_of c = Some f" by (auto simp: all_gates_def)
  have "local_on Q f" using local_on_mono [OF gate_step_gates(2) [OF f]] Cons.prems(2) by simp
  from local_on_commute [OF this assms(3,4)] have "f (g psi) = g (f psi)" .
  then show ?case using Cons f by (simp add: all_gates_def)
qed simp

lemma queue_first_acts:
  "acts_on Q r \<Longrightarrow> (\<And>c. c \<in> set cmds \<Longrightarrow> qubits_of c \<subseteq> Q) \<Longrightarrow> acts_on Q (queue_first cmds r)"
  by (induction r) auto

lemma prepared_gates:
  assumes "prepares set_state st"
  shows "all_gates (DoInit q # set_state q)" and "c \<in> set (DoInit q # set_state q) \<Longrightarrow> qubits_of c \<subseteq> {q}"
    and "apply_gates (DoInit q # set_state q) psi = (\<lambda>s. st (s q) * psi (s(q := False)))"
  using assms by (auto simp: prepares_def all_gates_def)

text \<open>The state of both prepared qubits.\<close>

definition both_prepared :: "(bool \<Rightarrow> complex) \<Rightarrow> (bool \<Rightarrow> complex) \<Rightarrow> int \<Rightarrow> int \<Rightarrow> qstate \<Rightarrow> qstate" where
  "both_prepared stc stt c t psi = (\<lambda>s. stt (s t) * (stc (s c) * psi (s(t := False, c := False))))"

section \<open>An instance\<close>

definition ex_set_state :: "real \<Rightarrow> real \<Rightarrow> int \<Rightarrow> sdk_command list" where
  "ex_set_state phi theta q = [DoRotY theta q, DoRotZ phi q]"

definition ex_state :: "real \<Rightarrow> real \<Rightarrow> bool \<Rightarrow> complex" where
  "ex_state phi theta v = gate_RZ phi v v * gate_RY theta v False"

lemma ex_prepares: "prepares (ex_set_state phi theta) (ex_state phi theta)"
proof -
  have "apply_gates (ex_set_state phi theta q) (reset_qubit q False psi) = (\<lambda>s. ex_state phi theta (s q) * psi (s(q := False)))"
    for q psi
    by (auto simp: ex_set_state_def ex_state_def apply1_def reset_qubit_def fun_eq_iff gate_RZ_def)
  then show ?thesis by (simp add: prepares_def all_gates_def ex_set_state_def)
qed

end
