(* ===== verification/UseRoutines.thy ===== *)
theory UseRoutines
  imports StatePrep DistributedGate
begin

text \<open>
  The applications that prepare qubits and use a routine on them:
  \<open>examples/applications/teleport/example_use_teleport.py\<close> and
  \<open>examples/applications/distributed_gate/example_use_distributed_cnot.py\<close>.  Neither flushes
  before the routine does.  The density matrices they read out of the simulation afterwards
  are left out.
\<close>

section \<open>The programs\<close>

definition use_teleport_sender :: "(int \<Rightarrow> sdk_command list) \<Rightarrow> program_context \<Rightarrow> int \<Rightarrow> int \<Rightarrow> routine_value routine" where
  "use_teleport_sender set_state ctx q epr =
     queue_first (DoInit q # set_state q) (teleport_send q ctx ''Receiver'' epr)"

definition use_teleport_receiver :: "program_context \<Rightarrow> int \<Rightarrow> routine_value routine" where
  "use_teleport_receiver ctx epr = teleport_recv ctx ''Sender'' epr"

text \<open>For another name of a gate a \<open>ValueError\<close> is made but not raised, so nothing happens.\<close>

definition use_gate_controller ::
    "(int \<Rightarrow> sdk_command list) \<Rightarrow> string \<Rightarrow> program_context \<Rightarrow> int \<Rightarrow> int \<Rightarrow> routine_value routine" where
  "use_gate_controller set_state gate ctx ctrl_qubit epr = queue_first (DoInit ctrl_qubit # set_state ctrl_qubit)
     (if gate = ''cnot'' then distributed_CNOT_control ctx ''Target'' ctrl_qubit epr
      else if gate = ''cphase'' then distributed_CPhase_control ctx ''Target'' ctrl_qubit epr
      else Returned NoValue)"

definition use_gate_target ::
    "(int \<Rightarrow> sdk_command list) \<Rightarrow> string \<Rightarrow> program_context \<Rightarrow> int \<Rightarrow> int \<Rightarrow> routine_value routine" where
  "use_gate_target set_state gate ctx target_qubit epr = queue_first (DoInit target_qubit # set_state target_qubit)
     (if gate = ''cnot'' then distributed_CNOT_target ctx ''Controller'' target_qubit epr
      else if gate = ''cphase'' then distributed_CPhase_target ctx ''Controller'' target_qubit epr
      else Returned NoValue)"

section \<open>Teleporting a prepared state\<close>

definition use_teleport_net ::
    "(int \<Rightarrow> sdk_command list) \<Rightarrow> program_context \<Rightarrow> program_context \<Rightarrow> int \<Rightarrow> int \<Rightarrow> int \<Rightarrow> qstate \<Rightarrow> routine_value qnet" where
  "use_teleport_net set_state cs cr q a b psi =
     net2 ''Sender'' ''Receiver'' (use_teleport_sender set_state cs q a) (use_teleport_receiver cr b) [] [] psi"

lemma use_teleport_plays:
  assumes "has_sockets cs ''Receiver''" and "has_sockets cr ''Sender''" and "prepares set_state st"
  shows "plays (tele_done ''Sender'' ''Receiver'' q a b (\<lambda>s. st (s q) * psi (s(q := False))))
     (replicate (length (DoInit q # set_state q)) ''Sender'' @ replicate 6 ''Sender'' @ replicate 3 ''Receiver'')
     (use_teleport_net set_state cs cr q a b psi)"
proof (rule plays_append)
  let ?tele = "teleport_net ''Sender'' ''Receiver'' cs cr q a b (\<lambda>s. st (s q) * psi (s(q := False)))"
  let ?k = "\<lambda>ms. SendMsg ''Receiver'' (tele_msg (ms ! 0) (ms ! 1)) (Returned NoValue)"
  let ?rest = "[EprCreate ''Receiver'' a, DoCnot q a, DoH q, DoMeas q, DoMeas a]"
  let ?recv = "Flushing [EprRecv ''Sender'' b] [] (\<lambda>_. RecvMsg ''Sender'' (tele_corrections b))"
  have start: "use_teleport_net set_state cs cr q a b psi = net2 ''Sender'' ''Receiver''
      (next_command ((DoInit q # set_state q) @ ?rest) [] ?k) ?recv [] [] psi"
    using assms(1,2) unfolding use_teleport_net_def use_teleport_sender_def use_teleport_receiver_def
      teleport_send_def teleport_recv_def sockets_of_def has_sockets_def flush_def tele_msg_def tele_corrections_def [abs_def]
    by simp
  show "reaches (\<lambda>net. net = ?tele) (replicate (length (DoInit q # set_state q)) ''Sender'')
      (use_teleport_net set_state cs cr q a b psi)"
    unfolding start by (subst flush_gates(1)) (use assms in \<open>simp_all add: prepared_gates teleport_net_programs del: apply_gates.simps\<close>)
  show "plays (tele_done ''Sender'' ''Receiver'' q a b (\<lambda>s. st (s q) * psi (s(q := False))))
      (replicate 6 ''Sender'' @ replicate 3 ''Receiver'') net" if "net = ?tele" for net
    unfolding that by (rule teleport_plays [OF _ assms(1,2)]) simp
qed

lemma use_teleport_owned:
  assumes "prepares set_state st" and "distinct [q, a, b]"
  shows "owned ((\<lambda>_. {})(''Sender'' := {q, a}, ''Receiver'' := {b})) (use_teleport_net set_state cs cr q a b psi)"
  unfolding use_teleport_net_def
proof (rule net2_owned)
  show "acts_on {q, a} (use_teleport_sender set_state cs q a)"
    unfolding use_teleport_sender_def
  proof (rule queue_first_acts)
    show "qubits_of c \<subseteq> {q, a}" if "c \<in> set (DoInit q # set_state q)" for c
      using prepared_gates(2) [OF assms(1) that] by auto
  qed (auto simp: teleport_send_def sockets_of_def intro!: acts_on_flush)
  show "acts_on {b} (use_teleport_receiver cr b)"
    by (auto simp: use_teleport_receiver_def teleport_recv_def sockets_of_def intro!: acts_on_flush acts_on_orFail split: list.split)
qed (use assms(2) in auto)

text \<open>
  Teleporting a prepared state.  Preparation and teleportation are one subroutine; in
  every order of actions the run never blocks and ends within ten actions and the gates of
  the preparation, and the receiver's qubit is then in the state the sender was asked to
  prepare, unentangled with anything, for each of the four equally likely outcomes.
\<close>

theorem use_teleport_correct:
  assumes "has_sockets cs ''Receiver''" and "has_sockets cr ''Sender''" and "prepares set_state st" and "distinct [q, a, b]"
    and "network_run (use_teleport_net set_state cs cr q a b psi) k net"
  shows "k \<le> length (set_state q) + 10 \<and> ((\<exists>p net'. party_step p 0 net = Some net')
     \<or> progs net ''Sender'' = Returned NoValue \<and> progs net ''Receiver'' = Returned (QubitValue b)
       \<and> (\<exists>x y. amps net = (\<lambda>s. if s q = x \<and> s a = y
           then 1 / 2 * (st (s b) * psi (s(q := False, a := False, b := False))) else 0)))"
proof -
  let ?phi = "\<lambda>s. st (s q) * psi (s(q := False))"
  from schedule_independence [OF use_teleport_plays [OF assms(1-3)] use_teleport_owned [OF assms(3,4)] assms(5)]
  have k: "k \<le> length (set_state q) + 10"
    "tele_done ''Sender'' ''Receiver'' q a b ?phi net \<or> (\<exists>p net'. party_step p 0 net = Some net')" by simp_all
  from k(2) show ?thesis
  proof
    assume "tele_done ''Sender'' ''Receiver'' q a b ?phi net"
    then obtain m1 m2 where m: "bit m1" "bit m2" and net: "net = net2 ''Sender'' ''Receiver'' (Returned NoValue)
      (Returned (QubitValue b)) [] [] ((if m1 = 1 then apply1 gate_Z b else (\<lambda>x. x))
        ((if m2 = 1 then apply1 gate_X b else (\<lambda>x. x)) (tele_measured q a b m1 m2 ?phi)))" unfolding tele_done_def by blast
    have u: "s(q := v, a := False, b := False, q := False) = s(q := False, a := False, b := False)" for s :: "int \<Rightarrow> bool" and v
      using assms(4) by (auto simp: fun_eq_iff)
    have "amps net = (\<lambda>s. if s q = (m1 = 1) \<and> s a = (m2 = 1)
        then 1 / 2 * (st (s b) * psi (s(q := False, a := False, b := False))) else 0)"
      unfolding net tele_final [OF assms(4) m] using assms(4) by (auto simp: net2_def u fun_eq_iff)
    moreover have "progs net ''Sender'' = Returned NoValue" "progs net ''Receiver'' = Returned (QubitValue b)"
      unfolding net by (simp_all add: net2_sel)
    ultimately show ?thesis using k(1) by blast
  qed (use k(1) in blast)
qed

theorem use_teleport_correct_witness:
  "\<exists>p net'. party_step p 0 (use_teleport_net (ex_set_state 0 (pi / 2)) (ex_program_context ''Receiver'')
     (ex_program_context ''Sender'') 0 1 2 ex_amps) = Some net'"
proof -
  let ?net = "use_teleport_net (ex_set_state 0 (pi / 2)) (ex_program_context ''Receiver'') (ex_program_context ''Sender'') 0 1 2 ex_amps"
  have "network_run ?net 0 ?net" by (rule nr_refl)
  from use_teleport_correct [OF ex_sockets ex_sockets ex_prepares _ this]
  have "(\<exists>p net'. party_step p 0 ?net = Some net') \<or> progs ?net ''Sender'' = Returned NoValue" by simp blast
  moreover have "progs ?net ''Sender'' \<noteq> Returned NoValue"
    by (simp add: use_teleport_net_def net2_sel use_teleport_sender_def teleport_send_def sockets_of_def flush_def
        ex_program_context_def)
  ultimately show ?thesis by blast
qed

section \<open>A distributed gate on prepared states\<close>

definition use_gate_net ::
    "(int \<Rightarrow> sdk_command list) \<Rightarrow> (int \<Rightarrow> sdk_command list) \<Rightarrow> string \<Rightarrow> program_context \<Rightarrow> program_context
       \<Rightarrow> int \<Rightarrow> int \<Rightarrow> int \<Rightarrow> int \<Rightarrow> qstate \<Rightarrow> routine_value qnet" where
  "use_gate_net setc sett gate cc ct c t a b psi =
     net2 ''Controller'' ''Target'' (use_gate_controller setc gate cc c a) (use_gate_target sett gate ct t b) [] [] psi"

text \<open>The command and the operation a gate's name stands for.\<close>

definition gate_named :: "string \<Rightarrow> (int \<Rightarrow> int \<Rightarrow> sdk_command) \<Rightarrow> (int \<Rightarrow> int \<Rightarrow> qstate \<Rightarrow> qstate) \<Rightarrow> bool" where
  "gate_named gate cmd op \<longleftrightarrow> gate = ''cnot'' \<and> cmd = DoCnot \<and> op = cnot \<or> gate = ''cphase'' \<and> cmd = DoCphase \<and> op = cphase"

lemma use_gate_start:
  assumes "has_sockets cc ''Target''" and "has_sockets ct ''Controller''" and "gate_named gate cmd op"
  shows "use_gate_net setc sett gate cc ct c t a b psi = net2 ''Controller'' ''Target''
      (next_command ((DoInit c # setc c) @ [EprCreate ''Target'' a, DoCnot c a, DoMeas a]) [] (dist_ctrl_end ''Target'' c))
      (next_command ((DoInit t # sett t) @ [EprRecv ''Controller'' b]) [] (\<lambda>_. RecvMsg ''Controller'' (dist_target cmd ''Controller'' t b)))
      [] [] psi"
proof -
  have d: "use_gate_controller setc gate cc c a = next_command ((DoInit c # setc c) @ [EprCreate ''Target'' a, DoCnot c a, DoMeas a])
      [] (dist_ctrl_end ''Target'' c)"
    using assms(1,3) unfolding gate_named_def use_gate_controller_def distributed_CNOT_control_def
      distributed_CPhase_control_def dist_ctrl_end_def [abs_def] dist_fix_def [abs_def] sockets_of_def has_sockets_def
    by (auto simp: flush_def)
  have "use_gate_target sett gate ct t b = next_command ((DoInit t # sett t) @ [EprRecv ''Controller'' b])
      [] (\<lambda>_. RecvMsg ''Controller'' (dist_target cmd ''Controller'' t b))"
    using assms(2,3) unfolding gate_named_def use_gate_target_def distributed_CNOT_target_def
      distributed_CPhase_target_def dist_target_def [abs_def] dist_target_end_def [abs_def] sockets_of_def has_sockets_def
    by (auto simp: flush_def)
  with d show ?thesis by (simp add: use_gate_net_def)
qed

lemma use_gate_plays:
  assumes "has_sockets cc ''Target''" and "has_sockets ct ''Controller''" and "gate_named gate cmd op"
    and "prepares setc stc" and "prepares sett stt" and "c \<noteq> t"
  shows "plays (dist_done op ''Controller'' ''Target'' c t a b (both_prepared stc stt c t psi))
     (replicate (length (DoInit c # setc c)) ''Controller'' @ replicate (length (DoInit t # sett t)) ''Target''
        @ replicate 4 ''Controller'' @ replicate 6 ''Target'' @ replicate 2 ''Controller'')
     (use_gate_net setc sett gate cc ct c t a b psi)"
proof -
  have cmd: "two_qubit_command cmd op" using assms(3) two_qubit_commands by (auto simp: gate_named_def)
  let ?ctrl = "next_command [EprCreate ''Target'' a, DoCnot c a, DoMeas a] [] (dist_ctrl_end ''Target'' c)"
  let ?mid = "net2 ''Controller'' ''Target'' ?ctrl
      (next_command ((DoInit t # sett t) @ [EprRecv ''Controller'' b]) [] (\<lambda>_. RecvMsg ''Controller'' (dist_target cmd ''Controller'' t b)))
      [] [] (\<lambda>s. stc (s c) * psi (s(c := False)))"
  let ?ready = "dist_start cmd ''Controller'' ''Target'' c t a b (both_prepared stc stt c t psi)"
  have r1: "reaches (\<lambda>net. net = ?mid) (replicate (length (DoInit c # setc c)) ''Controller'')
      (use_gate_net setc sett gate cc ct c t a b psi)"
    unfolding use_gate_start [OF assms(1-3)]
    by (subst flush_gates(1)) (use prepared_gates [OF assms(4)] in \<open>simp_all del: apply_gates.simps\<close>)
  have r2: "reaches (\<lambda>net. net = ?ready) (replicate (length (DoInit t # sett t)) ''Target'') ?mid"
    by (subst flush_gates(2)) (use prepared_gates [OF assms(5)] assms(6) in \<open>simp_all add: dist_start_def both_prepared_def del: apply_gates.simps\<close>)
  have r3: "plays (dist_done op ''Controller'' ''Target'' c t a b (both_prepared stc stt c t psi))
      (replicate 4 ''Controller'' @ replicate 6 ''Target'' @ replicate 2 ''Controller'') ?ready"
    by (rule dist_plays [OF _ cmd]) simp
  show ?thesis
  proof (rule plays_append [OF r1], hypsubst)
    show "plays (dist_done op ''Controller'' ''Target'' c t a b (both_prepared stc stt c t psi))
        (replicate (length (DoInit t # sett t)) ''Target'' @ replicate 4 ''Controller'' @ replicate 6 ''Target'' @ replicate 2 ''Controller'')
        ?mid"
      by (rule plays_append [OF r2], hypsubst, rule r3)
  qed
qed

lemma use_gate_owned:
  assumes "prepares setc stc" and "prepares sett stt" and "distinct [c, t, a, b]"
  shows "owned ((\<lambda>_. {})(''Controller'' := {c, a}, ''Target'' := {t, b})) (use_gate_net setc sett gate cc ct c t a b psi)"
  unfolding use_gate_net_def
proof (rule net2_owned)
  show "acts_on {c, a} (use_gate_controller setc gate cc c a)"
    unfolding use_gate_controller_def
  proof (rule queue_first_acts)
    show "qubits_of x \<subseteq> {c, a}" if "x \<in> set (DoInit c # setc c)" for x
      using prepared_gates(2) [OF assms(1) that] by auto
  qed (auto simp: distributed_CNOT_control_def distributed_CPhase_control_def sockets_of_def flush_def)
  show "acts_on {t, b} (use_gate_target sett gate ct t b)"
    unfolding use_gate_target_def
  proof (rule queue_first_acts)
    show "qubits_of x \<subseteq> {t, b}" if "x \<in> set (DoInit t # sett t)" for x
      using prepared_gates(2) [OF assms(2) that] by auto
  qed (auto simp: distributed_CNOT_target_def distributed_CPhase_target_def sockets_of_def flush_def)
qed (use assms(3) in auto)

text \<open>
  A distributed gate on prepared states.  With either name of a gate, in every order of
  actions the run never blocks and ends within fourteen actions and the gates of both
  preparations; the two qubits are then in the state of the gate on the prepared states, with
  the pair used up.  With another name both programs return and no qubit is even prepared.
\<close>

theorem use_gate_correct:
  assumes "has_sockets cc ''Target''" and "has_sockets ct ''Controller''" and "prepares setc stc" and "prepares sett stt"
    and "distinct [c, t, a, b]" and "network_run (use_gate_net setc sett gate cc ct c t a b psi) k net"
  shows "(gate_named gate cmd op \<longrightarrow> k \<le> length (setc c) + length (sett t) + 14 \<and> ((\<exists>p net'. party_step p 0 net = Some net')
     \<or> progs net ''Controller'' = Returned NoValue \<and> progs net ''Target'' = Returned NoValue
       \<and> (\<exists>x y. amps net = (\<lambda>s. if s a = x \<and> s b = y
           then 1 / 2 * op c t (both_prepared stc stt c t psi) (s(a := False, b := False)) else 0))))
     \<and> (gate \<noteq> ''cnot'' \<and> gate \<noteq> ''cphase'' \<longrightarrow> k = 0 \<and> progs net ''Controller'' = Returned NoValue
       \<and> progs net ''Target'' = Returned NoValue \<and> amps net = psi)"
proof (intro conjI impI)
  assume g: "gate_named gate cmd op"
  let ?phi = "both_prepared stc stt c t psi"
  have ct: "c \<noteq> t" using assms(5) by auto
  from schedule_independence [OF use_gate_plays [OF assms(1,2) g assms(3,4) ct] use_gate_owned [OF assms(3-5)] assms(6)]
  have k: "k \<le> length (setc c) + length (sett t) + 14"
    "dist_done op ''Controller'' ''Target'' c t a b ?phi net \<or> (\<exists>p net'. party_step p 0 net = Some net')" by simp_all
  show "k \<le> length (setc c) + length (sett t) + 14" by (rule k(1))
  have op: "op = cnot \<or> op = cphase" using g by (auto simp: gate_named_def)
  show "(\<exists>p net'. party_step p 0 net = Some net')
     \<or> progs net ''Controller'' = Returned NoValue \<and> progs net ''Target'' = Returned NoValue
       \<and> (\<exists>x y. amps net = (\<lambda>s. if s a = x \<and> s b = y then 1 / 2 * op c t ?phi (s(a := False, b := False)) else 0))"
    using k(2) by (auto elim!: dist_done_amps [OF _ _ assms(5) op])
next
  assume "gate \<noteq> ''cnot'' \<and> gate \<noteq> ''cphase''"
  then have start: "use_gate_net setc sett gate cc ct c t a b psi
      = net2 ''Controller'' ''Target'' (Returned NoValue) (Returned NoValue) [] [] psi"
    by (simp add: use_gate_net_def use_gate_controller_def use_gate_target_def)
  have over: "k = 0 \<and> net = net2 ''Controller'' ''Target'' (Returned NoValue) (Returned NoValue) [] [] psi"
    using assms(6) unfolding start by (induction rule: network_run.induct) (simp_all add: net2_over)
  then show "k = 0" "progs net ''Controller'' = Returned NoValue" "progs net ''Target'' = Returned NoValue" "amps net = psi"
    by (simp_all add: net2_sel)
qed

theorem use_gate_correct_witness:
  "\<exists>p net'. party_step p 0 (use_gate_net (ex_set_state 0 (pi / 2)) (ex_set_state 0 0) ''cnot'' (ex_program_context ''Target'')
     (ex_program_context ''Controller'') 0 1 2 3 ex_amps) = Some net'"
proof -
  let ?net = "use_gate_net (ex_set_state 0 (pi / 2)) (ex_set_state 0 0) ''cnot'' (ex_program_context ''Target'')
     (ex_program_context ''Controller'') 0 1 2 3 ex_amps"
  have g: "gate_named ''cnot'' DoCnot cnot" by (simp add: gate_named_def)
  have "network_run ?net 0 ?net" by (rule nr_refl)
  from use_gate_correct [OF ex_sockets ex_sockets ex_prepares ex_prepares _ this, of DoCnot cnot] g
  have "(\<exists>p net'. party_step p 0 ?net = Some net') \<or> progs ?net ''Controller'' = Returned NoValue" by auto
  moreover have "progs ?net ''Controller'' \<noteq> Returned NoValue"
    by (simp add: use_gate_net_def net2_sel use_gate_controller_def distributed_CNOT_control_def sockets_of_def flush_def
        ex_program_context_def)
  ultimately show ?thesis by blast
qed

end
