(* ===== verification/DistributedCnot.thy ===== *)
theory DistributedCnot
  imports StatePrep DistributedGate
begin

text \<open>
  The distributed CNOT written out as a protocol of its own,
  \<open>examples/applications/distributed_gate/example_distributed_cnot.py\<close>: the pair is made before
  the qubits are prepared, and the parties synchronise before and after.  The density
  matrices it reads out of the simulation are left out.
\<close>

section \<open>The programs\<close>

text \<open>The controller after its message, given its outcome; the target after its own.\<close>

definition cn_correct :: "int \<Rightarrow> int \<Rightarrow> string \<Rightarrow> routine_value routine" where
  "cn_correct ctrl_qubit epr_meas target_meas = flush (if target_meas = ''1'' then [DoZ ctrl_qubit] else [])
     (\<lambda>_. SendMsg ''Target'' ''ACK'' (Returned (DictValue [(''epr_meas'', IntValue epr_meas)])))"

definition cn_acknowledged :: "int \<Rightarrow> string \<Rightarrow> routine_value routine" where
  "cn_acknowledged epr_meas msg =
     (if msg = ''ACK'' then Returned (DictValue [(''epr_meas'', IntValue epr_meas)]) else Failed AssertionError)"

definition cn_controller_run :: "(int \<Rightarrow> sdk_command list) \<Rightarrow> program_context \<Rightarrow> int \<Rightarrow> int \<Rightarrow> routine_value routine" where
  "cn_controller_run set_state ctx ctrl_qubit epr =
     sockets_of ctx ''Target'' (flush [EprCreate ''Target'' epr] (\<lambda>_.
       flush (DoInit ctrl_qubit # set_state ctrl_qubit) (\<lambda>_. RecvMsg ''Target'' (\<lambda>_.
         flush [DoCnot ctrl_qubit epr, DoMeas epr] (\<lambda>ms.
           SendMsg ''Target'' (py_str (ms ! 0)) (RecvMsg ''Target'' (cn_correct ctrl_qubit (ms ! 0))))))))"

definition cn_apply :: "int \<Rightarrow> int \<Rightarrow> string \<Rightarrow> routine_value routine" where
  "cn_apply target_qubit epr m = flush ((if m = ''1'' then [DoX epr] else []) @ [DoCnot epr target_qubit]) (\<lambda>_.
     flush [DoH epr, DoMeas epr] (\<lambda>ms.
       SendMsg ''Controller'' (py_str (ms ! 0)) (RecvMsg ''Controller'' (cn_acknowledged (ms ! 0)))))"

definition cn_target_run :: "(int \<Rightarrow> sdk_command list) \<Rightarrow> program_context \<Rightarrow> int \<Rightarrow> int \<Rightarrow> routine_value routine" where
  "cn_target_run set_state ctx target_qubit epr =
     sockets_of ctx ''Controller'' (flush [EprRecv ''Controller'' epr] (\<lambda>_.
       flush (DoInit target_qubit # set_state target_qubit) (\<lambda>_.
         SendMsg ''Controller'' [] (RecvMsg ''Controller'' (cn_apply target_qubit epr)))))"

definition cn_net ::
    "(int \<Rightarrow> sdk_command list) \<Rightarrow> (int \<Rightarrow> sdk_command list) \<Rightarrow> program_context \<Rightarrow> program_context
       \<Rightarrow> int \<Rightarrow> int \<Rightarrow> int \<Rightarrow> int \<Rightarrow> qstate \<Rightarrow> routine_value qnet" where
  "cn_net setc sett cc ct c t a b psi =
     net2 ''Controller'' ''Target'' (cn_controller_run setc cc c a) (cn_target_run sett ct t b) [] [] psi"

section \<open>One schedule\<close>

text \<open>Both qubits prepared, after the pair was made: the order of the two does not matter.\<close>

lemma cn_prepared:
  assumes "prepares setc stc" and "prepares sett stt" and "distinct [c, t, a, b]"
  shows "apply_gates (DoInit t # sett t) (apply_gates (DoInit c # setc c) (epr_pair a b psi))
     = epr_pair a b (both_prepared stc stt c t psi)"
proof -
  note pc = prepared_gates [OF assms(1), where q = c] and pt = prepared_gates [OF assms(2), where q = t]
  have "apply_gates (DoInit c # setc c) (epr_pair a b psi) = epr_pair a b (apply_gates (DoInit c # setc c) psi)"
    by (rule gates_commute [OF pc(1) pc(2) local_epr_pair]) (use assms(3) in auto)
  moreover have "apply_gates (DoInit t # sett t) (epr_pair a b phi) = epr_pair a b (apply_gates (DoInit t # sett t) phi)" for phi
    by (rule gates_commute [OF pt(1) pt(2) local_epr_pair]) (use assms(3) in auto)
  ultimately show ?thesis
    using assms(3) by (simp add: pc(3) pt(3) both_prepared_def del: apply_gates.simps)
qed

definition cn_ready :: "int \<Rightarrow> int \<Rightarrow> int \<Rightarrow> int \<Rightarrow> qstate \<Rightarrow> routine_value qnet" where
  "cn_ready c t a b phi = net2 ''Controller'' ''Target''
     (RecvMsg ''Target'' (\<lambda>_. flush [DoCnot c a, DoMeas a] (\<lambda>ms.
       SendMsg ''Target'' (py_str (ms ! 0)) (RecvMsg ''Target'' (cn_correct c (ms ! 0))))))
     (SendMsg ''Controller'' [] (RecvMsg ''Controller'' (cn_apply t b))) [] [] phi"

definition cn_sent :: "int \<Rightarrow> int \<Rightarrow> int \<Rightarrow> int \<Rightarrow> qstate \<Rightarrow> int \<Rightarrow> routine_value qnet" where
  "cn_sent c t a b psi m = net2 ''Controller'' ''Target'' (RecvMsg ''Target'' (cn_correct c m))
     (RecvMsg ''Controller'' (cn_apply t b)) [py_str m] [] (dist_ctrl_amps c a b m psi)"

definition cn_answered :: "int \<Rightarrow> int \<Rightarrow> int \<Rightarrow> int \<Rightarrow> qstate \<Rightarrow> int \<Rightarrow> int \<Rightarrow> routine_value qnet" where
  "cn_answered c t a b psi m m' = net2 ''Controller'' ''Target'' (RecvMsg ''Target'' (cn_correct c m))
     (RecvMsg ''Controller'' (cn_acknowledged m')) [] [py_str m'] (measured b (m' = 1) (dist_amps cnot c t a b m psi))"

definition cn_over :: "int \<Rightarrow> int \<Rightarrow> int \<Rightarrow> int \<Rightarrow> qstate \<Rightarrow> int \<Rightarrow> int \<Rightarrow> routine_value qnet" where
  "cn_over c t a b psi m m' = net2 ''Controller'' ''Target'' (Returned (DictValue [(''epr_meas'', IntValue m)]))
     (Returned (DictValue [(''epr_meas'', IntValue m')])) [] []
     ((if m' = 1 then apply1 gate_Z c else (\<lambda>x. x)) (measured b (m' = 1) (dist_amps cnot c t a b m psi)))"

lemma cn_sends: "reaches (some_bits (\<lambda>m _. cn_sent c t a b psi m)) (''Target'' # replicate 4 ''Controller'')
    (cn_ready c t a b (epr_pair a b psi))"
  unfolding cn_ready_def
  by (simp add: flush_def net2_steps all_bits eval_nat_numeral cong: play_congs)
    (auto intro: some_bitsI simp: cn_sent_def dist_ctrl_amps_def)

lemma cn_answers:
  assumes "bit m"
  shows "reaches (some_bits (cn_answered c t a b psi)) (replicate 6 ''Target'') (cn_sent c t a b psi m)"
proof -
  note sim = cn_apply_def flush_def py_str_one net2_steps all_bits eval_nat_numeral
  note fin = some_bitsI [where f = "cn_answered c t a b psi", OF assms]
  show ?thesis
  proof (cases "m = 1")
    case True
    show ?thesis unfolding cn_sent_def True
      by (simp add: sim cong: play_congs)
        (intro allI impI fin [unfolded True], assumption, simp add: cn_answered_def dist_amps_def flipped_def)
  next
    case False
    then show ?thesis unfolding cn_sent_def
      by (simp add: sim cong: play_congs)
        (intro allI impI fin, assumption, simp add: cn_answered_def dist_amps_def flipped_def)
  qed
qed

lemma cn_ends:
  assumes "bit m" and "bit m'"
  shows "plays (some_bits (cn_over c t a b psi)) (replicate 3 ''Controller'' @ [''Target'']) (cn_answered c t a b psi m m')"
proof -
  note sim = cn_correct_def cn_acknowledged_def flush_def py_str_one net2_steps net2_over eval_nat_numeral
  note fin = some_bitsI [where f = "cn_over c t a b psi", OF assms]
  show ?thesis
  proof (cases "m' = 1")
    case True
    show ?thesis unfolding cn_answered_def True
      by (simp add: sim cong: play_congs) (rule fin [unfolded True], simp add: cn_over_def)
  next
    case False
    then show ?thesis unfolding cn_answered_def
      by (simp add: sim cong: play_congs) (rule fin, simp add: cn_over_def)
  qed
qed

lemma cn_prepares:
  assumes "has_sockets cc ''Target''" and "has_sockets ct ''Controller''" and "prepares setc stc" and "prepares sett stt"
    and "distinct [c, t, a, b]"
  shows "reaches (\<lambda>net. net = cn_ready c t a b (epr_pair a b (both_prepared stc stt c t psi)))
     (''Controller'' # replicate (length (DoInit c # setc c)) ''Controller'' @ replicate (length (DoInit t # sett t)) ''Target'')
     (cn_net setc sett cc ct c t a b psi)"
proof -
  let ?kc = "\<lambda>_ :: int list. RecvMsg ''Target'' (\<lambda>_. flush [DoCnot c a, DoMeas a] (\<lambda>ms.
       SendMsg ''Target'' (py_str (ms ! 0)) (RecvMsg ''Target'' (cn_correct c (ms ! 0)))))"
  let ?kt = "\<lambda>_ :: int list. SendMsg ''Controller'' [] (RecvMsg ''Controller'' (cn_apply t b))"
  let ?pc = "DoInit c # setc c" and ?pt = "DoInit t # sett t"
  let ?net1 = "net2 ''Controller'' ''Target'' (next_command (?pc @ []) [] ?kc) (next_command (?pt @ []) [] ?kt) [] [] (epr_pair a b psi)"
  have gc: "all_gates ?pc" and gt: "all_gates ?pt" using prepared_gates(1) assms(3,4) by blast+
  have r2: "reaches (\<lambda>net. net = cn_ready c t a b (epr_pair a b (both_prepared stc stt c t psi))) (replicate (length ?pt) ''Target'')
      (net2 ''Controller'' ''Target'' (?kc []) (next_command (?pt @ []) [] ?kt) [] [] (apply_gates ?pc (epr_pair a b psi)))"
    by (subst flush_gates(2) [OF gt]) (simp_all add: cn_ready_def cn_prepared [OF assms(3-5)] del: apply_gates.simps)
  have r1: "reaches (\<lambda>net. net = net2 ''Controller'' ''Target'' (?kc []) (next_command (?pt @ []) [] ?kt) [] []
      (apply_gates ?pc (epr_pair a b psi))) (replicate (length ?pc) ''Controller'') ?net1"
    by (subst flush_gates(1) [OF gc]) simp_all
  have r: "reaches (\<lambda>net. net = cn_ready c t a b (epr_pair a b (both_prepared stc stt c t psi)))
      (replicate (length ?pc) ''Controller'' @ replicate (length ?pt) ''Target'') ?net1"
    by (rule reaches_trans [OF r1], hypsubst, rule r2)
  have "party_step ''Controller'' m (cn_net setc sett cc ct c t a b psi) = Some ?net1" for m
    using assms(1,2) by (simp add: cn_net_def cn_controller_run_def cn_target_run_def sockets_of_def has_sockets_def
        flush_def net2_steps)
  then show ?thesis by (rule reaches_det) (rule r)
qed

lemma cn_plays:
  assumes "has_sockets cc ''Target''" and "has_sockets ct ''Controller''" and "prepares setc stc" and "prepares sett stt"
    and "distinct [c, t, a, b]"
  shows "plays (some_bits (cn_over c t a b (both_prepared stc stt c t psi)))
     ((''Controller'' # replicate (length (DoInit c # setc c)) ''Controller'' @ replicate (length (DoInit t # sett t)) ''Target'')
       @ (''Target'' # replicate 4 ''Controller'') @ replicate 6 ''Target'' @ replicate 3 ''Controller'' @ [''Target''])
     (cn_net setc sett cc ct c t a b psi)"
proof (rule plays_append [OF cn_prepares [OF assms]], hypsubst)
  let ?phi = "both_prepared stc stt c t psi"
  show "plays (some_bits (cn_over c t a b ?phi)) ((''Target'' # replicate 4 ''Controller'') @ replicate 6 ''Target''
      @ replicate 3 ''Controller'' @ [''Target'']) (cn_ready c t a b (epr_pair a b ?phi))"
  proof (rule plays_append [OF cn_sends])
    fix net assume "some_bits (\<lambda>m _. cn_sent c t a b ?phi m) net"
    then obtain m where m: "bit m" and net: "net = cn_sent c t a b ?phi m" unfolding some_bits_def by blast
    show "plays (some_bits (cn_over c t a b ?phi)) (replicate 6 ''Target'' @ replicate 3 ''Controller'' @ [''Target'']) net"
      unfolding net
    proof (rule plays_append [OF cn_answers [OF m]])
      fix net' assume "some_bits (cn_answered c t a b ?phi) net'"
      then show "plays (some_bits (cn_over c t a b ?phi)) (replicate 3 ''Controller'' @ [''Target'']) net'"
        unfolding some_bits_def using cn_ends [unfolded some_bits_def] by blast
    qed
  qed
qed

lemma cn_owned:
  assumes "prepares setc stc" and "prepares sett stt" and "distinct [c, t, a, b]"
  shows "owned ((\<lambda>_. {})(''Controller'' := {c, a}, ''Target'' := {t, b})) (cn_net setc sett cc ct c t a b psi)"
proof -
  have q: "x \<in> set (setc c) \<Longrightarrow> qubits_of x \<subseteq> {c, a}" "x \<in> set (sett t) \<Longrightarrow> qubits_of x \<subseteq> {t, b}" for x
    using prepared_gates(2) [OF assms(1), where q = c] prepared_gates(2) [OF assms(2), where q = t] by auto
  show ?thesis
    unfolding cn_net_def
    by (rule net2_owned) (use assms(3) q in \<open>auto simp: cn_controller_run_def cn_target_run_def cn_correct_def cn_apply_def
        cn_acknowledged_def sockets_of_def flush_def\<close>)
qed

text \<open>
  C30: the distributed CNOT protocol.  In every order of actions the run never blocks and ends
  within 18 actions and the gates of the preparations; each party returns its own outcome,
  the acknowledgement always is one, and the two qubits are in the state of a CNOT on the
  prepared states, the outcomes being uniformly random.
\<close>

theorem distributed_cnot_protocol:
  assumes "has_sockets cc ''Target''" and "has_sockets ct ''Controller''" and "prepares setc stc" and "prepares sett stt"
    and "distinct [c, t, a, b]" and "network_run (cn_net setc sett cc ct c t a b psi) k net"
  shows "k \<le> length (setc c) + length (sett t) + 18 \<and> ((\<exists>p net'. party_step p 0 net = Some net')
     \<or> (\<exists>m m'. bit m \<and> bit m' \<and> progs net ''Controller'' = Returned (DictValue [(''epr_meas'', IntValue m)])
         \<and> progs net ''Target'' = Returned (DictValue [(''epr_meas'', IntValue m')])
         \<and> amps net = (\<lambda>s. if s a = (m = 1) \<and> s b = (m' = 1)
             then 1 / 2 * cnot c t (both_prepared stc stt c t psi) (s(a := False, b := False)) else 0)))"
proof -
  let ?phi = "both_prepared stc stt c t psi"
  from schedule_independence [OF cn_plays [OF assms(1-5)] cn_owned [OF assms(3-5)] assms(6)]
  have k: "k \<le> length (setc c) + length (sett t) + 18"
    "some_bits (cn_over c t a b ?phi) net \<or> (\<exists>p net'. party_step p 0 net = Some net')" by simp_all
  from k(2) show ?thesis
  proof
    assume "some_bits (cn_over c t a b ?phi) net"
    then obtain m m' where m: "bit m" "bit m'" and net: "net = cn_over c t a b ?phi m m'" unfolding some_bits_def by blast
    have "progs net ''Controller'' = Returned (DictValue [(''epr_meas'', IntValue m)])"
      "progs net ''Target'' = Returned (DictValue [(''epr_meas'', IntValue m')])"
      "amps net = (\<lambda>s. if s a = (m = 1) \<and> s b = (m' = 1) then 1 / 2 * cnot c t ?phi (s(a := False, b := False)) else 0)"
      unfolding net cn_over_def by (simp_all add: net2_sel dist_final [OF assms(5) m])
    then show ?thesis using k(1) m by blast
  qed (use k(1) in blast)
qed

theorem distributed_cnot_protocol_witness:
  "\<exists>p net'. party_step p 0 (cn_net (ex_set_state 0 (pi / 2)) (ex_set_state 0 0) (ex_program_context ''Target'')
     (ex_program_context ''Controller'') 0 1 2 3 ex_amps) = Some net'"
proof -
  let ?net = "cn_net (ex_set_state 0 (pi / 2)) (ex_set_state 0 0) (ex_program_context ''Target'')
     (ex_program_context ''Controller'') 0 1 2 3 ex_amps"
  have "network_run ?net 0 ?net" by (rule nr_refl)
  from distributed_cnot_protocol [OF ex_sockets ex_sockets ex_prepares ex_prepares _ this]
  have "(\<exists>p net'. party_step p 0 ?net = Some net') \<or> (\<exists>v. progs ?net ''Controller'' = Returned v)" by auto
  moreover have "progs ?net ''Controller'' \<noteq> Returned v" for v
    by (simp add: cn_net_def net2_sel cn_controller_run_def sockets_of_def flush_def ex_program_context_def)
  ultimately show ?thesis by blast
qed

end
