(* ===== verification/EprRounds.thy ===== *)
theory EprRounds
  imports CSocket Schedules
begin

text \<open>
  The programs of \<open>examples/tutorial/3.1_output/application.py\<close>: any number of rounds, in each of
  which both parties measure a half of a pair after a Hadamard gate.  The tutorial runs them over
  an imperfect link, and its \<open>run_simulation.py\<close> counts the rounds in which they differ; so the
  pairs here have errors.
\<close>

section \<open>The programs\<close>

primrec rounds_alice_loop :: "nat \<Rightarrow> (nat \<Rightarrow> int) \<Rightarrow> nat \<Rightarrow> int list \<Rightarrow> routine_value routine" where
  "rounds_alice_loop 0 qubit i measurements = Returned (DictValue [(''measurements'', IntsValue measurements)])"
| "rounds_alice_loop (Suc n) qubit i measurements =
     flush [EprCreate ''Bob'' (qubit i), DoH (qubit i), DoMeas (qubit i)]
       (\<lambda>ms. rounds_alice_loop n qubit (Suc i) (measurements @ [ms ! 0]))"

definition rounds_alice_run :: "nat \<Rightarrow> program_context \<Rightarrow> (nat \<Rightarrow> int) \<Rightarrow> routine_value routine" where
  "rounds_alice_run num_epr_rounds ctx qubit =
     (if ''Bob'' \<in> set (dict_keys (pc_epr_sockets ctx)) then rounds_alice_loop num_epr_rounds qubit 0 [] else Failed KeyError)"

primrec rounds_bob_loop :: "nat \<Rightarrow> (nat \<Rightarrow> int) \<Rightarrow> nat \<Rightarrow> int list \<Rightarrow> routine_value routine" where
  "rounds_bob_loop 0 qubit i measurements = Returned (DictValue [(''measurements'', IntsValue measurements)])"
| "rounds_bob_loop (Suc n) qubit i measurements =
     flush [EprRecv ''Alice'' (qubit i), DoH (qubit i), DoMeas (qubit i)]
       (\<lambda>ms. rounds_bob_loop n qubit (Suc i) (measurements @ [ms ! 0]))"

definition rounds_bob_run :: "nat \<Rightarrow> program_context \<Rightarrow> (nat \<Rightarrow> int) \<Rightarrow> routine_value routine" where
  "rounds_bob_run num_epr_rounds ctx qubit =
     (if ''Alice'' \<in> set (dict_keys (pc_epr_sockets ctx)) then rounds_bob_loop num_epr_rounds qubit 0 [] else Failed KeyError)"

text \<open>\<open>errors\<close> of \<open>run_simulation.py\<close>: the rounds in which the results differ.\<close>

definition result_errors :: "int list \<Rightarrow> int list \<Rightarrow> bool list" where
  "result_errors results_alice results_bob = map (\<lambda>(ra, rb). ra \<noteq> rb) (zip results_alice results_bob)"

section \<open>Imperfect links\<close>

text \<open>
  A pair from a depolarising link of fidelity \<open>F\<close> is the perfect pair with probability \<open>F\<close>, and
  with the same probability each of the three others, which a bit flip, a phase flip or
  both on the creator's half make of it.  The errors of a run's pairs are a list, in the order the
  pairs are created; \<open>noisy\<close> puts each right after the creation of its pair.
\<close>

datatype pair_error = NoError | BitFlip | PhaseFlip | BothFlips

fun phase_flip :: "pair_error \<Rightarrow> bool" where
  "phase_flip PhaseFlip = True"
| "phase_flip BothFlips = True"
| "phase_flip _ = False"

fun error_gates :: "pair_error \<Rightarrow> int \<Rightarrow> sdk_command list" where
  "error_gates NoError q = []"
| "error_gates BitFlip q = [DoX q]"
| "error_gates PhaseFlip q = [DoZ q]"
| "error_gates BothFlips q = [DoX q, DoZ q]"

definition depolarised :: "rat \<Rightarrow> pair_error \<Rightarrow> rat" where
  "depolarised F e = (if e = NoError then F else (1 - F) / 3)"

fun noisy_commands :: "pair_error list \<Rightarrow> sdk_command list \<Rightarrow> sdk_command list" where
  "noisy_commands (e # es) (EprCreate peer q # cs) = EprCreate peer q # error_gates e q @ noisy_commands es cs"
| "noisy_commands es (c # cs) = c # noisy_commands es cs"
| "noisy_commands es [] = []"

fun pairs_created :: "sdk_command list \<Rightarrow> nat" where
  "pairs_created (EprCreate peer q # cs) = Suc (pairs_created cs)"
| "pairs_created (c # cs) = pairs_created cs"
| "pairs_created [] = 0"

primrec noisy :: "'a routine \<Rightarrow> pair_error list \<Rightarrow> 'a routine" where
  "noisy (Returned x) es = Returned x"
| "noisy (Failed e) es = Failed e"
| "noisy (Flushing cs res k) es = Flushing (noisy_commands es cs) res (\<lambda>ms. noisy (k ms) (drop (pairs_created cs) es))"
| "noisy (SendMsg peer msg r) es = SendMsg peer msg (noisy r es)"
| "noisy (RecvMsg peer k) es = RecvMsg peer (\<lambda>msg. noisy (k msg) es)"

text \<open>Without errors a program is itself.\<close>

lemma noisy_commands_perfect: "set es \<subseteq> {NoError} \<Longrightarrow> noisy_commands es cs = cs"
  by (induction es cs rule: noisy_commands.induct) auto

lemma noisy_perfect: "set es \<subseteq> {NoError} \<Longrightarrow> noisy r es = r"
proof (induction r arbitrary: es)
  case (Flushing cs res k)
  have "set (drop n es) \<subseteq> {NoError}" for n using Flushing.prems set_drop_subset [of n es] by blast
  with Flushing show ?case by (simp add: noisy_commands_perfect)
qed simp_all

definition rounds_net ::
    "nat \<Rightarrow> program_context \<Rightarrow> program_context \<Rightarrow> (nat \<Rightarrow> int) \<Rightarrow> (nat \<Rightarrow> int) \<Rightarrow> pair_error list \<Rightarrow> qstate
       \<Rightarrow> routine_value qnet" where
  "rounds_net n ca cb qa qb errs psi =
     net2 ''Alice'' ''Bob'' (noisy (rounds_alice_run n ca qa) errs) (rounds_bob_run n cb qb) [] [] psi"

section \<open>One round\<close>

text \<open>
  A phase flip makes the outcomes differ; a bit flip gives the outcome one of the receiver a sign.
\<close>

definition error_sign :: "pair_error \<Rightarrow> int \<Rightarrow> complex" where
  "error_sign e v = (if e \<in> {BitFlip, BothFlips} \<and> v = 1 then - 1 else 1)"

definition round_amps :: "int \<Rightarrow> int \<Rightarrow> pair_error \<Rightarrow> int \<Rightarrow> int \<Rightarrow> qstate \<Rightarrow> qstate" where
  "round_amps a b e u v psi = (\<lambda>s. if s a = (u = 1) \<and> s b = (v = 1) \<and> (u \<noteq> v) = phase_flip e
     then error_sign e v * half_root * psi (s(a := False, b := False)) else 0)"

fun error_amps :: "pair_error \<Rightarrow> int \<Rightarrow> qstate \<Rightarrow> qstate" where
  "error_amps NoError q psi = psi"
| "error_amps BitFlip q psi = apply1 gate_X q psi"
| "error_amps PhaseFlip q psi = apply1 gate_Z q psi"
| "error_amps BothFlips q psi = apply1 gate_Z q (apply1 gate_X q psi)"

lemma round_amps_eq:
  assumes "a \<noteq> b" and "bit u" and "bit v"
  shows "measured b (v = 1) (apply1 gate_H b (measured a (u = 1) (apply1 gate_H a (error_amps e a (epr_pair a b psi)))))
     = round_amps a b e u v psi"
proof
  fix s :: "int \<Rightarrow> bool"
  have x: "(u = v) = ((u = 1) = (v = 1))" using assms(2,3) by (auto simp: bit_def)
  have w: "s(b := y, a := False, b := False) = s(a := False, b := False)"
    "s(b := y, a := z, a := False, b := False) = s(a := False, b := False)" for y z
    using assms(1) by (auto simp: fun_eq_iff)
  have h: "half_root * (half_root * (half_root * p)) + half_root * (half_root * (half_root * p)) = half_root * p" for p
  proof -
    have "half_root * (half_root * (half_root * p)) = half_root * half_root * (half_root * p)" by (simp only: mult.assoc)
    then show ?thesis by simp
  qed
  show "measured b (v = 1) (apply1 gate_H b (measured a (u = 1) (apply1 gate_H a (error_amps e a (epr_pair a b psi))))) s
     = round_amps a b e u v psi s"
    unfolding round_amps_def x using assms(1)
    by (cases e; cases "s a"; cases "s b") (simp_all add: gate_defs error_sign_def w h flip: minus_add_distrib)
qed

text \<open>The actions of one round, with one for each gate of the error.\<close>

definition round_order :: "pair_error \<Rightarrow> string list" where
  "round_order e = ''Alice'' # map (\<lambda>_. ''Alice'') (error_gates e 0) @ [''Alice'', ''Alice'', ''Bob'', ''Bob'']"

lemma one_round:
  assumes "qa i \<noteq> qb i"
  shows "reaches (some_bits (\<lambda>u v. net2 ''Alice'' ''Bob'' (noisy (rounds_alice_loop n qa (Suc i) (us @ [u])) es)
        (rounds_bob_loop n qb (Suc i) (vs @ [v])) [] [] (round_amps (qa i) (qb i) e u v psi)))
     (round_order e)
     (net2 ''Alice'' ''Bob'' (noisy (rounds_alice_loop (Suc n) qa i us) (e # es)) (rounds_bob_loop (Suc n) qb i vs) [] [] psi)"
proof (cases e)
  case NoError
  show ?thesis unfolding NoError
    by (simp add: flush_def round_order_def net2_steps all_bits cong: play_congs)
      (intro allI impI, rule some_bitsI, assumption, assumption,
        simp add: round_amps_eq [OF assms, where e = NoError, unfolded error_amps.simps])
next
  case BitFlip
  show ?thesis unfolding BitFlip
    by (simp add: flush_def round_order_def net2_steps all_bits cong: play_congs)
      (intro allI impI, rule some_bitsI, assumption, assumption,
        simp add: round_amps_eq [OF assms, where e = BitFlip, unfolded error_amps.simps])
next
  case PhaseFlip
  show ?thesis unfolding PhaseFlip
    by (simp add: flush_def round_order_def net2_steps all_bits cong: play_congs)
      (intro allI impI, rule some_bitsI, assumption, assumption,
        simp add: round_amps_eq [OF assms, where e = PhaseFlip, unfolded error_amps.simps])
next
  case BothFlips
  show ?thesis unfolding BothFlips
    by (simp add: flush_def round_order_def net2_steps all_bits cong: play_congs)
      (intro allI impI, rule some_bitsI, assumption, assumption,
        simp add: round_amps_eq [OF assms, where e = BothFlips, unfolded error_amps.simps])
qed

section \<open>All rounds\<close>

fun rounds_amps ::
    "(nat \<Rightarrow> int) \<Rightarrow> (nat \<Rightarrow> int) \<Rightarrow> nat \<Rightarrow> pair_error list \<Rightarrow> int list \<Rightarrow> int list \<Rightarrow> qstate \<Rightarrow> qstate" where
  "rounds_amps qa qb i (e # es) (u # us) (v # vs) psi = rounds_amps qa qb (Suc i) es us vs (round_amps (qa i) (qb i) e u v psi)"
| "rounds_amps qa qb i _ _ _ psi = psi"

definition rounds_done ::
    "(nat \<Rightarrow> int) \<Rightarrow> (nat \<Rightarrow> int) \<Rightarrow> nat \<Rightarrow> pair_error list \<Rightarrow> int list \<Rightarrow> int list \<Rightarrow> qstate \<Rightarrow> routine_value qnet \<Rightarrow> bool" where
  "rounds_done qa qb i es us vs psi net \<longleftrightarrow> (\<exists>us' vs'. length us' = length es \<and> length vs' = length es
     \<and> (\<forall>u \<in> set us'. bit u) \<and> (\<forall>v \<in> set vs'. bit v)
     \<and> net = net2 ''Alice'' ''Bob'' (Returned (DictValue [(''measurements'', IntsValue (us @ us'))]))
         (Returned (DictValue [(''measurements'', IntsValue (vs @ vs'))])) [] [] (rounds_amps qa qb i es us' vs' psi))"

lemma rounds_done_Suc:
  assumes "bit u" and "bit v" and "rounds_done qa qb (Suc i) es (us @ [u]) (vs @ [v]) (round_amps (qa i) (qb i) e u v psi) net"
  shows "rounds_done qa qb i (e # es) us vs psi net"
proof -
  from assms(3) obtain us' vs' where "length us' = length es" "length vs' = length es" "\<forall>u \<in> set us'. bit u" "\<forall>v \<in> set vs'. bit v"
    "net = net2 ''Alice'' ''Bob'' (Returned (DictValue [(''measurements'', IntsValue ((us @ [u]) @ us'))]))
         (Returned (DictValue [(''measurements'', IntsValue ((vs @ [v]) @ vs'))])) [] []
         (rounds_amps qa qb (Suc i) es us' vs' (round_amps (qa i) (qb i) e u v psi))" unfolding rounds_done_def by blast
  with assms(1,2) show ?thesis
    unfolding rounds_done_def by (intro exI [of _ "u # us'"] exI [of _ "v # vs'"]) simp
qed

lemma plays_mono: "plays P ps net \<Longrightarrow> (\<And>net. P net \<Longrightarrow> P' net) \<Longrightarrow> plays P' ps net"
  unfolding reaches_plays by (erule reaches_mono) simp

lemma rounds_play:
  assumes "\<forall>j < length es. qa (i + j) \<noteq> qb (i + j)"
  shows "plays (rounds_done qa qb i es us vs psi) (concat (map round_order es))
     (net2 ''Alice'' ''Bob'' (noisy (rounds_alice_loop (length es) qa i us) es) (rounds_bob_loop (length es) qb i vs) [] [] psi)"
  using assms
proof (induction es arbitrary: i us vs psi)
  case Nil
  show ?case by (simp add: net2_over rounds_done_def)
next
  case (Cons e es)
  have d: "qa i \<noteq> qb i" using Cons.prems by (auto dest: spec [of _ 0])
  have ds: "\<forall>j < length es. qa (Suc i + j) \<noteq> qb (Suc i + j)" using Cons.prems by (auto dest: spec [of _ "Suc _"])
  show ?case
    unfolding list.map concat.simps list.size add_0_right add_Suc_right
  proof (rule plays_append [OF one_round [of qa i qb "length es" us es vs e psi, OF d]])
    fix net assume "some_bits (\<lambda>u v. net2 ''Alice'' ''Bob'' (noisy (rounds_alice_loop (length es) qa (Suc i) (us @ [u])) es)
        (rounds_bob_loop (length es) qb (Suc i) (vs @ [v])) [] [] (round_amps (qa i) (qb i) e u v psi)) net"
    then obtain u v where b: "bit u" "bit v"
      and net: "net = net2 ''Alice'' ''Bob'' (noisy (rounds_alice_loop (length es) qa (Suc i) (us @ [u])) es)
        (rounds_bob_loop (length es) qb (Suc i) (vs @ [v])) [] [] (round_amps (qa i) (qb i) e u v psi)" unfolding some_bits_def by blast
    show "plays (rounds_done qa qb i (e # es) us vs psi) (concat (map round_order es)) net"
      unfolding net by (rule plays_mono [OF Cons.IH [OF ds]]) (rule rounds_done_Suc [OF b])
  qed
qed

section \<open>What the parties find\<close>

text \<open>The bits of the parties' qubits are those found; clearing them.\<close>

definition found_bits :: "(nat \<Rightarrow> int) \<Rightarrow> (nat \<Rightarrow> int) \<Rightarrow> nat \<Rightarrow> int list \<Rightarrow> int list \<Rightarrow> (int \<Rightarrow> bool) \<Rightarrow> bool" where
  "found_bits qa qb i us vs s \<longleftrightarrow> (\<forall>j < length us. s (qa (i + j)) = (us ! j = 1) \<and> s (qb (i + j)) = (vs ! j = 1))"

primrec clear_pairs :: "(nat \<Rightarrow> int) \<Rightarrow> (nat \<Rightarrow> int) \<Rightarrow> nat \<Rightarrow> nat \<Rightarrow> (int \<Rightarrow> bool) \<Rightarrow> int \<Rightarrow> bool" where
  "clear_pairs qa qb i 0 s = s"
| "clear_pairs qa qb i (Suc n) s = (clear_pairs qa qb (Suc i) n s)(qa i := False, qb i := False)"

definition separate_pairs :: "(nat \<Rightarrow> int) \<Rightarrow> (nat \<Rightarrow> int) \<Rightarrow> nat \<Rightarrow> nat \<Rightarrow> bool" where
  "separate_pairs qa qb i n \<longleftrightarrow> (\<forall>j < n. \<forall>k < n. (qa (i + j) = qa (i + k) \<longrightarrow> j = k) \<and> (qb (i + j) = qb (i + k) \<longrightarrow> j = k)
     \<and> qa (i + j) \<noteq> qb (i + k))"

lemma separate_pairs_Suc:
  assumes "separate_pairs qa qb i (Suc n)"
  shows "separate_pairs qa qb (Suc i) n" and "j < n \<Longrightarrow> qa i \<noteq> qa (Suc i + j) \<and> qa i \<noteq> qb (Suc i + j)"
    and "j < n \<Longrightarrow> qb i \<noteq> qa (Suc i + j) \<and> qb i \<noteq> qb (Suc i + j)"
proof -
  have a: "(qa (i + j) = qa (i + k) \<longrightarrow> j = k) \<and> (qb (i + j) = qb (i + k) \<longrightarrow> j = k) \<and> qa (i + j) \<noteq> qb (i + k)"
    if "j < Suc n" "k < Suc n" for j k using assms that unfolding separate_pairs_def by blast
  show "separate_pairs qa qb (Suc i) n"
    using a [of "Suc _" "Suc _"] unfolding separate_pairs_def by simp
  show "j < n \<Longrightarrow> qa i \<noteq> qa (Suc i + j) \<and> qa i \<noteq> qb (Suc i + j)" using a [of 0 "Suc j"] by simp
  show "j < n \<Longrightarrow> qb i \<noteq> qa (Suc i + j) \<and> qb i \<noteq> qb (Suc i + j)" using a [of 0 "Suc j"] a [of "Suc j" 0] by force
qed

lemma clear_pairs_other:
  "\<forall>j < n. q \<noteq> qa (i + j) \<and> q \<noteq> qb (i + j) \<Longrightarrow> clear_pairs qa qb i n s q = s q"
proof (induction n arbitrary: i)
  case (Suc n)
  have "q \<noteq> qa i" "q \<noteq> qb i" using Suc.prems by (auto dest: spec [of _ 0])
  moreover have "\<forall>j < n. q \<noteq> qa (Suc i + j) \<and> q \<noteq> qb (Suc i + j)" using Suc.prems by (auto dest: spec [of _ "Suc _"])
  ultimately show ?case using Suc.IH by simp
qed simp

text \<open>The sign the errors give a list of outcomes.\<close>

definition errors_sign :: "pair_error list \<Rightarrow> int list \<Rightarrow> complex" where
  "errors_sign es vs = prod_list (map2 error_sign es vs)"

lemma cmod_errors_sign: "cmod (errors_sign es vs) = 1"
proof -
  have "cmod (error_sign e v) = 1" for e v by (simp add: error_sign_def)
  then show ?thesis unfolding errors_sign_def
    by (induction es vs rule: list_induct2') (simp_all add: norm_mult)
qed

lemma rounds_amps_eq:
  assumes "length es = length us" and "length us = length vs" and "separate_pairs qa qb i (length es)"
  shows "rounds_amps qa qb i es us vs psi
     = (\<lambda>s. if result_errors us vs = map phase_flip es \<and> found_bits qa qb i us vs s
         then errors_sign es vs * half_root ^ length es * psi (clear_pairs qa qb i (length es) s) else 0)"
  using assms
proof (induction es us vs arbitrary: i psi rule: list_induct3)
  case Nil
  show ?case by (simp add: found_bits_def result_errors_def errors_sign_def)
next
  case (Cons e es u us v vs)
  note sep = separate_pairs_Suc [OF Cons.prems [unfolded list.size add_0_right add_Suc_right]]
  show ?case
  proof
    fix s
    let ?t = "clear_pairs qa qb (Suc i) (length es) s"
    have t: "?t (qa i) = s (qa i)" "?t (qb i) = s (qb i)"
      using sep(2,3) by (intro clear_pairs_other; blast)+
    have f: "found_bits qa qb i (u # us) (v # vs) s = (s (qa i) = (u = 1) \<and> s (qb i) = (v = 1) \<and> found_bits qa qb (Suc i) us vs s)"
      unfolding found_bits_def by (auto simp: less_Suc_eq_0_disj)
    show "rounds_amps qa qb i (e # es) (u # us) (v # vs) psi s
      = (if result_errors (u # us) (v # vs) = map phase_flip (e # es) \<and> found_bits qa qb i (u # us) (v # vs) s
        then errors_sign (e # es) (v # vs) * half_root ^ length (e # es) * psi (clear_pairs qa qb i (length (e # es)) s) else 0)"
      using Cons.IH [OF sep(1)] by (simp add: f round_amps_def t mult_ac result_errors_def errors_sign_def)
  qed
qed

lemma rounds_owned:
  assumes "separate_pairs qa qb 0 n"
  shows "owned ((\<lambda>_. {})(''Alice'' := qa ` {..<n}, ''Bob'' := qb ` {..<n})) (rounds_net n ca cb qa qb errs psi)"
proof -
  have a: "acts_on Q (noisy (rounds_alice_loop m qa i us) es)" if "\<forall>j < m. qa (i + j) \<in> Q" for m i us es Q
    using that
  proof (induction m arbitrary: i us es)
    case (Suc m)
    have q: "qa i \<in> Q" using Suc.prems by (auto dest: spec [of _ 0])
    have "\<forall>j < m. qa (Suc i + j) \<in> Q" using Suc.prems by (auto dest: spec [of _ "Suc _"])
    then show ?case
    proof (cases es)
      case (Cons e es')
      show ?thesis using Suc.IH \<open>\<forall>j < m. qa (Suc i + j) \<in> Q\<close> q unfolding Cons by (cases e) (simp_all add: flush_def)
    qed (use Suc.IH q in \<open>simp add: flush_def\<close>)
  qed simp
  have b: "acts_on Q (rounds_bob_loop m qb i us)" if "\<forall>j < m. qb (i + j) \<in> Q" for m i us Q
    using that
  proof (induction m arbitrary: i us)
    case (Suc m)
    have "qb i \<in> Q" using Suc.prems by (auto dest: spec [of _ 0])
    moreover have "\<forall>j < m. qb (Suc i + j) \<in> Q" using Suc.prems by (auto dest: spec [of _ "Suc _"])
    ultimately show ?case using Suc.IH by (simp add: flush_def)
  qed simp
  show ?thesis
    unfolding rounds_net_def
    by (rule net2_owned) (use assms in \<open>auto simp: rounds_alice_run_def rounds_bob_run_def separate_pairs_def intro!: a b\<close>)
qed

text \<open>
  C32: rounds of entanglement over an imperfect link.  For any number of rounds, any errors of
  the pairs and every order of actions the run never blocks and ends within five actions per
  round, beside those of the errors; both parties return one outcome per round.  The rounds in which
  they differ are exactly those whose pair has a phase flip: other lists of outcomes have amplitude
  zero, and every such list has weight one half for each round.  So over a perfect link,
  which leaves the programs as they are, the lists are equal; and over a depolarising link of
  fidelity \<open>F\<close> two rounds in three that have an error differ, a rate of \<open>2 (1 - F) / 3\<close>.
\<close>

theorem rounds_outcomes_agree:
  assumes "''Bob'' \<in> set (dict_keys (pc_epr_sockets ca))" and "''Alice'' \<in> set (dict_keys (pc_epr_sockets cb))"
    and "separate_pairs qa qb 0 n" and "length errs = n" and "network_run (rounds_net n ca cb qa qb errs psi) k net"
  shows "k \<le> 5 * n + sum_list (map (\<lambda>e. length (error_gates e 0)) errs) \<and> ((\<exists>p net'. party_step p 0 net = Some net')
     \<or> (\<exists>us vs c. length us = n \<and> length vs = n \<and> (\<forall>u \<in> set us. bit u) \<and> (\<forall>v \<in> set vs. bit v) \<and> cmod c = 1
         \<and> progs net ''Alice'' = Returned (DictValue [(''measurements'', IntsValue us)])
         \<and> progs net ''Bob'' = Returned (DictValue [(''measurements'', IntsValue vs)])
         \<and> amps net = (\<lambda>s. if result_errors us vs = map phase_flip errs \<and> found_bits qa qb 0 us vs s
              then c * half_root ^ n * psi (clear_pairs qa qb 0 n s) else 0)
         \<and> (set errs \<subseteq> {NoError} \<and> result_errors us vs = map phase_flip errs \<longrightarrow> us = vs)))
     \<and> (set errs \<subseteq> {NoError} \<longrightarrow> noisy (rounds_alice_run n ca qa) errs = rounds_alice_run n ca qa)
     \<and> (\<Sum>e \<in> {NoError, BitFlip, PhaseFlip, BothFlips}. depolarised F e) = 1
     \<and> (\<Sum>e \<in> {e \<in> {NoError, BitFlip, PhaseFlip, BothFlips}. phase_flip e}. depolarised F e) = 2 * (1 - F) / 3"
proof (intro conjI impI)
  let ?out = "\<lambda>us vs c. length us = n \<and> length vs = n \<and> (\<forall>u \<in> set us. bit u) \<and> (\<forall>v \<in> set vs. bit v) \<and> cmod c = 1
         \<and> progs net ''Alice'' = Returned (DictValue [(''measurements'', IntsValue us)])
         \<and> progs net ''Bob'' = Returned (DictValue [(''measurements'', IntsValue vs)])
         \<and> amps net = (\<lambda>s. if result_errors us vs = map phase_flip errs \<and> found_bits qa qb 0 us vs s
              then c * half_root ^ n * psi (clear_pairs qa qb 0 n s) else 0)
         \<and> (set errs \<subseteq> {NoError} \<and> result_errors us vs = map phase_flip errs \<longrightarrow> us = vs)"
  have len: "length (concat (map round_order es)) = 5 * length es + sum_list (map (\<lambda>e. length (error_gates e 0)) es)" for es
    by (induction es) (simp_all add: round_order_def)
  have d: "\<forall>j < length errs. qa (0 + j) \<noteq> qb (0 + j)" using assms(3,4) unfolding separate_pairs_def by blast
  have "plays (rounds_done qa qb 0 errs [] [] psi) (concat (map round_order errs)) (rounds_net n ca cb qa qb errs psi)"
    using rounds_play [OF d, of "[]" "[]" psi] assms(1,2,4) by (simp add: rounds_net_def rounds_alice_run_def rounds_bob_run_def)
  from schedule_independence [OF this rounds_owned [OF assms(3)] assms(5)]
  have k: "k \<le> 5 * n + sum_list (map (\<lambda>e. length (error_gates e 0)) errs)"
    "rounds_done qa qb 0 errs [] [] psi net \<or> (\<exists>p net'. party_step p 0 net = Some net')" unfolding len assms(4) by simp_all
  show "k \<le> 5 * n + sum_list (map (\<lambda>e. length (error_gates e 0)) errs)" by (rule k(1))
  from k(2) show "(\<exists>p net'. party_step p 0 net = Some net') \<or> (\<exists>us vs c. ?out us vs c)"
  proof
    assume "rounds_done qa qb 0 errs [] [] psi net"
    then obtain us vs where l: "length us = n" "length vs = n" and b: "\<forall>u \<in> set us. bit u" "\<forall>v \<in> set vs. bit v"
      and net: "net = net2 ''Alice'' ''Bob'' (Returned (DictValue [(''measurements'', IntsValue us)]))
         (Returned (DictValue [(''measurements'', IntsValue vs)])) [] [] (rounds_amps qa qb 0 errs us vs psi)"
      unfolding rounds_done_def assms(4) by auto
    have sp: "separate_pairs qa qb 0 (length errs)" using assms(3,4) by simp
    have a: "amps net = (\<lambda>s. if result_errors us vs = map phase_flip errs \<and> found_bits qa qb 0 us vs s
        then errors_sign errs vs * half_root ^ n * psi (clear_pairs qa qb 0 n s) else 0)"
    proof -
      have "length errs = length us" "length us = length vs" using l assms(4) by simp_all
      from rounds_amps_eq [OF this sp, of psi] show ?thesis unfolding net assms(4) by (simp add: net2_sel)
    qed
    have "us = vs" if "set errs \<subseteq> {NoError}" "result_errors us vs = map phase_flip errs"
    proof (rule nth_equalityI)
      fix j assume j: "j < length us"
      then have "errs ! j \<in> set errs" using l assms(4) by simp
      then have "errs ! j = NoError" using that(1) by blast
      moreover have "result_errors us vs ! j = phase_flip (errs ! j)" using that(2) j l assms(4) by simp
      ultimately show "us ! j = vs ! j" using j l by (simp add: result_errors_def)
    qed (simp add: l)
    then have "?out us vs (errors_sign errs vs)"
      using l b a cmod_errors_sign by (simp add: net net2_sel)
    then show ?thesis by blast
  qed blast
  show "noisy (rounds_alice_run n ca qa) errs = rounds_alice_run n ca qa" if "set errs \<subseteq> {NoError}"
    by (rule noisy_perfect [OF that])
  show "(\<Sum>e \<in> {NoError, BitFlip, PhaseFlip, BothFlips}. depolarised F e) = 1"
    by (simp add: depolarised_def field_simps)
  have "{e \<in> {NoError, BitFlip, PhaseFlip, BothFlips}. phase_flip e} = {PhaseFlip, BothFlips}" by auto
  then show "(\<Sum>e \<in> {e \<in> {NoError, BitFlip, PhaseFlip, BothFlips}. phase_flip e}. depolarised F e) = 2 * (1 - F) / 3"
    by (simp add: depolarised_def field_simps)
qed

text \<open>Three rounds, the second with a phase flip.\<close>

theorem rounds_outcomes_agree_witness:
  "\<exists>p net'. party_step p 0 (rounds_net 3 (ex_program_context ''Bob'') (ex_program_context ''Alice'') (\<lambda>i. 2 * int i)
     (\<lambda>i. 2 * int i + 1) [NoError, PhaseFlip, NoError] ex_amps) = Some net'"
proof -
  let ?net = "rounds_net 3 (ex_program_context ''Bob'') (ex_program_context ''Alice'') (\<lambda>i. 2 * int i) (\<lambda>i. 2 * int i + 1)
    [NoError, PhaseFlip, NoError] ex_amps"
  have c: "''Bob'' \<in> set (dict_keys (pc_epr_sockets (ex_program_context ''Bob'')))"
    "''Alice'' \<in> set (dict_keys (pc_epr_sockets (ex_program_context ''Alice'')))" by (simp_all add: ex_program_context_def)
  have s: "separate_pairs (\<lambda>i. 2 * int i) (\<lambda>i. 2 * int i + 1) 0 3" unfolding separate_pairs_def by presburger
  have l: "length [NoError, PhaseFlip, NoError] = 3" by simp
  have "network_run ?net 0 ?net" by (rule nr_refl)
  from rounds_outcomes_agree [OF c s l this]
  have "(\<exists>p net'. party_step p 0 ?net = Some net') \<or> (\<exists>v. progs ?net ''Alice'' = Returned v)" by blast
  moreover have "progs ?net ''Alice'' \<noteq> Returned v" for v
    using c by (simp add: rounds_net_def net2_sel rounds_alice_run_def eval_nat_numeral flush_def)
  ultimately show ?thesis by blast
qed

end
