(* ===== verification/QkdChat.thy ===== *)
theory QkdChat
  imports QkdProps PyStr
begin

text \<open>
  The one-time pad of \<open>examples/applications/qkd/example_use_qkd.py\<close>: a message encrypted with a
  key both parties get from the key distribution.  The bit arrays are third-party; what the
  programs use of them is the record \<open>bitarray_ops\<close>, with the documented laws \<open>bitarray_laws\<close>.
\<close>

section \<open>Bit arrays and text\<close>

record bitarray_ops =
  from_bytes :: "int list \<Rightarrow> bool list"
  to_bytes :: "bool list \<Rightarrow> int list"
  bit_xor :: "bool list \<Rightarrow> bool list \<Rightarrow> bool list result"
  to01 :: "bool list \<Rightarrow> string"
  of01 :: "string \<Rightarrow> bool list result"

text \<open>
  A byte is eight bits, the highest first; an incomplete last byte is filled with zeros; the
  exclusive or wants equal lengths.
\<close>

definition bitarray_laws :: "bitarray_ops \<Rightarrow> bool" where
  "bitarray_laws B \<longleftrightarrow> (\<forall>bs. (\<forall>b \<in> set bs. 0 \<le> b \<and> b < 256) \<longrightarrow> length (from_bytes B bs) = 8 * length bs
       \<and> (\<forall>i < length bs. from_bytes B bs ! (8 * i) = (128 \<le> bs ! i))
       \<and> (\<forall>ys. to_bytes B (from_bytes B bs @ ys) = bs @ to_bytes B ys))
     \<and> (\<forall>k. to_bytes B (replicate k False) = replicate ((k + 7) div 8) 0)
     \<and> (\<forall>xs. (\<forall>i < length xs. 8 dvd i \<longrightarrow> \<not> xs ! i) \<longrightarrow> (\<forall>b \<in> set (to_bytes B xs). 0 \<le> b \<and> b < 128))
     \<and> (\<forall>xs ys. length xs = length ys \<longrightarrow> bit_xor B xs ys = Inr (map2 (\<noteq>) xs ys))
     \<and> (\<forall>xs. of01 B (to01 B xs) = Inr xs)"

text \<open>\<open>bytes(msg, "ascii")\<close> and \<open>decode("ascii")\<close>; both raise subclasses of \<open>ValueError\<close>.\<close>

definition ascii_encode :: "string \<Rightarrow> int list result" where
  "ascii_encode msg = (if \<forall>c \<in> set msg. (of_char c :: int) < 128 then Inr (map of_char msg) else Inl ValueError)"

definition ascii_decode :: "int list \<Rightarrow> string result" where
  "ascii_decode bs = (if \<forall>b \<in> set bs. 0 \<le> b \<and> b < 128 then Inr (map char_of bs) else Inl ValueError)"

section \<open>The programs\<close>

definition chat_num_test :: int where
  "chat_num_test = 30"

definition chat_num_epr :: "nat \<Rightarrow> int" where
  "chat_num_epr bits = \<lfloor>(of_int (int bits + chat_num_test) * (22 / 10) + 10) :: rat\<rfloor>"

definition chat_encrypt :: "bitarray_ops \<Rightarrow> bool list \<Rightarrow> bool list \<Rightarrow> string result" where
  "chat_encrypt B key bit_msg =
     (if length key < length bit_msg then Inl RuntimeError
      else let bit_diff = length key - length bit_msg in
        bindE (bit_xor B key (bit_msg @ replicate bit_diff False)) (\<lambda>encrypted_msg. Inr (to01 B encrypted_msg)))"

definition clear_high_bits :: "bool list \<Rightarrow> bool list" where
  "clear_high_bits bit_msg = fold (\<lambda>j xs. xs[j := False]) (filter (\<lambda>j. 8 dvd j) [0..<length bit_msg]) bit_msg"

definition chat_decrypt :: "bitarray_ops \<Rightarrow> bool list \<Rightarrow> string \<Rightarrow> string result" where
  "chat_decrypt B key recv_msg =
     bindE (of01 B recv_msg) (\<lambda>bits. bindE (bit_xor B key bits) (\<lambda>bit_msg.
       ascii_decode (to_bytes B (clear_high_bits bit_msg))))"

text \<open>
  Both programs.  The numbers of pairs and of tests are sent and parsed; \<open>ma\<close> and \<open>mb\<close> are the bases
  and outcomes the parties would have, pair by pair.
\<close>

definition chat_run ::
    "bitarray_ops \<Rightarrow> (int list \<Rightarrow> nat \<Rightarrow> int list) \<Rightarrow> string \<Rightarrow> (nat \<Rightarrow> int \<times> int) \<Rightarrow> (nat \<Rightarrow> int \<times> int)
       \<Rightarrow> ((int list \<times> rat) \<times> (int list \<times> string \<times> rat)) result" where
  "chat_run B sample msg ma mb =
     bindE (ascii_encode msg) (\<lambda>bytes.
     let bit_msg = from_bytes B bytes; num_epr = chat_num_epr (length bit_msg) in
     bindE (py_int (py_str num_epr)) (\<lambda>recv_epr. bindE (py_int (py_str chat_num_test)) (\<lambda>recv_test.
     bindE (qkd_run sample (Some chat_num_test) (Some recv_test) (map ma [0..<nat num_epr]) (map mb [0..<nat recv_epr]))
       (\<lambda>((key_a, rate_a), (key_b, rate_b)).
     bindE (chat_encrypt B (map (\<lambda>m. m \<noteq> 0) key_a) bit_msg) (\<lambda>encrypted.
     bindE (chat_decrypt B (map (\<lambda>m. m \<noteq> 0) key_b) encrypted) (\<lambda>text.
       Inr ((key_a, rate_a), (key_b, text, rate_b))))))))"

section \<open>Encryption and decryption\<close>

lemma bitarray_lawsD:
  assumes "bitarray_laws B"
  shows "\<forall>b \<in> set bs. 0 \<le> b \<and> b < 256 \<Longrightarrow> length (from_bytes B bs) = 8 * length bs"
    and "\<forall>b \<in> set bs. 0 \<le> b \<and> b < 256 \<Longrightarrow> i < length bs \<Longrightarrow> from_bytes B bs ! (8 * i) = (128 \<le> bs ! i)"
    and "\<forall>b \<in> set bs. 0 \<le> b \<and> b < 256 \<Longrightarrow> to_bytes B (from_bytes B bs @ ys) = bs @ to_bytes B ys"
    and "to_bytes B (replicate k False) = replicate ((k + 7) div 8) 0"
    and "\<forall>i < length xs. 8 dvd i \<longrightarrow> \<not> xs ! i \<Longrightarrow> \<forall>b \<in> set (to_bytes B xs). 0 \<le> b \<and> b < 128"
    and "length xs = length zs \<Longrightarrow> bit_xor B xs zs = Inr (map2 (\<noteq>) xs zs)"
    and "of01 B (to01 B xs) = Inr xs"
  using assms unfolding bitarray_laws_def by blast+

lemma clear_high_nth:
  "length (fold (\<lambda>j xs. xs[j := False]) js xs) = length xs
     \<and> (\<forall>i < length xs. fold (\<lambda>j xs. xs[j := False]) js xs ! i = (xs ! i \<and> i \<notin> set js))"
proof (induction js arbitrary: xs)
  case (Cons j js)
  have "xs[j := False] ! i = (xs ! i \<and> i \<noteq> j)" if "i < length xs" for i
    using that by (cases "i = j") simp_all
  with Cons [of "xs[j := False]"] show ?case by auto
qed simp

lemma clear_high_bits: "length (clear_high_bits xs) = length xs"
    "i < length xs \<Longrightarrow> clear_high_bits xs ! i = (xs ! i \<and> \<not> 8 dvd i)"
  using clear_high_nth [of "filter (\<lambda>j. 8 dvd j) [0..<length xs]" xs] by (simp_all add: clear_high_bits_def)

lemma clear_high_id: "\<forall>i < length xs. 8 dvd i \<longrightarrow> \<not> xs ! i \<Longrightarrow> clear_high_bits xs = xs"
  by (intro nth_equalityI) (auto simp: clear_high_bits)

lemma pad_twice: "length xs = length ys \<Longrightarrow> map2 (\<noteq>) xs (map2 (\<noteq>) xs ys) = ys"
  by (induction xs ys rule: list_induct2) auto

lemma decrypt_total:
  assumes "bitarray_laws B" and "length key = length bits"
  obtains received where "chat_decrypt B key (to01 B bits) = Inr received"
proof -
  have l: "of01 B (to01 B bits) = Inr bits" "bit_xor B key bits = Inr (map2 (\<noteq>) key bits)"
    by (rule bitarray_lawsD(7) [OF assms(1)], rule bitarray_lawsD(6) [OF assms])
  have "\<forall>b \<in> set (to_bytes B (clear_high_bits (map2 (\<noteq>) key bits))). 0 \<le> b \<and> b < 128"
    by (rule bitarray_lawsD(5) [OF assms(1)]) (simp add: clear_high_bits)
  then show ?thesis using that by (simp add: chat_decrypt_def l ascii_decode_def)
qed

lemma of_char_nonneg: "0 \<le> (of_char c :: int)"
  using pos_mod_sign [of 256 "of_char c :: int"] by simp

lemma char_bytes: "ascii_encode msg = Inr bytes \<Longrightarrow> (\<forall>b \<in> set bytes. 0 \<le> b \<and> b < 128) \<and> map char_of bytes = msg \<and> length bytes = length msg"
  by (auto simp: ascii_encode_def of_char_nonneg split: if_splits intro: map_idI)

lemma encrypt_decrypt:
  assumes "bitarray_laws B" and "ascii_encode msg = Inr bytes" and "8 * length msg \<le> length key"
  obtains encrypted where "chat_encrypt B key (from_bytes B bytes) = Inr encrypted"
    and "chat_decrypt B key encrypted = Inr (msg @ replicate ((length key - 8 * length msg + 7) div 8) (char_of (0 :: int)))"
proof -
  note bytes = char_bytes [OF assms(2)]
  let ?bits = "from_bytes B bytes" and ?k = "length key - 8 * length msg"
  let ?ext = "?bits @ replicate ?k False"
  have b256: "\<forall>b \<in> set bytes. 0 \<le> b \<and> b < 256" using bytes by force
  have len: "length ?bits = 8 * length msg"
    and high: "\<And>i. i < length bytes \<Longrightarrow> ?bits ! (8 * i) = (128 \<le> bytes ! i)"
    and tob: "\<And>ys. to_bytes B (?bits @ ys) = bytes @ to_bytes B ys"
    and zeros: "to_bytes B (replicate ?k False) = replicate ((?k + 7) div 8) 0"
    using bitarray_lawsD(1-4) [OF assms(1)] b256 bytes by simp_all
  have lext: "length key = length ?ext" using assms(3) len by simp
  have "\<not> ?ext ! i" if "i < length ?ext" "8 dvd i" for i
  proof (cases "i < length ?bits")
    case True
    from that(2) obtain j where j: "i = 8 * j" by blast
    then have "j < length bytes" using True len bytes by simp
    moreover from this have "bytes ! j < 128" using bytes nth_mem by blast
    ultimately show ?thesis using high True by (simp add: j nth_append)
  next
    case False
    with that(1) show ?thesis by (simp add: nth_append)
  qed
  then have id: "clear_high_bits ?ext = ?ext" by (intro clear_high_id) blast
  have x: "bit_xor B key ?ext = Inr (map2 (\<noteq>) key ?ext)" "bit_xor B key (map2 (\<noteq>) key ?ext) = Inr ?ext"
    using bitarray_lawsD(6) [OF assms(1)] lext pad_twice [OF lext] by simp_all
  have "chat_encrypt B key ?bits = Inr (to01 B (map2 (\<noteq>) key ?ext))"
    using assms(3) len x(1) by (simp add: chat_encrypt_def)
  moreover have "of01 B (to01 B (map2 (\<noteq>) key ?ext)) = Inr (map2 (\<noteq>) key ?ext)"
    by (rule bitarray_lawsD(7) [OF assms(1)])
  then have "chat_decrypt B key (to01 B (map2 (\<noteq>) key ?ext)) = ascii_decode (bytes @ replicate ((?k + 7) div 8) 0)"
    by (simp only: chat_decrypt_def bindE_Inr x(2) id tob zeros)
  moreover have "ascii_decode (bytes @ replicate ((?k + 7) div 8) 0)
      = Inr (msg @ replicate ((?k + 7) div 8) (char_of (0 :: int)))"
    using bytes by (auto simp: ascii_decode_def)
  ultimately show ?thesis using that by simp
qed

text \<open>
  What the receiver decrypts with another key: the extended message with the bits flipped
  where the keys differ, and then the first bit of every byte cleared.
\<close>

lemma pad_other: "length xs = length ys \<Longrightarrow> length ys = length zs
    \<Longrightarrow> map2 (\<noteq>) zs (map2 (\<noteq>) xs ys) = map2 (\<noteq>) ys (map2 (\<noteq>) xs zs)"
  by (induction xs ys zs rule: list_induct3) auto

lemma encrypt_decrypt_other:
  assumes "bitarray_laws B" and "length bits \<le> length ka" and "length kb = length ka"
  obtains encrypted received where "chat_encrypt B ka bits = Inr encrypted" and "chat_decrypt B kb encrypted = Inr received"
    and "ascii_decode (to_bytes B (clear_high_bits
           (map2 (\<noteq>) (bits @ replicate (length ka - length bits) False) (map2 (\<noteq>) ka kb)))) = Inr received"
proof -
  let ?ext = "bits @ replicate (length ka - length bits) False"
  have l: "length ka = length ?ext" "length ?ext = length kb" using assms(2,3) by simp_all
  have x: "bit_xor B ka ?ext = Inr (map2 (\<noteq>) ka ?ext)" by (rule bitarray_lawsD(6) [OF assms(1) l(1)])
  have e: "chat_encrypt B ka bits = Inr (to01 B (map2 (\<noteq>) ka ?ext))" using assms(2) x by (simp add: chat_encrypt_def)
  have lk: "length kb = length (map2 (\<noteq>) ka ?ext)" using l by simp
  from decrypt_total [OF assms(1) lk] obtain received
    where d: "chat_decrypt B kb (to01 B (map2 (\<noteq>) ka ?ext)) = Inr received" by blast
  have "chat_decrypt B kb (to01 B (map2 (\<noteq>) ka ?ext))
      = ascii_decode (to_bytes B (clear_high_bits (map2 (\<noteq>) kb (map2 (\<noteq>) ka ?ext))))"
    by (simp only: chat_decrypt_def bitarray_lawsD(7) [OF assms(1)] bitarray_lawsD(6) [OF assms(1) lk] bindE_Inr)
  also have "map2 (\<noteq>) kb (map2 (\<noteq>) ka ?ext) = map2 (\<noteq>) ?ext (map2 (\<noteq>) ka kb)" by (rule pad_other [OF l])
  finally show ?thesis using that [OF e d] d by simp
qed

text \<open>
  C38: the message that arrives.  The parties' keys are made of their own outcomes, so they have
  the same length; with keys shorter than the message the run ends in \<open>RuntimeError\<close>.  Otherwise
  the receiver ends with the extended message in which exactly the bits are flipped at which the
  two keys differ, the first bit of every byte apart, which is cleared; nothing raises.  If moreover
  the parties' outcomes agree wherever their bases do, both have the same key and error
  rate zero, and the receiver has the message as it was sent, followed by a NUL character for each
  byte, complete or not, that the key is longer.
\<close>

theorem chat_message_received:
  assumes "bitarray_laws B" and "sample_law sample" and "ascii_encode msg = Inr bytes"
    and "n = nat (chat_num_epr (8 * length msg))" and "as = map ma [0..<n]" and "bs = map mb [0..<n]"
    and "ka = key_of (agreed_pairs as bs) (tested_pairs sample 30 as bs) as"
    and "kb = key_of (agreed_pairs as bs) (tested_pairs sample 30 as bs) bs"
    and "rate = of_int (errors_of (tested_pairs sample 30 as bs) as bs) / 30"
    and "len = length (agreed_pairs as bs) - min 30 (length (agreed_pairs as bs))"
  shows "length ka = len \<and> length kb = len \<and>
    (if len < 8 * length msg then chat_run B sample msg ma mb = Inl RuntimeError
     else \<exists>received. chat_run B sample msg ma mb = Inr ((ka, rate), (kb, received, rate))
        \<and> ascii_decode (to_bytes B (clear_high_bits (map2 (\<noteq>)
              (from_bytes B bytes @ replicate (len - 8 * length msg) False)
              (map2 (\<noteq>) (map (\<lambda>m. m \<noteq> 0) ka) (map (\<lambda>m. m \<noteq> 0) kb))))) = Inr received
        \<and> ((\<forall>i < n. fst (ma i) = fst (mb i) \<longrightarrow> snd (ma i) = snd (mb i)) \<longrightarrow> ka = kb \<and> rate = 0
            \<and> received = msg @ replicate ((len - 8 * length msg + 7) div 8) (char_of (0 :: int))))"
proof -
  let ?ka = "map (\<lambda>m. m \<noteq> 0) ka" and ?kb = "map (\<lambda>m. m \<noteq> 0) kb" and ?bits = "from_bytes B bytes"
  note bytes = char_bytes [OF assms(3)]
  have "\<forall>b \<in> set bytes. 0 \<le> b \<and> b < 256" using bytes by force
  then have bl: "length ?bits = 8 * length msg" using bitarray_lawsD(1) [OF assms(1)] bytes by simp
  have q: "qkd_run sample (Some 30) (Some 30) as bs = Inr ((ka, rate), (kb, rate))"
    using qkd_run_eq [where ma = as and mb = bs and ka = 30 and kb = 30, OF _ assms(2)] assms(5-9)
    by (simp add: num_tests_def Let_def py_divide_def)
  have kl: "length ka = len" "length kb = len"
    unfolding assms(7,8,10) using key_of_length [OF assms(2), of 30 as bs] by simp_all
  have run: "chat_run B sample msg ma mb = bindE (chat_encrypt B ?ka ?bits) (\<lambda>encrypted.
      bindE (chat_decrypt B ?kb encrypted) (\<lambda>received. Inr ((ka, rate), (kb, received, rate))))"
    using q by (simp add: chat_run_def Let_def assms(3) bl chat_num_test_def assms(5,6) flip: assms(4))
  show ?thesis
  proof (cases "len < 8 * length msg")
    case True
    then show ?thesis using kl by (simp add: run chat_encrypt_def bl)
  next
    case False
    then have "length ?bits \<le> length ?ka" "length ?kb = length ?ka" using kl bl by simp_all
    from encrypt_decrypt_other [OF assms(1) this] obtain encrypted received
      where er: "chat_encrypt B ?ka ?bits = Inr encrypted" "chat_decrypt B ?kb encrypted = Inr received"
        "ascii_decode (to_bytes B (clear_high_bits (map2 (\<noteq>) (?bits @ replicate (length ?ka - length ?bits) False)
           (map2 (\<noteq>) ?ka ?kb)))) = Inr received" by blast
    have "ka = kb \<and> rate = 0 \<and> received = msg @ replicate ((len - 8 * length msg + 7) div 8) (char_of (0 :: int))"
      if "\<forall>i < n. fst (ma i) = fst (mb i) \<longrightarrow> snd (ma i) = snd (mb i)"
    proof -
      have "\<forall>i < length as. fst (as ! i) = fst (bs ! i) \<longrightarrow> snd (as ! i) = snd (bs ! i)"
        using that by (simp add: assms(5,6))
      from agreeing_keys [OF _ assms(2) _ _ this, of 30 30] have k: "ka = kb" "rate = 0" using q by (auto simp: assms(5,6))
      have "8 * length msg \<le> length ?ka" using False kl by simp
      from encrypt_decrypt [OF assms(1,3) this] er(1,2) k(1) kl(1)
      have "received = msg @ replicate ((len - 8 * length msg + 7) div 8) (char_of (0 :: int))" by auto
      with k show ?thesis by blast
    qed
    then show ?thesis using False kl er by (auto simp: run bl)
  qed
qed

section \<open>An instance of the bit arrays\<close>

definition ex_byte_bits :: "int \<Rightarrow> bool list" where
  "ex_byte_bits b = map (\<lambda>k. odd (b div 2 ^ (7 - k))) [0..<8]"

function ex_to_bytes :: "bool list \<Rightarrow> int list" where
  "ex_to_bytes xs = (if xs = [] then []
     else foldl (\<lambda>n x. 2 * n + (if x then 1 else 0)) 0 (take 8 (xs @ replicate 8 False)) # ex_to_bytes (drop 8 xs))"
  by auto
termination by (relation "measure length") auto

declare ex_to_bytes.simps [simp del]

definition ex_bitarray :: bitarray_ops where
  "ex_bitarray = \<lparr>from_bytes = (\<lambda>bs. concat (map ex_byte_bits bs)), to_bytes = ex_to_bytes,
     bit_xor = (\<lambda>xs ys. if length xs = length ys then Inr (map2 (\<noteq>) xs ys) else Inl ValueError),
     to01 = map (\<lambda>x. if x then CHR ''1'' else CHR ''0''), of01 = (\<lambda>s. Inr (map (\<lambda>c. c = CHR ''1'') s))\<rparr>"

definition bits_value :: "int \<Rightarrow> bool list \<Rightarrow> int" where
  "bits_value n xs = foldl (\<lambda>n x. 2 * n + (if x then 1 else 0)) n xs"

lemma bits_value_simps [simp]: "bits_value n [] = n" "bits_value n (x # xs) = bits_value (2 * n + (if x then 1 else 0)) xs"
  by (simp_all add: bits_value_def)

lemma ex_to_bytes_Cons: "xs \<noteq> [] \<Longrightarrow> ex_to_bytes xs = bits_value 0 (take 8 (xs @ replicate 8 False)) # ex_to_bytes (drop 8 xs)"
  by (subst ex_to_bytes.simps) (simp add: bits_value_def)

lemma ex_to_bytes_Nil [simp]: "ex_to_bytes [] = []"
  by (simp add: ex_to_bytes.simps)

lemma bits_value_bounds: "0 \<le> n \<Longrightarrow> 0 \<le> bits_value n xs \<and> bits_value n xs < (n + 1) * 2 ^ length xs"
proof (induction xs arbitrary: n)
  case (Cons x xs)
  from Cons.prems have n: "0 \<le> 2 * n + (if x then 1 else 0)" by simp
  have "(2 * n + (if x then 1 else 0) + 1) * 2 ^ length xs \<le> (2 * n + 2) * (2 :: int) ^ length xs"
    by (rule mult_right_mono) simp_all
  with Cons.IH [OF n] have "0 \<le> bits_value (2 * n + (if x then 1 else 0)) xs"
    "bits_value (2 * n + (if x then 1 else 0)) xs < (2 * n + 2) * 2 ^ length xs" by linarith+
  then show ?case by (simp add: algebra_simps)
qed simp

lemma halves: "2 * (b div (2 * k)) + (if odd (b div k) then 1 else 0) = (b div k :: int)"
proof -
  have "b div (2 * k) = b div k div 2" by (simp add: zdiv_zmult2_eq mult.commute [of 2])
  then show ?thesis using mult_div_mod_eq [of 2 "b div k"] by (auto simp: odd_iff_mod_2_eq_one)
qed

lemma ex_byte_bits_eq: "ex_byte_bits b = [odd (b div 128), odd (b div 64), odd (b div 32), odd (b div 16),
    odd (b div 8), odd (b div 4), odd (b div 2), odd (b div 1)]"
  by (simp add: ex_byte_bits_def upt_rec)

lemma ex_byte_value: "0 \<le> b \<Longrightarrow> b < 256 \<Longrightarrow> bits_value 0 (ex_byte_bits b) = b"
  using halves [of b 128] halves [of b 64] halves [of b 32] halves [of b 16] halves [of b 8] halves [of b 4]
    halves [of b 2] halves [of b 1]
  by (simp add: ex_byte_bits_eq)

lemma ex_bytes_append:
  "\<forall>b \<in> set bs. 0 \<le> b \<and> b < 256 \<Longrightarrow> ex_to_bytes (concat (map ex_byte_bits bs) @ ys) = bs @ ex_to_bytes ys"
proof (induction bs)
  case (Cons b bs)
  have l: "length (ex_byte_bits b) = 8" by (simp add: ex_byte_bits_def)
  then have "ex_byte_bits b \<noteq> []" by auto
  then have "ex_to_bytes (ex_byte_bits b @ zs) = b # ex_to_bytes zs" for zs
    using Cons.prems by (simp add: ex_to_bytes_Cons l ex_byte_value)
  with Cons show ?case by simp
qed simp

lemma ex_bytes_zeros: "ex_to_bytes (replicate k False) = replicate ((k + 7) div 8) 0"
proof (induction k rule: less_induct)
  case (less k)
  have z: "bits_value 0 (replicate j False) = 0" for j by (induction j) simp_all
  show ?case
  proof (cases "k = 0")
    case False
    have "take 8 (replicate k False @ replicate 8 False) = replicate 8 False"
      by (simp flip: replicate_add)
    then have "ex_to_bytes (replicate k False) = 0 # ex_to_bytes (replicate (k - 8) False)"
      using False by (simp add: ex_to_bytes_Cons z)
    also have "ex_to_bytes (replicate (k - 8) False) = replicate ((k - 8 + 7) div 8) 0" using less False by simp
    also have "0 # \<dots> = replicate (Suc ((k - 8 + 7) div 8)) 0" by simp
    also have "Suc ((k - 8 + 7) div 8) = (k + 7) div 8" using False by (cases "8 \<le> k") (simp_all add: div_eq_dividend_iff)
    finally show ?thesis .
  qed simp
qed

lemma ex_bytes_high: "\<forall>i < length xs. 8 dvd i \<longrightarrow> \<not> xs ! i \<Longrightarrow> \<forall>b \<in> set (ex_to_bytes xs). 0 \<le> b \<and> b < 128"
proof (induction xs rule: ex_to_bytes.induct)
  case (1 xs)
  show ?case
  proof (cases xs)
    case (Cons x ys)
    have x: "\<not> x" using 1(2) Cons by auto
    have h: "take 8 (xs @ replicate 8 False) = False # take 7 (ys @ replicate 8 False)" using Cons x by simp
    have v: "0 \<le> bits_value 0 (take 8 (xs @ replicate 8 False)) \<and> bits_value 0 (take 8 (xs @ replicate 8 False)) < 128"
    proof -
      have "length (take 7 (ys @ replicate 8 False)) = 7" by simp
      then show ?thesis unfolding h using bits_value_bounds [of 0 "take 7 (ys @ replicate 8 False)"]
        by (simp del: take_append)
    qed
    have "\<forall>i < length (drop 8 xs). 8 dvd i \<longrightarrow> \<not> drop 8 xs ! i"
    proof (intro allI impI)
      fix i assume "i < length (drop 8 xs)" "8 dvd i"
      then have "8 + i < length xs" "8 dvd 8 + i" by auto
      with 1(2) have "\<not> xs ! (8 + i)" by blast
      then show "\<not> drop 8 xs ! i" using \<open>8 + i < length xs\<close> by simp
    qed
    with 1(1) Cons have "\<forall>b \<in> set (ex_to_bytes (drop 8 xs)). 0 \<le> b \<and> b < 128" by blast
    with v Cons show ?thesis by (simp add: ex_to_bytes_Cons)
  qed simp
qed

lemma ex_bytes_nth:
  "\<forall>b \<in> set bs. 0 \<le> b \<and> b < 256 \<Longrightarrow> i < length bs \<Longrightarrow> concat (map ex_byte_bits bs) ! (8 * i) = (128 \<le> bs ! i)"
proof (induction bs arbitrary: i)
  case (Cons b bs)
  have l: "length (ex_byte_bits b) = 8" by (simp add: ex_byte_bits_def)
  show ?case
  proof (cases i)
    case 0
    have "b div 128 = 0 \<or> b div 128 = 1" using Cons.prems by auto
    then show ?thesis using Cons.prems 0 by (auto simp: ex_byte_bits_eq)
  next
    case (Suc j)
    then show ?thesis using Cons by (simp add: nth_append l)
  qed
qed simp

lemma ex_bitarray_laws: "bitarray_laws ex_bitarray"
proof -
  have "length (concat (map ex_byte_bits bs)) = 8 * length bs" for bs
    by (induction bs) (simp_all add: ex_byte_bits_def)
  moreover have "map ((\<lambda>c. c = CHR ''1'') \<circ> (\<lambda>x. if x then CHR ''1'' else CHR ''0'')) xs = xs" for xs
    by (induction xs) simp_all
  ultimately show ?thesis
    using ex_bytes_append ex_bytes_zeros ex_bytes_high ex_bytes_nth by (simp add: bitarray_laws_def ex_bitarray_def)
qed

text \<open>Everything measured in the same basis with the same outcome, and the letter A sent.\<close>

theorem chat_message_received_witness:
  "\<exists>key. chat_run ex_bitarray (\<lambda>xs k. take k xs) ''A'' (\<lambda>i. (0, int i mod 2)) (\<lambda>i. (0, int i mod 2))
     = Inr ((key, 0), (key, ''A'' @ replicate 7 (char_of (0 :: int)), 0))"
proof -
  have a: "agreed_pairs (map (\<lambda>i. (0, int i mod 2)) [0..<93]) (map (\<lambda>i. (0, int i mod 2)) [0..<93]) = map int [0..<93]"
    by (auto simp: agreed_pairs_def)
  have n: "93 = nat (chat_num_epr (8 * length ''A''))"
  proof -
    have "\<lfloor>468 / 5 :: rat\<rfloor> = 93" by (rule floor_unique) simp_all
    then show ?thesis by (simp add: chat_num_epr_def chat_num_test_def)
  qed
  have e: "ascii_encode ''A'' = Inr [65]" by (simp add: ascii_encode_def of_char_def)
  from chat_message_received [OF ex_bitarray_laws take_law e n refl refl refl refl refl refl,
      where ma = "\<lambda>i. (0, int i mod 2)" and mb = "\<lambda>i. (0, int i mod 2)"]
  show ?thesis unfolding a by auto
qed

end
