(* ===== verification/Spec2Isabelle.thy ===== *)
theory Spec2Isabelle
  imports NodeProps NVProps MemProps ProcProps NetProps HostProps WiringProps QkdProps RoutineProps
    QueueProps SimProps ExecutorProps SingleProps RuntimeProps StateHelpers
    ChshGame BlindHiding TrapRounds PartialBlind GhzLine EntanglementSwap UseRoutines DistributedCnot
    EprRounds QkdChat
begin

text \<open>
  Verification of SquidASM, a simulator of quantum networks whose nodes run NetQASM programs.

  The program has two simulators that share utilities.

  \<^item> The stack (\<open>squidasm/sim/stack\<close>, run by \<open>squidasm/run/stack\<close>): every node has a host,
    which runs an application, and a QNodeOS of three protocols, handler, processor and network
    stack, over shared application memories and one physical memory.
  \<^item> The NetQASM simulation (\<open>squidasm/nqasm\<close>, \<open>squidasm/sim/network\<close>, \<open>squidasm/sim/glob.py\<close>,
    \<open>squidasm/sim/queues.py\<close>): a scheduler of subroutines per node, executors that drive a
    device, and a network of links.
  \<^item> Routines for applications (\<open>squidasm/util\<close>), written against the SDK.

  How the program is modelled.  Python's exceptions are the values of \<open>py_error\<close>; an operation
  that may raise returns a sum, and a raise discards the state, since nothing in the modelled
  code catches one after a change.  Dictionaries are association lists in insertion order.  A
  protocol is a generator; its model is a program counter in the node's state and a step
  function for what it does between two \<open>yield\<close>s, which the framework runs without
  interruption.  An event of a node (a step of one protocol, a message, an outcome of the
  device) is a value of \<open>node_event\<close>, and \<open>reachable\<close> allows every order of events.
  Operations that loop over lists are recursive functions; no fuel is needed, and loops that
  may wait for ever are steps or return \<open>None\<close>.  Third-party code is a parameter: the shared
  memory of the NetQASM package (\<open>shmem\<close>, with the laws \<open>shmem_laws\<close>), its branch conditions,
  response layouts and codecs, the link-layer (EGP) service, the device, hashing and random
  choice.

  Stack, theory by theory.

  \<^item> \<open>Prelude\<close>, \<open>PyStr\<close>, \<open>Operands\<close>: exceptions, loops, ranges, dictionaries; \<open>int\<close> and \<open>str\<close>;
    the instruction set and the parameter \<open>shmem\<close>.
  \<^item> \<open>PhysMem\<close> (\<open>common.py\<close>, \<open>PhysicalQuantumMemory\<close>), with the contract \<open>qubit_pool\<close> of the three
    allocation methods; \<open>AppMem\<close> (\<open>common.py\<close>, \<open>AppMemory\<close>).
  \<^item> \<open>NodeState\<close>, the record of a node; \<open>Processor\<close>, \<open>ProcGeneric\<close>, \<open>ProcNV\<close>, \<open>ProcLoop\<close>
    (\<open>processor.py\<close>); \<open>Netstack\<close> (\<open>netstack.py\<close>); \<open>Handler\<close> (\<open>handler.py\<close>); \<open>QnosNode\<close>
    (\<open>qnos.py\<close>), the node as a whole and \<open>reachable\<close>.
  \<^item> \<open>Ownership\<close>: the abstract machine of who holds which physical qubit.  \<open>ProcInv\<close>, \<open>NVInv\<close>,
    \<open>NetInv\<close>, \<open>HandInv\<close> prove that each protocol's steps are steps of that machine; \<open>Control\<close>
    and \<open>NodeInv\<close> the invariant of the protocols' handshakes and the invariant of a node.
    \<open>ProcTime\<close> bounds the steps of a subroutine; \<open>NstkWait\<close> shows that nothing but the network
    stack itself ends its wait for memory.
  \<^item> \<open>NodeProps\<close>, \<open>NVProps\<close>, \<open>MemProps\<close>, \<open>ProcProps\<close>, \<open>NetProps\<close>: the properties of a node, on
    the reachable examples of \<open>Example\<close>.
  \<^item> \<open>Listener\<close> (port listeners, with the contract \<open>mailbox\<close>), \<open>Directory\<close> (\<open>context.py\<close>, with the
    contract \<open>node_directory\<close>), \<open>Host\<close> (\<open>host.py\<close>, \<open>program.py\<close>, \<open>connection.py\<close>), \<open>HostProps\<close>.
  \<^item> \<open>StackConfig\<close> (\<open>config.py\<close>, \<open>util.py\<close>), \<open>StackNetwork\<close> (\<open>stack.py\<close>, \<open>build.py\<close>, \<open>run.py\<close>,
    \<open>qnos_network_service.py\<close>), \<open>NetworkWiring\<close> and \<open>WiringProps\<close>: setting up a network of
    nodes, and the messages between them.

  Routines.

  \<^item> \<open>QuantumState\<close>: amplitudes over all qubits, gates, measurements with a given outcome, and
    what the processor's device programs do to them.  States are not normalised: the weight
    of a state is the probability of the outcomes that led to it.
  \<^item> \<open>Routines\<close> (\<open>routines.py\<close>): a routine is a tree of subroutines, messages and results;
    \<open>network_run\<close> runs several parties in any order of their actions.
  \<^item> \<open>AnyOrder\<close>, \<open>Schedules\<close>: when the parties own disjoint qubits their actions commute, so if one
    schedule, played for all outcomes, ends well, so does every other, after as many actions
    (\<open>schedule_independence\<close>).  The routines and the programs below are each played once, by
    rewriting: \<open>Teleport\<close>, \<open>DistributedGate\<close>, with the results in \<open>RoutineProps\<close>.
  \<^item> \<open>QkdRoutine\<close>, \<open>QkdProps\<close> (\<open>qkd_routine.py\<close>): key distribution between two parties.

  Applications, on top of the routines and of \<open>CSocket\<close> (\<open>sim/stack/csocket.py\<close>).  How Python
prints and reads a floating-point number is the parameter \<open>float_io\<close>; numbers are reals.

  \<^item> \<open>ChshGame\<close> (\<open>examples/applications/chsh_game\<close>); \<open>BlindStates\<close>, \<open>BlindQC\<close> (\<open>examples/applications/bqc\<close>),
    \<open>TrapRounds\<close> (\<open>examples/advanced/bqc\<close>), \<open>PartialBlind\<close> (\<open>examples/advanced/partial_bqc\<close>): outcomes
    of every run with their weights.  \<open>BlindHiding\<close>: what any server learns of the client's angles.
  \<^item> \<open>GhzLine\<close> (\<open>examples/advanced/ghz\<close>): a GHZ state along a line of any number of nodes.
  \<^item> \<open>EntanglementSwap\<close> (\<open>examples/tutorial/4.3_multi-node\<close>): three nodes.  \<open>EprRounds\<close>
    (\<open>examples/tutorial/3.1_output\<close>): any number of rounds over an imperfect link, with the
    errors its script counts.
  \<^item> \<open>QkdChat\<close> (\<open>examples/applications/qkd/example_use_qkd.py\<close>): a one-time pad over the key
    distribution; bit arrays are the parameter \<open>bitarray_ops\<close> with the laws \<open>bitarray_laws\<close>.
  \<^item> \<open>StatePrep\<close>: commands queued before a routine, and qubits prepared by the SDK's toolbox, which
    is a parameter; with them \<open>UseRoutines\<close> (\<open>examples/applications/teleport/example_use_teleport.py\<close>,
    \<open>distributed_gate/example_use_distributed_cnot.py\<close>) and \<open>DistributedCnot\<close>
    (\<open>distributed_gate/example_distributed_cnot.py\<close>).

  NetQASM simulation.

  \<^item> \<open>SimQueues\<close> (\<open>queues.py\<close>, a second \<open>mailbox\<close>), \<open>TaskScheduler\<close> (\<open>qnodeos.py\<close>), \<open>Signaling\<close>
    (\<open>nqasm/netstack.py\<close>), with \<open>QueueProps\<close>.
  \<^item> \<open>Executor\<close>, \<open>ExecutorProps\<close> (\<open>nqasm/executor\<close>): generators as trees of device actions, and
    their agreement with the stack's processors.
  \<^item> \<open>NVDevice\<close> (\<open>nv_config.py\<close>), \<open>SimRegistry\<close> (\<open>glob.py\<close>, \<open>output.py\<close>, a second
    \<open>node_directory\<close>), \<open>SimNetwork\<close> and \<open>SimDelivery\<close> (\<open>network.py\<close>), with \<open>SimProps\<close>.

  Running a simulation.

  \<^item> \<open>SingleThread\<close>, \<open>SingleProps\<close> (\<open>run/singlethread/protocols.py\<close>, \<open>nqasm/singlethread/connection.py\<close>):
    the connection of a program and the QNodeOS protocol as two state machines with a channel
    either way; the relation \<open>single_run\<close> has all interleavings, and \<open>single_phase\<close> describes the
    states of a run.
  \<^item> \<open>Runtime\<close>, \<open>RuntimeProps\<close> (\<open>run/multithread/runtime_mgr.py\<close>, \<open>util/thread.py\<close>): handlers, the
    backend's thread, and the collection of results as a loop that may not end (\<open>None\<close>), with
    the proof that it ends when all programs do.
  \<^item> \<open>StateHelpers\<close> (\<open>util/ns.py\<close>): entanglement and the partial transpose.

  Noise.  \<open>SimProps\<close> has the state a noisy link of the NetQASM simulation delivers.  In the
  routines and applications a pair is created perfect (\<open>epr_pair\<close>), and gates and measurements are
  those of a device without noise: their theorems are about noiseless links and devices.  The
  exception is \<open>EprRounds\<close>, whose pairs may have any errors; the outcomes \<open>QkdProps\<close> and \<open>QkdChat\<close>
  start from are arbitrary, so they cover noise as well.  Losing qubits over time is not modelled.

  Bounds.  Identifiers, times in nanoseconds and array entries are Python's integers and
  rationals for its floats, so nothing overflows.  Angles are rational multiples of \<open>pi\<close> in the
  stack and reals in the routines.  The step bound of \<open>branch_free_terminates\<close> is five per
  instruction, as a measurement on NV hardware takes four besides the one that looks at the program
  counter; four more, and one for every message the network stack has sent before.

  Not modelled.  The \<open>Component\<close> classes, which only create NetSquid ports; logging; reading
  YAML files; reading quantum states out of a simulation (\<open>util/util.py\<close>, \<open>util/sim.py\<close>,
  \<open>sim/stack/globals.py\<close>), also where an example returns one, and breakpoints; structured
  messages and the socket of \<open>nqasm/singlethread/csocket.py\<close>, which hand objects on; the rewriting
  of an application's source (\<open>run/singlethread/util.py\<close>) and the log directories of
  \<open>run/multithread/simulate.py\<close>; the other examples, which configure networks or repeat the
  programs above; the tests.  Messages between nodes (\<open>carry_message\<close>) arrive at once and in
  order; the routing service of \<open>squidasm\<close>'s dependencies, which delays them, is left out.
\<close>

end
